(* ===== verification/Prelude.thy ===== *)
theory Prelude
  imports Main "HOL-Library.Sublist"
begin

text \<open>
  Shared ground of the development.

  \<^item> UTF-8 strings: a Rust \<open>str\<close> is a sequence of bytes that is valid UTF-8, so a \<open>string\<close>
    of this development is the byte sequence; \<open>utf8_chars\<close> is \<open>str::chars\<close>, each character
    kept as the bytes of its encoding.
  \<^item> Tables: a database table is the list of its rows in insertion order. \<open>sql_update\<close>,
    \<open>sql_count\<close>, \<open>sql_find\<close> and \<open>sql_delete\<close> are the statements the program issues, with
    \<open>rows_affected\<close> as their result.
  \<^item> Relations on states, and the rules by which sequential code keeps them.
\<close>

section \<open>Named collections\<close>

named_theorems sql_simps \<open>evaluation of table statements\<close>
named_theorems keeps_intros \<open>rules by which a transaction body keeps a relation\<close>
named_theorems wf_simps \<open>unfolding of well-formedness predicates\<close>

section \<open>Table statements\<close>

text \<open>\<open>UPDATE t SET f WHERE P\<close>: the new table; the rows affected are \<open>sql_count P\<close>.\<close>

definition sql_update :: "('r \<Rightarrow> bool) \<Rightarrow> ('r \<Rightarrow> 'r) \<Rightarrow> 'r list \<Rightarrow> 'r list" where
  "sql_update P f rs = map (\<lambda>r. if P r then f r else r) rs"

text \<open>\<open>SELECT COUNT(*) FROM t WHERE P\<close>, and the \<open>rows_affected\<close> of an update or delete.\<close>

definition sql_count :: "('r \<Rightarrow> bool) \<Rightarrow> 'r list \<Rightarrow> nat" where
  "sql_count P rs = length (filter P rs)"

text \<open>\<open>SELECT * FROM t WHERE P LIMIT 1\<close> (\<open>fetch_optional\<close>).\<close>

definition sql_find :: "('r \<Rightarrow> bool) \<Rightarrow> 'r list \<Rightarrow> 'r option" where
  "sql_find P rs = find P rs"

text \<open>\<open>DELETE FROM t WHERE P\<close>.\<close>

definition sql_delete :: "('r \<Rightarrow> bool) \<Rightarrow> 'r list \<Rightarrow> 'r list" where
  "sql_delete P rs = filter (\<lambda>r. \<not> P r) rs"

lemma length_sql_update [simp]: "length (sql_update P f rs) = length rs"
  by (simp add: sql_update_def)

lemma set_sql_update: "set (sql_update P f rs) = (\<lambda>r. if P r then f r else r) ` set rs"
  by (simp add: sql_update_def)

lemma in_sql_update:
  "r' \<in> set (sql_update P f rs) \<longleftrightarrow> (\<exists>r \<in> set rs. r' = (if P r then f r else r))"
  by (auto simp: sql_update_def)

lemma in_sql_updateI: "r \<in> set rs \<Longrightarrow> (if P r then f r else r) \<in> set (sql_update P f rs)"
  by (auto simp: in_sql_update)

lemma map_sql_update [simp]:
  "(\<And>r. k (f r) = k r) \<Longrightarrow> map k (sql_update P f rs) = map k rs"
  by (simp add: sql_update_def)

lemma sql_update_none [simp]: "sql_count P rs = 0 \<Longrightarrow> sql_update P f rs = rs"
  by (induction rs) (auto simp: sql_update_def sql_count_def split: if_splits)

lemma sql_count_zero_iff: "sql_count P rs = 0 \<longleftrightarrow> (\<forall>r \<in> set rs. \<not> P r)"
  by (simp add: sql_count_def filter_empty_conv)

lemma sql_count_pos_iff: "0 < sql_count P rs \<longleftrightarrow> (\<exists>r \<in> set rs. P r)"
  using sql_count_zero_iff [of P rs] by auto

lemma in_sql_delete: "r \<in> set (sql_delete P rs) \<longleftrightarrow> r \<in> set rs \<and> \<not> P r"
  by (auto simp: sql_delete_def)

lemma filter_eq_ConsD: "filter P xs = y # ys \<Longrightarrow> y \<in> set xs \<and> P y"
  by (auto simp: filter_eq_Cons_iff)

lemma sql_find_SomeD: "sql_find P rs = Some r \<Longrightarrow> r \<in> set rs \<and> P r"
  by (induction rs) (auto simp: sql_find_def split: if_splits)

lemma sql_find_None_iff: "sql_find P rs = None \<longleftrightarrow> (\<forall>r \<in> set rs. \<not> P r)"
  by (auto simp: sql_find_def find_None_iff)

text \<open>
  A table with a primary key: looking a row up by key after an update by key. These are the
  laws every table of the store obeys while its keys are distinct.
\<close>

lemma sql_find_key:
  assumes "distinct (map k rs)" and "r \<in> set rs"
  shows "sql_find (\<lambda>x. k x = k r) rs = Some r"
  using assms
proof (induction rs)
  case Nil
  then show ?case by simp
next
  case (Cons x xs)
  show ?case
  proof (cases "r = x")
    case True
    then show ?thesis by (simp add: sql_find_def)
  next
    case False
    with Cons.prems have "k x \<noteq> k r" and "r \<in> set xs" by (auto simp: rev_image_eqI)
    with Cons show ?thesis by (simp add: sql_find_def)
  qed
qed

lemma sql_find_key_iff:
  assumes "distinct (map k rs)"
  shows "sql_find (\<lambda>x. k x = i) rs = Some r \<longleftrightarrow> r \<in> set rs \<and> k r = i"
  using sql_find_SomeD [of "\<lambda>x. k x = i" rs r] sql_find_key [OF assms, of r] by auto

lemma key_inj:
  "distinct (map k rs) \<Longrightarrow> r \<in> set rs \<Longrightarrow> r' \<in> set rs \<Longrightarrow> k r = k r' \<Longrightarrow> r = r'"
  by (metis option.inject sql_find_key)

lemma sql_find_update:
  assumes "\<And>r. k (f r) = k r"
  shows "sql_find (\<lambda>x. k x = i) (sql_update P f rs) =
    map_option (\<lambda>r. if P r then f r else r) (sql_find (\<lambda>x. k x = i) rs)"
  using assms by (induction rs) (auto simp: sql_find_def sql_update_def)

section \<open>Results\<close>

text \<open>
  A Rust \<open>Result<T, E>\<close> is \<open>'e + 't\<close>, the error on the left. \<open>map_err\<close> is \<open>Result::map_err\<close>.
\<close>

fun map_err :: "('e \<Rightarrow> 'f) \<Rightarrow> 'e + 'a \<Rightarrow> 'f + 'a" where
  "map_err f (Inl e) = Inl (f e)"
| "map_err f (Inr x) = Inr x"

fun ok_or :: "'e \<Rightarrow> 'a option \<Rightarrow> 'e + 'a" where
  "ok_or e None = Inl e"
| "ok_or e (Some x) = Inr x"

fun ok :: "'e + 'a \<Rightarrow> 'a option" where
  "ok (Inl e) = None"
| "ok (Inr x) = Some x"

lemma map_err_Inr_iff [simp]: "map_err f r = Inr x \<longleftrightarrow> r = Inr x"
  by (cases r) auto

lemma map_err_Inl_iff [simp]: "map_err f r = Inl e' \<longleftrightarrow> (\<exists>e. r = Inl e \<and> e' = f e)"
  by (cases r) auto

lemma ok_or_Inr_iff [simp]: "ok_or e p = Inr x \<longleftrightarrow> p = Some x"
  by (cases p) auto

lemma ok_or_Inl_iff [simp]: "ok_or e p = Inl e' \<longleftrightarrow> p = None \<and> e' = e"
  by (cases p) auto

lemma ok_Some_iff [simp]: "ok r = Some x \<longleftrightarrow> r = Inr x"
  by (cases r) auto

section \<open>Strings of bytes\<close>

text \<open>
  A byte \<open>b\<close> continues a UTF-8 sequence when its two top bits are \<open>10\<close>. \<open>utf8_chars\<close> cuts
  a byte string in front of every other byte, which on valid UTF-8 is \<open>str::chars\<close>.
\<close>

definition is_cont_byte :: "char \<Rightarrow> bool" where
  "is_cont_byte b \<longleftrightarrow> 128 \<le> (of_char b :: nat) \<and> (of_char b :: nat) < 192"

function utf8_chars :: "string \<Rightarrow> string list" where
  "utf8_chars [] = []"
| "utf8_chars (b # bs) = (b # takeWhile is_cont_byte bs) # utf8_chars (dropWhile is_cont_byte bs)"
  by pat_completeness auto
termination
  by (relation "measure length") (auto simp: length_dropWhile_le le_imp_less_Suc)

lemma concat_utf8_chars [simp]: "concat (utf8_chars s) = s"
  by (induction s rule: utf8_chars.induct) auto

lemma utf8_chars_nonempty: "c \<in> set (utf8_chars s) \<Longrightarrow> c \<noteq> []"
  by (induction s rule: utf8_chars.induct) auto

lemma utf8_chars_Nil_iff [simp]: "utf8_chars s = [] \<longleftrightarrow> s = []"
  by (cases s) auto

lemma takeWhile_block:
  "\<forall>c \<in> set t. P c \<Longrightarrow> x = [] \<or> \<not> P (hd x) \<Longrightarrow> takeWhile P (t @ x) = t"
  by (induction t) (cases x; auto)+

lemma dropWhile_block:
  "\<forall>c \<in> set t. P c \<Longrightarrow> x = [] \<or> \<not> P (hd x) \<Longrightarrow> dropWhile P (t @ x) = x"
  by (induction t) (cases x; auto)+

lemma utf8_chars_prefix: "utf8_chars (concat (take k (utf8_chars s))) = take k (utf8_chars s)"
proof (induction s arbitrary: k rule: utf8_chars.induct)
  case 1
  then show ?case by simp
next
  case (2 b bs)
  show ?case
  proof (cases k)
    case 0
    then show ?thesis by simp
  next
    case (Suc k')
    let ?d = "dropWhile is_cont_byte bs" and ?t = "takeWhile is_cont_byte bs"
    let ?x = "concat (take k' (utf8_chars ?d))"
    have hd: "?x = [] \<or> \<not> is_cont_byte (hd ?x)"
    proof (cases ?d)
      case (Cons c cs)
      then have "\<not> is_cont_byte c" by (metis hd_dropWhile list.distinct(1) list.sel(1))
      with Cons show ?thesis by (cases k') simp_all
    next
      case Nil
      then show ?thesis by (simp only: utf8_chars.simps take_Nil concat.simps simp_thms)
    qed
    have "\<forall>c \<in> set ?t. is_cont_byte c" by (auto dest: set_takeWhileD)
    from takeWhile_block [OF this hd] dropWhile_block [OF this hd]
    show ?thesis using Suc 2 by simp
  qed
qed

lemma set_map_filter': "set (List.map_filter f xs) = {y. \<exists>x \<in> set xs. f x = Some y}"
  by (induction xs) (auto simp: List.map_filter_simps split: option.splits)

end
