(* ===== verification/Json.thy ===== *)
theory Json
  imports Prelude
begin

text \<open>
  JSON values (\<open>serde_json::Value\<close>) and the accessors the program uses, and the contents of
  a JSON text column.

  An object is an association list of its members: \<open>get\<close> looks a key up and \<open>jset\<close> is the
  assignment \<open>v[k] = x\<close>. A number is an integer, or a floating-point number kept as its
  literal, which no integer accessor accepts.
\<close>

datatype jnum = NInt int | NFloat string

datatype json =
    JNull
  | JBool bool
  | JNum jnum
  | JStr string
  | JArr "json list"
  | JObj "(string \<times> json) list"

section \<open>Accessors\<close>

fun get :: "json \<Rightarrow> string \<Rightarrow> json option" where
  "get (JObj kvs) k = map_of kvs k"
| "get _ k = None"

fun as_str :: "json \<Rightarrow> string option" where
  "as_str (JStr s) = Some s"
| "as_str _ = None"

fun as_bool :: "json \<Rightarrow> bool option" where
  "as_bool (JBool b) = Some b"
| "as_bool _ = None"

fun as_array :: "json \<Rightarrow> json list option" where
  "as_array (JArr vs) = Some vs"
| "as_array _ = None"

fun is_object :: "json \<Rightarrow> bool" where
  "is_object (JObj _) = True"
| "is_object _ = False"

definition i64_min :: int where "i64_min = - (2 ^ 63)"

definition i64_max :: int where "i64_max = 2 ^ 63 - 1"

fun as_i64 :: "json \<Rightarrow> int option" where
  "as_i64 (JNum (NInt n)) = (if i64_min \<le> n \<and> n \<le> i64_max then Some n else None)"
| "as_i64 _ = None"

text \<open>\<open>v.get(k).and_then(Value::as_str)\<close> and its kin.\<close>

definition get_str :: "json \<Rightarrow> string \<Rightarrow> string option" where
  "get_str v k = Option.bind (get v k) as_str"

definition get_bool :: "json \<Rightarrow> string \<Rightarrow> bool option" where
  "get_bool v k = Option.bind (get v k) as_bool"

definition get_array :: "json \<Rightarrow> string \<Rightarrow> json list option" where
  "get_array v k = Option.bind (get v k) as_array"

fun jset :: "string \<Rightarrow> json \<Rightarrow> json \<Rightarrow> json" where
  "jset k x (JObj kvs) = JObj (filter (\<lambda>kv. fst kv \<noteq> k) kvs @ [(k, x)])"
| "jset k x v = v"

definition jint :: "int \<Rightarrow> json" where "jint n = JNum (NInt n)"

lemma map_of_filter_fst: "map_of (filter (\<lambda>kv. fst kv \<noteq> k) kvs) k' = (if k' = k then None else map_of kvs k')"
  by (induction kvs) auto

lemma get_jset [simp]:
  "is_object v \<Longrightarrow> get (jset k x v) k' = (if k' = k then Some x else get v k')"
  by (cases v) (auto simp: map_add_def map_of_filter_fst split: option.splits)

lemma is_object_jset [simp]: "is_object (jset k x v) = is_object v"
  by (cases v) auto

lemma as_i64_jint [simp]:
  "i64_min \<le> n \<Longrightarrow> n \<le> i64_max \<Longrightarrow> as_i64 (jint n) = Some n"
  by (simp add: jint_def)

lemmas json_get_defs = get_str_def get_bool_def get_array_def

section \<open>JSON text columns\<close>

text \<open>
  A text column that holds JSON is one of two kinds of string: the text of a value, which
  \<open>serde_json::from_str\<close> reads back, or a string that is no JSON. \<open>to_string\<close> and
  \<open>from_str\<close> are the library's two functions on this view of strings.
\<close>

datatype jtext = JText json | NotJson string

definition to_string :: "json \<Rightarrow> jtext" where
  "to_string v = JText v"

fun from_str :: "jtext \<Rightarrow> json option" where
  "from_str (JText v) = Some v"
| "from_str (NotJson s) = None"

lemma from_str_to_string [simp]: "from_str (to_string v) = Some v"
  by (simp add: to_string_def)

end
