(* ===== verification/Store.thy ===== *)
theory Store
  imports Json
begin

text \<open>
  The scheduler's database as a value, and transactions over it.

  Each table is a record type with the columns of the migrations; columns with a \<open>CHECK\<close>
  list of values are datatypes. A database is the list of rows of each table, the next value
  of each identity column and the clock that \<open>CURRENT_TIMESTAMP\<close> reads.

  \<open>exec_tx\<close> is \<open>ExecutionTx\<close> of \<open>db/executions.rs\<close>: a working copy of the database, the
  execution it is scoped to and the cache of sessions verified to belong to it. A transaction
  body is a function from \<open>exec_tx\<close> to either an abort with a result (the transaction rolls
  back) or a value with the changed \<open>exec_tx\<close>; \<open>run_tx\<close> begins, runs and commits.
\<close>

section \<open>Columns with a fixed set of values\<close>

datatype desired = DRun | DStop | DTerminate

datatype ex_state = Unassigned | Running | Idle | Crashed

datatype outcome = Completed | Canceled | Failed

datatype command_type = CAssign | CFeedTurn | CStopTurn | CCancel

datatype event_type = EvMessage | EvStateChange | EvPlatform | EvEscalate

fun desired_str :: "desired \<Rightarrow> string" where
  "desired_str DRun = ''run''"
| "desired_str DStop = ''stop''"
| "desired_str DTerminate = ''terminate''"

fun ex_state_str :: "ex_state \<Rightarrow> string" where
  "ex_state_str Unassigned = ''unassigned''"
| "ex_state_str Running = ''running''"
| "ex_state_str Idle = ''idle''"
| "ex_state_str Crashed = ''crashed''"

fun outcome_str :: "outcome \<Rightarrow> string" where
  "outcome_str Completed = ''completed''"
| "outcome_str Canceled = ''canceled''"
| "outcome_str Failed = ''failed''"

section \<open>Rows\<close>

type_synonym timestamp = int

record session =
  s_id :: string
  s_execution_id :: string
  s_parent_session_id :: "string option"
  s_agent_id :: string
  s_agent_session_id :: "string option"
  s_cwd :: "string option"
  s_worktree_path :: "string option"
  s_base_commit_sha :: "string option"
  s_slug :: string
  s_recovery_attempts :: int
  s_metadata :: jtext
  s_desired :: desired
  s_executor_state :: ex_state
  s_outcome :: "outcome option"
  s_desired_by :: "string option"
  s_desired_at :: "timestamp option"
  s_command_token :: "string option"
  s_command_type :: "command_type option"
  s_command_at :: "timestamp option"
  s_command_has_payload :: bool
  s_worker_id :: "string option"
  s_parent_notified :: bool
  s_continued_from_session_id :: "string option"
  s_sandbox_policy :: jtext
  s_created_at :: timestamp
  s_updated_at :: timestamp
  s_completed_at :: "timestamp option"

record execution =
  x_id :: string
  x_project_id :: "string option"
  x_parent_execution_id :: "string option"
  x_context_id :: string
  x_desired :: desired
  x_outcome :: "outcome option"
  x_title :: "string option"
  x_metadata :: jtext
  x_max_depth :: int
  x_max_width :: int
  x_sandbox_policy :: jtext
  x_ceiling_mode :: string
  x_ceiling_entries :: jtext
  x_ceiling_by :: "string option"
  x_ceiling_at :: "timestamp option"
  x_created_at :: timestamp
  x_updated_at :: timestamp
  x_last_activity_at :: timestamp
  x_completed_at :: "timestamp option"

record event =
  ev_id :: int
  ev_execution_id :: string
  ev_session_id :: "string option"
  ev_type :: event_type
  ev_payload :: jtext
  ev_msg_seq :: "int option"
  ev_created_at :: timestamp

record task =
  t_id :: int
  t_execution_id :: string
  t_session_id :: string
  t_payload :: jtext
  t_source :: "string option"
  t_queued_at :: timestamp

record agent =
  a_id :: string
  a_name :: string
  a_description :: "string option"
  a_agent_type :: string
  a_driver_id :: "string option"
  a_config :: jtext
  a_sandbox_config :: "jtext option"
  a_system_prompt :: "string option"
  a_enabled :: bool
  a_deleted_at :: "timestamp option"
  a_created_at :: timestamp
  a_updated_at :: timestamp

record driver =
  d_id :: string
  d_name :: string
  d_platform :: string
  d_config :: jtext
  d_created_at :: timestamp
  d_updated_at :: timestamp

record db =
  sessions :: "session list"
  executions :: "execution list"
  task_queue :: "task list"
  events :: "event list"
  agents :: "agent list"
  drivers :: "driver list"
  config :: "(string \<times> string) list"
  next_task_id :: int
  next_event_id :: int
  clock :: timestamp

text \<open>\<open>SchedulerError\<close> (\<open>error.rs\<close>), the variants the modelled code raises.\<close>

datatype scheduler_error =
    Problem (problem_code: string) (problem_detail: string)
  | Database string
  | NotFound string
  | ValidationFailed string
  | Conflict string
  | UnauthorizedError string
  | Forbidden string
  | ProblemWith (with_code: string) (with_detail: string) (with_extensions: "(string \<times> json) list")

text \<open>Its \<open>Display\<close>, which other messages embed.\<close>

fun show_error :: "scheduler_error \<Rightarrow> string" where
  "show_error (Problem c d) = c"
| "show_error (Database m) = ''database error: '' @ m"
| "show_error (NotFound m) = ''resource not found: '' @ m"
| "show_error (ValidationFailed m) = ''validation failed: '' @ m"
| "show_error (Conflict m) = ''conflict: '' @ m"
| "show_error (UnauthorizedError m) = ''unauthorized: '' @ m"
| "show_error (Forbidden m) = ''forbidden: '' @ m"
| "show_error (ProblemWith c d ext) = c"

section \<open>Point reads\<close>

definition session_row :: "string \<Rightarrow> db \<Rightarrow> session option" where
  "session_row i db = sql_find (\<lambda>s. s_id s = i) (sessions db)"

definition execution_row :: "string \<Rightarrow> db \<Rightarrow> execution option" where
  "execution_row i db = sql_find (\<lambda>x. x_id x = i) (executions db)"

text \<open>
  \<open>map_db_error\<close> (\<open>db/helpers.rs\<close>) on a missing row, and the point reads that use it:
  \<open>get_by_id\<close> and \<open>get_in_tx\<close> of sessions and executions.
\<close>

definition map_db_error :: "string \<Rightarrow> string \<Rightarrow> scheduler_error" where
  "map_db_error entity i = NotFound (entity @ '' not found: '' @ i)"

definition get_session :: "string \<Rightarrow> db \<Rightarrow> scheduler_error + session" where
  "get_session i db = ok_or (map_db_error ''session'' i) (session_row i db)"

definition get_execution :: "string \<Rightarrow> db \<Rightarrow> scheduler_error + execution" where
  "get_execution i db = ok_or (map_db_error ''execution'' i) (execution_row i db)"

text \<open>\<open>SELECT COUNT( * ) FROM task_queue WHERE session_id = ?\<close>.\<close>

definition count_pending_turns :: "string \<Rightarrow> db \<Rightarrow> nat" where
  "count_pending_turns i db = sql_count (\<lambda>t. t_session_id t = i) (task_queue db)"

lemma get_session_Inr_iff [simp]: "get_session i db = Inr s \<longleftrightarrow> session_row i db = Some s"
  by (simp add: get_session_def)

lemma get_execution_Inr_iff [simp]: "get_execution i db = Inr x \<longleftrightarrow> execution_row i db = Some x"
  by (simp add: get_execution_def)

lemma session_rowD: "session_row i db = Some s \<Longrightarrow> s \<in> set (sessions db) \<and> s_id s = i"
  by (auto simp: session_row_def dest: sql_find_SomeD)

lemma execution_rowD: "execution_row i db = Some x \<Longrightarrow> x \<in> set (executions db) \<and> x_id x = i"
  by (auto simp: execution_row_def dest: sql_find_SomeD)

section \<open>Transactions\<close>

record exec_tx =
  tx_db :: db
  tx_execution_id :: string
  tx_verified :: "string list"

text \<open>A transaction body: abort with a result, or go on with a value.\<close>

type_synonym ('r, 'a) tx = "exec_tx \<Rightarrow> 'r + 'a \<times> exec_tx"

definition tx_ret :: "'a \<Rightarrow> ('r, 'a) tx" where
  "tx_ret x t = Inr (x, t)"

definition tx_abort :: "'r \<Rightarrow> ('r, 'a) tx" where
  "tx_abort r t = Inl r"

definition tx_bind :: "('r, 'a) tx \<Rightarrow> ('a \<Rightarrow> ('r, 'b) tx) \<Rightarrow> ('r, 'b) tx" where
  "tx_bind m f t = (case m t of Inl r \<Rightarrow> Inl r | Inr (x, t') \<Rightarrow> f x t')"

text \<open>Roll back and return, when a guard says so.\<close>

definition tx_fail_if :: "bool \<Rightarrow> 'r \<Rightarrow> ('r, unit) tx" where
  "tx_fail_if b r t = (if b then Inl r else Inr ((), t))"

text \<open>The value of a fallible read, its error mapped to the caller's (\<open>map_err(..)?\<close>).\<close>

definition tx_try :: "('e \<Rightarrow> 'r) \<Rightarrow> (db \<Rightarrow> 'e + 'a) \<Rightarrow> ('r, 'a) tx" where
  "tx_try h f t = (case f (tx_db t) of Inl e \<Rightarrow> Inl (h e) | Inr x \<Rightarrow> Inr (x, t))"

definition tx_read :: "(db \<Rightarrow> 'a) \<Rightarrow> ('r, 'a) tx" where
  "tx_read f t = Inr (f (tx_db t), t)"

text \<open>\<open>ExecutionTx::execution_id\<close>.\<close>

definition tx_scope :: "('r, string) tx" where
  "tx_scope t = Inr (tx_execution_id t, t)"

definition tx_map_err :: "('e \<Rightarrow> 'r) \<Rightarrow> ('e, 'a) tx \<Rightarrow> ('r, 'a) tx" where
  "tx_map_err h m t = map_err h (m t)"

definition tx_put :: "db \<Rightarrow> exec_tx \<Rightarrow> exec_tx" where
  "tx_put d t = t\<lparr>tx_db := d\<rparr>"

lemma tx_put_sel [simp]:
  "tx_db (tx_put d t) = d"
  "tx_execution_id (tx_put d t) = tx_execution_id t"
  "tx_verified (tx_put d t) = tx_verified t"
  by (simp_all add: tx_put_def)

text \<open>\<open>UPDATE sessions SET f WHERE P\<close>; \<open>f\<close> may read \<open>CURRENT_TIMESTAMP\<close>.\<close>

definition update_sessions ::
  "(session \<Rightarrow> bool) \<Rightarrow> (timestamp \<Rightarrow> session \<Rightarrow> session) \<Rightarrow> db \<Rightarrow> db" where
  "update_sessions P f db = db\<lparr>sessions := sql_update P (f (clock db)) (sessions db)\<rparr>"

definition update_executions ::
  "(execution \<Rightarrow> bool) \<Rightarrow> (timestamp \<Rightarrow> execution \<Rightarrow> execution) \<Rightarrow> db \<Rightarrow> db" where
  "update_executions P f db = db\<lparr>executions := sql_update P (f (clock db)) (executions db)\<rparr>"

definition tx_update_sessions ::
  "(session \<Rightarrow> bool) \<Rightarrow> (timestamp \<Rightarrow> session \<Rightarrow> session) \<Rightarrow> ('r, nat) tx" where
  "tx_update_sessions P f t =
     Inr (sql_count P (sessions (tx_db t)), tx_put (update_sessions P f (tx_db t)) t)"

definition tx_update_executions ::
  "(execution \<Rightarrow> bool) \<Rightarrow> (timestamp \<Rightarrow> execution \<Rightarrow> execution) \<Rightarrow> ('r, nat) tx" where
  "tx_update_executions P f t =
     Inr (sql_count P (executions (tx_db t)), tx_put (update_executions P f (tx_db t)) t)"

text \<open>\<open>begin_execution_tx\<close>: the row of the execution is locked, so it must exist.\<close>

definition begin_execution_tx :: "string \<Rightarrow> db \<Rightarrow> scheduler_error + exec_tx" where
  "begin_execution_tx eid db =
     (case execution_row eid db of
        None \<Rightarrow> Inl (map_db_error ''execution lock'' eid)
      | Some _ \<Rightarrow> Inr \<lparr>tx_db = db, tx_execution_id = eid, tx_verified = []\<rparr>)"

text \<open>
  Begin, run, commit. An abort rolls back: the database is the one before the transaction,
  and the abort's result is the result. \<open>h\<close> is what the caller makes of a failed begin.
\<close>

definition run_tx :: "(scheduler_error \<Rightarrow> 'r) \<Rightarrow> string \<Rightarrow> ('r, 'r) tx \<Rightarrow> db \<Rightarrow> 'r \<times> db" where
  "run_tx h eid body db =
     (case begin_execution_tx eid db of
        Inl e \<Rightarrow> (h e, db)
      | Inr t \<Rightarrow> (case body t of Inl r \<Rightarrow> (r, db) | Inr (r, t') \<Rightarrow> (r, tx_db t')))"

section \<open>Facts about transaction bodies\<close>

lemma tx_ret_iff: "tx_ret x t = Inr (y, t') \<longleftrightarrow> y = x \<and> t' = t"
  by (auto simp: tx_ret_def)

lemma tx_abort_iff: "tx_abort r t = Inr z \<longleftrightarrow> False"
  by (simp add: tx_abort_def)

lemma tx_bind_iff: "tx_bind m f t = Inr z \<longleftrightarrow> (\<exists>x t'. m t = Inr (x, t') \<and> f x t' = Inr z)"
  by (auto simp: tx_bind_def split: sum.splits prod.splits)

lemma tx_bind_Inl_iff:
  "tx_bind m f t = Inl r \<longleftrightarrow> m t = Inl r \<or> (\<exists>x t'. m t = Inr (x, t') \<and> f x t' = Inl r)"
  by (auto simp: tx_bind_def split: sum.splits prod.splits)

lemma tx_fail_if_iff: "tx_fail_if b r t = Inr (x, t') \<longleftrightarrow> \<not> b \<and> t' = t"
  by (auto simp: tx_fail_if_def)

lemma tx_try_iff: "tx_try h f t = Inr (x, t') \<longleftrightarrow> f (tx_db t) = Inr x \<and> t' = t"
  by (auto simp: tx_try_def split: sum.splits)

lemma tx_read_iff: "tx_read f t = Inr (x, t') \<longleftrightarrow> x = f (tx_db t) \<and> t' = t"
  by (auto simp: tx_read_def)

lemma tx_scope_iff: "tx_scope t = Inr (x, t') \<longleftrightarrow> x = tx_execution_id t \<and> t' = t"
  by (auto simp: tx_scope_def)

lemma tx_map_err_iff: "tx_map_err h m t = Inr z \<longleftrightarrow> m t = Inr z"
  by (simp add: tx_map_err_def)

lemma tx_update_sessions_iff:
  "tx_update_sessions P f t = Inr (n, t') \<longleftrightarrow>
     n = sql_count P (sessions (tx_db t)) \<and> t' = tx_put (update_sessions P f (tx_db t)) t"
  by (auto simp: tx_update_sessions_def)

lemma tx_update_executions_iff:
  "tx_update_executions P f t = Inr (n, t') \<longleftrightarrow>
     n = sql_count P (executions (tx_db t)) \<and> t' = tx_put (update_executions P f (tx_db t)) t"
  by (auto simp: tx_update_executions_def)

lemmas tx_iffs = tx_ret_iff tx_abort_iff tx_bind_iff tx_fail_if_iff tx_try_iff tx_read_iff tx_scope_iff tx_map_err_iff
  tx_update_sessions_iff tx_update_executions_iff

lemmas tx_run_defs = tx_ret_def tx_abort_def tx_bind_def tx_fail_if_def tx_try_def tx_read_def tx_scope_def tx_map_err_def
  tx_update_sessions_def tx_update_executions_def run_tx_def begin_execution_tx_def

lemma run_tx_cases:
  assumes "run_tx h eid body db = (r, db')"
  obtains (unchanged) "db' = db"
  | (committed) t t' where "t = \<lparr>tx_db = db, tx_execution_id = eid, tx_verified = []\<rparr>"
      and "execution_row eid db \<noteq> None" and "body t = Inr (r, t')" and "db' = tx_db t'"
  using assms
  by (auto simp: run_tx_def begin_execution_tx_def split: sum.splits prod.splits option.splits)

section \<open>Relations kept by transaction bodies\<close>

text \<open>
  \<open>tx_keeps R m\<close>: whenever the body \<open>m\<close> goes on, the state it leaves is related by \<open>R\<close> to
  the one it found. For a preorder \<open>R\<close> this is closed under sequencing, so a body keeps \<open>R\<close>
  when its statements do. \<open>commits_ok\<close>: a body that reaches its commit returns a success.
\<close>

definition tx_keeps :: "(exec_tx \<Rightarrow> exec_tx \<Rightarrow> bool) \<Rightarrow> ('r, 'a) tx \<Rightarrow> bool" where
  "tx_keeps R m \<longleftrightarrow> (\<forall>t x t'. m t = Inr (x, t') \<longrightarrow> R t t')"

lemma tx_keepsI: "(\<And>t x t'. m t = Inr (x, t') \<Longrightarrow> R t t') \<Longrightarrow> tx_keeps R m"
  by (auto simp: tx_keeps_def)

lemma tx_keepsD: "tx_keeps R m \<Longrightarrow> m t = Inr (x, t') \<Longrightarrow> R t t'"
  by (auto simp: tx_keeps_def)

definition commits_ok :: "('r, 'e + 'a) tx \<Rightarrow> bool" where
  "commits_ok m \<longleftrightarrow> (\<forall>t r t'. m t = Inr (r, t') \<longrightarrow> (\<exists>x. r = Inr x))"

lemma commits_ok_ret [intro]: "commits_ok (tx_ret (Inr x))"
  by (auto simp: commits_ok_def tx_iffs)

lemma commits_ok_bind [intro]: "(\<And>x. commits_ok (f x)) \<Longrightarrow> commits_ok (tx_bind m f)"
  by (fastforce simp: commits_ok_def tx_iffs)

lemma commits_ok_abort [intro]: "commits_ok (tx_abort r)"
  by (auto simp: commits_ok_def tx_iffs)

lemma commits_ok_if [intro]: "commits_ok m \<Longrightarrow> commits_ok m' \<Longrightarrow> commits_ok (if b then m else m')"
  by simp

lemma commits_ok_prod [intro]: "(\<And>a b. commits_ok (f a b)) \<Longrightarrow> commits_ok (case p of (a, b) \<Rightarrow> f a b)"
  by (cases p) auto

text \<open>\<open>aborts_err\<close>: a body that rolls back returns an error.\<close>

definition aborts_err :: "('e + 'b, 'a) tx \<Rightarrow> bool" where
  "aborts_err m \<longleftrightarrow> (\<forall>t r. m t = Inl r \<longrightarrow> (\<exists>e. r = Inl e))"

lemma aborts_err_ret: "aborts_err (tx_ret x)"
  by (auto simp: aborts_err_def tx_ret_def)

lemma aborts_err_bind: "aborts_err m \<Longrightarrow> (\<And>x. aborts_err (f x)) \<Longrightarrow> aborts_err (tx_bind m f)"
  by (auto simp: aborts_err_def tx_bind_Inl_iff)

lemma aborts_err_fail_if: "aborts_err (tx_fail_if b (Inl e))"
  by (auto simp: aborts_err_def tx_fail_if_def)

lemma aborts_err_try: "aborts_err (tx_try (\<lambda>e. Inl (h e)) f)"
  by (auto simp: aborts_err_def tx_try_def split: sum.splits)

lemma aborts_err_map: "aborts_err (tx_map_err (\<lambda>e. Inl (h e)) m)"
  by (auto simp: aborts_err_def tx_map_err_def)

lemma aborts_err_map_Inl: "aborts_err (tx_map_err Inl m)"
  by (auto simp: aborts_err_def tx_map_err_def)

lemma aborts_err_read: "aborts_err (tx_read f)"
  by (auto simp: aborts_err_def tx_read_def)

lemma aborts_err_scope: "aborts_err tx_scope"
  by (auto simp: aborts_err_def tx_scope_def)

lemma aborts_err_updates: "aborts_err (tx_update_sessions P f)" "aborts_err (tx_update_executions Q g)"
  by (auto simp: aborts_err_def tx_update_sessions_def tx_update_executions_def)

lemma aborts_err_if: "(b \<Longrightarrow> aborts_err m) \<Longrightarrow> (\<not> b \<Longrightarrow> aborts_err m') \<Longrightarrow> aborts_err (if b then m else m')"
  by simp

lemma aborts_err_option:
  "(p = None \<Longrightarrow> aborts_err m) \<Longrightarrow> (\<And>x. p = Some x \<Longrightarrow> aborts_err (f x)) \<Longrightarrow>
   aborts_err (case p of None \<Rightarrow> m | Some x \<Rightarrow> f x)"
  by (cases p) auto

lemma aborts_err_prod: "(\<And>a b. aborts_err (f a b)) \<Longrightarrow> aborts_err (case p of (a, b) \<Rightarrow> f a b)"
  by (cases p) auto

lemmas aborts_err_rules = aborts_err_ret aborts_err_bind aborts_err_fail_if aborts_err_try
  aborts_err_map aborts_err_map_Inl aborts_err_read aborts_err_scope aborts_err_updates
  aborts_err_if aborts_err_option aborts_err_prod

lemma run_tx_Err:
  assumes "run_tx h eid body db = (Inl e, db')" and "commits_ok body"
  shows "db' = db"
  using assms by (auto elim!: run_tx_cases simp: commits_ok_def)

lemma run_tx_Ok:
  assumes "run_tx h eid body db = (Inr x, db')" and "\<And>e. \<exists>e'. h e = Inl e'"
  obtains (rolled_back) "body \<lparr>tx_db = db, tx_execution_id = eid, tx_verified = []\<rparr> = Inl (Inr x)"
      "db' = db"
  | (committed) t' where "execution_row eid db \<noteq> None"
      "body \<lparr>tx_db = db, tx_execution_id = eid, tx_verified = []\<rparr> = Inr (Inr x, t')" "db' = tx_db t'"
proof -
  note h = assms(2)
  show thesis
  proof (cases "execution_row eid db")
    case None
    with assms(1) h [of "map_db_error ''execution lock'' eid"] show ?thesis
      by (auto simp: run_tx_def begin_execution_tx_def)
  next
    case (Some x)
    with assms(1) that show ?thesis
      by (auto simp: run_tx_def begin_execution_tx_def split: sum.splits prod.splits)
  qed
qed

lemma run_tx_committed:
  assumes "run_tx h eid body db = (Inr x, db')" and "\<And>e. \<exists>e'. h e = Inl e'" and "aborts_err body"
  obtains t' where "execution_row eid db \<noteq> None"
      "body \<lparr>tx_db = db, tx_execution_id = eid, tx_verified = []\<rparr> = Inr (Inr x, t')" "db' = tx_db t'"
  using assms(1,2) by (rule run_tx_Ok) (use assms(3) that in \<open>auto simp: aborts_err_def\<close>)

locale tx_preorder =
  fixes R :: "exec_tx \<Rightarrow> exec_tx \<Rightarrow> bool"
  assumes R_refl: "R t t"
    and R_trans: "R t t' \<Longrightarrow> R t' t'' \<Longrightarrow> R t t''"
begin

lemma keeps_ret: "tx_keeps R (tx_ret x)"
  by (auto simp: tx_keeps_def tx_iffs R_refl)

lemma keeps_abort: "tx_keeps R (tx_abort r)"
  by (auto simp: tx_keeps_def tx_iffs)

lemma keeps_bind: "tx_keeps R m \<Longrightarrow> (\<And>x. tx_keeps R (f x)) \<Longrightarrow> tx_keeps R (tx_bind m f)"
  unfolding tx_keeps_def tx_iffs using R_trans by blast

lemma keeps_try: "tx_keeps R (tx_try h f)"
  by (auto simp: tx_keeps_def tx_iffs R_refl)

lemma keeps_fail_if: "tx_keeps R (tx_fail_if b r)"
  by (auto simp: tx_keeps_def tx_iffs R_refl)

lemma keeps_read: "tx_keeps R (tx_read f)"
  by (auto simp: tx_keeps_def tx_iffs R_refl)

lemma keeps_scope: "tx_keeps R tx_scope"
  by (auto simp: tx_keeps_def tx_iffs R_refl)

lemma keeps_map_err: "tx_keeps R m \<Longrightarrow> tx_keeps R (tx_map_err h m)"
  by (auto simp: tx_keeps_def tx_iffs)

lemma keeps_if: "(b \<Longrightarrow> tx_keeps R m) \<Longrightarrow> (\<not> b \<Longrightarrow> tx_keeps R m') \<Longrightarrow> tx_keeps R (if b then m else m')"
  by simp

lemma keeps_option:
  "(p = None \<Longrightarrow> tx_keeps R m) \<Longrightarrow> (\<And>x. p = Some x \<Longrightarrow> tx_keeps R (f x)) \<Longrightarrow>
   tx_keeps R (case p of None \<Rightarrow> m | Some x \<Rightarrow> f x)"
  by (cases p) auto

lemma keeps_prod: "(\<And>a b. tx_keeps R (f a b)) \<Longrightarrow> tx_keeps R (case p of (a, b) \<Rightarrow> f a b)"
  by (cases p) auto

lemma keeps_run_tx:
  assumes "run_tx h eid body db = (r, db')" and "tx_keeps R body"
  obtains "db' = db"
  | t' where "R \<lparr>tx_db = db, tx_execution_id = eid, tx_verified = []\<rparr> t'" and "db' = tx_db t'"
  using assms(1)
proof (cases rule: run_tx_cases)
  case unchanged
  then show ?thesis by (rule that(1))
next
  case (committed t t')
  with tx_keepsD [OF assms(2) committed(3)] show ?thesis using that(2) by simp
qed

lemmas keeps = keeps_ret keeps_abort keeps_fail_if keeps_bind keeps_try keeps_read keeps_scope keeps_map_err
  keeps_if keeps_option keeps_prod

end

end
