(* ===== verification/Resolution.thy ===== *)
theory Resolution
  imports Json "HOL-Library.Multiset" "HOL-Library.List_Lexorder" "HOL-Library.Char_ord"
begin

text \<open>
  \<open>scheduler/src/resolution.rs\<close>: the JSON of escalations (questions an agent raises) and of
  the markers that resolve them.

  The first half reads payloads: \<open>escalation_data\<close> recognises an escalation,
  \<open>resolution_candidates\<close> the markers of an event, \<open>validate_live_answer\<close> an inbound answer.
  The second half writes markers and bounds their size: \<open>serialized_marker_bytes\<close> computes
  the length of a marker's text without building it and \<open>fit_answer_text\<close> cuts an answer so
  that its marker stays within the cap. The text itself is made by the JSON library; what is
  used of it is the interface \<open>json_serializer\<close> at the end.
\<close>

section \<open>Constants\<close>

definition ROLE_AGENT :: string where "ROLE_AGENT = ''ROLE_AGENT''"
definition ROLE_USER :: string where "ROLE_USER = ''ROLE_USER''"
definition ESCALATE_TYPE :: string where "ESCALATE_TYPE = ''escalate''"
definition ANSWER_TYPE :: string where "ANSWER_TYPE = ''question_answer''"
definition DISMISS_TYPE :: string where "DISMISS_TYPE = ''question_dismiss''"
definition SENDER_TYPE :: string where "SENDER_TYPE = ''sender''"

definition MARKER_SERIALIZED_CAP_BYTES :: nat where
  "MARKER_SERIALIZED_CAP_BYTES = 96 * 1024"

definition RESERVED_EVENT_ID :: int where "RESERVED_EVENT_ID = i64_max"
definition RESERVED_TIMESTAMP :: string where "RESERVED_TIMESTAMP = ''9999-12-31T23:59:59Z''"
definition RESERVED_BATCH_ID :: string where
  "RESERVED_BATCH_ID = ''00000000-0000-0000-0000-000000000000''"

lemmas type_tags = ROLE_AGENT_def ROLE_USER_def ESCALATE_TYPE_def ANSWER_TYPE_def
  DISMISS_TYPE_def SENDER_TYPE_def

section \<open>Data\<close>

text \<open>The ordering key of a resolution; the derived order is lexicographic over its fields.\<close>

datatype order_key = OrderKey (primary_id: int) (own_event_id: int) (part_ordinal: int)

instantiation order_key :: linorder
begin

definition less_eq_order_key :: "order_key \<Rightarrow> order_key \<Rightarrow> bool" where
  "less_eq_order_key a b \<longleftrightarrow>
     primary_id a < primary_id b \<or>
     (primary_id a = primary_id b \<and>
       (own_event_id a < own_event_id b \<or>
        (own_event_id a = own_event_id b \<and> part_ordinal a \<le> part_ordinal b)))"

definition less_order_key :: "order_key \<Rightarrow> order_key \<Rightarrow> bool" where
  "less_order_key a b \<longleftrightarrow>
     primary_id a < primary_id b \<or>
     (primary_id a = primary_id b \<and>
       (own_event_id a < own_event_id b \<or>
        (own_event_id a = own_event_id b \<and> part_ordinal a < part_ordinal b)))"

instance
  by standard (auto simp: less_eq_order_key_def less_order_key_def intro: order_key.expand)

end

datatype resolution_kind = Answer | Dismiss

record resolution_candidate =
  rc_kind :: resolution_kind
  rc_batch_id :: string
  rc_escalation_event_id :: "int option"
  rc_order_key :: order_key
  rc_answer_text :: "string option"
  rc_resolved_at_raw :: "string option"
  rc_embedded_resolved_event_id :: "int option"
  rc_truncated :: bool

datatype answer_validation =
    NotAnAnswer
  | Valid int "string option"
  | MultipleParts
  | MissingEscalationEventId
  | SenderPresent
  | MalformedParts

record escalation_data =
  ed_batch_id :: string
  ed_importance :: string
  ed_questions :: "json list"

section \<open>Reading payloads\<close>

definition parts_domain_valid :: "json list \<Rightarrow> bool" where
  "parts_domain_valid parts \<longleftrightarrow>
     list_all (\<lambda>p. is_object p \<and> (case get p ''data'' of None \<Rightarrow> True | Some d \<Rightarrow> is_object d)) parts"

definition parse_parts :: "jtext \<Rightarrow> json list option" where
  "parse_parts payload =
     Option.bind (from_str payload) (\<lambda>value.
     Option.bind (get_array value ''parts'') (\<lambda>arr.
     if parts_domain_valid arr then Some arr else None))"

definition top_role :: "jtext \<Rightarrow> string option" where
  "top_role payload = Option.bind (from_str payload) (\<lambda>value. get_str value ''role'')"

definition parse_role_and_parts :: "jtext \<Rightarrow> (string option \<times> json list) option" where
  "parse_role_and_parts payload =
     Option.bind (from_str payload) (\<lambda>value.
     Option.bind (get_array value ''parts'') (\<lambda>arr.
     if parts_domain_valid arr then Some (get_str value ''role'', arr) else None))"

definition part_data :: "json \<Rightarrow> json option" where
  "part_data part = get part ''data''"

definition part_data_type :: "json \<Rightarrow> string option" where
  "part_data_type part = Option.bind (part_data part) (\<lambda>d. get_str d ''type'')"

text \<open>\<open>Some(Value::Number(n)) => n.as_i64().filter(|v| *v > 0)\<close>\<close>

definition positive_i64 :: "json \<Rightarrow> string \<Rightarrow> int option" where
  "positive_i64 data k =
     Option.bind (get data k) (\<lambda>v. Option.bind (as_i64 v) (\<lambda>n. if 0 < n then Some n else None))"

definition embedded_resolved_event_id :: "json \<Rightarrow> int option" where
  "embedded_resolved_event_id data = positive_i64 data ''resolved_event_id''"

definition escalation_event_id :: "json \<Rightarrow> int option" where
  "escalation_event_id data = positive_i64 data ''escalation_event_id''"

definition nonempty :: "string \<Rightarrow> string option" where
  "nonempty s = (if s = [] then None else Some s)"

text \<open>\<open>iter().find_map(f)\<close>\<close>

fun find_map :: "('a \<Rightarrow> 'b option) \<Rightarrow> 'a list \<Rightarrow> 'b option" where
  "find_map f [] = None"
| "find_map f (x # xs) = (case f x of Some y \<Rightarrow> Some y | None \<Rightarrow> find_map f xs)"

definition answer_text_from_parts :: "json list \<Rightarrow> string option" where
  "answer_text_from_parts parts =
     Option.bind (find_map (\<lambda>p. get_str p ''text'') parts) nonempty"

definition has_sender_part :: "json list \<Rightarrow> bool" where
  "has_sender_part parts \<longleftrightarrow> list_ex (\<lambda>p. part_data_type p = Some SENDER_TYPE) parts"

definition answer_part_count :: "json list \<Rightarrow> nat" where
  "answer_part_count parts = length (filter (\<lambda>p. part_data_type p = Some ANSWER_TYPE) parts)"

text \<open>
  \<open>escalate_parts\<close>: the batch and ordinal of each escalation part of an agent event.
\<close>

definition escalate_parts :: "jtext \<Rightarrow> (string \<times> int) list" where
  "escalate_parts payload =
     (if top_role payload \<noteq> Some ROLE_AGENT then []
      else case parse_parts payload of
        None \<Rightarrow> []
      | Some parts \<Rightarrow>
          List.map_filter (\<lambda>(ordinal, part).
            case part_data part of
              None \<Rightarrow> None
            | Some data \<Rightarrow>
                if get_str data ''type'' \<noteq> Some ESCALATE_TYPE then None
                else map_option (\<lambda>b. (b, int ordinal)) (get_str data ''batch_id''))
            (List.enumerate 0 parts))"

text \<open>
  The loop of \<open>escalation_data\<close>: a part without \<open>data\<close> ends it with \<open>None\<close> (the \<open>?\<close>), a part
  of another type is skipped, the first escalation part decides.
\<close>

fun escalation_data_loop :: "json list \<Rightarrow> escalation_data option" where
  "escalation_data_loop [] = None"
| "escalation_data_loop (part # parts) =
     (case part_data part of
        None \<Rightarrow> None
      | Some data \<Rightarrow>
          if get_str data ''type'' \<noteq> Some ESCALATE_TYPE then escalation_data_loop parts
          else case get_str data ''batch_id'' of
            None \<Rightarrow> None
          | Some batch_id \<Rightarrow>
              (let questions = (case get_array data ''questions'' of None \<Rightarrow> [] | Some q \<Rightarrow> q)
               in if questions = [] then None
                  else Some \<lparr>ed_batch_id = batch_id,
                    ed_importance = (case get_str data ''importance'' of None \<Rightarrow> ''blocking'' | Some i \<Rightarrow> i),
                    ed_questions = questions\<rparr>))"

definition escalation_data_of :: "jtext \<Rightarrow> escalation_data option" where
  "escalation_data_of payload =
     (case parse_role_and_parts payload of
        None \<Rightarrow> None
      | Some (role, parts) \<Rightarrow>
          if role \<noteq> Some ROLE_AGENT then None else escalation_data_loop parts)"

text \<open>One iteration of the loop of \<open>resolution_candidates\<close>.\<close>

definition candidate_of_part :: "int \<Rightarrow> nat \<Rightarrow> json \<Rightarrow> resolution_candidate option" where
  "candidate_of_part own_id ordinal part =
     (case part_data part of
        None \<Rightarrow> None
      | Some data \<Rightarrow>
          (case get_str data ''batch_id'' of
             None \<Rightarrow> None
           | Some batch_id \<Rightarrow>
               if get_str data ''type'' = Some ANSWER_TYPE then
                 (let embedded = embedded_resolved_event_id data;
                      pid = (case embedded of None \<Rightarrow> own_id | Some e \<Rightarrow> e)
                  in Some \<lparr>rc_kind = Answer, rc_batch_id = batch_id,
                       rc_escalation_event_id = escalation_event_id data,
                       rc_order_key = OrderKey pid own_id (int ordinal),
                       rc_answer_text = Option.bind (get_str data ''answer_text'') nonempty,
                       rc_resolved_at_raw = get_str data ''resolved_at'',
                       rc_embedded_resolved_event_id = embedded,
                       rc_truncated = (get_bool data ''truncated'' = Some True)\<rparr>)
               else if get_str data ''type'' = Some DISMISS_TYPE then
                 Some \<lparr>rc_kind = Dismiss, rc_batch_id = batch_id,
                   rc_escalation_event_id = escalation_event_id data,
                   rc_order_key = OrderKey own_id own_id (int ordinal),
                   rc_answer_text = None, rc_resolved_at_raw = None,
                   rc_embedded_resolved_event_id = None, rc_truncated = False\<rparr>
               else None))"

definition resolution_candidates :: "json list \<Rightarrow> int \<Rightarrow> resolution_candidate list" where
  "resolution_candidates parts own_id =
     (if 1 < answer_part_count parts then []
      else List.map_filter (\<lambda>(ordinal, part). candidate_of_part own_id ordinal part)
             (List.enumerate 0 parts))"

text \<open>\<open>historical_answer_source\<close>: batch and answer text of a message that is an answer.\<close>

definition answer_batch_id :: "json \<Rightarrow> string option" where
  "answer_batch_id p =
     (case part_data p of
        None \<Rightarrow> None
      | Some data \<Rightarrow>
          if get_str data ''type'' = Some ANSWER_TYPE then get_str data ''batch_id'' else None)"

definition historical_answer_source_ref ::
  "string option \<Rightarrow> json list \<Rightarrow> (string \<times> string option) option" where
  "historical_answer_source_ref role parts =
     (if role \<noteq> Some ROLE_USER then None
      else if has_sender_part parts \<or> answer_part_count parts \<noteq> 1 then None
      else case find_map answer_batch_id parts of
        None \<Rightarrow> None
      | Some b \<Rightarrow> Some (b, answer_text_from_parts parts))"

definition historical_answer_source :: "jtext \<Rightarrow> (string \<times> string option) option" where
  "historical_answer_source payload =
     (if top_role payload \<noteq> Some ROLE_USER then None
      else case parse_parts payload of
        None \<Rightarrow> None
      | Some parts \<Rightarrow>
          if has_sender_part parts \<or> answer_part_count parts \<noteq> 1 then None
          else case find_map answer_batch_id parts of
            None \<Rightarrow> None
          | Some b \<Rightarrow> Some (b, answer_text_from_parts parts))"

section \<open>Decimal integers\<close>

text \<open>\<open>str::parse::<i64>\<close>: an optional sign, at least one digit, no overflow.\<close>

definition digit_val :: "char \<Rightarrow> int option" where
  "digit_val c =
     (let n = (of_char c :: int) in if 48 \<le> n \<and> n \<le> 57 then Some (n - 48) else None)"

fun parse_digits :: "int \<Rightarrow> string \<Rightarrow> int option" where
  "parse_digits acc [] = Some acc"
| "parse_digits acc (c # cs) =
     (case digit_val c of None \<Rightarrow> None | Some d \<Rightarrow> parse_digits (10 * acc + d) cs)"

definition parse_unsigned :: "string \<Rightarrow> int option" where
  "parse_unsigned s = (if s = [] then None else parse_digits 0 s)"

definition parse_i64 :: "string \<Rightarrow> int option" where
  "parse_i64 s =
     Option.bind
       (case s of
          [] \<Rightarrow> None
        | c # cs \<Rightarrow>
            if c = CHR ''-'' then map_option uminus (parse_unsigned cs)
            else if c = CHR ''+'' then parse_unsigned cs
            else parse_unsigned s)
       (\<lambda>n. if i64_min \<le> n \<and> n \<le> i64_max then Some n else None)"

text \<open>The live answer route names the escalation by a decimal string.\<close>

definition live_escalation_id :: "json \<Rightarrow> int option" where
  "live_escalation_id p =
     (case part_data p of
        None \<Rightarrow> None
      | Some data \<Rightarrow>
          if get_str data ''type'' = Some ANSWER_TYPE then
            Option.bind (get_str data ''escalation_event_id'') (\<lambda>s.
            Option.bind (parse_i64 s) (\<lambda>v. if 0 < v then Some v else None))
          else None)"

definition validate_live_answer :: "json list \<Rightarrow> answer_validation" where
  "validate_live_answer parts =
     (let count = answer_part_count parts in
      if count = 0 then NotAnAnswer
      else if 1 < count then MultipleParts
      else if \<not> parts_domain_valid parts then MalformedParts
      else case find_map live_escalation_id parts of
        None \<Rightarrow> MissingEscalationEventId
      | Some eid \<Rightarrow>
          if has_sender_part parts then SenderPresent
          else Valid eid (answer_text_from_parts parts))"

section \<open>Writing markers\<close>

definition marker_data ::
  "string \<Rightarrow> int option \<Rightarrow> int \<Rightarrow> string \<Rightarrow> string option \<Rightarrow> bool \<Rightarrow> json" where
  "marker_data batch_id escalation resolved_event_id resolved_at answer_text truncated =
     (let data = JObj [(''type'', JStr ANSWER_TYPE), (''batch_id'', JStr batch_id),
                 (''resolved_event_id'', jint resolved_event_id), (''resolved_at'', JStr resolved_at)];
          data = (case escalation of None \<Rightarrow> data | Some i \<Rightarrow> jset ''escalation_event_id'' (jint i) data);
          data = (case answer_text of None \<Rightarrow> data | Some a \<Rightarrow> jset ''answer_text'' (JStr a) data)
      in if truncated then jset ''truncated'' (JBool True) data else data)"

definition marker_payload ::
  "string \<Rightarrow> int option \<Rightarrow> int \<Rightarrow> string \<Rightarrow> string option \<Rightarrow> bool \<Rightarrow> json" where
  "marker_payload batch_id escalation resolved_event_id resolved_at answer_text truncated =
     JObj [(''parts'', JArr [JObj [(''data'',
       marker_data batch_id escalation resolved_event_id resolved_at answer_text truncated)]])]"

definition dismiss_payload :: "string \<Rightarrow> int \<Rightarrow> json" where
  "dismiss_payload batch_id escalation =
     JObj [(''role'', JStr ROLE_USER),
           (''parts'', JArr [JObj [(''data'',
              JObj [(''type'', JStr DISMISS_TYPE), (''batch_id'', JStr batch_id),
                    (''escalation_event_id'', jint escalation)])]])]"

section \<open>Marker sizes\<close>

definition char_escaped_width :: "string \<Rightarrow> nat" where
  "char_escaped_width c =
     (case c of
        [b] \<Rightarrow> (if b \<in> {CHR 0x22, CHR 0x5C, CHR 0x0A, CHR 0x0D, CHR 0x09, CHR 0x08, CHR 0x0C} then 2
               else if (of_char b :: nat) < 32 then 6 else length c)
      | _ \<Rightarrow> length c)"

definition escaped_len :: "string \<Rightarrow> nat" where
  "escaped_len s = sum_list (map char_escaped_width (utf8_chars s))"

text \<open>The loop of \<open>i64_digits\<close>: \<open>while m >= 10 { m /= 10; d += 1 }\<close>.\<close>

fun digits_loop :: "nat \<Rightarrow> nat \<Rightarrow> nat" where
  "digits_loop m d = (if 10 \<le> m then digits_loop (m div 10) (d + 1) else d)"

declare digits_loop.simps [simp del]

definition i64_digits :: "int \<Rightarrow> nat" where
  "i64_digits n = (if n < 0 then 1 else 0) + digits_loop (nat \<bar>n\<bar>) 1"

definition serialized_marker_bytes ::
  "string \<Rightarrow> int option \<Rightarrow> int \<Rightarrow> string \<Rightarrow> string option \<Rightarrow> bool \<Rightarrow> nat" where
  "serialized_marker_bytes batch_id escalation resolved_event_id resolved_at answer_text truncated =
     99 + escaped_len batch_id + i64_digits resolved_event_id + escaped_len resolved_at
     + (case escalation of None \<Rightarrow> 0 | Some i \<Rightarrow> 23 + i64_digits i)
     + (case answer_text of None \<Rightarrow> 0 | Some a \<Rightarrow> 17 + escaped_len a)
     + (if truncated then 17 else 0)"

definition reserved_envelope_bytes :: "string option \<Rightarrow> nat" where
  "reserved_envelope_bytes answer_text =
     serialized_marker_bytes RESERVED_BATCH_ID (Some RESERVED_EVENT_ID) RESERVED_EVENT_ID
       RESERVED_TIMESTAMP answer_text False"

definition reserved_envelope_exceeds_cap :: "string option \<Rightarrow> bool" where
  "reserved_envelope_exceeds_cap answer_text \<longleftrightarrow>
     MARKER_SERIALIZED_CAP_BYTES < reserved_envelope_bytes answer_text"

definition envelope_only_exceeds_cap :: "string \<Rightarrow> int \<Rightarrow> string \<Rightarrow> bool" where
  "envelope_only_exceeds_cap batch_id resolved_event_id resolved_at \<longleftrightarrow>
     MARKER_SERIALIZED_CAP_BYTES
       < serialized_marker_bytes batch_id None resolved_event_id resolved_at None False"

definition source_yields_no_marker :: "string \<Rightarrow> int \<Rightarrow> string option \<Rightarrow> bool" where
  "source_yields_no_marker batch_id source_event_id answer_text =
     (if envelope_only_exceeds_cap batch_id source_event_id RESERVED_TIMESTAMP then True
      else let normalized = Option.bind answer_text nonempty in
        if serialized_marker_bytes batch_id None source_event_id RESERVED_TIMESTAMP normalized False
             \<le> MARKER_SERIALIZED_CAP_BYTES then False
        else MARKER_SERIALIZED_CAP_BYTES
             < serialized_marker_bytes batch_id None source_event_id RESERVED_TIMESTAMP None True)"

text \<open>
  The loop of \<open>fit_answer_text\<close>: characters are taken while the accumulated width stays within
  the budget. The result is the text before the cut.
\<close>

fun fit_loop :: "int \<Rightarrow> int \<Rightarrow> string list \<Rightarrow> string" where
  "fit_loop budget acc [] = []"
| "fit_loop budget acc (c # cs) =
     (let w = int (char_escaped_width c) in
      if budget < acc + w then [] else c @ fit_loop budget (acc + w) cs)"

definition fit_answer_text ::
  "string \<Rightarrow> int option \<Rightarrow> int \<Rightarrow> string \<Rightarrow> string \<Rightarrow> string option \<times> bool" where
  "fit_answer_text batch_id escalation resolved_event_id resolved_at answer_text =
     (let normalized = nonempty answer_text in
      if serialized_marker_bytes batch_id escalation resolved_event_id resolved_at normalized False
           \<le> MARKER_SERIALIZED_CAP_BYTES
      then (normalized, False)
      else
        let fixed = serialized_marker_bytes batch_id escalation resolved_event_id resolved_at (Some []) True;
            budget = int MARKER_SERIALIZED_CAP_BYTES - int fixed;
            prefix = fit_loop budget 0 (utf8_chars answer_text)
        in (nonempty prefix, True))"

section \<open>The text of a JSON value\<close>

text \<open>
  The interface of the JSON library's compact printer: strings are quoted and escaped,
  integers are decimal, the members of an object are printed in some order. \<open>esc_char\<close> is the
  escape table of JSON strings.
\<close>

definition hex_digit :: "nat \<Rightarrow> char" where
  "hex_digit n = (if n < 10 then char_of (48 + n) else char_of (87 + n))"

definition esc_char :: "string \<Rightarrow> string" where
  "esc_char c =
     (case c of
        [b] \<Rightarrow>
          if b = CHR 0x22 then [CHR 0x5C, CHR 0x22]
          else if b = CHR 0x5C then [CHR 0x5C, CHR 0x5C]
          else if b = CHR 0x0A then [CHR 0x5C, CHR ''n'']
          else if b = CHR 0x0D then [CHR 0x5C, CHR ''r'']
          else if b = CHR 0x09 then [CHR 0x5C, CHR ''t'']
          else if b = CHR 0x08 then [CHR 0x5C, CHR ''b'']
          else if b = CHR 0x0C then [CHR 0x5C, CHR ''f'']
          else if (of_char b :: nat) < 32 then
            [CHR 0x5C, CHR ''u'', CHR ''0'', CHR ''0'',
             hex_digit (of_char b div 16), hex_digit (of_char b mod 16)]
          else c
      | _ \<Rightarrow> c)"

definition json_quote :: "string \<Rightarrow> string" where
  "json_quote s = [CHR 0x22] @ concat (map esc_char (utf8_chars s)) @ [CHR 0x22]"

fun nat_dec :: "nat \<Rightarrow> string" where
  "nat_dec n = (if n < 10 then [char_of (48 + n)] else nat_dec (n div 10) @ [char_of (48 + n mod 10)])"

declare nat_dec.simps [simp del]

definition int_dec :: "int \<Rightarrow> string" where
  "int_dec n = (if n < 0 then ''-'' else []) @ nat_dec (nat \<bar>n\<bar>)"

fun commas :: "string list \<Rightarrow> string" where
  "commas [] = []"
| "commas [x] = x"
| "commas (x # y # zs) = x @ '','' @ commas (y # zs)"

locale json_serializer =
  fixes ser :: "json \<Rightarrow> string"
  assumes ser_str: "ser (JStr s) = json_quote s"
    and ser_int: "ser (JNum (NInt n)) = int_dec n"
    and ser_true: "ser (JBool True) = ''true''"
    and ser_arr: "ser (JArr vs) = ''['' @ commas (map ser vs) @ '']''"
    and ser_obj: "distinct (map fst kvs) \<Longrightarrow>
      \<exists>kvs'. mset kvs' = mset kvs \<and>
        ser (JObj kvs) = ''{'' @ commas (map (\<lambda>(k, v). json_quote k @ '':'' @ ser v) kvs') @ ''}''"

lemma sum_list_mset: "sum_list (map f xs) = (\<Sum>x\<in>#mset xs. f x)"
  by (simp flip: sum_mset_sum_list)

lemma length_commas: "length (commas xs) = sum_list (map length xs) + (length xs - 1)"
  by (induction xs rule: commas.induct) auto

lemma char_escaped_width_eq: "char_escaped_width = (\<lambda>c. length (esc_char c))"
  by (rule ext) (auto simp: char_escaped_width_def esc_char_def split: list.splits)

lemma escaped_len_eq: "length (json_quote s) = 2 + escaped_len s"
  by (simp add: json_quote_def escaped_len_def length_concat comp_def char_escaped_width_eq)

lemma digits_loop_shift: "digits_loop m (d + e) = digits_loop m d + e"
proof (induction m d rule: digits_loop.induct)
  case (1 m d)
  then show ?case
    by (simp add: digits_loop.simps [of m "d + e"] digits_loop.simps [of m d])
qed

lemma length_nat_dec: "length (nat_dec m) = digits_loop m 1"
proof (induction m rule: nat_dec.induct)
  case (1 n)
  show ?case
  proof (cases "n < 10")
    case True
    then show ?thesis by (simp add: nat_dec.simps [of n] digits_loop.simps [of n])
  next
    case False
    with 1 have "length (nat_dec n) = digits_loop (n div 10) 1 + 1"
      by (simp add: nat_dec.simps [of n])
    also have "\<dots> = digits_loop (n div 10) (1 + 1)" by (simp only: digits_loop_shift)
    also have "\<dots> = digits_loop n 1" using False by (simp add: digits_loop.simps [of n])
    finally show ?thesis .
  qed
qed

lemma length_int_dec: "length (int_dec n) = i64_digits n"
  by (simp add: int_dec_def i64_digits_def length_nat_dec)

context json_serializer
begin

lemma length_obj:
  assumes "distinct (map fst kvs)"
  shows "length (ser (JObj kvs)) =
    2 + sum_list (map (\<lambda>(k, v). 3 + escaped_len k + length (ser v)) kvs) + (length kvs - 1)"
proof -
  from ser_obj [OF assms] obtain kvs' where m: "mset kvs' = mset kvs"
    and eq: "ser (JObj kvs) = ''{'' @ commas (map (\<lambda>(k, v). json_quote k @ '':'' @ ser v) kvs') @ ''}''"
    by blast
  let ?w = "\<lambda>(k, v). 3 + escaped_len k + length (ser v)"
  have members: "map length (map (\<lambda>(k, v). json_quote k @ '':'' @ ser v) kvs') = map ?w kvs'"
    by (auto simp: escaped_len_eq)
  have "length (ser (JObj kvs)) = 2 + sum_list (map ?w kvs') + (length kvs' - 1)"
    by (simp only: eq length_append length_commas members) simp
  moreover have "sum_list (map ?w kvs') = sum_list (map ?w kvs)"
    by (simp only: sum_list_mset m)
  moreover have "length kvs' = length kvs" using m by (rule mset_eq_length)
  ultimately show ?thesis by simp
qed

lemma length_str: "length (ser (JStr s)) = 2 + escaped_len s"
  by (simp add: ser_str escaped_len_eq)

lemma length_jint: "length (ser (jint n)) = i64_digits n"
  by (simp add: jint_def ser_int length_int_dec)

lemma length_arr1: "length (ser (JArr [v])) = 2 + length (ser v)"
  by (simp add: ser_arr)

end

text \<open>The printer with the members in key order, as the library's ordered maps have them.\<close>

fun compact_ser :: "json \<Rightarrow> string" where
  "compact_ser JNull = ''null''"
| "compact_ser (JBool b) = (if b then ''true'' else ''false'')"
| "compact_ser (JNum (NInt n)) = int_dec n"
| "compact_ser (JNum (NFloat l)) = l"
| "compact_ser (JStr s) = json_quote s"
| "compact_ser (JArr vs) = ''['' @ commas (map compact_ser vs) @ '']''"
| "compact_ser (JObj kvs) =
     ''{'' @ commas (map (\<lambda>(k, t). json_quote k @ '':'' @ t)
       (sort_key fst (map (\<lambda>(k, v). (k, compact_ser v)) kvs))) @ ''}''"

lemma sort_key_map_fst: "sort_key fst (map (\<lambda>(k, v). (k, f v)) kvs) = map (\<lambda>(k, v). (k, f v)) (sort_key fst kvs)"
proof -
  have ins: "insort_key fst (k, f v) (map (\<lambda>(k, v). (k, f v)) xs) =
    map (\<lambda>(k, v). (k, f v)) (insort_key fst (k, v) xs)" for k v xs
    by (induction xs) auto
  show ?thesis
  proof (induction kvs)
    case Nil
    then show ?case by simp
  next
    case (Cons kv kvs)
    then show ?case by (cases kv) (simp add: sort_key_def ins)
  qed
qed

interpretation compact: json_serializer compact_ser
proof unfold_locales
  fix kvs :: "(string \<times> json) list"
  let ?kvs' = "sort_key fst kvs"
  have "compact_ser (JObj kvs) =
    ''{'' @ commas (map (\<lambda>(k, v). json_quote k @ '':'' @ compact_ser v) ?kvs') @ ''}''"
    by (simp only: compact_ser.simps sort_key_map_fst map_map) (simp add: comp_def case_prod_unfold)
  then show "\<exists>kvs'. mset kvs' = mset kvs \<and> compact_ser (JObj kvs) =
    ''{'' @ commas (map (\<lambda>(k, v). json_quote k @ '':'' @ compact_ser v) kvs') @ ''}''"
    by (intro exI [of _ ?kvs']) simp
qed simp_all

section \<open>Markers read back\<close>

lemma is_object_marker_data [simp]: "is_object (marker_data b e r a t tr)"
  by (simp add: marker_data_def Let_def split: option.splits)

lemma get_marker_data:
  "get (marker_data b e r a t tr) k =
     (if k = ''type'' then Some (JStr ANSWER_TYPE)
      else if k = ''batch_id'' then Some (JStr b)
      else if k = ''resolved_event_id'' then Some (jint r)
      else if k = ''resolved_at'' then Some (JStr a)
      else if k = ''escalation_event_id'' then map_option jint e
      else if k = ''answer_text'' then map_option JStr t
      else if k = ''truncated'' \<and> tr then Some (JBool True) else None)"
  by (simp add: marker_data_def Let_def split: option.splits)

lemma parse_marker_payload:
  "parse_parts (to_string (marker_payload b e r a t tr)) =
     Some [JObj [(''data'', marker_data b e r a t tr)]]"
  by (simp add: parse_parts_def marker_payload_def json_get_defs parts_domain_valid_def)

lemma map_filter_simps1: "List.map_filter f [x] = (case f x of None \<Rightarrow> [] | Some y \<Rightarrow> [y])"
  by (auto simp: List.map_filter_def split: option.splits)

text \<open>
  C29. A marker written for a message event is read back as it was meant: its payload parses,
  and the parts yield exactly one candidate, an answer of the same batch and escalation, ordered
  by the message's event id, with the same text, time and truncation flag.
\<close>

theorem marker_roundtrip:
  assumes "0 < r" and "r \<le> i64_max"
    and "\<And>i. e = Some i \<Longrightarrow> 0 < i \<and> i \<le> i64_max"
    and "t \<noteq> Some []"
  shows "map_option (\<lambda>parts. resolution_candidates parts own)
           (parse_parts (to_string (marker_payload b e r a t tr))) =
     Some [\<lparr>rc_kind = Answer, rc_batch_id = b, rc_escalation_event_id = e,
       rc_order_key = OrderKey r own 0, rc_answer_text = t, rc_resolved_at_raw = Some a,
       rc_embedded_resolved_event_id = Some r, rc_truncated = tr\<rparr>]"
proof -
  have lb: "i64_min \<le> n" if "0 < n" for n :: int using that by (simp add: i64_min_def)
  have pos: "positive_i64 (marker_data b e r a t tr) ''resolved_event_id'' = Some r"
    using assms(1,2) lb [of r] by (simp add: positive_i64_def get_marker_data)
  have escal: "positive_i64 (marker_data b e r a t tr) ''escalation_event_id'' = e"
    using assms(3) lb by (cases e) (auto simp: positive_i64_def get_marker_data)
  have ans: "Option.bind (get_str (marker_data b e r a t tr) ''answer_text'') nonempty = t"
    using assms(4) by (cases t) (auto simp: get_str_def get_marker_data nonempty_def)
  show ?thesis
    using pos escal ans
    by (simp add: parse_marker_payload resolution_candidates_def answer_part_count_def
        map_filter_simps1 candidate_of_part_def part_data_def embedded_resolved_event_id_def
        escalation_event_id_def get_str_def get_bool_def get_marker_data Let_def)
qed

theorem marker_roundtrip_witness:
  "map_option (\<lambda>parts. resolution_candidates parts 8)
     (parse_parts (to_string (marker_payload ''b'' (Some 3) 7 ''t'' (Some ''yes'') False))) =
   Some [\<lparr>rc_kind = Answer, rc_batch_id = ''b'', rc_escalation_event_id = Some 3,
     rc_order_key = OrderKey 7 8 0, rc_answer_text = Some ''yes'', rc_resolved_at_raw = Some ''t'',
     rc_embedded_resolved_event_id = Some 7, rc_truncated = False\<rparr>]"
  by (rule marker_roundtrip) (auto simp: i64_max_def)

section \<open>Marker sizes are exact\<close>

lemma escaped_len_ascii:
  "list_all (\<lambda>b. 32 \<le> (of_char b :: nat) \<and> (of_char b :: nat) < 128 \<and> b \<noteq> CHR 0x22 \<and> b \<noteq> CHR 0x5C) s \<Longrightarrow>
   escaped_len s = length s"
proof (induction s rule: utf8_chars.induct)
  case 1
  then show ?case by (simp add: escaped_len_def)
next
  case (2 b bs)
  then have "\<not> is_cont_byte (hd bs)" if "bs \<noteq> []"
    using that by (cases bs) (auto simp: is_cont_byte_def)
  then have tw: "takeWhile is_cont_byte bs = []" "dropWhile is_cont_byte bs = bs"
    by (cases bs; simp)+
  with 2 show ?case
    by (auto simp: escaped_len_def char_escaped_width_def)
qed


context json_serializer
begin

lemma escaped_len_lits:
  "escaped_len ''parts'' = 5" "escaped_len ''data'' = 4" "escaped_len ''type'' = 4"
  "escaped_len ''batch_id'' = 8" "escaped_len ''resolved_event_id'' = 17"
  "escaped_len ''resolved_at'' = 11" "escaped_len ''escalation_event_id'' = 19"
  "escaped_len ''answer_text'' = 11" "escaped_len ''truncated'' = 9"
  "escaped_len ANSWER_TYPE = 15"
  by (simp_all add: escaped_len_ascii ANSWER_TYPE_def)

lemma marker_length:
  "length (ser (marker_payload b e r a t tr)) = serialized_marker_bytes b e r a t tr"
  by (cases e; cases t; cases tr)
    (simp_all add: marker_payload_def marker_data_def Let_def length_obj length_arr1 length_str
      length_jint escaped_len_lits ser_true serialized_marker_bytes_def)

end

text \<open>
  The size of a marker computed without building it is exact: for every printer with the
  JSON library's interface, \<open>serialized_marker_bytes\<close> is the number of bytes of the marker's
  text, for every combination of the optional fields and every content of the strings.
\<close>

theorem marker_size:
  assumes "json_serializer ser"
  shows "length (ser (marker_payload b e r a t tr)) = serialized_marker_bytes b e r a t tr"
  using assms by (rule json_serializer.marker_length)

theorem marker_size_witness:
  "json_serializer compact_ser \<and>
   length (compact_ser (marker_payload ''b'' (Some 3) 7 ''t'' (Some ''a'') True)) =
     serialized_marker_bytes ''b'' (Some 3) 7 ''t'' (Some ''a'') True"
  using compact.json_serializer_axioms marker_size [OF compact.json_serializer_axioms] by blast

section \<open>Fitting an answer to the cap\<close>

abbreviation widths :: "string list \<Rightarrow> nat" where
  "widths cs \<equiv> sum_list (map char_escaped_width cs)"

lemma fit_loop_take:
  "\<exists>k \<le> length cs. fit_loop budget acc cs = concat (take k cs) \<and>
     (k = 0 \<or> acc + int (widths (take k cs)) \<le> budget) \<and>
     (k < length cs \<longrightarrow> budget < acc + int (widths (take (Suc k) cs)))"
proof (induction cs arbitrary: acc)
  case Nil
  then show ?case by simp
next
  case (Cons c cs)
  let ?w = "int (char_escaped_width c)"
  show ?case
  proof (cases "budget < acc + ?w")
    case True
    then show ?thesis by (intro exI [of _ 0]) simp
  next
    case False
    from Cons.IH [of "acc + ?w"] obtain k where "k \<le> length cs"
      and "fit_loop budget (acc + ?w) cs = concat (take k cs)"
      and "k = 0 \<or> acc + ?w + int (widths (take k cs)) \<le> budget"
      and "k < length cs \<longrightarrow> budget < acc + ?w + int (widths (take (Suc k) cs))"
      by blast
    with False show ?thesis by (intro exI [of _ "Suc k"]) (auto simp: algebra_simps)
  qed
qed

lemma escaped_len_take: "escaped_len (concat (take k (utf8_chars s))) = widths (take k (utf8_chars s))"
  by (simp add: escaped_len_def utf8_chars_prefix)

lemma serialized_marker_bytes_text:
  "serialized_marker_bytes b e r a (Some x) tr = serialized_marker_bytes b e r a (Some []) tr + escaped_len x"
  by (simp add: serialized_marker_bytes_def escaped_len_def)

lemma serialized_marker_bytes_none:
  "serialized_marker_bytes b e r a (Some []) tr = serialized_marker_bytes b e r a None tr + 17"
  by (simp add: serialized_marker_bytes_def escaped_len_def)

lemma serialized_marker_bytes_truncated:
  "serialized_marker_bytes b e r a t True = serialized_marker_bytes b e r a t False + 17"
  by (simp add: serialized_marker_bytes_def)

definition text_of :: "string option \<Rightarrow> string" where
  "text_of t = (case t of None \<Rightarrow> [] | Some p \<Rightarrow> p)"

lemma text_of_nonempty [simp]: "text_of (nonempty p) = p"
  by (simp add: text_of_def nonempty_def)

lemma nonempty_bytes_le:
  "serialized_marker_bytes b e r a (nonempty p) tr \<le> serialized_marker_bytes b e r a (Some p) tr"
  by (simp add: nonempty_def serialized_marker_bytes_none)

lemma fit_truncated:
  assumes "a \<noteq> []" and over: "\<not> serialized_marker_bytes b e r ra (nonempty a) False \<le> MARKER_SERIALIZED_CAP_BYTES"
  obtains k where "k < length (utf8_chars a)"
    and "fit_answer_text b e r ra a = (nonempty (concat (take k (utf8_chars a))), True)"
    and "k = 0 \<or> serialized_marker_bytes b e r ra (Some (concat (take k (utf8_chars a)))) True
           \<le> MARKER_SERIALIZED_CAP_BYTES"
    and "MARKER_SERIALIZED_CAP_BYTES
           < serialized_marker_bytes b e r ra (Some (concat (take (Suc k) (utf8_chars a)))) True"
proof -
  let ?cs = "utf8_chars a" and ?cap = MARKER_SERIALIZED_CAP_BYTES
  let ?fixed = "serialized_marker_bytes b e r ra (Some []) True"
  let ?budget = "int ?cap - int ?fixed"
  obtain k where k: "k \<le> length ?cs" "fit_loop ?budget 0 ?cs = concat (take k ?cs)"
    "k = 0 \<or> 0 + int (widths (take k ?cs)) \<le> ?budget"
    "k < length ?cs \<longrightarrow> ?budget < 0 + int (widths (take (Suc k) ?cs))"
    using fit_loop_take [of ?cs ?budget 0] by blast
  have bytes: "serialized_marker_bytes b e r ra (Some (concat (take j ?cs))) True = ?fixed + widths (take j ?cs)" for j
    by (subst serialized_marker_bytes_text) (simp add: escaped_len_take)
  have "k < length ?cs"
  proof (rule ccontr)
    assume "\<not> k < length ?cs"
    with k(1) have all: "take k ?cs = ?cs" by simp
    have "?cap < serialized_marker_bytes b e r ra (Some a) False"
      using over nonempty_bytes_le [of b e r ra a False] by simp
    then have "?cap < ?fixed + widths ?cs"
      using bytes [of k] all by (simp add: serialized_marker_bytes_truncated)
    moreover have "k \<noteq> 0"
    proof
      assume "k = 0"
      with all have "a = []" by (metis take_0 utf8_chars_Nil_iff)
      with assms(1) show False by simp
    qed
    ultimately show False using k(3) by (simp only: all) linarith
  qed
  moreover have "fit_answer_text b e r ra a = (nonempty (concat (take k ?cs)), True)"
    using over k(2) by (simp add: fit_answer_text_def Let_def)
  ultimately show thesis using that [of k] k bytes by auto
qed

text \<open>The fitted answer is the longest prefix that fits.\<close>

lemma fitted_answer:
  assumes env: "serialized_marker_bytes b e r ra None True \<le> MARKER_SERIALIZED_CAP_BYTES"
    and fit: "fit_answer_text b e r ra a = (t, tr)"
  shows "serialized_marker_bytes b e r ra t tr \<le> MARKER_SERIALIZED_CAP_BYTES \<and>
    (\<exists>k. text_of t = concat (take k (utf8_chars a)) \<and>
       (if tr then k < length (utf8_chars a) \<and> MARKER_SERIALIZED_CAP_BYTES
            < serialized_marker_bytes b e r ra (Some (concat (take (Suc k) (utf8_chars a)))) True
        else k = length (utf8_chars a)))"
proof (cases "serialized_marker_bytes b e r ra (nonempty a) False \<le> MARKER_SERIALIZED_CAP_BYTES")
  case True
  with fit have "t = nonempty a" "\<not> tr" by (auto simp: fit_answer_text_def Let_def)
  with True show ?thesis by (intro conjI exI [of _ "length (utf8_chars a)"]) auto
next
  case False
  then have "a \<noteq> []" using env by (auto simp: nonempty_def serialized_marker_bytes_truncated)
  from fit_truncated [OF this False] obtain k where k: "k < length (utf8_chars a)"
    "fit_answer_text b e r ra a = (nonempty (concat (take k (utf8_chars a))), True)"
    "k = 0 \<or> serialized_marker_bytes b e r ra (Some (concat (take k (utf8_chars a)))) True
       \<le> MARKER_SERIALIZED_CAP_BYTES"
    "MARKER_SERIALIZED_CAP_BYTES
       < serialized_marker_bytes b e r ra (Some (concat (take (Suc k) (utf8_chars a)))) True"
    by blast
  from fit k(2) have t: "t = nonempty (concat (take k (utf8_chars a)))" "tr" by auto
  have "serialized_marker_bytes b e r ra t tr \<le> MARKER_SERIALIZED_CAP_BYTES"
  proof (cases "k = 0")
    case True
    with t env show ?thesis by (simp add: nonempty_def)
  next
    case False
    with k(3) have "serialized_marker_bytes b e r ra (Some (concat (take k (utf8_chars a)))) True
      \<le> MARKER_SERIALIZED_CAP_BYTES" by simp
    with t show ?thesis by (simp add: order_trans [OF nonempty_bytes_le])
  qed
  with t k show ?thesis by (intro conjI exI [of _ k]) auto
qed

text \<open>
  C30. Fitting an answer to the size cap. When the marker without an answer fits, the marker
  with the fitted answer fits; the fitted answer is a prefix of the answer that ends on a
  character boundary; it is the whole answer unless it is flagged as truncated, and then the
  next character would not have fitted.
\<close>

theorem fit_answer_text_correct:
  assumes env: "serialized_marker_bytes b e r ra None True \<le> MARKER_SERIALIZED_CAP_BYTES"
    and fit: "fit_answer_text b e r ra a = (t, tr)"
  shows "serialized_marker_bytes b e r ra t tr \<le> MARKER_SERIALIZED_CAP_BYTES \<and>
    (\<exists>k. text_of t = concat (take k (utf8_chars a)) \<and>
       (if tr then k < length (utf8_chars a) \<and> MARKER_SERIALIZED_CAP_BYTES
            < serialized_marker_bytes b e r ra (Some (concat (take (Suc k) (utf8_chars a)))) True
        else k = length (utf8_chars a)))"
  using assms by (rule fitted_answer)

theorem fit_answer_text_correct_witness:
  "fit_answer_text ''b'' None 7 ''t'' ''ok'' = (Some ''ok'', False) \<and>
   serialized_marker_bytes ''b'' None 7 ''t'' (Some ''ok'') False \<le> MARKER_SERIALIZED_CAP_BYTES"
proof -
  have env: "serialized_marker_bytes ''b'' None 7 ''t'' None True \<le> MARKER_SERIALIZED_CAP_BYTES"
    by (simp add: serialized_marker_bytes_def escaped_len_ascii i64_digits_def digits_loop.simps
        MARKER_SERIALIZED_CAP_BYTES_def)
  have fit: "fit_answer_text ''b'' None 7 ''t'' ''ok'' = (Some ''ok'', False)"
    by (simp add: fit_answer_text_def nonempty_def serialized_marker_bytes_def escaped_len_ascii
        i64_digits_def digits_loop.simps MARKER_SERIALIZED_CAP_BYTES_def)
  show ?thesis using fit fit_answer_text_correct [OF env fit] by blast
qed

lemma bytes_ge_envelope:
  "serialized_marker_bytes b e r ra None False \<le> serialized_marker_bytes b e r ra t tr"
  by (simp add: serialized_marker_bytes_def)

text \<open>
  The check that a backfill source yields no marker agrees with the fitting it predicts:
  it holds exactly when the marker made from the fitted answer exceeds the cap.
\<close>

theorem source_yields_no_marker_iff:
  "source_yields_no_marker b i (Some a) \<longleftrightarrow>
     (case fit_answer_text b None i RESERVED_TIMESTAMP a of (t, tr) \<Rightarrow>
        MARKER_SERIALIZED_CAP_BYTES < serialized_marker_bytes b None i RESERVED_TIMESTAMP t tr)"
proof -
  let ?bytes = "\<lambda>t tr. serialized_marker_bytes b None i RESERVED_TIMESTAMP t tr"
  let ?cap = MARKER_SERIALIZED_CAP_BYTES
  obtain t tr where fit: "fit_answer_text b None i RESERVED_TIMESTAMP a = (t, tr)" by fastforce
  consider (envelope) "?cap < ?bytes None False"
    | (whole) "?bytes None False \<le> ?cap" "?bytes (nonempty a) False \<le> ?cap"
    | (cut) "?bytes None False \<le> ?cap" "\<not> ?bytes (nonempty a) False \<le> ?cap"
    by linarith
  then show ?thesis
  proof cases
    case envelope
    then have "?cap < ?bytes t tr" by (rule less_le_trans) (rule bytes_ge_envelope)
    with envelope fit show ?thesis
      by (simp add: source_yields_no_marker_def envelope_only_exceeds_cap_def)
  next
    case whole
    then show ?thesis
      by (simp add: source_yields_no_marker_def envelope_only_exceeds_cap_def fit_answer_text_def)
  next
    case cut
    then have src: "source_yields_no_marker b i (Some a) \<longleftrightarrow> ?cap < ?bytes None True"
      by (simp add: source_yields_no_marker_def envelope_only_exceeds_cap_def)
    show ?thesis
    proof (cases "?bytes None True \<le> ?cap")
      case True
      with fitted_answer [OF True fit] src fit show ?thesis by simp
    next
      case False
      from cut have "tr" using fit by (auto simp: fit_answer_text_def Let_def)
      then have "?bytes None True \<le> ?bytes t tr" by (simp add: serialized_marker_bytes_def)
      with False src fit show ?thesis by simp
    qed
  qed
qed

section \<open>The two readers of historical answers\<close>

text \<open>
  Reading role and parts in one pass is equivalent to parsing the payload twice:
  \<open>historical_answer_source_ref\<close> on the result of \<open>parse_role_and_parts\<close> gives, for every
  stored payload, what \<open>historical_answer_source\<close> gives.
\<close>

lemma historical_answer_source_one_pass:
  "historical_answer_source payload =
     Option.bind (parse_role_and_parts payload)
       (\<lambda>(role, parts). historical_answer_source_ref role parts)"
  by (cases "from_str payload")
    (auto simp: historical_answer_source_def historical_answer_source_ref_def top_role_def
      parse_parts_def parse_role_and_parts_def split: option.splits Option.bind_splits)

end
