(* ===== verification/Events.thy ===== *)
theory Events
  imports Store Resolution
begin

text \<open>
  \<open>scheduler/src/db/events.rs\<close>: the event log. Rows are only ever added, each inside a
  transaction of the execution it belongs to, and a row that names a session is refused unless
  that session belongs to the transaction's execution. Messages of a worker carry a sequence
  number, and a second row with the same session and number is dropped.

  Read side: the windows that page through an execution's or a session's log, and the
  association of an escalation with the marker that resolves it.
\<close>

section \<open>Inserting\<close>

text \<open>
  \<open>verify_session_owner\<close>: the cache of the transaction first, then the owner's row.
\<close>

definition verify_session_owner :: "string \<Rightarrow> (scheduler_error, unit) tx" where
  "verify_session_owner sid t =
     (if sid \<in> set (tx_verified t) then Inr ((), t)
      else if map_option s_execution_id (session_row sid (tx_db t)) = Some (tx_execution_id t)
      then Inr ((), t\<lparr>tx_verified := sid # tx_verified t\<rparr>)
      else Inl (Problem ''internal.error'' ''event session does not belong to the locked execution''))"

definition new_event ::
  "db \<Rightarrow> string \<Rightarrow> string option \<Rightarrow> event_type \<Rightarrow> jtext \<Rightarrow> int option \<Rightarrow> event" where
  "new_event db eid sid ty payload seq =
     \<lparr>ev_id = next_event_id db, ev_execution_id = eid, ev_session_id = sid, ev_type = ty,
      ev_payload = payload, ev_msg_seq = seq, ev_created_at = clock db\<rparr>"

text \<open>\<open>INSERT INTO events ... RETURNING id, created_at\<close>.\<close>

definition add_event ::
  "string \<Rightarrow> string option \<Rightarrow> event_type \<Rightarrow> jtext \<Rightarrow> int option \<Rightarrow> db \<Rightarrow> db" where
  "add_event eid sid ty payload seq db =
     db\<lparr>events := events db @ [new_event db eid sid ty payload seq],
        next_event_id := next_event_id db + 1\<rparr>"

definition insert_row ::
  "string option \<Rightarrow> event_type \<Rightarrow> jtext \<Rightarrow> int option \<Rightarrow> (scheduler_error, int \<times> timestamp) tx" where
  "insert_row sid ty payload seq t =
     Inr ((next_event_id (tx_db t), clock (tx_db t)),
          tx_put (add_event (tx_execution_id t) sid ty payload seq (tx_db t)) t)"

definition insert_in_tx ::
  "string option \<Rightarrow> event_type \<Rightarrow> jtext \<Rightarrow> (scheduler_error, int \<times> timestamp) tx" where
  "insert_in_tx sid ty payload =
     tx_bind (case sid of None \<Rightarrow> tx_ret () | Some i \<Rightarrow> verify_session_owner i)
       (\<lambda>_. insert_row sid ty payload None)"

text \<open>
  \<open>ON CONFLICT (session_id, msg_seq) DO NOTHING\<close>: no row, and \<open>None\<close>. The identity column has drawn its next
  value by then (\<open>AUTOINCREMENT\<close>), so an identifier is used up.
\<close>

definition seq_taken :: "string \<Rightarrow> int \<Rightarrow> db \<Rightarrow> bool" where
  "seq_taken sid seq db \<longleftrightarrow>
     list_ex (\<lambda>e. ev_session_id e = Some sid \<and> ev_msg_seq e = Some seq) (events db)"

definition use_up_event_id :: "db \<Rightarrow> db" where
  "use_up_event_id db = db\<lparr>next_event_id := next_event_id db + 1\<rparr>"

definition insert_with_dedup_in_tx ::
  "string \<Rightarrow> event_type \<Rightarrow> jtext \<Rightarrow> int \<Rightarrow> (scheduler_error, (int \<times> timestamp) option) tx" where
  "insert_with_dedup_in_tx sid ty payload seq =
     tx_bind (verify_session_owner sid) (\<lambda>_.
     tx_bind (tx_read (seq_taken sid seq)) (\<lambda>taken.
     if taken then (\<lambda>t. Inr (None, tx_put (use_up_event_id (tx_db t)) t))
     else tx_bind (insert_row (Some sid) ty payload (Some seq)) (\<lambda>r. tx_ret (Some r))))"

text \<open>\<open>insert_locked\<close>: an event in its own transaction.\<close>

definition insert_locked ::
  "string \<Rightarrow> string option \<Rightarrow> event_type \<Rightarrow> jtext \<Rightarrow> db \<Rightarrow> (scheduler_error + (int \<times> timestamp)) \<times> db" where
  "insert_locked eid sid ty payload =
     run_tx Inl eid (tx_bind (tx_map_err Inl (insert_in_tx sid ty payload)) (\<lambda>r. tx_ret (Inr r)))"

section \<open>Reading\<close>

definition list_by_execution :: "string \<Rightarrow> db \<Rightarrow> event list" where
  "list_by_execution eid db = sort_key ev_id (filter (\<lambda>e. ev_execution_id e = eid) (events db))"

definition list_by_session :: "string \<Rightarrow> db \<Rightarrow> event list" where
  "list_by_session sid db = sort_key ev_id (filter (\<lambda>e. ev_session_id e = Some sid) (events db))"

definition list_by_execution_since :: "string \<Rightarrow> int \<Rightarrow> db \<Rightarrow> event list" where
  "list_by_execution_since eid since db =
     sort_key ev_id (filter (\<lambda>e. ev_execution_id e = eid \<and> since < ev_id e) (events db))"

text \<open>
  \<open>window_sql\<close>, \<open>newest_sql\<close> and \<open>fetch_window\<close>: the rows of a scope on one side of a
  cursor, nearest first, at most \<open>limit\<close> of them. The \<open>_before\<close> readers reverse them.
\<close>

definition events_below :: "(event \<Rightarrow> bool) \<Rightarrow> int option \<Rightarrow> nat \<Rightarrow> db \<Rightarrow> event list" where
  "events_below scope before limit db =
     take limit (rev (sort_key ev_id (filter (\<lambda>e. scope e \<and>
       (case before of None \<Rightarrow> True | Some b \<Rightarrow> ev_id e < b)) (events db))))"

definition events_above :: "(event \<Rightarrow> bool) \<Rightarrow> int \<Rightarrow> nat \<Rightarrow> db \<Rightarrow> event list" where
  "events_above scope after limit db =
     take limit (sort_key ev_id (filter (\<lambda>e. scope e \<and> after < ev_id e) (events db)))"

definition list_by_execution_before :: "string \<Rightarrow> int option \<Rightarrow> nat \<Rightarrow> db \<Rightarrow> event list" where
  "list_by_execution_before eid before limit db =
     rev (events_below (\<lambda>e. ev_execution_id e = eid) before limit db)"

definition list_by_execution_after :: "string \<Rightarrow> int \<Rightarrow> nat \<Rightarrow> db \<Rightarrow> event list" where
  "list_by_execution_after eid after limit db =
     events_above (\<lambda>e. ev_execution_id e = eid) after limit db"

definition list_by_session_before :: "string \<Rightarrow> int option \<Rightarrow> nat \<Rightarrow> db \<Rightarrow> event list" where
  "list_by_session_before sid before limit db =
     rev (events_below (\<lambda>e. ev_session_id e = Some sid) before limit db)"

definition list_by_session_after :: "string \<Rightarrow> int \<Rightarrow> nat \<Rightarrow> db \<Rightarrow> event list" where
  "list_by_session_after sid after limit db =
     events_above (\<lambda>e. ev_session_id e = Some sid) after limit db"

definition event_by_id :: "int \<Rightarrow> db \<Rightarrow> event option" where
  "event_by_id i db = sql_find (\<lambda>e. ev_id e = i) (events db)"

definition list_platform_after_in_execution :: "string \<Rightarrow> int \<Rightarrow> db \<Rightarrow> event list" where
  "list_platform_after_in_execution eid after db =
     sort_key ev_id (filter (\<lambda>e. ev_execution_id e = eid \<and> ev_type e = EvPlatform \<and> after < ev_id e)
       (events db))"

definition scan_platform_descending :: "int option \<Rightarrow> nat \<Rightarrow> db \<Rightarrow> event list" where
  "scan_platform_descending from limit db =
     events_below (\<lambda>e. ev_type e = EvPlatform) from limit db"

definition platform_rows_exist_below :: "int \<Rightarrow> db \<Rightarrow> bool" where
  "platform_rows_exist_below i db \<longleftrightarrow>
     list_ex (\<lambda>e. ev_type e = EvPlatform \<and> ev_id e < i) (events db)"

definition list_messages_by_session :: "string \<Rightarrow> int option \<Rightarrow> db \<Rightarrow> event list" where
  "list_messages_by_session sid since db =
     sort_key ev_id (filter (\<lambda>e. ev_session_id e = Some sid \<and> ev_type e = EvMessage \<and>
       (case since of None \<Rightarrow> True | Some i \<Rightarrow> i < ev_id e)) (events db))"

section \<open>Escalations and their markers\<close>

record escalation =
  esc_id :: int
  esc_execution_id :: string
  esc_session_id :: string
  esc_created_at :: timestamp
  esc_data :: escalation_data

definition as_escalation :: "event \<Rightarrow> escalation option" where
  "as_escalation e =
     (if ev_type e \<noteq> EvPlatform then None
      else Option.bind (ev_session_id e) (\<lambda>sid.
           Option.bind (escalation_data_of (ev_payload e)) (\<lambda>data.
             Some \<lparr>esc_id = ev_id e, esc_execution_id = ev_execution_id e, esc_session_id = sid,
               esc_created_at = ev_created_at e, esc_data = data\<rparr>)))"

definition get_escalation :: "int \<Rightarrow> db \<Rightarrow> escalation option" where
  "get_escalation i db = Option.bind (event_by_id i db) as_escalation"

text \<open>
  The inner loop of \<open>best_marker\<close> over one event's candidates, and the loop over the events.
  \<open>fmt\<close> is the rendering of a timestamp (\<open>to_rfc3339_opts\<close> of the \<open>chrono\<close> library).
\<close>

definition better :: "resolution_candidate option \<Rightarrow> resolution_candidate \<Rightarrow> resolution_candidate option" where
  "better best cand =
     (case best of None \<Rightarrow> Some cand
      | Some b \<Rightarrow> if rc_order_key cand < rc_order_key b then Some cand else best)"

definition marker_candidates ::
  "(timestamp \<Rightarrow> string) \<Rightarrow> escalation \<Rightarrow> event \<Rightarrow> resolution_candidate list" where
  "marker_candidates fmt esc e =
     (if ev_session_id e \<noteq> Some (esc_session_id esc) then []
      else case parse_parts (ev_payload e) of
        None \<Rightarrow> []
      | Some parts \<Rightarrow>
          map (\<lambda>c. if rc_kind c = Dismiss then c\<lparr>rc_resolved_at_raw := Some (fmt (ev_created_at e))\<rparr> else c)
            (filter (\<lambda>c. rc_escalation_event_id c = Some (esc_id esc))
              (resolution_candidates parts (ev_id e))))"

definition best_marker ::
  "(timestamp \<Rightarrow> string) \<Rightarrow> event list \<Rightarrow> escalation \<Rightarrow> resolution_candidate option" where
  "best_marker fmt evs esc =
     foldl (\<lambda>best e. foldl better best (marker_candidates fmt esc e)) None evs"

definition find_marker_for_escalation ::
  "(timestamp \<Rightarrow> string) \<Rightarrow> escalation \<Rightarrow> db \<Rightarrow> resolution_candidate option" where
  "find_marker_for_escalation fmt esc db =
     best_marker fmt (list_platform_after_in_execution (esc_execution_id esc) (esc_id esc) db) esc"

section \<open>Facts\<close>

lemma verify_session_owner_iff:
  "verify_session_owner sid t = Inr (u, t') \<longleftrightarrow>
     (sid \<in> set (tx_verified t) \<and> t' = t \<or>
      sid \<notin> set (tx_verified t) \<and>
      map_option s_execution_id (session_row sid (tx_db t)) = Some (tx_execution_id t) \<and>
      t' = t\<lparr>tx_verified := sid # tx_verified t\<rparr>)"
  by (auto simp: verify_session_owner_def)

lemma insert_row_iff:
  "insert_row sid ty p seq t = Inr (r, t') \<longleftrightarrow>
     r = (next_event_id (tx_db t), clock (tx_db t)) \<and>
     t' = tx_put (add_event (tx_execution_id t) sid ty p seq (tx_db t)) t"
  by (auto simp: insert_row_def)

lemma add_event_sel [simp]:
  "sessions (add_event eid sid ty p seq db) = sessions db"
  "executions (add_event eid sid ty p seq db) = executions db"
  "task_queue (add_event eid sid ty p seq db) = task_queue db"
  "agents (add_event eid sid ty p seq db) = agents db"
  "drivers (add_event eid sid ty p seq db) = drivers db"
  "config (add_event eid sid ty p seq db) = config db"
  "clock (add_event eid sid ty p seq db) = clock db"
  "next_task_id (add_event eid sid ty p seq db) = next_task_id db"
  "next_event_id (add_event eid sid ty p seq db) = next_event_id db + 1"
  "events (add_event eid sid ty p seq db) = events db @ [new_event db eid sid ty p seq]"
  by (simp_all add: add_event_def)

lemma use_up_event_id_sel [simp]:
  "sessions (use_up_event_id db) = sessions db"
  "executions (use_up_event_id db) = executions db"
  "task_queue (use_up_event_id db) = task_queue db"
  "events (use_up_event_id db) = events db"
  "agents (use_up_event_id db) = agents db"
  "drivers (use_up_event_id db) = drivers db"
  "config (use_up_event_id db) = config db"
  "clock (use_up_event_id db) = clock db"
  "next_task_id (use_up_event_id db) = next_task_id db"
  "next_event_id (use_up_event_id db) = next_event_id db + 1"
  "session_row i (use_up_event_id db) = session_row i db"
  "execution_row i (use_up_event_id db) = execution_row i db"
  by (simp_all add: use_up_event_id_def session_row_def execution_row_def)

lemma session_row_add_event [simp]: "session_row i (add_event eid sid ty p seq db) = session_row i db"
  by (simp add: session_row_def)

lemma execution_row_add_event [simp]: "execution_row i (add_event eid sid ty p seq db) = execution_row i db"
  by (simp add: execution_row_def)

text \<open>What a successful insert did: the log has one more row and nothing else changed.\<close>

lemma insert_in_tx_db:
  assumes "insert_in_tx sid ty p t = Inr (r, t')"
  shows "tx_db t' = add_event (tx_execution_id t) sid ty p None (tx_db t)"
    and "tx_execution_id t' = tx_execution_id t"
    and "r = (next_event_id (tx_db t), clock (tx_db t))"
  using assms
  by (auto simp: insert_in_tx_def tx_iffs verify_session_owner_iff insert_row_iff
      split: option.splits)

lemma insert_with_dedup_db:
  assumes "insert_with_dedup_in_tx sid ty p seq t = Inr (r, t')"
  shows "tx_db t' = (if seq_taken sid seq (tx_db t) then use_up_event_id (tx_db t)
      else add_event (tx_execution_id t) (Some sid) ty p (Some seq) (tx_db t))"
    and "tx_execution_id t' = tx_execution_id t"
    and "r = None \<longleftrightarrow> seq_taken sid seq (tx_db t)"
  using assms
  by (auto simp: insert_with_dedup_in_tx_def tx_iffs verify_session_owner_iff insert_row_iff
      tx_ret_def split: if_splits)

end
