(* ===== verification/Task_Queue.thy ===== *)
theory Task_Queue
  imports Store
begin

text \<open>
  \<open>scheduler/src/db/task_queue.rs\<close> and \<open>scheduler/src/queue/mod.rs\<close>: the queue of messages
  waiting for a session.

  The code orders by \<open>queued_at\<close>, a timestamp of one-second resolution, and says nothing of
  ties; the model breaks ties by insertion order, as the row-ordered scan of the database does.
  The interface of a per-session inbox is the locale \<open>inbox\<close>; the table implements it.
\<close>

section \<open>Operations\<close>

record task_assignment =
  ta_execution_id :: string
  ta_session_id :: string
  ta_payload :: json

text \<open>The \<open>INSERT INTO task_queue\<close> used here and inline by the callers.\<close>

definition enqueue :: "string \<Rightarrow> string \<Rightarrow> jtext \<Rightarrow> string option \<Rightarrow> db \<Rightarrow> db" where
  "enqueue eid sid payload source db =
     db\<lparr>task_queue := task_queue db @ [\<lparr>t_id = next_task_id db, t_execution_id = eid,
          t_session_id = sid, t_payload = payload, t_source = source, t_queued_at = clock db\<rparr>],
        next_task_id := next_task_id db + 1\<rparr>"

definition push :: "task_assignment \<Rightarrow> db \<Rightarrow> db" where
  "push task db =
     enqueue (ta_execution_id task) (ta_session_id task) (to_string (ta_payload task)) None db"

text \<open>\<open>SELECT ... WHERE P ORDER BY queued_at ASC LIMIT 1\<close>.\<close>

definition oldest :: "(task \<Rightarrow> bool) \<Rightarrow> db \<Rightarrow> task option" where
  "oldest P db = (case sort_key t_queued_at (filter P (task_queue db)) of [] \<Rightarrow> None | t # _ \<Rightarrow> Some t)"

definition delete_task :: "int \<Rightarrow> db \<Rightarrow> db" where
  "delete_task i db = db\<lparr>task_queue := sql_delete (\<lambda>t. t_id t = i) (task_queue db)\<rparr>"

text \<open>
  The transaction of \<open>pop\<close> and \<open>pop_by_session\<close>: a payload that does not parse is an error and
  rolls back; deleting no row (another worker took it) is \<open>None\<close>.
\<close>

definition pop_where :: "(task \<Rightarrow> bool) \<Rightarrow> db \<Rightarrow> (scheduler_error + task_assignment option) \<times> db" where
  "pop_where P db =
     (case oldest P db of
        None \<Rightarrow> (Inr None, db)
      | Some t \<Rightarrow>
          (case from_str (t_payload t) of
             None \<Rightarrow> (Inl (Database ''deserialize task_payload failed''), db)
           | Some v \<Rightarrow>
               if sql_count (\<lambda>r. t_id r = t_id t) (task_queue db) = 0 then (Inr None, db)
               else (Inr (Some \<lparr>ta_execution_id = t_execution_id t,
                       ta_session_id = t_session_id t, ta_payload = v\<rparr>),
                     delete_task (t_id t) db)))"

definition pop :: "db \<Rightarrow> (scheduler_error + task_assignment option) \<times> db" where
  "pop db = pop_where (\<lambda>t. True) db"

definition pop_by_session :: "string \<Rightarrow> db \<Rightarrow> (scheduler_error + task_assignment option) \<times> db" where
  "pop_by_session sid db = pop_where (\<lambda>t. t_session_id t = sid) db"

definition has_task_for_session :: "string \<Rightarrow> db \<Rightarrow> bool" where
  "has_task_for_session sid db \<longleftrightarrow> list_ex (\<lambda>t. t_session_id t = sid) (task_queue db)"

definition flush_session :: "string \<Rightarrow> db \<Rightarrow> db" where
  "flush_session sid db = db\<lparr>task_queue := sql_delete (\<lambda>t. t_session_id t = sid) (task_queue db)\<rparr>"

text \<open>\<open>delete_by_session_in_tx\<close> and the inline \<open>DELETE\<close> of a stop, inside a transaction.\<close>

definition tx_flush_session :: "string \<Rightarrow> ('r, nat) tx" where
  "tx_flush_session sid t =
     Inr (count_pending_turns sid (tx_db t), tx_put (flush_session sid (tx_db t)) t)"

definition tx_enqueue :: "string \<Rightarrow> string \<Rightarrow> jtext \<Rightarrow> string option \<Rightarrow> ('r, unit) tx" where
  "tx_enqueue eid sid payload source t = Inr ((), tx_put (enqueue eid sid payload source (tx_db t)) t)"

definition queue_len :: "db \<Rightarrow> nat" where
  "queue_len db = length (task_queue db)"

section \<open>Well-formed queues\<close>

text \<open>
  Rows are in the order of their timestamps, none is later than the clock, identifiers are
  distinct and below the next one, and every payload is JSON.
\<close>

definition queue_wf :: "db \<Rightarrow> bool" where
  "queue_wf db \<longleftrightarrow>
     sorted (map t_queued_at (task_queue db)) \<and>
     (\<forall>t \<in> set (task_queue db). t_queued_at t \<le> clock db \<and> t_id t < next_task_id db \<and>
        from_str (t_payload t) \<noteq> None) \<and>
     distinct (map t_id (task_queue db))"

definition assignment_of :: "task \<Rightarrow> task_assignment" where
  "assignment_of t = \<lparr>ta_execution_id = t_execution_id t, ta_session_id = t_session_id t,
     ta_payload = the (from_str (t_payload t))\<rparr>"

definition inbox_of :: "string \<Rightarrow> db \<Rightarrow> task_assignment list" where
  "inbox_of sid db = map assignment_of (filter (\<lambda>t. t_session_id t = sid) (task_queue db))"

lemma enqueue_sel [simp]:
  "sessions (enqueue eid sid p src db) = sessions db"
  "executions (enqueue eid sid p src db) = executions db"
  "events (enqueue eid sid p src db) = events db"
  "agents (enqueue eid sid p src db) = agents db"
  "drivers (enqueue eid sid p src db) = drivers db"
  "config (enqueue eid sid p src db) = config db"
  "clock (enqueue eid sid p src db) = clock db"
  "next_event_id (enqueue eid sid p src db) = next_event_id db"
  "next_task_id (enqueue eid sid p src db) = next_task_id db + 1"
  by (simp_all add: enqueue_def)

lemma flush_session_sel [simp]:
  "sessions (flush_session sid db) = sessions db"
  "executions (flush_session sid db) = executions db"
  "events (flush_session sid db) = events db"
  "agents (flush_session sid db) = agents db"
  "drivers (flush_session sid db) = drivers db"
  "config (flush_session sid db) = config db"
  "clock (flush_session sid db) = clock db"
  "next_event_id (flush_session sid db) = next_event_id db"
  "next_task_id (flush_session sid db) = next_task_id db"
  by (simp_all add: flush_session_def)

lemma delete_task_sel [simp]:
  "sessions (delete_task i db) = sessions db"
  "executions (delete_task i db) = executions db"
  "events (delete_task i db) = events db"
  "agents (delete_task i db) = agents db"
  "drivers (delete_task i db) = drivers db"
  "config (delete_task i db) = config db"
  "clock (delete_task i db) = clock db"
  "next_event_id (delete_task i db) = next_event_id db"
  "next_task_id (delete_task i db) = next_task_id db"
  by (simp_all add: delete_task_def)

lemma queue_wf_enqueue: "queue_wf db \<Longrightarrow> from_str p \<noteq> None \<Longrightarrow> queue_wf (enqueue eid sid p src db)"
  by (auto simp: queue_wf_def enqueue_def sorted_append)

lemma queue_wf_flush: "queue_wf db \<Longrightarrow> queue_wf (flush_session sid db)"
  by (auto simp: queue_wf_def flush_session_def sql_delete_def sorted_filter distinct_map_filter)

lemma queue_wf_delete: "queue_wf db \<Longrightarrow> queue_wf (delete_task i db)"
  by (auto simp: queue_wf_def delete_task_def sql_delete_def sorted_filter distinct_map_filter)

lemma tx_flush_session_iff:
  "tx_flush_session sid t = Inr (n, t') \<longleftrightarrow>
     n = count_pending_turns sid (tx_db t) \<and> t' = tx_put (flush_session sid (tx_db t)) t"
  by (auto simp: tx_flush_session_def)

lemma tx_enqueue_iff:
  "tx_enqueue eid sid p src t = Inr (u, t') \<longleftrightarrow> t' = tx_put (enqueue eid sid p src (tx_db t)) t"
  by (auto simp: tx_enqueue_def)

text \<open>On a well-formed queue the oldest row of a session is the first one in table order.\<close>

lemma oldest_eq:
  assumes "queue_wf db"
  shows "oldest P db = (case filter P (task_queue db) of [] \<Rightarrow> None | t # _ \<Rightarrow> Some t)"
proof -
  have "sorted (map t_queued_at (filter P (task_queue db)))"
    using assms by (simp add: queue_wf_def sorted_filter)
  then show ?thesis by (simp add: oldest_def sort_key_id_if_sorted)
qed

section \<open>The inbox interface\<close>

text \<open>
  What the scheduler relies on: a message put in a session's inbox is taken out of it once, in
  order, and the inboxes of different sessions do not disturb each other.
\<close>

locale inbox =
  fixes inv :: "'st \<Rightarrow> bool"
    and contents :: "'k \<Rightarrow> 'st \<Rightarrow> 'v list"
    and enq :: "'k \<Rightarrow> 'v \<Rightarrow> 'st \<Rightarrow> 'st"
    and deq :: "'k \<Rightarrow> 'st \<Rightarrow> 'v option \<times> 'st"
    and drain :: "'k \<Rightarrow> 'st \<Rightarrow> 'st"
    and elapse :: "nat \<Rightarrow> 'st \<Rightarrow> 'st"
    and ok_val :: "'k \<Rightarrow> 'v \<Rightarrow> bool"
  assumes enq_inv: "inv st \<Longrightarrow> ok_val k v \<Longrightarrow> inv (enq k v st)"
    and enq_contents: "inv st \<Longrightarrow> ok_val k v \<Longrightarrow>
      contents k' (enq k v st) = (if k' = k then contents k st @ [v] else contents k' st)"
    and deq_inv: "inv st \<Longrightarrow> inv (snd (deq k st))"
    and deq_value: "inv st \<Longrightarrow> fst (deq k st) = (case contents k st of [] \<Rightarrow> None | v # _ \<Rightarrow> Some v)"
    and deq_contents: "inv st \<Longrightarrow>
      contents k' (snd (deq k st)) = (if k' = k then tl (contents k st) else contents k' st)"
    and drain_inv: "inv st \<Longrightarrow> inv (drain k st)"
    and drain_contents: "inv st \<Longrightarrow>
      contents k' (drain k st) = (if k' = k then [] else contents k' st)"
    and elapse_inv: "inv st \<Longrightarrow> inv (elapse n st)"
    and elapse_contents: "inv st \<Longrightarrow> contents k (elapse n st) = contents k st"

text \<open>Operations on an inbox, and a run of them that collects what each key delivered.\<close>

datatype ('k, 'v) inbox_op = Put 'k 'v | Take 'k | Drain 'k | Elapse nat

fun inbox_step ::
  "('k \<Rightarrow> 'v \<Rightarrow> 'st \<Rightarrow> 'st) \<Rightarrow> ('k \<Rightarrow> 'st \<Rightarrow> 'v option \<times> 'st) \<Rightarrow> ('k \<Rightarrow> 'st \<Rightarrow> 'st) \<Rightarrow>
   (nat \<Rightarrow> 'st \<Rightarrow> 'st) \<Rightarrow> ('k, 'v) inbox_op \<Rightarrow> 'st \<Rightarrow> ('k \<times> 'v) list \<times> 'st" where
  "inbox_step enq deq drain elapse (Put k v) st = ([], enq k v st)"
| "inbox_step enq deq drain elapse (Take k) st =
     (case deq k st of (None, st') \<Rightarrow> ([], st') | (Some v, st') \<Rightarrow> ([(k, v)], st'))"
| "inbox_step enq deq drain elapse (Drain k) st = ([], drain k st)"
| "inbox_step enq deq drain elapse (Elapse n) st = ([], elapse n st)"

fun inbox_run ::
  "('k \<Rightarrow> 'v \<Rightarrow> 'st \<Rightarrow> 'st) \<Rightarrow> ('k \<Rightarrow> 'st \<Rightarrow> 'v option \<times> 'st) \<Rightarrow> ('k \<Rightarrow> 'st \<Rightarrow> 'st) \<Rightarrow>
   (nat \<Rightarrow> 'st \<Rightarrow> 'st) \<Rightarrow> ('k, 'v) inbox_op list \<Rightarrow> 'st \<Rightarrow> ('k \<times> 'v) list \<times> 'st" where
  "inbox_run enq deq drain elapse [] st = ([], st)"
| "inbox_run enq deq drain elapse (x # xs) st =
     (let (out, st') = inbox_step enq deq drain elapse x st;
          (out', st'') = inbox_run enq deq drain elapse xs st'
      in (out @ out', st''))"

definition delivered_to :: "'k \<Rightarrow> ('k \<times> 'v) list \<Rightarrow> 'v list" where
  "delivered_to k out = map snd (filter (\<lambda>(k', _). k' = k) out)"

fun puts_to :: "'k \<Rightarrow> ('k, 'v) inbox_op list \<Rightarrow> 'v list" where
  "puts_to k [] = []"
| "puts_to k (Put k' v # xs) = (if k' = k then v # puts_to k xs else puts_to k xs)"
| "puts_to k (_ # xs) = puts_to k xs"

fun ok_op :: "('k \<Rightarrow> 'v \<Rightarrow> bool) \<Rightarrow> ('k, 'v) inbox_op \<Rightarrow> bool" where
  "ok_op P (Put k v) = P k v"
| "ok_op P _ = True"

context inbox
begin

lemma run_inv:
  "inv st \<Longrightarrow> list_all (ok_op ok_val) xs \<Longrightarrow> inv (snd (inbox_run enq deq drain elapse xs st))"
proof (induction xs arbitrary: st)
  case Nil
  then show ?case by simp
next
  case (Cons x xs)
  have "inv (snd (inbox_step enq deq drain elapse x st))"
    using Cons.prems enq_inv deq_inv drain_inv elapse_inv
    by (cases x) (auto split: prod.splits option.splits dest: sym, metis snd_conv, metis snd_conv)
  with Cons show ?case by (auto simp: Let_def split: prod.splits) (metis snd_conv)
qed

text \<open>
  First in, first out, per key: what was delivered to a key, followed by what is left, is what
  was there followed by what was put, as long as the key is not drained; a drain drops only
  messages not yet delivered.
\<close>

lemma step_fifo:
  assumes "inv st" and "ok_op ok_val x" and "x \<noteq> Drain k"
    and step: "inbox_step enq deq drain elapse x st = (out, st')"
  shows "delivered_to k out @ contents k st' = contents k st @ puts_to k [x]"
proof (cases x)
  case (Put k' v)
  with assms enq_contents [of st k' v k] show ?thesis by (auto simp: delivered_to_def)
next
  case (Take k')
  obtain r st1 where d: "deq k' st = (r, st1)" by fastforce
  with Take step deq_value [OF assms(1), of k'] deq_contents [OF assms(1), of k k']
  show ?thesis
    by (auto simp: delivered_to_def split: option.splits list.splits)
next
  case (Drain k')
  with assms drain_contents [of st k k'] show ?thesis by (auto simp: delivered_to_def)
next
  case (Elapse n)
  with assms elapse_contents [of st k n] show ?thesis by (auto simp: delivered_to_def)
qed

lemma run_fifo:
  assumes "inv st" and "list_all (ok_op ok_val) xs" and "Drain k \<notin> set xs"
    and "inbox_run enq deq drain elapse xs st = (out, st')"
  shows "delivered_to k out @ contents k st' = contents k st @ puts_to k xs"
  using assms
proof (induction xs arbitrary: st out)
  case Nil
  then show ?case by (simp add: delivered_to_def)
next
  case (Cons x xs)
  obtain o1 s1 where s: "inbox_step enq deq drain elapse x st = (o1, s1)" by fastforce
  obtain o2 s2 where r: "inbox_run enq deq drain elapse xs s1 = (o2, s2)" by fastforce
  from Cons.prems s r have out: "out = o1 @ o2" "st' = s2" by auto
  have "inv s1"
    using run_inv [of st "[x]"] Cons.prems s by (simp add: Let_def)
  then have "delivered_to k o2 @ contents k s2 = contents k s1 @ puts_to k xs"
    using Cons.IH [of s1 o2] Cons.prems(2,3) r out(2) by simp
  moreover have "delivered_to k o1 @ contents k s1 = contents k st @ puts_to k [x]"
    using step_fifo [OF _ _ _ s] Cons.prems by auto
  moreover have "puts_to k (x # xs) = puts_to k [x] @ puts_to k xs" by (cases x) auto
  ultimately show ?case using out by (simp add: delivered_to_def)
qed

end

section \<open>The task queue is an inbox\<close>

text \<open>\<open>pop_by_session\<close> with its error case, which a well-formed queue excludes, dropped.\<close>

definition take_task :: "string \<Rightarrow> db \<Rightarrow> task_assignment option \<times> db" where
  "take_task sid db = (case pop_by_session sid db of (Inr r, db') \<Rightarrow> (r, db') | (Inl _, db') \<Rightarrow> (None, db'))"

lemma pop_by_session_wf:
  assumes wf: "queue_wf db"
  shows "pop_by_session sid db =
    (case filter (\<lambda>t. t_session_id t = sid) (task_queue db) of
       [] \<Rightarrow> (Inr None, db)
     | t # _ \<Rightarrow> (Inr (Some (assignment_of t)), delete_task (t_id t) db))"
proof (cases "filter (\<lambda>t. t_session_id t = sid) (task_queue db)")
  case Nil
  then show ?thesis by (simp add: pop_by_session_def pop_where_def oldest_eq [OF wf])
next
  case (Cons t ts)
  then have t: "t \<in> set (task_queue db)" by (auto dest: filter_eq_ConsD)
  with wf obtain v where v: "from_str (t_payload t) = Some v" by (auto simp: queue_wf_def)
  have "sql_count (\<lambda>r. t_id r = t_id t) (task_queue db) \<noteq> 0"
    using t by (auto simp: sql_count_zero_iff)
  with Cons v show ?thesis
    by (simp add: pop_by_session_def pop_where_def oldest_eq [OF wf] assignment_of_def)
qed

lemma filter_delete_first:
  assumes "distinct (map k xs)" and "filter P xs = y # ys"
  shows "filter P (filter (\<lambda>x. k x \<noteq> k y) xs) = ys"
proof -
  from assms have "distinct (map k (y # ys))" by (metis distinct_map_filter)
  then have "\<forall>z \<in> set ys. k z \<noteq> k y" by (auto simp: image_iff)
  have "filter P (filter (\<lambda>x. k x \<noteq> k y) xs) = filter (\<lambda>x. k x \<noteq> k y) (filter P xs)"
    by (simp add: conj_commute)
  also have "\<dots> = ys" using assms(2) \<open>\<forall>z \<in> set ys. k z \<noteq> k y\<close> by (simp add: filter_id_conv)
  finally show ?thesis .
qed

lemma filter_delete_other:
  "distinct (map k xs) \<Longrightarrow> y \<in> set xs \<Longrightarrow> \<not> Q y \<Longrightarrow>
   filter Q (filter (\<lambda>x. k x \<noteq> k y) xs) = filter Q xs"
  by (simp, rule filter_cong [OF refl]) (metis key_inj)

lemma inbox_of_take:
  assumes wf: "queue_wf db"
  shows "inbox_of k' (snd (take_task k db)) = (if k' = k then tl (inbox_of k db) else inbox_of k' db)"
proof (cases "filter (\<lambda>t. t_session_id t = k) (task_queue db)")
  case Nil
  then show ?thesis by (simp add: take_task_def pop_by_session_wf [OF wf] inbox_of_def)
next
  case (Cons t ts)
  then have t: "t \<in> set (task_queue db)" "t_session_id t = k"
    by (auto dest: filter_eq_ConsD)
  have d: "distinct (map t_id (task_queue db))" using wf by (simp add: queue_wf_def)
  show ?thesis
    using Cons t filter_delete_first [OF d Cons] filter_delete_other [OF d t(1), of "\<lambda>t. t_session_id t = k'"]
    by (simp add: take_task_def pop_by_session_wf [OF wf] inbox_of_def delete_task_def sql_delete_def)
qed

text \<open>Time passes between statements.\<close>

definition elapse_clock :: "nat \<Rightarrow> db \<Rightarrow> db" where
  "elapse_clock n db = db\<lparr>clock := clock db + int n\<rparr>"

lemma queue_wf_elapse: "queue_wf db \<Longrightarrow> queue_wf (elapse_clock n db)"
  by (auto simp: queue_wf_def elapse_clock_def)

interpretation tq: inbox queue_wf inbox_of "\<lambda>sid task. push task" take_task flush_session elapse_clock
  "\<lambda>sid task. ta_session_id task = sid"
proof unfold_locales
  fix db :: db and k v
  assume wf: "queue_wf db"
  show "queue_wf (snd (take_task k db))"
    using wf by (auto simp: take_task_def pop_by_session_wf queue_wf_delete split: list.splits)
  show "fst (take_task k db) = (case inbox_of k db of [] \<Rightarrow> None | v # _ \<Rightarrow> Some v)"
    by (auto simp: take_task_def pop_by_session_wf [OF wf] inbox_of_def split: list.splits)
  show "queue_wf (flush_session k db)" using wf by (rule queue_wf_flush)
  show "queue_wf (elapse_clock n db)" for n using wf by (rule queue_wf_elapse)
  show "inbox_of k (elapse_clock n db) = inbox_of k db" for n
    by (simp add: inbox_of_def elapse_clock_def)
  fix k'
  show "inbox_of k' (snd (take_task k db)) = (if k' = k then tl (inbox_of k db) else inbox_of k' db)"
    using wf by (rule inbox_of_take)
  show "inbox_of k' (flush_session k db) = (if k' = k then [] else inbox_of k' db)"
    by (auto simp: inbox_of_def flush_session_def sql_delete_def intro: filter_cong arg_cong [where f = "map _"])
next
  fix db :: db and k and v :: task_assignment
  assume wf: "queue_wf db" and v: "ta_session_id v = k"
  show "queue_wf (push v db)" using wf by (simp add: push_def queue_wf_enqueue)
  fix k'
  show "inbox_of k' (push v db) = (if k' = k then inbox_of k db @ [v] else inbox_of k' db)"
    using v by (simp add: inbox_of_def push_def enqueue_def assignment_of_def)
qed

definition run_queue ::
  "(string, task_assignment) inbox_op list \<Rightarrow> db \<Rightarrow> (string \<times> task_assignment) list \<times> db" where
  "run_queue = inbox_run (\<lambda>sid task. push task) take_task flush_session elapse_clock"

text \<open>
  C20. The queue is first in, first out per session. Over any sequence of pushes, pops by
  session, flushes of other sessions and passing of time, on any well-formed queue: what was
  delivered to a session followed by what still waits for it is what waited for it at the start
  followed by what was pushed to it, in order. Nothing is lost, repeated, reordered or delivered
  to another session.
\<close>

theorem queue_fifo:
  assumes "queue_wf db"
    and "list_all (ok_op (\<lambda>sid task. ta_session_id task = sid)) ops"
    and "Drain sid \<notin> set ops"
    and "run_queue ops db = (out, db')"
  shows "delivered_to sid out @ inbox_of sid db' = inbox_of sid db @ puts_to sid ops"
  using assms unfolding run_queue_def by (rule tq.run_fifo)

definition empty_db :: db where
  "empty_db = \<lparr>sessions = [], executions = [], task_queue = [], events = [], agents = [],
     drivers = [], config = [], next_task_id = 1, next_event_id = 1, clock = 0\<rparr>"

theorem queue_fifo_witness:
  "let a = \<lparr>ta_execution_id = ''e'', ta_session_id = ''s'', ta_payload = JNull\<rparr>;
       b = \<lparr>ta_execution_id = ''e'', ta_session_id = ''r'', ta_payload = JBool True\<rparr>;
       c = \<lparr>ta_execution_id = ''e'', ta_session_id = ''s'', ta_payload = JBool False\<rparr>;
       (out, db') = run_queue [Put ''s'' a, Put ''r'' b, Elapse 1, Put ''s'' c, Take ''s'', Take ''r''] empty_db
   in delivered_to ''s'' out @ inbox_of ''s'' db' = [a, c]"
proof -
  let ?a = "\<lparr>ta_execution_id = ''e'', ta_session_id = ''s'', ta_payload = JNull\<rparr>"
  let ?b = "\<lparr>ta_execution_id = ''e'', ta_session_id = ''r'', ta_payload = JBool True\<rparr>"
  let ?c = "\<lparr>ta_execution_id = ''e'', ta_session_id = ''s'', ta_payload = JBool False\<rparr>"
  let ?ops = "[Put ''s'' ?a, Put ''r'' ?b, Elapse 1, Put ''s'' ?c, Take ''s'', Take ''r'']"
  obtain out db' where run: "run_queue ?ops empty_db = (out, db')" by fastforce
  have "queue_wf empty_db" by (simp add: queue_wf_def empty_db_def)
  from queue_fifo [OF this _ _ run, of "''s''"] run show ?thesis
    by (simp add: inbox_of_def empty_db_def)
qed

end
