(* ===== verification/Relations.thy ===== *)
theory Relations
  imports Events Task_Queue
begin

text \<open>
  What every transaction of the scheduler keeps: the well-formedness of the database, and the
  relation between the database before and after a statement. Rows of sessions and executions
  keep their identity and, once terminal, their outcome; the event log only grows.

  \<open>tx_step\<close> bundles all of it. The rules \<open>step_rules\<close> say which statements are steps, so that a
  transaction body is shown to be one by composing them.
\<close>

section \<open>Well-formed rows\<close>

text \<open>
  A session is terminal in its desired state exactly when it has an outcome, and then it has a
  completion time; the columns of the outstanding command are set and cleared together, and
  only an assignment or a turn carries a payload.
\<close>

definition session_wf :: "session \<Rightarrow> bool" where
  "session_wf s \<longleftrightarrow>
     (s_desired s = DTerminate \<longleftrightarrow> s_outcome s \<noteq> None) \<and>
     (s_outcome s = None \<longleftrightarrow> s_completed_at s = None) \<and>
     (s_command_token s = None \<longleftrightarrow> s_command_type s = None) \<and>
     (s_command_token s = None \<longleftrightarrow> s_command_at s = None) \<and>
     (s_command_has_payload s \<longrightarrow> s_command_type s = Some CAssign \<or> s_command_type s = Some CFeedTurn) \<and>
     0 \<le> s_recovery_attempts s"

definition execution_wf :: "execution \<Rightarrow> bool" where
  "execution_wf x \<longleftrightarrow>
     (x_desired x = DTerminate \<longleftrightarrow> x_outcome x \<noteq> None) \<and> x_desired x \<noteq> DStop \<and>
     (x_outcome x = None \<longleftrightarrow> x_completed_at x = None)"

section \<open>The event log\<close>

definition seq_key :: "event \<Rightarrow> (string option \<times> int option)" where
  "seq_key e = (ev_session_id e, ev_msg_seq e)"

definition log_wf :: "db \<Rightarrow> bool" where
  "log_wf d \<longleftrightarrow>
     sorted_wrt (<) (map ev_id (events d)) \<and>
     (\<forall>e \<in> set (events d). ev_id e < next_event_id d) \<and>
     (\<forall>e \<in> set (events d). \<forall>sid. ev_session_id e = Some sid \<longrightarrow>
        map_option s_execution_id (session_row sid d) = Some (ev_execution_id e)) \<and>
     distinct (map seq_key (filter (\<lambda>e. ev_msg_seq e \<noteq> None) (events d)))"

fun ids_from :: "int \<Rightarrow> event list \<Rightarrow> int \<Rightarrow> bool" where
  "ids_from n [] m \<longleftrightarrow> n \<le> m"
| "ids_from n (e # es) m \<longleftrightarrow> n \<le> ev_id e \<and> ids_from (ev_id e + 1) es m"

lemma ids_from_le: "ids_from n es m \<Longrightarrow> n \<le> m"
  by (induction es arbitrary: n) fastforce+

lemma ids_from_mono: "ids_from n es m \<Longrightarrow> n' \<le> n \<Longrightarrow> ids_from n' es m"
  by (cases es) auto

lemma ids_from_append: "ids_from n (xs @ ys) m \<longleftrightarrow> (\<exists>k. ids_from n xs k \<and> ids_from k ys m)"
proof (induction xs arbitrary: n)
  case Nil
  then show ?case using ids_from_mono by auto
qed auto

lemma ids_from_bounds: "ids_from n es m \<Longrightarrow> e \<in> set es \<Longrightarrow> n \<le> ev_id e \<and> ev_id e < m"
proof (induction es arbitrary: n)
  case (Cons a es)
  then show ?case using ids_from_le [of "ev_id a + 1" es m] by fastforce
qed simp

text \<open>
  The log of \<open>d'\<close> is that of \<open>d\<close> with new rows after it, numbered upwards from the next identifier on; an
  identifier may be left out.
\<close>

definition appends :: "db \<Rightarrow> db \<Rightarrow> bool" where
  "appends d d' \<longleftrightarrow>
     (\<exists>new. events d' = events d @ new \<and> ids_from (next_event_id d) new (next_event_id d'))"

lemma appends_refl: "appends d d"
  by (auto simp: appends_def)

lemma appends_trans:
  assumes "appends d d'" and "appends d' d''"
  shows "appends d d''"
proof -
  from assms obtain n1 n2 where "events d' = events d @ n1" "events d'' = events d' @ n2"
    and "ids_from (next_event_id d) n1 (next_event_id d')" "ids_from (next_event_id d') n2 (next_event_id d'')"
    by (auto simp: appends_def)
  then have "events d'' = events d @ (n1 @ n2)" and "ids_from (next_event_id d) (n1 @ n2) (next_event_id d'')"
    by (auto simp: ids_from_append)
  then show ?thesis unfolding appends_def by blast
qed

lemma appends_same: "events d' = events d \<Longrightarrow> next_event_id d' = next_event_id d \<Longrightarrow> appends d d'"
  by (auto simp: appends_def)

lemma appends_add_event: "appends d (add_event eid sid ty p seq d)"
  by (auto simp: appends_def new_event_def intro!: exI [of _ "[new_event d eid sid ty p seq]"])

lemma appends_use_up: "appends d (use_up_event_id d)"
  by (auto simp: appends_def)

section \<open>Rows over time\<close>

definition session_step :: "session \<Rightarrow> session \<Rightarrow> bool" where
  "session_step s s' \<longleftrightarrow>
     s_id s' = s_id s \<and> s_execution_id s' = s_execution_id s \<and>
     s_parent_session_id s' = s_parent_session_id s \<and> s_agent_id s' = s_agent_id s \<and>
     s_created_at s' = s_created_at s \<and>
     (s_desired s = DTerminate \<longrightarrow> s_desired s' = DTerminate \<and>
        (s_outcome s \<noteq> None \<longrightarrow> s_outcome s' = s_outcome s \<and> s_completed_at s' = s_completed_at s))"

definition execution_step :: "execution \<Rightarrow> execution \<Rightarrow> bool" where
  "execution_step x x' \<longleftrightarrow>
     x_id x' = x_id x \<and> x_project_id x' = x_project_id x \<and> x_title x' = x_title x \<and>
     (x_desired x = DTerminate \<longrightarrow> x_desired x' = DTerminate) \<and>
     (x_outcome x \<noteq> None \<longrightarrow> x_outcome x' = x_outcome x \<and> x_completed_at x' = x_completed_at x)"

lemma session_step_refl [simp]: "session_step s s"
  by (simp add: session_step_def)

lemma session_step_trans: "session_step s s' \<Longrightarrow> session_step s' s'' \<Longrightarrow> session_step s s''"
  by (auto simp: session_step_def)

lemma execution_step_refl [simp]: "execution_step x x"
  by (simp add: execution_step_def)

lemma execution_step_trans: "execution_step x x' \<Longrightarrow> execution_step x' x'' \<Longrightarrow> execution_step x x''"
  by (auto simp: execution_step_def)

definition evolves :: "db \<Rightarrow> db \<Rightarrow> bool" where
  "evolves d d' \<longleftrightarrow>
     (\<forall>i s. session_row i d = Some s \<longrightarrow> (\<exists>s'. session_row i d' = Some s' \<and> session_step s s')) \<and>
     (\<forall>i x. execution_row i d = Some x \<longrightarrow> (\<exists>x'. execution_row i d' = Some x' \<and> execution_step x x'))"

lemma evolves_refl: "evolves d d"
  by (auto simp: evolves_def)

lemma evolves_trans: "evolves d d' \<Longrightarrow> evolves d' d'' \<Longrightarrow> evolves d d''"
  unfolding evolves_def by (meson session_step_trans execution_step_trans)

lemma evolves_session:
  "evolves d d' \<Longrightarrow> session_row i d = Some s \<Longrightarrow> \<exists>s'. session_row i d' = Some s' \<and> session_step s s'"
  by (auto simp: evolves_def)

lemma evolves_execution:
  "evolves d d' \<Longrightarrow> execution_row i d = Some x \<Longrightarrow> \<exists>x'. execution_row i d' = Some x' \<and> execution_step x x'"
  by (auto simp: evolves_def)

lemma evolves_same_rows:
  "sessions d' = sessions d \<Longrightarrow> executions d' = executions d \<Longrightarrow> evolves d d'"
  by (auto simp: evolves_def session_row_def execution_row_def)

text \<open>Less than that: rows stay, and sessions keep their place in the tree. A recovery keeps this much.\<close>

definition same_place :: "session \<Rightarrow> session \<Rightarrow> bool" where
  "same_place s s' \<longleftrightarrow>
     s_id s' = s_id s \<and> s_execution_id s' = s_execution_id s \<and> s_parent_session_id s' = s_parent_session_id s"

definition remembers :: "db \<Rightarrow> db \<Rightarrow> bool" where
  "remembers d d' \<longleftrightarrow>
     (\<forall>i s. session_row i d = Some s \<longrightarrow> (\<exists>s'. session_row i d' = Some s' \<and> same_place s s')) \<and>
     (\<forall>i. execution_row i d \<noteq> None \<longrightarrow> execution_row i d' \<noteq> None)"

lemma session_step_place: "session_step s s' \<Longrightarrow> same_place s s'"
  by (simp add: session_step_def same_place_def)

lemma remembers_refl: "remembers d d"
  by (simp add: remembers_def same_place_def)

lemma remembers_trans: "remembers d d' \<Longrightarrow> remembers d' d'' \<Longrightarrow> remembers d d''"
  unfolding remembers_def same_place_def by metis

lemma evolves_remembers: "evolves d d' \<Longrightarrow> remembers d d'"
  unfolding evolves_def remembers_def using session_step_place by blast

text \<open>
  What a row read earlier still tells of a database: the session is where it was, unless it is gone by now.
\<close>

definition recalls :: "db \<Rightarrow> db \<Rightarrow> bool" where
  "recalls pre d \<longleftrightarrow>
     (\<forall>i s s'. session_row i pre = Some s \<longrightarrow> session_row i d = Some s' \<longrightarrow> same_place s s')"

lemma recalls_refl: "recalls d d"
  by (auto simp: recalls_def same_place_def)

lemma remembers_recalls: "remembers pre d \<Longrightarrow> recalls pre d"
  by (fastforce simp: remembers_def recalls_def)

lemma recalls_session:
  "recalls pre d \<Longrightarrow> session_row i pre = Some s \<Longrightarrow> session_row i d = Some s' \<Longrightarrow> same_place s s'"
  by (auto simp: recalls_def)

lemma remembers_session:
  "remembers d d' \<Longrightarrow> session_row i d = Some s \<Longrightarrow> \<exists>s'. session_row i d' = Some s' \<and> same_place s s'"
  by (auto simp: remembers_def)

section \<open>Well-formed databases\<close>

text \<open>
  A session is inserted after its parent, so the sessions form a forest: \<open>parents_first\<close> on
  the list of identifiers with their parents. An execution has one root at most.
\<close>

definition parents_first :: "(string \<times> string option) list \<Rightarrow> bool" where
  "parents_first ps \<longleftrightarrow>
     (\<forall>i < length ps. \<forall>p. snd (ps ! i) = Some p \<longrightarrow> p \<in> fst ` set (take i ps))"

definition lineage :: "session \<Rightarrow> string \<times> string option" where
  "lineage s = (s_id s, s_parent_session_id s)"

lemma parents_first_snoc:
  assumes "parents_first ps" and "\<And>p. snd x = Some p \<Longrightarrow> p \<in> fst ` set ps"
  shows "parents_first (ps @ [x])"
  using assms by (auto simp: parents_first_def nth_append less_Suc_eq)

abbreviation root_executions :: "session list \<Rightarrow> string list" where
  "root_executions ss \<equiv> map s_execution_id (filter (\<lambda>s. s_parent_session_id s = None) ss)"

definition db_wf :: "db \<Rightarrow> bool" where
  "db_wf d \<longleftrightarrow>
     distinct (map s_id (sessions d)) \<and> distinct (map x_id (executions d)) \<and>
     (\<forall>s \<in> set (sessions d). session_wf s \<and> execution_row (s_execution_id s) d \<noteq> None \<and>
        (\<forall>p. s_parent_session_id s = Some p \<longrightarrow> p \<noteq> s_id s \<and>
           map_option s_execution_id (session_row p d) = Some (s_execution_id s))) \<and>
     (\<forall>x \<in> set (executions d). execution_wf x) \<and>
     parents_first (map lineage (sessions d)) \<and> distinct (root_executions (sessions d)) \<and> log_wf d \<and> queue_wf d"

lemma db_wf_session: "db_wf d \<Longrightarrow> session_row i d = Some s \<Longrightarrow> session_wf s"
  by (auto simp: db_wf_def dest: session_rowD)

lemma db_wf_execution: "db_wf d \<Longrightarrow> execution_row i d = Some x \<Longrightarrow> execution_wf x"
  by (auto simp: db_wf_def dest: execution_rowD)

lemma db_wf_parent:
  "db_wf d \<Longrightarrow> s \<in> set (sessions d) \<Longrightarrow> s_parent_session_id s = Some p \<Longrightarrow> session_row p d \<noteq> None"
  by (fastforce simp: db_wf_def)

lemma db_wf_log: "db_wf d \<Longrightarrow> log_wf d"
  by (simp add: db_wf_def)

lemma db_wf_queue: "db_wf d \<Longrightarrow> queue_wf d"
  by (simp add: db_wf_def)

text \<open>The cache of a transaction holds sessions of its execution only.\<close>

definition tx_ok :: "exec_tx \<Rightarrow> bool" where
  "tx_ok t \<longleftrightarrow> db_wf (tx_db t) \<and>
     (\<forall>sid \<in> set (tx_verified t).
        map_option s_execution_id (session_row sid (tx_db t)) = Some (tx_execution_id t))"

definition tx_step :: "exec_tx \<Rightarrow> exec_tx \<Rightarrow> bool" where
  "tx_step t t' \<longleftrightarrow>
     tx_execution_id t' = tx_execution_id t \<and> evolves (tx_db t) (tx_db t') \<and>
     appends (tx_db t) (tx_db t') \<and> (tx_ok t \<longrightarrow> tx_ok t')"

interpretation step: tx_preorder tx_step
proof
  show "tx_step t t" for t
    by (auto simp: tx_step_def evolves_refl appends_refl)
  show "tx_step t t' \<Longrightarrow> tx_step t' t'' \<Longrightarrow> tx_step t t''" for t t' t''
    unfolding tx_step_def using evolves_trans appends_trans by metis
qed

text \<open>The same for a whole operation.\<close>

definition db_step :: "db \<Rightarrow> db \<Rightarrow> bool" where
  "db_step d d' \<longleftrightarrow> evolves d d' \<and> appends d d' \<and> (db_wf d \<longrightarrow> db_wf d')"

lemma db_step_refl [simp]: "db_step d d"
  by (simp add: db_step_def evolves_refl appends_refl)

lemma db_step_trans: "db_step d d' \<Longrightarrow> db_step d' d'' \<Longrightarrow> db_step d d''"
  unfolding db_step_def using evolves_trans appends_trans by metis

lemma db_step_run_tx:
  assumes "tx_keeps tx_step body" and "run_tx h eid body d = (r, d')"
  shows "db_step d d'"
  using step.keeps_run_tx [OF assms(2,1)]
  by cases (auto simp: db_step_def tx_step_def tx_ok_def evolves_refl appends_refl)

section \<open>Which statements are steps\<close>

lemma sql_find_map:
  "(\<And>r. k (g r) = k r) \<Longrightarrow> sql_find (\<lambda>x. k x = i) (map g rs) = map_option g (sql_find (\<lambda>x. k x = i) rs)"
  by (induction rs) (auto simp: sql_find_def)

lemma session_row_update:
  assumes "\<And>s. P s \<Longrightarrow> s_id (f (clock d) s) = s_id s"
  shows "session_row i (update_sessions P f d) =
    map_option (\<lambda>s. if P s then f (clock d) s else s) (session_row i d)"
  unfolding session_row_def update_sessions_def sql_update_def
  using sql_find_map [of s_id "\<lambda>s. if P s then f (clock d) s else s"] assms by simp

lemma execution_row_update:
  assumes "\<And>x. P x \<Longrightarrow> x_id (f (clock d) x) = x_id x"
  shows "execution_row i (update_executions P f d) =
    map_option (\<lambda>x. if P x then f (clock d) x else x) (execution_row i d)"
  unfolding execution_row_def update_executions_def sql_update_def
  using sql_find_map [of x_id "\<lambda>x. if P x then f (clock d) x else x"] assms by simp

lemma update_sessions_sel [simp]:
  "sessions (update_sessions P f d) = sql_update P (f (clock d)) (sessions d)"
  "executions (update_sessions P f d) = executions d"
  "task_queue (update_sessions P f d) = task_queue d"
  "events (update_sessions P f d) = events d"
  "agents (update_sessions P f d) = agents d"
  "drivers (update_sessions P f d) = drivers d"
  "config (update_sessions P f d) = config d"
  "next_task_id (update_sessions P f d) = next_task_id d"
  "next_event_id (update_sessions P f d) = next_event_id d"
  "clock (update_sessions P f d) = clock d"
  "execution_row i (update_sessions P f d) = execution_row i d"
  by (simp_all add: update_sessions_def execution_row_def)

lemma update_executions_sel [simp]:
  "sessions (update_executions P f d) = sessions d"
  "executions (update_executions P f d) = sql_update P (f (clock d)) (executions d)"
  "task_queue (update_executions P f d) = task_queue d"
  "events (update_executions P f d) = events d"
  "agents (update_executions P f d) = agents d"
  "drivers (update_executions P f d) = drivers d"
  "config (update_executions P f d) = config d"
  "next_task_id (update_executions P f d) = next_task_id d"
  "next_event_id (update_executions P f d) = next_event_id d"
  "clock (update_executions P f d) = clock d"
  "session_row i (update_executions P f d) = session_row i d"
  by (simp_all add: update_executions_def session_row_def)

text \<open>Owners of sessions never change, so log and cache stay sound while rows evolve.\<close>

lemma owner_remembers:
  "remembers d d' \<Longrightarrow> map_option s_execution_id (session_row i d) = Some e \<Longrightarrow>
   map_option s_execution_id (session_row i d') = Some e"
  by (auto dest!: remembers_session simp: same_place_def)

lemmas owner_evolves = owner_remembers [OF evolves_remembers]

lemma log_wf_remembers:
  "log_wf d \<Longrightarrow> remembers d d' \<Longrightarrow> events d' = events d \<Longrightarrow> next_event_id d' = next_event_id d \<Longrightarrow> log_wf d'"
  unfolding log_wf_def using owner_remembers by metis

lemmas log_wf_evolves = log_wf_remembers [OF _ evolves_remembers]

lemma queue_wf_same:
  "queue_wf d \<Longrightarrow> task_queue d' = task_queue d \<Longrightarrow> clock d' = clock d \<Longrightarrow>
   next_task_id d' = next_task_id d \<Longrightarrow> queue_wf d'"
  by (simp add: queue_wf_def)

lemma evolves_update_sessions:
  assumes "\<And>s. P s \<Longrightarrow> session_step s (f (clock d) s)"
  shows "evolves d (update_sessions P f d)"
proof -
  have "s_id (f (clock d) s) = s_id s" if "P s" for s
    using assms [OF that] by (simp add: session_step_def)
  from session_row_update [of P f d, OF this] assms show ?thesis
    by (auto simp: evolves_def)
qed

lemma evolves_update_executions:
  assumes "\<And>x. P x \<Longrightarrow> execution_step x (f (clock d) x)"
  shows "evolves d (update_executions P f d)"
proof -
  have "x_id (f (clock d) x) = x_id x" if "P x" for x
    using assms [OF that] by (simp add: execution_step_def)
  from execution_row_update [of P f d, OF this] assms show ?thesis
    by (auto simp: evolves_def)
qed

lemma remembers_update_sessions:
  assumes "\<And>s. P s \<Longrightarrow> same_place s (f (clock d) s)"
  shows "remembers d (update_sessions P f d)"
proof -
  have "s_id (f (clock d) s) = s_id s" if "P s" for s
    using assms [OF that] by (simp add: same_place_def)
  from session_row_update [of P f d, OF this] assms show ?thesis
    by (auto simp: remembers_def same_place_def)
qed

text \<open>An update that moves no session keeps a database well formed if it keeps the rows so.\<close>

lemma db_wf_update_places:
  assumes place: "\<And>s. P s \<Longrightarrow> same_place s (f (clock d) s)"
    and wf: "\<And>s. P s \<Longrightarrow> session_wf s \<Longrightarrow> session_wf (f (clock d) s)"
    and "db_wf d"
  shows "db_wf (update_sessions P f d)"
proof -
  let ?d = "update_sessions P f d" and ?g = "\<lambda>s. if P s then f (clock d) s else s"
  have rem: "remembers d ?d" using place by (rule remembers_update_sessions)
  have g: "same_place s (?g s)" for s using place by (simp add: same_place_def)
  have ids: "map s_id (sessions ?d) = map s_id (sessions d)"
    and lin: "map lineage (sessions ?d) = map lineage (sessions d)"
    using g by (simp_all add: sql_update_def same_place_def lineage_def)
  have roots: "root_executions (sessions ?d) = root_executions (sessions d)"
    using g unfolding update_sessions_sel sql_update_def filter_map map_map by (intro map_cong filter_cong) (auto simp: same_place_def)
  have rows: "session_wf s' \<and> execution_row (s_execution_id s') ?d \<noteq> None \<and>
      (\<forall>p. s_parent_session_id s' = Some p \<longrightarrow> p \<noteq> s_id s' \<and>
         map_option s_execution_id (session_row p ?d) = Some (s_execution_id s'))"
    if "s' \<in> set (sessions ?d)" for s'
  proof -
    from that obtain s where s: "s \<in> set (sessions d)" "s' = ?g s" by (auto simp: in_sql_update)
    have eqs: "s_execution_id s' = s_execution_id s" "s_parent_session_id s' = s_parent_session_id s"
      "s_id s' = s_id s"
      using g [of s] s by (simp_all add: same_place_def)
    have "session_wf s" "execution_row (s_execution_id s) d \<noteq> None"
      "\<forall>p. s_parent_session_id s = Some p \<longrightarrow> p \<noteq> s_id s \<and>
         map_option s_execution_id (session_row p d) = Some (s_execution_id s)"
      using \<open>db_wf d\<close> s by (auto simp: db_wf_def)
    then show ?thesis unfolding eqs using wf owner_remembers [OF rem] s(2) by auto
  qed
  have "distinct (map s_id (sessions ?d))" "distinct (map x_id (executions ?d))"
    "\<forall>x \<in> set (executions ?d). execution_wf x" "parents_first (map lineage (sessions ?d))"
    "distinct (root_executions (sessions ?d))"
    unfolding ids lin roots using \<open>db_wf d\<close> by (auto simp: db_wf_def)
  moreover have "log_wf ?d" "queue_wf ?d"
    using \<open>db_wf d\<close> log_wf_remembers [OF _ rem] queue_wf_same [of d ?d] by (auto simp: db_wf_def)
  ultimately show ?thesis
    using rows unfolding db_wf_def by blast
qed

lemmas db_wf_update_sessions = db_wf_update_places [OF session_step_place]

lemma db_wf_update_execution_rows:
  assumes ids: "\<And>x. P x \<Longrightarrow> x_id (f (clock d) x) = x_id x"
    and wf: "\<And>x. P x \<Longrightarrow> execution_wf x \<Longrightarrow> execution_wf (f (clock d) x)"
    and "db_wf d"
  shows "db_wf (update_executions P f d)"
proof -
  let ?d = "update_executions P f d"
  have "map x_id (executions ?d) = map x_id (executions d)" using ids by (simp add: sql_update_def)
  then have "distinct (map x_id (executions ?d))" using \<open>db_wf d\<close> by (simp add: db_wf_def)
  moreover have kept: "execution_row i ?d \<noteq> None" if "execution_row i d \<noteq> None" for i
    using that execution_row_update [of P f d i] ids by simp
  moreover have "remembers d ?d" using kept by (simp add: remembers_def same_place_def)
  ultimately show ?thesis
    using \<open>db_wf d\<close> log_wf_remembers [of d ?d] queue_wf_same [of d ?d] wf
    by (auto simp: db_wf_def in_sql_update)
qed

lemma db_wf_update_executions:
  assumes "\<And>x. P x \<Longrightarrow> execution_step x (f (clock d) x)"
    and "\<And>x. P x \<Longrightarrow> execution_wf x \<Longrightarrow> execution_wf (f (clock d) x)" and "db_wf d"
  shows "db_wf (update_executions P f d)"
  using assms by (intro db_wf_update_execution_rows) (auto simp: execution_step_def)

lemma tx_ok_put:
  "tx_ok t \<Longrightarrow> evolves (tx_db t) d \<Longrightarrow> db_wf d \<Longrightarrow> tx_ok (tx_put d t)"
  unfolding tx_ok_def using owner_evolves by auto

lemma tx_step_put:
  assumes "evolves (tx_db t) d" and "appends (tx_db t) d" and "tx_ok t \<Longrightarrow> db_wf d"
  shows "tx_step t (tx_put d t)"
  using assms tx_ok_put by (auto simp: tx_step_def)

lemma step_update_sessions:
  assumes "\<And>now s. P s \<Longrightarrow> session_step s (f now s)"
    and "\<And>now s. P s \<Longrightarrow> session_wf s \<Longrightarrow> session_wf (f now s)"
  shows "tx_keeps tx_step (tx_update_sessions P f)"
  using assms
  by (auto simp: tx_keeps_def tx_iffs tx_ok_def intro!: tx_step_put evolves_update_sessions
      appends_same db_wf_update_sessions)

lemma step_update_executions:
  assumes "\<And>now x. P x \<Longrightarrow> execution_step x (f now x)"
    and "\<And>now x. P x \<Longrightarrow> execution_wf x \<Longrightarrow> execution_wf (f now x)"
  shows "tx_keeps tx_step (tx_update_executions P f)"
  using assms
  by (auto simp: tx_keeps_def tx_iffs tx_ok_def intro!: tx_step_put evolves_update_executions
      appends_same db_wf_update_executions)

lemma db_wf_add_event:
  assumes "db_wf d" and "\<And>i. sid = Some i \<Longrightarrow> map_option s_execution_id (session_row i d) = Some eid"
    and "\<And>i n. sid = Some i \<Longrightarrow> seq = Some n \<Longrightarrow> \<not> seq_taken i n d" and "seq \<noteq> None \<Longrightarrow> sid \<noteq> None"
  shows "db_wf (add_event eid sid ty p seq d)"
proof -
  let ?e = "new_event d eid sid ty p seq"
  have e: "ev_id ?e = next_event_id d" "ev_session_id ?e = sid" "ev_msg_seq ?e = seq"
    "ev_execution_id ?e = eid"
    by (simp_all add: new_event_def)
  have old: "log_wf d" using assms(1) by (rule db_wf_log)
  have fresh: "seq_key ?e \<notin> seq_key ` {e \<in> set (events d). ev_msg_seq e \<noteq> None}" if "seq = Some n" for n
  proof -
    from that assms(4) obtain i where i: "sid = Some i" by auto
    have "\<not> seq_taken i n d" by (rule assms(3)) fact+
    then show ?thesis
      unfolding seq_key_def e using i that by (auto simp: seq_taken_def list_ex_iff)
  qed
  have "distinct (map seq_key (filter (\<lambda>e. ev_msg_seq e \<noteq> None) (events d @ [?e])))"
    using old fresh by (cases seq) (auto simp: log_wf_def new_event_def)
  moreover have "sorted_wrt (<) (map ev_id (events d @ [?e]))"
    using old by (auto simp: log_wf_def e sorted_wrt_append)
  moreover have "\<forall>x \<in> set (events d @ [?e]). ev_id x < next_event_id d + 1"
    using old by (force simp: log_wf_def e)
  moreover have "map_option s_execution_id (session_row i d) = Some (ev_execution_id x)"
    if "x \<in> set (events d @ [?e])" and "ev_session_id x = Some i" for x i
    using that old assms(2) by (auto simp: log_wf_def new_event_def)
  ultimately have "log_wf (add_event eid sid ty p seq d)"
    unfolding log_wf_def by simp
  moreover have "queue_wf (add_event eid sid ty p seq d)"
    using assms(1) queue_wf_same [of d] by (simp add: db_wf_def)
  ultimately show ?thesis
    using assms(1) by (simp add: db_wf_def)
qed

lemma evolves_add_event: "evolves d (add_event eid sid ty p seq d)"
  by (rule evolves_same_rows) simp_all

lemma verify_step: "tx_keeps tx_step (verify_session_owner sid)"
  by (auto simp: tx_keeps_def verify_session_owner_iff tx_step_def evolves_refl appends_refl tx_ok_def)

lemma verify_owner:
  assumes "verify_session_owner sid t = Inr (u, t')" and "tx_ok t'"
  shows "map_option s_execution_id (session_row sid (tx_db t')) = Some (tx_execution_id t')"
  using assms by (auto simp: verify_session_owner_iff tx_ok_def)

lemma step_insert_row:
  assumes "tx_ok t \<Longrightarrow> (\<forall>i. sid = Some i \<longrightarrow>
      map_option s_execution_id (session_row i (tx_db t)) = Some (tx_execution_id t))"
    and "\<And>i n. sid = Some i \<Longrightarrow> seq = Some n \<Longrightarrow> \<not> seq_taken i n (tx_db t)" and "seq \<noteq> None \<Longrightarrow> sid \<noteq> None"
    and "insert_row sid ty p seq t = Inr (r, t')"
  shows "tx_step t t'"
  using assms
  by (auto simp: insert_row_iff tx_ok_def intro!: tx_step_put evolves_add_event appends_add_event db_wf_add_event)

lemma step_insert_in_tx: "tx_keeps tx_step (insert_in_tx sid ty p)"
proof (rule tx_keepsI)
  fix t r t' assume "insert_in_tx sid ty p t = Inr (r, t')"
  then obtain t1 where t1: "(case sid of None \<Rightarrow> tx_ret () | Some i \<Rightarrow> verify_session_owner i) t = Inr ((), t1)"
    and ins: "insert_row sid ty p None t1 = Inr (r, t')"
    by (auto simp: insert_in_tx_def tx_iffs)
  have "tx_step t t1"
    using t1 tx_keepsD [OF verify_step] by (auto simp: tx_iffs step.R_refl split: option.splits)
  moreover have "tx_step t1 t'"
    by (rule step_insert_row [OF _ _ _ ins]) (use t1 verify_owner in \<open>auto split: option.splits\<close>)
  ultimately show "tx_step t t'" by (rule step.R_trans)
qed

lemma db_wf_use_up: "db_wf d \<Longrightarrow> db_wf (use_up_event_id d)"
proof -
  assume wf: "db_wf d"
  have "log_wf (use_up_event_id d)" using db_wf_log [OF wf] by (fastforce simp: log_wf_def)
  moreover have "queue_wf (use_up_event_id d)" using db_wf_queue [OF wf] by (rule queue_wf_same) simp_all
  ultimately show ?thesis using wf by (simp add: db_wf_def)
qed

lemma use_up_step: "tx_step t (tx_put (use_up_event_id (tx_db t)) t)"
  by (rule tx_step_put) (auto simp: tx_ok_def appends_use_up db_wf_use_up intro: evolves_same_rows)

lemma step_insert_with_dedup: "tx_keeps tx_step (insert_with_dedup_in_tx sid ty p seq)"
proof (rule tx_keepsI)
  fix t r t' assume "insert_with_dedup_in_tx sid ty p seq t = Inr (r, t')"
  then obtain t1 where t1: "verify_session_owner sid t = Inr ((), t1)"
    and ins: "t' = tx_put (use_up_event_id (tx_db t1)) t1 \<or> \<not> seq_taken sid seq (tx_db t1) \<and>
      (\<exists>r'. insert_row (Some sid) ty p (Some seq) t1 = Inr (r', t'))"
    by (auto simp: insert_with_dedup_in_tx_def tx_iffs split: if_splits)
  have "tx_step t t1" using t1 tx_keepsD [OF verify_step] by blast
  moreover have "tx_step t1 t'"
    using ins
  proof
    assume "\<not> seq_taken sid seq (tx_db t1) \<and> (\<exists>r'. insert_row (Some sid) ty p (Some seq) t1 = Inr (r', t'))"
    then show ?thesis
      using t1 verify_owner by (auto elim!: step_insert_row [rotated 3])
  qed (simp add: use_up_step)
  ultimately show "tx_step t t'" by (rule step.R_trans)
qed

lemma db_wf_queue_only:
  "db_wf d \<Longrightarrow> sessions d' = sessions d \<Longrightarrow> executions d' = executions d \<Longrightarrow> events d' = events d \<Longrightarrow>
   next_event_id d' = next_event_id d \<Longrightarrow> queue_wf d' \<Longrightarrow> db_wf d'"
  by (auto simp: db_wf_def log_wf_def session_row_def execution_row_def)

lemma db_wf_enqueue: "db_wf d \<Longrightarrow> from_str p \<noteq> None \<Longrightarrow> db_wf (enqueue eid sid p src d)"
  by (rule db_wf_queue_only) (simp_all add: queue_wf_enqueue db_wf_queue)

lemma db_wf_flush: "db_wf d \<Longrightarrow> db_wf (flush_session sid d)"
  by (rule db_wf_queue_only) (simp_all add: queue_wf_flush db_wf_queue)

lemma step_enqueue: "from_str p \<noteq> None \<Longrightarrow> tx_keeps tx_step (tx_enqueue eid sid p src)"
  by (auto simp: tx_keeps_def tx_enqueue_iff tx_ok_def intro!: tx_step_put evolves_same_rows appends_same
      db_wf_enqueue)

lemma step_flush: "tx_keeps tx_step (tx_flush_session sid)"
  by (auto simp: tx_keeps_def tx_flush_session_iff tx_ok_def intro!: tx_step_put evolves_same_rows appends_same
      db_wf_flush)

lemmas step_rules = step.keeps step_insert_in_tx step_insert_with_dedup step_enqueue step_flush
  step_update_sessions step_update_executions

section \<open>Operations\<close>

text \<open>An operation on the pool is a step, and changes nothing when it fails.\<close>

definition op_ok :: "db \<Rightarrow> ('e + 'a) \<times> db \<Rightarrow> bool" where
  "op_ok d res \<longleftrightarrow> db_step d (snd res) \<and> (\<forall>e. fst res = Inl e \<longrightarrow> snd res = d)"

lemma op_ok_step: "op_ok d (r, d') \<Longrightarrow> db_step d d'"
  by (simp add: op_ok_def)

lemma op_ok_err: "op_ok d (Inl e, d') \<Longrightarrow> d' = d"
  by (simp add: op_ok_def)

lemma op_ok_none: "op_ok d (r, d)"
  by (simp add: op_ok_def)

lemma op_ok_tx: "tx_keeps tx_step body \<Longrightarrow> commits_ok body \<Longrightarrow> op_ok d (run_tx h eid body d)"
  by (cases "run_tx h eid body d") (auto simp: op_ok_def dest: db_step_run_tx run_tx_Err)

section \<open>Relations on the session rows\<close>

text \<open>
  A preorder that only looks at the session rows is kept by every statement on the other
  tables; a body keeps it when its updates of \<open>sessions\<close> do.
\<close>

locale session_relation =
  fixes S :: "db \<Rightarrow> db \<Rightarrow> bool"
  assumes S_same: "sessions d' = sessions d \<Longrightarrow> S d d'"
    and S_trans: "S d d' \<Longrightarrow> S d' d'' \<Longrightarrow> S d d''"

sublocale session_relation \<subseteq> tx_preorder "\<lambda>t t'. S (tx_db t) (tx_db t')"
  by unfold_locales (auto intro: S_same S_trans)

context session_relation
begin

lemma keeps_insert_in_tx: "tx_keeps (\<lambda>t t'. S (tx_db t) (tx_db t')) (insert_in_tx sid ty p)"
  by (auto simp: tx_keeps_def insert_in_tx_db intro!: S_same)

lemma keeps_insert_with_dedup: "tx_keeps (\<lambda>t t'. S (tx_db t) (tx_db t')) (insert_with_dedup_in_tx sid ty p seq)"
  by (auto simp: tx_keeps_def insert_with_dedup_db intro!: S_same)

lemma keeps_enqueue: "tx_keeps (\<lambda>t t'. S (tx_db t) (tx_db t')) (tx_enqueue eid sid p src)"
  by (auto simp: tx_keeps_def tx_enqueue_iff intro!: S_same)

lemma keeps_flush: "tx_keeps (\<lambda>t t'. S (tx_db t) (tx_db t')) (tx_flush_session sid)"
  by (auto simp: tx_keeps_def tx_flush_session_iff intro!: S_same)

lemma keeps_update_executions: "tx_keeps (\<lambda>t t'. S (tx_db t) (tx_db t')) (tx_update_executions P f)"
  by (auto simp: tx_keeps_def tx_iffs intro!: S_same)

lemma keeps_update_sessions:
  "(\<And>d. S d (update_sessions P f d)) \<Longrightarrow>
   tx_keeps (\<lambda>t t'. S (tx_db t) (tx_db t')) (tx_update_sessions P f)"
  by (auto simp: tx_keeps_def tx_iffs)

lemma keeps_run:
  assumes "tx_keeps (\<lambda>t t'. S (tx_db t) (tx_db t')) body" and "run_tx h eid body d = (r, d')"
  shows "S d d'"
  using keeps_run_tx [OF assms(2,1)] by cases (auto intro: S_same)

lemmas rules = keeps keeps_insert_in_tx keeps_insert_with_dedup keeps_enqueue keeps_flush
  keeps_update_executions

end

text \<open>Sessions outside \<open>A\<close> keep their rows.\<close>

definition only_sessions :: "string set \<Rightarrow> db \<Rightarrow> db \<Rightarrow> bool" where
  "only_sessions A d d' \<longleftrightarrow> (\<forall>i. i \<notin> A \<longrightarrow> session_row i d' = session_row i d)"

interpretation only: session_relation "only_sessions A" for A
  by unfold_locales (auto simp: only_sessions_def session_row_def)

lemma sql_find_update_other:
  assumes "\<And>s. P s \<Longrightarrow> k s \<in> A \<and> k (f s) \<in> A" and "i \<notin> A"
  shows "sql_find (\<lambda>s. k s = i) (sql_update P f rs) = sql_find (\<lambda>s. k s = i) rs"
  using assms by (induction rs) (auto simp: sql_find_def sql_update_def)

lemma only_sessions_update:
  assumes "\<And>now s. P s \<Longrightarrow> s_id s \<in> A \<and> s_id (f now s) \<in> A"
  shows "only_sessions A d (update_sessions P f d)"
  using sql_find_update_other [of P s_id A "f (clock d)"] assms
  by (auto simp: only_sessions_def session_row_def)

lemmas only_rules = only.rules only.keeps_update_sessions [OF only_sessions_update]

text \<open>Sessions outside \<open>A\<close> with an outcome had one before.\<close>

definition ended_within :: "string set \<Rightarrow> db \<Rightarrow> db \<Rightarrow> bool" where
  "ended_within A d d' \<longleftrightarrow>
     (\<forall>i s'. session_row i d' = Some s' \<and> s_outcome s' \<noteq> None \<and> i \<notin> A \<longrightarrow>
        (\<exists>s. session_row i d = Some s \<and> s_outcome s \<noteq> None))"

interpretation ended: session_relation "ended_within A" for A
  by unfold_locales (auto simp: ended_within_def session_row_def)

lemma ended_within_update:
  assumes "\<And>now s. P s \<Longrightarrow> s_id (f now s) = s_id s"
    and "\<And>now s. P s \<Longrightarrow> s_outcome (f now s) \<noteq> None \<Longrightarrow> s_outcome s \<noteq> None \<or> s_id s \<in> A"
  shows "ended_within A d (update_sessions P f d)"
  using assms session_row_update [of P f d] session_rowD
  by (fastforce simp: ended_within_def split: if_splits)

lemmas ended_rules = ended.rules ended.keeps_update_sessions [OF ended_within_update]

text \<open>Bodies that leave the executions alone.\<close>

definition same_executions :: "exec_tx \<Rightarrow> exec_tx \<Rightarrow> bool" where
  "same_executions t t' \<longleftrightarrow> executions (tx_db t') = executions (tx_db t)"

interpretation frame: tx_preorder same_executions
  by unfold_locales (auto simp: same_executions_def)

lemma frame_insert_in_tx: "tx_keeps same_executions (insert_in_tx sid ty p)"
  by (auto simp: tx_keeps_def insert_in_tx_db same_executions_def)

lemma frame_enqueue: "tx_keeps same_executions (tx_enqueue eid sid p src)"
  by (auto simp: tx_keeps_def tx_enqueue_iff same_executions_def)

lemma frame_flush: "tx_keeps same_executions (tx_flush_session sid)"
  by (auto simp: tx_keeps_def tx_flush_session_iff same_executions_def)

lemma frame_update_sessions: "tx_keeps same_executions (tx_update_sessions P f)"
  by (auto simp: tx_keeps_def tx_iffs same_executions_def)

lemmas frame_rules = frame.keeps frame_insert_in_tx frame_enqueue frame_flush frame_update_sessions

end
