(* ===== verification/Transition.thy ===== *)
theory Transition
  imports Relations
begin

text \<open>
  \<open>scheduler/src/services/transition.rs\<close>: the session state machine.

  Every operation first reads rows outside a transaction and then runs one transaction on the
  execution. Between the two, other transactions may commit. So each operation takes two
  databases: \<open>pre\<close>, what the reads outside the transaction saw, and the database the
  transaction runs on; the properties hold for every \<open>pre\<close>, however stale.
\<close>

section \<open>Actions and rejections\<close>

record crash_meta =
  cm_error :: "string option"
  cm_error_kind :: "string option"
  cm_stderr :: "string option"

record resolution_marker =
  rm_escalation :: escalation
  rm_answer_text :: "string option"

record send_message_args =
  sm_payload :: json
  sm_resolution :: "resolution_marker option"
  sm_emit_message_delivered :: bool
  sm_from_user :: bool

definition plain_message :: "json \<Rightarrow> send_message_args" where
  "plain_message payload = \<lparr>sm_payload = payload, sm_resolution = None,
     sm_emit_message_delivered = False, sm_from_user = False\<rparr>"

datatype action =
    SetDesired desired string
  | SendMessage send_message_args
  | Delegate string json
  | SetExecutorState ex_state string "crash_meta option"
  | DetectCrash
  | RetryRecovery

datatype rejected =
    Ratchet
  | WriteBarrier
  | NoEntity
  | AlreadyResolved resolution_candidate
  | DecisionExpired
  | ExecutionTerminated
  | InvalidTransition string

fun show_rejected :: "rejected \<Rightarrow> string" where
  "show_rejected Ratchet = ''already terminated''"
| "show_rejected WriteBarrier = ''session or execution is terminal''"
| "show_rejected NoEntity = ''not found''"
| "show_rejected (AlreadyResolved c) = ''decision is already resolved''"
| "show_rejected DecisionExpired = ''decision expired''"
| "show_rejected ExecutionTerminated = ''execution terminated''"
| "show_rejected (InvalidTransition reason) = ''invalid transition: '' @ reason"

text \<open>
  What the operations read of their surroundings: the rendering of a timestamp by \<open>chrono\<close>
  and by the SQL column format, and \<open>AGENTBEACON_TEST_FAIL_AT\<close>.
\<close>

record env =
  en_rfc3339 :: "timestamp \<Rightarrow> string"
  en_column :: "timestamp \<Rightarrow> string"
  en_fail_at :: "string option"

section \<open>Quiescence and the outcome of an execution\<close>

definition is_quiescent :: "session \<Rightarrow> nat \<Rightarrow> bool" where
  "is_quiescent s pending =
     (if 0 < pending \<or> s_command_token s \<noteq> None then False
      else case s_executor_state s of
        Idle \<Rightarrow> True
      | Unassigned \<Rightarrow> s_agent_session_id s = None
      | Crashed \<Rightarrow> s_desired s = DStop
      | Running \<Rightarrow> False)"

definition is_active :: "session \<Rightarrow> nat \<Rightarrow> bool" where
  "is_active s pending \<longleftrightarrow>
     s_executor_state s = Running \<or> 0 < pending \<or> s_command_token s \<noteq> None"

fun unnotified_failures :: "db \<Rightarrow> session list \<Rightarrow> scheduler_error + outcome" where
  "unnotified_failures db [] = Inr Completed"
| "unnotified_failures db (s # ss) =
     (if s_outcome s = Some Failed \<and> \<not> s_parent_notified s
      then case s_parent_session_id s of
             None \<Rightarrow> unnotified_failures db ss
           | Some p \<Rightarrow> (case session_row p db of
               None \<Rightarrow> Inl (Database ''read parent outcome'')
             | Some q \<Rightarrow> if s_outcome q = None then Inr Canceled else unnotified_failures db ss)
      else unnotified_failures db ss)"

definition derive_execution_outcome :: "string \<Rightarrow> db \<Rightarrow> scheduler_error + outcome" where
  "derive_execution_outcome eid db =
     (let ss = sort_key s_created_at (filter (\<lambda>s. s_execution_id s = eid) (sessions db));
          pending = (\<lambda>s. count_pending_turns (s_id s) db) in
      if list_ex (\<lambda>s. s_parent_session_id s = None \<and> s_outcome s = Some Failed) ss then Inr Failed
      else if list_ex (\<lambda>s. s_executor_state s = Running \<or> 0 < pending s \<or> s_command_token s \<noteq> None) ss
      then Inr Canceled
      else if list_ex (\<lambda>s. s_outcome s = None \<and>
        \<not> ((s_executor_state s = Idle \<or>
            s_executor_state s = Unassigned \<and> s_agent_session_id s = None \<and> s_command_token s = None \<or>
            s_executor_state s = Crashed \<and> s_desired s = DStop) \<and>
           pending s = 0 \<and> s_command_token s = None)) ss
      then Inr Canceled
      else unnotified_failures db ss)"

section \<open>Written rows\<close>

text \<open>The rows the updates of \<open>desired\<close> write.\<close>

definition terminate_row :: "outcome \<Rightarrow> string \<Rightarrow> timestamp \<Rightarrow> session \<Rightarrow> session" where
  "terminate_row oc who now s = s\<lparr>s_desired := DTerminate, s_outcome := Some oc, s_desired_by := Some who,
     s_desired_at := Some now, s_updated_at := now, s_completed_at := Some now\<rparr>"

definition desired_row :: "desired \<Rightarrow> string \<Rightarrow> timestamp \<Rightarrow> session \<Rightarrow> session" where
  "desired_row d who now s = s\<lparr>s_desired := d, s_desired_by := Some who, s_desired_at := Some now,
     s_updated_at := now\<rparr>"

section \<open>Terminal write of an execution\<close>

definition write_execution_terminal_in_tx :: "string \<Rightarrow> outcome \<Rightarrow> (scheduler_error, bool) tx" where
  "write_execution_terminal_in_tx eid oc =
     tx_bind (tx_update_executions (\<lambda>x. x_id x = eid \<and> x_outcome x = None)
       (\<lambda>now x. x\<lparr>x_desired := DTerminate, x_outcome := Some oc, x_updated_at := now,
          x_completed_at := Some now, x_last_activity_at := now\<rparr>)) (\<lambda>n.
     if 0 < n
     then tx_bind (insert_in_tx None EvStateChange
            (to_string (JObj [(''desired'', JStr ''terminate''), (''outcome'', JStr (outcome_str oc))])))
            (\<lambda>_. tx_ret True)
     else tx_ret False)"

text \<open>The same in its own transaction, which first checks that the root session is terminal.\<close>

definition root_outcome :: "string \<Rightarrow> db \<Rightarrow> outcome option option" where
  "root_outcome eid db = map_option s_outcome
     (sql_find (\<lambda>s. s_execution_id s = eid \<and> s_parent_session_id s = None) (sessions db))"

definition write_execution_terminal :: "string \<Rightarrow> outcome \<Rightarrow> db \<Rightarrow> (scheduler_error + bool) \<times> db" where
  "write_execution_terminal eid oc =
     run_tx Inl eid
       (tx_bind (tx_read (root_outcome eid)) (\<lambda>ro.
        case ro of
          Some (Some _) \<Rightarrow>
            tx_bind (tx_map_err Inl (write_execution_terminal_in_tx eid oc)) (\<lambda>w. tx_ret (Inr w))
        | _ \<Rightarrow> tx_ret (Inr False)))"

section \<open>Notifying the parent\<close>

definition invalid :: "string \<Rightarrow> scheduler_error \<Rightarrow> rejected" where
  "invalid what e = InvalidTransition (what @ show_error e)"

definition underscores_to_spaces :: "string \<Rightarrow> string" where
  "underscores_to_spaces s = map (\<lambda>c. if c = CHR ''_'' then CHR '' '' else c) s"

definition child_notification :: "string \<Rightarrow> string \<Rightarrow> json" where
  "child_notification child ty =
     JObj [(''message'', JObj [(''role'', JStr ''ROLE_USER''), (''parts'', JArr [
       JObj [(''text'', JStr (''Child session '' @ child @ '' '' @ underscores_to_spaces ty @ ''.''))],
       JObj [(''data'', JObj [(''type'', JStr ty), (''child_session_id'', JStr child)])]])])]"

text \<open>A stopped parent is set running again before it is told.\<close>

definition resume_parent :: "(scheduler_error \<Rightarrow> 'e) \<Rightarrow> string \<Rightarrow> string \<Rightarrow> ('e, unit) tx" where
  "resume_parent h parent_id desired_by =
     tx_bind (tx_update_sessions (\<lambda>s. s_id s = parent_id \<and> s_desired s = DStop)
       (desired_row DRun desired_by)) (\<lambda>n.
     if 0 < n
     then tx_bind (tx_map_err h (insert_in_tx (Some parent_id) EvStateChange
              (to_string (JObj [(''desired'', JStr ''run''), (''desired_by'', JStr desired_by)]))))
            (\<lambda>_. tx_ret ())
     else tx_ret ())"

definition write_parent_notification_in_tx ::
  "session \<Rightarrow> string \<Rightarrow> string \<Rightarrow> (rejected, unit) tx" where
  "write_parent_notification_in_tx session parent_id notification_type =
     tx_bind (tx_try (\<lambda>_. InvalidTransition ''recheck execution failed'')
       (get_execution (s_execution_id session))) (\<lambda>x.
     if x_desired x = DTerminate \<or> x_outcome x \<noteq> None then tx_ret () else
     tx_bind (tx_try (\<lambda>_. InvalidTransition ''recheck parent failed'') (get_session parent_id)) (\<lambda>p.
     if s_outcome p \<noteq> None \<or> s_desired p = DTerminate then tx_ret () else
     tx_bind (if s_desired p = DStop
       then resume_parent (invalid ''auto-resume state_change event: '') parent_id ''system:child_action_notify'' else tx_ret ()) (\<lambda>_.
     tx_bind (tx_enqueue (s_execution_id session) parent_id
       (to_string (child_notification (s_id session) notification_type))
       (Some (''child_result:'' @ s_id session))) (\<lambda>_.
     tx_bind (tx_map_err (invalid ''parent platform event: '')
       (insert_in_tx (Some parent_id) EvPlatform
         (to_string (JObj [(''type'', JStr notification_type), (''child_session_id'', JStr (s_id session))])))) (\<lambda>_.
     tx_ret ())))))"

section \<open>SetDesired\<close>

text \<open>The parent to notify: only for a user's stop or terminate of a child, read outside.\<close>

definition parent_for_notify :: "db \<Rightarrow> session \<Rightarrow> desired \<Rightarrow> string \<Rightarrow> string option" where
  "parent_for_notify pre session d desired_by =
     (if desired_by = ''user'' \<and> (d = DStop \<or> d = DTerminate) then
        case s_parent_session_id session of
          None \<Rightarrow> None
        | Some parent_id \<Rightarrow>
            (case (ok (get_session parent_id pre), ok (get_execution (s_execution_id session) pre)) of
               (Some p, Some x) \<Rightarrow>
                 if s_outcome p = None \<and> x_desired x \<noteq> DTerminate \<and> x_outcome x = None
                 then Some parent_id else None
             | _ \<Rightarrow> None)
      else None)"

definition notify_option :: "session \<Rightarrow> string option \<Rightarrow> string \<Rightarrow> (rejected + 'r, unit) tx" where
  "notify_option session parent ty =
     (case parent of None \<Rightarrow> tx_ret ()
      | Some parent_id \<Rightarrow> tx_map_err Inl (write_parent_notification_in_tx session parent_id ty))"

definition terminate_body ::
  "session \<Rightarrow> string option \<Rightarrow> string \<Rightarrow> (rejected + unit, rejected + unit) tx" where
  "terminate_body session parent desired_by =
     tx_bind (tx_try (\<lambda>_. Inl NoEntity) (get_session (s_id session))) (\<lambda>cur.
     tx_bind (tx_fail_if (s_desired cur = DTerminate) (Inl Ratchet)) (\<lambda>_.
     tx_bind (tx_read (count_pending_turns (s_id session))) (\<lambda>pending.
     tx_bind (tx_ret (if is_quiescent cur pending then Completed else Canceled)) (\<lambda>oc.
     tx_bind (if s_parent_session_id session = None
              then tx_try (\<lambda>_. Inl (InvalidTransition ''derive execution outcome failed''))
                     (\<lambda>db. case derive_execution_outcome (s_execution_id session) db of
                        Inl e \<Rightarrow> Inl e | Inr o' \<Rightarrow> Inr (Some o'))
              else tx_ret None) (\<lambda>exec_outcome.
     tx_bind (tx_update_sessions (\<lambda>s. s_id s = s_id session \<and> s_desired s \<noteq> DTerminate)
       (terminate_row oc desired_by)) (\<lambda>n.
     tx_bind (tx_fail_if (n = 0) (Inl Ratchet)) (\<lambda>_.
     tx_bind (tx_map_err (\<lambda>e. Inl (invalid ''persist event failed: '' e))
       (insert_in_tx (Some (s_id session)) EvStateChange
         (to_string (JObj [(''desired'', JStr ''terminate''), (''outcome'', JStr (outcome_str oc)),
            (''desired_by'', JStr desired_by)])))) (\<lambda>_.
     tx_bind (notify_option session parent ''child_terminated'') (\<lambda>_.
     tx_bind (case exec_outcome of None \<Rightarrow> tx_ret False
              | Some eo \<Rightarrow> tx_map_err (\<lambda>e. Inl (invalid ''write execution terminal: '' e))
                  (write_execution_terminal_in_tx (s_execution_id session) eo)) (\<lambda>_.
     tx_ret (Inr ())))))))))))"

definition stop_body ::
  "session \<Rightarrow> string option \<Rightarrow> string \<Rightarrow> (rejected + unit, rejected + unit) tx" where
  "stop_body session parent desired_by =
     tx_bind (tx_try (\<lambda>_. Inl NoEntity) (get_session (s_id session))) (\<lambda>cur.
     tx_bind (tx_fail_if (s_desired cur = DTerminate) (Inl Ratchet)) (\<lambda>_.
     tx_bind (tx_fail_if (s_desired cur = DStop) (Inr ())) (\<lambda>_.
     tx_bind (tx_update_sessions (\<lambda>s. s_id s = s_id session \<and> s_desired s = DRun)
       (desired_row DStop desired_by)) (\<lambda>n.
     tx_bind (tx_fail_if (n = 0) (Inl Ratchet)) (\<lambda>_.
     tx_bind (tx_flush_session (s_id session)) (\<lambda>_.
     tx_bind (tx_map_err (\<lambda>e. Inl (invalid ''persist event failed: '' e))
       (insert_in_tx (Some (s_id session)) EvStateChange
         (to_string (JObj [(''desired'', JStr ''stop''), (''desired_by'', JStr desired_by)])))) (\<lambda>_.
     tx_bind (notify_option session parent ''child_stopped'') (\<lambda>_.
     tx_ret (Inr ())))))))))"

definition run_body :: "session \<Rightarrow> string \<Rightarrow> (rejected + unit, rejected + unit) tx" where
  "run_body session desired_by =
     tx_bind (tx_update_sessions (\<lambda>s. s_id s = s_id session \<and> s_desired s \<noteq> DTerminate)
       (desired_row DRun desired_by)) (\<lambda>n.
     tx_bind (tx_fail_if (n = 0) (Inl Ratchet)) (\<lambda>_.
     tx_ret (Inr ())))"

definition begin_failed :: "string \<Rightarrow> scheduler_error \<Rightarrow> rejected + 'r" where
  "begin_failed what e = Inl (InvalidTransition what)"

definition set_desired :: "db \<Rightarrow> session \<Rightarrow> desired \<Rightarrow> string \<Rightarrow> db \<Rightarrow> (rejected + unit) \<times> db" where
  "set_desired pre session d desired_by db =
     (if s_desired session = DTerminate then (Inl Ratchet, db)
      else if s_desired session = d then (Inr (), db)
      else let parent = parent_for_notify pre session d desired_by; eid = s_execution_id session in
        case d of
          DTerminate \<Rightarrow> run_tx (begin_failed ''begin transaction failed'') eid
            (terminate_body session parent desired_by) db
        | DStop \<Rightarrow> run_tx (begin_failed ''begin stop tx failed'') eid
            (stop_body session parent desired_by) db
        | DRun \<Rightarrow> run_tx (begin_failed ''begin run tx failed'') eid (run_body session desired_by) db)"

section \<open>SendMessage\<close>

text \<open>\<open>touch_last_activity\<close> of \<open>db/executions.rs\<close>.\<close>

definition tx_touch_last_activity :: "('r, nat) tx" where
  "tx_touch_last_activity =
     tx_bind tx_scope (\<lambda>eid.
       tx_update_executions (\<lambda>x. x_id x = eid) (\<lambda>now x. x\<lparr>x_last_activity_at := now\<rparr>))"

definition test_failpoint :: "env \<Rightarrow> string \<Rightarrow> (rejected + 'r, unit) tx" where
  "test_failpoint env site =
     tx_fail_if (en_fail_at env = Some site) (Inl (InvalidTransition (''test failpoint at '' @ site)))"

definition is_some_field :: "json \<Rightarrow> string \<Rightarrow> json \<Rightarrow> json" where
  "is_some_field v k d = (case get v k of None \<Rightarrow> d | Some x \<Rightarrow> x)"

text \<open>The event shows \<open>event_message\<close>, else \<open>message\<close>, else the whole payload.\<close>

definition message_event_payload :: "json \<Rightarrow> json" where
  "message_event_payload payload = is_some_field payload ''event_message'' (is_some_field payload ''message'' payload)"

definition resolution_guard :: "env \<Rightarrow> resolution_marker option \<Rightarrow> (rejected + int, unit) tx" where
  "resolution_guard env resolution t =
     (case resolution of
        None \<Rightarrow> Inr ((), t)
      | Some m \<Rightarrow>
          if esc_execution_id (rm_escalation m) \<noteq> tx_execution_id t
          then Inl (Inl (InvalidTransition ''resolution marker names a different execution''))
          else case find_marker_for_escalation (en_rfc3339 env) (rm_escalation m) (tx_db t) of
            Some existing \<Rightarrow> Inl (Inl (AlreadyResolved existing))
          | None \<Rightarrow> Inr ((), t))"

definition corrupt_sequence :: "int \<Rightarrow> string" where
  "corrupt_sequence event_id = ''message event id '' @ int_dec event_id @ '' is non-positive: the events id sequence is corrupt and a resolution marker's embedded id would never validate (readers require id > 0). Repair the events id sequence (e.g. reset events_id_seq) and retry''"

definition write_marker ::
  "env \<Rightarrow> resolution_marker option \<Rightarrow> int \<Rightarrow> timestamp \<Rightarrow> (rejected + int, unit) tx" where
  "write_marker env resolution event_id created_at =
     (case resolution of
        None \<Rightarrow> tx_ret ()
      | Some m \<Rightarrow>
          tx_bind (tx_fail_if (event_id \<le> 0) (Inl (InvalidTransition (corrupt_sequence event_id)))) (\<lambda>_.
          tx_bind (tx_map_err (\<lambda>_. Inl (InvalidTransition ''insert marker failed''))
            (insert_in_tx (Some (esc_session_id (rm_escalation m))) EvPlatform
              (to_string (marker_payload (ed_batch_id (esc_data (rm_escalation m)))
                 (Some (esc_id (rm_escalation m))) event_id (en_column env created_at)
                 (rm_answer_text m) False)))) (\<lambda>_.
          test_failpoint env ''marker_insert'')))"

definition resume_receiver :: "string \<Rightarrow> session \<Rightarrow> ('r, nat) tx" where
  "resume_receiver sid cur =
     (if s_desired cur = DStop
      then tx_update_sessions (\<lambda>s. s_id s = sid \<and> s_desired s = DStop)
        (desired_row DRun ''user:send_message'')
      else tx_ret 0)"

definition emit_delivered :: "env \<Rightarrow> string \<Rightarrow> bool \<Rightarrow> (rejected + int, unit) tx" where
  "emit_delivered env sid emit =
     (if emit
      then tx_bind (tx_map_err (\<lambda>_. Inl (InvalidTransition ''insert message_delivered failed''))
             (insert_in_tx (Some sid) EvPlatform
                (to_string (JObj [(''type'', JStr ''message_delivered'')]))))
             (\<lambda>_. test_failpoint env ''message_delivered_insert'')
      else tx_ret ())"

definition note_user_activity :: "bool \<Rightarrow> (rejected + int, nat) tx" where
  "note_user_activity from_user = (if from_user then tx_touch_last_activity else tx_ret 0)"

definition send_body :: "env \<Rightarrow> session \<Rightarrow> send_message_args \<Rightarrow> (rejected + int, rejected + int) tx" where
  "send_body env session args =
     tx_bind (tx_try (\<lambda>_. Inl NoEntity) (get_session (s_id session))) (\<lambda>cur.
     tx_bind (tx_try (\<lambda>_. Inl NoEntity) (get_execution (s_execution_id session))) (\<lambda>x.
     tx_bind (resolution_guard env (sm_resolution args)) (\<lambda>_.
     tx_bind (tx_fail_if (x_desired x = DTerminate \<or> x_outcome x \<noteq> None)
       (Inl (if sm_resolution args \<noteq> None then DecisionExpired else ExecutionTerminated))) (\<lambda>_.
     tx_bind (tx_fail_if (s_desired cur = DTerminate \<or> s_outcome cur \<noteq> None) (Inl WriteBarrier)) (\<lambda>_.
     tx_bind (resume_receiver (s_id session) cur) (\<lambda>_.
     tx_bind (tx_enqueue (s_execution_id session) (s_id session) (to_string (sm_payload args)) None) (\<lambda>_.
     tx_bind (tx_map_err (\<lambda>_. Inl (InvalidTransition ''insert message event failed''))
       (insert_in_tx (Some (s_id session)) EvMessage
          (to_string (message_event_payload (sm_payload args))))) (\<lambda>(event_id, created_at).
     tx_bind (write_marker env (sm_resolution args) event_id created_at) (\<lambda>_.
     tx_bind (emit_delivered env (s_id session) (sm_emit_message_delivered args)) (\<lambda>_.
     tx_bind (note_user_activity (sm_from_user args)) (\<lambda>_.
     tx_ret (Inr event_id))))))))))))"

definition send_message ::
  "env \<Rightarrow> db \<Rightarrow> session \<Rightarrow> send_message_args \<Rightarrow> db \<Rightarrow> (rejected + int) \<times> db" where
  "send_message env pre session args db =
     (case get_execution (s_execution_id session) pre of
        Inl _ \<Rightarrow> (Inl NoEntity, db)
      | Inr _ \<Rightarrow> run_tx (begin_failed ''begin tx failed'') (s_execution_id session)
          (send_body env session args) db)"

section \<open>Reports of the worker\<close>

text \<open>The rows a report may touch: the worker's own, while not ended or owing a command.\<close>

definition reportable :: "string \<Rightarrow> string \<Rightarrow> session \<Rightarrow> bool" where
  "reportable sid worker s \<longleftrightarrow> s_id s = sid \<and> s_worker_id s = Some worker \<and>
     (s_outcome s = None \<or> s_command_token s \<noteq> None)"

definition clear_command :: "session \<Rightarrow> session" where
  "clear_command s = s\<lparr>s_command_token := None, s_command_type := None, s_command_at := None,
     s_command_has_payload := False\<rparr>"

definition state_event :: "string \<Rightarrow> json \<Rightarrow> (rejected + 'r, unit) tx" where
  "state_event sid payload =
     tx_bind (tx_map_err (\<lambda>e. Inl (invalid ''persist event failed: '' e))
       (insert_in_tx (Some sid) EvStateChange (to_string payload))) (\<lambda>_. tx_ret ())"

definition platform_event :: "string \<Rightarrow> json \<Rightarrow> (rejected + 'r, unit) tx" where
  "platform_event sid payload =
     tx_bind (tx_map_err (\<lambda>e. Inl (invalid ''persist event failed: '' e))
       (insert_in_tx (Some sid) EvPlatform (to_string payload))) (\<lambda>_. tx_ret ())"

definition opt_field :: "string \<Rightarrow> string option \<Rightarrow> json \<Rightarrow> json" where
  "opt_field k p v = (case p of None \<Rightarrow> v | Some s \<Rightarrow> jset k (JStr s) v)"

definition crash_event :: "crash_meta option \<Rightarrow> json" where
  "crash_event meta =
     (let v = JObj [(''executor_state'', JStr ''crashed'')] in
      case meta of
        None \<Rightarrow> v
      | Some c \<Rightarrow> opt_field ''stderr'' (cm_stderr c)
          (opt_field ''error_kind'' (cm_error_kind c) (opt_field ''error'' (cm_error c) v)))"

definition report_update ::
  "string \<Rightarrow> string \<Rightarrow> (timestamp \<Rightarrow> session \<Rightarrow> session) \<Rightarrow> (rejected + unit, unit) tx" where
  "report_update sid worker f =
     tx_bind (tx_update_sessions (reportable sid worker) f) (\<lambda>n. tx_fail_if (n = 0) (Inl WriteBarrier))"

definition executor_body ::
  "session \<Rightarrow> ex_state \<Rightarrow> string \<Rightarrow> crash_meta option \<Rightarrow> (rejected + unit, rejected + unit) tx" where
  "executor_body session st worker meta =
     (let sid = s_id session in
     tx_bind (tx_try (\<lambda>_. Inl NoEntity) (get_session sid)) (\<lambda>cur.
     tx_bind (case st of
        Crashed \<Rightarrow>
          tx_bind (if s_command_has_payload cur then platform_event sid (JObj [(''message'',
              JStr ''Agent recovered from a crash. A message may have been lost.'')]) else tx_ret ()) (\<lambda>_.
          tx_bind (report_update sid worker
            (\<lambda>now s. (clear_command s)\<lparr>s_executor_state := Crashed, s_updated_at := now\<rparr>)) (\<lambda>_.
          if s_executor_state cur \<noteq> Crashed then state_event sid (crash_event meta) else tx_ret ()))
      | Idle \<Rightarrow>
          tx_bind (report_update sid worker (if 0 < s_recovery_attempts cur
            then (\<lambda>now s. s\<lparr>s_executor_state := Idle, s_recovery_attempts := 0, s_updated_at := now\<rparr>)
            else (\<lambda>now s. s\<lparr>s_executor_state := Idle, s_updated_at := now\<rparr>))) (\<lambda>_.
          if s_executor_state cur \<noteq> Idle
          then state_event sid (JObj [(''executor_state'', JStr ''idle'')]) else tx_ret ())
      | Running \<Rightarrow>
          tx_bind (report_update sid worker
            (\<lambda>now s. s\<lparr>s_executor_state := Running, s_updated_at := now\<rparr>)) (\<lambda>_.
          if s_executor_state cur \<noteq> Running
          then state_event sid (JObj [(''executor_state'', JStr ''running'')]) else tx_ret ())
      | Unassigned \<Rightarrow>
          report_update sid worker (\<lambda>now s. s\<lparr>s_executor_state := Unassigned, s_updated_at := now\<rparr>)) (\<lambda>_.
     tx_ret (Inr ()))))"

definition set_executor_state ::
  "session \<Rightarrow> ex_state \<Rightarrow> string \<Rightarrow> crash_meta option \<Rightarrow> db \<Rightarrow> (rejected + unit) \<times> db" where
  "set_executor_state session st worker meta db =
     (if s_outcome session \<noteq> None \<and> s_command_token session = None then (Inl WriteBarrier, db)
      else run_tx (begin_failed ''begin executor state tx failed'') (s_execution_id session)
        (executor_body session st worker meta) db)"

section \<open>Failure, crash and retry\<close>

definition fail_body :: "session \<Rightarrow> string \<Rightarrow> bool \<Rightarrow> (rejected + unit, rejected + unit) tx" where
  "fail_body session desired_by require_crashed =
     tx_bind (tx_update_sessions
       (\<lambda>s. s_id s = s_id session \<and> s_desired s \<noteq> DTerminate \<and>
          (\<not> require_crashed \<or> s_desired s = DRun \<and> s_executor_state s = Crashed \<and> s_outcome s = None))
       (terminate_row Failed desired_by)) (\<lambda>n.
     tx_bind (tx_fail_if (n = 0) (Inl Ratchet)) (\<lambda>_.
     tx_bind (state_event (s_id session)
       (JObj [(''desired'', JStr ''terminate''), (''outcome'', JStr ''failed''),
          (''desired_by'', JStr desired_by)])) (\<lambda>_.
     tx_bind (if s_parent_session_id session = None
              then tx_map_err (\<lambda>e. Inl (invalid ''write execution terminal: '' e))
                (write_execution_terminal_in_tx (s_execution_id session) Failed)
              else tx_ret False) (\<lambda>_.
     tx_ret (Inr ())))))"

definition terminate_failed :: "session \<Rightarrow> string \<Rightarrow> bool \<Rightarrow> db \<Rightarrow> (rejected + unit) \<times> db" where
  "terminate_failed session desired_by require_crashed db =
     (if s_desired session = DTerminate then (Inl Ratchet, db)
      else run_tx (begin_failed ''begin transaction failed'') (s_execution_id session)
        (fail_body session desired_by require_crashed) db)"

definition crash_body :: "session \<Rightarrow> (rejected + unit, rejected + unit) tx" where
  "crash_body session =
     tx_bind (tx_try (\<lambda>_. Inl NoEntity) (get_session (s_id session))) (\<lambda>cur.
     tx_bind (tx_update_sessions
       (\<lambda>s. s_id s = s_id session \<and> (s_worker_id s \<noteq> None \<or> s_command_token s \<noteq> None))
       (\<lambda>now s. (clear_command s)\<lparr>s_executor_state := Crashed, s_worker_id := None,
          s_updated_at := now\<rparr>)) (\<lambda>n.
     tx_bind (tx_fail_if (n = 0) (Inl WriteBarrier)) (\<lambda>_.
     tx_bind (if s_executor_state cur \<noteq> Crashed
       then state_event (s_id session) (JObj [(''executor_state'', JStr ''crashed'')])
       else tx_ret ()) (\<lambda>_.
     tx_ret (Inr ())))))"

definition detect_crash :: "session \<Rightarrow> db \<Rightarrow> (rejected + unit) \<times> db" where
  "detect_crash session =
     run_tx (begin_failed ''begin detect_crash tx failed'') (s_execution_id session) (crash_body session)"

definition retry_body :: "session \<Rightarrow> (rejected + unit, rejected + unit) tx" where
  "retry_body session =
     tx_bind (tx_update_sessions
       (\<lambda>s. s_id s = s_id session \<and> s_executor_state s = Crashed \<and> s_outcome s = None \<and> s_desired s = DRun)
       (\<lambda>now s. s\<lparr>s_executor_state := Unassigned, s_recovery_attempts := s_recovery_attempts s + 1,
          s_updated_at := now\<rparr>)) (\<lambda>n.
     tx_bind (tx_fail_if (n = 0) (Inl WriteBarrier)) (\<lambda>_.
     tx_bind (tx_try (\<lambda>_. Inl NoEntity) (get_session (s_id session))) (\<lambda>updated.
     tx_bind (if s_agent_session_id updated \<noteq> None
       then platform_event (s_id session) (JObj [(''message'',
         JStr ''Agent recovered from a crash; work in progress may have been lost.'')])
       else tx_ret ()) (\<lambda>_.
     tx_bind (state_event (s_id session) (JObj [(''executor_state'', JStr ''unassigned''),
         (''recovery_attempt'', jint (s_recovery_attempts updated))])) (\<lambda>_.
     tx_ret (Inr ()))))))"

definition retry_recovery :: "session \<Rightarrow> db \<Rightarrow> (rejected + unit) \<times> db" where
  "retry_recovery session =
     run_tx (begin_failed ''begin retry_recovery tx failed'') (s_execution_id session) (retry_body session)"

section \<open>Entry points\<close>

definition lookup :: "string \<Rightarrow> string \<Rightarrow> db \<Rightarrow> rejected + session" where
  "lookup eid sid pre =
     (case get_session sid pre of
        Inl _ \<Rightarrow> Inl NoEntity
      | Inr s \<Rightarrow> if s_execution_id s \<noteq> eid then Inl NoEntity else Inr s)"

definition terminate_session :: "db \<Rightarrow> string \<Rightarrow> string \<Rightarrow> string \<Rightarrow> db \<Rightarrow> (rejected + unit) \<times> db" where
  "terminate_session pre eid sid desired_by db =
     (case lookup eid sid pre of
        Inl e \<Rightarrow> (Inl e, db)
      | Inr s \<Rightarrow> set_desired pre s DTerminate desired_by db)"

definition terminate_session_failed ::
  "db \<Rightarrow> string \<Rightarrow> string \<Rightarrow> string \<Rightarrow> bool \<Rightarrow> db \<Rightarrow> (rejected + unit) \<times> db" where
  "terminate_session_failed pre eid sid desired_by require_crashed db =
     (case lookup eid sid pre of
        Inl e \<Rightarrow> (Inl e, db)
      | Inr s \<Rightarrow> terminate_failed s desired_by require_crashed db)"

text \<open>\<open>transition\<close>: the event id of a sent message, nothing for the other actions.\<close>

definition no_event :: "(rejected + unit) \<times> db \<Rightarrow> (rejected + int option) \<times> db" where
  "no_event p = (case p of (Inl e, db) \<Rightarrow> (Inl e, db) | (Inr _, db) \<Rightarrow> (Inr None, db))"

definition transition ::
  "env \<Rightarrow> db \<Rightarrow> string \<Rightarrow> string \<Rightarrow> action \<Rightarrow> db \<Rightarrow> (rejected + int option) \<times> db" where
  "transition env pre eid sid action db =
     (case get_session sid pre of
        Inl _ \<Rightarrow> (Inl NoEntity, db)
      | Inr s \<Rightarrow>
          if s_execution_id s \<noteq> eid then (Inl NoEntity, db)
          else case action of
            SetDesired d desired_by \<Rightarrow> no_event (set_desired pre s d desired_by db)
          | SendMessage args \<Rightarrow>
              (case send_message env pre s args db of
                 (Inl e, db') \<Rightarrow> (Inl e, db') | (Inr i, db') \<Rightarrow> (Inr (Some i), db'))
          | Delegate agent_id prompt \<Rightarrow>
              (case get_execution eid pre of
                 Inl _ \<Rightarrow> (Inl NoEntity, db)
               | Inr x \<Rightarrow> if x_outcome x \<noteq> None then (Inl WriteBarrier, db) else (Inr None, db))
          | SetExecutorState st worker meta \<Rightarrow> no_event (set_executor_state s st worker meta db)
          | DetectCrash \<Rightarrow> no_event (detect_crash s db)
          | RetryRecovery \<Rightarrow> no_event (retry_recovery s db))"

end
