(* ===== verification/Sessions.thy ===== *)
theory Sessions
  imports Relations
begin

text \<open>
  \<open>scheduler/src/db/sessions.rs\<close>: creating sessions and the queries by which the scheduler
  finds work, and the lookups of agents and drivers (\<open>db/agents.rs\<close>, \<open>db/drivers.rs\<close>).
\<close>

section \<open>Agents and drivers\<close>

definition get_agent :: "string \<Rightarrow> db \<Rightarrow> scheduler_error + agent" where
  "get_agent i db = ok_or (map_db_error ''agent'' i)
     (sql_find (\<lambda>a. a_id a = i \<and> a_deleted_at a = None) (agents db))"

definition get_driver :: "string \<Rightarrow> db \<Rightarrow> scheduler_error + driver" where
  "get_driver i db = ok_or (map_db_error ''driver'' i) (sql_find (\<lambda>d. d_id d = i) (drivers db))"

section \<open>Creating a session\<close>

text \<open>The row of an \<open>INSERT\<close>: the columns given, and the defaults of the schema.\<close>

definition new_session ::
  "string \<Rightarrow> string \<Rightarrow> string \<Rightarrow> string option \<Rightarrow> string option \<Rightarrow> string option \<Rightarrow> string option \<Rightarrow>
   string \<Rightarrow> jtext \<Rightarrow> timestamp \<Rightarrow> session" where
  "new_session i eid aid parent cwd worktree sha slug policy now =
     \<lparr>s_id = i, s_execution_id = eid, s_parent_session_id = parent, s_agent_id = aid,
      s_agent_session_id = None, s_cwd = cwd, s_worktree_path = worktree, s_base_commit_sha = sha,
      s_slug = slug, s_recovery_attempts = 0, s_metadata = to_string (JObj []), s_desired = DRun, s_executor_state = Unassigned,
      s_outcome = None, s_desired_by = None, s_desired_at = None, s_command_token = None,
      s_command_type = None, s_command_at = None, s_command_has_payload = False,
      s_worker_id = None, s_parent_notified = False, s_continued_from_session_id = None,
      s_sandbox_policy = policy,
      s_created_at = now, s_updated_at = now, s_completed_at = None\<rparr>"

text \<open>
  The constraints an insert must meet: a new primary key, existing references, and a slug that is
  free among the children of the same parent (of the roots of the execution, for a root).
\<close>

definition slug_taken :: "session \<Rightarrow> db \<Rightarrow> bool" where
  "slug_taken s db \<longleftrightarrow> s_slug s \<noteq> [] \<and>
     list_ex (\<lambda>r. s_execution_id r = s_execution_id s \<and> s_parent_session_id r = s_parent_session_id s \<and>
        s_slug r = s_slug s) (sessions db)"

definition insertable :: "session \<Rightarrow> db \<Rightarrow> bool" where
  "insertable s db \<longleftrightarrow>
     session_row (s_id s) db = None \<and> execution_row (s_execution_id s) db \<noteq> None \<and>
     list_ex (\<lambda>a. a_id a = s_agent_id s) (agents db) \<and>
     (case s_parent_session_id s of None \<Rightarrow> True | Some p \<Rightarrow> session_row p db \<noteq> None) \<and>
     \<not> slug_taken s db"

lemma insertable_iff: "insertable s db \<longleftrightarrow>
     session_row (s_id s) db = None \<and> execution_row (s_execution_id s) db \<noteq> None \<and>
     list_ex (\<lambda>a. a_id a = s_agent_id s) (agents db) \<and>
     (\<forall>p. s_parent_session_id s = Some p \<longrightarrow> session_row p db \<noteq> None) \<and>
     \<not> slug_taken s db"
  by (auto simp: insertable_def split: option.splits)

text \<open>What the driver reports of an insert that violates a constraint; uniqueness is checked first.\<close>

definition constraint_error :: "session \<Rightarrow> db \<Rightarrow> string" where
  "constraint_error s db =
     (if session_row (s_id s) db \<noteq> None \<or> slug_taken s db then ''UNIQUE constraint failed'' else ''FOREIGN KEY constraint failed'')"

definition insert_error :: "session \<Rightarrow> db \<Rightarrow> string" where
  "insert_error s db = ''create session failed: '' @ constraint_error s db"

definition add_session :: "session \<Rightarrow> db \<Rightarrow> db" where
  "add_session s db = db\<lparr>sessions := sessions db @ [s]\<rparr>"

definition create ::
  "string \<Rightarrow> string \<Rightarrow> string \<Rightarrow> string option \<Rightarrow> string option \<Rightarrow> string option \<Rightarrow> string option \<Rightarrow>
   string \<Rightarrow> jtext \<Rightarrow> db \<Rightarrow> (scheduler_error + unit) \<times> db" where
  "create i eid aid parent cwd worktree sha slug policy db =
     (let s = new_session i eid aid parent cwd worktree sha slug policy (clock db) in
      if insertable s db then (Inr (), add_session s db)
      else (Inl (Database (insert_error s db)), db))"

definition count_active_children :: "string \<Rightarrow> db \<Rightarrow> nat" where
  "count_active_children p db =
     sql_count (\<lambda>s. s_parent_session_id s = Some p \<and> s_outcome s = None) (sessions db)"

text \<open>
  \<open>INSERT ... SELECT ... WHERE (SELECT COUNT( * ) ...) < max_width\<close>: one statement, so the count
  and the insert see the same table. The result says whether a row was inserted.
\<close>

definition create_with_width_guard ::
  "string \<Rightarrow> string \<Rightarrow> string \<Rightarrow> string \<Rightarrow> string option \<Rightarrow> string option \<Rightarrow> int \<Rightarrow>
   string \<Rightarrow> jtext \<Rightarrow> db \<Rightarrow> (scheduler_error + bool) \<times> db" where
  "create_with_width_guard i eid aid parent cwd worktree max_width slug policy db =
     (let s = new_session i eid aid (Some parent) cwd worktree None slug policy (clock db) in
      if int (count_active_children parent db) < max_width then
        (if insertable s db then (Inr True, add_session s db)
         else (Inl (Database (insert_error s db)), db))
      else (Inr False, db))"

section \<open>Looking through the tree\<close>

definition by_created :: "session list \<Rightarrow> session list" where
  "by_created ss = sort_key s_created_at ss"

definition get_children :: "string \<Rightarrow> db \<Rightarrow> session list" where
  "get_children p db = by_created (filter (\<lambda>s. s_parent_session_id s = Some p) (sessions db))"

text \<open>
  \<open>compute_depth\<close>: the recursive query climbs at most 11 levels, within the execution; its
  depth is the last level reached.
\<close>

fun climb :: "nat \<Rightarrow> string \<Rightarrow> db \<Rightarrow> session \<Rightarrow> nat" where
  "climb 0 eid db s = 0"
| "climb (Suc n) eid db s =
     (case s_parent_session_id s of
        None \<Rightarrow> 0
      | Some p \<Rightarrow> (case session_row p db of
          None \<Rightarrow> 0
        | Some q \<Rightarrow> if s_execution_id q = eid then Suc (climb n eid db q) else 0))"

definition compute_depth :: "string \<Rightarrow> string \<Rightarrow> db \<Rightarrow> nat" where
  "compute_depth sid eid db =
     (case session_row sid db of
        None \<Rightarrow> 0
      | Some s \<Rightarrow> if s_execution_id s = eid then climb 11 eid db s else 0)"

definition sibling_slugs :: "string \<Rightarrow> db \<Rightarrow> string list" where
  "sibling_slugs p db =
     map s_slug (filter (\<lambda>s. s_parent_session_id s = Some p \<and> s_slug s \<noteq> []) (sessions db))"

definition root_slugs :: "string \<Rightarrow> db \<Rightarrow> string list" where
  "root_slugs eid db = map s_slug
     (filter (\<lambda>s. s_execution_id s = eid \<and> s_parent_session_id s = None \<and> s_slug s \<noteq> []) (sessions db))"

section \<open>Finding work\<close>

text \<open>A session and its execution are usable for authentication.\<close>

definition is_live :: "string \<Rightarrow> db \<Rightarrow> bool" where
  "is_live sid db \<longleftrightarrow>
     (case session_row sid db of
        None \<Rightarrow> False
      | Some s \<Rightarrow> (case execution_row (s_execution_id s) db of
          None \<Rightarrow> False
        | Some x \<Rightarrow> s_desired s \<noteq> DTerminate \<and> s_outcome s = None \<and>
            x_desired x \<noteq> DTerminate \<and> x_outcome x = None))"

definition live_project :: "string \<Rightarrow> db \<Rightarrow> string option" where
  "live_project sid db =
     (if is_live sid db
      then Option.bind (session_row sid db) (\<lambda>s. Option.bind (execution_row (s_execution_id s) db) x_project_id)
      else None)"

definition joined :: "db \<Rightarrow> session \<Rightarrow> (execution \<Rightarrow> bool) \<Rightarrow> bool" where
  "joined db s P \<longleftrightarrow> (case execution_row (s_execution_id s) db of None \<Rightarrow> False | Some x \<Rightarrow> P x)"

definition has_turn :: "db \<Rightarrow> session \<Rightarrow> bool" where
  "has_turn db s \<longleftrightarrow> list_ex (\<lambda>t. t_session_id t = s_id s) (task_queue db)"

definition find_unassigned_with_work :: "db \<Rightarrow> session option" where
  "find_unassigned_with_work db =
     (case by_created (filter (\<lambda>s. s_desired s = DRun \<and> s_executor_state s = Unassigned \<and> s_outcome s = None \<and>
        s_command_token s = None \<and> s_worker_id s = None \<and>
        joined db s (\<lambda>x. x_desired x = DRun \<and> x_outcome x = None) \<and>
        (has_turn db s \<or> s_agent_session_id s \<noteq> None)) (sessions db)) of
        [] \<Rightarrow> None | s # _ \<Rightarrow> Some s)"

definition count_claimable :: "db \<Rightarrow> nat" where
  "count_claimable db =
     sql_count (\<lambda>s. s_desired s = DRun \<and> s_executor_state s = Unassigned \<and> s_outcome s = None \<and>
       joined db s (\<lambda>x. x_desired x = DRun \<and> x_outcome x = None) \<and>
       s_worker_id s = None \<and> s_command_token s = None \<and>
       (s_agent_session_id s \<noteq> None \<or> has_turn db s)) (sessions db)"

definition needs_look :: "db \<Rightarrow> session \<Rightarrow> bool" where
  "needs_look db s \<longleftrightarrow>
     s_outcome s = None \<or>
     s_worker_id s \<noteq> None \<or>
     s_command_token s \<noteq> None \<or>
     (\<not> s_parent_notified s \<and> s_parent_session_id s \<noteq> None \<and> s_outcome s = Some Failed) \<or>
     (s_outcome s \<noteq> None \<and> s_desired s \<noteq> DTerminate) \<or>
     (s_parent_session_id s = None \<and> s_outcome s \<noteq> None \<and>
        list_ex (\<lambda>x. x_id x = s_execution_id s \<and> x_outcome x = None) (executions db)) \<or>
     (s_outcome s \<noteq> None \<and> has_turn db s) \<or>
     (s_desired s = DTerminate \<and> s_outcome s \<noteq> None \<and>
        list_ex (\<lambda>c. s_parent_session_id c = Some (s_id s) \<and> s_outcome c = None \<and> s_desired c \<noteq> DTerminate)
          (sessions db))"

definition find_reconcilable :: "db \<Rightarrow> session list" where
  "find_reconcilable db = by_created (filter (needs_look db) (sessions db))"

definition find_sessions_for_worker :: "string \<Rightarrow> db \<Rightarrow> session list" where
  "find_sessions_for_worker w db = by_created (filter (\<lambda>s. s_worker_id s = Some w) (sessions db))"

definition find_crashed_workerless :: "db \<Rightarrow> session list" where
  "find_crashed_workerless db =
     filter (\<lambda>s. s_desired s = DRun \<and> s_executor_state s = Crashed \<and> s_worker_id s = None \<and>
       s_outcome s = None) (sessions db)"

definition count_non_terminal_by_agent :: "string \<Rightarrow> db \<Rightarrow> nat" where
  "count_non_terminal_by_agent aid db =
     sql_count (\<lambda>s. s_agent_id s = aid \<and> s_outcome s = None) (sessions db)"

section \<open>Small updates\<close>

definition update_agent_session_id ::
  "string \<Rightarrow> string \<Rightarrow> string \<Rightarrow> db \<Rightarrow> (scheduler_error + unit) \<times> db" where
  "update_agent_session_id i asid w db =
     (let P = (\<lambda>s. s_id s = i \<and> s_worker_id s = Some w) in
      if sql_count P (sessions db) = 0 then (Inl (NotFound (''session not found: '' @ i)), db)
      else (Inr (), update_sessions P (\<lambda>now s. s\<lparr>s_agent_session_id := Some asid, s_updated_at := now\<rparr>) db))"

definition touch_updated_at :: "string \<Rightarrow> db \<Rightarrow> db" where
  "touch_updated_at i = update_sessions (\<lambda>s. s_id s = i) (\<lambda>now s. s\<lparr>s_updated_at := now\<rparr>)"

definition increment_recovery_attempts :: "string \<Rightarrow> db \<Rightarrow> db" where
  "increment_recovery_attempts i = update_sessions (\<lambda>s. s_id s = i)
     (\<lambda>now s. s\<lparr>s_recovery_attempts := s_recovery_attempts s + 1, s_updated_at := now\<rparr>)"

definition clear_worktree_path :: "string \<Rightarrow> db \<Rightarrow> nat \<times> db" where
  "clear_worktree_path i db =
     (let P = (\<lambda>s. s_id s = i \<and> s_outcome s \<noteq> None \<and> s_worker_id s = None \<and>
        s_command_token s = None \<and> s_worktree_path s \<noteq> None) in
      (sql_count P (sessions db),
       update_sessions P (\<lambda>now s. s\<lparr>s_worktree_path := None, s_updated_at := now\<rparr>) db))"

section \<open>Facts\<close>

lemma sql_find_append:
  "sql_find P (xs @ ys) = (case sql_find P xs of None \<Rightarrow> sql_find P ys | Some x \<Rightarrow> Some x)"
  by (induction xs) (auto simp: sql_find_def)

lemma sql_find_single [simp]: "sql_find P [x] = (if P x then Some x else None)"
  by (simp add: sql_find_def)

lemma session_row_add:
  assumes "session_row (s_id s) d = None"
  shows "session_row i (add_session s d) = (if i = s_id s then Some s else session_row i d)"
  using assms
  by (auto simp: session_row_def add_session_def sql_find_append split: option.splits)

lemma add_session_sel [simp]:
  "executions (add_session s d) = executions d" "task_queue (add_session s d) = task_queue d"
  "events (add_session s d) = events d" "next_event_id (add_session s d) = next_event_id d"
  "sessions (add_session s d) = sessions d @ [s]" "clock (add_session s d) = clock d"
  "next_task_id (add_session s d) = next_task_id d"
  "execution_row i (add_session s d) = execution_row i d"
  by (simp_all add: add_session_def execution_row_def)

lemma session_wf_new: "session_wf (new_session i eid aid parent cwd wt sha slug policy now)"
  by (simp add: session_wf_def new_session_def)

lemma evolves_add_session:
  "session_row (s_id s) d = None \<Longrightarrow> evolves d (add_session s d)"
  by (auto simp: evolves_def session_row_add)

lemma session_row_None_iff: "session_row i d = None \<longleftrightarrow> i \<notin> s_id ` set (sessions d)"
  by (auto simp: session_row_def sql_find_None_iff)

text \<open>Inserting a row that meets the constraints, below a parent of the same execution or as its only root.\<close>

lemma add_session_step:
  assumes ins: "insertable s d" and "session_wf s"
    and par: "\<And>p q. s_parent_session_id s = Some p \<Longrightarrow> session_row p d = Some q \<Longrightarrow>
      s_execution_id q = s_execution_id s"
    and root: "\<And>r. s_parent_session_id s = None \<Longrightarrow> r \<in> set (sessions d) \<Longrightarrow> s_parent_session_id r = None \<Longrightarrow>
      s_execution_id r \<noteq> s_execution_id s"
  shows "db_step d (add_session s d)"
proof -
  let ?d = "add_session s d"
  have new: "session_row (s_id s) d = None" using ins by (simp add: insertable_iff)
  then have ev: "evolves d ?d" by (rule evolves_add_session)
  have "db_wf ?d" if wf: "db_wf d"
  proof -
    have "session_wf r \<and> execution_row (s_execution_id r) ?d \<noteq> None \<and>
        (\<forall>p. s_parent_session_id r = Some p \<longrightarrow> p \<noteq> s_id r \<and>
           map_option s_execution_id (session_row p ?d) = Some (s_execution_id r))"
      if "r \<in> set (sessions ?d)" for r
    proof (cases "r = s")
      case True
      have "p \<noteq> s_id s \<and> map_option s_execution_id (session_row p ?d) = Some (s_execution_id s)"
        if p: "s_parent_session_id s = Some p" for p
      proof -
        from ins p obtain q where "session_row p d = Some q" by (auto simp: insertable_iff)
        with par [OF p this] new show ?thesis by (auto simp: session_row_add)
      qed
      with True ins assms(2) show ?thesis by (auto simp: insertable_iff)
    next
      case False
      with that wf have "session_wf r" "execution_row (s_execution_id r) d \<noteq> None"
        "\<forall>p. s_parent_session_id r = Some p \<longrightarrow> p \<noteq> s_id r \<and>
           map_option s_execution_id (session_row p d) = Some (s_execution_id r)"
        by (auto simp: db_wf_def)
      then show ?thesis using owner_evolves [OF ev] by auto
    qed
    moreover have "parents_first (map lineage (sessions ?d))"
    proof -
      have "p \<in> fst ` set (map lineage (sessions d))" if "snd (lineage s) = Some p" for p
        using ins that by (auto simp: insertable_iff lineage_def image_image dest!: session_rowD)
      then show ?thesis using wf parents_first_snoc by (auto simp: db_wf_def)
    qed
    moreover have "distinct (map s_id (sessions ?d))" "distinct (map x_id (executions ?d))"
      "\<forall>x \<in> set (executions ?d). execution_wf x"
      using wf new by (auto simp: db_wf_def session_row_None_iff)
    moreover have "distinct (root_executions (sessions ?d))"
    proof (cases "s_parent_session_id s")
      case None
      with root have "s_execution_id s \<notin> set (root_executions (sessions d))" by fastforce
      with wf show ?thesis by (simp add: db_wf_def)
    qed (use wf in \<open>simp add: db_wf_def\<close>)
    moreover have "log_wf ?d" "queue_wf ?d"
      using wf log_wf_evolves [OF _ ev] queue_wf_same [of d ?d] by (auto simp: db_wf_def)
    ultimately show ?thesis unfolding db_wf_def by blast
  qed
  with ev show ?thesis by (auto simp: db_step_def appends_same)
qed

definition claimable :: "db \<Rightarrow> session \<Rightarrow> bool" where
  "claimable db s \<longleftrightarrow> s_desired s = DRun \<and> s_executor_state s = Unassigned \<and> s_outcome s = None \<and>
     s_worker_id s = None \<and> s_command_token s = None \<and>
     joined db s (\<lambda>x. x_desired x = DRun \<and> x_outcome x = None) \<and>
     (s_agent_session_id s \<noteq> None \<or> has_turn db s)"

lemma hd_by_created:
  "by_created xs = s # rest \<Longrightarrow> s \<in> set xs \<and> (\<forall>r \<in> set xs. s_created_at s \<le> s_created_at r)"
proof -
  assume *: "by_created xs = s # rest"
  have "set (by_created xs) = set xs" "sorted (map s_created_at (by_created xs))"
    by (simp_all add: by_created_def)
  then show ?thesis unfolding * by fastforce
qed

lemma by_created_Nil [simp]: "by_created [] = []"
  by (simp add: by_created_def)

lemma by_created_Nil_iff [simp]: "by_created xs = [] \<longleftrightarrow> xs = []"
proof -
  have "set (by_created xs) = set xs" by (simp add: by_created_def)
  then show ?thesis by (metis set_empty)
qed

text \<open>
  The worker pool is sized by the same sessions that a worker is then given: the number of
  claimable sessions is zero exactly when no session is found for an idle worker, and a session
  that is found is one of them and was created no later than any other.
\<close>

theorem claimable_agrees:
  "(count_claimable db = 0 \<longleftrightarrow> find_unassigned_with_work db = None) \<and>
   (\<forall>s. find_unassigned_with_work db = Some s \<longrightarrow> s \<in> set (sessions db) \<and> claimable db s \<and>
      (\<forall>r \<in> set (sessions db). claimable db r \<longrightarrow> s_created_at s \<le> s_created_at r))"
proof -
  let ?l = "filter (claimable db) (sessions db)"
  have c: "count_claimable db = length ?l"
    unfolding count_claimable_def sql_count_def claimable_def
    by (rule arg_cong [of _ _ length], rule filter_cong) auto
  have f: "find_unassigned_with_work db = (case by_created ?l of [] \<Rightarrow> None | s # _ \<Rightarrow> Some s)"
    unfolding find_unassigned_with_work_def claimable_def
    by (rule arg_cong [of _ _ "\<lambda>l. case by_created l of [] \<Rightarrow> None | s # _ \<Rightarrow> Some s"], rule filter_cong) auto
  show ?thesis
  proof (cases "by_created ?l")
    case Nil
    then have l: "?l = []" by simp
    show ?thesis unfolding c f l by (simp add: by_created_def)
  next
    case (Cons s rest)
    with hd_by_created [OF Cons] show ?thesis unfolding c f by auto
  qed
qed

end
