(* ===== verification/Sandbox_Policy.thy ===== *)
theory Sandbox_Policy
  imports Store
begin

text \<open>
  \<open>common/src/sandbox.rs\<close> and \<open>scheduler/src/services/sandbox.rs\<close>: the sandbox policy of a
  session. Reading is what the derived \<open>Deserialize\<close> accepts: an object with exactly the field
  \<open>fs_level\<close> (or a one-element array), whose value is one of three variant names.
\<close>

datatype fs_level = ReadOnly | Workspace | Unrestricted

record sandbox_policy =
  sp_fs_level :: fs_level

definition default_policy :: sandbox_policy where
  "default_policy = \<lparr>sp_fs_level = Unrestricted\<rparr>"

fun fs_level_str :: "fs_level \<Rightarrow> string" where
  "fs_level_str ReadOnly = ''read_only''"
| "fs_level_str Workspace = ''workspace''"
| "fs_level_str Unrestricted = ''unrestricted''"

definition fs_level_named :: "string \<Rightarrow> fs_level option" where
  "fs_level_named s =
     (if s = ''read_only'' then Some ReadOnly
      else if s = ''workspace'' then Some Workspace
      else if s = ''unrestricted'' then Some Unrestricted else None)"

fun fs_level_of :: "json \<Rightarrow> fs_level option" where
  "fs_level_of (JStr s) = fs_level_named s"
| "fs_level_of (JObj [(s, JNull)]) = fs_level_named s"
| "fs_level_of _ = None"

fun policy_of :: "json \<Rightarrow> sandbox_policy option" where
  "policy_of (JObj [(k, v)]) =
     (if k = ''fs_level'' then map_option (\<lambda>l. \<lparr>sp_fs_level = l\<rparr>) (fs_level_of v) else None)"
| "policy_of (JArr [v]) = map_option (\<lambda>l. \<lparr>sp_fs_level = l\<rparr>) (fs_level_of v)"
| "policy_of _ = None"

definition parse_sandbox_policy :: "jtext \<Rightarrow> scheduler_error + sandbox_policy" where
  "parse_sandbox_policy t =
     ok_or (Database ''malformed sandbox_policy in DB'') (Option.bind (from_str t) policy_of)"

definition build_sandbox_driver_config :: "sandbox_policy \<Rightarrow> scheduler_error + json" where
  "build_sandbox_driver_config p = Inr (JObj [(''fs_level'', JStr (fs_level_str (sp_fs_level p)))])"

lemma fs_level_named_str [simp]: "fs_level_named (fs_level_str l) = Some l"
  by (cases l) (simp_all add: fs_level_named_def)

text \<open>A policy that was serialised is read back.\<close>

lemma policy_roundtrip:
  "build_sandbox_driver_config p = Inr v \<Longrightarrow> parse_sandbox_policy (to_string v) = Inr p"
  by (auto simp: build_sandbox_driver_config_def parse_sandbox_policy_def)

end
