(* ===== verification/Reconciler.thy ===== *)
theory Reconciler
  imports Transition Sessions Sandbox_Policy
begin

text \<open>
  \<open>scheduler/src/services/reconciler.rs\<close>: one look at a session, which repairs what is
  inconsistent, issues the next command to its worker, or moves it on.

  \<open>reconcile\<close> is given the session, its number of pending turns and its execution as the caller
  read them, at any earlier time; each of its transactions reads again what it must. What the
  code calls into but is not modelled here is a field of \<open>rec_env\<close>: the random token, the wall
  clock, and the composition of the agent's configuration and of its MCP servers.
\<close>

record assign_command =
  ac_session_id :: string
  ac_execution_id :: string
  ac_payload :: "json option"
  ac_resume :: bool
  ac_cwd :: "string option"
  ac_driver :: json
  ac_agent_config :: json
  ac_agent_session_id :: "string option"
  ac_project_id :: "string option"
  ac_mcp_servers :: "json option"
  ac_next_msg_seq :: int

datatype command_action =
    Assign assign_command
  | FeedTurn string json
  | StopTurn string
  | Cancel string

datatype reconciler_action =
    NoAction
  | PendingCommand
  | SendCommand string command_action
  | Repaired
  | Mutated

record rec_env =
  re_env :: env
  re_token :: string
  re_now :: timestamp
  re_agent_config :: "session \<Rightarrow> agent \<Rightarrow> execution \<Rightarrow> db \<Rightarrow> scheduler_error + json"
  re_mcp_servers :: "string \<Rightarrow> db \<Rightarrow> scheduler_error + json option"

type_synonym rec_result = "scheduler_error + reconciler_action"

definition MAX_RECOVERY_ATTEMPTS :: int where "MAX_RECOVERY_ATTEMPTS = 2"

section \<open>Repairs\<close>

text \<open>\<open>COALESCE(desired_by, 'system:repair')\<close> and the like, for the repair updates.\<close>

definition coalesce :: "'a option \<Rightarrow> 'a \<Rightarrow> 'a option" where
  "coalesce p d = (case p of None \<Rightarrow> Some d | Some x \<Rightarrow> Some x)"

definition repair_outcome_row :: "outcome \<Rightarrow> timestamp \<Rightarrow> session \<Rightarrow> session" where
  "repair_outcome_row oc now s = s\<lparr>s_outcome := Some oc,
     s_desired_by := coalesce (s_desired_by s) ''system:repair'',
     s_desired_at := coalesce (s_desired_at s) now, s_updated_at := now, s_completed_at := Some now\<rparr>"

definition repair_desired_row :: "timestamp \<Rightarrow> session \<Rightarrow> session" where
  "repair_desired_row now s = s\<lparr>s_desired := DTerminate,
     s_desired_by := coalesce (s_desired_by s) ''system:repair'',
     s_desired_at := coalesce (s_desired_at s) now, s_updated_at := now\<rparr>"

definition database_error :: "string \<Rightarrow> scheduler_error \<Rightarrow> scheduler_error + 'a" where
  "database_error what e = Inl (Database (what @ show_error e))"

text \<open>A terminated root without outcome.\<close>

definition repair_root_body :: "session \<Rightarrow> execution \<Rightarrow> (rec_result, rec_result) tx" where
  "repair_root_body session execution =
     tx_bind (tx_try (database_error ''repair re-read session: '') (get_session (s_id session))) (\<lambda>cur.
     tx_bind (tx_fail_if (s_desired cur \<noteq> DTerminate \<or> s_outcome cur \<noteq> None) (Inr NoAction)) (\<lambda>_.
     tx_bind (tx_read (count_pending_turns (s_id session))) (\<lambda>pending.
     tx_bind (tx_ret (if is_quiescent cur pending then Completed else Canceled)) (\<lambda>oc.
     tx_bind (if x_outcome execution = None
              then tx_try Inl (\<lambda>db. case derive_execution_outcome (s_execution_id session) db of
                     Inl e \<Rightarrow> Inl e | Inr o' \<Rightarrow> Inr (Some o'))
              else tx_ret None) (\<lambda>exec_outcome.
     tx_bind (tx_update_sessions (\<lambda>s. s_id s = s_id session \<and> s_outcome s = None)
       (repair_outcome_row oc)) (\<lambda>_.
     tx_bind (case exec_outcome of None \<Rightarrow> tx_ret False
              | Some eo \<Rightarrow> tx_map_err Inl (write_execution_terminal_in_tx (s_execution_id session) eo)) (\<lambda>_.
     tx_ret (Inr Repaired))))))))"

text \<open>A terminated child without outcome.\<close>

definition repair_child_body :: "session \<Rightarrow> (rec_result, rec_result) tx" where
  "repair_child_body session =
     tx_bind (tx_try Inl (get_session (s_id session))) (\<lambda>cur.
     if s_outcome cur \<noteq> None \<or> s_desired cur \<noteq> DTerminate then tx_ret (Inr Repaired) else
     tx_bind (tx_read (count_pending_turns (s_id cur))) (\<lambda>pending.
     tx_bind (tx_update_sessions (\<lambda>s. s_id s = s_id cur \<and> s_outcome s = None \<and> s_desired s = DTerminate \<and>
         s_executor_state s = s_executor_state cur)
       (repair_outcome_row (if is_quiescent cur pending then Completed else Canceled))) (\<lambda>_.
     tx_ret (Inr Repaired))))"

text \<open>An outcome without termination.\<close>

definition repair_desired_body :: "session \<Rightarrow> (rec_result, rec_result) tx" where
  "repair_desired_body session =
     tx_bind (tx_try Inl (get_session (s_id session))) (\<lambda>cur.
     if s_outcome cur = None \<or> s_desired cur = DTerminate then tx_ret (Inr Repaired) else
     tx_bind (tx_update_sessions
       (\<lambda>s. s_id s = s_id session \<and> s_desired s \<noteq> DTerminate \<and> s_outcome s \<noteq> None) repair_desired_row) (\<lambda>n.
     if n = 0 then tx_ret (Inr Repaired) else
     tx_bind (tx_try Inl (get_execution (s_execution_id session))) (\<lambda>x.
     if s_parent_session_id cur = None \<and> x_outcome x = None
     then tx_bind (tx_try Inl (derive_execution_outcome (s_execution_id session))) (\<lambda>oc.
          tx_bind (tx_map_err Inl (write_execution_terminal_in_tx (s_execution_id session) oc)) (\<lambda>_.
          tx_ret (Inr Repaired)))
     else tx_ret (Inr Repaired))))"

text \<open>A terminal root whose execution is open.\<close>

definition repair_execution_body :: "session \<Rightarrow> (rec_result, rec_result) tx" where
  "repair_execution_body session =
     tx_bind (tx_try (database_error ''repair re-read root: '') (get_session (s_id session))) (\<lambda>root.
     tx_bind (tx_fail_if (s_outcome root = None) (Inr NoAction)) (\<lambda>_.
     tx_bind (tx_try Inl (derive_execution_outcome (s_execution_id session))) (\<lambda>oc.
     tx_bind (tx_map_err Inl (write_execution_terminal_in_tx (s_execution_id session) oc)) (\<lambda>_.
     tx_ret (Inr Repaired)))))"

text \<open>\<open>repair_execution_for_terminal_root\<close>, the entry the API uses.\<close>

definition repair_root_execution_body :: "string \<Rightarrow> string \<Rightarrow> (scheduler_error + unit, scheduler_error + unit) tx" where
  "repair_root_execution_body root_id eid =
     tx_bind (tx_try Inl (get_session root_id)) (\<lambda>root.
     if s_outcome root = None \<or> s_desired root \<noteq> DTerminate then tx_ret (Inr ()) else
     tx_bind (tx_try Inl (get_execution eid)) (\<lambda>x.
     if x_outcome x \<noteq> None then tx_ret (Inr ()) else
     tx_bind (tx_try Inl (derive_execution_outcome eid)) (\<lambda>oc.
     tx_bind (tx_map_err Inl (write_execution_terminal_in_tx eid oc)) (\<lambda>_.
     tx_ret (Inr ())))))"

definition repair_execution_for_terminal_root :: "db \<Rightarrow> string \<Rightarrow> db \<Rightarrow> (scheduler_error + unit) \<times> db" where
  "repair_execution_for_terminal_root pre root_id db =
     (case get_session root_id pre of
        Inl e \<Rightarrow> (Inl e, db)
      | Inr s \<Rightarrow> run_tx Inl (s_execution_id s) (repair_root_execution_body root_id (s_execution_id s)) db)"

section \<open>Commands\<close>

text \<open>The oldest queued turn of a session, taken off the queue inside a transaction.\<close>

definition tx_pop_turn :: "string \<Rightarrow> (scheduler_error + 'b, json option) tx" where
  "tx_pop_turn sid t =
     (case oldest (\<lambda>k. t_session_id k = sid) (tx_db t) of
        None \<Rightarrow> Inr (None, t)
      | Some k \<Rightarrow>
          (case from_str (t_payload k) of
             None \<Rightarrow> Inl (Inl (Database ''deserialize task_payload failed''))
           | Some v \<Rightarrow> Inr (Some v, tx_put (delete_task (t_id k) (tx_db t)) t)))"

definition sdk_agent :: "agent \<Rightarrow> bool" where
  "sdk_agent a \<longleftrightarrow> a_agent_type a = ''claude_sdk'' \<or> a_agent_type a = ''copilot_sdk'' \<or> a_agent_type a = ''codex_sdk''"

definition build_driver_info :: "agent \<Rightarrow> session \<Rightarrow> db \<Rightarrow> scheduler_error + json" where
  "build_driver_info agent session db =
     (let driver = Option.bind (a_driver_id agent) (\<lambda>i. ok (get_driver i db));
          platform = (case driver of None \<Rightarrow> a_agent_type agent | Some d \<Rightarrow> d_platform d);
          config = (if sdk_agent agent
            then (case parse_sandbox_policy (s_sandbox_policy session) of
                    Inl e \<Rightarrow> Inl e | Inr p \<Rightarrow> build_sandbox_driver_config p)
            else Inr (case from_str (a_config agent) of None \<Rightarrow> JObj [] | Some v \<Rightarrow> v)) in
      case config of
        Inl e \<Rightarrow> Inl e
      | Inr c \<Rightarrow> Inr (JObj [(''platform'', JStr platform), (''config'', c)]))"

definition next_msg_seq :: "string \<Rightarrow> db \<Rightarrow> int" where
  "next_msg_seq sid db =
     foldl max (- 1) (List.map_filter ev_msg_seq (filter (\<lambda>e. ev_session_id e = Some sid) (events db))) + 1"

definition command_row :: "string \<Rightarrow> command_type \<Rightarrow> bool \<Rightarrow> timestamp \<Rightarrow> session \<Rightarrow> session" where
  "command_row token ty has_payload now s = s\<lparr>s_command_token := Some token, s_command_type := Some ty,
     s_command_at := Some now, s_command_has_payload := has_payload, s_updated_at := now\<rparr>"

definition assign_body :: "rec_env \<Rightarrow> session \<Rightarrow> bool \<Rightarrow> string option \<Rightarrow> (rec_result, rec_result) tx" where
  "assign_body env session resume worker_id =
     tx_bind (tx_try Inl (get_agent (s_agent_id session))) (\<lambda>agent.
     tx_bind (tx_try Inl (build_driver_info agent session)) (\<lambda>driver.
     tx_bind (tx_try (database_error ''execution recheck failed: '') (get_execution (s_execution_id session))) (\<lambda>x.
     tx_bind (tx_fail_if (x_desired x = DTerminate \<or> x_outcome x \<noteq> None) (Inr NoAction)) (\<lambda>_.
     tx_bind (tx_pop_turn (s_id session)) (\<lambda>task.
     tx_bind (tx_fail_if (\<not> resume \<and> task = None) (Inr NoAction)) (\<lambda>_.
     tx_bind (tx_update_sessions (\<lambda>s. s_id s = s_id session \<and> s_command_token s = None \<and>
         s_desired s = DRun \<and> s_executor_state s = Unassigned)
       (\<lambda>now s. command_row (re_token env) CAssign (task \<noteq> None) now
          (case worker_id of None \<Rightarrow> s | Some w \<Rightarrow> s\<lparr>s_worker_id := Some w\<rparr>))) (\<lambda>n.
     tx_bind (tx_fail_if (n = 0) (Inr NoAction)) (\<lambda>_.
     tx_bind (if task \<noteq> None \<and> s_parent_session_id session = None then tx_touch_last_activity else tx_ret 0) (\<lambda>_.
     tx_bind (tx_try Inl (re_agent_config env session agent x)) (\<lambda>agent_config.
     tx_bind (tx_read (next_msg_seq (s_id session))) (\<lambda>seq.
     tx_bind (case x_project_id x of None \<Rightarrow> tx_ret None | Some p \<Rightarrow> tx_try Inl (re_mcp_servers env p)) (\<lambda>mcp.
     tx_ret (Inr (SendCommand (re_token env) (Assign
       \<lparr>ac_session_id = s_id session, ac_execution_id = s_execution_id session, ac_payload = task,
        ac_resume = resume, ac_cwd = s_cwd session, ac_driver = driver, ac_agent_config = agent_config,
        ac_agent_session_id = s_agent_session_id session, ac_project_id = x_project_id x,
        ac_mcp_servers = mcp, ac_next_msg_seq = seq\<rparr>)))))))))))))))"

definition issue_assign ::
  "rec_env \<Rightarrow> session \<Rightarrow> bool \<Rightarrow> string option \<Rightarrow> db \<Rightarrow> rec_result \<times> db" where
  "issue_assign env session resume worker_id =
     run_tx (database_error ''begin transaction failed: '') (s_execution_id session)
       (assign_body env session resume worker_id)"

text \<open>\<open>worker_id = ?\<close> with the worker the caller read: never true of \<open>NULL\<close>.\<close>

definition same_worker :: "session \<Rightarrow> session \<Rightarrow> bool" where
  "same_worker session s \<longleftrightarrow> s_worker_id session \<noteq> None \<and> s_worker_id s = s_worker_id session"

definition feed_body :: "rec_env \<Rightarrow> session \<Rightarrow> (rec_result, rec_result) tx" where
  "feed_body env session =
     tx_bind (tx_try (database_error ''execution recheck failed: '') (get_execution (s_execution_id session))) (\<lambda>x.
     tx_bind (tx_fail_if (x_desired x = DTerminate \<or> x_outcome x \<noteq> None) (Inr NoAction)) (\<lambda>_.
     tx_bind (tx_pop_turn (s_id session)) (\<lambda>task.
     case task of
       None \<Rightarrow> tx_abort (Inr NoAction)
     | Some payload \<Rightarrow>
         tx_bind (tx_update_sessions (\<lambda>s. s_id s = s_id session \<and> s_command_token s = None \<and>
             s_desired s = DRun \<and> same_worker session s \<and>
             (s_executor_state s = Running \<or> s_executor_state s = Idle))
           (command_row (re_token env) CFeedTurn True)) (\<lambda>n.
         tx_bind (tx_fail_if (n = 0) (Inr NoAction)) (\<lambda>_.
         tx_bind (if s_parent_session_id session = None then tx_touch_last_activity else tx_ret 0) (\<lambda>_.
         tx_ret (Inr (SendCommand (re_token env) (FeedTurn (s_id session) payload)))))))))"

definition issue_feed_turn :: "rec_env \<Rightarrow> session \<Rightarrow> db \<Rightarrow> rec_result \<times> db" where
  "issue_feed_turn env session =
     run_tx (database_error ''begin transaction failed: '') (s_execution_id session) (feed_body env session)"

definition stop_turn_body :: "rec_env \<Rightarrow> session \<Rightarrow> (rec_result, rec_result) tx" where
  "stop_turn_body env session =
     tx_bind (tx_update_sessions (\<lambda>s. s_id s = s_id session \<and> same_worker session s \<and> s_desired s = DStop)
       (command_row (re_token env) CStopTurn False)) (\<lambda>n.
     tx_bind (tx_fail_if (n = 0) (Inr NoAction)) (\<lambda>_.
     tx_ret (Inr (SendCommand (re_token env) (StopTurn (s_id session))))))"

definition issue_stop_turn :: "rec_env \<Rightarrow> session \<Rightarrow> db \<Rightarrow> rec_result \<times> db" where
  "issue_stop_turn env session =
     run_tx (database_error ''begin stop_turn tx: '') (s_execution_id session) (stop_turn_body env session)"

definition cancel_body :: "rec_env \<Rightarrow> session \<Rightarrow> (rec_result, rec_result) tx" where
  "cancel_body env session =
     tx_bind (tx_update_sessions (\<lambda>s. s_id s = s_id session \<and> same_worker session s \<and> s_desired s = DTerminate)
       (command_row (re_token env) CCancel False)) (\<lambda>n.
     tx_bind (tx_fail_if (n = 0) (Inr NoAction)) (\<lambda>_.
     tx_ret (Inr (SendCommand (re_token env) (Cancel (s_id session))))))"

definition issue_cancel :: "rec_env \<Rightarrow> session \<Rightarrow> db \<Rightarrow> rec_result \<times> db" where
  "issue_cancel env session =
     run_tx (database_error ''begin cancel tx: '') (s_execution_id session) (cancel_body env session)"

section \<open>Finalizing\<close>

definition crash_notification :: "session \<Rightarrow> string \<Rightarrow> json" where
  "crash_notification session desired_by =
     JObj [(''message'', JObj [(''role'', JStr ''ROLE_USER''), (''parts'', JArr [
       JObj [(''text'', JStr (''Child session '' @ s_id session @ '' crashed.''))],
       JObj [(''data'', JObj [(''type'', JStr ''child_crashed''), (''child_session_id'', JStr (s_id session)),
         (''desired_by'', JStr desired_by),
         (''outcome'', JStr (case s_outcome session of None \<Rightarrow> ''failed'' | Some oc \<Rightarrow> outcome_str oc))])]])])]"

definition crashed_by :: "session \<Rightarrow> string option" where
  "crashed_by s = (case s_desired_by s of None \<Rightarrow> None
     | Some d \<Rightarrow> if take 12 d = ''system:crash'' then Some d else None)"

text \<open>The parent of a session that crashed for good is told once.\<close>

definition notify_parent_of_crash_in_tx :: "session \<Rightarrow> (scheduler_error, unit) tx" where
  "notify_parent_of_crash_in_tx session =
     (case (crashed_by session, s_parent_session_id session) of
        (Some desired_by, Some parent_id) \<Rightarrow>
          if s_parent_notified session then tx_ret () else
          tx_bind (tx_try id (get_execution (s_execution_id session))) (\<lambda>x.
          if x_desired x = DTerminate \<or> x_outcome x \<noteq> None then tx_ret () else
          tx_bind (tx_read (session_row parent_id)) (\<lambda>parent.
          case parent of
            None \<Rightarrow> tx_ret ()
          | Some p \<Rightarrow>
              if s_outcome p \<noteq> None \<or> s_desired p = DTerminate then tx_ret () else
              tx_bind (tx_update_sessions (\<lambda>s. s_id s = s_id session \<and> \<not> s_parent_notified s \<and>
                  s_desired s = DTerminate \<and> s_outcome s \<noteq> None \<and> s_desired_by s = Some desired_by)
                (\<lambda>now s. s\<lparr>s_parent_notified := True, s_updated_at := now\<rparr>)) (\<lambda>n.
              if n = 0 then tx_ret () else
              tx_bind (if s_desired p = DStop
                then resume_parent (\<lambda>e. Database (''auto-resume state_change event: '' @ show_error e))
                       parent_id ''system:child_crash_notify''
                else tx_ret ()) (\<lambda>_.
              tx_bind (tx_enqueue (s_execution_id session) parent_id
                (to_string (crash_notification session desired_by)) (Some (''child_result:'' @ s_id session))) (\<lambda>_.
              tx_bind (tx_map_err (\<lambda>e. Database (''persist crash notice event: '' @ show_error e))
                (insert_in_tx (Some parent_id) EvPlatform (to_string (JObj [(''type'', JStr ''child_crashed''),
                   (''child_session_id'', JStr (s_id session))])))) (\<lambda>_.
              tx_ret ()))))))
      | _ \<Rightarrow> tx_ret ())"

definition finalize_body :: "session \<Rightarrow> (scheduler_error + unit, scheduler_error + unit) tx" where
  "finalize_body session =
     tx_bind (tx_read (session_row (s_id session))) (\<lambda>row.
     case row of
       None \<Rightarrow> tx_ret (Inr ())
     | Some cur \<Rightarrow>
         if s_desired cur \<noteq> DTerminate then tx_ret (Inr ()) else
         tx_bind (tx_flush_session (s_id cur)) (\<lambda>_.
         tx_bind (tx_map_err Inl (notify_parent_of_crash_in_tx cur)) (\<lambda>_.
         tx_bind (if s_worker_id cur \<noteq> None
           then tx_update_sessions (\<lambda>s. s_id s = s_id cur)
             (\<lambda>now s. s\<lparr>s_worker_id := None, s_updated_at := now\<rparr>)
           else tx_ret 0) (\<lambda>_.
         tx_ret (Inr ())))))"

definition finalize :: "session \<Rightarrow> db \<Rightarrow> (scheduler_error + unit) \<times> db" where
  "finalize session = run_tx Inl (s_execution_id session) (finalize_body session)"

section \<open>Cascading termination\<close>

text \<open>
  \<open>cascade_children\<close> walks the subtree below a session. Its recursion ends because sessions
  form a forest; the fuel bounds its depth, and running out of it is \<open>None\<close>.
\<close>

definition terminate_child :: "env \<Rightarrow> session \<Rightarrow> session \<Rightarrow> db \<Rightarrow> (scheduler_error + unit) \<times> db" where
  "terminate_child env session child db =
     (if s_outcome child = None \<and> s_desired child \<noteq> DTerminate then
        (case transition env db (s_execution_id session) (s_id child)
                (SetDesired DTerminate ''system:cascade'') db of
           (Inr _, db') \<Rightarrow> (Inr (), db')
         | (Inl e, db') \<Rightarrow>
             if e = Ratchet \<and> (case get_session (s_id child) db' of
                  Inl _ \<Rightarrow> False | Inr c \<Rightarrow> s_desired c = DTerminate)
             then (Inr (), db')
             else (Inl (Database (''cascade to '' @ s_id child @ '' failed'')), db'))
      else (Inr (), db))"

fun cascade_list ::
  "(session \<Rightarrow> db \<Rightarrow> ((scheduler_error + unit) \<times> db) option) \<Rightarrow> env \<Rightarrow> session \<Rightarrow> session list \<Rightarrow> db \<Rightarrow>
   ((scheduler_error + unit) \<times> db) option" where
  "cascade_list rec env session [] db = Some (Inr (), db)"
| "cascade_list rec env session (c # cs) db =
     (case terminate_child env session c db of
        (Inl e, db') \<Rightarrow> Some (Inl e, db')
      | (Inr _, db') \<Rightarrow>
          (case get_session (s_id c) db' of
             Inl e \<Rightarrow> Some (Inl e, db')
           | Inr fresh \<Rightarrow>
               (case rec fresh db' of
                  None \<Rightarrow> None
                | Some (Inl e, db'') \<Rightarrow> Some (Inl e, db'')
                | Some (Inr _, db'') \<Rightarrow> cascade_list rec env session cs db'')))"

fun cascade_children :: "nat \<Rightarrow> env \<Rightarrow> session \<Rightarrow> db \<Rightarrow> ((scheduler_error + unit) \<times> db) option" where
  "cascade_children 0 env session db = None"
| "cascade_children (Suc n) env session db =
     cascade_list (cascade_children n env) env session (get_children (s_id session) db) db"

definition cascade_from :: "nat \<Rightarrow> env \<Rightarrow> string \<Rightarrow> db \<Rightarrow> ((scheduler_error + unit) \<times> db) option" where
  "cascade_from fuel env sid db =
     (case get_session sid db of
        Inl e \<Rightarrow> Some (Inl e, db)
      | Inr fresh \<Rightarrow> cascade_children fuel env fresh db)"

definition terminate_and_cascade ::
  "nat \<Rightarrow> env \<Rightarrow> session \<Rightarrow> string \<Rightarrow> db \<Rightarrow> ((scheduler_error + unit) \<times> db) option" where
  "terminate_and_cascade fuel env session desired_by db =
     (case terminate_session db (s_execution_id session) (s_id session) desired_by db of
        (Inr _, db') \<Rightarrow> cascade_from fuel env (s_id session) db'
      | (Inl e, db') \<Rightarrow>
          if e = Ratchet then cascade_from fuel env (s_id session) db'
          else Some (Inl (Database (desired_by @ '' terminate failed'')), db'))"

section \<open>Looking at one session\<close>

definition is_agent_deleted :: "string \<Rightarrow> db \<Rightarrow> bool" where
  "is_agent_deleted aid db =
     (case get_agent aid db of
        Inr a \<Rightarrow> a_deleted_at a \<noteq> None
      | Inl (NotFound _) \<Rightarrow> True
      | Inl _ \<Rightarrow> False)"

definition recoverable :: "session \<Rightarrow> nat \<Rightarrow> db \<Rightarrow> scheduler_error + bool" where
  "recoverable session pending db =
     (if MAX_RECOVERY_ATTEMPTS \<le> s_recovery_attempts session then Inr False
      else case get_execution (s_execution_id session) db of
        Inl e \<Rightarrow> Inl e
      | Inr x \<Rightarrow>
          if x_outcome x \<noteq> None then Inr False
          else (case get_agent (s_agent_id session) db of
            Inl e \<Rightarrow> Inl e
          | Inr a \<Rightarrow>
              if a_deleted_at a \<noteq> None then Inr False
              else if s_agent_session_id session \<noteq> None
              then Inr (sdk_agent a \<and> s_cwd session \<noteq> None)
              else Inr (0 < pending)))"

text \<open>The direct children of a terminated session, failures ignored.\<close>

definition cascade_once :: "env \<Rightarrow> session \<Rightarrow> db \<Rightarrow> db" where
  "cascade_once env session db =
     foldl (\<lambda>d c. if s_outcome c = None \<and> s_desired c \<noteq> DTerminate
        then snd (transition env d (s_execution_id session) (s_id c) (SetDesired DTerminate ''system:cascade'') d)
        else d) db (get_children (s_id session) db)"

definition clear_stale_body :: "session \<Rightarrow> (rec_result, rec_result) tx" where
  "clear_stale_body session =
     tx_bind (tx_update_sessions (\<lambda>s. s_id s = s_id session \<and> s_executor_state s = Crashed)
       (\<lambda>now s. (clear_command s)\<lparr>s_updated_at := now\<rparr>)) (\<lambda>n.
     tx_bind (tx_fail_if (n = 0) (Inr NoAction)) (\<lambda>_.
     tx_ret (Inr Repaired)))"

fun timeout_secs :: "command_type option \<Rightarrow> int" where
  "timeout_secs (Some CAssign) = 60"
| "timeout_secs (Some CFeedTurn) = 5"
| "timeout_secs (Some CStopTurn) = 15"
| "timeout_secs (Some CCancel) = 15"
| "timeout_secs None = 60"

definition timed_out :: "timestamp \<Rightarrow> session \<Rightarrow> bool" where
  "timed_out now session =
     (case s_command_at session of
        None \<Rightarrow> False
      | Some at \<Rightarrow> timeout_secs (s_command_type session) < now - at)"

definition lost_message_event :: json where
  "lost_message_event = JObj [(''message'', JStr ''Agent recovered from a crash. A message may have been lost.'')]"

definition expire_command :: "rec_env \<Rightarrow> session \<Rightarrow> db \<Rightarrow> rec_result \<times> db" where
  "expire_command env session db =
     (let db1 = (if s_command_has_payload session
            then snd (insert_locked (s_execution_id session) (Some (s_id session)) EvPlatform
                        (to_string lost_message_event) db)
            else db)
      in (Inr Mutated, snd (transition (re_env env) db1 (s_execution_id session) (s_id session) DetectCrash db1)))"

text \<open>The worker the supervisor is told to kill when a look finds its command timed out.\<close>

definition killed_worker :: "rec_env \<Rightarrow> session \<Rightarrow> execution \<Rightarrow> string option" where
  "killed_worker env session execution =
     (if s_desired session = DTerminate \<and> s_outcome session = None \<or>
         s_outcome session \<noteq> None \<and> s_desired session \<noteq> DTerminate \<or>
         s_parent_session_id session = None \<and> s_outcome session \<noteq> None \<and> x_outcome execution = None
      then None
      else if s_command_token session \<noteq> None \<and> s_executor_state session \<noteq> Crashed \<and>
         timed_out (re_now env) session
      then s_worker_id session else None)"

definition needed_command :: "session \<Rightarrow> command_type option" where
  "needed_command session =
     (case (s_desired session, s_executor_state session) of
        (DTerminate, _) \<Rightarrow> Some CCancel
      | (DStop, Running) \<Rightarrow> Some CStopTurn
      | (DStop, _) \<Rightarrow> if s_command_type session = Some CAssign \<or> s_command_type session = Some CFeedTurn
          then Some CStopTurn else None
      | (DRun, _) \<Rightarrow> None)"

fun cmd_priority :: "command_type option \<Rightarrow> nat" where
  "cmd_priority (Some CCancel) = 3"
| "cmd_priority (Some CStopTurn) = 2"
| "cmd_priority _ = 1"

definition pending_command :: "rec_env \<Rightarrow> session \<Rightarrow> bool \<Rightarrow> db \<Rightarrow> rec_result \<times> db" where
  "pending_command env session command_ok db =
     (if s_executor_state session = Crashed
      then run_tx (database_error ''begin command repair tx: '') (s_execution_id session)
             (clear_stale_body session) db
      else if timed_out (re_now env) session then expire_command env session db
      else if command_ok then
        (case needed_command session of
           None \<Rightarrow> (Inr PendingCommand, db)
         | Some needed \<Rightarrow>
             if cmd_priority (s_command_type session) < cmd_priority (Some needed) then
               (case needed of
                  CStopTurn \<Rightarrow> issue_stop_turn env session db
                | CCancel \<Rightarrow> issue_cancel env session db
                | _ \<Rightarrow> (Inr PendingCommand, db))
             else (Inr PendingCommand, db))
      else (Inr PendingCommand, db))"

definition mutated :: "(scheduler_error + unit) \<times> db \<Rightarrow> rec_result \<times> db" where
  "mutated p = (case p of (Inl e, db) \<Rightarrow> (Inl e, db) | (Inr _, db) \<Rightarrow> (Inr Mutated, db))"

text \<open>The crashed session that should run: retry it, or fail it for good with its subtree.\<close>

definition reconcile_crashed :: "nat \<Rightarrow> rec_env \<Rightarrow> session \<Rightarrow> nat \<Rightarrow> db \<Rightarrow> (rec_result \<times> db) option" where
  "reconcile_crashed fuel env session pending db =
     (case recoverable session pending db of
        Inl e \<Rightarrow> Some (Inl e, db)
      | Inr True \<Rightarrow>
          Some (case transition (re_env env) db (s_execution_id session) (s_id session) RetryRecovery db of
             (Inl e, db') \<Rightarrow> (Inl (Database (''retry recovery failed: '' @ show_rejected e)), db')
           | (Inr _, db') \<Rightarrow> (Inr Mutated, db'))
      | Inr False \<Rightarrow>
          (case terminate_session_failed db (s_execution_id session) (s_id session)
                  ''system:crash_unrecoverable'' True db of
             (Inl Ratchet, db') \<Rightarrow> Some (Inr NoAction, db')
           | (Inl _, db') \<Rightarrow> Some (Inl (Database ''terminate failed failed''), db')
           | (Inr _, db') \<Rightarrow>
               map_option mutated (cascade_from fuel (re_env env) (s_id session)
                 (snd (insert_locked (s_execution_id session) (Some (s_id session)) EvPlatform
                   (to_string (JObj [(''message'',
                      JStr ''Agent session failed permanently. Work or messages may have been lost.'')])) db')))))"

text \<open>The table of desired and executor states, for a session with no outstanding command.\<close>

definition dispatch ::
  "nat \<Rightarrow> rec_env \<Rightarrow> session \<Rightarrow> nat \<Rightarrow> execution \<Rightarrow> bool \<Rightarrow> string option \<Rightarrow> db \<Rightarrow> (rec_result \<times> db) option" where
  "dispatch fuel env session pending execution command_ok worker_id db =
     (let exec_alive = (x_desired execution = DRun \<and> x_outcome execution = None) in
      case (s_desired session, s_executor_state session) of
        (DRun, Unassigned) \<Rightarrow>
          if is_agent_deleted (s_agent_id session) db
          then map_option mutated (terminate_and_cascade fuel (re_env env) session ''system:agent_deleted'' db)
          else if (0 < pending \<or> s_agent_session_id session \<noteq> None) \<and> command_ok \<and> exec_alive
          then Some (issue_assign env session (s_agent_session_id session \<noteq> None) worker_id db)
          else Some (Inr NoAction, db)
      | (DRun, Crashed) \<Rightarrow>
          if is_agent_deleted (s_agent_id session) db
          then map_option mutated (terminate_and_cascade fuel (re_env env) session ''system:agent_deleted'' db)
          else reconcile_crashed fuel env session pending db
      | (DRun, _) \<Rightarrow>
          Some (if 0 < pending \<and> command_ok \<and> exec_alive then issue_feed_turn env session db
                else (Inr NoAction, db))
      | (DStop, Running) \<Rightarrow> Some (if command_ok then issue_stop_turn env session db else (Inr NoAction, db))
      | (DStop, _) \<Rightarrow> Some (Inr NoAction, db)
      | (DTerminate, Running) \<Rightarrow> Some (if command_ok then issue_cancel env session db else (Inr NoAction, db))
      | (DTerminate, Idle) \<Rightarrow>
          Some (if s_worker_id session \<noteq> None
            then if command_ok then issue_cancel env session db else (Inr NoAction, db)
            else mutated (finalize session db))
      | (DTerminate, _) \<Rightarrow> Some (mutated (finalize session db)))"

definition reconcile ::
  "nat \<Rightarrow> rec_env \<Rightarrow> session \<Rightarrow> nat \<Rightarrow> execution \<Rightarrow> bool \<Rightarrow> string option \<Rightarrow> db \<Rightarrow> (rec_result \<times> db) option" where
  "reconcile fuel env session pending execution command_ok worker_id db =
     (if s_desired session = DTerminate \<and> s_outcome session = None then
        Some (run_tx Inl (s_execution_id session)
          (if s_parent_session_id session = None then repair_root_body session execution
           else repair_child_body session) db)
      else if s_outcome session \<noteq> None \<and> s_desired session \<noteq> DTerminate then
        Some (run_tx Inl (s_execution_id session) (repair_desired_body session) db)
      else if s_parent_session_id session = None \<and> s_outcome session \<noteq> None \<and> x_outcome execution = None then
        Some (run_tx Inl (s_execution_id session) (repair_execution_body session) db)
      else
        let db1 = (if s_desired session = DTerminate then cascade_once (re_env env) session db else db) in
        if s_command_token session \<noteq> None
        then Some (pending_command env session command_ok db1)
        else dispatch fuel env session pending execution command_ok worker_id db1)"

end
