(* ===== verification/Supervisor.thy ===== *)
theory Supervisor
  imports Prelude "HOL-Library.AList"
begin

text \<open>
  \<open>scheduler/src/supervisor.rs\<close>: the table of worker processes. Spawning and killing a process
  is the operating system's; what a spawn draws (a fresh identifier and, when it succeeds, the
  process id) is an argument. The table is an association list in which a key occurs once.
\<close>

record supervisor =
  sv_workers :: "(string \<times> nat) list"
  sv_max_workers :: "nat option"
  sv_shutting_down :: bool

definition worker_count :: "supervisor \<Rightarrow> nat" where
  "worker_count sv = length (sv_workers sv)"

definition worker_ids :: "supervisor \<Rightarrow> string list" where
  "worker_ids sv = map fst (sv_workers sv)"

text \<open>\<open>spawn_worker\<close>, given the identifier drawn and the process id, if any.\<close>

definition spawn_worker :: "string \<Rightarrow> nat option \<Rightarrow> supervisor \<Rightarrow> (string + string) \<times> supervisor" where
  "spawn_worker uuid pid sv =
     (if sv_shutting_down sv then (Inl ''supervisor is shutting down'', sv)
      else if (case sv_max_workers sv of None \<Rightarrow> False | Some m \<Rightarrow> m \<le> worker_count sv)
      then (Inl ''max workers reached'', sv)
      else case pid of
        None \<Rightarrow> (Inl ''failed to spawn'', sv)
      | Some p \<Rightarrow> (Inr uuid, sv\<lparr>sv_workers := AList.update uuid p (sv_workers sv)\<rparr>))"

text \<open>\<open>kill_worker\<close>: whether a process was tracked, and so killed.\<close>

definition kill_worker :: "string \<Rightarrow> supervisor \<Rightarrow> bool \<times> supervisor" where
  "kill_worker w sv =
     (case map_of (sv_workers sv) w of
        None \<Rightarrow> (False, sv)
      | Some _ \<Rightarrow> (True, sv\<lparr>sv_workers := AList.delete w (sv_workers sv)\<rparr>))"

text \<open>\<open>monitor_worker\<close>, once the process has exited.\<close>

definition worker_exited :: "string \<Rightarrow> supervisor \<Rightarrow> supervisor" where
  "worker_exited w sv =
     (if sv_shutting_down sv then sv
      else sv\<lparr>sv_workers := AList.delete w (sv_workers sv)\<rparr>)"

definition shutdown :: "supervisor \<Rightarrow> supervisor" where
  "shutdown sv = sv\<lparr>sv_shutting_down := True, sv_workers := []\<rparr>"

text \<open>The spawn tick: as many as asked for, until one fails.\<close>

fun spawn_up_to :: "nat \<Rightarrow> (nat \<Rightarrow> string \<times> nat option) \<Rightarrow> supervisor \<Rightarrow> supervisor" where
  "spawn_up_to 0 draw sv = sv"
| "spawn_up_to (Suc n) draw sv =
     (case spawn_worker (fst (draw n)) (snd (draw n)) sv of
        (Inl _, sv') \<Rightarrow> sv'
      | (Inr _, sv') \<Rightarrow> spawn_up_to n draw sv')"

section \<open>The table stays within its bound\<close>

definition supervisor_wf :: "supervisor \<Rightarrow> bool" where
  "supervisor_wf sv \<longleftrightarrow> distinct (worker_ids sv) \<and>
     (case sv_max_workers sv of None \<Rightarrow> True | Some m \<Rightarrow> worker_count sv \<le> m)"

lemma length_update_le: "length (AList.update k v al) \<le> Suc (length al)"
  by (induction al) auto

lemma length_update_less: "length al < m \<Longrightarrow> length (AList.update k v al) \<le> m"
  using length_update_le [of k v al] by linarith

lemma length_delete_le: "length (AList.delete k al) \<le> length al"
  by (simp add: AList.delete_eq)

lemma supervisor_wf_spawn: "supervisor_wf sv \<Longrightarrow> supervisor_wf (snd (spawn_worker u p sv))"
  by (auto simp: supervisor_wf_def spawn_worker_def worker_ids_def worker_count_def distinct_update not_le
      split: option.splits intro: length_update_less)

lemma supervisor_wf_delete: "supervisor_wf sv \<Longrightarrow> supervisor_wf (sv\<lparr>sv_workers := AList.delete w (sv_workers sv)\<rparr>)"
  using length_delete_le [of w "sv_workers sv"]
  by (auto simp: supervisor_wf_def worker_ids_def worker_count_def distinct_delete
      split: option.splits intro: order_trans)

lemma supervisor_wf_kill: "supervisor_wf sv \<Longrightarrow> supervisor_wf (snd (kill_worker w sv))"
  by (auto simp: kill_worker_def supervisor_wf_delete split: option.splits)

lemma supervisor_wf_exited: "supervisor_wf sv \<Longrightarrow> supervisor_wf (worker_exited w sv)"
  by (simp add: worker_exited_def supervisor_wf_delete)

lemma supervisor_wf_shutdown: "supervisor_wf sv \<Longrightarrow> supervisor_wf (shutdown sv)"
  by (auto simp: supervisor_wf_def shutdown_def worker_ids_def worker_count_def split: option.splits)

lemma supervisor_wf_spawn_up_to: "supervisor_wf sv \<Longrightarrow> supervisor_wf (spawn_up_to n draw sv)"
proof (induction n arbitrary: sv)
  case (Suc n)
  then show ?case
    using supervisor_wf_spawn [of sv "fst (draw n)" "snd (draw n)"]
    by (auto split: prod.splits sum.splits)
qed simp

lemma killed_not_tracked: "w \<notin> set (worker_ids (snd (kill_worker w sv)))"
  by (auto simp: kill_worker_def worker_ids_def AList.delete_eq map_of_eq_None_iff split: option.splits)

lemma kill_others: "v \<noteq> w \<Longrightarrow> v \<in> set (worker_ids (snd (kill_worker w sv))) \<longleftrightarrow> v \<in> set (worker_ids sv)"
  by (auto simp: kill_worker_def worker_ids_def AList.delete_eq image_iff
      split: option.splits) force

end
