(* ===== verification/Node.thy ===== *)
theory Node
  imports Reconciler Supervisor
begin

text \<open>
  The running scheduler: its database, its table of worker processes and the times at which
  each worker was last heard of (\<open>AppState\<close> of \<open>scheduler/src/app/mod.rs\<close>), and the two things
  both the handler of a worker's request and the liveness tick do to a session.
\<close>

record node =
  nd_db :: db
  nd_supervisor :: supervisor
  nd_heartbeats :: "string \<Rightarrow> timestamp option"
  nd_started_at :: timestamp
  nd_instant :: timestamp
  nd_hb_timeout :: int

definition kill :: "string \<Rightarrow> node \<Rightarrow> node" where
  "kill w nd = nd\<lparr>nd_supervisor := snd (kill_worker w (nd_supervisor nd))\<rparr>"

definition heard_from :: "string \<Rightarrow> node \<Rightarrow> node" where
  "heard_from w nd = nd\<lparr>nd_heartbeats := (nd_heartbeats nd)(w \<mapsto> nd_instant nd)\<rparr>"

definition silent :: "timestamp \<Rightarrow> node \<Rightarrow> bool" where
  "silent seen nd \<longleftrightarrow> nd_hb_timeout nd < nd_instant nd - seen"

text \<open>A worker has gone silent: its session crashes, the process is killed.\<close>

definition lose_worker :: "env \<Rightarrow> session \<Rightarrow> string \<Rightarrow> node \<Rightarrow> node" where
  "lose_worker env session w nd =
     (let db1 = (if s_command_has_payload session
            then snd (insert_locked (s_execution_id session) (Some (s_id session)) EvPlatform
                        (to_string lost_message_event) (nd_db nd))
            else nd_db nd)
      in (kill w nd)\<lparr>nd_db := snd (transition env db1 (s_execution_id session) (s_id session) DetectCrash db1)\<rparr>)"

text \<open>
  Count the pending turns, read the execution and reconcile; \<open>None\<close> for a session whose
  execution cannot be read. The worker of a timed-out command is killed.
\<close>

definition look ::
  "nat \<Rightarrow> rec_env \<Rightarrow> session \<Rightarrow> bool \<Rightarrow> string option \<Rightarrow> node \<Rightarrow> (rec_result option \<times> node) option" where
  "look fuel env session command_ok worker_id nd =
     (case execution_row (s_execution_id session) (nd_db nd) of
        None \<Rightarrow> Some (None, nd)
      | Some x \<Rightarrow>
          map_option (\<lambda>(r, d). (Some r,
              (case killed_worker env session x of None \<Rightarrow> nd | Some w \<Rightarrow> kill w nd)\<lparr>nd_db := d\<rparr>))
            (reconcile fuel env session (count_pending_turns (s_id session) (nd_db nd)) x
               command_ok worker_id (nd_db nd)))"

end
