(* ===== verification/Worker_Sync.thy ===== *)
theory Worker_Sync
  imports Node
begin

text \<open>
  \<open>scheduler/src/api/handlers/worker_sync.rs\<close>: the request by which a worker reports what its
  agent did, acknowledges the last command and receives the next one, and the forwarding of
  single messages during a turn.

  The retries after a database deadlock and the wake-up of waiting requests carry no state.
  What other requests do between the reads and the result transaction, and while the request
  waits for work, is an argument (\<open>sy_between\<close>, \<open>sy_wait\<close>).
\<close>

section \<open>Requests and responses\<close>

record executor_report =
  er_session_id :: string
  er_executor_state :: string
  er_agent_session_id :: "string option"

record turn_message =
  tm_msg_seq :: "int option"
  tm_payload :: json

record turn_result =
  tr_session_id :: string
  tr_messages :: "turn_message list"
  tr_error :: "string option"
  tr_error_kind :: "string option"
  tr_stderr :: "string option"

record sync_request =
  sr_worker_id :: string
  sr_executor_report :: "executor_report option"
  sr_turn_result :: "turn_result option"
  sr_command_ack :: "string option"

datatype sync_response =
    SyncNoAction
  | Command string command_action

record sync_env =
  sy_rec :: "nat \<Rightarrow> rec_env"
  sy_long_poll_secs :: nat
  sy_between :: "node \<Rightarrow> node"
  sy_wait :: "node \<Rightarrow> node"

definition sy_env :: "sync_env \<Rightarrow> env" where
  "sy_env se = re_env (sy_rec se 0)"

section \<open>The report of the executor\<close>

definition parse_executor_state :: "string \<Rightarrow> ex_state option" where
  "parse_executor_state s =
     (if s = ''running'' then Some Running else if s = ''idle'' then Some Idle
      else if s = ''crashed'' then Some Crashed else None)"

text \<open>\<open>Inr False\<close>: the report of a worker that does not own the session, which is killed.\<close>

definition process_executor_report ::
  "env \<Rightarrow> string \<Rightarrow> executor_report \<Rightarrow> crash_meta option \<Rightarrow> node \<Rightarrow> (string + bool) \<times> node" where
  "process_executor_report env w report meta nd =
     (case get_session (er_session_id report) (nd_db nd) of
        Inl e \<Rightarrow> (Inl (''session not found: '' @ show_error e), nd)
      | Inr s \<Rightarrow>
          if s_worker_id s \<noteq> Some w then (Inr False, kill w nd)
          else case parse_executor_state (er_executor_state report) of
            None \<Rightarrow> (Inl (''unknown executor_state: '' @ er_executor_state report), nd)
          | Some st \<Rightarrow>
              (case (case er_agent_session_id report of
                       None \<Rightarrow> (Inr (), nd_db nd)
                     | Some asid \<Rightarrow> update_agent_session_id (s_id s) asid w (nd_db nd)) of
                 (Inl e, d) \<Rightarrow> (Inl (''update agent_session_id failed: '' @ show_error e), nd\<lparr>nd_db := d\<rparr>)
               | (Inr _, d) \<Rightarrow>
                   (case transition env d (s_execution_id s) (s_id s) (SetExecutorState st w meta) d of
                      (Inl e, d') \<Rightarrow> (Inl (''transition failed: '' @ show_rejected e), nd\<lparr>nd_db := d'\<rparr>)
                    | (Inr _, d') \<Rightarrow> (Inr True, nd\<lparr>nd_db := d'\<rparr>))))"

definition crash_meta_of :: "executor_report \<Rightarrow> turn_result option \<Rightarrow> crash_meta option" where
  "crash_meta_of report result =
     (if er_executor_state report = ''crashed'' then
        (case result of
           None \<Rightarrow> None
         | Some tr \<Rightarrow> if tr_session_id tr = er_session_id report
             then Some \<lparr>cm_error = tr_error tr, cm_error_kind = tr_error_kind tr, cm_stderr = tr_stderr tr\<rparr>
             else None)
      else None)"

text \<open>
  What the report decides of the rest of the request: whether to skip the reconciler, and the
  one session to reconcile instead of all.
\<close>

definition report_stage :: "env \<Rightarrow> sync_request \<Rightarrow> node \<Rightarrow> bool \<times> string option \<times> node" where
  "report_stage env req nd =
     (case sr_executor_report req of
        None \<Rightarrow> (False, None, nd)
      | Some report \<Rightarrow>
          let w = sr_worker_id req; crashed = (er_executor_state report = ''crashed'') in
          (case process_executor_report env w report (crash_meta_of report (sr_turn_result req)) nd of
             (Inr applied, nd1) \<Rightarrow> (\<not> applied \<or> crashed, None, nd1)
           | (Inl _, nd1) \<Rightarrow>
               if crashed then (True, None, nd1)
               else (case session_row (er_session_id report) (nd_db nd1) of
                 None \<Rightarrow> (True, None, nd1)
               | Some s \<Rightarrow>
                   if s_outcome s \<noteq> None \<and> s_desired s \<noteq> DTerminate \<or>
                      ex_state_str (s_executor_state s) \<noteq> er_executor_state report \<or> s_worker_id s \<noteq> Some w
                   then (True, None, if s_worker_id s \<noteq> Some w then kill w nd1 else nd1)
                   else (False, Some (er_session_id report), nd1))))"

section \<open>The result transaction\<close>

fun insert_messages :: "string \<Rightarrow> turn_message list \<Rightarrow> (string, unit) tx" where
  "insert_messages sid [] = tx_ret ()"
| "insert_messages sid (m # ms) =
     tx_bind (case tm_msg_seq m of
         Some seq \<Rightarrow>
           tx_bind (tx_map_err (\<lambda>e. ''insert message event failed: '' @ show_error e)
             (insert_with_dedup_in_tx sid EvMessage (to_string (tm_payload m)) seq)) (\<lambda>_. tx_ret ())
       | None \<Rightarrow>
           tx_bind (tx_map_err (\<lambda>e. ''insert message event failed: '' @ show_error e)
             (insert_in_tx (Some sid) EvMessage (to_string (tm_payload m)))) (\<lambda>_. tx_ret ())) (\<lambda>_.
     insert_messages sid ms)"

definition turn_error_event :: "string \<Rightarrow> string option \<Rightarrow> json" where
  "turn_error_event error kind = JObj [(''error'', JStr error),
     (''error_kind'', case kind of None \<Rightarrow> JNull | Some k \<Rightarrow> JStr k)]"

definition process_turn_result_in_tx :: "session \<Rightarrow> turn_result \<Rightarrow> (string, unit) tx" where
  "process_turn_result_in_tx session result =
     (if tr_messages result \<noteq> [] \<or> tr_error result \<noteq> None
      then tx_bind (insert_messages (s_id session) (tr_messages result)) (\<lambda>_.
        case tr_error result of
          None \<Rightarrow> tx_ret ()
        | Some e \<Rightarrow>
            tx_bind (tx_map_err (\<lambda>err. ''persist turn error event: '' @ show_error err)
              (insert_in_tx (Some (s_id session)) EvPlatform
                (to_string (turn_error_event e (tr_error_kind result))))) (\<lambda>_. tx_ret ()))
      else tx_ret ())"

datatype ack_result =
    Applied bool
  | StaleWorker
  | StaleToken

definition ack_row :: "timestamp \<Rightarrow> session \<Rightarrow> session" where
  "ack_row now s = (clear_command s)\<lparr>s_updated_at := now\<rparr>"

definition cancel_ack_row :: "timestamp \<Rightarrow> session \<Rightarrow> session" where
  "cancel_ack_row now s = (clear_command s)\<lparr>s_worker_id := None,
     s_executor_state := (if s_executor_state s = Idle \<or> s_executor_state s = Crashed
       then s_executor_state s else Crashed), s_updated_at := now\<rparr>"

definition by_token :: "string \<Rightarrow> db \<Rightarrow> session option" where
  "by_token token db = sql_find (\<lambda>s. s_command_token s = Some token) (sessions db)"

definition process_command_ack_in_tx :: "string \<Rightarrow> string \<Rightarrow> (string, ack_result) tx" where
  "process_command_ack_in_tx w token =
     tx_bind (tx_read (by_token token)) (\<lambda>row.
     case row of
       None \<Rightarrow> tx_ret StaleToken
     | Some s \<Rightarrow>
         if s_worker_id s \<noteq> Some w then tx_ret StaleWorker else
         let terminal = (s_command_type s = Some CCancel \<and> s_outcome s \<noteq> None) in
         tx_bind (tx_update_sessions (\<lambda>r. s_id r = s_id s \<and> s_command_token r = Some token)
           (if terminal then cancel_ack_row else ack_row)) (\<lambda>n.
         tx_ret (if n = 0 then StaleToken else Applied terminal)))"

definition turn_complete_event :: "session \<Rightarrow> json" where
  "turn_complete_event session = JObj [(''parts'', JArr [JObj [(''data'',
     JObj [(''type'', JStr ''turn_complete''), (''child_session_id'', JStr (s_id session))])]])]"

definition tell_parent :: "session \<Rightarrow> session \<Rightarrow> session \<Rightarrow> (string, unit) tx" where
  "tell_parent session parent tx_parent =
     tx_bind (if s_desired tx_parent = DStop
       then resume_parent show_error (s_id parent) ''system:turn_complete_notify'' else tx_ret ()) (\<lambda>_.
     tx_bind (tx_enqueue (s_execution_id session) (s_id parent)
       (to_string (child_notification (s_id session) ''turn_complete''))
       (Some (''child_result:'' @ s_id session))) (\<lambda>_.
     tx_bind (tx_map_err show_error (insert_in_tx (Some (s_id parent)) EvPlatform
       (to_string (turn_complete_event session)))) (\<lambda>_.
     tx_ret ())))"

definition tell_root :: "session \<Rightarrow> (string, unit) tx" where
  "tell_root session =
     tx_bind (tx_map_err (\<lambda>e. ''persist crash notice event: '' @ show_error e)
       (insert_in_tx (Some (s_id session)) EvPlatform (to_string (turn_complete_event session)))) (\<lambda>_.
     tx_bind tx_touch_last_activity (\<lambda>_.
     tx_ret ()))"

text \<open>
  The end of a turn is announced to the parent read before, when it and the execution are still
  live, or in the log of a root; \<open>child\<close> is the session as the transaction reads it.
\<close>

definition turn_complete :: "session option \<Rightarrow> session \<Rightarrow> session option \<Rightarrow> (string, unit) tx" where
  "turn_complete parent session child =
     (case child of
        None \<Rightarrow> tx_ret ()
      | Some c \<Rightarrow>
          if \<not> (s_desired c = DRun \<and> s_outcome c = None) then tx_ret () else
          case parent of
            None \<Rightarrow> if s_parent_session_id session = None then tell_root session else tx_ret ()
          | Some p \<Rightarrow>
              tx_bind (tx_read (execution_row (s_execution_id c))) (\<lambda>x.
              case x of
                None \<Rightarrow> tx_ret ()
              | Some e \<Rightarrow>
                  if \<not> (x_desired e \<noteq> DTerminate \<and> x_outcome e = None) then tx_ret () else
                  tx_bind (tx_read (session_row (s_id p))) (\<lambda>q.
                  case q of
                    None \<Rightarrow> tx_ret ()
                  | Some tp \<Rightarrow>
                      if s_outcome tp = None \<and> s_desired tp \<noteq> DTerminate
                      then tell_parent session p tp else tx_ret ())))"

record result_flags =
  rf_turn_session :: "session option"
  rf_terminal_cancel :: bool
  rf_ack_stale :: bool
  rf_turn_stale :: bool

text \<open>The turn's messages: the session kept, its row in the transaction, and a stale worker.\<close>

definition take_turn_result ::
  "string \<Rightarrow> sync_request \<Rightarrow> session option \<Rightarrow> (string, session option \<times> session option \<times> bool) tx" where
  "take_turn_result w req found =
     (case (sr_turn_result req, found) of
        (Some result, Some session) \<Rightarrow>
          tx_bind (tx_read (session_row (tr_session_id result))) (\<lambda>row.
          case row of
            None \<Rightarrow> tx_ret (None, None, False)
          | Some s \<Rightarrow>
              if s_worker_id s = Some w
              then tx_bind (process_turn_result_in_tx s result) (\<lambda>_. tx_ret (Some session, Some s, False))
              else tx_ret (None, None, True))
      | _ \<Rightarrow> tx_ret (found, None, False))"

definition result_body ::
  "string \<Rightarrow> sync_request \<Rightarrow> session option \<Rightarrow> session option \<Rightarrow> bool \<Rightarrow> (string, result_flags) tx" where
  "result_body w req found parent should_notify =
     tx_bind (take_turn_result w req found) (\<lambda>(kept, child, stale).
     tx_bind (case kept of
         None \<Rightarrow> tx_ret ()
       | Some session \<Rightarrow> if should_notify then turn_complete parent session child else tx_ret ()) (\<lambda>_.
     tx_bind (case sr_command_ack req of
         None \<Rightarrow> tx_ret StaleToken
       | Some token \<Rightarrow> tx_map_err (\<lambda>e. ''command_ack failed: '' @ e) (process_command_ack_in_tx w token)) (\<lambda>ack.
     tx_ret \<lparr>rf_turn_session = kept, rf_terminal_cancel = (ack = Applied True),
       rf_ack_stale = (ack = StaleWorker), rf_turn_stale = stale\<rparr>)))"

text \<open>The reads before it.\<close>

definition should_notify :: "sync_request \<Rightarrow> bool" where
  "should_notify req =
     (case (sr_executor_report req, sr_turn_result req) of
        (Some report, Some result) \<Rightarrow> er_executor_state report = ''idle'' \<and>
          er_session_id report = tr_session_id result \<and> tr_messages result \<noteq> []
      | _ \<Rightarrow> False)"

definition find_turn_session :: "sync_request \<Rightarrow> node \<Rightarrow> session option \<times> bool \<times> node" where
  "find_turn_session req nd =
     (case sr_turn_result req of
        None \<Rightarrow> (None, False, nd)
      | Some result \<Rightarrow>
          (case session_row (tr_session_id result) (nd_db nd) of
             None \<Rightarrow> (None, False, nd)
           | Some s \<Rightarrow> if s_worker_id s = Some (sr_worker_id req) then (Some s, False, nd)
               else (None, True, kill (sr_worker_id req) nd)))"

definition parent_to_notify :: "sync_request \<Rightarrow> session option \<Rightarrow> db \<Rightarrow> session option" where
  "parent_to_notify req found db =
     (case found of
        None \<Rightarrow> None
      | Some s \<Rightarrow>
          if should_notify req \<and> s_outcome s = None \<and> s_desired s = DRun then
            (case s_parent_session_id s of
               None \<Rightarrow> None
             | Some pid \<Rightarrow>
                 (case (session_row pid db, execution_row (s_execution_id s) db) of
                    (Some p, Some x) \<Rightarrow>
                      if s_outcome p = None \<and> x_desired x \<noteq> DTerminate \<and> x_outcome x = None
                      then Some p else None
                  | _ \<Rightarrow> None))
          else None)"

definition result_execution :: "sync_request \<Rightarrow> session option \<Rightarrow> db \<Rightarrow> string option" where
  "result_execution req found db =
     (case found of
        Some s \<Rightarrow> Some (s_execution_id s)
      | None \<Rightarrow> Option.bind (sr_command_ack req) (\<lambda>token. map_option s_execution_id (by_token token db)))"

text \<open>\<open>Inl\<close>: the transaction failed, the request is answered with an error.\<close>

definition run_result_tx :: "string \<Rightarrow> (string, result_flags) tx \<Rightarrow> db \<Rightarrow> (string + result_flags) \<times> db" where
  "run_result_tx eid body =
     run_tx (\<lambda>e. Inl (show_error e)) eid (tx_map_err Inl (tx_bind body (\<lambda>f. tx_ret (Inr f))))"

definition result_stage :: "sync_env \<Rightarrow> sync_request \<Rightarrow> node \<Rightarrow> (string + bool) \<times> node" where
  "result_stage se req nd =
     (if sr_turn_result req = None \<and> sr_command_ack req = None then (Inr False, nd)
      else case find_turn_session req nd of (found, stale, nd1) \<Rightarrow>
        let w = sr_worker_id req; parent = parent_to_notify req found (nd_db nd1) in
        (case result_execution req found (nd_db nd1) of
           None \<Rightarrow> (Inr stale, nd1)
         | Some eid \<Rightarrow>
             let nd2 = sy_between se nd1 in
             (case run_result_tx eid (result_body w req found parent (should_notify req)) (nd_db nd2) of
                (Inl e, d) \<Rightarrow> (Inl e, nd2\<lparr>nd_db := d\<rparr>)
              | (Inr f, d) \<Rightarrow>
                  (Inr (stale \<or> rf_ack_stale f \<or> rf_turn_stale f \<or> rf_terminal_cancel f),
                   if rf_ack_stale f \<or> rf_turn_stale f then kill w (nd2\<lparr>nd_db := d\<rparr>) else nd2\<lparr>nd_db := d\<rparr>))))"

section \<open>Finding the next command\<close>

datatype reconciler_result =
    RCommand string command_action
  | RNoAction
  | RPending
  | RNothing

text \<open>\<open>run_reconciler_for_session\<close>: at most two looks, the second after a repair.\<close>

fun session_passes ::
  "nat \<Rightarrow> nat \<Rightarrow> rec_env \<Rightarrow> string \<Rightarrow> string \<Rightarrow> node \<Rightarrow> (reconciler_result \<times> node) option" where
  "session_passes 0 fuel env w sid nd = Some (RNoAction, nd)"
| "session_passes (Suc n) fuel env w sid nd =
     (case session_row sid (nd_db nd) of
        None \<Rightarrow> Some (RNothing, nd)
      | Some s \<Rightarrow>
          if s_worker_id s \<noteq> Some w then Some (RNothing, nd)
          else case look fuel env s True (Some w) nd of
            None \<Rightarrow> None
          | Some (None, nd') \<Rightarrow> Some (RNothing, nd')
          | Some (Some (Inr (SendCommand t a)), nd') \<Rightarrow> Some (RCommand t a, nd')
          | Some (Some (Inr PendingCommand), nd') \<Rightarrow> Some (RPending, nd')
          | Some (Some (Inr Repaired), nd') \<Rightarrow> session_passes n fuel env w sid nd'
          | Some (Some _, nd') \<Rightarrow> Some (RNoAction, nd'))"

definition run_reconciler_for_session ::
  "nat \<Rightarrow> rec_env \<Rightarrow> string \<Rightarrow> string \<Rightarrow> node \<Rightarrow> (reconciler_result \<times> node) option" where
  "run_reconciler_for_session = session_passes 2"

text \<open>One pass over the worker's sessions: the command found, any repair, any command pending.\<close>

fun assigned_pass ::
  "nat \<Rightarrow> rec_env \<Rightarrow> string \<Rightarrow> session list \<Rightarrow> bool \<Rightarrow> bool \<Rightarrow> node \<Rightarrow>
   ((string \<times> command_action) option \<times> bool \<times> bool \<times> node) option" where
  "assigned_pass fuel env w [] repaired pending nd = Some (None, repaired, pending, nd)"
| "assigned_pass fuel env w (s # ss) repaired pending nd =
     (case look fuel env s True (Some w) nd of
        None \<Rightarrow> None
      | Some (r, nd') \<Rightarrow>
          (case r of
             Some (Inr (SendCommand t a)) \<Rightarrow> Some (Some (t, a), repaired, pending, nd')
           | Some (Inr Repaired) \<Rightarrow> assigned_pass fuel env w ss True pending nd'
           | Some (Inr PendingCommand) \<Rightarrow> assigned_pass fuel env w ss repaired True nd'
           | _ \<Rightarrow> assigned_pass fuel env w ss repaired pending nd'))"

fun assigned_passes ::
  "nat \<Rightarrow> nat \<Rightarrow> rec_env \<Rightarrow> string \<Rightarrow> bool \<Rightarrow> node \<Rightarrow> (reconciler_result \<times> node) option" where
  "assigned_passes 0 fuel env w pending nd = Some (if pending then RPending else RNoAction, nd)"
| "assigned_passes (Suc n) fuel env w pending nd =
     (case assigned_pass fuel env w (find_sessions_for_worker w (nd_db nd)) False pending nd of
        None \<Rightarrow> None
      | Some (Some (t, a), _, _, nd') \<Rightarrow> Some (RCommand t a, nd')
      | Some (None, repaired, pending', nd') \<Rightarrow>
          if repaired then assigned_passes n fuel env w pending' nd'
          else Some (if pending' then RPending else RNoAction, nd'))"

text \<open>A free worker is offered the oldest unassigned session with work.\<close>

definition offer_unassigned ::
  "nat \<Rightarrow> rec_env \<Rightarrow> string \<Rightarrow> node \<Rightarrow> ((string \<times> command_action) option \<times> node) option" where
  "offer_unassigned fuel env w nd =
     (case find_unassigned_with_work (nd_db nd) of
        None \<Rightarrow> Some (None, nd)
      | Some s \<Rightarrow>
          (case look fuel env s True (Some w) nd of
             None \<Rightarrow> None
           | Some (Some (Inr (SendCommand t a)), nd') \<Rightarrow> Some (Some (t, a), nd')
           | Some (_, nd') \<Rightarrow> Some (None, nd')))"

text \<open>Without work, it looks after the sessions of others; \<open>True\<close> when one was changed.\<close>

definition worker_silent :: "string \<Rightarrow> node \<Rightarrow> bool" where
  "worker_silent v nd =
     (case nd_heartbeats nd v of Some seen \<Rightarrow> silent seen nd | None \<Rightarrow> silent (nd_started_at nd) nd)"

definition look_after :: "nat \<Rightarrow> rec_env \<Rightarrow> session \<Rightarrow> node \<Rightarrow> (bool \<times> node) option" where
  "look_after fuel env s nd =
     map_option (\<lambda>(r, nd'). (r = Some (Inr Mutated) \<or> r = Some (Inr Repaired), nd'))
       (look fuel env s False None nd)"

definition global_look :: "nat \<Rightarrow> rec_env \<Rightarrow> string \<Rightarrow> session \<Rightarrow> node \<Rightarrow> (bool \<times> node) option" where
  "global_look fuel env w s nd =
     (if s_worker_id s = Some w then Some (False, nd)
      else case s_worker_id s of
        Some v \<Rightarrow>
          if worker_silent v nd then Some (True, lose_worker (re_env env) s v nd)
          else if s_outcome s = None \<and> \<not> (s_command_token s \<noteq> None \<or> s_desired s = DTerminate \<or>
             s_executor_state s = Crashed) then Some (False, nd)
          else look_after fuel env s nd
      | None \<Rightarrow>
          if s_outcome s = None \<and> s_desired s \<noteq> DTerminate \<and> s_executor_state s \<noteq> Crashed
          then Some (False, nd) else look_after fuel env s nd)"

fun global_pass :: "nat \<Rightarrow> rec_env \<Rightarrow> string \<Rightarrow> session list \<Rightarrow> bool \<Rightarrow> node \<Rightarrow> (bool \<times> node) option" where
  "global_pass fuel env w [] changed nd = Some (changed, nd)"
| "global_pass fuel env w (s # ss) changed nd =
     (case global_look fuel env w s nd of
        None \<Rightarrow> None
      | Some (c, nd') \<Rightarrow> global_pass fuel env w ss (changed \<or> c) nd')"

definition run_reconciler_for_worker ::
  "nat \<Rightarrow> rec_env \<Rightarrow> string \<Rightarrow> node \<Rightarrow> (reconciler_result \<times> node) option" where
  "run_reconciler_for_worker fuel env w nd =
     (if find_sessions_for_worker w (nd_db nd) \<noteq> [] then assigned_passes 2 fuel env w False nd
      else case offer_unassigned fuel env w nd of
        None \<Rightarrow> None
      | Some (Some (t, a), nd') \<Rightarrow> Some (RCommand t a, nd')
      | Some (None, nd') \<Rightarrow>
          map_option (\<lambda>(c, nd''). (if c then RNoAction else RNothing, nd''))
            (global_pass fuel env w (find_reconcilable (nd_db nd')) False nd'))"

section \<open>The handler\<close>

fun response_of :: "reconciler_result \<Rightarrow> sync_response" where
  "response_of (RCommand t a) = Command t a"
| "response_of _ = SyncNoAction"

definition long_poll :: "nat \<Rightarrow> sync_env \<Rightarrow> string \<Rightarrow> node \<Rightarrow> (sync_response \<times> node) option" where
  "long_poll fuel se w nd =
     (if sy_long_poll_secs se = 0 then Some (SyncNoAction, nd)
      else case run_reconciler_for_worker fuel (sy_rec se 1) w nd of
        None \<Rightarrow> None
      | Some (RCommand t a, nd') \<Rightarrow> Some (Command t a, nd')
      | Some (RPending, nd') \<Rightarrow> Some (SyncNoAction, nd')
      | Some (_, nd') \<Rightarrow>
          map_option (\<lambda>(r, nd''). (response_of r, nd''))
            (run_reconciler_for_worker fuel (sy_rec se 2) w (heard_from w (sy_wait se nd'))))"

definition next_command :: "nat \<Rightarrow> sync_env \<Rightarrow> sync_request \<Rightarrow> node \<Rightarrow> (sync_response \<times> node) option" where
  "next_command fuel se req nd =
     (case run_reconciler_for_worker fuel (sy_rec se 0) (sr_worker_id req) nd of
        None \<Rightarrow> None
      | Some (RCommand t a, nd') \<Rightarrow> Some (Command t a, nd')
      | Some (RPending, nd') \<Rightarrow> Some (SyncNoAction, nd')
      | Some (_, nd') \<Rightarrow>
          if sr_command_ack req \<noteq> None \<or> sr_turn_result req \<noteq> None then Some (SyncNoAction, nd')
          else long_poll fuel se (sr_worker_id req) nd')"

definition worker_sync ::
  "nat \<Rightarrow> sync_env \<Rightarrow> sync_request \<Rightarrow> node \<Rightarrow> ((string + sync_response) \<times> node) option" where
  "worker_sync fuel se req nd =
     (case report_stage (sy_env se) req (heard_from (sr_worker_id req) nd) of (skip, scoped, nd1) \<Rightarrow>
      case result_stage se req nd1 of
        (Inl e, nd2) \<Rightarrow> Some (Inl e, nd2)
      | (Inr skip2, nd2) \<Rightarrow>
          if skip \<or> skip2 then Some (Inr SyncNoAction, nd2)
          else map_option (\<lambda>(r, nd3). (Inr r, nd3))
            (case scoped of
               Some sid \<Rightarrow> map_option (\<lambda>(r, nd3). (response_of r, nd3))
                 (run_reconciler_for_session fuel (sy_rec se 0) (sr_worker_id req) sid nd2)
             | None \<Rightarrow> next_command fuel se req nd2))"

section \<open>Messages during a turn\<close>

record worker_message =
  wm_worker_id :: string
  wm_session_id :: string
  wm_execution_id :: string
  wm_msg_seq :: int
  wm_payload :: json
  wm_ephemeral :: bool

datatype event_status = EventOk | EventCreated | EventMissing | EventError string

datatype stream_note =
    Persisted string int
  | Ephemeral string string int json

text \<open>Aborts carry the answer: the session has another worker, or is gone.\<close>

definition event_body ::
  "worker_message \<Rightarrow> (string + (bool + (int \<times> timestamp) option), string + (bool + (int \<times> timestamp) option)) tx" where
  "event_body msg =
     tx_bind (tx_read (session_row (wm_session_id msg))) (\<lambda>row.
     case row of
       None \<Rightarrow> tx_abort (Inr (Inl False))
     | Some s \<Rightarrow>
         if s_worker_id s \<noteq> Some (wm_worker_id msg) then tx_abort (Inr (Inl True)) else
         tx_bind (tx_map_err (\<lambda>e. Inl (''insert event: '' @ show_error e))
           (insert_with_dedup_in_tx (wm_session_id msg) EvMessage (to_string (wm_payload msg)) (wm_msg_seq msg))) (\<lambda>r.
         tx_ret (Inr (Inr r))))"

text \<open>\<open>worker_event\<close>; \<open>pre\<close> is what the first read of the session saw.\<close>

definition worker_event :: "db \<Rightarrow> worker_message \<Rightarrow> node \<Rightarrow> event_status \<times> stream_note option \<times> node" where
  "worker_event pre msg nd =
     (case session_row (wm_session_id msg) pre of
        None \<Rightarrow> (EventMissing, None, nd)
      | Some s \<Rightarrow>
          let w = wm_worker_id msg; eid = s_execution_id s in
          if s_worker_id s \<noteq> Some w then (EventOk, None, kill w nd)
          else if wm_ephemeral msg then
            (case session_row (wm_session_id msg) (nd_db nd) of
               None \<Rightarrow> (EventOk, None, nd)
             | Some o' \<Rightarrow> if s_worker_id o' \<noteq> Some w then (EventOk, None, kill w nd)
                 else (EventCreated,
                   Some (Ephemeral eid (wm_session_id msg) (wm_msg_seq msg) (wm_payload msg)), nd))
          else (case run_tx (\<lambda>e. Inl (''insert event: '' @ show_error e)) eid (event_body msg) (nd_db nd) of
               (Inl e, d) \<Rightarrow> (EventError e, None, nd\<lparr>nd_db := d\<rparr>)
             | (Inr (Inl stale), d) \<Rightarrow>
                 (EventOk, None, (if stale then kill w nd else nd)\<lparr>nd_db := d\<rparr>)
             | (Inr (Inr r), d) \<Rightarrow>
                 (EventCreated, map_option (\<lambda>(i, _). Persisted eid i) r, nd\<lparr>nd_db := d\<rparr>)))"

end
