(* ===== verification/Transition_Facts.thy ===== *)
theory Transition_Facts
  imports Transition
begin

text \<open>
  What the session state machine guarantees: every operation of \<open>Transition\<close> is a step
  (rows keep identity and outcome, the log grows, well-formedness stays), a failed one changes
  nothing, and the functional behaviour of each.
\<close>

section \<open>Every body is a step\<close>

lemmas row_defs = session_step_def session_wf_def clear_command_def terminate_row_def desired_row_def

lemma step_write_execution_terminal: "tx_keeps tx_step (write_execution_terminal_in_tx eid oc)"
  unfolding write_execution_terminal_in_tx_def
  by (intro step_rules) (auto simp: execution_step_def execution_wf_def)

lemma step_resume_parent: "tx_keeps tx_step (resume_parent h pid who)"
  unfolding resume_parent_def
  by (intro step_rules) (auto simp: row_defs)

lemma step_parent_notification:
  "tx_keeps tx_step (write_parent_notification_in_tx session pid ty)"
  unfolding write_parent_notification_in_tx_def
  by (intro step_rules step_resume_parent) auto

lemma step_notify_option: "tx_keeps tx_step (notify_option session parent ty)"
  unfolding notify_option_def by (intro step_rules step_parent_notification)

lemma step_terminate_body: "tx_keeps tx_step (terminate_body session parent desired_by)"
  unfolding terminate_body_def
  by (intro step_rules step_notify_option step_write_execution_terminal)
    (auto simp: row_defs)

lemma step_stop_body: "tx_keeps tx_step (stop_body session parent desired_by)"
  unfolding stop_body_def
  by (intro step_rules step_notify_option) (auto simp: row_defs)

lemma step_run_body: "tx_keeps tx_step (run_body session desired_by)"
  unfolding run_body_def
  by (intro step_rules) (auto simp: row_defs)

lemma step_resolution_guard: "tx_keeps tx_step (resolution_guard env m)"
  by (auto simp: tx_keeps_def resolution_guard_def step.R_refl split: option.splits if_splits)

lemma step_failpoint: "tx_keeps tx_step (test_failpoint env site)"
  unfolding test_failpoint_def by (intro step_rules)

lemma step_write_marker: "tx_keeps tx_step (write_marker env m i ts)"
  unfolding write_marker_def by (intro step_rules step_failpoint)

lemma step_touch: "tx_keeps tx_step tx_touch_last_activity"
  unfolding tx_touch_last_activity_def
  by (intro step_rules) (auto simp: execution_step_def execution_wf_def)

lemma step_send_body: "tx_keeps tx_step (send_body env session args)"
  unfolding send_body_def resume_receiver_def emit_delivered_def note_user_activity_def
  by (intro step_rules step_resolution_guard step_write_marker step_failpoint step_touch)
    (auto simp: row_defs)

lemma step_state_event: "tx_keeps tx_step (state_event sid p)"
  unfolding state_event_def by (intro step_rules)

lemma step_platform_event: "tx_keeps tx_step (platform_event sid p)"
  unfolding platform_event_def by (intro step_rules)

lemma step_report_update:
  assumes "\<And>now s. session_step s (f now s)" and "\<And>now s. session_wf s \<Longrightarrow> session_wf (f now s)"
  shows "tx_keeps tx_step (report_update sid worker f)"
  unfolding report_update_def by (intro step_rules assms)

lemma step_executor_body: "tx_keeps tx_step (executor_body session st worker meta)"
  unfolding executor_body_def Let_def
  by (cases st; simp; intro step_rules step_state_event step_platform_event step_report_update)
    (auto simp: row_defs)

lemma step_fail_body: "tx_keeps tx_step (fail_body session desired_by rc)"
  unfolding fail_body_def
  by (intro step_rules step_state_event step_write_execution_terminal)
    (auto simp: row_defs)

lemma step_crash_body: "tx_keeps tx_step (crash_body session)"
  unfolding crash_body_def
  by (intro step_rules step_state_event) (auto simp: row_defs)

lemma step_retry_body: "tx_keeps tx_step (retry_body session)"
  unfolding retry_body_def
  by (intro step_rules step_state_event step_platform_event) (auto simp: row_defs)

section \<open>A failed operation changes nothing\<close>

lemma commits_ok_terminate_body: "commits_ok (terminate_body session parent desired_by)"
  unfolding terminate_body_def by (intro commits_ok_bind commits_ok_ret)

lemma commits_ok_stop_body: "commits_ok (stop_body session parent desired_by)"
  unfolding stop_body_def by (intro commits_ok_bind commits_ok_ret)

lemma commits_ok_run_body: "commits_ok (run_body session desired_by)"
  unfolding run_body_def by (intro commits_ok_bind commits_ok_ret)

lemma commits_ok_send_body: "commits_ok (send_body env session args)"
  unfolding send_body_def by (intro commits_ok_bind commits_ok_prod commits_ok_ret)

lemma commits_ok_executor_body: "commits_ok (executor_body session st worker meta)"
  unfolding executor_body_def Let_def by (intro commits_ok_bind commits_ok_ret)

lemma commits_ok_fail_body: "commits_ok (fail_body session desired_by rc)"
  unfolding fail_body_def by (intro commits_ok_bind commits_ok_ret)

lemma commits_ok_crash_body: "commits_ok (crash_body session)"
  unfolding crash_body_def by (intro commits_ok_bind commits_ok_ret)

lemma commits_ok_retry_body: "commits_ok (retry_body session)"
  unfolding retry_body_def by (intro commits_ok_bind commits_ok_ret)

lemmas commits_ok_bodies = commits_ok_terminate_body commits_ok_stop_body commits_ok_run_body
  commits_ok_send_body commits_ok_executor_body commits_ok_fail_body commits_ok_crash_body
  commits_ok_retry_body

lemmas step_bodies = step_terminate_body step_stop_body step_run_body step_send_body
  step_executor_body step_fail_body step_crash_body step_retry_body

lemmas op_bodies =
  op_ok_tx [OF step_terminate_body commits_ok_terminate_body]
  op_ok_tx [OF step_stop_body commits_ok_stop_body]
  op_ok_tx [OF step_run_body commits_ok_run_body]
  op_ok_tx [OF step_send_body commits_ok_send_body]
  op_ok_tx [OF step_executor_body commits_ok_executor_body]
  op_ok_tx [OF step_fail_body commits_ok_fail_body]
  op_ok_tx [OF step_crash_body commits_ok_crash_body]
  op_ok_tx [OF step_retry_body commits_ok_retry_body]

lemma op_set_desired: "op_ok db (set_desired pre session d desired_by db)"
  unfolding set_desired_def Let_def by (cases d) (auto intro!: op_ok_none op_bodies)

lemma op_send_message: "op_ok db (send_message env pre session args db)"
  unfolding send_message_def by (auto intro!: op_ok_none op_bodies split: sum.splits)

lemma op_set_executor_state: "op_ok db (set_executor_state session st worker meta db)"
  unfolding set_executor_state_def by (auto intro!: op_ok_none op_bodies)

lemma op_terminate_failed: "op_ok db (terminate_failed session desired_by rc db)"
  unfolding terminate_failed_def by (auto intro!: op_ok_none op_bodies)

lemma op_detect_crash: "op_ok db (detect_crash session db)"
  unfolding detect_crash_def by (rule op_bodies)

lemma op_retry_recovery: "op_ok db (retry_recovery session db)"
  unfolding retry_recovery_def by (rule op_bodies)

lemma op_no_event: "op_ok db p \<Longrightarrow> op_ok db (no_event p)"
  by (cases p) (auto simp: op_ok_def no_event_def split: sum.splits)

lemma op_terminate_session: "op_ok db (terminate_session pre eid sid who db)"
  unfolding terminate_session_def by (auto intro!: op_ok_none op_set_desired split: sum.splits)

lemma op_terminate_session_failed: "op_ok db (terminate_session_failed pre eid sid who rc db)"
  unfolding terminate_session_failed_def by (auto intro!: op_ok_none op_terminate_failed split: sum.splits)

lemma op_transition: "op_ok db (transition env pre eid sid a db)"
proof (cases a)
  case (SendMessage args)
  show ?thesis
    unfolding transition_def SendMessage
    using op_send_message [of db env pre _ args]
    by (auto simp: op_ok_def split: sum.splits prod.splits) (metis fst_conv snd_conv)+
qed (auto simp: transition_def intro!: op_ok_none op_no_event op_set_desired op_set_executor_state
      op_detect_crash op_retry_recovery split: sum.splits)

lemma frame_notify_option: "tx_keeps same_executions (notify_option session parent ty)"
  unfolding notify_option_def write_parent_notification_in_tx_def resume_parent_def
  by (intro frame_rules)

lemma write_execution_terminal_sets:
  assumes "write_execution_terminal_in_tx eid oc t = Inr (w, t')" and "execution_row eid (tx_db t) = Some x"
  shows "\<exists>x'. execution_row eid (tx_db t') = Some x' \<and>
    x_outcome x' = (if x_outcome x = None then Some oc else x_outcome x) \<and>
    (x_outcome x = None \<longrightarrow> x_desired x' = DTerminate)"
  using assms
  by (auto simp: write_execution_terminal_in_tx_def tx_iffs insert_in_tx_db execution_row_update
      dest: execution_rowD split: if_splits)

lemma terminate_body_parts:
  assumes "terminate_body session parent who t = Inr (r, t')"
    and cur: "session_row (s_id session) (tx_db t) = Some cur"
    and oc: "oc = (if is_quiescent cur (count_pending_turns (s_id session) (tx_db t)) then Completed else Canceled)"
  obtains t1 t2 where
    "s_desired cur \<noteq> DTerminate"
    "t1 = tx_put (update_sessions (\<lambda>s. s_id s = s_id session \<and> s_desired s \<noteq> DTerminate) (terminate_row oc who) (tx_db t)) t"
    "tx_step t1 t2" "executions (tx_db t2) = executions (tx_db t)"
    "if s_parent_session_id session = None
     then \<exists>eo w. derive_execution_outcome (s_execution_id session) (tx_db t) = Inr eo \<and>
       write_execution_terminal_in_tx (s_execution_id session) eo t2 = Inr (w, t')
     else t' = t2"
proof -
  let ?t1 = "tx_put (update_sessions (\<lambda>s. s_id s = s_id session \<and> s_desired s \<noteq> DTerminate) (terminate_row oc who) (tx_db t)) t"
  from assms(1) obtain p e ta t2 where live: "s_desired cur \<noteq> DTerminate"
    and ins: "insert_in_tx (Some (s_id session)) EvStateChange p ?t1 = Inr (e, ta)"
    and ntf: "notify_option session parent ''child_terminated'' ta = (Inr ((), t2) :: (rejected + unit) + unit \<times> exec_tx)"
    and last: "if s_parent_session_id session = None
     then \<exists>eo w. derive_execution_outcome (s_execution_id session) (tx_db t) = Inr eo \<and>
       write_execution_terminal_in_tx (s_execution_id session) eo t2 = Inr (w, t')
     else t' = t2"
    by (auto simp: terminate_body_def tx_iffs cur get_session_def oc
        split: if_splits sum.splits option.splits) (blast+)?
  have "tx_step ?t1 t2"
    using tx_keepsD [OF step_insert_in_tx ins] tx_keepsD [OF step_notify_option ntf] by (rule step.R_trans)
  moreover have "executions (tx_db t2) = executions (tx_db t)"
    using tx_keepsD [OF frame_insert_in_tx ins] tx_keepsD [OF frame_notify_option ntf]
    by (simp add: same_executions_def)
  ultimately show thesis using live last by (intro that [OF _ refl]) auto
qed

section \<open>A terminal root closes its execution\<close>

definition closed_exec :: "string \<Rightarrow> db \<Rightarrow> bool" where
  "closed_exec eid d \<longleftrightarrow> (\<exists>x. execution_row eid d = Some x \<and> x_outcome x \<noteq> None)"

definition roots_closed :: "db \<Rightarrow> bool" where
  "roots_closed d \<longleftrightarrow>
     (\<forall>i s. session_row i d = Some s \<and> s_parent_session_id s = None \<and> s_outcome s \<noteq> None \<longrightarrow>
        closed_exec (s_execution_id s) d)"

lemma closed_exec_evolves: "closed_exec eid d \<Longrightarrow> db_wf d \<Longrightarrow> evolves d d' \<Longrightarrow> closed_exec eid d'"
  by (auto simp: closed_exec_def execution_step_def dest!: evolves_execution)

lemma roots_closed_ended:
  assumes "roots_closed d" and "db_wf d" and ev: "evolves d d'" and "ended_within A d d'"
    and A: "\<And>i s'. i \<in> A \<Longrightarrow> session_row i d' = Some s' \<Longrightarrow> s_parent_session_id s' = None \<Longrightarrow>
        closed_exec (s_execution_id s') d'"
  shows "roots_closed d'"
  unfolding roots_closed_def
proof (intro allI impI)
  fix i s' assume s': "session_row i d' = Some s' \<and> s_parent_session_id s' = None \<and> s_outcome s' \<noteq> None"
  show "closed_exec (s_execution_id s') d'"
  proof (cases "i \<in> A")
    case True
    with A s' show ?thesis by blast
  next
    case False
    with s' assms(4) obtain s where s: "session_row i d = Some s" "s_outcome s \<noteq> None"
      by (auto simp: ended_within_def)
    with evolves_session [OF ev s(1)] s' have eqs: "s_execution_id s' = s_execution_id s" "s_parent_session_id s = None"
      by (auto simp: session_step_def)
    with s assms(1) have "closed_exec (s_execution_id s) d" by (auto simp: roots_closed_def)
    with assms(2) ev show ?thesis unfolding eqs by (blast intro: closed_exec_evolves)
  qed
qed

lemma ended_resume_parent: "tx_keeps (\<lambda>t t'. ended_within A (tx_db t) (tx_db t')) (resume_parent h pid who)"
  unfolding resume_parent_def by (intro ended_rules) (auto simp: desired_row_def)

lemma ended_notify_option:
  "tx_keeps (\<lambda>t t'. ended_within A (tx_db t) (tx_db t')) (notify_option session parent ty)"
  unfolding notify_option_def write_parent_notification_in_tx_def
  by (intro ended_rules ended_resume_parent)

lemma ended_write_execution_terminal:
  "tx_keeps (\<lambda>t t'. ended_within A (tx_db t) (tx_db t')) (write_execution_terminal_in_tx eid oc)"
  unfolding write_execution_terminal_in_tx_def by (intro ended_rules)

lemma ended_events:
  "tx_keeps (\<lambda>t t'. ended_within A (tx_db t) (tx_db t')) (state_event sid p)"
  "tx_keeps (\<lambda>t t'. ended_within A (tx_db t) (tx_db t')) (platform_event sid p)"
  unfolding state_event_def platform_event_def by (intro ended_rules)+

lemma ended_report_update:
  "(\<And>now s. s_id (f now s) = s_id s) \<Longrightarrow> (\<And>now s. s_outcome (f now s) = s_outcome s) \<Longrightarrow>
   tx_keeps (\<lambda>t t'. ended_within A (tx_db t) (tx_db t')) (report_update sid worker f)"
  unfolding report_update_def by (intro ended_rules) auto

lemma ended_write_marker:
  "tx_keeps (\<lambda>t t'. ended_within A (tx_db t) (tx_db t')) (write_marker env m i ts)"
  unfolding write_marker_def test_failpoint_def by (intro ended_rules)

lemma ended_resolution_guard:
  "tx_keeps (\<lambda>t t'. ended_within A (tx_db t) (tx_db t')) (resolution_guard env m)"
  by (auto simp: tx_keeps_def resolution_guard_def ended.R_refl split: option.splits if_splits)

lemmas ended_parts = ended_rules ended_notify_option ended_write_execution_terminal ended_events
  ended_report_update ended_write_marker ended_resolution_guard

lemma ended_terminate_body:
  "tx_keeps (\<lambda>t t'. ended_within {s_id session} (tx_db t) (tx_db t')) (terminate_body session parent who)"
  unfolding terminate_body_def by (intro ended_parts) (auto simp: terminate_row_def)

lemma ended_fail_body:
  "tx_keeps (\<lambda>t t'. ended_within {s_id session} (tx_db t) (tx_db t')) (fail_body session who rc)"
  unfolding fail_body_def by (intro ended_parts) (auto simp: terminate_row_def)

lemma ended_stop_body:
  "tx_keeps (\<lambda>t t'. ended_within A (tx_db t) (tx_db t')) (stop_body session parent who)"
  unfolding stop_body_def by (intro ended_parts) (auto simp: desired_row_def)

lemma ended_run_body:
  "tx_keeps (\<lambda>t t'. ended_within A (tx_db t) (tx_db t')) (run_body session who)"
  unfolding run_body_def by (intro ended_parts) (auto simp: desired_row_def)

lemma ended_send_body:
  "tx_keeps (\<lambda>t t'. ended_within A (tx_db t) (tx_db t')) (send_body env session args)"
  unfolding send_body_def resume_receiver_def emit_delivered_def note_user_activity_def
    tx_touch_last_activity_def test_failpoint_def
  by (intro ended_parts) (auto simp: desired_row_def)

lemma ended_executor_body:
  "tx_keeps (\<lambda>t t'. ended_within A (tx_db t) (tx_db t')) (executor_body session st worker meta)"
  unfolding executor_body_def Let_def
  by (cases st; simp; intro ended_parts) (auto simp: clear_command_def)

lemma ended_crash_body:
  "tx_keeps (\<lambda>t t'. ended_within A (tx_db t) (tx_db t')) (crash_body session)"
  unfolding crash_body_def by (intro ended_parts) (auto simp: clear_command_def)

lemma ended_retry_body:
  "tx_keeps (\<lambda>t t'. ended_within A (tx_db t) (tx_db t')) (retry_body session)"
  unfolding retry_body_def by (intro ended_parts) auto

lemma write_terminal_closes:
  assumes "write_execution_terminal_in_tx eid oc t = Inr (w, t')" and "execution_row eid (tx_db t) \<noteq> None"
  shows "closed_exec eid (tx_db t')"
  using assms write_execution_terminal_sets [OF assms(1)]
  by (fastforce simp: closed_exec_def split: if_splits)

lemma execution_row_step: "tx_step t t' \<Longrightarrow> execution_row i (tx_db t) \<noteq> None \<Longrightarrow> execution_row i (tx_db t') \<noteq> None"
  by (auto simp: tx_step_def dest!: evolves_execution)

lemma terminate_body_closes:
  assumes "terminate_body session parent who t = Inr (r, t')" and "s_parent_session_id session = None"
    and "execution_row (s_execution_id session) (tx_db t) \<noteq> None"
  shows "closed_exec (s_execution_id session) (tx_db t')"
proof -
  from assms(1) obtain cur where "session_row (s_id session) (tx_db t) = Some cur"
    by (auto simp: terminate_body_def tx_iffs)
  then show ?thesis
  proof (rule terminate_body_parts [OF assms(1) _ refl])
    fix t1 t2
    assume t1: "t1 = tx_put (update_sessions (\<lambda>s. s_id s = s_id session \<and> s_desired s \<noteq> DTerminate)
        (terminate_row (if is_quiescent cur (count_pending_turns (s_id session) (tx_db t))
           then Completed else Canceled) who) (tx_db t)) t"
      and "tx_step t1 t2" "executions (tx_db t2) = executions (tx_db t)"
      and w: "if s_parent_session_id session = None
     then \<exists>eo w. derive_execution_outcome (s_execution_id session) (tx_db t) = Inr eo \<and>
       write_execution_terminal_in_tx (s_execution_id session) eo t2 = Inr (w, t')
     else t' = t2"
    have "execution_row (s_execution_id session) (tx_db t2) \<noteq> None"
      by (rule execution_row_step [OF \<open>tx_step t1 t2\<close>]) (use assms(3) t1 in simp)
    with w assms(2) show ?thesis by (auto intro: write_terminal_closes)
  qed
qed

lemma fail_body_closes:
  assumes "fail_body session who rc t = Inr (r, t')" and "s_parent_session_id session = None"
    and ex: "execution_row (s_execution_id session) (tx_db t) \<noteq> None"
  shows "closed_exec (s_execution_id session) (tx_db t')"
proof -
  from assms(1,2) obtain P t2 w where
      ev: "state_event (s_id session) (JObj [(''desired'', JStr ''terminate''), (''outcome'', JStr ''failed''),
          (''desired_by'', JStr who)]) (tx_put (update_sessions P (terminate_row Failed who) (tx_db t)) t)
        = (Inr ((), t2) :: (rejected + unit) + unit \<times> exec_tx)"
    and w: "write_execution_terminal_in_tx (s_execution_id session) Failed t2 = Inr (w, t')"
    by (auto simp: fail_body_def tx_iffs) 
  have "execution_row (s_execution_id session) (tx_db t2) \<noteq> None"
    by (rule execution_row_step [OF tx_keepsD [OF step_state_event ev]]) (use ex in simp)
  then show ?thesis by (rule write_terminal_closes [OF w])
qed

text \<open>Operations that end no session, or only their own.\<close>

lemma roots_closed_run:
  assumes "roots_closed d" and "db_wf d" and "run_tx h eid body d = (r, d')"
    and "tx_keeps tx_step body" and "tx_keeps (\<lambda>t t'. ended_within A (tx_db t) (tx_db t')) body"
    and "\<And>t r t' i s'. body t = Inr (r, t') \<Longrightarrow> tx_db t = d \<Longrightarrow> execution_row eid (tx_db t) \<noteq> None \<Longrightarrow> i \<in> A \<Longrightarrow>
       evolves d (tx_db t') \<Longrightarrow>
       session_row i (tx_db t') = Some s' \<Longrightarrow> s_parent_session_id s' = None \<Longrightarrow>
       closed_exec (s_execution_id s') (tx_db t')"
  shows "roots_closed d'"
  using assms(3)
proof (cases rule: run_tx_cases)
  case unchanged
  with assms(1) show ?thesis by simp
next
  case (committed t t')
  then have ev: "evolves d d'" and "ended_within A d d'"
    using tx_keepsD [OF assms(4) committed(3)] tx_keepsD [OF assms(5) committed(3)]
    by (auto simp: tx_step_def)
  then show ?thesis
    using assms(6) [OF committed(3)] committed
    by (intro roots_closed_ended [OF assms(1,2)]) auto
qed

lemma snapshot_row:
  assumes "session_row i pre = Some s" and "recalls pre d" and "session_row i d = Some c"
    and "evolves d d'" and "session_row i d' = Some s'"
  shows "s_parent_session_id s' = s_parent_session_id s \<and> s_execution_id s' = s_execution_id s"
  using recalls_session [OF assms(2,1,3)] evolves_session [OF assms(4,3)] assms(5)
  by (auto simp: same_place_def session_step_def)

lemma terminate_body_found:
  "terminate_body session parent who t = Inr (r, t') \<Longrightarrow> \<exists>c. session_row (s_id session) (tx_db t) = Some c"
  by (auto simp: terminate_body_def tx_iffs)

lemma fail_body_found:
  assumes "fail_body session who rc t = Inr (r, t')"
  shows "\<exists>c. session_row (s_id session) (tx_db t) = Some c"
proof -
  have "\<exists>s \<in> set (sessions (tx_db t)). s_id s = s_id session"
    using assms by (auto simp: fail_body_def tx_iffs sql_count_pos_iff)
  then have "session_row (s_id session) (tx_db t) \<noteq> None"
    by (auto simp: session_row_def sql_find_None_iff simp del: not_None_eq)
  then show ?thesis by blast
qed

lemma roots_closed_set_desired:
  assumes "roots_closed d" and "db_wf d" and "recalls pre d" and "session_row (s_id session) pre = Some session"
    and "set_desired pre session des who d = (r, d')"
  shows "roots_closed d'"
proof (cases "s_desired session = DTerminate \<or> s_desired session = des")
  case True
  with assms(1,5) show ?thesis by (auto simp: set_desired_def split: if_splits)
next
  case False
  let ?parent = "parent_for_notify pre session des who"
  show ?thesis
  proof (cases des)
    case DRun
    with False assms(5) have "run_tx (begin_failed ''begin run tx failed'') (s_execution_id session)
        (run_body session who) d = (r, d')" by (simp add: set_desired_def)
    from roots_closed_run [OF assms(1,2) this step_run_body ended_run_body [of "{}"]] show ?thesis by simp
  next
    case DStop
    with False assms(5) have "run_tx (begin_failed ''begin stop tx failed'') (s_execution_id session)
        (stop_body session ?parent who) d = (r, d')" by (simp add: set_desired_def)
    from roots_closed_run [OF assms(1,2) this step_stop_body ended_stop_body [of "{}"]] show ?thesis by simp
  next
    case DTerminate
    with False assms(5) have "run_tx (begin_failed ''begin transaction failed'') (s_execution_id session)
        (terminate_body session ?parent who) d = (r, d')" by (simp add: set_desired_def)
    then show ?thesis
      by (rule roots_closed_run [OF assms(1,2) _ step_terminate_body ended_terminate_body])
        (use snapshot_row [OF assms(4,3)] terminate_body_found terminate_body_closes in fastforce)
  qed
qed

lemma roots_closed_terminate_failed:
  assumes "roots_closed d" and "db_wf d" and "recalls pre d" and "session_row (s_id session) pre = Some session"
    and "terminate_failed session who rc d = (r, d')"
  shows "roots_closed d'"
proof (cases "s_desired session = DTerminate")
  case True
  with assms(1,5) show ?thesis by (auto simp: terminate_failed_def split: if_splits)
next
  case False
  with assms(5) have "run_tx (begin_failed ''begin transaction failed'') (s_execution_id session)
      (fail_body session who rc) d = (r, d')" by (simp add: terminate_failed_def)
  then show ?thesis
    by (rule roots_closed_run [OF assms(1,2) _ step_fail_body ended_fail_body])
      (use snapshot_row [OF assms(4,3)] fail_body_found fail_body_closes in fastforce)
qed

lemma roots_closed_terminate_session_failed:
  "roots_closed d \<Longrightarrow> db_wf d \<Longrightarrow> recalls pre d \<Longrightarrow>
   terminate_session_failed pre eid sid who rc d = (r, d') \<Longrightarrow> roots_closed d'"
  by (auto simp: terminate_session_failed_def lookup_def split: sum.splits if_splits
      dest: session_rowD intro: roots_closed_terminate_failed)

lemma roots_closed_transition:
  assumes "roots_closed d" and "db_wf d" and "recalls pre d" and "transition env pre eid sid a d = (r, d')"
  shows "roots_closed d'"
proof (cases "\<exists>s. session_row sid pre = Some s \<and> s_execution_id s = eid")
  case False
  with assms show ?thesis
    by (auto simp: transition_def get_session_def split: sum.splits option.splits if_splits)
next
  case True
  then obtain s where s: "session_row sid pre = Some s" "s_execution_id s = eid" by blast
  with session_rowD have id: "s_id s = sid" by blast
  note run = roots_closed_run [OF assms(1,2)]
  show ?thesis
  proof (cases a)
    case (SetDesired des who)
    with assms(4) s obtain r' where "set_desired pre s des who d = (r', d')"
      by (auto simp: transition_def get_session_def no_event_def split: prod.splits sum.splits)
    with assms s id show ?thesis by (blast intro: roots_closed_set_desired)
  next
    case (SendMessage args)
    with assms(4) s obtain r' where "send_message env pre s args d = (r', d')"
      by (auto simp: transition_def get_session_def split: prod.splits sum.splits)
    then show ?thesis
      using assms(1) run [OF _ step_send_body ended_send_body [of "{}"]]
      by (auto simp: send_message_def split: sum.splits)
  next
    case (SetExecutorState st worker meta)
    with assms(4) s obtain r' where "set_executor_state s st worker meta d = (r', d')"
      by (auto simp: transition_def get_session_def no_event_def split: prod.splits sum.splits)
    then show ?thesis
      using assms(1) run [OF _ step_executor_body ended_executor_body [of "{}"]]
      by (auto simp: set_executor_state_def split: if_splits)
  next
    case DetectCrash
    with assms(4) s obtain r' where "detect_crash s d = (r', d')"
      by (auto simp: transition_def get_session_def no_event_def split: prod.splits sum.splits)
    then show ?thesis
      using run [OF _ step_crash_body ended_crash_body [of "{}"]] by (auto simp: detect_crash_def)
  next
    case RetryRecovery
    with assms(4) s obtain r' where "retry_recovery s d = (r', d')"
      by (auto simp: transition_def get_session_def no_event_def split: prod.splits sum.splits)
    then show ?thesis
      using run [OF _ step_retry_body ended_retry_body [of "{}"]] by (auto simp: retry_recovery_def)
  qed (use assms s in \<open>auto simp: transition_def get_session_def split: sum.splits if_splits\<close>)
qed

end
