(* ===== verification/Reconciler_Facts.thy ===== *)
theory Reconciler_Facts
  imports Reconciler Transition_Facts
begin

text \<open>
  The reconciler takes steps: rows keep identity and outcome, the log grows, well-formedness
  stays, and a terminal root still has a terminal execution.
\<close>

section \<open>Steps without well-formedness\<close>

text \<open>
  The repairs act only on databases that are not well-formed, so for them the part of a step
  that does not speak of well-formedness is shown first.
\<close>

definition raw_step :: "exec_tx \<Rightarrow> exec_tx \<Rightarrow> bool" where
  "raw_step t t' \<longleftrightarrow> tx_execution_id t' = tx_execution_id t \<and> evolves (tx_db t) (tx_db t') \<and>
     appends (tx_db t) (tx_db t')"

interpretation raw: tx_preorder raw_step
  by unfold_locales (auto simp: raw_step_def evolves_refl appends_refl intro: evolves_trans appends_trans)

lemma raw_of_step: "tx_keeps tx_step m \<Longrightarrow> tx_keeps raw_step m"
  by (auto simp: tx_keeps_def raw_step_def tx_step_def)

lemma raw_update_sessions:
  "(\<And>now s. P s \<Longrightarrow> session_step s (f now s)) \<Longrightarrow> tx_keeps raw_step (tx_update_sessions P f)"
  by (auto simp: tx_keeps_def tx_iffs raw_step_def intro!: evolves_update_sessions appends_same)

lemmas raw_rules = raw.keeps raw_update_sessions raw_of_step [OF step_write_execution_terminal]

lemma step_of_raw:
  assumes "tx_keeps raw_step m" and "\<And>t x t'. m t = Inr (x, t') \<Longrightarrow> tx_ok t \<Longrightarrow> tx_step t t'"
  shows "tx_keeps tx_step m"
  using assms by (auto simp: tx_keeps_def raw_step_def tx_step_def)

lemma tx_ok_row: "tx_ok t \<Longrightarrow> session_row i (tx_db t) = Some s \<Longrightarrow> session_wf s"
  by (auto simp: tx_ok_def dest: db_wf_session)

lemma step_repair_root: "tx_keeps tx_step (repair_root_body session x)"
proof (rule step_of_raw)
  show "tx_keeps raw_step (repair_root_body session x)"
    unfolding repair_root_body_def
    by (intro raw_rules) (auto simp: session_step_def repair_outcome_row_def)
next
  fix t r t' assume "repair_root_body session x t = Inr (r, t')" and "tx_ok t"
  then show "tx_step t t'"
    by (auto simp: repair_root_body_def tx_iffs session_wf_def dest!: tx_ok_row)
qed

lemma step_repair_child: "tx_keeps tx_step (repair_child_body session)"
proof (rule step_of_raw)
  show "tx_keeps raw_step (repair_child_body session)"
    unfolding repair_child_body_def
    by (intro raw_rules) (auto simp: session_step_def repair_outcome_row_def)
next
  fix t r t' assume "repair_child_body session t = Inr (r, t')" and "tx_ok t"
  then show "tx_step t t'"
    by (auto simp: repair_child_body_def tx_iffs session_wf_def step.R_refl dest!: tx_ok_row split: if_splits)
qed

lemma step_repair_desired: "tx_keeps tx_step (repair_desired_body session)"
proof (rule step_of_raw)
  show "tx_keeps raw_step (repair_desired_body session)"
    unfolding repair_desired_body_def
    by (intro raw_rules) (auto simp: session_step_def repair_desired_row_def)
next
  fix t r t' assume "repair_desired_body session t = Inr (r, t')" and "tx_ok t"
  then show "tx_step t t'"
    by (auto simp: repair_desired_body_def tx_iffs session_wf_def step.R_refl dest!: tx_ok_row split: if_splits)
qed

lemma step_repair_execution: "tx_keeps tx_step (repair_execution_body session)"
  unfolding repair_execution_body_def by (intro step_rules step_write_execution_terminal)

lemma step_repair_root_execution: "tx_keeps tx_step (repair_root_execution_body i eid)"
  unfolding repair_root_execution_body_def by (intro step_rules step_write_execution_terminal)

section \<open>Commands and finalization\<close>

lemma step_pop_turn: "tx_keeps tx_step (tx_pop_turn sid)"
proof -
  have "db_wf d \<Longrightarrow> db_wf (delete_task i d)" for i d
    by (rule db_wf_queue_only) (simp_all add: queue_wf_delete db_wf_queue)
  then show ?thesis
    by (auto simp: tx_keeps_def tx_pop_turn_def tx_ok_def step.R_refl
        intro!: tx_step_put evolves_same_rows appends_same split: option.splits)
qed

lemmas command_row_defs = session_step_def session_wf_def command_row_def

lemma step_assign_body: "tx_keeps tx_step (assign_body env session resume worker_id)"
  unfolding assign_body_def
  by (intro step_rules step_pop_turn step_touch) (auto simp: command_row_defs split: option.splits)

lemma step_feed_body: "tx_keeps tx_step (feed_body env session)"
  unfolding feed_body_def
  by (intro step_rules step_pop_turn step_touch) (auto simp: command_row_defs)

lemma step_stop_turn_body: "tx_keeps tx_step (stop_turn_body env session)"
  unfolding stop_turn_body_def by (intro step_rules) (auto simp: command_row_defs)

lemma step_cancel_body: "tx_keeps tx_step (cancel_body env session)"
  unfolding cancel_body_def by (intro step_rules) (auto simp: command_row_defs)

lemma step_clear_stale_body: "tx_keeps tx_step (clear_stale_body session)"
  unfolding clear_stale_body_def by (intro step_rules) (auto simp: row_defs)

lemma step_notify_crash: "tx_keeps tx_step (notify_parent_of_crash_in_tx session)"
  unfolding notify_parent_of_crash_in_tx_def
  by (cases "crashed_by session"; cases "s_parent_session_id session"; simp only: prod.case option.case;
      intro step_rules step_resume_parent) (auto simp: row_defs)

lemma step_finalize_body: "tx_keeps tx_step (finalize_body session)"
  unfolding finalize_body_def
  by (intro step_rules step_notify_crash) (auto simp: row_defs)

lemmas rec_bodies = step_repair_root step_repair_child step_repair_desired step_repair_execution
  step_repair_root_execution step_assign_body step_feed_body step_stop_turn_body step_cancel_body
  step_clear_stale_body step_finalize_body

section \<open>Which bodies end no session\<close>

lemma ended_pop_turn: "tx_keeps (\<lambda>t t'. ended_within A (tx_db t) (tx_db t')) (tx_pop_turn sid)"
  by (auto simp: tx_keeps_def tx_pop_turn_def ended.R_refl intro!: ended.S_same split: option.splits)

lemma ended_touch: "tx_keeps (\<lambda>t t'. ended_within A (tx_db t) (tx_db t')) tx_touch_last_activity"
  unfolding tx_touch_last_activity_def by (intro ended_rules)

lemmas ended_rec = ended_parts ended_pop_turn ended_touch ended_resume_parent

lemma ended_rec_bodies:
  "tx_keeps (\<lambda>t t'. ended_within A (tx_db t) (tx_db t')) (repair_execution_body session)"
  "tx_keeps (\<lambda>t t'. ended_within A (tx_db t) (tx_db t')) (repair_root_execution_body i eid)"
  "tx_keeps (\<lambda>t t'. ended_within A (tx_db t) (tx_db t')) (assign_body env session resume w)"
  "tx_keeps (\<lambda>t t'. ended_within A (tx_db t) (tx_db t')) (feed_body env session)"
  "tx_keeps (\<lambda>t t'. ended_within A (tx_db t) (tx_db t')) (stop_turn_body env session)"
  "tx_keeps (\<lambda>t t'. ended_within A (tx_db t) (tx_db t')) (cancel_body env session)"
  "tx_keeps (\<lambda>t t'. ended_within A (tx_db t) (tx_db t')) (clear_stale_body session)"
  "tx_keeps (\<lambda>t t'. ended_within A (tx_db t) (tx_db t')) (insert_in_tx sid ty p)"
  unfolding repair_execution_body_def repair_root_execution_body_def assign_body_def feed_body_def
    stop_turn_body_def cancel_body_def clear_stale_body_def
  by (intro ended_rec; auto simp: command_row_def clear_command_def split: option.splits)+

lemma ended_notify_crash:
  "tx_keeps (\<lambda>t t'. ended_within A (tx_db t) (tx_db t')) (notify_parent_of_crash_in_tx session)"
  unfolding notify_parent_of_crash_in_tx_def
  by (cases "crashed_by session"; cases "s_parent_session_id session"; simp only: prod.case option.case;
      intro ended_rec) auto

lemma ended_finalize_body:
  "tx_keeps (\<lambda>t t'. ended_within A (tx_db t) (tx_db t')) (finalize_body session)"
  unfolding finalize_body_def by (intro ended_rec ended_notify_crash) auto

lemmas ended_all = ended_rec_bodies ended_finalize_body

section \<open>Whole operations\<close>

text \<open>
  A good step is a step that also keeps every terminal root's execution terminal.
  \<open>takes_step\<close>: the operation's database is a good step away from the one it found.
\<close>

definition good_step :: "db \<Rightarrow> db \<Rightarrow> bool" where
  "good_step d d' \<longleftrightarrow> db_step d d' \<and> (db_wf d \<longrightarrow> roots_closed d \<longrightarrow> roots_closed d')"

lemma good_step_refl [simp]: "good_step d d"
  by (simp add: good_step_def)

lemma good_step_trans: "good_step d d' \<Longrightarrow> good_step d' d'' \<Longrightarrow> good_step d d''"
  by (auto simp: good_step_def db_step_def intro: evolves_trans appends_trans)

definition takes_step :: "db \<Rightarrow> 'r \<times> db \<Rightarrow> bool" where
  "takes_step d res \<longleftrightarrow> good_step d (snd res)"

lemma takes_none [simp, intro]: "takes_step d (r, d)"
  by (simp add: takes_step_def)

lemma takes_tx:
  assumes "tx_keeps tx_step body" and "tx_keeps (\<lambda>t t'. ended_within {} (tx_db t) (tx_db t')) body"
  shows "takes_step d (run_tx h eid body d)"
proof -
  obtain r d' where r: "run_tx h eid body d = (r, d')" by fastforce
  have "db_step d d'" using assms(1) r by (rule db_step_run_tx)
  moreover have "roots_closed d'" if "db_wf d" "roots_closed d"
    by (rule roots_closed_run [OF that(2,1) r assms]) simp
  ultimately show ?thesis by (simp add: takes_step_def good_step_def r)
qed

lemma takes_trans: "good_step d d' \<Longrightarrow> takes_step d' res \<Longrightarrow> takes_step d res"
  by (auto simp: takes_step_def intro: good_step_trans)

lemma takes_mutated: "takes_step d p \<Longrightarrow> takes_step d (mutated p)"
  by (cases p) (auto simp: takes_step_def mutated_def split: sum.splits)

lemma step_insert_locked: "takes_step d (insert_locked eid sid ty p d)"
  unfolding insert_locked_def
  by (rule takes_tx) (intro step_rules ended_rec ended_rec_bodies)+

lemma insert_locked_step: "good_step d (snd (insert_locked eid sid ty p d))"
  using step_insert_locked [of d] by (simp add: takes_step_def)

lemma transition_good_step:
  assumes "recalls pre d"
  shows "good_step d (snd (transition env pre eid sid a d))"
  using op_transition [of d env pre eid sid a] roots_closed_transition [OF _ _ assms]
  by (cases "transition env pre eid sid a d") (auto simp: op_ok_def good_step_def)

lemma transition_step: "good_step d (snd (transition env d eid sid a d))"
  by (rule transition_good_step [OF recalls_refl])

lemma terminate_session_step: "good_step d (snd (terminate_session d eid sid who d))"
proof -
  obtain r d' where r: "terminate_session d eid sid who d = (r, d')" by fastforce
  have "roots_closed d'" if "db_wf d" "roots_closed d"
    using r that by (auto simp: terminate_session_def lookup_def split: sum.splits if_splits
        dest: session_rowD intro: roots_closed_set_desired [OF _ _ recalls_refl])
  then show ?thesis using op_terminate_session [of d d eid sid who] by (simp add: r op_ok_def good_step_def)
qed

lemma terminate_session_failed_step: "good_step d (snd (terminate_session_failed d eid sid who rc d))"
  using op_terminate_session_failed [of d d eid sid who rc]
    roots_closed_terminate_session_failed [OF _ _ recalls_refl]
  by (cases "terminate_session_failed d eid sid who rc d") (auto simp: op_ok_def good_step_def)

text \<open>A new session is open, so it leaves no root open.\<close>

lemma add_session_good_step:
  assumes "insertable s d" "session_wf s" "s_outcome s = None"
    and "\<And>p q. s_parent_session_id s = Some p \<Longrightarrow> session_row p d = Some q \<Longrightarrow> s_execution_id q = s_execution_id s"
    and "\<And>r. s_parent_session_id s = None \<Longrightarrow> r \<in> set (sessions d) \<Longrightarrow> s_parent_session_id r = None \<Longrightarrow>
      s_execution_id r \<noteq> s_execution_id s"
  shows "good_step d (add_session s d)"
proof -
  have step: "db_step d (add_session s d)" by (rule add_session_step) (use assms in auto)
  have "session_row (s_id s) d = None" using assms(1) by (simp add: insertable_iff)
  then have "ended_within {} d (add_session s d)"
    using assms(3) by (auto simp: ended_within_def session_row_add split: if_splits)
  with step have "roots_closed (add_session s d)" if "db_wf d" "roots_closed d"
    using that by (auto simp: db_step_def intro: roots_closed_ended)
  with step show ?thesis by (simp add: good_step_def)
qed

lemma step_finalize: "takes_step d (finalize session d)"
  unfolding finalize_def by (rule takes_tx [OF step_finalize_body ended_finalize_body])

lemma step_terminate_child: "takes_step d (terminate_child env session child d)"
  using transition_step [of d env "s_execution_id session" "s_id child" "SetDesired DTerminate ''system:cascade''"]
  by (auto simp: terminate_child_def takes_step_def split: prod.splits sum.splits if_splits)

lemma step_cascade_list:
  assumes "\<And>s d res. rec s d = Some res \<Longrightarrow> takes_step d res"
  shows "cascade_list rec env session cs d = Some res \<Longrightarrow> takes_step d res"
proof (induction cs arbitrary: d)
  case Nil
  then show ?case by auto
next
  case (Cons c cs)
  obtain r d1 where child: "terminate_child env session c d = (r, d1)" by fastforce
  have d1: "good_step d d1" using step_terminate_child [of d env session c] child by (simp add: takes_step_def)
  show ?case
  proof (cases "\<exists>e. r = Inl e \<or> (\<exists>e. get_session (s_id c) d1 = Inl e)")
    case True
    then show ?thesis using Cons.prems d1 by (auto simp: child takes_step_def split: sum.splits)
  next
    case False
    then obtain fresh where "r = Inr ()" and fresh: "get_session (s_id c) d1 = Inr fresh"
      by (cases r; cases "get_session (s_id c) d1") auto
    with Cons.prems child obtain r2 d2 where rec: "rec fresh d1 = Some (r2, d2)"
      by (auto split: option.splits)
    have d2: "good_step d1 d2" using assms [OF rec] by (simp add: takes_step_def)
    with d1 have "good_step d d2" by (rule good_step_trans)
    with Cons.prems child \<open>r = Inr ()\<close> fresh rec show ?thesis
      using Cons.IH [of d2] by (auto split: sum.splits intro: good_step_trans simp: takes_step_def)
  qed
qed

lemma step_cascade_children: "cascade_children n env session d = Some res \<Longrightarrow> takes_step d res"
  by (induction n arbitrary: session d res) (auto dest: step_cascade_list [rotated])

lemma step_cascade_from: "cascade_from n env sid d = Some res \<Longrightarrow> takes_step d res"
  by (auto simp: cascade_from_def step_cascade_children split: sum.splits)

lemma step_terminate_and_cascade: "terminate_and_cascade n env session who d = Some res \<Longrightarrow> takes_step d res"
  using terminate_session_step [of d "s_execution_id session" "s_id session" who]
  by (auto simp: terminate_and_cascade_def takes_step_def split: prod.splits sum.splits if_splits
      dest!: step_cascade_from intro: good_step_trans)

lemma good_step_foldl: "(\<And>d c. good_step d (g d c)) \<Longrightarrow> good_step d (foldl g d cs)"
  by (induction cs arbitrary: d) (auto intro: good_step_trans)

lemma cascade_once_step: "good_step d (cascade_once env session d)"
  unfolding cascade_once_def by (rule good_step_foldl) (simp add: transition_step)

lemma step_expire_command: "takes_step d (expire_command env session d)"
  unfolding expire_command_def Let_def takes_step_def
  by (auto intro: transition_step good_step_trans [OF insert_locked_step])

lemma step_pending_command: "takes_step d (pending_command env session cok d)"
  unfolding pending_command_def issue_stop_turn_def issue_cancel_def
  by (auto intro!: takes_tx rec_bodies ended_all step_expire_command split: option.splits command_type.splits)

lemma step_reconcile_crashed:
  assumes "reconcile_crashed n env session k d = Some res"
  shows "takes_step d res"
proof -
  let ?t = "terminate_session_failed d (s_execution_id session) (s_id session) ''system:crash_unrecoverable'' True d"
  note tr = transition_step [of d "re_env env" "s_execution_id session" "s_id session" RetryRecovery]
  obtain r d1 where t: "?t = (r, d1)" by fastforce
  have d1: "good_step d d1"
    using terminate_session_failed_step [of d "s_execution_id session" "s_id session" "''system:crash_unrecoverable''" True]
    by (simp add: t)
  show ?thesis
  proof (cases "recoverable session k d = Inr False \<and> r = Inr ()")
    case True
    then obtain p where res: "res = mutated p"
      and p: "cascade_from n (re_env env) (s_id session) (snd (insert_locked (s_execution_id session)
         (Some (s_id session)) EvPlatform (to_string (JObj [(''message'',
            JStr ''Agent session failed permanently. Work or messages may have been lost.'')])) d1)) = Some p"
      using assms by (auto simp: reconcile_crashed_def t)
    show ?thesis
      unfolding res
      by (rule takes_mutated, rule takes_trans [OF d1], rule takes_trans [OF insert_locked_step], rule step_cascade_from [OF p])
  next
    case False
    with assms d1 tr show ?thesis
      by (auto simp: reconcile_crashed_def t takes_step_def split: sum.splits bool.splits prod.splits rejected.splits)
  qed
qed

lemma step_dispatch: "dispatch n env session k x cok w d = Some res \<Longrightarrow> takes_step d res"
  unfolding dispatch_def Let_def issue_assign_def issue_feed_turn_def issue_stop_turn_def issue_cancel_def
  by (auto split: desired.splits ex_state.splits if_splits dest: step_terminate_and_cascade step_reconcile_crashed
      intro!: takes_mutated step_finalize takes_tx rec_bodies ended_all)

text \<open>On a well-formed database the repairs of a session find nothing to repair.\<close>

lemma repair_unchanged:
  assumes "\<And>t r t'. body t = Inr (r, t') \<Longrightarrow> tx_ok t \<Longrightarrow> t' = t" and "tx_keeps tx_step body"
  shows "takes_step d (run_tx h eid body d)"
proof -
  obtain r d' where r: "run_tx h eid body d = (r, d')" by fastforce
  have "db_step d d'" using assms(2) r by (rule db_step_run_tx)
  moreover have "d' = d" if "db_wf d"
    using r
  proof (cases rule: run_tx_cases)
    case (committed t t')
    then have "tx_ok t" using that by (simp add: tx_ok_def)
    with assms(1) committed show ?thesis by fastforce
  qed
  ultimately show ?thesis by (auto simp: takes_step_def good_step_def r)
qed

lemma repairs_idle:
  "repair_root_body session x t = Inr (r, t') \<Longrightarrow> tx_ok t \<Longrightarrow> t' = t"
  "repair_child_body session t = Inr (r, t') \<Longrightarrow> tx_ok t \<Longrightarrow> t' = t"
  "repair_desired_body session t = Inr (r, t') \<Longrightarrow> tx_ok t \<Longrightarrow> t' = t"
  by (auto simp: repair_root_body_def repair_child_body_def repair_desired_body_def tx_iffs session_wf_def
      dest!: tx_ok_row split: if_splits)

lemmas takes_repair = repair_unchanged [OF repairs_idle(1) step_repair_root]
  repair_unchanged [OF repairs_idle(2) step_repair_child]
  repair_unchanged [OF repairs_idle(3) step_repair_desired]

lemma step_reconcile:
  assumes "reconcile n env session k x cok w d = Some res"
  shows "takes_step d res"
proof -
  have "takes_step d res" if "dispatch n env session k x cok w (cascade_once (re_env env) session d) = Some res"
    using step_dispatch [OF that] cascade_once_step takes_trans by blast
  moreover have "takes_step d (pending_command env session cok (cascade_once (re_env env) session d))"
    using step_pending_command cascade_once_step takes_trans by blast
  ultimately show ?thesis
    using assms unfolding reconcile_def Let_def
    by (auto simp: step_pending_command step_dispatch split: if_splits intro: takes_repair
        takes_tx [OF step_repair_execution ended_all(1)])
qed

lemma step_repair_root_entry: "takes_step d (repair_execution_for_terminal_root pre i d)"
  unfolding repair_execution_for_terminal_root_def
  by (auto intro!: takes_tx rec_bodies ended_all split: sum.splits)

end
