(* ===== verification/Worker_Sync_Facts.thy ===== *)
theory Worker_Sync_Facts
  imports Worker_Sync Reconciler_Facts
begin

text \<open>
  Every request of a worker takes steps of the database, whatever it reports and whatever other
  requests do meanwhile, and keeps the table of workers within its bound.
\<close>

section \<open>Steps of the running scheduler\<close>

definition node_step :: "node \<Rightarrow> node \<Rightarrow> bool" where
  "node_step nd nd' \<longleftrightarrow> good_step (nd_db nd) (nd_db nd') \<and>
     (supervisor_wf (nd_supervisor nd) \<longrightarrow> supervisor_wf (nd_supervisor nd'))"

lemma node_step_refl [simp]: "node_step nd nd"
  by (simp add: node_step_def)

lemma node_step_trans: "node_step nd nd' \<Longrightarrow> node_step nd' nd'' \<Longrightarrow> node_step nd nd''"
  by (auto simp: node_step_def intro: good_step_trans)

lemma node_step_kill [simp]: "node_step nd (kill w nd)"
  by (simp add: node_step_def kill_def supervisor_wf_kill)

lemma node_step_heard [simp]: "node_step nd (heard_from w nd)"
  by (simp add: node_step_def heard_from_def)

lemma node_step_db: "good_step (nd_db nd) d \<Longrightarrow> node_step nd (nd\<lparr>nd_db := d\<rparr>)"
  by (simp add: node_step_def)

lemma kill_db [simp]: "nd_db (kill w nd) = nd_db nd"
  by (simp add: kill_def)

lemma heard_db [simp]: "nd_db (heard_from w nd) = nd_db nd"
  by (simp add: heard_from_def)

lemma node_step_kill_db: "good_step (nd_db nd) d \<Longrightarrow> node_step nd ((kill w nd)\<lparr>nd_db := d\<rparr>)"
  by (simp add: node_step_def kill_def supervisor_wf_kill)

lemma lose_worker_step: "node_step nd (lose_worker env s w nd)"
  unfolding lose_worker_def Let_def
  by (auto intro!: node_step_kill_db intro: transition_step good_step_trans [OF insert_locked_step])

lemma look_step: "look fuel env s cok w nd = Some (r, nd') \<Longrightarrow> node_step nd nd'"
  by (auto simp: look_def takes_step_def split: option.splits dest!: step_reconcile
      intro: node_step_db node_step_kill_db)

section \<open>The report\<close>

lemma step_update_row:
  assumes "\<And>now s. P s \<Longrightarrow> session_step s (f now s)" and "\<And>now s. P s \<Longrightarrow> session_wf s \<Longrightarrow> session_wf (f now s)"
    and "\<And>now s. P s \<Longrightarrow> s_outcome (f now s) = s_outcome s"
  shows "good_step d (update_sessions P f d)"
proof -
  have ev: "evolves d (update_sessions P f d)" using assms(1) by (rule evolves_update_sessions)
  have id: "s_id (f now s) = s_id s" if "P s" for now s using assms(1) [OF that] by (simp add: session_step_def)
  have "ended_within {} d (update_sessions P f d)"
    by (rule ended_within_update) (simp_all add: id assms(3))
  with ev have "roots_closed (update_sessions P f d)" if "db_wf d" "roots_closed d"
    using that by (blast intro: roots_closed_ended)
  with ev show ?thesis
    using db_wf_update_sessions [of P f d] assms
    by (auto simp: good_step_def db_step_def intro: appends_same)
qed

lemma update_agent_session_id_step: "good_step d (snd (update_agent_session_id i asid w d))"
  by (auto simp: update_agent_session_id_def Let_def session_step_def session_wf_def intro!: step_update_row)

lemma process_executor_report_step:
  assumes "process_executor_report env w report meta nd = (r, nd')"
  shows "node_step nd nd'"
proof -
  note u = update_agent_session_id_step [of "nd_db nd" _ _ w]
  have tr: "good_step d' (snd (transition env d' eid sid a d'))" for d' eid sid a
    by (rule transition_step)
  show ?thesis
    using assms u tr
    by (auto simp: process_executor_report_def split: sum.splits if_splits option.splits prod.splits
        intro!: node_step_db)
      (metis snd_conv good_step_trans)+
qed

lemma report_stage_step: "report_stage env req nd = (skip, sid, nd') \<Longrightarrow> node_step nd nd'"
  by (auto simp: report_stage_def Let_def split: option.splits prod.splits sum.splits if_splits
      dest!: process_executor_report_step intro: node_step_trans [OF _ node_step_kill])

section \<open>The result transaction\<close>

lemma step_insert_messages: "tx_keeps tx_step (insert_messages sid ms)"
  by (induction ms) (auto split: option.splits intro!: step_rules)

lemma step_turn_result: "tx_keeps tx_step (process_turn_result_in_tx s result)"
  unfolding process_turn_result_in_tx_def by (intro step_rules step_insert_messages)

lemma step_ack: "tx_keeps tx_step (process_command_ack_in_tx w token)"
  unfolding process_command_ack_in_tx_def Let_def
  by (intro step_rules) (auto simp: row_defs ack_row_def cancel_ack_row_def)

lemma step_turn_complete: "tx_keeps tx_step (turn_complete parent s child)"
  unfolding turn_complete_def tell_parent_def tell_root_def
  by (intro step_rules step_resume_parent step_touch) auto

lemma step_take_turn_result: "tx_keeps tx_step (take_turn_result w req found)"
  unfolding take_turn_result_def by (intro step_rules step_turn_result)

lemma step_result_body: "tx_keeps tx_step (result_body w req found parent n)"
  unfolding result_body_def by (intro step_rules step_take_turn_result step_turn_complete step_ack)

lemma ended_insert_messages: "tx_keeps (\<lambda>t t'. ended_within A (tx_db t) (tx_db t')) (insert_messages sid ms)"
  by (induction ms) (auto split: option.splits intro!: ended_rules)

lemma ended_turn_result: "tx_keeps (\<lambda>t t'. ended_within A (tx_db t) (tx_db t')) (process_turn_result_in_tx s result)"
  unfolding process_turn_result_in_tx_def by (intro ended_rules ended_insert_messages)

lemma ended_ack: "tx_keeps (\<lambda>t t'. ended_within A (tx_db t) (tx_db t')) (process_command_ack_in_tx w token)"
  unfolding process_command_ack_in_tx_def Let_def
  by (intro ended_rules) (auto simp: ack_row_def cancel_ack_row_def clear_command_def split: if_splits)

lemma ended_turn_complete: "tx_keeps (\<lambda>t t'. ended_within A (tx_db t) (tx_db t')) (turn_complete parent s child)"
  unfolding turn_complete_def tell_parent_def tell_root_def
  by (intro ended_rules ended_resume_parent ended_touch)

lemma ended_result_body: "tx_keeps (\<lambda>t t'. ended_within A (tx_db t) (tx_db t')) (result_body w req found parent n)"
  unfolding result_body_def take_turn_result_def
  by (intro ended_rules ended_turn_result ended_turn_complete ended_ack)

lemma run_result_tx_step: "takes_step d (run_result_tx eid (result_body w req found parent n) d)"
  unfolding run_result_tx_def
  by (intro takes_tx step_rules step_result_body ended_rules ended_result_body)

lemma find_turn_session_step: "find_turn_session req nd = (found, stale, nd') \<Longrightarrow> node_step nd nd'"
  by (auto simp: find_turn_session_def split: option.splits if_splits)

lemma result_stage_step:
  assumes between: "\<And>n. node_step n (sy_between se n)" and run: "result_stage se req nd = (r, nd')"
  shows "node_step nd nd'"
proof -
  obtain found stale nd1 where f: "find_turn_session req nd = (found, stale, nd1)" by (cases "find_turn_session req nd")
  have 1: "node_step nd nd1" by (rule find_turn_session_step [OF f])
  then have 2: "node_step nd (sy_between se nd1)" using between node_step_trans by blast
  have "node_step (sy_between se nd1) ((sy_between se nd1)\<lparr>nd_db := snd (run_result_tx eid
      (result_body w req found parent n) (nd_db (sy_between se nd1)))\<rparr>)" for eid w parent n
    using run_result_tx_step by (auto simp: takes_step_def intro!: node_step_db)
  with 2 have 3: "node_step nd ((sy_between se nd1)\<lparr>nd_db := snd (run_result_tx eid
      (result_body w req found parent n) (nd_db (sy_between se nd1)))\<rparr>)" for eid w parent n
    using node_step_trans by blast
  show ?thesis
    using run 1 3 [THEN node_step_trans, OF node_step_kill] 3
    by (auto simp: result_stage_def f Let_def split: if_splits option.splits sum.splits prod.splits)
      (metis snd_conv)+
qed

section \<open>The search for a command\<close>

lemma session_passes_step: "session_passes n fuel env w sid nd = Some (r, nd') \<Longrightarrow> node_step nd nd'"
proof (induction n arbitrary: nd)
  case (Suc n)
  from Suc.prems show ?case
    by (auto split: option.splits if_splits prod.splits sum.splits reconciler_action.splits
        dest!: look_step Suc.IH intro: node_step_trans)
qed simp

lemma assigned_pass_step:
  "assigned_pass fuel env w ss rep pend nd = Some (c, rep', pend', nd') \<Longrightarrow> node_step nd nd'"
proof (induction ss arbitrary: rep pend nd)
  case (Cons s ss)
  from Cons.prems show ?case
    by (auto split: option.splits prod.splits sum.splits reconciler_action.splits
        dest!: look_step Cons.IH intro: node_step_trans)
qed simp

lemma assigned_passes_step: "assigned_passes n fuel env w pend nd = Some (r, nd') \<Longrightarrow> node_step nd nd'"
proof (induction n arbitrary: pend nd)
  case (Suc n)
  from Suc.prems show ?case
    by (auto split: option.splits prod.splits if_splits
        dest!: assigned_pass_step Suc.IH intro: node_step_trans)
qed simp

lemma look_after_step: "look_after fuel env s nd = Some (c, nd') \<Longrightarrow> node_step nd nd'"
  by (auto simp: look_after_def dest: look_step)

lemma global_pass_step: "global_pass fuel env w ss ch nd = Some (c, nd') \<Longrightarrow> node_step nd nd'"
proof (induction ss arbitrary: ch nd)
  case (Cons s ss)
  have "node_step nd nd1" if "global_look fuel env w s nd = Some (c1, nd1)" for c1 nd1
    using that by (auto simp: global_look_def lose_worker_step split: option.splits if_splits dest: look_after_step)
  with Cons show ?case
    by (auto split: option.splits intro: node_step_trans)
qed simp

lemma offer_unassigned_step: "offer_unassigned fuel env w nd = Some (r, nd') \<Longrightarrow> node_step nd nd'"
  by (auto simp: offer_unassigned_def split: option.splits prod.splits sum.splits reconciler_action.splits dest!: look_step)

lemma run_for_worker_step:
  "run_reconciler_for_worker fuel env w nd = Some (r, nd') \<Longrightarrow> node_step nd nd'"
  by (auto simp: run_reconciler_for_worker_def split: if_splits option.splits prod.splits
      dest!: assigned_passes_step offer_unassigned_step global_pass_step intro: node_step_trans)

lemma run_for_session_step:
  "run_reconciler_for_session fuel env w sid nd = Some (r, nd') \<Longrightarrow> node_step nd nd'"
  unfolding run_reconciler_for_session_def by (rule session_passes_step)

lemma long_poll_step:
  assumes wait: "\<And>n. node_step n (sy_wait se n)" and run: "long_poll fuel se w nd = Some (r, nd')"
  shows "node_step nd nd'"
proof -
  have "node_step n nd'" if "run_reconciler_for_worker fuel (sy_rec se 2) w (heard_from w (sy_wait se n)) = Some (x, nd')" for n x
    by (rule node_step_trans [OF wait node_step_trans [OF node_step_heard run_for_worker_step [OF that]]])
  with run show ?thesis
    by (auto simp: long_poll_def split: if_splits option.splits prod.splits reconciler_result.splits
        dest!: run_for_worker_step [of _ "sy_rec se (Suc 0)"] intro: node_step_trans)
qed

lemma next_command_step:
  assumes "\<And>n. node_step n (sy_wait se n)" and "next_command fuel se req nd = Some (r, nd')"
  shows "node_step nd nd'"
  using assms(2)
  by (auto simp: next_command_def split: if_splits option.splits prod.splits reconciler_result.splits
      dest!: run_for_worker_step long_poll_step [OF assms(1)] intro: node_step_trans)

lemma worker_sync_step:
  assumes "\<And>n. node_step n (sy_between se n)" "\<And>n. node_step n (sy_wait se n)"
    and "worker_sync fuel se req nd = Some (r, nd')"
  shows "node_step nd nd'"
proof -
  let ?h = "heard_from (sr_worker_id req) nd"
  obtain skip scoped nd1 where r: "report_stage (sy_env se) req ?h = (skip, scoped, nd1)"
    by (cases "report_stage (sy_env se) req ?h")
  obtain q nd2 where s: "result_stage se req nd1 = (q, nd2)" by fastforce
  have "node_step nd nd2"
    using node_step_heard report_stage_step [OF r] result_stage_step [OF assms(1) s] node_step_trans by metis
  moreover have "nd2 = nd' \<or> node_step nd2 nd'"
    using assms(3) by (auto simp: worker_sync_def r s split: sum.splits if_splits option.splits
        dest!: run_for_session_step next_command_step [OF assms(2)])
  ultimately show ?thesis using node_step_trans by blast
qed

lemma step_event_body: "tx_keeps tx_step (event_body msg)"
  unfolding event_body_def by (intro step_rules)

lemma ended_event_body: "tx_keeps (\<lambda>t t'. ended_within A (tx_db t) (tx_db t')) (event_body msg)"
  unfolding event_body_def by (intro ended_rules)

lemma worker_event_step:
  assumes "worker_event pre msg nd = (st, note, nd')"
  shows "node_step nd nd'"
proof -
  have tx: "good_step (nd_db nd) d" if "run_tx h eid (event_body msg) (nd_db nd) = (r, d)" for h eid r d
    using takes_tx [OF step_event_body ended_event_body, of "nd_db nd" h eid msg] that
    by (simp add: takes_step_def)
  show ?thesis
    using assms
    by (auto simp: worker_event_def Let_def split: option.splits if_splits sum.splits prod.splits
        dest!: tx intro: node_step_db node_step_kill_db)
qed

end
