(* ===== verification/Liveness.thy ===== *)
theory Liveness
  imports Worker_Sync_Facts
begin

text \<open>
  The loop of \<open>scheduler/src/main.rs\<close>: the look at crashed sessions at startup, the liveness tick
  that finds silent workers and moves sessions on, and the tick that starts workers.
\<close>

section \<open>The liveness tick\<close>

text \<open>Here a worker that was never heard of counts as silent.\<close>

definition tick_silent :: "string \<Rightarrow> node \<Rightarrow> bool" where
  "tick_silent w nd = (case nd_heartbeats nd w of Some seen \<Rightarrow> silent seen nd | None \<Rightarrow> True)"

definition tick_look :: "nat \<Rightarrow> rec_env \<Rightarrow> session \<Rightarrow> node \<Rightarrow> (bool \<times> node) option" where
  "tick_look fuel env s nd =
     (let reconcile_it =
        (if s_outcome s = None \<and> s_desired s \<noteq> DTerminate \<and> s_executor_state s \<noteq> Crashed \<and>
            s_command_token s = None
         then Some (False, nd)
         else map_option (\<lambda>(r, nd').
             (case r of
                Some (Inr Mutated) \<Rightarrow> True
              | Some (Inr Repaired) \<Rightarrow> True
              | Some (Inr (SendCommand _ _)) \<Rightarrow> True
              | _ \<Rightarrow> False, nd'))
           (look fuel env s False None nd)) in
      case s_worker_id s of
        None \<Rightarrow> reconcile_it
      | Some w \<Rightarrow> if tick_silent w nd then Some (True, lose_worker (re_env env) s w nd) else reconcile_it)"

fun tick_pass :: "nat \<Rightarrow> rec_env \<Rightarrow> session list \<Rightarrow> nat \<Rightarrow> node \<Rightarrow> (nat \<times> node) option" where
  "tick_pass fuel env [] n nd = Some (n, nd)"
| "tick_pass fuel env (s # ss) n nd =
     (case tick_look fuel env s nd of
        None \<Rightarrow> None
      | Some (c, nd') \<Rightarrow> tick_pass fuel env ss (if c then Suc n else n) nd')"

text \<open>Heartbeats of workers that are neither tracked nor recent are forgotten.\<close>

definition prune_heartbeats :: "node \<Rightarrow> node" where
  "prune_heartbeats nd = nd\<lparr>nd_heartbeats := (\<lambda>w.
     case nd_heartbeats nd w of
       None \<Rightarrow> None
     | Some seen \<Rightarrow>
         if w \<in> set (worker_ids (nd_supervisor nd)) \<or> nd_instant nd - seen < nd_hb_timeout nd
         then Some seen else None)\<rparr>"

definition liveness_tick :: "nat \<Rightarrow> rec_env \<Rightarrow> node \<Rightarrow> (nat \<times> node) option" where
  "liveness_tick fuel env nd =
     map_option (\<lambda>(n, nd'). (n, prune_heartbeats nd'))
       (tick_pass fuel env (find_reconcilable (nd_db nd)) 0 nd)"

section \<open>Starting workers\<close>

definition spawn_tick :: "nat \<Rightarrow> (nat \<Rightarrow> string \<times> nat option) \<Rightarrow> node \<Rightarrow> node" where
  "spawn_tick max_spawn draw nd =
     (if sv_max_workers (nd_supervisor nd) = Some 0 then nd
      else nd\<lparr>nd_supervisor := spawn_up_to (min (count_claimable (nd_db nd)) max_spawn) draw (nd_supervisor nd)\<rparr>)"

fun startup_looks :: "nat \<Rightarrow> rec_env \<Rightarrow> session list \<Rightarrow> node \<Rightarrow> node option" where
  "startup_looks fuel env [] nd = Some nd"
| "startup_looks fuel env (s # ss) nd =
     (case look fuel env s True None nd of
        None \<Rightarrow> None
      | Some (_, nd') \<Rightarrow> startup_looks fuel env ss nd')"

definition startup :: "nat \<Rightarrow> rec_env \<Rightarrow> nat \<Rightarrow> (nat \<Rightarrow> string \<times> nat option) \<Rightarrow> node \<Rightarrow> node option" where
  "startup fuel env max_spawn draw nd =
     map_option (spawn_tick max_spawn draw)
       (startup_looks fuel env (find_crashed_workerless (nd_db nd)) nd)"

section \<open>They take steps\<close>

lemma tick_look_step: "tick_look fuel env s nd = Some (c, nd') \<Longrightarrow> node_step nd nd'"
  by (auto simp: tick_look_def Let_def lose_worker_step split: option.splits if_splits dest: look_step)

lemma tick_pass_step: "tick_pass fuel env ss n nd = Some (m, nd') \<Longrightarrow> node_step nd nd'"
proof (induction ss arbitrary: n nd)
  case (Cons s ss)
  then show ?case
    by (auto split: option.splits dest!: tick_look_step intro: node_step_trans)
qed simp

lemma prune_step: "node_step nd (prune_heartbeats nd)"
  by (simp add: node_step_def prune_heartbeats_def)

lemma liveness_tick_step: "liveness_tick fuel env nd = Some (n, nd') \<Longrightarrow> node_step nd nd'"
  by (auto simp: liveness_tick_def dest!: tick_pass_step intro: node_step_trans prune_step)

lemma spawn_tick_step: "node_step nd (spawn_tick max_spawn draw nd)"
  by (simp add: spawn_tick_def node_step_def supervisor_wf_spawn_up_to)

lemma startup_looks_step: "startup_looks fuel env ss nd = Some nd' \<Longrightarrow> node_step nd nd'"
proof (induction ss arbitrary: nd)
  case (Cons s ss)
  then show ?case
    by (auto split: option.splits dest!: look_step intro: node_step_trans)
qed simp

lemma startup_step: "startup fuel env max_spawn draw nd = Some nd' \<Longrightarrow> node_step nd nd'"
  by (auto simp: startup_def dest!: startup_looks_step intro: node_step_trans spawn_tick_step)

end
