(* ===== verification/Executions.thy ===== *)
theory Executions
  imports Sessions
begin

text \<open>
  \<open>scheduler/src/db/executions.rs\<close>: creating an execution. The transaction that inserts it goes
  on to hold its lock, so it is returned open, with the new row in its working copy.
\<close>

definition new_execution ::
  "string \<Rightarrow> string \<Rightarrow> string option \<Rightarrow> string option \<Rightarrow> string option \<Rightarrow> int \<Rightarrow> int \<Rightarrow> jtext \<Rightarrow>
   string \<times> jtext \<Rightarrow> timestamp \<Rightarrow> execution" where
  "new_execution i context_id project parent title depth width policy ceiling now =
     \<lparr>x_id = i, x_project_id = project, x_parent_execution_id = parent, x_context_id = context_id,
      x_desired = DRun, x_outcome = None, x_title = title, x_metadata = to_string (JObj []),
      x_max_depth = depth, x_max_width = width, x_sandbox_policy = policy,
      x_ceiling_mode = fst ceiling, x_ceiling_entries = snd ceiling, x_ceiling_by = Some ''user'',
      x_ceiling_at = Some now, x_created_at = now, x_updated_at = now, x_last_activity_at = now,
      x_completed_at = None\<rparr>"

definition add_execution :: "execution \<Rightarrow> db \<Rightarrow> db" where
  "add_execution x db = db\<lparr>executions := executions db @ [x]\<rparr>"

definition create_in_tx ::
  "string \<Rightarrow> string \<Rightarrow> string option \<Rightarrow> string option \<Rightarrow> string option \<Rightarrow> int \<Rightarrow> int \<Rightarrow> jtext \<Rightarrow>
   string \<times> jtext \<Rightarrow> db \<Rightarrow> scheduler_error + exec_tx" where
  "create_in_tx i context_id project parent title depth width policy ceiling db =
     (if execution_row i db \<noteq> None then Inl (Database ''create execution failed'')
      else Inr \<lparr>tx_db = add_execution (new_execution i context_id project parent title depth width policy
                  ceiling (clock db)) db,
              tx_execution_id = i, tx_verified = []\<rparr>)"

definition count_non_terminal_by_project :: "string \<Rightarrow> db \<Rightarrow> nat" where
  "count_non_terminal_by_project p db =
     sql_count (\<lambda>x. x_project_id x = Some p \<and> x_outcome x = None) (executions db)"

section \<open>Facts\<close>

lemma add_execution_sel [simp]:
  "sessions (add_execution x d) = sessions d" "task_queue (add_execution x d) = task_queue d"
  "events (add_execution x d) = events d" "next_event_id (add_execution x d) = next_event_id d"
  "next_task_id (add_execution x d) = next_task_id d" "clock (add_execution x d) = clock d"
  "session_row i (add_execution x d) = session_row i d"
  "executions (add_execution x d) = executions d @ [x]"
  by (simp_all add: add_execution_def session_row_def)

lemma execution_row_add:
  assumes "execution_row (x_id x) d = None"
  shows "execution_row i (add_execution x d) = (if i = x_id x then Some x else execution_row i d)"
  using assms by (auto simp: execution_row_def sql_find_append split: option.splits)

lemma execution_row_None_iff: "execution_row i d = None \<longleftrightarrow> i \<notin> x_id ` set (executions d)"
  by (auto simp: execution_row_def sql_find_None_iff)

lemma add_execution_step:
  assumes new: "execution_row (x_id x) d = None" and "execution_wf x"
  shows "db_step d (add_execution x d)"
proof -
  let ?d = "add_execution x d"
  have ev: "evolves d ?d" using new by (auto simp: evolves_def execution_row_add)
  have "db_wf ?d" if wf: "db_wf d"
  proof -
    have "execution_row i ?d \<noteq> None" if "execution_row i d \<noteq> None" for i
      using that new by (simp add: execution_row_add)
    moreover have "distinct (map x_id (executions ?d))" "\<forall>y \<in> set (executions ?d). execution_wf y"
      using wf new assms(2) by (auto simp: db_wf_def execution_row_None_iff)
    moreover have "log_wf ?d" "queue_wf ?d"
      using wf log_wf_evolves [OF _ ev] queue_wf_same [of d ?d] by (auto simp: db_wf_def)
    ultimately show ?thesis using wf by (auto simp: db_wf_def)
  qed
  with ev show ?thesis by (auto simp: db_step_def appends_same)
qed

lemma create_in_tx_step:
  assumes "create_in_tx i context_id project parent title depth width policy ceiling d = Inr t"
  shows "db_step d (tx_db t)"
proof -
  let ?x = "new_execution i context_id project parent title depth width policy ceiling (clock d)"
  from assms have "execution_row (x_id ?x) d = None" and t: "tx_db t = add_execution ?x d"
    by (auto simp: create_in_tx_def new_execution_def split: if_splits)
  moreover have "execution_wf ?x" by (simp add: execution_wf_def new_execution_def)
  ultimately show ?thesis unfolding t by (intro add_execution_step)
qed

end
