(* ===== verification/Transition_Props.thy ===== *)
theory Transition_Props
  imports Transition_Facts
begin

text \<open>
  The properties of the session state machine, over the facts of \<open>Transition_Facts\<close>: what each
  action does to the database when it succeeds, on every branch, and what can never happen.
\<close>

section \<open>The outcome of an execution\<close>

definition pending_of :: "db \<Rightarrow> session \<Rightarrow> nat" where
  "pending_of db s = count_pending_turns (s_id s) db"

definition unnotified :: "db \<Rightarrow> session \<Rightarrow> bool" where
  "unnotified db s \<longleftrightarrow> s_outcome s = Some Failed \<and> \<not> s_parent_notified s \<and>
     (\<exists>p q. s_parent_session_id s = Some p \<and> session_row p db = Some q \<and> s_outcome q = None)"

lemma unnotified_failures_eq:
  assumes "\<And>s p. s \<in> set ss \<Longrightarrow> s_parent_session_id s = Some p \<Longrightarrow> session_row p db \<noteq> None"
  shows "unnotified_failures db ss = Inr (if \<exists>s \<in> set ss. unnotified db s then Canceled else Completed)"
  using assms
proof (induction ss)
  case (Cons s ss)
  have IH: "unnotified_failures db ss = Inr (if \<exists>s \<in> set ss. unnotified db s then Canceled else Completed)"
    using Cons.prems by (intro Cons.IH) auto
  show ?case
    using Cons.prems [of s]
    by (auto simp: IH unnotified_def split: option.splits)
qed simp

lemma inline_quiescent:
  "(s_executor_state s = Idle \<or>
    s_executor_state s = Unassigned \<and> s_agent_session_id s = None \<and> s_command_token s = None \<or>
    s_executor_state s = Crashed \<and> s_desired s = DStop) \<and> n = 0 \<and> s_command_token s = None
   \<longleftrightarrow> is_quiescent s n"
  by (cases "s_executor_state s") (auto simp: is_quiescent_def)

text \<open>
  The outcome derived for an execution whose root is terminated. A failed root makes it
  failed; otherwise it is canceled as soon as some session of the execution is active, is open and
  not quiescent, or failed without its still open parent having been told; only when none of
  that holds it is completed. The order of the rows does not matter and the derivation never
  fails on a well-formed database.
\<close>

theorem derive_execution_outcome_spec:
  fixes eid :: string
  assumes "db_wf db"
  defines "ss \<equiv> {s \<in> set (sessions db). s_execution_id s = eid}"
  shows "derive_execution_outcome eid db = Inr
    (if \<exists>s \<in> ss. s_parent_session_id s = None \<and> s_outcome s = Some Failed then Failed
     else if \<exists>s \<in> ss. is_active s (pending_of db s) \<or>
            s_outcome s = None \<and> \<not> is_quiescent s (pending_of db s) \<or> unnotified db s
     then Canceled else Completed)"
proof -
  let ?l = "sort_key s_created_at (filter (\<lambda>s. s_execution_id s = eid) (sessions db))"
  have set: "set ?l = ss" by (auto simp: ss_def)
  have "unnotified_failures db ?l = Inr (if \<exists>s \<in> set ?l. unnotified db s then Canceled else Completed)"
    using db_wf_parent [OF assms(1)] by (intro unnotified_failures_eq) auto
  then show ?thesis
    unfolding derive_execution_outcome_def Let_def inline_quiescent list_ex_iff set
    by (auto simp: is_active_def pending_of_def)
qed

definition demo_session :: "string \<Rightarrow> string option \<Rightarrow> ex_state \<Rightarrow> session" where
  "demo_session sid parent st = \<lparr>s_id = sid, s_execution_id = ''e'', s_parent_session_id = parent,
     s_agent_id = ''a'', s_agent_session_id = Some ''as'', s_cwd = None, s_worktree_path = None,
     s_base_commit_sha = None, s_slug = [], s_recovery_attempts = 0, s_metadata = JText (JObj []), s_desired = DRun,
     s_executor_state = st, s_outcome = None, s_desired_by = None, s_desired_at = None,
     s_command_token = None, s_command_type = None, s_command_at = None,
     s_command_has_payload = False, s_worker_id = Some ''w'', s_parent_notified = False, s_continued_from_session_id = None,
     s_sandbox_policy = JText JNull, s_created_at = 0, s_updated_at = 0, s_completed_at = None\<rparr>"

definition demo_execution :: execution where
  "demo_execution = \<lparr>x_id = ''e'', x_project_id = None, x_parent_execution_id = None, x_context_id = ''c'', x_desired = DRun,
     x_outcome = None, x_title = None, x_metadata = JText (JObj []), x_max_depth = 2, x_max_width = 5, x_sandbox_policy = JText JNull,
     x_ceiling_mode = ''open'', x_ceiling_entries = JText JNull, x_ceiling_by = None, x_ceiling_at = None, x_created_at = 0, x_updated_at = 0,
     x_last_activity_at = 0, x_completed_at = None\<rparr>"

text \<open>A root that is idle and a child that is running.\<close>

definition demo_db :: db where
  "demo_db = empty_db\<lparr>sessions := [demo_session ''r'' None Idle, demo_session ''k'' (Some ''r'') Running],
     executions := [demo_execution], clock := 7\<rparr>"

lemmas demo_defs = demo_db_def demo_session_def demo_execution_def empty_db_def

lemma demo_db_wf: "db_wf demo_db"
  by (simp add: db_wf_def demo_defs session_wf_def execution_wf_def log_wf_def queue_wf_def
      parents_first_def lineage_def less_Suc_eq session_row_def execution_row_def sql_find_def)

theorem derive_execution_outcome_spec_witness:
  "derive_execution_outcome ''e'' demo_db = Inr Canceled"
  unfolding derive_execution_outcome_spec [OF demo_db_wf] set_filter [symmetric]
  by (simp add: demo_defs is_active_def)

section \<open>Terminating a session\<close>

lemma begin_failed_Inl: "\<exists>e'. begin_failed what e = Inl e'"
  by (simp add: begin_failed_def)

lemma aborts_terminate_body: "aborts_err (terminate_body session parent who)"
  unfolding terminate_body_def notify_option_def by (intro aborts_err_rules)

lemma terminal_later:
  assumes "tx_step t t'" and "session_row i (tx_db t) = Some s" and "s_desired s = DTerminate"
    and "s_outcome s = Some oc"
  shows "\<exists>s'. session_row i (tx_db t') = Some s' \<and> s_desired s' = DTerminate \<and>
    s_outcome s' = Some oc \<and> s_completed_at s' = s_completed_at s"
  using assms by (auto simp: tx_step_def session_step_def dest!: evolves_session)

lemma terminate_body_row:
  assumes "terminate_body session parent who t = Inr (r, t')"
    and cur: "session_row (s_id session) (tx_db t) = Some cur"
  shows "s_desired cur \<noteq> DTerminate \<and> (\<exists>s'. session_row (s_id session) (tx_db t') = Some s' \<and>
      s_desired s' = DTerminate \<and>
      s_outcome s' = Some (if is_quiescent cur (count_pending_turns (s_id session) (tx_db t))
        then Completed else Canceled) \<and>
      s_completed_at s' = Some (clock (tx_db t)))"
  using assms
proof (rule terminate_body_parts [OF _ _ refl])
  let ?oc = "if is_quiescent cur (count_pending_turns (s_id session) (tx_db t)) then Completed else Canceled"
  fix t1 t2
  assume live: "s_desired cur \<noteq> DTerminate"
    and t1: "t1 = tx_put (update_sessions (\<lambda>s. s_id s = s_id session \<and> s_desired s \<noteq> DTerminate)
        (terminate_row ?oc who) (tx_db t)) t"
    and "tx_step t1 t2" "executions (tx_db t2) = executions (tx_db t)"
    and w: "if s_parent_session_id session = None
     then \<exists>eo w. derive_execution_outcome (s_execution_id session) (tx_db t) = Inr eo \<and>
       write_execution_terminal_in_tx (s_execution_id session) eo t2 = Inr (w, t')
     else t' = t2"
  have "tx_step t2 t'"
    using w tx_keepsD [OF step_write_execution_terminal] step.R_refl by (auto split: if_splits)
  with \<open>tx_step t1 t2\<close> have step: "tx_step t1 t'" by (rule step.R_trans)
  have "session_row (s_id session) (tx_db t1) = Some (terminate_row ?oc who (clock (tx_db t)) cur)"
    unfolding t1 using cur live session_rowD [OF cur]
    by (simp add: session_row_update terminate_row_def)
  from terminal_later [OF step this, of ?oc] live show ?thesis by (simp add: terminate_row_def)
qed

lemma terminate_body_exec:
  assumes "terminate_body session parent who t = Inr (r, t')"
    and "s_parent_session_id session = None" and "execution_row (s_execution_id session) (tx_db t) = Some x"
  shows "\<exists>x' oc. execution_row (s_execution_id session) (tx_db t') = Some x' \<and>
    derive_execution_outcome (s_execution_id session) (tx_db t) = Inr oc \<and>
    x_outcome x' = (if x_outcome x = None then Some oc else x_outcome x)"
proof -
  from assms(1) obtain cur where "session_row (s_id session) (tx_db t) = Some cur"
    by (auto simp: terminate_body_def tx_iffs)
  with assms(1) show ?thesis
  proof (rule terminate_body_parts [OF _ _ refl])
    fix t2 assume same: "executions (tx_db t2) = executions (tx_db t)"
      and w: "if s_parent_session_id session = None
     then \<exists>eo w. derive_execution_outcome (s_execution_id session) (tx_db t) = Inr eo \<and>
       write_execution_terminal_in_tx (s_execution_id session) eo t2 = Inr (w, t')
     else t' = t2"
    from same assms(3) have "execution_row (s_execution_id session) (tx_db t2) = Some x"
      by (simp add: execution_row_def)
    with w assms(2) show ?thesis using write_execution_terminal_sets by fastforce
  qed
qed

text \<open>
  C14. Terminating a session, when it succeeds: the session was not terminated before; it now
  desires termination, its outcome is completed when it was quiescent at that moment and canceled
  otherwise, and it is completed at the transaction's time. When it is the root, the execution
  closes in the same transaction with the outcome derived from the state before it, unless it
  was closed already.
\<close>

theorem terminate_session_effect:
  assumes "db_wf db" and "recalls pre db" and cur: "session_row sid db = Some cur"
    and "terminate_session pre eid sid who db = (Inr (), db')"
  shows "s_desired cur \<noteq> DTerminate \<and>
    (\<exists>s'. session_row sid db' = Some s' \<and> s_desired s' = DTerminate \<and>
       s_outcome s' = Some (if is_quiescent cur (count_pending_turns sid db) then Completed else Canceled) \<and>
       s_completed_at s' = Some (clock db)) \<and>
    (s_parent_session_id cur = None \<longrightarrow>
       (\<exists>x x' oc. execution_row eid db = Some x \<and> execution_row eid db' = Some x' \<and>
          derive_execution_outcome eid db = Inr oc \<and>
          x_outcome x' = (if x_outcome x = None then Some oc else x_outcome x)))"
proof -
  from assms(4) obtain s where s: "session_row sid pre = Some s" "s_execution_id s = eid"
    and set: "set_desired pre s DTerminate who db = (Inr (), db')"
    by (auto simp: terminate_session_def lookup_def get_session_def split: sum.splits if_splits option.splits)
  let ?t = "\<lparr>tx_db = db, tx_execution_id = eid, tx_verified = []\<rparr>"
  have id: "s_id s = sid" using session_rowD [OF s(1)] by simp
  have parent: "s_parent_session_id s = s_parent_session_id cur"
    using snapshot_row [OF s(1) assms(2) cur evolves_refl cur] by simp
  from set have "run_tx (begin_failed ''begin transaction failed'') eid
      (terminate_body s (parent_for_notify pre s DTerminate who) who) db = (Inr (), db')"
    using s by (auto simp: set_desired_def split: if_splits)
  then obtain t' where ex: "execution_row eid db \<noteq> None" and db': "db' = tx_db t'"
    and body: "terminate_body s (parent_for_notify pre s DTerminate who) who ?t = Inr (Inr (), t')"
    by (rule run_tx_committed [OF _ begin_failed_Inl aborts_terminate_body])
  show ?thesis
    using terminate_body_row [OF body, of cur] terminate_body_exec [OF body] cur parent s ex
    by (auto simp: id db')
qed

lemma demo_terminated: "fst (terminate_session demo_db ''e'' ''r'' ''user'' demo_db) = Inr ()"
  by code_simp

theorem terminate_session_effect_witness:
  "\<exists>x'. execution_row ''e'' (snd (terminate_session demo_db ''e'' ''r'' ''user'' demo_db)) = Some x' \<and>
     x_outcome x' = Some Canceled"
proof -
  let ?p = "terminate_session demo_db ''e'' ''r'' ''user'' demo_db"
  have p: "?p = (Inr (), snd ?p)" using demo_terminated by (cases ?p) simp
  have row: "session_row ''r'' demo_db = Some (demo_session ''r'' None Idle)" by code_simp
  have x: "execution_row ''e'' demo_db = Some demo_execution" by code_simp
  have d: "derive_execution_outcome ''e'' demo_db = Inr Canceled" by code_simp
  from terminate_session_effect [OF demo_db_wf recalls_refl row p] x d show ?thesis
    by (auto simp: demo_session_def demo_execution_def)
qed

section \<open>Telling the parent\<close>

lemma inbox_of_same: "task_queue d' = task_queue d \<Longrightarrow> inbox_of i d' = inbox_of i d"
  by (simp add: inbox_of_def)

lemma inbox_of_sel [simp]:
  "inbox_of i (update_sessions P f d) = inbox_of i d"
  "inbox_of i (update_executions Q g d) = inbox_of i d"
  "inbox_of i (add_event eid sid ty p seq d) = inbox_of i d"
  by (simp_all add: inbox_of_def)

lemma inbox_of_enqueue:
  "inbox_of i (enqueue eid sid (to_string v) src d) = inbox_of i d @
     (if i = sid then [\<lparr>ta_execution_id = eid, ta_session_id = sid, ta_payload = v\<rparr>] else [])"
  by (simp add: inbox_of_def enqueue_def assignment_of_def)

lemma inbox_of_flush: "inbox_of i (flush_session sid d) = (if i = sid then [] else inbox_of i d)"
  by (auto simp: inbox_of_def flush_session_def sql_delete_def intro!: arg_cong [of _ _ "map assignment_of"] filter_cong)

lemma session_row_queue [simp]:
  "session_row i (enqueue eid sid p src d) = session_row i d"
  "session_row i (flush_session sid d) = session_row i d"
  "execution_row i (enqueue eid sid p src d) = execution_row i d"
  "execution_row i (flush_session sid d) = execution_row i d"
  by (simp_all add: session_row_def execution_row_def)

lemma session_row_update_id:
  assumes "\<And>s. s_id (f (clock d) s) = s_id s"
  shows "session_row i (update_sessions (\<lambda>s. s_id s = j \<and> Q s) f d) =
    (if i = j then map_option (\<lambda>s. if Q s then f (clock d) s else s) (session_row i d) else session_row i d)"
  using assms session_rowD [of i d]
  by (cases "session_row i d") (auto simp: session_row_update)

lemma desired_row_sel [simp]:
  "s_id (desired_row des who now s) = s_id s"
  "s_desired (desired_row des who now s) = des"
  "s_outcome (desired_row des who now s) = s_outcome s"
  "s_parent_session_id (desired_row des who now s) = s_parent_session_id s"
  "s_execution_id (desired_row des who now s) = s_execution_id s"
  "s_executor_state (desired_row des who now s) = s_executor_state s"
  by (simp_all add: desired_row_def)

lemma resume_parent_effect:
  assumes "resume_parent h pid who t = Inr (u, t')" and "session_row pid (tx_db t) = Some p"
  shows "inbox_of i (tx_db t') = inbox_of i (tx_db t)"
    and "session_row i (tx_db t') = (if i = pid \<and> s_desired p = DStop
      then Some (desired_row DRun who (clock (tx_db t)) p) else session_row i (tx_db t))"
proof -
  from assms(1) have same: "sessions (tx_db t') = sessions (update_sessions
      (\<lambda>s. s_id s = pid \<and> s_desired s = DStop) (desired_row DRun who) (tx_db t))"
    and "inbox_of i (tx_db t') = inbox_of i (tx_db t)"
    by (auto simp: resume_parent_def tx_iffs insert_in_tx_db split: if_splits)
  then show "inbox_of i (tx_db t') = inbox_of i (tx_db t)" by simp
  have "session_row i (tx_db t') = session_row i (update_sessions
      (\<lambda>s. s_id s = pid \<and> s_desired s = DStop) (desired_row DRun who) (tx_db t))"
    using same by (simp add: session_row_def)
  then show "session_row i (tx_db t') = (if i = pid \<and> s_desired p = DStop
      then Some (desired_row DRun who (clock (tx_db t)) p) else session_row i (tx_db t))"
    using assms(2) by (auto simp: session_row_update_id)
qed

definition notification_task :: "session \<Rightarrow> string \<Rightarrow> string \<Rightarrow> task_assignment" where
  "notification_task session pid ty = \<lparr>ta_execution_id = s_execution_id session, ta_session_id = pid,
     ta_payload = child_notification (s_id session) ty\<rparr>"

text \<open>What a notification does when the execution and the parent are live.\<close>

lemma parent_notification_effect:
  assumes "write_parent_notification_in_tx session pid ty t = Inr (u, t')"
    and x: "execution_row (s_execution_id session) (tx_db t) = Some x" "x_desired x \<noteq> DTerminate" "x_outcome x = None"
    and p: "session_row pid (tx_db t) = Some p" "s_desired p \<noteq> DTerminate" "s_outcome p = None"
  shows "inbox_of i (tx_db t') = inbox_of i (tx_db t) @ (if i = pid then [notification_task session pid ty] else [])"
    and "session_row i (tx_db t') = (if i = pid \<and> s_desired p = DStop
      then Some (desired_row DRun ''system:child_action_notify'' (clock (tx_db t)) p) else session_row i (tx_db t))"
proof -
  from assms obtain t1 where
      t1: "(if s_desired p = DStop then resume_parent (invalid ''auto-resume state_change event: '') pid ''system:child_action_notify'' else tx_ret ()) t = Inr ((), t1)"
    and q: "inbox_of i (tx_db t') = inbox_of i (enqueue (s_execution_id session) pid
        (to_string (child_notification (s_id session) ty)) (Some (''child_result:'' @ s_id session)) (tx_db t1))"
    and s: "session_row i (tx_db t') = session_row i (tx_db t1)"
    by (auto simp: write_parent_notification_in_tx_def tx_iffs tx_enqueue_iff insert_in_tx_db
        get_session_def get_execution_def split: if_splits)
  have "inbox_of i (tx_db t1) = inbox_of i (tx_db t)"
    and row: "session_row i (tx_db t1) = (if i = pid \<and> s_desired p = DStop
      then Some (desired_row DRun ''system:child_action_notify'' (clock (tx_db t)) p) else session_row i (tx_db t))"
    using t1 p(1)
      resume_parent_effect [of "invalid ''auto-resume state_change event: ''" pid "''system:child_action_notify''" t "()" t1 p]
    by (auto simp: tx_iffs split: if_splits)
  with q show "inbox_of i (tx_db t') = inbox_of i (tx_db t) @ (if i = pid then [notification_task session pid ty] else [])"
    by (simp add: inbox_of_enqueue notification_task_def)
  from s row show "session_row i (tx_db t') = (if i = pid \<and> s_desired p = DStop
      then Some (desired_row DRun ''system:child_action_notify'' (clock (tx_db t)) p) else session_row i (tx_db t))"
    by simp
qed

lemma stop_body_parts:
  assumes "stop_body session parent who t = Inr (r, t')"
    and cur: "session_row (s_id session) (tx_db t) = Some cur"
  obtains t1 where "s_desired cur = DRun"
    "\<And>i. session_row i (tx_db t1) = (if i = s_id session
       then Some (desired_row DStop who (clock (tx_db t)) cur) else session_row i (tx_db t))"
    "\<And>i. inbox_of i (tx_db t1) = (if i = s_id session then [] else inbox_of i (tx_db t))"
    "executions (tx_db t1) = executions (tx_db t)"
    "notify_option session parent ''child_stopped'' t1 = (Inr ((), t') :: (rejected + unit) + unit \<times> exec_tx)"
proof -
  let ?u = "update_sessions (\<lambda>s. s_id s = s_id session \<and> s_desired s = DRun) (desired_row DStop who) (tx_db t)"
  from assms obtain p e t1 where "s_desired cur \<noteq> DTerminate" "s_desired cur \<noteq> DStop"
    and ins: "insert_in_tx (Some (s_id session)) EvStateChange p
      (tx_put (flush_session (s_id session) ?u) (tx_put ?u t)) = Inr (e, t1)"
    and ntf: "notify_option session parent ''child_stopped'' t1 = (Inr ((), t') :: (rejected + unit) + unit \<times> exec_tx)"
    by (auto simp: stop_body_def tx_iffs tx_flush_session_iff get_session_def)
  then have run: "s_desired cur = DRun" by (cases "s_desired cur") auto
  have "tx_db t1 = add_event (tx_execution_id t) (Some (s_id session)) EvStateChange p None
      (flush_session (s_id session) ?u)"
    using insert_in_tx_db(1) [OF ins] by simp
  with run ntf cur show thesis
    by (intro that [of t1]) (auto simp: session_row_update_id inbox_of_flush)
qed

lemma terminate_body_notify:
  assumes "terminate_body session parent who t = Inr (r, t')"
    and cur: "session_row (s_id session) (tx_db t) = Some cur"
  obtains t1 t2 where
    "\<And>i. i \<noteq> s_id session \<Longrightarrow> session_row i (tx_db t1) = session_row i (tx_db t)"
    "\<And>i. inbox_of i (tx_db t1) = inbox_of i (tx_db t)"
    "executions (tx_db t1) = executions (tx_db t)"
    "notify_option session parent ''child_terminated'' t1 = (Inr ((), t2) :: (rejected + unit) + unit \<times> exec_tx)"
    "\<And>i. session_row i (tx_db t') = session_row i (tx_db t2)"
    "\<And>i. inbox_of i (tx_db t') = inbox_of i (tx_db t2)"
proof -
  define oc where "oc = (if is_quiescent cur (count_pending_turns (s_id session) (tx_db t)) then Completed else Canceled)"
  let ?u = "update_sessions (\<lambda>s. s_id s = s_id session \<and> s_desired s \<noteq> DTerminate) (terminate_row oc who) (tx_db t)"
  from assms(1) obtain p e t1 t2 where
      ins: "insert_in_tx (Some (s_id session)) EvStateChange p (tx_put ?u t) = Inr (e, t1)"
    and ntf: "notify_option session parent ''child_terminated'' t1 = (Inr ((), t2) :: (rejected + unit) + unit \<times> exec_tx)"
    and last: "t' = t2 \<or> (\<exists>eo w. write_execution_terminal_in_tx (s_execution_id session) eo t2 = Inr (w, t'))"
    by (auto simp: terminate_body_def tx_iffs cur get_session_def oc_def
        split: if_splits sum.splits option.splits) (blast+)?
  have "tx_db t1 = add_event (tx_execution_id t) (Some (s_id session)) EvStateChange p None ?u"
    using insert_in_tx_db(1) [OF ins] by simp
  moreover have "session_row i (tx_db t') = session_row i (tx_db t2) \<and> inbox_of i (tx_db t') = inbox_of i (tx_db t2)" for i
    using last by (auto simp: write_execution_terminal_in_tx_def tx_iffs insert_in_tx_db split: if_splits)
  ultimately show thesis
    using ntf by (intro that [of t1 t2]) (auto simp: session_row_update_id terminate_row_def)
qed

lemma aborts_stop: "stop_body session parent who t = Inl (Inr u) \<Longrightarrow>
   session_row (s_id session) (tx_db t) = Some cur \<Longrightarrow> s_desired cur = DStop"
  by (auto simp: stop_body_def tx_bind_Inl_iff tx_iffs tx_try_def tx_fail_if_def tx_update_sessions_def
      tx_flush_session_def tx_map_err_def notify_option_def get_session_def tx_ret_def
      split: sum.splits option.splits if_splits)

text \<open>
  Stopping a running session: afterwards it desires to stop and none of its queued turns is
  left; every other session keeps its queue, except that a notified parent is sent one message.
\<close>

theorem stop_drains_queue:
  assumes "db_wf db" and cur: "session_row sid db = Some cur" and "s_desired cur = DRun"
    and "transition env db eid sid (SetDesired DStop who) db = (Inr r, db')"
  shows "(\<exists>s'. session_row sid db' = Some s' \<and> s_desired s' = DStop \<and> s_outcome s' = None) \<and>
    inbox_of sid db' = [] \<and>
    (\<forall>i. i \<noteq> sid \<longrightarrow> inbox_of i db' = inbox_of i db @
       (case parent_for_notify db cur DStop who of
          None \<Rightarrow> []
        | Some pid \<Rightarrow> if i = pid then [notification_task cur pid ''child_stopped''] else []))"
proof -
  let ?parent = "parent_for_notify db cur DStop who" and ?t = "\<lparr>tx_db = db, tx_execution_id = eid, tx_verified = []\<rparr>"
  have id: "s_id cur = sid" using session_rowD [OF cur] by simp
  have wf: "session_wf cur" using assms(1) cur by (rule db_wf_session)
  from assms(3,4) cur have eid: "s_execution_id cur = eid"
    and "run_tx (begin_failed ''begin stop tx failed'') eid (stop_body cur ?parent who) db = (Inr (), db')"
    by (auto simp: transition_def get_session_def set_desired_def no_event_def split: if_splits prod.splits sum.splits)
  then obtain t' where body: "stop_body cur ?parent who ?t = Inr (Inr (), t')" and db': "db' = tx_db t'"
    using aborts_stop [of cur ?parent who ?t "()"] cur assms(3) id
    by (auto elim!: run_tx_Ok simp: begin_failed_Inl)
  from body show ?thesis
  proof (rule stop_body_parts)
    show "session_row (s_id cur) (tx_db ?t) = Some cur" using cur id by simp
  next
    fix t1
    assume rows: "\<And>i. session_row i (tx_db t1) = (if i = s_id cur
        then Some (desired_row DStop who (clock (tx_db ?t)) cur) else session_row i (tx_db ?t))"
      and inbox: "\<And>i. inbox_of i (tx_db t1) = (if i = s_id cur then [] else inbox_of i (tx_db ?t))"
      and ex: "executions (tx_db t1) = executions (tx_db ?t)"
      and ntf: "notify_option cur ?parent ''child_stopped'' t1 = (Inr ((), t') :: (rejected + unit) + unit \<times> exec_tx)"
    show ?thesis
    proof (cases ?parent)
      case None
      with ntf rows inbox wf assms(3) show ?thesis by (simp add: notify_option_def tx_iffs db' id session_wf_def)
    next
      case (Some pid)
      then obtain p x where p: "s_parent_session_id cur = Some pid" "session_row pid db = Some p" "s_outcome p = None"
        and x: "execution_row eid db = Some x" "x_desired x \<noteq> DTerminate" "x_outcome x = None"
        by (auto simp: parent_for_notify_def eid split: if_splits option.splits)
      have "pid \<noteq> sid" using assms(1) cur p(1) id by (auto simp: db_wf_def dest!: session_rowD)
      have "s_desired p \<noteq> DTerminate" using db_wf_session [OF assms(1) p(2)] p(3) by (simp add: session_wf_def)
      moreover from ntf Some have "write_parent_notification_in_tx cur pid ''child_stopped'' t1 = Inr ((), t')"
        by (simp add: notify_option_def tx_iffs)
      ultimately show ?thesis
        using parent_notification_effect [of cur pid "''child_stopped''" t1 "()" t' x p] p x ex rows inbox Some \<open>pid \<noteq> sid\<close>
          wf assms(3) by (auto simp: db' id eid execution_row_def session_wf_def)
    qed
  qed
qed

definition demo_env :: env where
  "demo_env = \<lparr>en_rfc3339 = (\<lambda>_. ''t''), en_column = (\<lambda>_. ''t''), en_fail_at = None\<rparr>"

lemma demo_run:
  "fst (transition demo_env demo_db ''e'' ''k'' (SetDesired DStop ''user'') demo_db) = Inr None"
  "session_row ''k'' demo_db = Some (demo_session ''k'' (Some ''r'') Running)"
  by code_simp+

theorem stop_drains_queue_witness:
  "inbox_of ''k'' (snd (transition demo_env demo_db ''e'' ''k'' (SetDesired DStop ''user'') demo_db)) = []"
proof -
  let ?p = "transition demo_env demo_db ''e'' ''k'' (SetDesired DStop ''user'') demo_db"
  have "?p = (Inr None, snd ?p)" using demo_run(1) by (cases ?p) simp
  from stop_drains_queue [OF demo_db_wf demo_run(2) _ this] show ?thesis
    by (simp add: demo_session_def)
qed

text \<open>
  A user's stop or terminate of a child: everything but the child's own row and queue is as
  before when the notification is written, and nothing of the sessions changes after it.
\<close>

lemma user_action_parts:
  assumes cur: "session_row sid db = Some cur" and id: "s_id cur = sid" and eid: "s_execution_id cur = eid"
    and parent: "parent_for_notify db cur d ''user'' = Some pid"
    and d: "d = DStop \<or> d = DTerminate" "d \<noteq> s_desired cur"
    and run: "transition env db eid sid (SetDesired d ''user'') db = (Inr r, db')"
    and ty_def: "ty = (if d = DStop then ''child_stopped'' else ''child_terminated'')"
  shows "\<exists>t1 t2. (\<forall>i. i \<noteq> sid \<longrightarrow> session_row i (tx_db t1) = session_row i db) \<and>
    (\<forall>i. i \<noteq> sid \<longrightarrow> inbox_of i (tx_db t1) = inbox_of i db) \<and>
    executions (tx_db t1) = executions db \<and>
    write_parent_notification_in_tx cur pid ty t1 = Inr ((), t2) \<and>
    (\<forall>i. session_row i db' = session_row i (tx_db t2)) \<and> (\<forall>i. inbox_of i db' = inbox_of i (tx_db t2))"
proof (cases "d = DStop")
  let ?t = "\<lparr>tx_db = db, tx_execution_id = eid, tx_verified = []\<rparr>"
  case True
  with d(2) run cur eid have "run_tx (begin_failed ''begin stop tx failed'') eid (stop_body cur (Some pid) ''user'') db = (Inr (), db')"
    using parent
    by (auto simp: transition_def get_session_def set_desired_def no_event_def split: if_splits prod.splits sum.splits)
  then obtain t' where body: "stop_body cur (Some pid) ''user'' ?t = Inr (Inr (), t')" and db': "db' = tx_db t'"
    using aborts_stop [of cur "Some pid" "''user''" ?t "()"] cur d(2) id True
    by (auto elim!: run_tx_Ok simp: begin_failed_Inl)
  have row: "session_row (s_id cur) (tx_db ?t) = Some cur"
    using cur id by simp
  show ?thesis
  proof (rule stop_body_parts [OF body row])
    fix t1
    assume "\<And>i. session_row i (tx_db t1) = (if i = s_id cur
      then Some (desired_row DStop ''user'' (clock (tx_db ?t)) cur) else session_row i (tx_db ?t))"
    and "\<And>i. inbox_of i (tx_db t1) = (if i = s_id cur then [] else inbox_of i (tx_db ?t))"
    and "executions (tx_db t1) = executions (tx_db ?t)"
    and "notify_option cur (Some pid) ''child_stopped'' t1 = (Inr ((), t') :: (rejected + unit) + unit \<times> exec_tx)"
    then show ?thesis
      using True by (intro exI [of _ t1] exI [of _ t']) (simp add: id db' ty_def notify_option_def tx_iffs)
  qed
next
  let ?t = "\<lparr>tx_db = db, tx_execution_id = eid, tx_verified = []\<rparr>"
  case False
  with d have tm: "d = DTerminate" by simp
  with d(2) run cur eid have "run_tx (begin_failed ''begin transaction failed'') eid (terminate_body cur (Some pid) ''user'') db = (Inr (), db')"
    using parent
    by (auto simp: transition_def get_session_def set_desired_def no_event_def split: if_splits prod.splits sum.splits)
  then obtain t' where body: "terminate_body cur (Some pid) ''user'' ?t = Inr (Inr (), t')" and db': "db' = tx_db t'"
    by (rule run_tx_committed [OF _ begin_failed_Inl aborts_terminate_body])
  have row: "session_row (s_id cur) (tx_db ?t) = Some cur"
    using cur id by simp
  show ?thesis
  proof (rule terminate_body_notify [OF body row])
    fix t1 t2
    assume "\<And>i. i \<noteq> s_id cur \<Longrightarrow> session_row i (tx_db t1) = session_row i (tx_db ?t)"
    and "\<And>i. inbox_of i (tx_db t1) = inbox_of i (tx_db ?t)"
    and "executions (tx_db t1) = executions (tx_db ?t)"
    and "notify_option cur (Some pid) ''child_terminated'' t1 = (Inr ((), t2) :: (rejected + unit) + unit \<times> exec_tx)"
    and "\<And>i. session_row i (tx_db t') = session_row i (tx_db t2)"
    and "\<And>i. inbox_of i (tx_db t') = inbox_of i (tx_db t2)"
    then show ?thesis
      using False by (intro exI [of _ t1] exI [of _ t2]) (simp add: id db' ty_def notify_option_def tx_iffs)
  qed
qed

text \<open>
  When a user stops or terminates a child whose execution and parent are live, the parent
  is sent exactly one message, which names the child and what was done to it, and the parent is
  set running again when it had been stopped. No other session's queue gains anything.
\<close>

theorem user_action_notifies_parent:
  assumes "db_wf db" and cur: "session_row sid db = Some cur" and par: "s_parent_session_id cur = Some pid"
    and x: "execution_row eid db = Some x" "x_outcome x = None"
    and p: "session_row pid db = Some p" "s_outcome p = None"
    and d: "d = DStop \<or> d = DTerminate" "d \<noteq> s_desired cur"
    and run: "transition env db eid sid (SetDesired d ''user'') db = (Inr r, db')"
  shows "inbox_of pid db' = inbox_of pid db @ [notification_task cur pid
      (if d = DStop then ''child_stopped'' else ''child_terminated'')] \<and>
    (\<exists>p'. session_row pid db' = Some p' \<and> s_desired p' = DRun \<and> s_outcome p' = None) \<and>
    (\<forall>i. i \<noteq> pid \<longrightarrow> i \<noteq> sid \<longrightarrow> inbox_of i db' = inbox_of i db)"
proof -
  have id: "s_id cur = sid" using session_rowD [OF cur] by simp
  have xd: "x_desired x \<noteq> DTerminate" using db_wf_execution [OF assms(1) x(1)] x(2) by (simp add: execution_wf_def)
  have pd: "s_desired p \<noteq> DTerminate" using db_wf_session [OF assms(1) p(1)] p(2) by (simp add: session_wf_def)
  have ne: "pid \<noteq> sid" using assms(1) cur par id by (auto simp: db_wf_def dest!: session_rowD)
  from run cur have eid: "s_execution_id cur = eid"
    by (auto simp: transition_def get_session_def split: if_splits)
  have parent: "parent_for_notify db cur d ''user'' = Some pid"
    using par x p xd d(1) by (auto simp: parent_for_notify_def get_session_def get_execution_def eid)
  define ty where "ty = (if d = DStop then ''child_stopped'' else ''child_terminated'')"
  obtain t1 t2 where t1: "\<forall>i. i \<noteq> sid \<longrightarrow> session_row i (tx_db t1) = session_row i db"
      "\<forall>i. i \<noteq> sid \<longrightarrow> inbox_of i (tx_db t1) = inbox_of i db" "executions (tx_db t1) = executions db"
    and w: "write_parent_notification_in_tx cur pid ty t1 = Inr ((), t2)"
    and db': "\<forall>i. session_row i db' = session_row i (tx_db t2)" "\<forall>i. inbox_of i db' = inbox_of i (tx_db t2)"
    using user_action_parts [OF cur id eid parent d run ty_def] by blast
  from t1 have rows: "execution_row (s_execution_id cur) (tx_db t1) = Some x" "session_row pid (tx_db t1) = Some p"
    using x(1) p(1) ne by (simp_all add: execution_row_def eid)
  note eff = parent_notification_effect [OF w rows(1) xd x(2) rows(2) pd p(2)]
  have "s_desired p = DRun \<or> s_desired p = DStop" using pd by (cases "s_desired p") auto
  then show ?thesis
    using eff db' t1 p ne by (auto simp: ty_def)
qed

lemma demo_rows:
  "session_row ''r'' demo_db = Some (demo_session ''r'' None Idle)"
  "execution_row ''e'' demo_db = Some demo_execution"
  by code_simp+

theorem user_action_notifies_parent_witness:
  "inbox_of ''r'' (snd (transition demo_env demo_db ''e'' ''k'' (SetDesired DStop ''user'') demo_db)) =
     [notification_task (demo_session ''k'' (Some ''r'') Running) ''r'' ''child_stopped'']"
proof -
  let ?p = "transition demo_env demo_db ''e'' ''k'' (SetDesired DStop ''user'') demo_db"
  have "?p = (Inr None, snd ?p)" using demo_run(1) by (cases ?p) simp
  from user_action_notifies_parent [OF demo_db_wf demo_run(2) _ demo_rows(2) _ demo_rows(1) _ _ _ this]
  have "inbox_of ''r'' (snd ?p) = inbox_of ''r'' demo_db @
      [notification_task (demo_session ''k'' (Some ''r'') Running) ''r'' ''child_stopped'']"
    by (simp add: demo_session_def demo_execution_def)
  then show ?thesis by (simp add: inbox_of_def demo_defs)
qed

section \<open>Sending a message\<close>

lemma aborts_send_body: "aborts_err (send_body env session args)"
proof -
  have "aborts_err (resolution_guard env m)" for m
    by (auto simp: aborts_err_def resolution_guard_def split: option.splits if_splits)
  moreover have "aborts_err (tx_enqueue eid sid p src)" for eid sid p src
    by (simp add: aborts_err_def tx_enqueue_def)
  ultimately show ?thesis
    unfolding send_body_def resume_receiver_def emit_delivered_def note_user_activity_def write_marker_def
      test_failpoint_def tx_touch_last_activity_def
    by (intro aborts_err_rules)
qed

text \<open>Rows written after the message: platform rows of the same execution.\<close>

definition adds_platform :: "exec_tx \<Rightarrow> exec_tx \<Rightarrow> bool" where
  "adds_platform t t' \<longleftrightarrow> tx_execution_id t' = tx_execution_id t \<and>
     sessions (tx_db t') = sessions (tx_db t) \<and> task_queue (tx_db t') = task_queue (tx_db t) \<and>
     (\<exists>new. events (tx_db t') = events (tx_db t) @ new \<and> (\<forall>e \<in> set new. ev_type e = EvPlatform))"

interpretation plat: tx_preorder adds_platform
  by unfold_locales (auto simp: adds_platform_def)

lemma plat_insert: "tx_keeps adds_platform (insert_in_tx sid EvPlatform p)"
  by (auto simp: tx_keeps_def insert_in_tx_db adds_platform_def new_event_def)

lemma plat_update_executions: "tx_keeps adds_platform (tx_update_executions P f)"
  by (auto simp: tx_keeps_def tx_iffs adds_platform_def)

lemma plat_write_marker: "tx_keeps adds_platform (write_marker env m i ts)"
  unfolding write_marker_def test_failpoint_def by (intro plat.keeps plat_insert)

lemma plat_touch: "tx_keeps adds_platform tx_touch_last_activity"
  unfolding tx_touch_last_activity_def by (intro plat.keeps plat_update_executions)

definition message_event :: "db \<Rightarrow> string \<Rightarrow> string \<Rightarrow> json \<Rightarrow> event" where
  "message_event db eid sid payload =
     new_event db eid (Some sid) EvMessage (to_string (message_event_payload payload)) None"

lemma plat_emit: "tx_keeps adds_platform (emit_delivered env sid b)"
  unfolding emit_delivered_def test_failpoint_def by (intro plat.keeps plat_insert)

lemma plat_note: "tx_keeps adds_platform (note_user_activity b)"
  unfolding note_user_activity_def by (intro plat.keeps plat_touch)

lemma resolution_guard_iff:
  "resolution_guard env resolution t = (Inr (u, t') :: (rejected + int) + unit \<times> exec_tx) \<longleftrightarrow> t' = t \<and>
     (\<forall>m. resolution = Some m \<longrightarrow> esc_execution_id (rm_escalation m) = tx_execution_id t \<and>
        find_marker_for_escalation (en_rfc3339 env) (rm_escalation m) (tx_db t) = None)"
  by (auto simp: resolution_guard_def split: option.splits)

lemma send_body_parts:
  assumes "send_body env session args t = Inr (r, t')"
    and cur: "session_row (s_id session) (tx_db t) = Some cur"
    and scope: "tx_execution_id t = s_execution_id session"
  obtains x t1 t2 where
    "execution_row (s_execution_id session) (tx_db t) = Some x" "x_desired x \<noteq> DTerminate" "x_outcome x = None"
    "s_desired cur \<noteq> DTerminate" "s_outcome cur = None"
    "resolution_guard env (sm_resolution args) t = (Inr ((), t) :: (rejected + int) + unit \<times> exec_tx)"
    "r = Inr (next_event_id (tx_db t))"
    "tx_execution_id t1 = tx_execution_id t"
    "events (tx_db t1) = events (tx_db t) @ [message_event (tx_db t) (s_execution_id session) (s_id session) (sm_payload args)]"
    "next_event_id (tx_db t1) = next_event_id (tx_db t) + 1"
    "\<And>i. session_row i (tx_db t1) = (if i = s_id session \<and> s_desired cur = DStop
       then Some (desired_row DRun ''user:send_message'' (clock (tx_db t)) cur) else session_row i (tx_db t))"
    "\<And>i. inbox_of i (tx_db t1) = inbox_of i (tx_db t) @ (if i = s_id session
       then [\<lparr>ta_execution_id = s_execution_id session, ta_session_id = s_id session, ta_payload = sm_payload args\<rparr>] else [])"
    "write_marker env (sm_resolution args) (next_event_id (tx_db t)) (clock (tx_db t)) t1
       = (Inr ((), t2) :: (rejected + int) + unit \<times> exec_tx)"
    "adds_platform t2 t'"
proof -
  from assms(1) obtain x t0 n t1 e t2 t3 k where
      x: "execution_row (s_execution_id session) (tx_db t) = Some x"
      "x_desired x \<noteq> DTerminate" "x_outcome x = None" "s_desired cur \<noteq> DTerminate" "s_outcome cur = None"
    and g: "resolution_guard env (sm_resolution args) t = (Inr ((), t) :: (rejected + int) + unit \<times> exec_tx)"
    and res: "resume_receiver (s_id session) cur t = (Inr (n, t0) :: (rejected + int) + nat \<times> exec_tx)"
    and ins: "insert_in_tx (Some (s_id session)) EvMessage (to_string (message_event_payload (sm_payload args)))
      (tx_put (enqueue (s_execution_id session) (s_id session) (to_string (sm_payload args)) None (tx_db t0)) t0) = Inr (e, t1)"
    and w: "write_marker env (sm_resolution args) (fst e) (snd e) t1 = (Inr ((), t2) :: (rejected + int) + unit \<times> exec_tx)"
    and em: "emit_delivered env (s_id session) (sm_emit_message_delivered args) t2 = Inr ((), t3)"
    and last: "note_user_activity (sm_from_user args) t3 = Inr (k, t')"
    and r: "r = Inr (fst e)"
    by (auto simp: send_body_def tx_iffs tx_enqueue_iff resolution_guard_iff cur
        get_session_def get_execution_def) 
  have t0: "tx_execution_id t0 = tx_execution_id t" "events (tx_db t0) = events (tx_db t)"
      "next_event_id (tx_db t0) = next_event_id (tx_db t)" "clock (tx_db t0) = clock (tx_db t)"
      "inbox_of i (tx_db t0) = inbox_of i (tx_db t)"
      "session_row i (tx_db t0) = (if i = s_id session \<and> s_desired cur = DStop
       then Some (desired_row DRun ''user:send_message'' (clock (tx_db t)) cur) else session_row i (tx_db t))" for i
    using res cur by (auto simp: resume_receiver_def tx_iffs session_row_update_id split: if_splits)
  note ie = insert_in_tx_db [OF ins, simplified]
  have "adds_platform t2 t'"
    using tx_keepsD [OF plat_emit em] tx_keepsD [OF plat_note last] by (rule plat.R_trans)
  with x g r w show thesis
    by (intro that [of x t1 t2])
      (auto simp: ie t0 scope message_event_def new_event_def inbox_of_enqueue)
qed

lemma send_ran:
  assumes "transition env pre eid sid (SendMessage args) db = (Inr r, db')"
  obtains s t' i where "session_row sid pre = Some s" "s_id s = sid" "s_execution_id s = eid" "r = Some i"
    "send_body env s args \<lparr>tx_db = db, tx_execution_id = eid, tx_verified = []\<rparr> = Inr (Inr i, t')" "db' = tx_db t'"
proof -
  from assms obtain s i where s: "session_row sid pre = Some s" "s_execution_id s = eid" "r = Some i"
    and "send_message env pre s args db = (Inr i, db')"
    by (auto simp: transition_def get_session_def ok_or_Inr_iff split: sum.splits if_splits prod.splits option.splits)
  then have "run_tx (begin_failed ''begin tx failed'') eid (send_body env s args) db = (Inr i, db')"
    by (auto simp: send_message_def split: sum.splits)
  then show thesis
    by (rule run_tx_committed [OF _ begin_failed_Inl aborts_send_body])
      (use s session_rowD [OF s(1)] that in auto)
qed

lemma write_marker_platform: "write_marker env m i ts t = (Inr ((), t') :: (rejected + int) + unit \<times> exec_tx) \<Longrightarrow> adds_platform t t'"
  using tx_keepsD [OF plat_write_marker] by blast

text \<open>A message that was accepted, whatever the row that was read before.\<close>

lemma send_message_lands:
  assumes cur: "session_row sid db = Some cur"
    and run: "transition env pre eid sid (SendMessage args) db = (Inr r, db')"
  shows "r = Some (next_event_id db) \<and>
    s_desired cur \<noteq> DTerminate \<and> s_outcome cur = None \<and>
    (\<exists>x. execution_row eid db = Some x \<and> x_desired x \<noteq> DTerminate \<and> x_outcome x = None) \<and>
    (\<exists>s'. session_row sid db' = Some s' \<and> s_desired s' = DRun \<and> s_outcome s' = None) \<and>
    (\<forall>i. inbox_of i db' = inbox_of i db @ (if i = sid
       then [\<lparr>ta_execution_id = eid, ta_session_id = sid, ta_payload = sm_payload args\<rparr>] else [])) \<and>
    (\<exists>rest. events db' = events db @ message_event db eid sid (sm_payload args) # rest \<and>
       (\<forall>e \<in> set rest. ev_type e = EvPlatform))"
  using run
proof (rule send_ran)
  fix s t' i
  let ?t = "\<lparr>tx_db = db, tx_execution_id = eid, tx_verified = []\<rparr>"
  assume s: "session_row sid pre = Some s" "s_id s = sid" "s_execution_id s = eid" "r = Some i"
    and body: "send_body env s args ?t = Inr (Inr i, t')" and db': "db' = tx_db t'"
  from body show ?thesis
  proof (rule send_body_parts)
    show "session_row (s_id s) (tx_db ?t) = Some cur" "tx_execution_id ?t = s_execution_id s"
      using cur s by simp_all
  next
    fix x t1 t2
    assume parts: "execution_row (s_execution_id s) (tx_db ?t) = Some x" "x_desired x \<noteq> DTerminate" "x_outcome x = None"
      "s_desired cur \<noteq> DTerminate" "s_outcome cur = None"
      "(Inr i :: rejected + int) = Inr (next_event_id (tx_db ?t))"
      and t1: "events (tx_db t1) = events (tx_db ?t) @ [message_event (tx_db ?t) (s_execution_id s) (s_id s) (sm_payload args)]"
      "\<And>i. session_row i (tx_db t1) = (if i = s_id s \<and> s_desired cur = DStop
       then Some (desired_row DRun ''user:send_message'' (clock (tx_db ?t)) cur) else session_row i (tx_db ?t))"
      "\<And>i. inbox_of i (tx_db t1) = inbox_of i (tx_db ?t) @ (if i = s_id s
       then [\<lparr>ta_execution_id = s_execution_id s, ta_session_id = s_id s, ta_payload = sm_payload args\<rparr>] else [])"
      and w: "write_marker env (sm_resolution args) (next_event_id (tx_db ?t)) (clock (tx_db ?t)) t1
       = (Inr ((), t2) :: (rejected + int) + unit \<times> exec_tx)"
      and "adds_platform t2 t'"
    then have "adds_platform t1 t'" using write_marker_platform plat.R_trans by blast
    then obtain new where "sessions db' = sessions (tx_db t1)" "task_queue db' = task_queue (tx_db t1)"
        "events db' = events (tx_db t1) @ new" "\<forall>e \<in> set new. ev_type e = EvPlatform"
      by (auto simp: adds_platform_def db')
    moreover have "s_desired cur = DRun \<or> s_desired cur = DStop" using parts(4) by (cases "s_desired cur") auto
    ultimately show ?thesis
      using parts t1 s cur by (auto simp: session_row_def inbox_of_def)
  qed
qed

text \<open>
  C24. Sending a message to a session, when it succeeds. The session and its execution were live;
  the result is the id of the message's event; the session runs afterwards, even when it had been
  stopped; its queue gained exactly the message, at the end, and no other queue changed; the log
  gained the message's event first and after it only platform events.
\<close>

theorem send_message_effect:
  assumes cur: "session_row sid db = Some cur"
    and run: "transition env pre eid sid (SendMessage args) db = (Inr r, db')"
  shows "r = Some (next_event_id db) \<and>
    s_desired cur \<noteq> DTerminate \<and> s_outcome cur = None \<and>
    (\<exists>x. execution_row eid db = Some x \<and> x_desired x \<noteq> DTerminate \<and> x_outcome x = None) \<and>
    (\<exists>s'. session_row sid db' = Some s' \<and> s_desired s' = DRun \<and> s_outcome s' = None) \<and>
    (\<forall>i. inbox_of i db' = inbox_of i db @ (if i = sid
       then [\<lparr>ta_execution_id = eid, ta_session_id = sid, ta_payload = sm_payload args\<rparr>] else [])) \<and>
    (\<exists>rest. events db' = events db @ message_event db eid sid (sm_payload args) # rest \<and>
       (\<forall>e \<in> set rest. ev_type e = EvPlatform))"
  using assms by (rule send_message_lands)

section \<open>A decision is answered at most once\<close>

lemma better_some: "better b c \<noteq> None"
  by (auto simp: better_def split: option.splits)

lemma foldl_better_some: "b \<noteq> None \<Longrightarrow> foldl better b cs \<noteq> None"
proof (induction cs arbitrary: b)
  case (Cons c cs)
  have "foldl better (better b c) cs \<noteq> None" by (rule Cons.IH [OF better_some])
  then show ?case by simp
qed simp

lemma foldl_better: "cs \<noteq> [] \<Longrightarrow> foldl better b cs \<noteq> None"
proof (cases cs)
  case (Cons c cs')
  have "foldl better (better b c) cs' \<noteq> None" by (rule foldl_better_some [OF better_some])
  with Cons show ?thesis by simp
qed simp

lemma foldl_best_some:
  "b \<noteq> None \<Longrightarrow> foldl (\<lambda>best e. foldl better best (marker_candidates fmt esc e)) b evs \<noteq> None"
proof (induction evs arbitrary: b)
  case (Cons e evs)
  show ?case
    using Cons.IH [OF foldl_better_some [OF Cons.prems]] by (simp del: not_None_eq)
qed simp

lemma foldl_best:
  "\<exists>e \<in> set evs. marker_candidates fmt esc e \<noteq> [] \<Longrightarrow>
   foldl (\<lambda>best e. foldl better best (marker_candidates fmt esc e)) b evs \<noteq> None"
proof (induction evs arbitrary: b)
  case (Cons e evs)
  show ?case
  proof (cases "marker_candidates fmt esc e = []")
    case True
    with Cons.prems have "\<exists>e \<in> set evs. marker_candidates fmt esc e \<noteq> []" by simp
    from Cons.IH [OF this] show ?thesis by (simp del: not_None_eq)
  next
    case False
    from foldl_best_some [OF foldl_better [OF False]] show ?thesis by (simp del: not_None_eq)
  qed
qed simp

lemma find_marker_complete:
  assumes "e \<in> set (events db)" and "ev_execution_id e = esc_execution_id esc" and "ev_type e = EvPlatform"
    and "esc_id esc < ev_id e" and "marker_candidates fmt esc e \<noteq> []"
  shows "find_marker_for_escalation fmt esc db \<noteq> None"
  unfolding find_marker_for_escalation_def best_marker_def
  by (rule foldl_best) (use assms in \<open>auto simp: list_platform_after_in_execution_def\<close>)

lemma marker_payload_resolves:
  assumes "0 < i" and "i \<le> i64_max"
  shows "\<exists>c. resolution_candidates [JObj [(''data'', marker_data b (Some i) r a t tr)]] own = [c] \<and>
    rc_escalation_event_id c = Some i"
proof -
  have "i64_min \<le> i" using assms by (simp add: i64_min_def)
  then have "positive_i64 (marker_data b (Some i) r a t tr) ''escalation_event_id'' = Some i"
    using assms by (simp add: positive_i64_def get_marker_data)
  then show ?thesis
    by (simp add: resolution_candidates_def answer_part_count_def map_filter_simps1 candidate_of_part_def
        part_data_def escalation_event_id_def get_str_def get_marker_data Let_def)
qed

lemma marker_event_resolves:
  assumes "ev_session_id e = Some (esc_session_id esc)" and "0 < esc_id esc" and "esc_id esc \<le> i64_max"
    and "ev_payload e = to_string (marker_payload b (Some (esc_id esc)) r a t tr)"
  shows "marker_candidates fmt esc e \<noteq> []"
  using marker_payload_resolves [OF assms(2,3), of b r a t tr "ev_id e"] assms(1)
  by (auto simp: marker_candidates_def assms(4) parse_marker_payload)

lemma write_marker_resolves:
  assumes "write_marker env (Some m) i ts t = (Inr ((), t') :: (rejected + int) + unit \<times> exec_tx)"
    and esc: "0 < esc_id (rm_escalation m)" "esc_id (rm_escalation m) \<le> i64_max"
      "esc_id (rm_escalation m) < next_event_id (tx_db t)"
      "esc_execution_id (rm_escalation m) = tx_execution_id t"
  shows "\<exists>e \<in> set (events (tx_db t')). ev_execution_id e = esc_execution_id (rm_escalation m) \<and>
    ev_type e = EvPlatform \<and> esc_id (rm_escalation m) < ev_id e \<and>
    (\<forall>fmt. marker_candidates fmt (rm_escalation m) e \<noteq> [])"
proof -
  let ?p = "to_string (marker_payload (ed_batch_id (esc_data (rm_escalation m)))
     (Some (esc_id (rm_escalation m))) i (en_column env ts) (rm_answer_text m) False)"
  from assms(1) have "tx_db t' = add_event (tx_execution_id t) (Some (esc_session_id (rm_escalation m))) EvPlatform
      ?p None (tx_db t)"
    by (auto simp: write_marker_def tx_iffs test_failpoint_def dest: insert_in_tx_db(1))
  moreover let ?e = "new_event (tx_db t) (tx_execution_id t) (Some (esc_session_id (rm_escalation m))) EvPlatform ?p None"
  have "marker_candidates fmt (rm_escalation m) ?e \<noteq> []" for fmt
    by (rule marker_event_resolves [OF _ esc(1,2)]) (simp_all add: new_event_def)
  ultimately show ?thesis
    using esc by (intro bexI [of _ ?e]) (auto simp: new_event_def)
qed

lemma guard_rejects:
  assumes "find_marker_for_escalation (en_rfc3339 env) (rm_escalation m) db \<noteq> None"
    and "sm_resolution args = Some m"
  shows "fst (transition env pre eid sid (SendMessage args) db) \<noteq> Inr r"
proof
  assume "fst (transition env pre eid sid (SendMessage args) db) = Inr r"
  then obtain db' where "transition env pre eid sid (SendMessage args) db = (Inr r, db')"
    by (metis prod.collapse)
  then show False
  proof (rule send_ran)
    fix s t' i
    assume "send_body env s args \<lparr>tx_db = db, tx_execution_id = eid, tx_verified = []\<rparr> = Inr (Inr i, t')"
    with assms show False by (auto simp: send_body_def tx_iffs resolution_guard_iff)
  qed
qed

lemma answer_leaves_marker:
  assumes cur: "session_row sid db = Some cur"
    and first: "transition env pre eid sid (SendMessage args) db = (Inr r, db')"
    and m: "sm_resolution args = Some m"
    and esc: "0 < esc_id (rm_escalation m)" "esc_id (rm_escalation m) \<le> i64_max"
      "esc_id (rm_escalation m) < next_event_id db"
  shows "\<exists>e \<in> set (events db'). ev_execution_id e = esc_execution_id (rm_escalation m) \<and>
    ev_type e = EvPlatform \<and> esc_id (rm_escalation m) < ev_id e \<and>
    (\<forall>fmt. marker_candidates fmt (rm_escalation m) e \<noteq> [])"
  using first
proof (rule send_ran)
  let ?t = "\<lparr>tx_db = db, tx_execution_id = eid, tx_verified = []\<rparr>"
  fix s t' i
  assume s: "session_row sid pre = Some s" "s_id s = sid" "s_execution_id s = eid"
    and body: "send_body env s args ?t = Inr (Inr i, t')" and db': "db' = tx_db t'"
  from body show ?thesis
  proof (rule send_body_parts)
    show "session_row (s_id s) (tx_db ?t) = Some cur" "tx_execution_id ?t = s_execution_id s"
      using cur s by simp_all
  next
    fix t1 t2
    assume g: "resolution_guard env (sm_resolution args) ?t = (Inr ((), ?t) :: (rejected + int) + unit \<times> exec_tx)"
      and "tx_execution_id t1 = tx_execution_id ?t" "next_event_id (tx_db t1) = next_event_id (tx_db ?t) + 1"
      and w: "write_marker env (sm_resolution args) (next_event_id (tx_db ?t)) (clock (tx_db ?t)) t1
        = (Inr ((), t2) :: (rejected + int) + unit \<times> exec_tx)"
      and "adds_platform t2 t'"
    from g m have "esc_execution_id (rm_escalation m) = eid" by (simp add: resolution_guard_iff)
    with write_marker_resolves [OF w [unfolded m] esc(1,2)] esc(3) \<open>adds_platform t2 t'\<close>
      \<open>tx_execution_id t1 = _\<close> \<open>next_event_id (tx_db t1) = _\<close>
    show ?thesis by (auto simp: adds_platform_def db')
  qed
qed

text \<open>
  C2. A decision is resolved at most once. After a message that answers an escalation was
  accepted, and whatever is appended to the log since, every further message that carries a
  resolution of the same escalation is refused and changes nothing, to whichever session it is
  sent and however stale the rows it was prepared from.
\<close>

theorem decision_answered_once:
  assumes "session_row sid db \<noteq> None"
    and first: "transition env pre eid sid (SendMessage args) db = (Inr r, db')"
    and m: "sm_resolution args = Some m"
    and esc: "0 < esc_id (rm_escalation m)" "esc_id (rm_escalation m) \<le> i64_max"
      "esc_id (rm_escalation m) < next_event_id db"
    and later: "appends db' db2"
    and second: "transition env2 pre2 eid2 sid2 (SendMessage args2) db2 = (res, db3)"
      "sm_resolution args2 = Some m2" "rm_escalation m2 = rm_escalation m"
  shows "(\<exists>e. res = Inl e) \<and> db3 = db2"
proof -
  obtain cur where "session_row sid db = Some cur" using assms(1) by blast
  from answer_leaves_marker [OF this first m esc] later
  obtain e where "e \<in> set (events db2)" "ev_execution_id e = esc_execution_id (rm_escalation m)"
      "ev_type e = EvPlatform" "esc_id (rm_escalation m) < ev_id e"
      "\<And>fmt. marker_candidates fmt (rm_escalation m) e \<noteq> []"
    by (fastforce simp: appends_def)
  then have "find_marker_for_escalation (en_rfc3339 env2) (rm_escalation m2) db2 \<noteq> None"
    unfolding second(3) by (intro find_marker_complete)
  from guard_rejects [OF this second(2), of pre2 eid2 sid2] second(1)
  obtain err where "res = Inl err" by (cases res) auto
  with op_transition [of db2 env2 pre2 eid2 sid2 "SendMessage args2"] second(1)
  show ?thesis by (auto simp: op_ok_def)
qed

definition demo_message :: send_message_args where
  "demo_message = plain_message (JObj [(''message'', JStr ''hi'')])"

lemma demo_send: "fst (transition demo_env demo_db ''e'' ''k'' (SendMessage demo_message) demo_db) = Inr (Some 1)"
  by code_simp

theorem send_message_effect_witness:
  "inbox_of ''k'' (snd (transition demo_env demo_db ''e'' ''k'' (SendMessage demo_message) demo_db)) =
     [\<lparr>ta_execution_id = ''e'', ta_session_id = ''k'', ta_payload = JObj [(''message'', JStr ''hi'')]\<rparr>]"
proof -
  let ?p = "transition demo_env demo_db ''e'' ''k'' (SendMessage demo_message) demo_db"
  have "?p = (Inr (Some 1), snd ?p)" using demo_send by (cases ?p) simp
  from send_message_effect [OF demo_run(2) this] show ?thesis
    by (simp add: inbox_of_def demo_defs demo_message_def plain_message_def)
qed

definition demo_escalation :: escalation where
  "demo_escalation = \<lparr>esc_id = 1, esc_execution_id = ''e'', esc_session_id = ''k'', esc_created_at = 0,
     esc_data = \<lparr>ed_batch_id = ''b'', ed_importance = ''high'', ed_questions = []\<rparr>\<rparr>"

definition demo_answer :: "string \<Rightarrow> send_message_args" where
  "demo_answer a = demo_message\<lparr>sm_resolution := Some \<lparr>rm_escalation = demo_escalation, rm_answer_text = Some a\<rparr>\<rparr>"

definition demo_db2 :: db where
  "demo_db2 = demo_db\<lparr>next_event_id := 2\<rparr>"

lemma demo_answered:
  "fst (transition demo_env demo_db2 ''e'' ''k'' (SendMessage (demo_answer ''yes'')) demo_db2) = Inr (Some 2)"
  "session_row ''k'' demo_db2 \<noteq> None"
  by code_simp+

theorem decision_answered_once_witness:
  "let db1 = snd (transition demo_env demo_db2 ''e'' ''k'' (SendMessage (demo_answer ''yes'')) demo_db2)
   in snd (transition demo_env db1 ''e'' ''k'' (SendMessage (demo_answer ''no'')) db1) = db1"
proof -
  let ?p = "transition demo_env demo_db2 ''e'' ''k'' (SendMessage (demo_answer ''yes'')) demo_db2"
  let ?q = "transition demo_env (snd ?p) ''e'' ''k'' (SendMessage (demo_answer ''no'')) (snd ?p)"
  have p: "?p = (Inr (Some 2), snd ?p)" using demo_answered(1) by (cases ?p) simp
  have m: "sm_resolution (demo_answer a) = Some \<lparr>rm_escalation = demo_escalation, rm_answer_text = Some a\<rparr>" for a
    by (simp add: demo_answer_def)
  have "(\<exists>e. fst ?q = Inl e) \<and> snd ?q = snd ?p"
    by (rule decision_answered_once [OF demo_answered(2) p m _ _ _ appends_refl _ m])
      (simp_all add: demo_escalation_def demo_db2_def i64_max_def)
  then show ?thesis by (simp add: Let_def)
qed

section \<open>Reports of the worker\<close>

lemma aborts_executor_body: "aborts_err (executor_body session st worker meta)"
  unfolding executor_body_def Let_def state_event_def platform_event_def report_update_def
  by (cases st; simp; intro aborts_err_rules)

lemma state_event_iff:
  "state_event sid p t = (Inr (u, t') :: (rejected + 'r) + unit \<times> exec_tx) \<longleftrightarrow>
     (\<exists>e. insert_in_tx (Some sid) EvStateChange (to_string p) t = Inr (e, t'))"
  by (auto simp: state_event_def tx_iffs)

lemma platform_event_iff:
  "platform_event sid p t = (Inr (u, t') :: (rejected + 'r) + unit \<times> exec_tx) \<longleftrightarrow>
     (\<exists>e. insert_in_tx (Some sid) EvPlatform (to_string p) t = Inr (e, t'))"
  by (auto simp: platform_event_def tx_iffs)

text \<open>The row a report leaves.\<close>

definition reported_row :: "ex_state \<Rightarrow> timestamp \<Rightarrow> session \<Rightarrow> session" where
  "reported_row st now s =
     (case st of
        Crashed \<Rightarrow> (clear_command s)\<lparr>s_executor_state := Crashed, s_updated_at := now\<rparr>
      | Idle \<Rightarrow> s\<lparr>s_executor_state := Idle, s_updated_at := now,
          s_recovery_attempts := (if 0 < s_recovery_attempts s then 0 else s_recovery_attempts s)\<rparr>
      | _ \<Rightarrow> s\<lparr>s_executor_state := st, s_updated_at := now\<rparr>)"

lemma clear_command_sel [simp]:
  "s_id (clear_command s) = s_id s" "s_outcome (clear_command s) = s_outcome s"
  "s_desired (clear_command s) = s_desired s" "s_execution_id (clear_command s) = s_execution_id s"
  "s_parent_session_id (clear_command s) = s_parent_session_id s"
  by (simp_all add: clear_command_def)

lemma report_update_iff:
  "report_update sid worker f t = (Inr ((), t') :: (rejected + unit) + unit \<times> exec_tx) \<longleftrightarrow>
     (\<exists>s \<in> set (sessions (tx_db t)). reportable sid worker s) \<and>
     t' = tx_put (update_sessions (reportable sid worker) f (tx_db t)) t"
  (is "?l \<longleftrightarrow> ?ex \<and> ?eq")
proof -
  let ?n = "sql_count (reportable sid worker) (sessions (tx_db t))"
  have "?l \<longleftrightarrow> ?n \<noteq> 0 \<and> ?eq"
    unfolding report_update_def tx_bind_iff tx_update_sessions_iff tx_fail_if_iff by blast
  moreover have "?n \<noteq> 0 \<longleftrightarrow> ?ex" by (simp only: sql_count_zero_iff) blast
  ultimately show ?thesis by (simp only:)
qed

lemma session_row_report:
  assumes "session_row sid d = Some cur" and "\<And>now s. s_id (f now s) = s_id s"
  shows "session_row i (update_sessions (reportable sid worker) f d) =
    (if i = sid \<and> reportable sid worker cur then Some (f (clock d) cur) else session_row i d)"
proof -
  have *: "session_row i (update_sessions (reportable sid worker) f d) =
      map_option (\<lambda>s. if reportable sid worker s then f (clock d) s else s) (session_row i d)"
    by (rule session_row_update) (rule assms(2))
  show ?thesis
  proof (cases "session_row i d")
    case (Some s)
    then have "s_id s = i" using session_rowD by blast
    with assms(1) Some show ?thesis unfolding * by (cases "i = sid") (auto simp: reportable_def)
  qed (use assms(1) in \<open>auto simp: *\<close>)
qed

lemma reportable_unique:
  assumes "distinct (map s_id (sessions d))" and "session_row sid d = Some cur"
    and "s \<in> set (sessions d)" "reportable sid worker s"
  shows "reportable sid worker cur"
  using assms key_inj [OF assms(1,3), of cur] session_rowD [OF assms(2)] by (auto simp: reportable_def)

lemma executor_body_parts:
  assumes "executor_body session st worker meta t = Inr (r, t')"
    and "distinct (map s_id (sessions (tx_db t)))"
    and cur: "session_row (s_id session) (tx_db t) = Some cur"
  shows "reportable (s_id session) worker cur"
    and "session_row i (tx_db t') = (if i = s_id session
       then Some (reported_row st (clock (tx_db t)) cur) else session_row i (tx_db t))"
    and "\<exists>new. events (tx_db t') = events (tx_db t) @ new \<and>
       ((\<exists>e \<in> set new. ev_type e = EvStateChange) \<longleftrightarrow> st \<noteq> Unassigned \<and> s_executor_state cur \<noteq> st)"
proof -
  note u = reportable_unique [OF assms(2) cur]
  have upd: "session_row i (update_sessions (reportable (s_id session) worker) f d) =
    (if i = s_id session \<and> reportable (s_id session) worker cur then Some (f (clock d) cur) else session_row i d)"
    if "\<And>now s. s_id (f now s) = s_id s" "sessions d = sessions (tx_db t)" for f d i
    using session_row_report [of "s_id session" d cur f i worker] cur that by (simp add: session_row_def)
  show "reportable (s_id session) worker cur"
    using assms(1) u
    by (cases st) (auto simp: executor_body_def Let_def tx_iffs report_update_iff cur get_session_def
        platform_event_iff dest!: insert_in_tx_db(1) split: if_splits)
  then show "session_row i (tx_db t') = (if i = s_id session
       then Some (reported_row st (clock (tx_db t)) cur) else session_row i (tx_db t))"
    using assms(1)
    by (cases st) (auto simp: executor_body_def Let_def tx_iffs report_update_iff cur get_session_def reported_row_def
        platform_event_iff state_event_iff upd dest!: insert_in_tx_db(1) split: if_splits)
  show "\<exists>new. events (tx_db t') = events (tx_db t) @ new \<and>
       ((\<exists>e \<in> set new. ev_type e = EvStateChange) \<longleftrightarrow> st \<noteq> Unassigned \<and> s_executor_state cur \<noteq> st)"
    using assms(1)
    by (cases st) (auto simp: executor_body_def Let_def tx_iffs report_update_iff cur get_session_def new_event_def
        platform_event_iff state_event_iff dest!: insert_in_tx_db(1) split: if_splits)
qed

text \<open>
  C23. A worker's report takes effect only on a session the worker owns and that is open or still
  owes the answer to a command. Then the session shows the reported state and nothing else of it
  changes, except that a crash clears the outstanding command and an idle report resets the
  count of recoveries; no other session changes, and a state change is logged exactly when the
  state changed (the report of unassigned logs none). A report of any other worker is refused.
\<close>

theorem executor_report_effect:
  assumes "db_wf db" and cur: "session_row sid db = Some cur"
    and run: "transition env pre eid sid (SetExecutorState st worker meta) db = (Inr r, db')"
  shows "s_worker_id cur = Some worker \<and> (s_outcome cur = None \<or> s_command_token cur \<noteq> None) \<and>
    (\<forall>i. session_row i db' = (if i = sid then Some (reported_row st (clock db) cur) else session_row i db)) \<and>
    (\<exists>new. events db' = events db @ new \<and>
       ((\<exists>e \<in> set new. ev_type e = EvStateChange) \<longleftrightarrow> st \<noteq> Unassigned \<and> s_executor_state cur \<noteq> st))"
proof -
  let ?t = "\<lparr>tx_db = db, tx_execution_id = eid, tx_verified = []\<rparr>"
  from run obtain s where s: "session_row sid pre = Some s" "s_execution_id s = eid"
    and "run_tx (begin_failed ''begin executor state tx failed'') eid (executor_body s st worker meta) db = (Inr (), db')"
    by (auto simp: transition_def get_session_def set_executor_state_def no_event_def
        split: sum.splits if_splits prod.splits option.splits)
  then obtain t' where body: "executor_body s st worker meta ?t = Inr (Inr (), t')" and db': "db' = tx_db t'"
    by (auto elim!: run_tx_committed [OF _ begin_failed_Inl aborts_executor_body])
  have id: "s_id s = sid" using session_rowD [OF s(1)] by simp
  have d: "distinct (map s_id (sessions (tx_db ?t)))" using assms(1) by (simp add: db_wf_def)
  have row: "session_row (s_id s) (tx_db ?t) = Some cur" using cur id by simp
  show ?thesis
    using executor_body_parts [OF body d row] by (auto simp: db' id reportable_def)
qed

lemma demo_report:
  "fst (transition demo_env demo_db ''e'' ''k'' (SetExecutorState Idle ''w'' None) demo_db) = Inr None"
  by code_simp

theorem executor_report_effect_witness:
  "session_row ''k'' (snd (transition demo_env demo_db ''e'' ''k'' (SetExecutorState Idle ''w'' None) demo_db)) =
     Some (reported_row Idle 7 (demo_session ''k'' (Some ''r'') Running))"
proof -
  let ?p = "transition demo_env demo_db ''e'' ''k'' (SetExecutorState Idle ''w'' None) demo_db"
  have "?p = (Inr None, snd ?p)" using demo_report by (cases ?p) simp
  from executor_report_effect [OF demo_db_wf demo_run(2) this] show ?thesis
    by (simp add: demo_db_def)
qed

end
