(* ===== verification/Text.thy ===== *)
theory Text
  imports Prelude "HOL-Library.Word"
begin

text \<open>
  The functions of Rust's standard library on byte strings that the parsers of the program use:
  \<open>split_once\<close>, \<open>rsplit_once\<close>, \<open>strip_prefix\<close>, \<open>strip_suffix\<close>, \<open>split\<close>, \<open>str::parse\<close>
  for unsigned integers and the number formats \<open>{}\<close> and \<open>{:x}\<close>.
\<close>

section \<open>Cutting strings\<close>

fun split_once :: "char \<Rightarrow> string \<Rightarrow> (string \<times> string) option" where
  "split_once c [] = None"
| "split_once c (x # xs) = (if x = c then Some ([], xs) else map_option (\<lambda>(a, b). (x # a, b)) (split_once c xs))"

definition rsplit_once :: "char \<Rightarrow> string \<Rightarrow> (string \<times> string) option" where
  "rsplit_once c s = map_option (\<lambda>(a, b). (rev b, rev a)) (split_once c (rev s))"

definition strip_prefix :: "string \<Rightarrow> string \<Rightarrow> string option" where
  "strip_prefix p s = (if take (length p) s = p then Some (drop (length p) s) else None)"

definition strip_suffix :: "string \<Rightarrow> string \<Rightarrow> string option" where
  "strip_suffix p s = map_option rev (strip_prefix (rev p) (rev s))"

fun split_on :: "char \<Rightarrow> string \<Rightarrow> string list" where
  "split_on c [] = [[]]"
| "split_on c (x # xs) = (if x = c then [] # split_on c xs
     else case split_on c xs of [] \<Rightarrow> [[x]] | y # ys \<Rightarrow> (x # y) # ys)"

lemma split_once_append: "c \<notin> set a \<Longrightarrow> split_once c (a @ c # b) = Some (a, b)"
  by (induction a) auto

lemma split_once_none: "c \<notin> set s \<Longrightarrow> split_once c s = None"
  by (induction s) auto

lemma split_once_SomeD: "split_once c s = Some (a, b) \<Longrightarrow> s = a @ c # b \<and> c \<notin> set a"
  by (induction s arbitrary: a) (auto split: if_splits)

lemma rsplit_once_append: "c \<notin> set b \<Longrightarrow> rsplit_once c (a @ c # b) = Some (a, b)"
  by (simp add: rsplit_once_def split_once_append)

lemma strip_prefix_append [simp]: "strip_prefix p (p @ s) = Some s"
  by (simp add: strip_prefix_def)

lemma strip_prefix_SomeD: "strip_prefix p s = Some t \<Longrightarrow> s = p @ t"
  by (auto simp: strip_prefix_def split: if_splits) (metis append_take_drop_id)

lemma strip_suffix_append [simp]: "strip_suffix p (s @ p) = Some s"
  by (simp add: strip_suffix_def)

lemma strip_suffix_SomeD: "strip_suffix p s = Some t \<Longrightarrow> s = t @ p"
  by (auto simp: strip_suffix_def dest!: strip_prefix_SomeD) (metis rev_append rev_rev_ident)

lemma split_on_nonempty: "split_on c s \<noteq> []"
  by (cases s) (auto split: list.splits)

lemma split_on_none: "c \<notin> set s \<Longrightarrow> split_on c s = [s]"
  by (induction s) auto

lemma split_on_append: "c \<notin> set a \<Longrightarrow> split_on c (a @ c # b) = a # split_on c b"
  by (induction a) (auto split: list.splits simp: split_on_nonempty)

lemma split_on_pieces: "x \<in> set (split_on c s) \<Longrightarrow> set x \<subseteq> set s - {c}"
proof (induction s arbitrary: x)
  case (Cons a s)
  obtain y ys where s: "split_on c s = y # ys" using split_on_nonempty by (meson neq_Nil_conv)
  have "set y \<subseteq> set s - {c}" "z \<in> set ys \<Longrightarrow> set z \<subseteq> set s - {c}" for z
    using Cons.IH s by auto
  with Cons.prems show ?case by (auto simp: s split: if_splits)
qed simp

section \<open>Numbers\<close>

definition digit_of :: "nat \<Rightarrow> char \<Rightarrow> nat option" where
  "digit_of b c = (let n = of_char c; v = (if 48 \<le> n \<and> n \<le> 57 then n - 48
       else if 97 \<le> n \<and> n \<le> 122 then n - 87 else if 65 \<le> n \<and> n \<le> 90 then n - 55 else 36)
     in if v < b \<and> v < 36 then Some v else None)"

definition digit_char :: "nat \<Rightarrow> char" where
  "digit_char n = (if n < 10 then char_of (48 + n) else char_of (87 + n))"

definition is_digit :: "char \<Rightarrow> bool" where
  "is_digit c \<longleftrightarrow> 48 \<le> (of_char c :: nat) \<and> (of_char c :: nat) \<le> 57"

definition digits_value :: "nat \<Rightarrow> string \<Rightarrow> nat" where
  "digits_value b s = foldl (\<lambda>n c. n * b + the (digit_of b c)) 0 s"

text \<open>\<open>str::parse\<close> of an unsigned type with maximum \<open>m\<close>: a leading plus is accepted.\<close>

definition parse_uint :: "nat \<Rightarrow> string \<Rightarrow> nat option" where
  "parse_uint m s =
     (let t = (case s of c # x # xs \<Rightarrow> if c = CHR ''+'' then x # xs else s | _ \<Rightarrow> s) in
      if t \<noteq> [] \<and> list_all is_digit t \<and> digits_value 10 t \<le> m then Some (digits_value 10 t) else None)"

fun show_base :: "nat \<Rightarrow> nat \<Rightarrow> string" where
  "show_base b n = (if b < 2 \<or> n < b then [digit_char n] else show_base b (n div b) @ [digit_char (n mod b)])"

declare show_base.simps [simp del]

abbreviation show_dec :: "nat \<Rightarrow> string" where "show_dec \<equiv> show_base 10"

abbreviation show_hex :: "nat \<Rightarrow> string" where "show_hex \<equiv> show_base 16"

lemma digit_of_char: "n < b \<Longrightarrow> b \<le> 16 \<Longrightarrow> digit_of b (digit_char n) = Some n"
  by (auto simp: digit_of_def digit_char_def Let_def)

lemma is_digit_10: "is_digit c \<longleftrightarrow> digit_of 10 c \<noteq> None"
  by (auto simp: digit_of_def is_digit_def Let_def)

lemma show_base_nonempty [simp]: "show_base b n \<noteq> []"
  by (subst show_base.simps) auto

lemma digits_value_snoc: "digits_value b (s @ [c]) = digits_value b s * b + the (digit_of b c)"
  by (simp add: digits_value_def)

lemma show_base_value:
  assumes "2 \<le> b" and "b \<le> 16"
  shows "digits_value b (show_base b n) = n \<and> (\<forall>c \<in> set (show_base b n). digit_of b c \<noteq> None)"
  using assms
proof (induction b n rule: show_base.induct)
  case (1 b n)
  show ?case
  proof (cases "n < b")
    case True
    then show ?thesis using 1 by (simp add: show_base.simps [of b n] digits_value_def digit_of_char)
  next
    case False
    have "digit_of b (digit_char (n mod b)) = Some (n mod b)" using 1 by (intro digit_of_char) auto
    with False 1 show ?thesis by (auto simp: show_base.simps [of b n] digits_value_snoc)
  qed
qed

lemma length_show_base:
  assumes "2 \<le> b" and "n < b ^ Suc k"
  shows "length (show_base b n) \<le> Suc k"
  using assms
proof (induction k arbitrary: n)
  case 0
  then show ?case by (simp add: show_base.simps [of b n])
next
  case (Suc k)
  show ?case
  proof (cases "n < b")
    case False
    have "n div b < b ^ Suc k" using Suc.prems by (simp add: less_mult_imp_div_less mult.commute)
    with False Suc show ?thesis by (simp add: show_base.simps [of b n])
  qed (simp add: show_base.simps [of b n])
qed

lemma show_base_leading:
  assumes "2 \<le> b" and "b \<le> 16"
  shows "hd (show_base b n) = CHR ''0'' \<longrightarrow> length (show_base b n) = 1"
  using assms
proof (induction b n rule: show_base.induct)
  case (1 b n)
  show ?case
  proof (cases "n < b")
    case False
    have "hd (show_base b (n div b)) \<noteq> CHR ''0''" if "n div b < b"
    proof -
      from False 1 that have "0 < n div b" by (simp add: div_greater_zero_iff)
      with that have "show_base b (n div b) = [digit_char (n div b)]" by (simp add: show_base.simps [of b "n div b"])
      moreover have "digit_of b (CHR ''0'') = Some 0" using 1 by (simp add: digit_of_def)
      ultimately show ?thesis using digit_of_char [OF that] 1 \<open>0 < n div b\<close> by auto
    qed
    moreover have "length (show_base b (n div b)) \<noteq> 1" if "\<not> n div b < b"
      using that 1 by (simp add: show_base.simps [of b "n div b"])
    ultimately show ?thesis using False 1 by (auto simp: show_base.simps [of b n])
  qed (simp add: show_base.simps [of b n])
qed

lemma show_dec_digits: "list_all is_digit (show_dec n)" and show_dec_value [simp]: "digits_value 10 (show_dec n) = n"
  using show_base_value [of 10 n] by (simp_all add: list_all_iff is_digit_10)

lemma show_dec_hd: "is_digit (hd (show_dec n))"
  using show_dec_digits [of n] show_base_nonempty [of 10 n] by (cases "show_dec n") auto

lemma parse_uint_show: "parse_uint m (show_dec n) = (if n \<le> m then Some n else None)"
proof -
  have "hd (show_dec n) \<noteq> CHR ''+''" using show_dec_hd [of n] by (auto simp: is_digit_def)
  then have "(case show_dec n of c # x # xs \<Rightarrow> if c = CHR ''+'' then x # xs else show_dec n | _ \<Rightarrow> show_dec n) = show_dec n"
    by (cases "show_dec n") (auto split: list.splits)
  then show ?thesis using show_dec_digits [of n] by (simp add: parse_uint_def)
qed

end
