(* ===== verification/Ip_Text.thy ===== *)
theory Ip_Text
  imports Text
begin

text \<open>
  IP addresses as Rust's standard library has them (\<open>std::net::{IpAddr, Ipv4Addr, Ipv6Addr}\<close>):
  the octets of an IPv4 address, the segments of an IPv6 address, their text (\<open>Display\<close>, with
  the longest run of zero segments written \<open>::\<close>) and the parser behind \<open>str::parse\<close>. The parser
  reads back what \<open>Display\<close> writes.
\<close>

type_synonym octet = "8 word"
type_synonym segment = "16 word"

datatype ip_addr =
    V4 octet octet octet octet
  | V6 segment segment segment segment segment segment segment segment

fun segments :: "ip_addr \<Rightarrow> segment list" where
  "segments (V6 a b c d e f g h) = [a, b, c, d, e, f, g, h]"
| "segments (V4 a b c d) = []"

fun of_segments :: "segment list \<Rightarrow> ip_addr option" where
  "of_segments [a, b, c, d, e, f, g, h] = Some (V6 a b c d e f g h)"
| "of_segments _ = None"

definition be16 :: "octet \<Rightarrow> octet \<Rightarrow> segment" where
  "be16 a b = of_nat (unat a * 256 + unat b)"

definition high :: "segment \<Rightarrow> octet" where "high g = of_nat (unat g div 256)"
definition low :: "segment \<Rightarrow> octet" where "low g = of_nat (unat g mod 256)"

lemma unat_octet: "unat (a :: octet) < 256"
  by (rule order_less_le_trans [OF unsigned_less]) simp

lemma unat_segment: "unat (g :: segment) < 65536"
  by (rule order_less_le_trans [OF unsigned_less]) simp

lemma unat_of_nat_octet: "n < 256 \<Longrightarrow> unat (of_nat n :: octet) = n"
  by (simp add: unsigned_of_nat take_bit_nat_eq_self)

lemma be16_high_low [simp]: "be16 (high g) (low g) = g"
proof -
  have "unat (high g) = unat g div 256" "unat (low g) = unat g mod 256"
    using unat_segment [of g] by (simp_all add: high_def low_def unat_of_nat_octet less_mult_imp_div_less)
  then show ?thesis by (simp add: be16_def)
qed

section \<open>Display\<close>

definition show_v4 :: "octet \<Rightarrow> octet \<Rightarrow> octet \<Rightarrow> octet \<Rightarrow> string" where
  "show_v4 a b c d = show_dec (unat a) @ ''.'' @ show_dec (unat b) @ ''.'' @ show_dec (unat c) @ ''.'' @ show_dec (unat d)"

text \<open>The longest run of zero segments, the first of several: its start and length.\<close>

fun zero_run :: "nat \<Rightarrow> segment list \<Rightarrow> nat \<times> nat \<Rightarrow> nat \<times> nat \<Rightarrow> nat \<times> nat" where
  "zero_run i [] cur longest = longest"
| "zero_run i (g # gs) (cs, cl) longest =
     (if g = 0 then
        let cur = (if cl = 0 then i else cs, Suc cl)
        in zero_run (Suc i) gs cur (if snd longest < snd cur then cur else longest)
      else zero_run (Suc i) gs (0, 0) longest)"

fun show_segments :: "segment list \<Rightarrow> string" where
  "show_segments [] = []"
| "show_segments (g # gs) = show_hex (unat g) @ concat (map (\<lambda>h. CHR '':'' # show_hex (unat h)) gs)"

fun show_ip :: "ip_addr \<Rightarrow> string" where
  "show_ip (V4 a b c d) = show_v4 a b c d"
| "show_ip (V6 a b c d e f g h) =
     (if [a, b, c, d, e, f] = [0, 0, 0, 0, 0, 65535]
      then ''::ffff:'' @ show_v4 (high g) (low g) (high h) (low h)
      else case zero_run 0 [a, b, c, d, e, f, g, h] (0, 0) (0, 0) of (start, len) \<Rightarrow>
        if 1 < len
        then show_segments (take start [a, b, c, d, e, f, g, h]) @ ''::'' @
          show_segments (drop (start + len) [a, b, c, d, e, f, g, h])
        else show_segments [a, b, c, d, e, f, g, h])"

section \<open>Parsing\<close>

text \<open>A reader takes a prefix of its input, or leaves it alone.\<close>

definition read_number :: "nat \<Rightarrow> nat \<Rightarrow> bool \<Rightarrow> nat \<Rightarrow> string \<Rightarrow> (nat \<times> string) option" where
  "read_number b max_digits allow_zero_prefix m s =
     (let ds = takeWhile (\<lambda>c. digit_of b c \<noteq> None) s; n = digits_value b ds in
      if ds = [] \<or> max_digits < length ds \<or> m < n \<or> \<not> allow_zero_prefix \<and> hd ds = CHR ''0'' \<and> 1 < length ds
      then None else Some (n, drop (length ds) s))"

definition read_char :: "char \<Rightarrow> string \<Rightarrow> string option" where
  "read_char c s = strip_prefix [c] s"

definition read_octet :: "string \<Rightarrow> (octet \<times> string) option" where
  "read_octet s = map_option (\<lambda>(n, r). (of_nat n, r)) (read_number 10 3 False 255 s)"

definition read_group :: "string \<Rightarrow> (segment \<times> string) option" where
  "read_group s = map_option (\<lambda>(n, r). (of_nat n, r)) (read_number 16 4 True 65535 s)"

definition read_ipv4 :: "string \<Rightarrow> ((octet \<times> octet \<times> octet \<times> octet) \<times> string) option" where
  "read_ipv4 s =
     Option.bind (read_octet s) (\<lambda>(a, s1). Option.bind (read_char (CHR ''.'') s1) (\<lambda>t1.
     Option.bind (read_octet t1) (\<lambda>(b, s2). Option.bind (read_char (CHR ''.'') s2) (\<lambda>t2.
     Option.bind (read_octet t2) (\<lambda>(c, s3). Option.bind (read_char (CHR ''.'') s3) (\<lambda>t3.
     Option.bind (read_octet t3) (\<lambda>(d, s4). Some ((a, b, c, d), s4))))))))"

definition read_sep :: "nat \<Rightarrow> (string \<Rightarrow> ('a \<times> string) option) \<Rightarrow> string \<Rightarrow> ('a \<times> string) option" where
  "read_sep i f s = (if 0 < i then Option.bind (read_char (CHR '':'') s) f else f s)"

text \<open>At most \<open>n\<close> groups from index \<open>i\<close>; an IPv4 address ends them, and says so.\<close>

fun read_groups :: "nat \<Rightarrow> nat \<Rightarrow> string \<Rightarrow> segment list \<times> bool \<times> string" where
  "read_groups i 0 s = ([], False, s)"
| "read_groups i (Suc n) s =
     (case (if 0 < n then read_sep i read_ipv4 s else None) of
        Some ((a, b, c, d), s') \<Rightarrow> ([be16 a b, be16 c d], True, s')
      | None \<Rightarrow>
          (case read_sep i read_group s of
             None \<Rightarrow> ([], False, s)
           | Some (g, s') \<Rightarrow> (case read_groups (Suc i) n s' of (gs, v4, r) \<Rightarrow> (g # gs, v4, r))))"

definition parse_v6 :: "string \<Rightarrow> ip_addr option" where
  "parse_v6 s =
     (case read_groups 0 8 s of (head, head_v4, r) \<Rightarrow>
      if length head = 8 then if r = [] then of_segments head else None
      else if head_v4 then None
      else Option.bind (strip_prefix ''::'' r) (\<lambda>t.
        case read_groups 0 (7 - length head) t of (tail, _, r') \<Rightarrow>
        if r' = [] then of_segments (head @ replicate (8 - length head - length tail) 0 @ tail) else None))"

section \<open>Reading back what is written\<close>

definition ends_number :: "nat \<Rightarrow> string \<Rightarrow> bool" where
  "ends_number b s \<longleftrightarrow> s = [] \<or> digit_of b (hd s) = None"

lemma takeWhile_stop:
  "\<forall>c \<in> set s. P c \<Longrightarrow> r = [] \<or> \<not> P (hd r) \<Longrightarrow> takeWhile P (s @ r) = s"
  by (rule takeWhile_block)

lemma read_number_show:
  assumes "2 \<le> b" "b \<le> 16" and "n \<le> m" and "n < b ^ k" "0 < k" and "ends_number b r"
  shows "read_number b k z m (show_base b n @ r) = Some (n, r)"
proof -
  have v: "digits_value b (show_base b n) = n" "\<forall>c \<in> set (show_base b n). digit_of b c \<noteq> None"
    using show_base_value [OF assms(1,2)] by auto
  have "takeWhile (\<lambda>c. digit_of b c \<noteq> None) (show_base b n @ r) = show_base b n"
    by (rule takeWhile_stop [OF v(2)]) (use assms(6) in \<open>auto simp: ends_number_def\<close>)
  then show ?thesis
    using assms(3,5) v(1) length_show_base [of b n "k - 1"] assms(1,4) show_base_leading [OF assms(1,2), of n]
    by (simp add: read_number_def Let_def)
qed

lemma read_octet_show: "ends_number 10 r \<Longrightarrow> read_octet (show_dec (unat a) @ r) = Some (a, r)"
  using read_number_show [of 10 "unat a" 255 3 r False] unat_octet [of a] by (simp add: read_octet_def)

lemma read_group_show: "ends_number 16 r \<Longrightarrow> read_group (show_hex (unat g) @ r) = Some (g, r)"
  using read_number_show [of 16 "unat g" 65535 4 r True] unat_segment [of g] by (simp add: read_group_def)

lemma read_char_cons [simp]: "read_char c (c # s) = Some s"
  using strip_prefix_append [of "[c]" s] by (simp add: read_char_def)

lemma not_digit [simp]: "digit_of b (CHR ''.'') = None" "digit_of b (CHR '':'') = None" "digit_of b (CHR ''/'') = None"
  "digit_of b (CHR '']'') = None"
  by (simp_all add: digit_of_def Let_def)

lemma read_ipv4_show: "ends_number 10 r \<Longrightarrow> read_ipv4 (show_v4 a b c d @ r) = Some ((a, b, c, d), r)"
proof -
  have step: "Option.bind (read_octet (show_dec (unat x) @ CHR ''.'' # s)) (\<lambda>(y, s1). Option.bind (read_char (CHR ''.'') s1) (k y)) = k x s"
    for x s k
    by (simp add: read_octet_show ends_number_def)
  assume "ends_number 10 r"
  then show ?thesis
    by (simp only: read_ipv4_def show_v4_def append_assoc append_Cons append_Nil step read_octet_show bind.bind_lunit prod.case)
qed

lemma read_octet_suffix: "read_octet s = Some (a, r) \<Longrightarrow> set r \<subseteq> set s"
  by (auto simp: read_octet_def read_number_def Let_def split: if_splits dest: in_set_dropD)

lemma read_char_SomeD: "read_char c s = Some r \<Longrightarrow> s = c # r"
  by (auto simp: read_char_def dest: strip_prefix_SomeD)

lemma read_ipv4_dot:
  assumes "read_ipv4 s = Some x"
  shows "CHR ''.'' \<in> set s"
proof -
  from assms obtain a s1 t1 where "read_octet s = Some (a, s1)" "read_char (CHR ''.'') s1 = Some t1"
    by (auto simp: read_ipv4_def bind_eq_Some_conv)
  then show ?thesis using read_octet_suffix read_char_SomeD by fastforce
qed

lemma read_ipv4_no_dot: "CHR ''.'' \<notin> set s \<Longrightarrow> read_ipv4 s = None"
  using read_ipv4_dot by (cases "read_ipv4 s") auto

definition colon_groups :: "segment list \<Rightarrow> string" where
  "colon_groups gs = concat (map (\<lambda>h. CHR '':'' # show_hex (unat h)) gs)"

lemma hex_chars: "c \<in> set (show_hex n) \<Longrightarrow> digit_of 16 c \<noteq> None"
  using show_base_value [of 16 n] by auto

lemma no_dot_hex: "CHR ''.'' \<notin> set (show_hex n)"
  using hex_chars by fastforce

lemma no_dot_colon_groups: "CHR ''.'' \<notin> set (colon_groups gs)"
  using no_dot_hex by (auto simp: colon_groups_def)

lemma ends_colon_groups: "ends_number 16 r \<Longrightarrow> ends_number 16 (colon_groups gs @ r)"
  by (cases gs) (simp_all add: colon_groups_def ends_number_def)

lemma read_sep_no_dot: "CHR ''.'' \<notin> set s \<Longrightarrow> read_sep i read_ipv4 s = None"
  by (cases "read_sep i read_ipv4 s")
    (auto simp: read_sep_def bind_eq_Some_conv dest!: read_char_SomeD read_ipv4_dot split: if_splits)

text \<open>What stops the reading of groups: the end, or a second colon.\<close>

definition stops :: "string \<Rightarrow> bool" where
  "stops r \<longleftrightarrow> r = [] \<or> take 2 r = ''::''"

lemma read_group_colon: "read_group [] = None" "read_group (CHR '':'' # r) = None"
  by (simp_all add: read_group_def read_number_def)

lemma stops_sep: "stops r \<Longrightarrow> read_sep i read_group r = None"
  by (auto simp: stops_def read_sep_def read_char_def strip_prefix_def read_group_colon take_Suc_conv_app_nth
      numeral_2_eq_2 split: list.splits) (cases r; auto simp: read_group_colon; cases "tl r"; auto simp: read_group_colon)+

lemma read_colon_groups:
  assumes "length gs \<le> n" and "length gs < n \<longrightarrow> stops r" and "CHR ''.'' \<notin> set r" and "ends_number 16 r"
  shows "read_groups (Suc i) n (colon_groups gs @ r) = (gs, False, r)"
  using assms
proof (induction gs arbitrary: i n)
  case Nil
  then show ?case
    by (cases n) (simp_all add: colon_groups_def read_sep_no_dot stops_sep)
next
  case (Cons g gs)
  then obtain m where n: "n = Suc m" by (cases n) auto
  have c: "colon_groups (g # gs) @ r = CHR '':'' # show_hex (unat g) @ (colon_groups gs @ r)"
    by (simp add: colon_groups_def)
  have nd: "CHR ''.'' \<notin> set (colon_groups (g # gs) @ r)" using Cons.prems no_dot_colon_groups by auto
  have "read_sep (Suc i) read_group (colon_groups (g # gs) @ r) = Some (g, colon_groups gs @ r)"
    unfolding c read_sep_def using Cons.prems ends_colon_groups by (simp add: read_group_show)
  then show ?case
    using Cons n by (simp only: read_groups.simps read_sep_no_dot [OF nd]) simp
qed

lemma show_segments_Cons: "show_segments (g # gs) = show_hex (unat g) @ colon_groups gs"
  by (simp add: colon_groups_def)

lemma read_segments:
  assumes "length gs \<le> n" and "length gs < n \<longrightarrow> stops r" and "CHR ''.'' \<notin> set r" and "ends_number 16 r"
  shows "read_groups 0 n (show_segments gs @ r) = (gs, False, r)"
proof (cases gs)
  case Nil
  with assms show ?thesis by (cases n) (simp_all add: read_sep_no_dot stops_sep)
next
  case (Cons g gs')
  then obtain m where n: "n = Suc m" using assms(1) by (cases n) auto
  have nd: "CHR ''.'' \<notin> set (show_segments (g # gs') @ r)"
    using assms(3) no_dot_colon_groups no_dot_hex by (auto simp: show_segments_Cons simp del: show_segments.simps)
  have "read_sep 0 read_group (show_segments gs @ r) = Some (g, colon_groups gs' @ r)"
    unfolding read_sep_def Cons show_segments_Cons using assms(4) ends_colon_groups by (simp add: read_group_show)
  moreover have "read_groups (Suc 0) m (colon_groups gs' @ r) = (gs', False, r)"
    by (rule read_colon_groups) (use assms Cons n in auto)
  ultimately show ?thesis
    unfolding Cons n by (simp only: read_groups.simps read_sep_no_dot [OF nd] if_cancel option.case prod.case)
qed

lemma zero_run_zeros:
  assumes "snd longest = 0 \<or> fst longest + snd longest \<le> i \<and> (\<forall>j < snd longest. all ! (fst longest + j) = 0)"
    and "snd cur = 0 \<or> fst cur + snd cur = i \<and> (\<forall>j < snd cur. all ! (fst cur + j) = 0)"
    and "drop i all = gs" and "i \<le> length all" and "zero_run i gs cur longest = (start, len)"
  shows "len = 0 \<or> start + len \<le> length all \<and> (\<forall>j < len. all ! (start + j) = 0)"
  using assms
proof (induction i gs cur longest rule: zero_run.induct)
  case (1 i cur longest)
  then show ?case by auto
next
  case (2 i g gs cs cl longest)
  have i: "i < length all" "all ! i = g" "drop (Suc i) all = gs"
  proof -
    show "i < length all" using "2.prems"(3) by (metis drop_eq_Nil list.distinct(1) not_le)
    show "all ! i = g" using "2.prems"(3) by (rule nth_via_drop)
    show "drop (Suc i) all = gs" using "2.prems"(3) by (metis drop_Suc list.sel(3) tl_drop)
  qed
  have longest: "snd longest = 0 \<or> fst longest + snd longest \<le> Suc i \<and> (\<forall>j < snd longest. all ! (fst longest + j) = 0)"
    using "2.prems"(1) by auto
  show ?case
  proof (cases "g = 0")
    case True
    let ?cur = "(if cl = 0 then i else cs, Suc cl)"
    have cur: "fst ?cur + snd ?cur = Suc i \<and> (\<forall>j < snd ?cur. all ! (fst ?cur + j) = 0)"
      using "2.prems"(2) i True by (auto simp: less_Suc_eq)
    show ?thesis
      by (rule "2.IH"(1) [OF True refl]) (use longest cur i "2.prems"(5) True in \<open>auto simp: Let_def split: if_splits\<close>)
  next
    case False
    show ?thesis
      by (rule "2.IH"(2) [OF False]) (use longest i "2.prems"(5) False in auto)
  qed
qed

lemma no_dot_segments: "CHR ''.'' \<notin> set (show_segments gs)"
  using no_dot_colon_groups no_dot_hex by (cases gs) (auto simp: show_segments_Cons simp del: show_segments.simps(2))

lemma parse_plain:
  assumes "length l = 8"
  shows "parse_v6 (show_segments l) = of_segments l"
proof -
  have "read_groups 0 8 (show_segments l @ []) = (l, False, [])"
    by (rule read_segments) (use assms in \<open>simp_all add: ends_number_def\<close>)
  with assms show ?thesis by (simp add: parse_v6_def del: read_groups.simps)
qed

lemma replace_run:
  assumes "start + len \<le> length l" and "\<forall>j < len. l ! (start + j) = z"
  shows "take start l @ replicate len z @ drop (start + len) l = l"
proof -
  have "replicate len z = take len (drop start l)"
    by (rule nth_equalityI) (use assms in auto)
  then show ?thesis
    using append_take_drop_id [of len "drop start l"] by (simp add: add.commute)
qed

lemma parse_run:
  assumes l: "length l = 8" and len: "1 < len" "start + len \<le> 8" and z: "\<forall>j < len. l ! (start + j) = 0"
  shows "parse_v6 (show_segments (take start l) @ ''::'' @ show_segments (drop (start + len) l)) = of_segments l"
proof -
  let ?pre = "take start l" and ?suf = "drop (start + len) l"
  have lens: "length ?pre = start" "length ?suf = 8 - start - len" using l len by auto
  have "read_groups 0 8 (show_segments ?pre @ (''::'' @ show_segments ?suf)) = (?pre, False, ''::'' @ show_segments ?suf)"
    by (rule read_segments) (use lens len no_dot_segments [of ?suf] in \<open>auto simp: stops_def ends_number_def\<close>)
  moreover have "read_groups 0 (7 - start) (show_segments ?suf @ []) = (?suf, False, [])"
    by (rule read_segments) (use lens len in \<open>auto simp: stops_def ends_number_def\<close>)
  moreover have "start \<noteq> 8" "8 - start - (8 - start - len) = len" using len by auto
  moreover have "?pre @ replicate len 0 @ ?suf = l" by (rule replace_run) (use l len z in auto)
  moreover have "strip_prefix ''::'' (''::'' @ show_segments ?suf) = Some (show_segments ?suf)" by (rule strip_prefix_append)
  ultimately show ?thesis
    by (simp only: parse_v6_def prod.case lens if_False append_Nil2 bind.bind_lunit if_True simp_thms)
qed

lemma no_digit: "digit_of 10 c = None \<Longrightarrow> read_octet (c # s) = None"
  by (simp add: read_octet_def read_number_def)

lemma parse_mapped: "parse_v6 (''::ffff:'' @ show_v4 a b c d) = of_segments [0, 0, 0, 0, 0, 65535, be16 a b, be16 c d]"
proof -
  let ?v4 = "show_v4 a b c d"
  have fail: "read_ipv4 (x # s) = None" if "digit_of 10 x = None" for x s
    using no_digit [OF that] by (simp add: read_ipv4_def)
  have c: "digit_of 10 (CHR '':'') = None" "digit_of 10 (CHR ''f'') = None" by (simp_all add: digit_of_def)
  have "read_groups 0 (Suc 7) (''::ffff:'' @ ?v4) = ([], False, ''::ffff:'' @ ?v4)"
    unfolding read_groups.simps read_sep_def by (simp add: fail c read_group_colon)
  then have head: "read_groups 0 8 (''::ffff:'' @ ?v4) = ([], False, ''::ffff:'' @ ?v4)" by simp
  have "char_of (102 :: nat) = CHR ''f''" by code_simp
  then have v: "show_hex 65535 = ''ffff''"
    by (simp add: show_base.simps [of 16 65535] show_base.simps [of 16 4095] show_base.simps [of 16 255]
        show_base.simps [of 16 15] digit_char_def)
  have "read_group (show_hex (unat (65535 :: segment)) @ (CHR '':'' # ?v4)) = Some (65535, CHR '':'' # ?v4)"
    by (rule read_group_show) (simp add: ends_number_def)
  then have g: "read_group (''ffff:'' @ ?v4) = Some (65535, CHR '':'' # ?v4)" by (simp add: v)
  have v4: "read_ipv4 ?v4 = Some ((a, b, c, d), [])"
    using read_ipv4_show [of "[]" a b c d] by (simp add: ends_number_def)
  have "read_groups 0 (Suc (Suc 5)) (''ffff:'' @ ?v4) = ([65535, be16 a b, be16 c d], True, [])"
    unfolding read_groups.simps using g v4 by (simp add: read_sep_def fail c)
  then have tl: "read_groups 0 7 (''ffff:'' @ ?v4) = ([65535, be16 a b, be16 c d], True, [])"
    by (simp add: eval_nat_numeral)
  have "strip_prefix ''::'' (''::'' @ (''ffff:'' @ ?v4)) = Some (''ffff:'' @ ?v4)" by (rule strip_prefix_append)
  then show ?thesis
    using head tl by (simp add: parse_v6_def del: read_groups.simps of_segments.simps)
      (simp add: eval_nat_numeral)
qed

text \<open>\<open>str::parse\<close> reads back what \<open>Display\<close> writes.\<close>

lemma parse_show_v6: "parse_v6 (show_ip (V6 a b c d e f g h)) = Some (V6 a b c d e f g h)"
proof -
  define l where "l = [a, b, c, d, e, f, g, h]"
  obtain start len where z: "zero_run 0 l (0, 0) (0, 0) = (start, len)" by fastforce
  have l: "length l = 8" "of_segments l = Some (V6 a b c d e f g h)" by (simp_all add: l_def)
  have zeros: "len = 0 \<or> start + len \<le> 8 \<and> (\<forall>j < len. l ! (start + j) = 0)"
    using zero_run_zeros [of "(0, 0)" 0 l "(0, 0)" l start len] z l by auto
  have s: "show_ip (V6 a b c d e f g h) =
     (if [a, b, c, d, e, f] = [0, 0, 0, 0, 0, 65535]
      then ''::ffff:'' @ show_v4 (high g) (low g) (high h) (low h)
      else if 1 < len then show_segments (take start l) @ ''::'' @ show_segments (drop (start + len) l)
      else show_segments l)"
    using z by (simp add: l_def)
  show ?thesis
    unfolding s using zeros l parse_plain [OF l(1)] parse_run [OF l(1), of len start]
      parse_mapped [of "high g" "low g" "high h" "low h"] by auto
qed

end
