(* ===== verification/Network_Entry.thy ===== *)
theory Network_Entry
  imports Ip_Text
begin

text \<open>
  \<open>scheduler/src/services/network_policy/entry.rs\<close>: network entries \<open>host:ports\<close>, their parser
  and their canonical text.

  Two libraries are arguments, in the record \<open>net_lib\<close>: \<open>idna\<close>'s \<open>to_ascii\<close> and \<open>ipnet\<close>'s
  prefixes. An \<open>IpNet\<close> is kept as its \<open>addr\<close> and \<open>prefix_len\<close>. The reasons of refusals are the
  constructors of \<open>entry_reason\<close>, one for each message of the code, with the data it shows.
\<close>

type_synonym net = "ip_addr \<times> nat"

record net_lib =
  nl_to_ascii :: "string \<Rightarrow> string option"
  nl_new :: "ip_addr \<Rightarrow> nat \<Rightarrow> net option"
  nl_trunc :: "net \<Rightarrow> net"
  nl_contains :: "net \<Rightarrow> net \<Rightarrow> bool"
  nl_show :: "net \<Rightarrow> string"

section \<open>Hosts and ports\<close>

datatype host_part =
    Name string
  | Wildcard string
  | Addr ip_addr
  | Net net

fun max_prefix :: "ip_addr \<Rightarrow> nat" where
  "max_prefix (V4 _ _ _ _) = 32"
| "max_prefix (V6 _ _ _ _ _ _ _ _) = 128"

definition from_net :: "net \<Rightarrow> host_part" where
  "from_net n = (if snd n = max_prefix (fst n) then Addr (fst n) else Net n)"

fun host_net :: "host_part \<Rightarrow> net option" where
  "host_net (Addr a) = Some (a, max_prefix a)"
| "host_net (Net n) = Some n"
| "host_net _ = None"

fun is_v4 :: "ip_addr \<Rightarrow> bool" where
  "is_v4 (V4 _ _ _ _) = True"
| "is_v4 (V6 _ _ _ _ _ _ _ _) = False"

fun show_host :: "net_lib \<Rightarrow> host_part \<Rightarrow> string" where
  "show_host L (Name n) = n"
| "show_host L (Wildcard s) = ''*.'' @ s"
| "show_host L (Addr a) = (if is_v4 a then show_ip a else ''['' @ show_ip a @ '']'')"
| "show_host L (Net n) = (if is_v4 (fst n) then nl_show L n else ''['' @ nl_show L n @ '']'')"

record port_range =
  pr_lo :: "16 word"
  pr_hi :: "16 word"

definition ALL_PORTS :: port_range where
  "ALL_PORTS = \<lparr>pr_lo = 1, pr_hi = 65535\<rparr>"

definition port_range_new :: "16 word \<Rightarrow> 16 word \<Rightarrow> port_range option" where
  "port_range_new lo hi = (if 1 \<le> lo \<and> lo \<le> hi then Some \<lparr>pr_lo = lo, pr_hi = hi\<rparr> else None)"

definition show_ports :: "port_range \<Rightarrow> string" where
  "show_ports p =
     (if p = ALL_PORTS then ''*''
      else if pr_lo p = pr_hi p then show_dec (unat (pr_lo p))
      else show_dec (unat (pr_lo p)) @ ''-'' @ show_dec (unat (pr_hi p)))"

record entry =
  en_host :: host_part
  en_ports :: port_range

definition show_entry :: "net_lib \<Rightarrow> entry \<Rightarrow> string" where
  "show_entry L e = show_host L (en_host e) @ '':'' @ show_ports (en_ports e)"

datatype entry_reason =
    MissingBracket | MissingPort | UnbracketedV6 | MissingHost
  | InvalidPort string | PortLeadingZero string | PortOutside string | RangeBackwards string
  | WildcardPlace | WildcardAddress | InvalidName | NameTooLong | DigitLabel
  | InvalidV4 | OctetLeadingZero | V6Zone | InvalidV6 | MappedV6
  | InvalidPrefix string | PrefixTooLong nat | HostBits host_part | LoopbackRefused

record entry_error =
  ee_entry :: string
  ee_reason :: entry_reason

section \<open>Parsing\<close>

definition split_host_ports :: "string \<Rightarrow> entry_reason + string \<times> string" where
  "split_host_ports raw =
     (case strip_prefix ''['' raw of
        Some rest \<Rightarrow>
          (case split_once (CHR '']'') rest of
             None \<Rightarrow> Inl MissingBracket
           | Some (a, b) \<Rightarrow>
               (case strip_prefix '':'' b of
                  None \<Rightarrow> Inl MissingPort
                | Some ports \<Rightarrow> Inr (''['' @ a @ '']'', ports)))
      | None \<Rightarrow>
          (case rsplit_once (CHR '':'') raw of
             None \<Rightarrow> Inl MissingPort
           | Some (host, ports) \<Rightarrow>
               if CHR '':'' \<in> set host then Inl UnbracketedV6
               else if host = [] then Inl MissingHost
               else Inr (host, ports)))"

definition parse_port :: "string \<Rightarrow> entry_reason + 16 word" where
  "parse_port s =
     (if s = [] \<or> \<not> list_all is_digit s then Inl (InvalidPort s)
      else if 1 < length s \<and> hd s = CHR ''0'' then Inl (PortLeadingZero s)
      else case parse_uint (2 ^ 32 - 1) s of
        Some p \<Rightarrow> if 1 \<le> p \<and> p \<le> 65535 then Inr (of_nat p) else Inl (PortOutside s)
      | None \<Rightarrow> Inl (PortOutside s))"

definition parse_ports :: "string \<Rightarrow> entry_reason + port_range" where
  "parse_ports s =
     (if s = ''*'' then Inr ALL_PORTS
      else case (case split_once (CHR ''-'') s of
               Some (lo, hi) \<Rightarrow>
                 (case parse_port lo of Inl e \<Rightarrow> Inl e
                  | Inr l \<Rightarrow> (case parse_port hi of Inl e \<Rightarrow> Inl e | Inr h \<Rightarrow> Inr (l, h)))
             | None \<Rightarrow> (case parse_port s of Inl e \<Rightarrow> Inl e | Inr p \<Rightarrow> Inr (p, p))) of
        Inl e \<Rightarrow> Inl e
      | Inr (lo, hi) \<Rightarrow> ok_or (RangeBackwards s) (port_range_new lo hi))"

definition split_prefix :: "string \<Rightarrow> entry_reason + string \<times> nat option" where
  "split_prefix s =
     (case split_once (CHR ''/'') s of
        None \<Rightarrow> Inr (s, None)
      | Some (a, p) \<Rightarrow>
          if p = [] \<or> \<not> list_all is_digit p \<or> 1 < length p \<and> hd p = CHR ''0'' then Inl (InvalidPrefix p)
          else case parse_uint 255 p of None \<Rightarrow> Inl (InvalidPrefix p) | Some n \<Rightarrow> Inr (a, Some n))"

definition make_net :: "net_lib \<Rightarrow> ip_addr \<Rightarrow> nat option \<Rightarrow> nat \<Rightarrow> entry_reason + net" where
  "make_net L addr plen m =
     (let len = (case plen of None \<Rightarrow> m | Some n \<Rightarrow> n) in
      case nl_new L addr len of
        None \<Rightarrow> Inl (PrefixTooLong len)
      | Some net \<Rightarrow>
          if nl_trunc L net \<noteq> net then Inl (HostBits (from_net (nl_trunc L net))) else Inr net)"

fun parse_octets :: "string list \<Rightarrow> entry_reason + octet list" where
  "parse_octets [] = Inr []"
| "parse_octets (t # ts) =
     (if t = [] \<or> 3 < length t then Inl InvalidV4
      else if 1 < length t \<and> hd t = CHR ''0'' then Inl OctetLeadingZero
      else case parse_uint 255 t of
        None \<Rightarrow> Inl InvalidV4
      | Some n \<Rightarrow> (case parse_octets ts of Inl e \<Rightarrow> Inl e | Inr bs \<Rightarrow> Inr (of_nat n # bs)))"

definition parse_ipv4 :: "net_lib \<Rightarrow> string \<Rightarrow> entry_reason + host_part" where
  "parse_ipv4 L s =
     (case split_prefix s of
        Inl e \<Rightarrow> Inl e
      | Inr (addr_s, plen) \<Rightarrow>
          if length (split_on (CHR ''.'') addr_s) \<noteq> 4 then Inl InvalidV4
          else case parse_octets (split_on (CHR ''.'') addr_s) of
            Inl e \<Rightarrow> Inl e
          | Inr bs \<Rightarrow> map_sum id from_net (make_net L (V4 (bs ! 0) (bs ! 1) (bs ! 2) (bs ! 3)) plen 32))"

definition MAPPED :: net where
  "MAPPED = (V6 0 0 0 0 0 65535 0 0, 96)"

definition parse_ipv6 :: "net_lib \<Rightarrow> string \<Rightarrow> entry_reason + host_part" where
  "parse_ipv6 L s =
     (if CHR ''%'' \<in> set s then Inl V6Zone
      else case split_prefix s of
        Inl e \<Rightarrow> Inl e
      | Inr (addr_s, plen) \<Rightarrow>
          (case parse_v6 addr_s of
             None \<Rightarrow> Inl InvalidV6
           | Some addr \<Rightarrow>
               (case make_net L addr plen 128 of
                  Inl e \<Rightarrow> Inl e
                | Inr net \<Rightarrow> if nl_contains L MAPPED net then Inl MappedV6 else Inr (from_net net))))"

text \<open>The label after the last dot.\<close>

definition last_label :: "string \<Rightarrow> string" where
  "last_label s = last (split_on (CHR ''.'') s)"

definition without_root :: "string \<Rightarrow> string" where
  "without_root m = (case strip_suffix ''.'' m of None \<Rightarrow> m | Some t \<Rightarrow> t)"

definition parse_name :: "net_lib \<Rightarrow> string \<Rightarrow> nat \<Rightarrow> entry_reason + string" where
  "parse_name L s extra =
     (case nl_to_ascii L s of
        None \<Rightarrow> Inl InvalidName
      | Some mapped \<Rightarrow>
          let ascii = without_root mapped in
          if 253 < length ascii + extra then Inl NameTooLong
          else if list_all is_digit (last_label ascii) then Inl DigitLabel
          else Inr ascii)"

definition bracketed :: "string \<Rightarrow> string option" where
  "bracketed s = Option.bind (strip_prefix ''['' s) (strip_suffix '']'')"

definition looks_v4 :: "string \<Rightarrow> bool" where
  "looks_v4 s \<longleftrightarrow> s \<noteq> [] \<and> list_all (\<lambda>c. is_digit c \<or> c = CHR ''.'' \<or> c = CHR ''/'') s"

function parse_host :: "net_lib \<Rightarrow> string \<Rightarrow> entry_reason + host_part" where
  "parse_host L s =
     (case bracketed s of
        Some inner \<Rightarrow> parse_ipv6 L inner
      | None \<Rightarrow>
          if looks_v4 s then parse_ipv4 L s
          else (case strip_prefix ''*.'' s of
            Some rest \<Rightarrow>
              if CHR ''*'' \<in> set rest then Inl WildcardPlace
              else if (case parse_host L rest of Inl _ \<Rightarrow> False | Inr h \<Rightarrow> host_net h \<noteq> None)
              then Inl WildcardAddress
              else map_sum id Wildcard (parse_name L rest 2)
          | None \<Rightarrow>
              if CHR ''*'' \<in> set s then Inl WildcardPlace
              else map_sum id Name (parse_name L s 0)))"
  by pat_completeness auto
termination
  by (relation "measure (length \<circ> snd)") (auto dest!: strip_prefix_SomeD)

declare parse_host.simps [simp del]

definition parse_entry :: "net_lib \<Rightarrow> string \<Rightarrow> entry_error + entry" where
  "parse_entry L raw = map_err (\<lambda>r. \<lparr>ee_entry = raw, ee_reason = r\<rparr>)
     (case split_host_ports raw of
        Inl e \<Rightarrow> Inl e
      | Inr (host_raw, ports_raw) \<Rightarrow>
          (case parse_ports ports_raw of
             Inl e \<Rightarrow> Inl e
           | Inr ports \<Rightarrow>
               (case parse_host L host_raw of
                  Inl e \<Rightarrow> Inl e
                | Inr host \<Rightarrow> Inr \<lparr>en_host = host, en_ports = ports\<rparr>)))"

definition is_guest_loopback :: "net \<Rightarrow> bool" where
  "is_guest_loopback n \<longleftrightarrow>
     (case fst n of V4 a b c d \<Rightarrow> 8 \<le> snd n \<and> a = 127 | V6 _ _ _ _ _ _ _ _ \<Rightarrow> snd n = 128 \<and> fst n = V6 0 0 0 0 0 0 0 1)"

definition check_authorable :: "entry \<Rightarrow> entry_reason + unit" where
  "check_authorable e =
     (case host_net (en_host e) of
        Some n \<Rightarrow> if is_guest_loopback n then Inl LoopbackRefused else Inr ()
      | None \<Rightarrow> Inr ())"

section \<open>The canonical text\<close>

text \<open>
  What is used of the two libraries. \<open>to_ascii\<close> returns names of lower-case letters, digits,
  hyphens and dots, and returns such a name, without its root dot, as it is; a prefix is made
  exactly when it is not too long, and is written as its address, a slash and its length.
\<close>

definition ldh :: "char \<Rightarrow> bool" where
  "ldh c \<longleftrightarrow> is_digit c \<or> (97 \<le> (of_char c :: nat) \<and> (of_char c :: nat) \<le> 122) \<or> c = CHR ''-'' \<or> c = CHR ''.''"

definition net_lib_ok :: "net_lib \<Rightarrow> bool" where
  "net_lib_ok L \<longleftrightarrow>
     (\<forall>s m. nl_to_ascii L s = Some m \<longrightarrow>
        list_all ldh m \<and> nl_to_ascii L (without_root m) = Some (without_root m) \<and> strip_suffix ''.'' (without_root m) = None) \<and>
     (\<forall>a n. nl_new L a n = (if n \<le> max_prefix a then Some (a, n) else None)) \<and>
     (\<forall>a n. nl_show L (a, n) = show_ip a @ ''/'' @ show_dec n)"

lemma map_sum_Inr_iff [simp]: "map_sum id f r = Inr x \<longleftrightarrow> (\<exists>y. r = Inr y \<and> x = f y)"
  by (cases r) auto

lemma map_sum_Inl_iff [simp]: "map_sum id f r = Inl e \<longleftrightarrow> r = Inl e"
  by (cases r) auto

text \<open>Ports.\<close>

lemma parse_port_range: "parse_port s = Inr p \<Longrightarrow> 1 \<le> unat p"
  by (auto simp: parse_port_def unsigned_of_nat take_bit_nat_eq_self split: if_splits option.splits)

lemma show_dec_no_zero: "1 < length (show_dec n) \<Longrightarrow> hd (show_dec n) \<noteq> CHR ''0''"
  using show_base_leading [of 10 n] by auto

lemma parse_port_show:
  assumes "1 \<le> unat p"
  shows "parse_port (show_dec (unat p)) = Inr p"
  using assms show_dec_digits [of "unat p"] show_dec_no_zero [of "unat p"] unat_segment [of p]
  by (auto simp: parse_port_def parse_uint_show)

lemma show_dec_not: "\<not> is_digit c \<Longrightarrow> c \<notin> set (show_dec n)"
  using show_dec_digits [of n] by (auto simp: list_all_iff)

lemma not_is_digit [simp]: "\<not> is_digit (CHR ''-'')" "\<not> is_digit (CHR '':'')" "\<not> is_digit (CHR ''.'')"
  "\<not> is_digit (CHR ''/'')" "\<not> is_digit (CHR ''*'')" "\<not> is_digit (CHR ''['')" "\<not> is_digit (CHR '']'')" "\<not> is_digit (CHR ''%'')"
  by (simp_all add: is_digit_def)

definition ports_ok :: "port_range \<Rightarrow> bool" where
  "ports_ok p \<longleftrightarrow> 1 \<le> unat (pr_lo p) \<and> unat (pr_lo p) \<le> unat (pr_hi p)"

lemma parse_ports_ok: "parse_ports s = Inr p \<Longrightarrow> ports_ok p"
  by (auto simp: parse_ports_def ports_ok_def ALL_PORTS_def port_range_new_def word_le_nat_alt
      split: if_splits option.splits sum.splits dest: parse_port_range)

lemma not_star: "hd s \<noteq> CHR ''*'' \<Longrightarrow> s \<noteq> ''*''"
  by auto

lemma parse_ports_show:
  assumes "ports_ok p"
  shows "parse_ports (show_ports p) = Inr p"
proof -
  have lo: "1 \<le> unat (pr_lo p)" and hi: "1 \<le> unat (pr_hi p)" and le: "pr_lo p \<le> pr_hi p" "1 \<le> pr_lo p"
    using assms by (auto simp: ports_ok_def word_le_nat_alt)
  have star: "show_dec n @ s \<noteq> ''*''" for n s
    using show_dec_hd [of n] show_base_nonempty [of 10 n] by (cases "show_dec n") auto
  have nodash: "split_once (CHR ''-'') (show_dec n) = None" for n
    by (rule split_once_none) (simp add: show_dec_not)
  have dash: "split_once (CHR ''-'') (show_dec n @ CHR ''-'' # s) = Some (show_dec n, s)" for n s
    by (rule split_once_append) (simp add: show_dec_not)
  consider "p = ALL_PORTS" | "p \<noteq> ALL_PORTS" "pr_lo p = pr_hi p" | "p \<noteq> ALL_PORTS" "pr_lo p \<noteq> pr_hi p" by blast
  then show ?thesis
    using star [of "unat (pr_lo p)" "[]"] star [of "unat (pr_lo p)"] le
    by cases (simp_all add: parse_ports_def show_ports_def nodash dash parse_port_show [OF lo] parse_port_show [OF hi] port_range_new_def)
qed

text \<open>Addresses and prefixes.\<close>

lemma split_prefix_show: "CHR ''/'' \<notin> set s \<Longrightarrow> split_prefix s = Inr (s, None)"
  by (simp add: split_prefix_def split_once_none)

lemma split_prefix_len:
  assumes "CHR ''/'' \<notin> set s" and "n \<le> 255"
  shows "split_prefix (s @ CHR ''/'' # show_dec n) = Inr (s, Some n)"
  using assms show_dec_digits [of n] show_dec_no_zero [of n]
  by (auto simp: split_prefix_def split_once_append parse_uint_show)

lemma parse_uint_bound: "parse_uint m s = Some n \<Longrightarrow> n \<le> m"
  by (auto simp: parse_uint_def Let_def split: if_splits)

lemma split_prefix_bound: "split_prefix s = Inr (a, Some n) \<Longrightarrow> n \<le> 255"
  by (auto simp: split_prefix_def split: option.splits if_splits dest: parse_uint_bound)

lemma split_on_v4: "split_on (CHR ''.'') (show_v4 a b c d) =
  [show_dec (unat a), show_dec (unat b), show_dec (unat c), show_dec (unat d)]"
proof -
  have "split_on (CHR ''.'') (show_dec n @ CHR ''.'' # s) = show_dec n # split_on (CHR ''.'') s"
    "split_on (CHR ''.'') (show_dec n) = [show_dec n]" for n s
    by (simp_all add: split_on_append split_on_none show_dec_not)
  then show ?thesis by (simp add: show_v4_def)
qed

lemma octet_back: "of_nat (unat a) = (a :: octet)"
  using unat_of_nat_octet [OF unat_octet] by (simp add: word_unat_eq_iff)

lemma parse_octets_show: "parse_octets (show_dec (unat (a :: octet)) # ts) =
  (case parse_octets ts of Inl e \<Rightarrow> Inl e | Inr bs \<Rightarrow> Inr (a # bs))"
  using unat_octet [of a] length_show_base [of 10 "unat a" 2] show_dec_no_zero [of "unat a"]
  by (auto simp: parse_uint_show octet_back split: sum.split)

lemma v4_chars: "c \<in> set (show_v4 a b c' d) \<Longrightarrow> is_digit c \<or> c = CHR ''.''"
  using show_dec_digits by (auto simp: show_v4_def list_all_iff)

lemma digit_of_16_not: "c \<in> {CHR ''/'', CHR '']'', CHR ''['', CHR ''%'', CHR ''*''} \<Longrightarrow> digit_of 16 c = None"
  by (auto simp: digit_of_def Let_def)

lemma segments_chars: "c \<in> set (show_segments gs) \<Longrightarrow> digit_of 16 c \<noteq> None \<or> c = CHR '':''"
  using hex_chars by (cases gs) (auto simp: show_segments_Cons colon_groups_def split: if_splits simp del: show_segments.simps(2))

lemma v6_chars:
  assumes "c \<in> set (show_ip (V6 s1 s2 s3 s4 s5 s6 s7 s8))"
  shows "digit_of 16 c \<noteq> None \<or> c = CHR '':'' \<or> c = CHR ''.''"
proof -
  have d: "digit_of 16 c \<noteq> None" if "is_digit c" for c using that by (auto simp: is_digit_def digit_of_def Let_def)
  have f: "digit_of 16 (CHR ''f'') \<noteq> None" by (simp add: digit_of_def)
  have "digit_of 16 c \<noteq> None \<or> c = CHR '':'' \<or> c = CHR ''.''" if "c \<in> set (show_v4 a b c' d')" for a b c' d'
    using v4_chars [OF that] d by blast
  moreover obtain start len where "zero_run 0 [s1, s2, s3, s4, s5, s6, s7, s8] (0, 0) (0, 0) = (start, len)" by fastforce
  ultimately show ?thesis
    using assms f segments_chars [of c]
    by (auto simp only: show_ip.simps set_append Un_iff prod.case split: if_splits) auto
qed

lemma v6_clean: "c \<in> {CHR ''/'', CHR '']'', CHR ''['', CHR ''%'', CHR ''*''} \<Longrightarrow> c \<notin> set (show_ip (V6 s1 s2 s3 s4 s5 s6 s7 s8))"
  using v6_chars digit_of_16_not by fastforce

lemma v4_clean: "\<not> is_digit c \<Longrightarrow> c \<noteq> CHR ''.'' \<Longrightarrow> c \<notin> set (show_v4 a b c' d)"
  using v4_chars by blast

lemma parse_ipv4_show:
  assumes "parse_octets [show_dec (unat a), show_dec (unat b), show_dec (unat c), show_dec (unat d)] = Inr [a, b, c, d]"
  shows "parse_ipv4 L (show_v4 a b c d) = map_sum id from_net (make_net L (V4 a b c d) None 32)"
    and "n \<le> 255 \<Longrightarrow> parse_ipv4 L (show_v4 a b c d @ CHR ''/'' # show_dec n) = map_sum id from_net (make_net L (V4 a b c d) (Some n) 32)"
  using assms by (simp_all add: parse_ipv4_def split_prefix_show split_prefix_len v4_clean split_on_v4)

lemma parse_octets_all: "parse_octets [show_dec (unat a), show_dec (unat b), show_dec (unat c), show_dec (unat d)] = Inr [a, b, c, d]"
  for a b c d :: octet
  by (simp only: parse_octets_show parse_octets.simps(1) sum.case)

lemmas parse_ipv4_shown = parse_ipv4_show [OF parse_octets_all]

lemma parse_ipv6_show:
  fixes s1 s2 s3 s4 s5 s6 s7 s8 :: segment
  defines "a \<equiv> V6 s1 s2 s3 s4 s5 s6 s7 s8"
  shows "parse_ipv6 L (show_ip a) = (case make_net L a None 128 of Inl e \<Rightarrow> Inl e
      | Inr net \<Rightarrow> if nl_contains L MAPPED net then Inl MappedV6 else Inr (from_net net))"
    and "n \<le> 255 \<Longrightarrow> parse_ipv6 L (show_ip a @ CHR ''/'' # show_dec n) = (case make_net L a (Some n) 128 of Inl e \<Rightarrow> Inl e
      | Inr net \<Rightarrow> if nl_contains L MAPPED net then Inl MappedV6 else Inr (from_net net))"
  unfolding a_def
  by (simp_all only: parse_ipv6_def set_append Un_iff list.set insert_iff)
    (simp_all add: split_prefix_show split_prefix_len v6_clean parse_show_v6 show_dec_not del: show_ip.simps)

text \<open>What a parsed host is.\<close>

definition host_ok :: "net_lib \<Rightarrow> host_part \<Rightarrow> bool" where
  "host_ok L h \<longleftrightarrow>
     (case h of
        Name n \<Rightarrow> parse_name L n 0 = Inr n \<and> list_all ldh n \<and> \<not> looks_v4 n
      | Wildcard n \<Rightarrow> parse_name L n 2 = Inr n \<and> list_all ldh n \<and> \<not> looks_v4 n
      | Addr a \<Rightarrow> nl_trunc L (a, max_prefix a) = (a, max_prefix a) \<and>
          (is_v4 a \<or> \<not> nl_contains L MAPPED (a, max_prefix a))
      | Net n \<Rightarrow> snd n < max_prefix (fst n) \<and> nl_trunc L n = n \<and> (is_v4 (fst n) \<or> \<not> nl_contains L MAPPED n))"

lemma name_ok:
  assumes L: "net_lib_ok L" and "parse_name L s k = Inr n"
  shows "parse_name L n k = Inr n \<and> list_all ldh n \<and> \<not> looks_v4 n"
proof -
  from assms(2) obtain m where m: "nl_to_ascii L s = Some m" "n = without_root m"
    and len: "length n + k \<le> 253" and lab: "\<not> list_all is_digit (last_label n)"
    by (auto simp: parse_name_def Let_def split: option.splits if_splits)
  have lib: "list_all ldh m" "nl_to_ascii L n = Some n" "strip_suffix ''.'' n = None"
    using L m by (auto simp: net_lib_ok_def)
  then have "without_root n = n" by (simp add: without_root_def)
  moreover have "list_all ldh n"
    using lib(1) m(2) by (auto simp: without_root_def list_all_iff split: option.splits dest: strip_suffix_SomeD)
  moreover have "\<not> looks_v4 n"
  proof
    assume v4: "looks_v4 n"
    have "set (last_label n) \<subseteq> set n - {CHR ''.''}"
      unfolding last_label_def by (rule split_on_pieces) (simp add: split_on_nonempty)
    moreover have "is_digit c" if "c \<in> set n" "c \<noteq> CHR ''.''" for c
    proof -
      have "\<not> ldh (CHR ''/'')" by (simp add: ldh_def is_digit_def)
      moreover have "ldh c" "is_digit c \<or> c = CHR ''.'' \<or> c = CHR ''/''"
        using that(1) v4 \<open>list_all ldh n\<close> by (auto simp: looks_v4_def list_all_iff)
      ultimately show ?thesis using that(2) by blast
    qed
    ultimately have "\<forall>c \<in> set (last_label n). is_digit c" by blast
    with lab show False by (simp add: list_all_iff)
  qed
  ultimately show ?thesis using lib(2) len lab by (simp add: parse_name_def Let_def)
qed

lemma lib_new: "net_lib_ok L \<Longrightarrow> nl_new L a n = (if n \<le> max_prefix a then Some (a, n) else None)"
  by (simp only: net_lib_ok_def)

lemma make_net_Inr: "net_lib_ok L \<Longrightarrow> make_net L a p m = Inr n \<longleftrightarrow>
    n = (a, case p of None \<Rightarrow> m | Some k \<Rightarrow> k) \<and> snd n \<le> max_prefix a \<and> nl_trunc L n = n"
  by (cases p) (auto simp: make_net_def lib_new split: if_splits)

lemma parse_ipv4_ok: "net_lib_ok L \<Longrightarrow> parse_ipv4 L s = Inr h \<Longrightarrow> host_ok L h"
  by (auto simp: parse_ipv4_def make_net_Inr host_ok_def from_net_def split: sum.splits if_splits prod.splits)

lemma of_segments_v6: "of_segments gs = Some a \<Longrightarrow> \<not> is_v4 a"
  by (induction gs rule: of_segments.induct) auto

lemma parse_v6_v6: "parse_v6 s = Some a \<Longrightarrow> \<not> is_v4 a"
proof -
  obtain head b r where h: "read_groups 0 8 s = (head, b, r)" by (cases "read_groups 0 8 s")
  assume "parse_v6 s = Some a"
  then have "\<exists>gs. of_segments gs = Some a"
    by (auto simp: parse_v6_def h bind_eq_Some_conv split: if_split_asm) (auto split: prod.split_asm if_split_asm)
  then show ?thesis using of_segments_v6 by blast
qed

lemma parse_ipv6_ok: "net_lib_ok L \<Longrightarrow> parse_ipv6 L s = Inr h \<Longrightarrow> host_ok L h"
  by (auto simp: parse_ipv6_def make_net_Inr host_ok_def from_net_def split: sum.splits if_splits prod.splits option.splits
      dest!: parse_v6_v6)

lemma parse_host_ok:
  assumes L: "net_lib_ok L" and "parse_host L s = Inr h"
  shows "host_ok L h"
  using assms(2) parse_ipv4_ok [OF L] parse_ipv6_ok [OF L] name_ok [OF L]
  by (subst (asm) parse_host.simps) (auto simp: host_ok_def split: option.splits if_splits)

lemma ldh_clean: "list_all ldh n \<Longrightarrow> c \<in> {CHR ''['', CHR '']'', CHR '':'', CHR ''*''} \<Longrightarrow> c \<notin> set n"
  by (auto simp: list_all_iff ldh_def is_digit_def)

lemma bracketed_none: "CHR ''['' \<notin> set s \<Longrightarrow> bracketed s = None"
  by (cases s) (auto simp: bracketed_def strip_prefix_def)

lemma bracketed_show [simp]: "bracketed (CHR ''['' # s @ '']'') = Some s"
  using strip_prefix_append [of "''[''" "s @ '']''"] strip_suffix_append [of "'']''" s] by (simp add: bracketed_def)

lemma no_star_prefix: "CHR ''*'' \<notin> set s \<Longrightarrow> strip_prefix ''*.'' s = None"
  by (cases s) (auto simp: strip_prefix_def)

lemma parse_host_name:
  assumes "list_all ldh n" and "\<not> looks_v4 n"
  shows "parse_host L n = map_sum id Name (parse_name L n 0)"
  using assms ldh_clean [OF assms(1)] bracketed_none [of n] no_star_prefix [of n]
  by (subst parse_host.simps) simp

lemma parse_host_wildcard:
  assumes "list_all ldh n" and "\<not> looks_v4 n"
  shows "parse_host L (''*.'' @ n) = map_sum id Wildcard (parse_name L n 2)"
proof -
  have "bracketed (''*.'' @ n) = None" by (rule bracketed_none) (use ldh_clean [OF assms(1)] in simp)
  moreover have "\<not> looks_v4 (''*.'' @ n)" by (simp add: looks_v4_def)
  moreover have "CHR ''*'' \<notin> set n" using ldh_clean [OF assms(1)] by simp
  ultimately show ?thesis
    by (subst parse_host.simps) (auto simp: parse_host_name [OF assms] split: sum.split simp del: append.simps append_Cons)
qed

lemma looks_v4_show: "looks_v4 (show_v4 a b c d)" "looks_v4 (show_v4 a b c d @ CHR ''/'' # show_dec n)"
  using show_dec_digits v4_chars by (auto simp: looks_v4_def list_all_iff show_v4_def)

lemma parse_host_show:
  assumes L: "net_lib_ok L" and ok: "host_ok L h"
  shows "parse_host L (show_host L h) = Inr h"
proof (cases h)
  case (Name n)
  with ok show ?thesis by (simp add: host_ok_def parse_host_name)
next
  case (Wildcard n)
  with ok show ?thesis using parse_host_wildcard [of n L] by (simp add: host_ok_def)
next
  case (Addr a)
  show ?thesis
  proof (cases a)
    case (V4 x1 x2 x3 x4)
    have "bracketed (show_v4 x1 x2 x3 x4) = None" by (rule bracketed_none) (simp add: v4_clean)
    then show ?thesis
      using L ok Addr V4 looks_v4_show(1) [of x1 x2 x3 x4]
      by (subst parse_host.simps) (simp add: parse_ipv4_shown make_net_Inr host_ok_def from_net_def)
  next
    case (V6 s1 s2 s3 s4 s5 s6 s7 s8)
    have "make_net L a None 128 = Inr (a, 128)" using ok Addr V6 by (simp add: make_net_Inr [OF L] host_ok_def)
    then show ?thesis
      using ok Addr V6 parse_ipv6_show(1) [of L s1 s2 s3 s4 s5 s6 s7 s8]
      by (subst parse_host.simps) (simp add: host_ok_def from_net_def del: show_ip.simps)
  qed
next
  case (Net n)
  obtain a k where n: "n = (a, k)" by fastforce
  have show': "nl_show L n = show_ip a @ CHR ''/'' # show_dec k" using L by (simp add: net_lib_ok_def n)
  have mk: "make_net L a (Some k) m = Inr n" for m using ok Net n by (simp add: make_net_Inr [OF L] host_ok_def)
  have k: "k \<le> 255" "k \<noteq> max_prefix a" using ok Net n by (cases a; simp add: host_ok_def)+
  show ?thesis
  proof (cases a)
    case (V4 x1 x2 x3 x4)
    have "bracketed (show_v4 x1 x2 x3 x4 @ CHR ''/'' # show_dec k) = None" by (rule bracketed_none) (simp add: v4_clean show_dec_not)
    then show ?thesis
      using k mk Net n V4 show' looks_v4_show(2) [of x1 x2 x3 x4 k]
      by (subst parse_host.simps) (simp add: parse_ipv4_shown from_net_def)
  next
    case (V6 s1 s2 s3 s4 s5 s6 s7 s8)
    show ?thesis
      using k mk [of 128] ok Net n V6 show' parse_ipv6_show(2) [of k L s1 s2 s3 s4 s5 s6 s7 s8]
        bracketed_show [of "show_ip a @ CHR ''/'' # show_dec k"]
      by (subst parse_host.simps) (simp add: host_ok_def from_net_def del: show_ip.simps bracketed_show)
  qed
qed

lemma v4_hd: "show_v4 a b c d \<noteq> []" "hd (show_v4 a b c d) \<noteq> CHR ''[''"
proof -
  have "is_digit (hd (show_v4 a b c d))" by (simp add: show_v4_def hd_append show_dec_hd)
  then show "show_v4 a b c d \<noteq> []" "hd (show_v4 a b c d) \<noteq> CHR ''[''" by (auto simp: show_v4_def)
qed

lemma split_shown:
  assumes "net_lib_ok L" and "host_ok L h"
  shows "split_host_ports (show_host L h @ CHR '':'' # show_ports p) = Inr (show_host L h, show_ports p)"
proof -
  have ports: "CHR '':'' \<notin> set (show_ports p)" by (auto simp: show_ports_def show_dec_not)
  have plain: "split_host_ports (s @ CHR '':'' # show_ports p) = Inr (s, show_ports p)"
    if "CHR '':'' \<notin> set s" "s \<noteq> []" "hd s \<noteq> CHR ''[''" for s
    using that rsplit_once_append [OF ports, of s] by (cases s) (auto simp: split_host_ports_def strip_prefix_def)
  have brack: "split_host_ports ((CHR ''['' # s @ '']'') @ CHR '':'' # show_ports p) = Inr (CHR ''['' # s @ '']'', show_ports p)"
    if "CHR '']'' \<notin> set s" for s
  proof -
    have 1: "strip_prefix ''['' (''['' @ (s @ CHR '']'' # '':'' @ show_ports p)) = Some (s @ CHR '']'' # '':'' @ show_ports p)"
      by (rule strip_prefix_append)
    have 2: "strip_prefix '':'' ('':'' @ show_ports p) = Some (show_ports p)" by (rule strip_prefix_append)
    have 3: "(CHR ''['' # s @ '']'') @ CHR '':'' # show_ports p = ''['' @ (s @ CHR '']'' # '':'' @ show_ports p)" by simp
    show ?thesis unfolding split_host_ports_def 3 1 option.case split_once_append [OF that] prod.case 2 by simp
  qed
  have v6: "CHR '']'' \<notin> set (show_ip a)" if "\<not> is_v4 a" for a
    using that v6_clean by (cases a) (simp_all del: show_ip.simps)
  have v4: "CHR '':'' \<notin> set (show_ip a)" "show_ip a \<noteq> []" "hd (show_ip a) \<noteq> CHR ''[''" if "is_v4 a" for a
    using that v4_clean [of "CHR '':''"] v4_hd by (cases a; fastforce)+
  show ?thesis
  proof (cases h)
    case (Name n)
    have "n \<noteq> []" using assms(2) Name by (auto simp: host_ok_def parse_name_def last_label_def Let_def split: option.splits if_splits)
    then show ?thesis using plain [of n] ldh_clean [of n] assms(2) Name by (cases n) (auto simp: host_ok_def)
  next
    case (Wildcard n)
    then show ?thesis using plain [of "''*.'' @ n"] ldh_clean [of n] assms(2) by (simp add: host_ok_def)
  next
    case (Addr a)
    then show ?thesis using plain [of "show_ip a"] brack [of "show_ip a"] v4 [of a] v6 [of a] by simp
  next
    case (Net n)
    obtain a k where n: "n = (a, k)" by fastforce
    have show': "nl_show L n = show_ip a @ CHR ''/'' # show_dec k" using assms(1) by (simp add: net_lib_ok_def n)
    show ?thesis
      using plain [of "show_ip a @ CHR ''/'' # show_dec k"] brack [of "show_ip a @ CHR ''/'' # show_dec k"] v4 [of a] v6 [of a]
      by (simp add: Net n show' [unfolded n] show_dec_not)
  qed
qed

lemma parse_entry_parts:
  assumes "parse_entry L raw = Inr e"
  obtains h s where "parse_host L h = Inr (en_host e)" and "parse_ports s = Inr (en_ports e)"
  using assms that by (auto simp: parse_entry_def map_err_Inr_iff split: sum.splits)

lemma parse_entry_show:
  assumes L: "net_lib_ok L" and host: "host_ok L (en_host e)" and ports: "ports_ok (en_ports e)"
  shows "parse_entry L (show_entry L e) = Inr e"
  by (simp add: parse_entry_def show_entry_def split_shown [OF L host] parse_ports_show [OF ports]
      parse_host_show [OF L host])

definition entry_ok :: "net_lib \<Rightarrow> entry \<Rightarrow> bool" where
  "entry_ok L e \<longleftrightarrow> host_ok L (en_host e) \<and> ports_ok (en_ports e)"

lemma parse_entry_ok: "net_lib_ok L \<Longrightarrow> parse_entry L raw = Inr e \<Longrightarrow> entry_ok L e"
  by (erule parse_entry_parts) (simp add: entry_ok_def parse_host_ok parse_ports_ok)

lemma show_entry_inj: "net_lib_ok L \<Longrightarrow> entry_ok L e \<Longrightarrow> entry_ok L e' \<Longrightarrow> show_entry L e = show_entry L e' \<Longrightarrow> e = e'"
  by (metis entry_ok_def parse_entry_show sum.inject(2))

end
