(* ===== verification/Network_Ceiling.thy ===== *)
theory Network_Ceiling
  imports Network_Entry Json Store "HOL-Library.List_Lexorder" "HOL-Library.Char_ord"
begin

text \<open>
  \<open>scheduler/src/services/network_policy/ceiling.rs\<close> and \<open>sandbox_config.rs\<close>: an execution's
  network ceiling, its wire form and its two columns, and an agent's network endpoints.

  A refusal's detail is a constructor of \<open>ceiling_detail\<close>, one for each sentence of the code.
  Texts are ordered by their bytes, as \<open>String::cmp\<close> orders them. The message of a malformed
  ceiling is kept without the two column values it quotes.
\<close>

section \<open>Ceilings\<close>

datatype mode = ModeNone | Allowlist | Egress

fun mode_str :: "mode \<Rightarrow> string" where
  "mode_str ModeNone = ''none''"
| "mode_str Allowlist = ''allowlist''"
| "mode_str Egress = ''egress''"

definition parse_mode :: "string \<Rightarrow> mode option" where
  "parse_mode s =
     (if s = ''none'' then Some ModeNone
      else if s = ''allowlist'' then Some Allowlist
      else if s = ''egress'' then Some Egress
      else None)"

record policy =
  po_mode :: mode
  po_entries :: "entry list"

datatype ceiling = Unsandboxed | Sandboxed policy

datatype ceiling_detail =
    NotAnObject | KindRequired | KindValue | UnsandboxedFields
  | UnknownField string | ModeValue | AllowlistEntries | EntriesShape | NoneEntries
  | SandboxShape | EndpointsShape | InvalidEntries nat

record ceiling_error =
  ce_detail :: ceiling_detail
  ce_entries :: "entry_error list"

definition shape :: "ceiling_detail \<Rightarrow> ceiling_error" where
  "shape d = \<lparr>ce_detail = d, ce_entries = []\<rparr>"

section \<open>Entry lists\<close>

text \<open>\<open>Vec::dedup_by\<close>: of each run of equal neighbours the first stays.\<close>

fun dedup_by :: "('a \<Rightarrow> 'a \<Rightarrow> bool) \<Rightarrow> 'a list \<Rightarrow> 'a list" where
  "dedup_by same (x # y # xs) =
     (if same y x then dedup_by same (x # xs) else x # dedup_by same (y # xs))"
| "dedup_by same xs = xs"

definition canonical_order :: "net_lib \<Rightarrow> entry list \<Rightarrow> entry list" where
  "canonical_order L es =
     map snd (dedup_by (\<lambda>a b. fst a = fst b) (sort_key fst (map (\<lambda>e. (show_entry L e, e)) es)))"

definition checked_entry :: "net_lib \<Rightarrow> string \<Rightarrow> entry_error + entry" where
  "checked_entry L s =
     (case parse_entry L s of
        Inl e \<Rightarrow> Inl e
      | Inr entry \<Rightarrow>
          (case check_authorable entry of
             Inl r \<Rightarrow> Inl \<lparr>ee_entry = s, ee_reason = r\<rparr>
           | Inr _ \<Rightarrow> Inr entry))"

text \<open>The loop over the values, with its two vectors.\<close>

fun authored_loop :: "net_lib \<Rightarrow> ceiling_detail \<Rightarrow> json list \<Rightarrow> entry list \<Rightarrow> entry_error list \<Rightarrow>
    ceiling_error + entry list \<times> entry_error list" where
  "authored_loop L sh [] es refused = Inr (es, refused)"
| "authored_loop L sh (v # vs) es refused =
     (case as_str v of
        None \<Rightarrow> Inl (shape sh)
      | Some s \<Rightarrow>
          (case checked_entry L s of
             Inl e \<Rightarrow> authored_loop L sh vs es (refused @ [e])
           | Inr entry \<Rightarrow> authored_loop L sh vs (es @ [entry]) refused))"

definition parse_authored_entries :: "net_lib \<Rightarrow> json list \<Rightarrow> ceiling_detail \<Rightarrow> ceiling_error + entry list" where
  "parse_authored_entries L raw sh =
     (case authored_loop L sh raw [] [] of
        Inl e \<Rightarrow> Inl e
      | Inr (es, refused) \<Rightarrow>
          if refused \<noteq> [] then Inl \<lparr>ce_detail = InvalidEntries (length refused), ce_entries = refused\<rparr>
          else Inr (canonical_order L es))"

section \<open>The wire form\<close>

text \<open>
  The members of an object are visited in the order of their keys (\<open>serde_json::Map\<close> is a
  \<open>BTreeMap\<close>), so the field a refusal names is the least unknown one.
\<close>

definition unknown_field :: "string list \<Rightarrow> (string \<times> json) list \<Rightarrow> string option" where
  "unknown_field known kvs = sql_find (\<lambda>k. k \<notin> set known) (sort (map fst kvs))"

definition parse_sandboxed :: "net_lib \<Rightarrow> (string \<times> json) list \<Rightarrow> ceiling_error + policy" where
  "parse_sandboxed L kvs =
     (case unknown_field [''kind'', ''mode'', ''entries''] kvs of
        Some key \<Rightarrow> Inl (shape (UnknownField key))
      | None \<Rightarrow>
          (case Option.bind (Option.bind (map_of kvs ''mode'') as_str) parse_mode of
             None \<Rightarrow> Inl (shape ModeValue)
           | Some mode \<Rightarrow>
               (case (case map_of kvs ''entries'' of
                        None \<Rightarrow> if mode = Allowlist then Inl (shape AllowlistEntries) else Inr []
                      | Some (JArr items) \<Rightarrow> Inr items
                      | Some _ \<Rightarrow> Inl (shape EntriesShape)) of
                  Inl e \<Rightarrow> Inl e
                | Inr raw \<Rightarrow>
                    if mode = ModeNone \<and> raw \<noteq> [] then Inl (shape NoneEntries)
                    else map_sum id (\<lambda>es. \<lparr>po_mode = mode, po_entries = es\<rparr>)
                      (parse_authored_entries L raw EntriesShape))))"

definition parse_authored :: "net_lib \<Rightarrow> json \<Rightarrow> ceiling_error + ceiling" where
  "parse_authored L v =
     (case v of
        JObj kvs \<Rightarrow>
          (case map_of kvs ''kind'' of
             None \<Rightarrow> Inl (shape KindRequired)
           | Some (JStr kind) \<Rightarrow>
               if kind = ''unsandboxed''
               then (if 1 < length kvs then Inl (shape UnsandboxedFields) else Inr Unsandboxed)
               else if kind = ''sandboxed'' then map_sum id Sandboxed (parse_sandboxed L kvs)
               else Inl (shape KindValue)
           | Some _ \<Rightarrow> Inl (shape KindValue))
      | _ \<Rightarrow> Inl (shape NotAnObject))"

fun to_wire :: "net_lib \<Rightarrow> ceiling \<Rightarrow> json" where
  "to_wire L Unsandboxed = JObj [(''kind'', JStr ''unsandboxed'')]"
| "to_wire L (Sandboxed p) =
     JObj [(''kind'', JStr ''sandboxed''), (''mode'', JStr (mode_str (po_mode p))),
           (''entries'', JArr (map (\<lambda>e. JStr (show_entry L e)) (po_entries p)))]"

section \<open>The columns\<close>

fun to_columns :: "net_lib \<Rightarrow> ceiling \<Rightarrow> string \<times> jtext" where
  "to_columns L Unsandboxed = (''unsandboxed'', to_string (JArr []))"
| "to_columns L (Sandboxed p) =
     (mode_str (po_mode p), to_string (JArr (map (\<lambda>e. JStr (show_entry L e)) (po_entries p))))"

text \<open>\<open>from_str::<Vec<String>>\<close>.\<close>

fun strings :: "json list \<Rightarrow> string list option" where
  "strings [] = Some []"
| "strings (JStr s # vs) = map_option (\<lambda>ss. s # ss) (strings vs)"
| "strings _ = None"

definition from_str_strings :: "jtext \<Rightarrow> string list option" where
  "from_str_strings t = Option.bind (Option.bind (from_str t) as_array) strings"

fun stored_entries :: "net_lib \<Rightarrow> string list \<Rightarrow> entry list option" where
  "stored_entries L [] = Some []"
| "stored_entries L (text # texts) =
     (case parse_entry L text of
        Inl _ \<Rightarrow> None
      | Inr entry \<Rightarrow>
          if show_entry L entry \<noteq> text \<or> check_authorable entry \<noteq> Inr () then None
          else map_option (\<lambda>es. entry # es) (stored_entries L texts))"

definition malformed_ceiling :: scheduler_error where
  "malformed_ceiling = Database ''malformed ceiling in DB''"

definition from_columns :: "net_lib \<Rightarrow> string \<Rightarrow> jtext \<Rightarrow> scheduler_error + ceiling" where
  "from_columns L mode col =
     (case from_str_strings col of
        None \<Rightarrow> Inl malformed_ceiling
      | Some texts \<Rightarrow>
          if mode = ''unsandboxed''
          then (if texts = [] then Inr Unsandboxed else Inl malformed_ceiling)
          else (case parse_mode mode of
            None \<Rightarrow> Inl malformed_ceiling
          | Some m \<Rightarrow>
              (case stored_entries L texts of
                 None \<Rightarrow> Inl malformed_ceiling
               | Some parsed \<Rightarrow>
                   if canonical_order L parsed \<noteq> parsed \<or> m = ModeNone \<and> parsed \<noteq> []
                   then Inl malformed_ceiling
                   else Inr (Sandboxed \<lparr>po_mode = m, po_entries = parsed\<rparr>))))"

section \<open>An agent's endpoints\<close>

definition validate_sandbox_config :: "net_lib \<Rightarrow> json \<Rightarrow> ceiling_error + json" where
  "validate_sandbox_config L v =
     (case v of
        JObj kvs \<Rightarrow>
          if length kvs \<noteq> 1 then Inl (shape SandboxShape)
          else (case map_of kvs ''network_endpoints'' of
            Some (JArr items) \<Rightarrow>
              map_sum id (\<lambda>es. JObj [(''network_endpoints'', JArr (map (\<lambda>e. JStr (show_entry L e)) es))])
                (parse_authored_entries L items EndpointsShape)
          | Some _ \<Rightarrow> Inl (shape EndpointsShape)
          | None \<Rightarrow> Inl (shape SandboxShape))
      | _ \<Rightarrow> Inl (shape SandboxShape))"

section \<open>Facts\<close>

abbreviation same_text :: "string \<times> entry \<Rightarrow> string \<times> entry \<Rightarrow> bool" where
  "same_text a b \<equiv> fst a = fst b"

text \<open>A canonical list is strictly increasing in its texts; each canonical list is its own order.\<close>

definition increasing :: "net_lib \<Rightarrow> entry list \<Rightarrow> bool" where
  "increasing L es \<longleftrightarrow> sorted_wrt (<) (map (show_entry L) es)"

lemma dedup_by_increasing: "sorted_wrt (<) (map fst kvs) \<Longrightarrow> dedup_by same_text kvs = kvs"
  by (induction same_text kvs rule: dedup_by.induct) auto

lemma dedup_by_keys: "fst ` set (dedup_by same_text kvs) = fst ` set kvs"
  by (induction same_text kvs rule: dedup_by.induct) auto

lemma dedup_by_subset: "set (dedup_by same kvs) \<subseteq> set kvs"
  by (induction same kvs rule: dedup_by.induct) auto

lemma dedup_by_sorted:
  "sorted (map fst kvs) \<Longrightarrow> sorted_wrt (<) (map fst (dedup_by same_text kvs))"
proof (induction same_text kvs rule: dedup_by.induct)
  case (1 x y xs)
  show ?case
  proof (cases "fst y = fst x")
    case True
    with 1 show ?thesis by simp
  next
    case False
    with 1(3) have "fst x < k" if "k \<in> fst ` set (y # xs)" for k
      using that by (fastforce simp: order.strict_iff_order)
    with False 1 dedup_by_keys [of "y # xs"] show ?thesis by simp
  qed
qed simp_all

lemma canonical_order_increasing: "increasing L es \<Longrightarrow> canonical_order L es = es"
proof -
  let ?k = "map (\<lambda>e. (show_entry L e, e)) es"
  assume "increasing L es"
  then have *: "sorted_wrt (<) (map fst ?k)" by (simp add: increasing_def comp_def)
  then have "sort_key fst ?k = ?k" by (intro sort_key_id_if_sorted) (simp add: strict_sorted_iff)
  with * show ?thesis by (simp add: canonical_order_def dedup_by_increasing comp_def)
qed

lemma canonical_keyed:
  assumes "kv \<in> set (dedup_by same (sort_key fst (map (\<lambda>e. (show_entry L e, e)) es)))"
  shows "snd kv \<in> set es \<and> fst kv = show_entry L (snd kv)"
  using assms dedup_by_subset by fastforce

lemma increasing_canonical_order: "increasing L (canonical_order L es)"
proof -
  let ?d = "dedup_by same_text (sort_key fst (map (\<lambda>e. (show_entry L e, e)) es))"
  have "map (show_entry L) (map snd ?d) = map fst ?d"
    using canonical_keyed by fastforce
  then show ?thesis
    unfolding increasing_def canonical_order_def by (simp only:) (rule dedup_by_sorted, simp)
qed

lemma canonical_order_subset: "set (canonical_order L es) \<subseteq> set es"
  using canonical_keyed by (fastforce simp: canonical_order_def)

lemma canonical_order_texts: "show_entry L ` set (canonical_order L es) = show_entry L ` set es"
proof -
  let ?s = "sort_key fst (map (\<lambda>e. (show_entry L e, e)) es)"
  let ?d = "dedup_by same_text ?s"
  have "show_entry L ` snd ` set ?d = fst ` set ?d"
    unfolding image_image by (rule image_cong) (simp_all add: canonical_keyed)
  also have "\<dots> = fst ` set ?s" by (rule dedup_by_keys)
  also have "\<dots> = show_entry L ` set es" by (simp add: image_image)
  finally show ?thesis by (simp add: canonical_order_def)
qed

section \<open>Authored lists\<close>

fun accepted :: "net_lib \<Rightarrow> string list \<Rightarrow> entry list" where
  "accepted L [] = []"
| "accepted L (s # ss) = (case checked_entry L s of Inl _ \<Rightarrow> accepted L ss | Inr e \<Rightarrow> e # accepted L ss)"

fun refusals :: "net_lib \<Rightarrow> string list \<Rightarrow> entry_error list" where
  "refusals L [] = []"
| "refusals L (s # ss) = (case checked_entry L s of Inl e \<Rightarrow> e # refusals L ss | Inr _ \<Rightarrow> refusals L ss)"

definition entry_good :: "net_lib \<Rightarrow> entry \<Rightarrow> bool" where
  "entry_good L e \<longleftrightarrow> entry_ok L e \<and> check_authorable e = Inr ()"

lemma authored_loop_strings:
  "authored_loop L sh (map JStr ss) es rf = Inr (es @ accepted L ss, rf @ refusals L ss)"
  by (induction ss arbitrary: es rf) (simp_all split: sum.split)

lemma authored_loop_Inr: "authored_loop L sh vs es rf = Inr r \<Longrightarrow> \<exists>ss. vs = map JStr ss"
proof (induction vs arbitrary: es rf)
  case (Cons v vs)
  then obtain s where v: "v = JStr s" by (cases v) auto
  with Cons obtain ss where "vs = map JStr ss" by (auto split: sum.splits)
  with v show ?case by (intro exI [of _ "s # ss"]) simp
qed simp

lemma parse_authored_entries_strings:
  "parse_authored_entries L (map JStr ss) sh =
     (if refusals L ss \<noteq> [] then Inl \<lparr>ce_detail = InvalidEntries (length (refusals L ss)), ce_entries = refusals L ss\<rparr>
      else Inr (canonical_order L (accepted L ss)))"
  by (simp add: parse_authored_entries_def authored_loop_strings)

lemma checked_entry_Inr: "checked_entry L s = Inr e \<longleftrightarrow> parse_entry L s = Inr e \<and> check_authorable e = Inr ()"
  by (auto simp: checked_entry_def split: sum.splits)

lemma checked_entry_Inl: "checked_entry L s = Inl e \<Longrightarrow> ee_entry e = s"
  by (auto simp: checked_entry_def parse_entry_def split: sum.splits)

lemma accepted_set: "set (accepted L ss) = {e. \<exists>s \<in> set ss. checked_entry L s = Inr e}"
  by (induction ss) (auto split: sum.splits)

lemma refusals_nil: "refusals L ss = [] \<longleftrightarrow> (\<forall>s \<in> set ss. \<exists>e. checked_entry L s = Inr e)"
  by (induction ss) (auto split: sum.splits)

lemma refusals_entries: "map ee_entry (refusals L ss) = filter (\<lambda>s. \<nexists>e. checked_entry L s = Inr e) ss"
  by (induction ss) (auto split: sum.splits dest: checked_entry_Inl)

lemma parse_authored_entries_ok:
  assumes L: "net_lib_ok L" and "parse_authored_entries L vs sh = Inr es"
  shows "list_all (entry_good L) es \<and> increasing L es \<and> (vs = [] \<longrightarrow> es = [])"
proof -
  from assms(2) obtain ss where vs: "vs = map JStr ss"
    by (auto simp: parse_authored_entries_def split: sum.splits dest: authored_loop_Inr)
  with assms(2) have es: "es = canonical_order L (accepted L ss)"
    by (auto simp: parse_authored_entries_strings split: if_splits)
  have "\<forall>e \<in> set (accepted L ss). entry_good L e"
    using parse_entry_ok [OF L] by (auto simp: accepted_set checked_entry_Inr entry_good_def)
  then have "list_all (entry_good L) es"
    using canonical_order_subset [of L "accepted L ss"] by (auto simp: es list_all_iff)
  then show ?thesis
    using es increasing_canonical_order vs by (simp add: canonical_order_def)
qed

lemma good_back:
  assumes "net_lib_ok L" and "entry_good L e"
  shows "parse_entry L (show_entry L e) = Inr e" and "checked_entry L (show_entry L e) = Inr e"
  using assms parse_entry_show [of L e] by (simp_all add: entry_good_def entry_ok_def checked_entry_Inr)

lemma parse_entries_back:
  assumes "net_lib_ok L" and "list_all (entry_good L) es" and "increasing L es"
  shows "parse_authored_entries L (map (\<lambda>e. JStr (show_entry L e)) es) sh = Inr es"
proof -
  have "accepted L (map (show_entry L) es) = es" "refusals L (map (show_entry L) es) = []"
    using assms(2) by (induction es) (simp_all add: good_back [OF assms(1)])
  then show ?thesis
    using parse_authored_entries_strings [of L "map (show_entry L) es" sh] assms(3)
    by (simp add: comp_def canonical_order_increasing)
qed

lemma stored_back:
  "net_lib_ok L \<Longrightarrow> list_all (entry_good L) es \<Longrightarrow> stored_entries L (map (show_entry L) es) = Some es"
  by (induction es) (simp_all add: good_back, simp add: entry_good_def)

lemma stored_entries_ok:
  "net_lib_ok L \<Longrightarrow> stored_entries L ts = Some es \<Longrightarrow> ts = map (show_entry L) es \<and> list_all (entry_good L) es"
  by (induction ts arbitrary: es)
    (auto simp: entry_good_def parse_entry_ok split: sum.splits if_splits)

lemma canonical_order_set:
  assumes "net_lib_ok L" and "\<And>e. e \<in> set es \<Longrightarrow> entry_ok L e"
  shows "set (canonical_order L es) = set es"
proof
  show "set es \<subseteq> set (canonical_order L es)"
  proof
    fix e assume e: "e \<in> set es"
    then have "show_entry L e \<in> show_entry L ` set (canonical_order L es)" by (simp add: canonical_order_texts)
    then obtain e' where "e' \<in> set (canonical_order L es)" "show_entry L e' = show_entry L e" by auto
    with e assms canonical_order_subset [of L es] show "e \<in> set (canonical_order L es)"
      by (metis show_entry_inj subsetD)
  qed
qed (rule canonical_order_subset)

lemma increasing_unique:
  assumes "increasing L es" and "increasing L es'" and "set es = set es'"
  shows "es = es'"
proof -
  have texts: "map (show_entry L) es = map (show_entry L) es'"
    using assms by (intro strict_sorted_equal [symmetric]) (auto simp: increasing_def)
  have "inj_on (show_entry L) (set es \<union> set es')"
    using assms by (auto simp: increasing_def strict_sorted_iff distinct_map)
  with texts show ?thesis by (rule map_inj_on)
qed

section \<open>Ceilings\<close>

definition ceiling_ok :: "net_lib \<Rightarrow> ceiling \<Rightarrow> bool" where
  "ceiling_ok L c \<longleftrightarrow>
     (case c of
        Unsandboxed \<Rightarrow> True
      | Sandboxed p \<Rightarrow> list_all (entry_good L) (po_entries p) \<and> increasing L (po_entries p) \<and>
          (po_mode p = ModeNone \<longrightarrow> po_entries p = []))"

lemma parse_mode_str [simp]: "parse_mode (mode_str m) = Some m"
  by (cases m) (simp_all add: parse_mode_def)

lemma parse_mode_Some: "parse_mode s = Some m \<longleftrightarrow> s = mode_str m"
  by (cases m) (auto simp: parse_mode_def)

lemma mode_not_unsandboxed [simp]: "mode_str m \<noteq> ''unsandboxed''"
  by (cases m) simp_all

lemma parse_sandboxed_ok:
  assumes "net_lib_ok L" and "parse_sandboxed L kvs = Inr p"
  shows "ceiling_ok L (Sandboxed p)"
  using assms(2) parse_authored_entries_ok [OF assms(1)]
  by (auto simp: parse_sandboxed_def ceiling_ok_def split: option.splits sum.splits if_splits json.splits)

lemma parse_authored_ok:
  assumes "net_lib_ok L" and "parse_authored L v = Inr c"
  shows "ceiling_ok L c"
  using assms(2) parse_sandboxed_ok [OF assms(1)]
  by (auto simp: parse_authored_def ceiling_ok_def split: json.splits option.splits if_splits)

lemma strings_map [simp]: "strings (map (\<lambda>e. JStr (f e)) es) = Some (map f es)"
  by (induction es) simp_all

lemma strings_Some: "strings vs = Some ss \<Longrightarrow> vs = map JStr ss"
  by (induction vs arbitrary: ss rule: strings.induct) auto

lemma from_str_strings_Some: "from_str_strings t = Some ss \<Longrightarrow> t = to_string (JArr (map JStr ss))"
proof -
  assume *: "from_str_strings t = Some ss"
  then obtain v where "t = JText v" by (cases t) (auto simp: from_str_strings_def)
  with * show ?thesis
    by (cases v) (auto simp: from_str_strings_def to_string_def dest: strings_Some)
qed

lemma from_columns_back:
  assumes "net_lib_ok L" and "ceiling_ok L c"
  shows "from_columns L (fst (to_columns L c)) (snd (to_columns L c)) = Inr c"
proof (cases c)
  case Unsandboxed
  then show ?thesis by (simp add: from_columns_def from_str_strings_def)
next
  case (Sandboxed p)
  then show ?thesis
    using assms by (simp add: from_columns_def from_str_strings_def stored_back ceiling_ok_def canonical_order_increasing)
qed

lemma unknown_wire: "unknown_field [''kind'', ''mode'', ''entries''] [(''kind'', a), (''mode'', b), (''entries'', c)] = None"
  by (simp add: unknown_field_def sql_find_None_iff)

lemma parse_wire_back:
  assumes "net_lib_ok L" and "ceiling_ok L c"
  shows "parse_authored L (to_wire L c) = Inr c"
proof (cases c)
  case (Sandboxed p)
  then show ?thesis
    using assms parse_entries_back [OF assms(1), of "po_entries p" EntriesShape]
    by (auto simp: parse_authored_def parse_sandboxed_def unknown_wire ceiling_ok_def)
qed (simp add: parse_authored_def)

lemma from_columns_Inr:
  assumes "net_lib_ok L" and "from_columns L m col = Inr c"
  shows "ceiling_ok L c \<and> to_columns L c = (m, col)"
proof -
  from assms(2) obtain ts where ts: "from_str_strings col = Some ts"
    by (auto simp: from_columns_def split: option.splits)
  note col = from_str_strings_Some [OF ts]
  show ?thesis
  proof (cases "m = ''unsandboxed''")
    case True
    with assms(2) ts col show ?thesis by (auto simp: from_columns_def ceiling_ok_def split: if_splits)
  next
    case False
    with assms(2) ts obtain md es where m: "m = mode_str md" and st: "stored_entries L ts = Some es"
      and c: "c = Sandboxed \<lparr>po_mode = md, po_entries = es\<rparr>" and o: "canonical_order L es = es" "md = ModeNone \<longrightarrow> es = []"
      by (auto simp: from_columns_def parse_mode_Some split: option.splits if_splits)
    with stored_entries_ok [OF assms(1) st] increasing_canonical_order [of L es] col show ?thesis
      by (simp add: ceiling_ok_def comp_def)
  qed
qed

end
