(* ===== verification/Network_Props.thy ===== *)
theory Network_Props
  imports Network_Ceiling
begin

text \<open>
  Properties of network entries and ceilings: canonical texts, the columns and the wire form, and
  what a human may author.
\<close>

section \<open>Entries\<close>

text \<open>
  The canonical text of a network entry is read back as the same entry: whatever spelling an
  entry was written in, storing what \<open>Display\<close> prints and parsing it again loses nothing, and
  the entry's port interval is a non-empty one of ports from 1.
\<close>

theorem entry_roundtrip:
  assumes "net_lib_ok L" and "parse_entry L raw = Inr e"
  shows "parse_entry L (show_entry L e) = Inr e \<and> 1 \<le> unat (pr_lo (en_ports e)) \<and> unat (pr_lo (en_ports e)) \<le> unat (pr_hi (en_ports e))"
  using parse_entry_ok [OF assms] parse_entry_show [OF assms(1), of e] by (simp add: entry_ok_def ports_ok_def)

definition demo_host :: string where
  "demo_host = ''api.example.com''"

definition demo_lib :: net_lib where
  "demo_lib = \<lparr>nl_to_ascii = \<lambda>s. if s = demo_host \<or> s = ''API.example.com'' then Some demo_host else None,
     nl_new = \<lambda>a n. if n \<le> max_prefix a then Some (a, n) else None,
     nl_trunc = id,
     nl_contains = \<lambda>m n. m = n,
     nl_show = \<lambda>n. show_ip (fst n) @ ''/'' @ show_dec (snd n)\<rparr>"

lemma demo_lib_ok: "net_lib_ok demo_lib"
proof -
  have "list_all ldh demo_host" "without_root demo_host = demo_host" "strip_suffix ''.'' demo_host = None"
    by code_simp+
  then show ?thesis by (simp add: net_lib_ok_def demo_lib_def split: if_splits)
qed

lemma demo_host_ports: "split_host_ports ''API.example.com:80-443'' = Inr (''API.example.com'', ''80-443'')"
  by code_simp

lemma demo_decimal: "show_dec 80 = ''80''" "show_dec 443 = ''443''"
  by code_simp+

lemma demo_ports: "parse_ports ''80-443'' = Inr \<lparr>pr_lo = 80, pr_hi = 443\<rparr>"
  using parse_ports_show [of "\<lparr>pr_lo = 80, pr_hi = 443\<rparr>"]
  by (simp add: ports_ok_def show_ports_def ALL_PORTS_def demo_decimal)

lemma demo_name: "parse_name demo_lib ''API.example.com'' 0 = Inr demo_host"
  by code_simp

lemma demo_parse_host: "parse_host demo_lib ''API.example.com'' = Inr (Name demo_host)"
proof -
  have "bracketed ''API.example.com'' = None" "\<not> looks_v4 ''API.example.com''"
    "strip_prefix ''*.'' ''API.example.com'' = None" "CHR ''*'' \<notin> set ''API.example.com''"
    by code_simp+
  then show ?thesis
    by (subst parse_host.simps) (simp only: option.case if_False demo_name map_sum.simps)
qed

lemma demo_entry: "parse_entry demo_lib ''API.example.com:80-443''
   = Inr \<lparr>en_host = Name demo_host, en_ports = \<lparr>pr_lo = 80, pr_hi = 443\<rparr>\<rparr>"
  by (simp only: parse_entry_def demo_host_ports demo_ports demo_parse_host sum.case prod.case map_err.simps)

theorem entry_roundtrip_witness:
  "parse_entry demo_lib (show_entry demo_lib \<lparr>en_host = Name demo_host, en_ports = \<lparr>pr_lo = 80, pr_hi = 443\<rparr>\<rparr>)
     = Inr \<lparr>en_host = Name demo_host, en_ports = \<lparr>pr_lo = 80, pr_hi = 443\<rparr>\<rparr>"
  using entry_roundtrip [OF demo_lib_ok demo_entry] by blast

section \<open>Loopback\<close>

fun addr_value :: "ip_addr \<Rightarrow> nat" where
  "addr_value (V4 a b c d) = ((unat a * 256 + unat b) * 256 + unat c) * 256 + unat d"
| "addr_value (V6 a b c d e f g h) =
     ((((((unat a * 65536 + unat b) * 65536 + unat c) * 65536 + unat d) * 65536 + unat e) * 65536 + unat f) * 65536 + unat g) * 65536 + unat h"

definition in_net :: "net \<Rightarrow> ip_addr \<Rightarrow> bool" where
  "in_net n x \<longleftrightarrow> is_v4 x = is_v4 (fst n) \<and>
     addr_value x div 2 ^ (max_prefix (fst n) - snd n) = addr_value (fst n) div 2 ^ (max_prefix (fst n) - snd n)"

fun guest_loopback_addr :: "ip_addr \<Rightarrow> bool" where
  "guest_loopback_addr (V4 a _ _ _) = (a = 127)"
| "guest_loopback_addr (V6 a b c d e f g h) = ([a, b, c, d, e, f, g, h] = [0, 0, 0, 0, 0, 0, 0, 1])"

lemma in_net_self: "in_net n (fst n)"
  by (simp add: in_net_def)

lemma div_coarser:
  assumes "x div 2 ^ i = y div (2 ^ i :: nat)" and "i \<le> j"
  shows "x div 2 ^ j = y div 2 ^ j"
  using assms by (metis div_mult2_eq le_Suc_ex power_add)

lemma v4_first: "addr_value (V4 a b c d) div 2 ^ 24 = unat a"
  using unat_octet [of b] unat_octet [of c] unat_octet [of d] by (intro div_nat_eqI) auto

lemma horner_one: "x * 65536 + y = (1 :: nat) \<longleftrightarrow> x = 0 \<and> y = 1"
  by (cases x) auto

lemma horner_zero: "x * 65536 + y = (0 :: nat) \<longleftrightarrow> x = 0 \<and> y = 0"
  by simp

lemma loopback_block:
  assumes "is_guest_loopback n" and "in_net n x" and "snd n \<le> max_prefix (fst n)"
  shows "guest_loopback_addr x"
proof (cases x)
  case (V4 a b c d)
  with assms obtain y1 y2 y3 where n: "fst n = V4 127 y1 y2 y3" "8 \<le> snd n"
    by (cases "fst n") (auto simp: in_net_def is_guest_loopback_def)
  have "addr_value x div 2 ^ 24 = addr_value (fst n) div 2 ^ 24"
  proof (rule div_coarser)
    show "addr_value x div 2 ^ (32 - snd n) = addr_value (fst n) div 2 ^ (32 - snd n)"
      using assms(2) n(1) by (simp add: in_net_def del: addr_value.simps)
    show "32 - snd n \<le> 24" using n(2) by simp
  qed
  with V4 n have "unat a = unat (127 :: octet)" by (simp only: v4_first)
  with V4 show ?thesis by (simp add: word_unat_eq_iff)
next
  case (V6 a b c d e f g h)
  with assms have "addr_value x = 1"
    by (cases "fst n") (auto simp: in_net_def is_guest_loopback_def)
  then have "unat a = 0 \<and> unat b = 0 \<and> unat c = 0 \<and> unat d = 0 \<and> unat e = 0 \<and> unat f = 0 \<and> unat g = 0 \<and> unat h = 1"
    using V6 by (simp only: addr_value.simps horner_one horner_zero)
  moreover have "h = 1" if "unat h = 1" using that by (metis of_nat_1 of_nat_unat ucast_id)
  ultimately show ?thesis using V6 by (simp add: unsigned_eq_0_iff)
qed

lemma only_loopback:
  assumes "\<And>x. in_net n x \<Longrightarrow> guest_loopback_addr x" and "snd n \<le> max_prefix (fst n)"
  shows "is_guest_loopback n"
proof (cases "fst n")
  case (V4 a b c d)
  have a: "a = 127" using assms(1) [OF in_net_self] V4 by simp
  have "8 \<le> snd n"
  proof (rule ccontr)
    assume k: "\<not> 8 \<le> snd n"
    have "addr_value (V4 x b c d) div 2 ^ 25 = 63" if "unat x = 126 \<or> unat x = 127" for x
      using that unat_octet [of b] unat_octet [of c] unat_octet [of d] by (intro div_nat_eqI) auto
    then have "addr_value (V4 126 b c d) div 2 ^ 25 = addr_value (V4 127 b c d) div 2 ^ 25"
      by (simp del: addr_value.simps)
    from div_coarser [OF this, of "32 - snd n"] k
    have "addr_value (V4 126 b c d) div 2 ^ (32 - snd n) = addr_value (V4 127 b c d) div 2 ^ (32 - snd n)" by simp
    then have "in_net n (V4 126 b c d)"
      using V4 a by (simp add: in_net_def del: addr_value.simps)
    then show False using assms(1) by fastforce
  qed
  then show ?thesis using V4 a by (simp add: is_guest_loopback_def)
next
  case (V6 a b c d e f g h)
  have one: "fst n = V6 0 0 0 0 0 0 0 1" using assms(1) [OF in_net_self] V6 by simp
  have "snd n = 128"
  proof (rule ccontr)
    assume k: "snd n \<noteq> 128"
    then have "1 < (2 :: nat) ^ (128 - snd n)"
      using one assms(2) by (intro one_less_power) auto
    then have "in_net n (V6 0 0 0 0 0 0 0 0)"
      using one by (simp add: in_net_def)
    then show False using assms(1) by fastforce
  qed
  then show ?thesis using one by (simp add: is_guest_loopback_def)
qed

text \<open>
  An entry naming an address or a prefix is refused to a human author exactly when every
  address it covers is the sandbox's own loopback (\<open>127.0.0.0/8\<close> and \<open>::1\<close>).
\<close>

theorem loopback_refused_iff:
  assumes "host_net (en_host e) = Some n" and "snd n \<le> max_prefix (fst n)"
  shows "check_authorable e = Inl LoopbackRefused \<longleftrightarrow> (\<forall>x. in_net n x \<longrightarrow> guest_loopback_addr x)"
  using assms loopback_block [of n] only_loopback [of n] by (auto simp: check_authorable_def)

theorem loopback_refused_iff_witness:
  "\<not> (\<forall>x. in_net (V4 127 0 0 0, 7) x \<longrightarrow> guest_loopback_addr x)"
  using loopback_refused_iff [of "\<lparr>en_host = Net (V4 127 0 0 0, 7), en_ports = ALL_PORTS\<rparr>" "(V4 127 0 0 0, 7)"]
  by (simp add: check_authorable_def is_guest_loopback_def)

section \<open>Ceilings\<close>

text \<open>
  C32. A ceiling a human authored is stored and shown without loss: it is read back from its two
  columns as the same ceiling, and its wire form is accepted again and is the same ceiling.
\<close>

theorem ceiling_roundtrip:
  assumes "net_lib_ok L" and "parse_authored L v = Inr c"
  shows "from_columns L (fst (to_columns L c)) (snd (to_columns L c)) = Inr c \<and> parse_authored L (to_wire L c) = Inr c"
  using assms parse_authored_ok [OF assms] by (simp add: from_columns_back parse_wire_back)

definition demo_e :: entry where
  "demo_e = \<lparr>en_host = Name demo_host, en_ports = \<lparr>pr_lo = 80, pr_hi = 443\<rparr>\<rparr>"

definition demo_wire :: json where
  "demo_wire = JObj [(''kind'', JStr ''sandboxed''), (''mode'', JStr ''egress''),
     (''entries'', JArr [JStr ''API.example.com:80-443'', JStr ''API.example.com:80-443''])]"

lemma demo_e_parse: "parse_entry demo_lib ''API.example.com:80-443'' = Inr demo_e"
  by (simp only: demo_entry demo_e_def)

lemma demo_checked: "checked_entry demo_lib ''API.example.com:80-443'' = Inr demo_e"
  by (simp add: checked_entry_Inr demo_e_parse) (simp add: check_authorable_def demo_e_def)

lemma demo_canonical: "canonical_order demo_lib [demo_e, demo_e] = [demo_e]"
  by (simp add: canonical_order_def)

lemma demo_entries: "parse_authored_entries demo_lib [JStr ''API.example.com:80-443'', JStr ''API.example.com:80-443''] sh = Inr [demo_e]"
  by (simp only: parse_authored_entries_def authored_loop.simps as_str.simps option.case demo_checked sum.case prod.case append.simps demo_canonical)
    simp

lemma demo_ceiling: "parse_authored demo_lib demo_wire = Inr (Sandboxed \<lparr>po_mode = Egress, po_entries = [demo_e]\<rparr>)"
  by (simp add: parse_authored_def demo_wire_def parse_sandboxed_def unknown_wire demo_entries parse_mode_def)

theorem ceiling_roundtrip_witness:
  "from_columns demo_lib ''egress'' (to_string (JArr [JStr (show_entry demo_lib demo_e)]))
     = Inr (Sandboxed \<lparr>po_mode = Egress, po_entries = [demo_e]\<rparr>)"
  using ceiling_roundtrip [OF demo_lib_ok demo_ceiling] by simp

text \<open>
  The columns of an execution are read only in the exact form in which a ceiling is stored: a
  ceiling that is read has those columns, and it is one a human could have authored.
\<close>

theorem ceiling_columns_exact:
  assumes "net_lib_ok L" and "from_columns L m col = Inr c"
  shows "to_columns L c = (m, col) \<and> parse_authored L (to_wire L c) = Inr c"
  using from_columns_Inr [OF assms] assms(1) by (simp add: parse_wire_back)

lemma demo_reads_back: "from_columns demo_lib ''allowlist'' (to_string (JArr [])) = Inr (Sandboxed \<lparr>po_mode = Allowlist, po_entries = []\<rparr>)"
  by (simp add: from_columns_def from_str_strings_def parse_mode_def canonical_order_def)

theorem ceiling_columns_exact_witness:
  "parse_authored demo_lib (to_wire demo_lib (Sandboxed \<lparr>po_mode = Allowlist, po_entries = []\<rparr>))
     = Inr (Sandboxed \<lparr>po_mode = Allowlist, po_entries = []\<rparr>)"
  using ceiling_columns_exact [OF demo_lib_ok demo_reads_back] by blast

text \<open>
  Lists of authored entries that name the same entries are accepted as the same list, whatever
  their order, spelling and repetitions, so that comparing ceilings for equality compares them
  as sets of entries.
\<close>

theorem authored_entries_canonical:
  assumes L: "net_lib_ok L" and es: "parse_authored_entries L (map JStr ss) sh = Inr es"
    and es': "parse_authored_entries L (map JStr ss') sh' = Inr es'"
  shows "es = es' \<longleftrightarrow> parse_entry L ` set ss = parse_entry L ` set ss'"
proof -
  have c: "es = canonical_order L (accepted L ss) \<and> (\<forall>s \<in> set ss. \<exists>e. checked_entry L s = Inr e)"
    if "parse_authored_entries L (map JStr ss) sh = Inr es" for ss sh es
    using that by (auto simp: parse_authored_entries_strings refusals_nil split: if_splits)
  have acc: "parse_entry L ` set ss = Inr ` set (accepted L ss)" "\<forall>e \<in> set (accepted L ss). entry_ok L e"
    if "parse_authored_entries L (map JStr ss) sh = Inr es" for ss sh es
    using c [OF that] parse_entry_ok [OF L] by (force simp: accepted_set checked_entry_Inr)+
  have set: "set es = set (accepted L ss)" if *: "parse_authored_entries L (map JStr ss) sh = Inr es" for ss sh es
    unfolding c [OF *, THEN conjunct1] using acc(2) [OF *] by (intro canonical_order_set [OF L]) blast
  have inc: "increasing L es" "increasing L es'"
    using parse_authored_entries_ok [OF L es] parse_authored_entries_ok [OF L es'] by blast+
  have "es = es' \<longleftrightarrow> set es = set es'"
    using inc increasing_unique by blast
  then show ?thesis
    unfolding acc(1) [OF es] acc(1) [OF es'] set [OF es] set [OF es'] by (auto simp: inj_image_eq_iff)
qed

lemma demo_entry_once: "parse_authored_entries demo_lib [JStr ''API.example.com:80-443''] sh = Inr [demo_e]"
  by (simp only: parse_authored_entries_def authored_loop.simps as_str.simps option.case demo_checked sum.case prod.case append.simps)
    (simp add: canonical_order_def)

theorem authored_entries_canonical_witness:
  "parse_entry demo_lib ` set [''API.example.com:80-443'', ''API.example.com:80-443''] = parse_entry demo_lib ` set [''API.example.com:80-443'']"
  using authored_entries_canonical [of demo_lib "[''API.example.com:80-443'', ''API.example.com:80-443'']" EntriesShape "[demo_e]"
    "[''API.example.com:80-443'']" EndpointsShape "[demo_e]"]
  by (simp only: demo_lib_ok list.map demo_entries demo_entry_once simp_thms)

text \<open>
  A list of authored entries with a refused one is refused as a whole, and the refusal reports
  each of the refused entries as it was written, in the order of the list.
\<close>

theorem refused_all_reported:
  assumes "\<nexists>e. checked_entry L s = Inr e" and "s \<in> set ss"
  shows "\<exists>err. parse_authored_entries L (map JStr ss) sh = Inl err \<and>
    map ee_entry (ce_entries err) = filter (\<lambda>s. \<nexists>e. checked_entry L s = Inr e) ss \<and>
    ce_detail err = InvalidEntries (length (ce_entries err))"
  using assms refusals_nil [of L ss] refusals_entries [of L ss] by (auto simp: parse_authored_entries_strings)

lemma demo_refused: "checked_entry demo_lib ''x'' = Inl \<lparr>ee_entry = ''x'', ee_reason = MissingPort\<rparr>"
  by code_simp

theorem refused_all_reported_witness:
  "\<exists>err. parse_authored_entries demo_lib [JStr ''x''] EntriesShape = Inl err \<and> map ee_entry (ce_entries err) = [''x'']"
  using refused_all_reported [of demo_lib "''x''" "[''x'']" EntriesShape] by (fastforce simp: demo_refused)

end
