(* ===== verification/Ceiling_Service.thy ===== *)
theory Ceiling_Service
  imports Network_Props Transition_Props
begin

text \<open>
  \<open>scheduler/src/services/ceiling.rs\<close>: changing an execution's network ceiling, and the platform
  event that records the change. \<open>ts\<close> is \<open>chrono\<close>'s \<open>to_rfc3339\<close>.
\<close>

definition CEILING_CHANGED :: string where
  "CEILING_CHANGED = ''ceiling_changed''"

definition ceiling_changed_payload ::
  "net_lib \<Rightarrow> string \<Rightarrow> ceiling \<Rightarrow> ceiling option \<Rightarrow> string \<Rightarrow> string \<Rightarrow> json" where
  "ceiling_changed_payload L eid ceiling previous who at =
     JObj [(''parts'', JArr [JObj [(''data'', JObj
       [(''type'', JStr CEILING_CHANGED),
        (''execution_id'', JStr eid),
        (''ceiling'', to_wire L ceiling),
        (''previous'', case previous of None \<Rightarrow> JNull | Some c \<Rightarrow> to_wire L c),
        (''by'', JStr who),
        (''at'', JStr at)])]])]"

definition write_ceiling_changed_in_tx ::
  "net_lib \<Rightarrow> (timestamp \<Rightarrow> string) \<Rightarrow> ceiling option \<Rightarrow> (scheduler_error, unit) tx" where
  "write_ceiling_changed_in_tx L ts previous =
     tx_bind tx_scope (\<lambda>eid.
     tx_bind (tx_try id (get_execution eid)) (\<lambda>exec.
     tx_bind (tx_try id (\<lambda>_. from_columns L (x_ceiling_mode exec) (x_ceiling_entries exec))) (\<lambda>ceiling.
     tx_bind (tx_try id (\<lambda>_. ok_or (Database ''ceiling_at missing after write'') (map_option ts (x_ceiling_at exec)))) (\<lambda>at.
     tx_bind (insert_in_tx None EvPlatform (to_string (ceiling_changed_payload L eid ceiling previous
       (case x_ceiling_by exec of None \<Rightarrow> ''user'' | Some who \<Rightarrow> who) at))) (\<lambda>_.
     tx_ret ())))))"

definition store_ceiling :: "net_lib \<Rightarrow> ceiling \<Rightarrow> timestamp \<Rightarrow> execution \<Rightarrow> execution" where
  "store_ceiling L ceiling now x =
     x\<lparr>x_ceiling_mode := fst (to_columns L ceiling), x_ceiling_entries := snd (to_columns L ceiling),
       x_ceiling_by := Some ''user'', x_ceiling_at := Some now, x_updated_at := now\<rparr>"

definition ended_problem :: scheduler_error where
  "ended_problem = Problem ''execution.terminated'' ''the execution has ended; its ceiling cannot be changed''"

definition ceiling_body ::
  "net_lib \<Rightarrow> (timestamp \<Rightarrow> string) \<Rightarrow> string \<Rightarrow> ceiling \<Rightarrow> (scheduler_error, bool) tx" where
  "ceiling_body L ts eid ceiling =
     tx_bind (tx_try id (get_execution eid)) (\<lambda>exec.
     tx_bind (tx_fail_if (x_desired exec = DTerminate \<or> x_outcome exec \<noteq> None) ended_problem) (\<lambda>_.
     tx_bind (tx_try id (\<lambda>_. from_columns L (x_ceiling_mode exec) (x_ceiling_entries exec))) (\<lambda>current.
     tx_bind (tx_fail_if (current = Unsandboxed)
       (Problem ''resource.conflict'' ''this execution is unsandboxed; its ceiling cannot be changed'')) (\<lambda>_.
     if current = ceiling then tx_ret False
     else
       tx_bind (tx_update_executions (\<lambda>x. x_id x = eid \<and> x_desired x = DRun \<and> x_outcome x = None)
         (store_ceiling L ceiling)) (\<lambda>updated.
       tx_bind (tx_fail_if (updated = 0) ended_problem) (\<lambda>_.
       tx_bind (write_ceiling_changed_in_tx L ts (Some current)) (\<lambda>_.
       tx_ret True)))))))"

definition set_ceiling ::
  "net_lib \<Rightarrow> (timestamp \<Rightarrow> string) \<Rightarrow> string \<Rightarrow> ceiling \<Rightarrow> db \<Rightarrow> (scheduler_error + bool) \<times> db" where
  "set_ceiling L ts eid ceiling =
     run_tx Inl eid (tx_bind (tx_map_err Inl (ceiling_body L ts eid ceiling)) (\<lambda>ch. tx_ret (Inr ch)))"

section \<open>Facts\<close>

lemma store_ceiling_sel [simp]:
  "x_id (store_ceiling L c now x) = x_id x" "x_desired (store_ceiling L c now x) = x_desired x"
  "x_outcome (store_ceiling L c now x) = x_outcome x" "x_ceiling_by (store_ceiling L c now x) = Some ''user''"
  "x_ceiling_at (store_ceiling L c now x) = Some now"
  "x_ceiling_mode (store_ceiling L c now x) = fst (to_columns L c)"
  "x_ceiling_entries (store_ceiling L c now x) = snd (to_columns L c)"
  by (simp_all add: store_ceiling_def)

lemma execution_row_store:
  "execution_row i (update_executions P (store_ceiling L c) d) =
     map_option (\<lambda>x. if P x then store_ceiling L c (clock d) x else x) (execution_row i d)"
  by (rule execution_row_update) simp

lemma ceiling_body_Inr:
  assumes L: "net_lib_ok L" and c: "ceiling_ok L c" and wf: "db_wf d"
    and run: "ceiling_body L ts eid c \<lparr>tx_db = d, tx_execution_id = eid, tx_verified = vs\<rparr> = Inr (ch, t')"
  obtains x cur where "execution_row eid d = Some x" "x_desired x = DRun" "x_outcome x = None"
    "from_columns L (x_ceiling_mode x) (x_ceiling_entries x) = Inr cur" "cur \<noteq> Unsandboxed"
    "\<not> ch \<and> cur = c \<and> tx_db t' = d \<or>
     ch \<and> cur \<noteq> c \<and>
     execution_row eid (tx_db t') = Some (store_ceiling L c (clock d) x) \<and>
     tx_db t' = add_event eid None EvPlatform
       (to_string (ceiling_changed_payload L eid c (Some cur) ''user'' (ts (clock d)))) None
       (update_executions (\<lambda>x. x_id x = eid \<and> x_desired x = DRun \<and> x_outcome x = None) (store_ceiling L c) d)"
proof -
  from run obtain x cur where x: "execution_row eid d = Some x" "x_desired x \<noteq> DTerminate" "x_outcome x = None"
    and cur: "from_columns L (x_ceiling_mode x) (x_ceiling_entries x) = Inr cur" "cur \<noteq> Unsandboxed"
    by (auto simp: ceiling_body_def tx_iffs)
  have col: "from_columns L (fst (to_columns L c)) (snd (to_columns L c)) = Inr c"
    using from_columns_back [OF L c] .
  have id: "x_id x = eid" using x(1) by (auto dest: execution_rowD)
  have upd: "x_desired x = DRun"
    using db_wf_execution [OF wf x(1)] x(2) by (cases "x_desired x") (auto simp: execution_wf_def)
  show thesis
  proof (cases "cur = c")
    case True
    then show ?thesis using run x cur upd that by (auto simp: ceiling_body_def tx_iffs)
  next
    case False
    show ?thesis using run x cur col id False upd
      by (intro that [of x cur]) (auto simp: ceiling_body_def tx_iffs write_ceiling_changed_in_tx_def execution_row_store insert_in_tx_def insert_row_def)
  qed
qed

lemma aborts_ceiling: "aborts_err (tx_bind (tx_map_err Inl m) (\<lambda>ch. tx_ret (Inr ch)))"
  by (intro aborts_err_rules)

lemma step_ceiling_body: "tx_keeps tx_step (ceiling_body L ts eid c)"
  unfolding ceiling_body_def write_ceiling_changed_in_tx_def
  by (intro step_rules) (auto simp: execution_step_def execution_wf_def store_ceiling_def)

text \<open>
  C25. Changing an execution's ceiling: a refused change leaves the database as it was. A change that
  is accepted found an execution that had not ended and was sandboxed; a ceiling equal to the
  stored one writes nothing, and any other is afterwards the ceiling that is read from the
  execution's columns, with exactly one platform event that names it and the one it replaced.
\<close>

theorem set_ceiling_effect:
  assumes "net_lib_ok L" and "ceiling_ok L c" and "db_wf d"
  shows "case set_ceiling L ts eid c d of
      (Inl e, d') \<Rightarrow> d' = d
    | (Inr changed, d') \<Rightarrow> \<exists>x cur. execution_row eid d = Some x \<and> x_outcome x = None \<and> x_desired x = DRun \<and>
        from_columns L (x_ceiling_mode x) (x_ceiling_entries x) = Inr cur \<and> cur \<noteq> Unsandboxed \<and>
        (if cur = c then \<not> changed \<and> d' = d
         else changed \<and> sessions d' = sessions d \<and>
           (\<exists>x' e. execution_row eid d' = Some x' \<and> from_columns L (x_ceiling_mode x') (x_ceiling_entries x') = Inr c \<and>
              x_outcome x' = None \<and> events d' = events d @ [e] \<and> ev_type e = EvPlatform \<and> ev_execution_id e = eid \<and>
              ev_payload e = to_string (ceiling_changed_payload L eid c (Some cur) ''user'' (ts (clock d)))) \<and>
           (\<forall>i. i \<noteq> eid \<longrightarrow> execution_row i d' = execution_row i d))"
proof -
  let ?u = "\<lambda>x. x_id x = eid \<and> x_desired x = DRun \<and> x_outcome x = None"
  obtain r d' where run: "set_ceiling L ts eid c d = (r, d')" by fastforce
  show ?thesis
  proof (cases r)
    case (Inl e)
    have "d' = d"
      by (rule run_tx_Err [OF run [unfolded set_ceiling_def Inl]]) blast
    with run Inl show ?thesis by simp
  next
    case (Inr ch)
    obtain t' where body: "ceiling_body L ts eid c \<lparr>tx_db = d, tx_execution_id = eid, tx_verified = []\<rparr> = Inr (ch, t')" "d' = tx_db t'"
      by (rule run_tx_committed [OF run [unfolded set_ceiling_def Inr] _ aborts_ceiling]) (auto simp: tx_iffs)
    have reads: "from_columns L (fst (to_columns L c)) (snd (to_columns L c)) = Inr c"
      using assms by (simp add: from_columns_back)
    obtain x cur where x: "execution_row eid d = Some x" "x_desired x = DRun" "x_outcome x = None"
      and cur: "from_columns L (x_ceiling_mode x) (x_ceiling_entries x) = Inr cur" "cur \<noteq> Unsandboxed"
      and eff: "\<not> ch \<and> cur = c \<and> d' = d \<or> ch \<and> cur \<noteq> c \<and> execution_row eid d' = Some (store_ceiling L c (clock d) x) \<and>
        d' = add_event eid None EvPlatform (to_string (ceiling_changed_payload L eid c (Some cur) ''user'' (ts (clock d)))) None
          (update_executions ?u (store_ceiling L c) d)"
      by (rule ceiling_body_Inr [OF assms body(1), folded body(2)])
    from eff show ?thesis
    proof (elim disjE conjE)
      assume *: "execution_row eid d' = Some (store_ceiling L c (clock d) x)" and ch: "ch" "cur \<noteq> c"
        and d': "d' = add_event eid None EvPlatform (to_string (ceiling_changed_payload L eid c (Some cur) ''user'' (ts (clock d)))) None
          (update_executions ?u (store_ceiling L c) d)"
      have "events d' = events d @ [new_event (update_executions ?u (store_ceiling L c) d) eid None EvPlatform
          (to_string (ceiling_changed_payload L eid c (Some cur) ''user'' (ts (clock d)))) None]"
        and "sessions d' = sessions d"
        by (simp_all add: d' add_event_def)
      moreover have "\<forall>i. i \<noteq> eid \<longrightarrow> execution_row i d' = execution_row i d"
        by (auto simp: d' execution_row_store dest: execution_rowD intro!: option.map_ident_strong)
      ultimately show ?thesis
        unfolding run Inr prod.case sum.case using x cur * ch reads
        by (intro exI [of _ x] exI [of _ cur]) (simp add: new_event_def)
    qed (use run Inr x cur in auto)
  qed
qed

definition sandboxed_db :: db where
  "sandboxed_db = demo_db\<lparr>executions := [demo_execution\<lparr>x_ceiling_mode := ''none'', x_ceiling_entries := to_string (JArr [])\<rparr>]\<rparr>"

lemma sandboxed_db_wf: "db_wf sandboxed_db"
  using demo_db_wf
  by (simp add: sandboxed_db_def db_wf_def demo_defs execution_wf_def log_wf_def queue_wf_def execution_row_def sql_find_def session_row_def)

theorem set_ceiling_effect_witness:
  "case set_ceiling demo_lib (\<lambda>_. ''now'') ''e'' (Sandboxed \<lparr>po_mode = Egress, po_entries = []\<rparr>) sandboxed_db of
     (Inl e, d') \<Rightarrow> False
   | (Inr changed, d') \<Rightarrow> changed \<and> (\<exists>x'. execution_row ''e'' d' = Some x' \<and>
       from_columns demo_lib (x_ceiling_mode x') (x_ceiling_entries x') = Inr (Sandboxed \<lparr>po_mode = Egress, po_entries = []\<rparr>))"
proof -
  let ?c = "Sandboxed \<lparr>po_mode = Egress, po_entries = []\<rparr>"
  have "ceiling_ok demo_lib ?c" by (simp add: ceiling_ok_def increasing_def)
  moreover have "fst (set_ceiling demo_lib (\<lambda>_. ''now'') ''e'' ?c sandboxed_db) = Inr True" by code_simp
  ultimately show ?thesis
    using set_ceiling_effect [OF demo_lib_ok _ sandboxed_db_wf, where c = ?c and ts = "\<lambda>_. ''now''" and eid = "''e''"]
    by (cases "set_ceiling demo_lib (\<lambda>_. ''now'') ''e'' ?c sandboxed_db") (auto split: if_splits)
qed

end
