(* ===== verification/Reconciler_Props.thy ===== *)
theory Reconciler_Props
  imports Reconciler_Facts Transition_Props
begin

text \<open>
  The properties of the reconciler (\<open>scheduler/src/services/reconciler.rs\<close>), over the facts of
  \<open>Reconciler_Facts\<close>: when a command goes out and what it carries, what a look leaves alone, and
  how termination reaches the sessions below.
\<close>

section \<open>Commands\<close>

fun command_kind :: "command_action \<Rightarrow> command_type" where
  "command_kind (Assign _) = CAssign"
| "command_kind (FeedTurn _ _) = CFeedTurn"
| "command_kind (StopTurn _) = CStopTurn"
| "command_kind (Cancel _) = CCancel"

fun command_session :: "command_action \<Rightarrow> string" where
  "command_session (Assign c) = ac_session_id c"
| "command_session (FeedTurn i _) = i"
| "command_session (StopTurn i) = i"
| "command_session (Cancel i) = i"

fun command_turn :: "command_action \<Rightarrow> json option" where
  "command_turn (Assign c) = ac_payload c"
| "command_turn (FeedTurn _ p) = Some p"
| "command_turn _ = None"

lemma updated_row:
  assumes "sql_count P (sessions d) \<noteq> 0" and "\<And>s. P s \<Longrightarrow> s_id s = i"
    and "\<And>s. s_id (f (clock d) s) = s_id s" and "distinct (map s_id (sessions d))"
  obtains s where "session_row i d = Some s" "P s"
    and "session_row i (update_sessions P f d) = Some (f (clock d) s)"
proof -
  from assms(1) obtain s where s: "s \<in> set (sessions d)" "P s"
    unfolding sql_count_zero_iff by blast
  then have "s_id s = i" using assms(2) by blast
  with s(1) assms(4) have row: "session_row i d = Some s"
    by (auto simp: session_row_def sql_find_key_iff)
  then show thesis
    using s assms(3) by (intro that [of s]) (auto simp: session_row_update)
qed

lemma tx_pop_turn_iff:
  "tx_pop_turn sid t = Inr (task, t') \<longleftrightarrow>
     (case oldest (\<lambda>k. t_session_id k = sid) (tx_db t) of
        None \<Rightarrow> task = None \<and> t' = t
      | Some k \<Rightarrow> \<exists>v. from_str (t_payload k) = Some v \<and> task = Some v \<and> t' = tx_put (delete_task (t_id k) (tx_db t)) t)"
  by (auto simp: tx_pop_turn_def split: option.splits)

text \<open>The pop inside a transaction is the inbox operation of the queue.\<close>

lemma pop_turn_takes:
  assumes "queue_wf (tx_db t)" and "tx_pop_turn sid t = Inr (task, t')"
  shows "task = map_option ta_payload (fst (take_task sid (tx_db t)))"
    and "tx_db t' = snd (take_task sid (tx_db t))"
  using assms
  by (auto simp: tx_pop_turn_iff oldest_eq take_task_def pop_by_session_wf assignment_of_def
      split: list.splits)

lemma pop_turn_sel:
  assumes "tx_pop_turn sid t = Inr (task, t')"
  shows "sessions (tx_db t') = sessions (tx_db t)" "executions (tx_db t') = executions (tx_db t)"
    "clock (tx_db t') = clock (tx_db t)"
  using assms by (auto simp: tx_pop_turn_iff split: option.splits)

lemma pop_turn_inbox:
  assumes "queue_wf (tx_db t)" and "tx_pop_turn sid t = Inr (task, t')"
  shows "task = (case inbox_of sid (tx_db t) of [] \<Rightarrow> None | k # _ \<Rightarrow> Some (ta_payload k))"
    and "inbox_of i (tx_db t') = (if i = sid then tl (inbox_of sid (tx_db t)) else inbox_of i (tx_db t))"
  unfolding pop_turn_takes [OF assms] tq.deq_value [OF assms(1)] tq.deq_contents [OF assms(1)]
  by (simp_all split: list.splits)

lemma touch_iff:
  "tx_touch_last_activity t = Inr (n, t') \<longleftrightarrow> n = sql_count (\<lambda>x. x_id x = tx_execution_id t) (executions (tx_db t)) \<and>
     t' = tx_put (update_executions (\<lambda>x. x_id x = tx_execution_id t) (\<lambda>now x. x\<lparr>x_last_activity_at := now\<rparr>) (tx_db t)) t"
  by (simp add: tx_touch_last_activity_def tx_iffs)

text \<open>What it takes for a command to be handed out, and what is recorded with it.\<close>

definition recorded :: "rec_env \<Rightarrow> db \<Rightarrow> command_action \<Rightarrow> session \<Rightarrow> bool" where
  "recorded env d a s \<longleftrightarrow> s_command_token s = Some (re_token env) \<and> s_command_type s = Some (command_kind a) \<and>
     s_command_at s = Some (clock d) \<and> s_command_has_payload s = (command_turn a \<noteq> None)"

definition live_execution :: "string \<Rightarrow> db \<Rightarrow> bool" where
  "live_execution eid d \<longleftrightarrow> (\<exists>x. execution_row eid d = Some x \<and> x_desired x \<noteq> DTerminate \<and> x_outcome x = None)"

fun allowed :: "session \<Rightarrow> command_action \<Rightarrow> session \<Rightarrow> bool" where
  "allowed session (Assign _) s \<longleftrightarrow> s_desired s = DRun \<and> s_executor_state s = Unassigned"
| "allowed session (FeedTurn _ _) s \<longleftrightarrow> s_desired s = DRun \<and> s_worker_id session \<noteq> None \<and>
     s_worker_id s = s_worker_id session \<and> (s_executor_state s = Running \<or> s_executor_state s = Idle)"
| "allowed session (StopTurn _) s \<longleftrightarrow> s_desired s = DStop \<and> s_worker_id session \<noteq> None \<and> s_worker_id s = s_worker_id session"
| "allowed session (Cancel _) s \<longleftrightarrow> s_desired s = DTerminate \<and> s_worker_id session \<noteq> None \<and> s_worker_id s = s_worker_id session"

definition issued :: "rec_env \<Rightarrow> string option \<Rightarrow> session \<Rightarrow> db \<Rightarrow> command_action \<Rightarrow> db \<Rightarrow> bool" where
  "issued env w session d a d' \<longleftrightarrow> command_session a = s_id session \<and>
     (\<exists>s s'. session_row (s_id session) d = Some s \<and> session_row (s_id session) d' = Some s' \<and>
        allowed session a s \<and> recorded env d a s' \<and> s_desired s' = s_desired s \<and>
        s_executor_state s' = s_executor_state s \<and>
        (if command_kind a = CAssign then w \<noteq> None \<longrightarrow> s_worker_id s' = w else s_worker_id s' = s_worker_id s) \<and>
        (command_kind a = CAssign \<or> command_kind a = CFeedTurn \<longrightarrow>
           s_command_token s = None \<and> live_execution (s_execution_id session) d)) \<and>
     (\<forall>i. inbox_of i d' = (if i = s_id session \<and> (command_kind a = CAssign \<or> command_kind a = CFeedTurn)
        then tl (inbox_of i d) else inbox_of i d)) \<and>
     (command_kind a = CAssign \<or> command_kind a = CFeedTurn \<longrightarrow>
        command_turn a = (case inbox_of (s_id session) d of [] \<Rightarrow> None | k # _ \<Rightarrow> Some (ta_payload k)))"

lemma command_row_sel [simp]:
  "s_id (command_row tok ty p now s) = s_id s" "s_desired (command_row tok ty p now s) = s_desired s"
  "s_executor_state (command_row tok ty p now s) = s_executor_state s"
  "s_worker_id (command_row tok ty p now s) = s_worker_id s"
  "s_command_token (command_row tok ty p now s) = Some tok"
  "s_command_type (command_row tok ty p now s) = Some ty"
  "s_command_at (command_row tok ty p now s) = Some now"
  "s_command_has_payload (command_row tok ty p now s) = p"
  by (simp_all add: command_row_def)

lemma session_row_same: "sessions d' = sessions d \<Longrightarrow> session_row i d' = session_row i d"
  by (simp add: session_row_def)

lemma session_row_exec_update [simp]: "session_row i (update_executions P f d) = session_row i d"
  by (simp add: session_row_def update_executions_def)

lemma stop_turn_issued:
  assumes "db_wf d" and "stop_turn_body env session \<lparr>tx_db = d, tx_execution_id = e, tx_verified = v\<rparr> = Inr (r, t')"
  shows "r = Inr (SendCommand (re_token env) (StopTurn (s_id session))) \<and>
    issued env w session d (StopTurn (s_id session)) (tx_db t')"
proof -
  let ?P = "\<lambda>s. s_id s = s_id session \<and> same_worker session s \<and> s_desired s = DStop"
  let ?f = "command_row (re_token env) CStopTurn False"
  from assms(2) have n: "sql_count ?P (sessions d) \<noteq> 0"
    and r: "r = Inr (SendCommand (re_token env) (StopTurn (s_id session)))" and t': "tx_db t' = update_sessions ?P ?f d"
    by (auto simp: stop_turn_body_def tx_iffs)
  have dist: "distinct (map s_id (sessions d))" using assms(1) by (simp add: db_wf_def)
  show ?thesis
    by (rule updated_row [OF n _ _ dist, of "s_id session" ?f]) (auto simp: r t' issued_def recorded_def same_worker_def)
qed

lemma cancel_issued:
  assumes "db_wf d" and "cancel_body env session \<lparr>tx_db = d, tx_execution_id = e, tx_verified = v\<rparr> = Inr (r, t')"
  shows "r = Inr (SendCommand (re_token env) (Cancel (s_id session))) \<and>
    issued env w session d (Cancel (s_id session)) (tx_db t')"
proof -
  let ?P = "\<lambda>s. s_id s = s_id session \<and> same_worker session s \<and> s_desired s = DTerminate"
  let ?f = "command_row (re_token env) CCancel False"
  from assms(2) have n: "sql_count ?P (sessions d) \<noteq> 0"
    and r: "r = Inr (SendCommand (re_token env) (Cancel (s_id session)))" and t': "tx_db t' = update_sessions ?P ?f d"
    by (auto simp: cancel_body_def tx_iffs)
  have dist: "distinct (map s_id (sessions d))" using assms(1) by (simp add: db_wf_def)
  show ?thesis
    by (rule updated_row [OF n _ _ dist, of "s_id session" ?f]) (auto simp: r t' issued_def recorded_def same_worker_def)
qed

lemma feed_issued:
  assumes wf: "db_wf d" and body: "feed_body env session \<lparr>tx_db = d, tx_execution_id = e, tx_verified = v\<rparr> = Inr (r, t')"
  shows "\<exists>p. r = Inr (SendCommand (re_token env) (FeedTurn (s_id session) p)) \<and>
    issued env w session d (FeedTurn (s_id session) p) (tx_db t')"
proof -
  let ?t = "\<lparr>tx_db = d, tx_execution_id = e, tx_verified = v\<rparr>"
  let ?P = "\<lambda>s. s_id s = s_id session \<and> s_command_token s = None \<and> s_desired s = DRun \<and> same_worker session s \<and>
     (s_executor_state s = Running \<or> s_executor_state s = Idle)"
  let ?f = "command_row (re_token env) CFeedTurn True"
  from body obtain p t1 where live: "live_execution (s_execution_id session) d"
    and pop: "tx_pop_turn (s_id session) ?t = (Inr (Some p, t1) :: (scheduler_error + reconciler_action) + json option \<times> exec_tx)"
    and n: "sql_count ?P (sessions (tx_db t1)) \<noteq> 0"
    and r: "r = Inr (SendCommand (re_token env) (FeedTurn (s_id session) p))"
    and same: "sessions (tx_db t') = sessions (update_sessions ?P ?f (tx_db t1))"
    and inbox: "\<And>i. inbox_of i (tx_db t') = inbox_of i (tx_db t1)"
    by (auto simp: feed_body_def tx_iffs live_execution_def touch_iff split: option.splits if_splits)
  have q: "queue_wf (tx_db ?t)" using wf by (simp add: db_wf_def)
  have t1: "sessions (tx_db t1) = sessions d" "clock (tx_db t1) = clock d" using pop_turn_sel [OF pop] by simp_all
  have dist: "distinct (map s_id (sessions (tx_db t1)))" using wf by (simp add: db_wf_def t1)
  have "issued env w session d (FeedTurn (s_id session) p) (tx_db t')"
    by (rule updated_row [OF n _ _ dist, of "s_id session" ?f])
      (use pop_turn_inbox [OF q pop] in \<open>auto simp: issued_def recorded_def same_worker_def inbox live
        session_row_same [OF t1(1)] session_row_same [OF same] t1 split: list.splits\<close>)
  with r show ?thesis by blast
qed

lemma touch_quiet:
  "(if b then tx_touch_last_activity else tx_ret 0) t = Inr (n, t') \<Longrightarrow>
   sessions (tx_db t') = sessions (tx_db t) \<and> task_queue (tx_db t') = task_queue (tx_db t)"
  by (auto simp: touch_iff tx_iffs update_executions_def split: if_splits)

lemma optional_quiet:
  "(case p of None \<Rightarrow> tx_ret None | Some i \<Rightarrow> tx_try h (g i)) t = Inr (m, t') \<Longrightarrow> t' = t"
  by (auto simp: tx_iffs split: option.splits)

lemma assign_issued:
  assumes wf: "db_wf d" and body: "assign_body env session resume w \<lparr>tx_db = d, tx_execution_id = e, tx_verified = v\<rparr> = Inr (r, t')"
  shows "\<exists>c. r = Inr (SendCommand (re_token env) (Assign c)) \<and> issued env w session d (Assign c) (tx_db t') \<and>
    ac_resume c = resume \<and> ac_execution_id c = s_execution_id session \<and> ac_agent_session_id c = s_agent_session_id session \<and>
    (\<not> resume \<longrightarrow> ac_payload c \<noteq> None)"
proof -
  let ?t = "\<lparr>tx_db = d, tx_execution_id = e, tx_verified = v\<rparr>"
  let ?P = "\<lambda>s. s_id s = s_id session \<and> s_command_token s = None \<and> s_desired s = DRun \<and> s_executor_state s = Unassigned"
  let ?f = "\<lambda>p now s. command_row (re_token env) CAssign (p \<noteq> None) now
        (case w of None \<Rightarrow> s | Some w' \<Rightarrow> s\<lparr>s_worker_id := Some w'\<rparr>)"
  from body obtain c p t1 t2 where live: "live_execution (s_execution_id session) d"
    and pop: "tx_pop_turn (s_id session) ?t = (Inr (p, t1) :: (scheduler_error + reconciler_action) + json option \<times> exec_tx)"
    and n: "sql_count ?P (sessions (tx_db t1)) \<noteq> 0"
    and t2: "t2 = tx_put (update_sessions ?P (?f p) (tx_db t1)) t1"
    and quiet: "sessions (tx_db t') = sessions (tx_db t2)" "task_queue (tx_db t') = task_queue (tx_db t2)"
    and r: "r = Inr (SendCommand (re_token env) (Assign c))"
    and c: "ac_session_id c = s_id session" "ac_payload c = p" "ac_resume c = resume" "ac_execution_id c = s_execution_id session"
      "ac_agent_session_id c = s_agent_session_id session" "\<not> resume \<longrightarrow> p \<noteq> None"
    unfolding assign_body_def
    by (clarsimp simp: tx_iffs) (fastforce simp: live_execution_def dest!: touch_quiet optional_quiet)
  have same: "sessions (tx_db t') = sessions (update_sessions ?P (?f p) (tx_db t1))"
    and inbox: "\<And>i. inbox_of i (tx_db t') = inbox_of i (tx_db t1)"
    using quiet by (simp_all add: t2 inbox_of_def)
  have q: "queue_wf (tx_db ?t)" using wf by (simp add: db_wf_def)
  have t1: "sessions (tx_db t1) = sessions d" "clock (tx_db t1) = clock d" using pop_turn_sel [OF pop] by simp_all
  have dist: "distinct (map s_id (sessions (tx_db t1)))" using wf by (simp add: db_wf_def t1)
  have "issued env w session d (Assign c) (tx_db t')"
    by (rule updated_row [OF n _ _ dist, of "s_id session" "?f p"])
      (use pop_turn_inbox [OF q pop] in \<open>auto simp: issued_def recorded_def same_worker_def inbox live c
        session_row_same [OF t1(1)] session_row_same [OF same] t1 split: list.splits option.splits\<close>)
  with r c show ?thesis by blast
qed

text \<open>Each way to issue a command, with the database it starts from.\<close>

lemma run_tx_begin:
  assumes "run_tx h eid body d = (r, d')" and "\<And>e. h e \<noteq> r" and "\<And>t. body t \<noteq> Inl r"
  obtains t' where "body \<lparr>tx_db = d, tx_execution_id = eid, tx_verified = []\<rparr> = Inr (r, t')" "d' = tx_db t'"
  using assms by (auto simp: run_tx_def begin_execution_tx_def split: option.splits sum.splits prod.splits)

lemma database_error_not [simp]: "database_error a e \<noteq> Inr x"
  by (simp add: database_error_def)

definition sends_nothing :: "(rec_result, 'a) tx \<Rightarrow> bool" where
  "sends_nothing m \<longleftrightarrow> (\<forall>t tok a. m t \<noteq> Inl (Inr (SendCommand tok a)))"

lemma sends_nothing_rules:
  "sends_nothing (tx_ret x)"
  "sends_nothing m \<Longrightarrow> (\<And>x. sends_nothing (f x)) \<Longrightarrow> sends_nothing (tx_bind m f)"
  "(\<And>tok a. r \<noteq> Inr (SendCommand tok a)) \<Longrightarrow> sends_nothing (tx_fail_if b r)"
  "(\<And>tok a. r \<noteq> Inr (SendCommand tok a)) \<Longrightarrow> sends_nothing (tx_abort r)"
  "(\<And>e tok a. h e \<noteq> Inr (SendCommand tok a)) \<Longrightarrow> sends_nothing (tx_try h g)"
  "sends_nothing (tx_read rd)"
  "sends_nothing (tx_update_sessions P u)"
  "sends_nothing (tx_pop_turn sid)"
  "sends_nothing (tx_map_err Inl wr)"
  "sends_nothing tx_touch_last_activity"
  "sends_nothing m1 \<Longrightarrow> sends_nothing m2 \<Longrightarrow> sends_nothing (if b then m1 else m2)"
  "sends_nothing m1 \<Longrightarrow> (\<And>x. sends_nothing (g' x)) \<Longrightarrow> sends_nothing (case p of None \<Rightarrow> m1 | Some x \<Rightarrow> g' x)"
  by (auto simp: sends_nothing_def tx_ret_def tx_bind_def tx_fail_if_def tx_abort_def tx_try_def tx_read_def
      tx_map_err_def map_err_Inl_iff tx_update_sessions_def tx_pop_turn_def tx_touch_last_activity_def tx_scope_def tx_update_executions_def
      split: sum.splits prod.splits option.splits)

lemma sends_nothing_bodies:
  "sends_nothing (assign_body env session resume w)" "sends_nothing (feed_body env session)"
  "sends_nothing (stop_turn_body env session)" "sends_nothing (cancel_body env session)"
  unfolding assign_body_def feed_body_def stop_turn_body_def cancel_body_def
  by (intro sends_nothing_rules; simp)+

lemma issue_committed:
  assumes "run_tx (database_error msg) eid body d = (Inr (SendCommand tok a), d')" and "sends_nothing body"
  obtains t' where "body \<lparr>tx_db = d, tx_execution_id = eid, tx_verified = []\<rparr> = Inr (Inr (SendCommand tok a), t')"
    "d' = tx_db t'"
  using run_tx_begin [OF assms(1)] assms(2) by (auto simp: sends_nothing_def)

lemma issue_issued:
  assumes wf: "db_wf d"
  shows "issue_assign env session resume w d = (Inr (SendCommand tok a), d') \<Longrightarrow>
      tok = re_token env \<and> issued env w session d a d'"
    and "issue_feed_turn env session d = (Inr (SendCommand tok a), d') \<Longrightarrow> tok = re_token env \<and> issued env w session d a d'"
    and "issue_stop_turn env session d = (Inr (SendCommand tok a), d') \<Longrightarrow> tok = re_token env \<and> issued env w session d a d'"
    and "issue_cancel env session d = (Inr (SendCommand tok a), d') \<Longrightarrow> tok = re_token env \<and> issued env w session d a d'"
  unfolding issue_assign_def issue_feed_turn_def issue_stop_turn_def issue_cancel_def
  by (auto elim!: issue_committed [OF _ sends_nothing_bodies(1)] issue_committed [OF _ sends_nothing_bodies(2)]
      issue_committed [OF _ sends_nothing_bodies(3)] issue_committed [OF _ sends_nothing_bodies(4)]
      dest: assign_issued [OF wf] feed_issued [OF wf] stop_turn_issued [OF wf] cancel_issued [OF wf])

definition never_sends :: "(rec_result, rec_result) tx \<Rightarrow> bool" where
  "never_sends m \<longleftrightarrow> sends_nothing m \<and> (\<forall>t t' tok a. m t \<noteq> Inr (Inr (SendCommand tok a), t'))"

lemma never_sends_rules:
  "(\<And>tok a. r \<noteq> Inr (SendCommand tok a)) \<Longrightarrow> never_sends (tx_ret r)"
  "sends_nothing m \<Longrightarrow> (\<And>x. never_sends (f x)) \<Longrightarrow> never_sends (tx_bind m f)"
  "never_sends m1 \<Longrightarrow> never_sends m2 \<Longrightarrow> never_sends (if b then m1 else m2)"
  by (auto simp: never_sends_def sends_nothing_rules tx_iffs)

lemma never_sends_bodies:
  "never_sends (repair_root_body session x)" "never_sends (repair_child_body session)"
  "never_sends (repair_desired_body session)" "never_sends (repair_execution_body session)"
  "never_sends (clear_stale_body session)"
  unfolding repair_root_body_def repair_child_body_def repair_desired_body_def repair_execution_body_def clear_stale_body_def
  by (intro never_sends_rules sends_nothing_rules; simp)+

lemma never_sends_run:
  assumes "never_sends body" and "run_tx h eid body d = (r, d')" and "\<And>e. h e \<noteq> Inr (SendCommand tok a)"
  shows "r \<noteq> Inr (SendCommand tok a)"
  using assms by (auto simp: run_tx_def never_sends_def sends_nothing_def split: sum.splits)

lemma pending_command_issued:
  assumes "db_wf d" and "pending_command env session cok d = (Inr (SendCommand tok a), d')"
  shows "tok = re_token env \<and> issued env w session d a d'"
  using assms(2) issue_issued(3,4) [OF assms(1)]
  by (auto simp: pending_command_def expire_command_def Let_def split: if_splits option.splits command_type.splits
      dest: never_sends_run [OF never_sends_bodies(5)])

lemma mutated_not_send [simp]: "mutated p \<noteq> (Inr (SendCommand tok a), d)"
  by (auto simp: mutated_def split: prod.splits sum.splits)

lemma reconcile_crashed_not_send [simp]: "reconcile_crashed n env session k d \<noteq> Some (Inr (SendCommand tok a), d')"
  by (auto simp: reconcile_crashed_def split: sum.splits bool.splits prod.splits rejected.splits)

lemma dispatch_issued:
  assumes "db_wf d" and "dispatch fuel env session k x cok w d = Some (Inr (SendCommand tok a), d')"
  shows "tok = re_token env \<and> issued env w session d a d'"
  using assms(2) issue_issued(1) [OF assms(1), of env session _ w tok a d'] issue_issued(2-4) [OF assms(1), of env session tok a d']
  by (auto simp: dispatch_def Let_def split: desired.splits ex_state.splits if_splits)

lemma reconcile_issued:
  assumes "db_wf db" and run: "reconcile fuel env session k x cok w db = Some (Inr (SendCommand tok a), db')"
  shows "tok = re_token env \<and>
    issued env w session (if s_desired session = DTerminate then cascade_once (re_env env) session db else db) a db'"
proof -
  let ?d = "if s_desired session = DTerminate then cascade_once (re_env env) session db else db"
  have wf: "db_wf ?d"
    using cascade_once_step [of db "re_env env" session] assms(1) by (auto simp: good_step_def db_step_def)
  have "run_tx Inl e body db \<noteq> (Inr (SendCommand tok a), db')" if "never_sends body" for e body
    using never_sends_run [OF that, of Inl e db _ db' tok a] by auto
  with run show ?thesis
    using pending_command_issued [OF wf] dispatch_issued [OF wf] never_sends_bodies
    by (auto simp: reconcile_def Let_def split: if_splits)
qed

text \<open>
  C4. A command goes out only when the database says so. Whenever a look at a session hands out a
  command, however stale the row it was given: the command is for that session and carries
  the token that the same transaction recorded, with its type and time; the session, as the
  transaction found it, was to run and unassigned for an assignment, was to run on the worker
  that reported and not crashed for a turn, was to stop for a stop and to terminate for a
  cancellation; a turn is only handed out when no command was outstanding and the execution was
  live, and it is the oldest message of the session's inbox, taken out in the same transaction,
  so that no message is lost, repeated or handed to another session.
\<close>

theorem command_issued:
  assumes "db_wf db" and "reconcile fuel env session k x cok w db = Some (Inr (SendCommand tok a), db')"
  shows "tok = re_token env \<and>
    issued env w session (if s_desired session = DTerminate then cascade_once (re_env env) session db else db) a db'"
  using assms by (rule reconcile_issued)
definition demo_rec_env :: rec_env where
  "demo_rec_env = \<lparr>re_env = demo_env, re_token = ''tok'', re_now = 7,
     re_agent_config = (\<lambda>_ _ _ _. Inr JNull), re_mcp_servers = (\<lambda>_ _. Inr None)\<rparr>"

text \<open>A message waits for the running child.\<close>

definition demo_fed :: db where
  "demo_fed = enqueue ''e'' ''k'' (to_string (JStr ''hi'')) None demo_db"

lemma demo_fed_wf: "db_wf demo_fed"
  by (simp add: db_wf_def demo_fed_def enqueue_def demo_defs session_wf_def execution_wf_def log_wf_def queue_wf_def
      parents_first_def lineage_def less_Suc_eq session_row_def execution_row_def sql_find_def)

theorem command_issued_witness:
  "\<exists>d'. reconcile 2 demo_rec_env (demo_session ''k'' (Some ''r'') Running) 1 demo_execution True None demo_fed =
       Some (Inr (SendCommand ''tok'' (FeedTurn ''k'' (JStr ''hi''))), d') \<and>
     issued demo_rec_env None (demo_session ''k'' (Some ''r'') Running) demo_fed (FeedTurn ''k'' (JStr ''hi'')) d'"
proof -
  let ?r = "reconcile 2 demo_rec_env (demo_session ''k'' (Some ''r'') Running) 1 demo_execution True None demo_fed"
  have "map_option fst ?r = Some (Inr (SendCommand ''tok'' (FeedTurn ''k'' (JStr ''hi''))))" by code_simp
  then obtain d' where "?r = Some (Inr (SendCommand ''tok'' (FeedTurn ''k'' (JStr ''hi''))), d')" by auto
  from command_issued [OF demo_fed_wf this] this show ?thesis by (auto simp: demo_session_def)
qed

end
