(* ===== verification/Cascade.thy ===== *)
theory Cascade
  imports Reconciler_Props
begin

text \<open>
  How termination walks down the session tree (\<open>cascade_children\<close> of
  \<open>scheduler/src/services/reconciler.rs\<close>), and that a look always returns: the walk needs no more
  fuel than there are sessions, because a session is inserted after its parent.
\<close>

section \<open>The session tree\<close>

text \<open>The tree of sessions as the list of identifiers with their parents, in insertion order.\<close>

definition tree :: "db \<Rightarrow> (string \<times> string option) list" where
  "tree d = map lineage (sessions d)"

definition same_tree :: "db \<Rightarrow> db \<Rightarrow> bool" where
  "same_tree d d' \<longleftrightarrow> tree d' = tree d"

interpretation tree: session_relation same_tree
  by unfold_locales (auto simp: same_tree_def tree_def)

lemma same_tree_refl: "same_tree d d"
  by (simp add: same_tree_def)

lemma same_tree_update:
  assumes "\<And>now s. P s \<Longrightarrow> lineage (f now s) = lineage s"
  shows "same_tree d (update_sessions P f d)"
  using assms by (auto simp: same_tree_def tree_def sql_update_def)

text \<open>The sessions below one: its children, and those below them.\<close>

inductive below :: "(string \<times> string option) list \<Rightarrow> string \<Rightarrow> string \<Rightarrow> bool" for l where
  child: "(i, Some p) \<in> set l \<Longrightarrow> below l p i"
| deeper: "(c, Some p) \<in> set l \<Longrightarrow> below l c i \<Longrightarrow> below l p i"

inductive_simps below_iff: "below l p i"

definition terminated :: "string \<Rightarrow> db \<Rightarrow> bool" where
  "terminated i d \<longleftrightarrow> (\<exists>s. session_row i d = Some s \<and> s_desired s = DTerminate \<and> s_outcome s \<noteq> None)"

lemma terminated_evolves: "terminated i d \<Longrightarrow> evolves d d' \<Longrightarrow> terminated i d'"
  by (auto simp: terminated_def session_step_def dest!: evolves_session)

text \<open>How far down the list a session stands; a child stands after its parent.\<close>

definition position :: "(string \<times> string option) list \<Rightarrow> string \<Rightarrow> nat" where
  "position l i = length (takeWhile (\<lambda>x. fst x \<noteq> i) l)"

lemma position_at:
  assumes "distinct (map fst l)" and "j < length l"
  shows "position l (fst (l ! j)) = j"
proof -
  have "fst (l ! k) \<noteq> fst (l ! j)" if "k < j" for k
    using assms that by (auto simp: distinct_conv_nth)
  then show ?thesis
    unfolding position_def using assms(2) by (subst takeWhile_eq_take_P_nth [of j]) auto
qed

lemma position_child:
  assumes "distinct (map fst l)" and "parents_first l" and "(c, Some p) \<in> set l"
  shows "position l p < position l c" and "position l c < length l"
proof -
  from assms(3) obtain i where i: "i < length l" "l ! i = (c, Some p)" by (auto simp: in_set_conv_nth)
  with assms(2) have "p \<in> fst ` set (take i l)" by (auto simp: parents_first_def)
  then obtain j where j: "j < i" "fst (l ! j) = p"
    using i by (auto simp: in_set_conv_nth)
  have "position l c = i" using position_at [OF assms(1) i(1)] i by simp
  moreover have "position l p = j" using position_at [OF assms(1), of j] i j by simp
  ultimately show "position l p < position l c" "position l c < length l" using i j by auto
qed

lemma db_wf_tree: "db_wf d \<Longrightarrow> distinct (map fst (tree d)) \<and> parents_first (tree d)"
  by (simp add: db_wf_def tree_def lineage_def comp_def)

lemma in_tree: "db_wf d \<Longrightarrow> (i, p) \<in> set (tree d) \<longleftrightarrow> (\<exists>s. session_row i d = Some s \<and> s_parent_session_id s = p)"
  by (auto simp: tree_def lineage_def db_wf_def session_row_def sql_find_key_iff)

section \<open>Terminating a child\<close>

lemma terminate_row_lineage [simp]: "lineage (terminate_row oc who now s) = lineage s"
  by (simp add: lineage_def terminate_row_def)

lemma terminate_body_alone:
  "tx_keeps (\<lambda>t t'. same_tree (tx_db t) (tx_db t')) (terminate_body session None who)"
  "tx_keeps (\<lambda>t t'. only_sessions {s_id session} (tx_db t) (tx_db t')) (terminate_body session None who)"
  unfolding terminate_body_def notify_option_def write_execution_terminal_in_tx_def
  by (intro tree.rules tree.keeps_update_sessions same_tree_update only_rules;
      simp add: terminate_row_def lineage_def)+

lemma child_terminates:
  assumes wf: "db_wf d" and row: "session_row i d = Some c" and live: "s_desired c \<noteq> DTerminate"
    and par: "s_parent_session_id c \<noteq> None"
  shows "\<exists>d'. transition env d (s_execution_id c) i (SetDesired DTerminate ''system:cascade'') d = (Inr None, d') \<and>
    terminated i d' \<and> same_tree d d' \<and> only_sessions {i} d d'"
proof -
  let ?t = "\<lparr>tx_db = d, tx_execution_id = s_execution_id c, tx_verified = []\<rparr>"
  have id: "s_id c = i" and c: "c \<in> set (sessions d)" using session_rowD [OF row] by auto
  obtain x where x: "execution_row (s_execution_id c) d = Some x" using wf c by (auto simp: db_wf_def)
  have n: "sql_count (\<lambda>s. s_id s = i \<and> s_desired s \<noteq> DTerminate) (sessions d) \<noteq> 0"
    unfolding sql_count_zero_iff using c id live by auto
  obtain t' where body: "terminate_body c None ''system:cascade'' ?t = Inr (Inr (), t')"
    using row live par n
    by (simp add: terminate_body_def tx_iffs id get_session_def notify_option_def insert_in_tx_def
        verify_session_owner_iff insert_row_iff session_row_update_id terminate_row_def split del: if_split) blast?
  have "transition env d (s_execution_id c) i (SetDesired DTerminate ''system:cascade'') d = (Inr None, tx_db t')"
    using row live x body
    by (simp add: transition_def get_session_def set_desired_def parent_for_notify_def no_event_def run_tx_def
        begin_execution_tx_def)
  moreover have "terminated i (tx_db t')"
    using terminate_body_row [OF body, of c] row by (auto simp: terminated_def id)
  moreover have "same_tree d (tx_db t')" "only_sessions {i} d (tx_db t')"
    using tx_keepsD [OF terminate_body_alone(1) body] tx_keepsD [OF terminate_body_alone(2) body] by (simp_all add: id)
  ultimately show ?thesis by blast
qed

lemma terminate_child_effect:
  assumes wf: "db_wf d" and c: "session_row (s_id c) pre = Some c" and ev: "evolves pre d" and pre: "db_wf pre"
    and par: "s_parent_session_id c \<noteq> None" and eid: "s_execution_id session = s_execution_id c"
  shows "\<exists>d'. terminate_child env session c d = (Inr (), d') \<and>
    terminated (s_id c) d' \<and> same_tree d d' \<and> only_sessions {s_id c} d d'"
proof -
  obtain c' where c': "session_row (s_id c) d = Some c'" "session_step c c'"
    using evolves_session [OF ev c] by blast
  have wfc: "session_wf c" "session_wf c'" using db_wf_session [OF pre c] db_wf_session [OF wf c'(1)] .
  show ?thesis
  proof (cases "s_desired c' = DTerminate")
    case False
    with wfc c' have "s_outcome c = None" "s_desired c \<noteq> DTerminate" by (auto simp: session_wf_def session_step_def)
    with child_terminates [OF wf c'(1) False, of env] c' par eid show ?thesis
      by (auto simp: terminate_child_def session_step_def)
  next
    case True
    with wfc c' have "terminated (s_id c) d" by (auto simp: terminated_def session_wf_def)
    moreover have "transition env d (s_execution_id c) (s_id c) (SetDesired DTerminate ''system:cascade'') d = (Inl Ratchet, d)"
      using True c' by (simp add: transition_def get_session_def set_desired_def no_event_def session_step_def)
    ultimately show ?thesis
      using True c' eid tree.R_refl only.R_refl by (auto simp: terminate_child_def get_session_def same_tree_def only_sessions_def)
  qed
qed

section \<open>The whole subtree\<close>

definition subtree :: "db \<Rightarrow> string \<Rightarrow> string set" where
  "subtree d i = {j. below (tree d) i j}"

lemma subtree_child: "(c, Some p) \<in> set (tree d) \<Longrightarrow> insert c (subtree d c) \<subseteq> subtree d p"
  by (auto simp: subtree_def intro: below.intros)

lemma subtree_children: "subtree d p = (\<Union>c \<in> {c. (c, Some p) \<in> set (tree d)}. insert c (subtree d c))"
  by (auto simp: subtree_def below_iff [of _ p])

lemma only_sessions_trans: "only_sessions A d d' \<Longrightarrow> only_sessions B d' d'' \<Longrightarrow> A \<subseteq> C \<Longrightarrow> B \<subseteq> C \<Longrightarrow> only_sessions C d d''"
  unfolding only_sessions_def by (metis subsetD)

text \<open>What a cascade from \<open>i\<close> promises: it returns, the sessions in \<open>A\<close> are terminated and no other row changed.\<close>

definition cascaded :: "string set \<Rightarrow> db \<Rightarrow> ((scheduler_error + unit) \<times> db) option \<Rightarrow> bool" where
  "cascaded A d res \<longleftrightarrow> (\<exists>d'. res = Some (Inr (), d') \<and> (\<forall>j \<in> A. terminated j d') \<and> same_tree d d' \<and>
     only_sessions A d d' \<and> db_step d d')"

lemma cascade_list_reaches:
  assumes pre: "db_wf pre"
    and rec: "\<And>f d. db_wf d \<Longrightarrow> same_tree pre d \<Longrightarrow> (s_id f, Some p) \<in> set (tree pre) \<Longrightarrow>
      session_row (s_id f) d = Some f \<Longrightarrow> cascaded (subtree pre (s_id f)) d (rec f d)"
    and cs: "\<And>c. c \<in> set cs \<Longrightarrow> session_row (s_id c) pre = Some c \<and> s_parent_session_id c = Some p \<and>
      s_execution_id c = s_execution_id session"
    and d: "db_step pre d" "same_tree pre d"
  shows "cascaded (\<Union>c \<in> set cs. insert (s_id c) (subtree pre (s_id c))) d (cascade_list rec env session cs d)"
  using cs d
proof (induction cs arbitrary: d)
  case Nil
  then show ?case by (auto simp: cascaded_def same_tree_def only_sessions_def)
next
  case (Cons c cs)
  let ?A = "\<Union>c \<in> set cs. insert (s_id c) (subtree pre (s_id c))"
  have wf: "db_wf d" using Cons.prems(2) pre by (simp add: db_step_def)
  have c: "session_row (s_id c) pre = Some c" "s_parent_session_id c = Some p" "s_execution_id session = s_execution_id c"
    using Cons.prems(1) [of c] by auto
  then have in_pre: "(s_id c, Some p) \<in> set (tree pre)" using in_tree [OF pre] by blast
  from terminate_child_effect [OF wf c(1) _ pre, of session env] c Cons.prems(2)
  obtain d1 where d1: "terminate_child env session c d = (Inr (), d1)" "terminated (s_id c) d1" "same_tree d d1"
      "only_sessions {s_id c} d d1"
    by (auto simp: db_step_def)
  have s1: "db_step d d1" using step_terminate_child [of d env session c] d1(1) by (simp add: takes_step_def good_step_def)
  obtain f where f: "session_row (s_id c) d1 = Some f" "s_id f = s_id c" using d1(2) by (auto simp: terminated_def dest: session_rowD)
  have wf1: "db_wf d1" using s1 wf by (simp add: db_step_def)
  have t1: "same_tree pre d1" using Cons.prems(3) d1(3) by (simp add: same_tree_def)
  from rec [OF wf1 t1, of f] f in_pre obtain d2 where d2: "rec f d1 = Some (Inr (), d2)" "same_tree d1 d2" "db_step d1 d2"
      "\<forall>j \<in> subtree pre (s_id c). terminated j d2" "only_sessions (subtree pre (s_id c)) d1 d2"
    by (auto simp: cascaded_def)
  have "db_step pre d2" "same_tree pre d2"
    using Cons.prems(2) s1 d2(2,3) t1 by (auto intro: db_step_trans simp: same_tree_def)
  from Cons.IH [OF _ this] Cons.prems(1) obtain d3 where d3: "cascade_list rec env session cs d2 = Some (Inr (), d3)"
      "\<forall>j \<in> ?A. terminated j d3" "same_tree d2 d3" "only_sessions ?A d2 d3" "db_step d2 d3"
    unfolding cascaded_def by auto
  have "terminated j d3" if "j = s_id c \<or> j \<in> subtree pre (s_id c)" for j
    using that d1(2) d2(3,4) d3(5) by (auto simp: db_step_def intro: terminated_evolves)
  moreover have "only_sessions (\<Union>c \<in> set (c # cs). insert (s_id c) (subtree pre (s_id c))) d d3"
    by (rule only_sessions_trans [OF only_sessions_trans [OF d1(4) d2(5), of "insert (s_id c) (subtree pre (s_id c))"] d3(4)]) auto
  moreover have "same_tree d d3" "db_step d d3"
    using d1(3) d2(2,3) d3(3,5) s1 by (auto intro: db_step_trans simp: same_tree_def)
  ultimately show ?case
    using d1(1) f(1) d2(1) d3(1,2) by (auto simp: cascaded_def get_session_def)
qed

lemma cascade_children_reaches:
  assumes "db_wf d" and "session_row (s_id s) d = Some s" and "length (tree d) \<le> n + position (tree d) (s_id s)"
  shows "cascaded (subtree d (s_id s)) d (cascade_children n env s d)"
  using assms
proof (induction n arbitrary: s d)
  case 0
  then have "(s_id s, s_parent_session_id s) \<in> set (tree d)" by (auto simp: in_tree)
  then obtain j where "j < length (tree d)" "fst (tree d ! j) = s_id s" by (auto simp: in_set_conv_nth)
  with 0 position_at [of "tree d" j] db_wf_tree show ?case by auto
next
  case (Suc n)
  let ?cs = "get_children (s_id s) d"
  have cs: "session_row (s_id c) d = Some c \<and> s_parent_session_id c = Some (s_id s) \<and>
      s_execution_id c = s_execution_id s" if "c \<in> set ?cs" for c
  proof -
    from that have c: "c \<in> set (sessions d)" "s_parent_session_id c = Some (s_id s)"
      by (auto simp: get_children_def by_created_def)
    then have "map_option s_execution_id (session_row (s_id s) d) = Some (s_execution_id c)"
      using Suc.prems(1) by (auto simp: db_wf_def)
    moreover have "session_row (s_id c) d = Some c"
      using c(1) Suc.prems(1) by (auto simp: db_wf_def session_row_def sql_find_key_iff)
    ultimately show ?thesis using c(2) Suc.prems(2) by simp
  qed
  have children: "s_id ` set ?cs = {c. (c, Some (s_id s)) \<in> set (tree d)}"
    by (auto simp: get_children_def by_created_def tree_def lineage_def image_iff)
  have rec: "cascaded (subtree d (s_id f)) d1 (cascade_children n env f d1)"
    if "db_wf d1" "same_tree d d1" "(s_id f, Some (s_id s)) \<in> set (tree d)" "session_row (s_id f) d1 = Some f" for f d1
    using Suc.IH [of d1 f] that Suc.prems(3) position_child [of "tree d" "s_id f" "s_id s"] db_wf_tree [OF Suc.prems(1)]
    by (simp add: same_tree_def subtree_def)
  have "cascaded (\<Union>c \<in> set ?cs. insert (s_id c) (subtree d (s_id c))) d
      (cascade_list (cascade_children n env) env s ?cs d)"
    by (rule cascade_list_reaches [OF Suc.prems(1), where p = "s_id s"])
      (rule rec cs db_step_refl same_tree_refl; assumption)+
  moreover have "(\<Union>c \<in> set ?cs. insert (s_id c) (subtree d (s_id c))) = subtree d (s_id s)"
    unfolding subtree_children [of d "s_id s"] children [symmetric] by simp
  ultimately show ?case by (simp only: cascade_children.simps)
qed

text \<open>
  C10. Termination reaches the whole subtree. With fuel for as many levels as there are sessions,
  the cascade from a session always returns, and returns without an error: afterwards every
  session below it, at any depth, is terminated with an outcome, the tree is as it was, and no
  row of a session outside that subtree has changed.
\<close>

theorem cascade_reaches_subtree:
  assumes "db_wf db" and "session_row sid db = Some s" and "length (sessions db) \<le> fuel"
  shows "\<exists>db'. cascade_from fuel env sid db = Some (Inr (), db') \<and>
    (\<forall>i. below (tree db) sid i \<longrightarrow> terminated i db') \<and> tree db' = tree db \<and>
    (\<forall>i. \<not> below (tree db) sid i \<longrightarrow> session_row i db' = session_row i db)"
proof -
  have "s_id s = sid" using session_rowD [OF assms(2)] by simp
  with cascade_children_reaches [OF assms(1), of s fuel env] assms(2,3) show ?thesis
    by (auto simp: cascaded_def cascade_from_def get_session_def tree_def same_tree_def subtree_def only_sessions_def)
qed

theorem cascade_reaches_subtree_witness:
  "\<exists>db'. cascade_from 2 demo_env ''r'' demo_db = Some (Inr (), db') \<and> terminated ''k'' db' \<and>
     session_row ''r'' db' = session_row ''r'' demo_db"
proof -
  have t: "tree demo_db = [(''r'', None), (''k'', Some ''r'')]" by code_simp
  have k: "below (tree demo_db) ''r'' ''k''" unfolding t by (rule below.child) simp
  have "\<not> below (tree demo_db) ''k'' i" for i unfolding t by (subst below_iff) simp
  then have r: "\<not> below (tree demo_db) ''r'' ''r''" by (subst below_iff) (simp add: t)
  from cascade_reaches_subtree [OF demo_db_wf demo_rows(1), of 2 demo_env] k r show ?thesis
    by (auto simp: demo_defs)
qed

section \<open>A look returns\<close>

lemma tree_write_notification:
  "tx_keeps (\<lambda>t t'. same_tree (tx_db t) (tx_db t')) (notify_option session parent ty)"
  unfolding notify_option_def write_parent_notification_in_tx_def resume_parent_def
  by (intro tree.rules tree.keeps_update_sessions same_tree_update; simp add: desired_row_def lineage_def)

lemma tree_write_execution:
  "tx_keeps (\<lambda>t t'. same_tree (tx_db t) (tx_db t')) (write_execution_terminal_in_tx eid oc)"
  unfolding write_execution_terminal_in_tx_def by (intro tree.rules)

lemma tree_bodies:
  "tx_keeps (\<lambda>t t'. same_tree (tx_db t) (tx_db t')) (terminate_body session parent who)"
  "tx_keeps (\<lambda>t t'. same_tree (tx_db t) (tx_db t')) (fail_body session who rc)"
  unfolding terminate_body_def fail_body_def state_event_def
  by (intro tree.rules tree.keeps_update_sessions same_tree_update tree_write_notification tree_write_execution;
      simp add: terminate_row_def lineage_def)+

lemma tree_run: "tx_keeps (\<lambda>t t'. same_tree (tx_db t) (tx_db t')) body \<Longrightarrow> same_tree d (snd (run_tx h eid body d))"
  by (cases "run_tx h eid body d") (auto dest: tree.keeps_run)

lemma tree_set_desired: "same_tree d (snd (set_desired pre s DTerminate who d))"
  by (simp add: set_desired_def Let_def same_tree_refl tree_run tree_bodies)

lemma tree_ops:
  "same_tree d (snd (terminate_session pre eid sid who d))"
  "same_tree d (snd (terminate_session_failed pre eid sid who rc d))"
  "same_tree d (snd (transition env pre eid sid (SetDesired DTerminate who) d))"
  "same_tree d (snd (insert_locked eid sid' ty p d))"
proof -
  show "same_tree d (snd (terminate_session pre eid sid who d))"
    by (simp add: terminate_session_def tree_set_desired same_tree_refl split: sum.splits)
  show "same_tree d (snd (terminate_session_failed pre eid sid who rc d))"
    by (simp add: terminate_session_failed_def terminate_failed_def tree_run tree_bodies same_tree_refl split: sum.splits)
  show "same_tree d (snd (transition env pre eid sid (SetDesired DTerminate who) d))"
    using tree_set_desired [of d pre _ who]
    by (auto simp: transition_def no_event_def same_tree_refl split: sum.splits prod.splits) (metis snd_conv)+
  show "same_tree d (snd (insert_locked eid sid' ty p d))"
    unfolding insert_locked_def by (intro tree_run tree.rules)
qed

lemma tree_cascade_once: "same_tree d (cascade_once env session d)"
proof -
  have "same_tree d (foldl (\<lambda>d c. if s_outcome c = None \<and> s_desired c \<noteq> DTerminate
        then snd (transition env d (s_execution_id session) (s_id c) (SetDesired DTerminate ''system:cascade'') d)
        else d) d cs)" for cs
    by (induction cs arbitrary: d) (auto simp: same_tree_refl intro: tree.S_trans [OF tree_ops(3)])
  then show ?thesis by (simp add: cascade_once_def)
qed

definition room :: "nat \<Rightarrow> db \<Rightarrow> bool" where
  "room fuel d \<longleftrightarrow> db_wf d \<and> length (sessions d) \<le> fuel"

lemma room_step: "room fuel d \<Longrightarrow> good_step d d' \<Longrightarrow> same_tree d d' \<Longrightarrow> room fuel d'"
  unfolding room_def good_step_def db_step_def same_tree_def tree_def by (metis length_map)

lemma cascade_from_returns: "room fuel d \<Longrightarrow> cascade_from fuel env sid d \<noteq> None"
  using cascade_children_reaches [of d "the (session_row sid d)" fuel env] session_rowD [of sid d]
  by (cases "session_row sid d") (auto simp: room_def cascade_from_def get_session_def cascaded_def tree_def)

lemma terminate_and_cascade_returns: "room fuel d \<Longrightarrow> terminate_and_cascade fuel env session who d \<noteq> None"
  using room_step [OF _ terminate_session_step tree_ops(1), of fuel d "s_execution_id session" "s_id session" who]
  by (auto simp: terminate_and_cascade_def cascade_from_returns iff del: not_None_eq split: prod.splits sum.splits)

lemma reconcile_crashed_returns:
  assumes "room fuel d"
  shows "reconcile_crashed fuel env session k d \<noteq> None"
proof (cases "terminate_session_failed d (s_execution_id session) (s_id session) ''system:crash_unrecoverable'' True d")
  case (Pair r d1)
  have "room fuel d1"
    using room_step [OF assms terminate_session_failed_step tree_ops(2)] Pair by (metis snd_conv)
  then have "room fuel (snd (insert_locked eid sid ty p d1))" for eid sid ty p
    by (rule room_step [OF _ insert_locked_step tree_ops(4)])
  then show ?thesis
    by (auto simp: reconcile_crashed_def Pair cascade_from_returns simp del: not_None_eq split: sum.splits bool.splits rejected.splits)
qed

lemma dispatch_returns: "room fuel d \<Longrightarrow> dispatch fuel env session k x cok w d \<noteq> None"
  by (simp add: dispatch_def Let_def terminate_and_cascade_returns reconcile_crashed_returns del: not_None_eq
        split: desired.splits ex_state.splits)

lemma reconcile_room:
  assumes "room fuel d"
  shows "reconcile fuel env session k x cok w d \<noteq> None"
proof -
  let ?d = "if s_desired session = DTerminate then cascade_once (re_env env) session d else d"
  have "room fuel ?d" using assms room_step [OF _ cascade_once_step tree_cascade_once] by simp
  then have "dispatch fuel env session k x cok w ?d \<noteq> None" by (rule dispatch_returns)
  then show ?thesis by (auto simp: reconcile_def Let_def)
qed

text \<open>
  C21. A look always returns. Whatever the row it was given, the number of waiting turns and
  the flags, a look at a well-formed database returns a result as soon as the cascade has fuel
  for as many levels as there are sessions; so do its parts that walk down the tree.
\<close>

theorem reconcile_returns:
  assumes "db_wf db" and "length (sessions db) \<le> fuel"
  shows "\<exists>r db'. reconcile fuel env session k x cok w db = Some (r, db')"
  using reconcile_room [of fuel db env session k x cok w] assms by (auto simp: room_def)

theorem reconcile_returns_witness:
  "\<exists>r d'. reconcile 2 demo_rec_env (demo_session ''k'' (Some ''r'') Crashed) 0 demo_execution False None demo_db = Some (r, d')"
  by (rule reconcile_returns [OF demo_db_wf]) (simp add: demo_defs)

end
