(* ===== verification/Restart_Park.thy ===== *)
theory Restart_Park
  imports Cascade Text "HOL-Library.List_Lexorder" "HOL-Library.Char_ord"
begin

text \<open>
  \<open>scheduler/src/services/restart_park.rs\<close>: at boot, before anything else runs, every live session
  is stopped, so that work starts again only when the user resumes it.

  The branches that report a failed read of the database are not modelled: a read of the model
  does not fail.
\<close>

section \<open>Candidates\<close>

record candidate =
  ca_id :: string
  ca_execution_id :: string
  ca_parent_session_id :: "string option"
  ca_command_has_payload :: bool

definition live_execution :: "string \<Rightarrow> db \<Rightarrow> bool" where
  "live_execution eid db \<longleftrightarrow>
     (case execution_row eid db of None \<Rightarrow> False | Some x \<Rightarrow> x_desired x = DRun \<and> x_outcome x = None)"

definition pausable :: "db \<Rightarrow> session \<Rightarrow> bool" where
  "pausable db s \<longleftrightarrow> s_desired s = DRun \<and> s_outcome s = None \<and> live_execution (s_execution_id s) db"

definition find_restart_pause_candidates :: "db \<Rightarrow> candidate list" where
  "find_restart_pause_candidates db =
     map (\<lambda>s. \<lparr>ca_id = s_id s, ca_execution_id = s_execution_id s, ca_parent_session_id = s_parent_session_id s,
               ca_command_has_payload = s_command_has_payload s\<rparr>)
       (sort_key s_created_at (filter (pausable db) (sessions db)))"

record ancestry_node =
  an_id :: string
  an_execution_id :: string
  an_parent_session_id :: "string option"
  an_desired :: desired
  an_outcome :: "outcome option"

definition node_of :: "session \<Rightarrow> ancestry_node" where
  "node_of s = \<lparr>an_id = s_id s, an_execution_id = s_execution_id s, an_parent_session_id = s_parent_session_id s,
     an_desired = s_desired s, an_outcome = s_outcome s\<rparr>"

definition load_session_ancestry :: "string list \<Rightarrow> db \<Rightarrow> ancestry_node list" where
  "load_session_ancestry eids db = map node_of (filter (\<lambda>s. s_execution_id s \<in> set eids) (sessions db))"

section \<open>Ancestors\<close>

datatype ancestor_check = Clean | Terminating | Corrupt

function classify_loop ::
  "(string \<times> ancestry_node) list \<Rightarrow> string \<Rightarrow> string list \<Rightarrow> string \<Rightarrow> nat \<Rightarrow> ancestor_check" where
  "classify_loop nodes start visited current steps =
     (if length nodes < steps then Corrupt
      else case map_of nodes current of
        None \<Rightarrow> Corrupt
      | Some n \<Rightarrow>
          if an_id n \<in> set visited then Corrupt
          else if current \<noteq> start \<and> (an_desired n = DTerminate \<or> an_outcome n \<noteq> None) then Terminating
          else case an_parent_session_id n of
            None \<Rightarrow> Clean
          | Some pid \<Rightarrow>
              (case map_of nodes pid of
                 None \<Rightarrow> Corrupt
               | Some p \<Rightarrow>
                   if an_execution_id p \<noteq> an_execution_id n then Corrupt
                   else classify_loop nodes start (an_id n # visited) pid (Suc steps)))"
  by pat_completeness auto
termination
  by (relation "measure (\<lambda>(nodes, _, _, _, steps). Suc (length nodes) - steps)") auto

declare classify_loop.simps [simp del]

definition classify_ancestry :: "string \<Rightarrow> (string \<times> ancestry_node) list \<Rightarrow> ancestor_check" where
  "classify_ancestry start nodes = classify_loop nodes start [] start 0"

section \<open>Parking\<close>

definition pause_enabled :: "db \<Rightarrow> bool" where
  "pause_enabled db =
     (case map_of (config db) ''restart.pause_sessions'' of
        None \<Rightarrow> True
      | Some v \<Rightarrow> if v = ''false'' then False else True)"

record pause_summary =
  ps_paused :: nat
  ps_failures :: "string list"

definition text_event :: "string \<Rightarrow> jtext" where
  "text_event m = to_string (JObj [(''message'', JStr m)])"

definition note_left_running :: "candidate \<Rightarrow> pause_summary \<Rightarrow> db \<Rightarrow> pause_summary \<times> db" where
  "note_left_running cand sm db =
     (sm\<lparr>ps_failures := ps_failures sm @ [ca_id cand]\<rparr>,
      snd (insert_locked (ca_execution_id cand) (Some (ca_id cand)) EvPlatform
        (text_event ''Session left running after server restart.'') db))"

definition note_discarded :: "candidate \<Rightarrow> db \<Rightarrow> (scheduler_error + int \<times> timestamp) \<times> db" where
  "note_discarded cand db =
     (let pending = count_pending_turns (ca_id cand) db in
      if 0 < pending
      then insert_locked (ca_execution_id cand) (Some (ca_id cand)) EvPlatform
        (text_event (show_dec pending @ '' queued message(s) discarded on server restart.'')) db
      else (Inr (0, 0), db))"

definition note_lost :: "candidate \<Rightarrow> db \<Rightarrow> db" where
  "note_lost cand db =
     (if ca_command_has_payload cand
      then snd (insert_locked (ca_execution_id cand) (Some (ca_id cand)) EvPlatform
        (text_event ''Agent recovered from a crash. A message may have been lost.'') db)
      else db)"

definition park_one ::
  "env \<Rightarrow> (string \<times> ancestry_node) list \<Rightarrow> candidate \<Rightarrow> pause_summary \<times> db \<Rightarrow> pause_summary \<times> db" where
  "park_one env nodes cand acc =
     (case acc of (sm, db) \<Rightarrow>
       (case classify_ancestry (ca_id cand) nodes of
          Terminating \<Rightarrow> (sm, db)
        | Corrupt \<Rightarrow> note_left_running cand sm db
        | Clean \<Rightarrow>
            (case note_discarded cand db of
               (Inl _, db1) \<Rightarrow> note_left_running cand sm db1
             | (Inr _, db1) \<Rightarrow>
                 (case transition env (note_lost cand db1) (ca_execution_id cand) (ca_id cand)
                      (SetDesired DStop ''system:restart'') (note_lost cand db1) of
                    (Inr _, db2) \<Rightarrow> (sm\<lparr>ps_paused := ps_paused sm + 1\<rparr>, db2)
                  | (Inl _, db2) \<Rightarrow> note_left_running cand sm db2))))"

definition park_live_sessions_on_boot :: "env \<Rightarrow> db \<Rightarrow> pause_summary \<times> db" where
  "park_live_sessions_on_boot env db =
     (if \<not> pause_enabled db then (\<lparr>ps_paused = 0, ps_failures = []\<rparr>, db)
      else
        let candidates = find_restart_pause_candidates db;
            nodes = map (\<lambda>n. (an_id n, n)) (load_session_ancestry (remdups_adj (sort (map ca_execution_id candidates))) db)
        in if candidates = [] then (\<lparr>ps_paused = 0, ps_failures = []\<rparr>, db)
           else fold (park_one env nodes) candidates (\<lparr>ps_paused = 0, ps_failures = []\<rparr>, db))"

section \<open>Ancestors of a well-formed database\<close>

lemma below_up: "below l a p \<Longrightarrow> (i, Some p) \<in> set l \<Longrightarrow> below l a i"
  by (induction rule: below.induct) (auto intro: below.intros)

lemma below_last: "below l a i \<Longrightarrow> \<exists>q. (i, Some q) \<in> set l \<and> (a = q \<or> below l a q)"
  by (induction rule: below.induct) (auto intro: below.intros)

lemma below_parent:
  assumes "distinct (map fst l)" and "(i, Some p) \<in> set l"
  shows "below l a i \<longleftrightarrow> a = p \<or> below l a p"
  using assms below_last [of l a i] below_up [of l a p i] eq_key_imp_eq_value [OF assms(1), of i "Some p"]
  by (auto intro: below.child)

definition ended :: "db \<Rightarrow> string \<Rightarrow> bool" where
  "ended d i \<longleftrightarrow> (\<exists>s. session_row i d = Some s \<and> (s_desired s = DTerminate \<or> s_outcome s \<noteq> None))"

definition ancestor_ended :: "db \<Rightarrow> string \<Rightarrow> bool" where
  "ancestor_ended d i \<longleftrightarrow> (\<exists>a. below (tree d) a i \<and> ended d a)"

definition has_nodes :: "(string \<times> ancestry_node) list \<Rightarrow> string \<Rightarrow> db \<Rightarrow> bool" where
  "has_nodes nodes eid d \<longleftrightarrow> distinct (map fst nodes) \<and>
     (\<forall>i s. session_row i d = Some s \<longrightarrow> s_execution_id s = eid \<longrightarrow> map_of nodes i = Some (node_of s))"

lemma tree_parent:
  assumes "db_wf d" and "session_row i d = Some s" and "s_parent_session_id s = Some p"
  shows "(i, Some p) \<in> set (tree d)"
  using assms session_rowD [OF assms(2)] by (force simp: tree_def lineage_def)

lemma classify_loop_wf:
  assumes wf: "db_wf d" and nodes: "has_nodes nodes eid d"
    and "session_row i d = Some s" and "s_execution_id s = eid"
    and "distinct visited" and "set visited \<subseteq> fst ` set nodes" and "length visited = steps"
    and "\<And>v. v \<in> set visited \<Longrightarrow> position (tree d) i < position (tree d) v"
    and "start \<in> set visited \<or> i = start"
  shows "classify_loop nodes start visited i steps =
    (if i \<noteq> start \<and> ended d i \<or> ancestor_ended d i then Terminating else Clean)"
  using assms(3-)
proof (induction "position (tree d) i" arbitrary: i s visited steps rule: less_induct)
  case less
  have node: "map_of nodes i = Some (node_of s)" using nodes less.prems by (simp add: has_nodes_def)
  have id: "s_id s = i" using session_rowD [OF less.prems(1)] by simp
  have "card (set visited) \<le> card (fst ` set nodes)" using less.prems(4) by (intro card_mono) auto
  then have steps: "\<not> length nodes < steps"
    using less.prems(3,5) card_image_le [of "set nodes" fst] card_length [of nodes] by (simp add: distinct_card)
  have new: "i \<notin> set visited" using less.prems(6) by blast
  note unfold = classify_loop.simps [of nodes start visited i steps]
  have ended_i: "ended d i \<longleftrightarrow> s_desired s = DTerminate \<or> s_outcome s \<noteq> None"
    using less.prems(1) by (simp add: ended_def)
  show ?case
  proof (cases "i \<noteq> start \<and> ended d i")
    case True
    then show ?thesis using node steps new ended_i by (simp add: unfold node_of_def id)
  next
    case False
    show ?thesis
    proof (cases "s_parent_session_id s")
      case None
      then have "(i, Some q) \<notin> set (tree d)" for q
        using db_wf_tree [OF wf] session_rowD [OF less.prems(1)] eq_key_imp_eq_value [of "tree d" i None "Some q"]
        by (force simp: tree_def lineage_def)
      then have "\<not> ancestor_ended d i" by (auto simp: ancestor_ended_def dest: below_last)
      with None False show ?thesis using node steps new ended_i by (simp add: unfold node_of_def id)
    next
      case (Some p)
      note edge = tree_parent [OF wf less.prems(1) Some]
      have "s \<in> set (sessions d)" using session_rowD [OF less.prems(1)] by simp
      then obtain q where q: "session_row p d = Some q" "s_execution_id q = eid"
        using wf Some less.prems(2) by (fastforce simp: db_wf_def)
      then have pnode: "map_of nodes p = Some (node_of q)" using nodes by (simp add: has_nodes_def)
      have lt: "position (tree d) p < position (tree d) i"
        using position_child(1) [OF _ _ edge] db_wf_tree [OF wf] by blast
      have "i \<in> fst ` set nodes" using map_of_SomeD [OF node] by force
      have lower: "position (tree d) p < position (tree d) v" if "v \<in> set visited" for v
        using less_trans [OF lt less.prems(6) [OF that]] .
      from \<open>i \<in> fst ` set nodes\<close> have "classify_loop nodes start (i # visited) p (Suc steps) =
          (if p \<noteq> start \<and> ended d p \<or> ancestor_ended d p then Terminating else Clean)"
        using less.prems q lt new
        by (intro less.hyps [OF lt q]) (auto intro: lower)
      moreover have "p \<noteq> start" using less.prems(6,7) lt by fastforce
      moreover have "ancestor_ended d i \<longleftrightarrow> ended d p \<or> ancestor_ended d p"
        using below_parent [OF _ edge] db_wf_tree [OF wf] by (auto simp: ancestor_ended_def)
      ultimately show ?thesis
        using Some False node pnode steps new ended_i q less.prems(2) by (auto simp: unfold node_of_def id)
    qed
  qed
qed

lemma classify_wf:
  assumes "db_wf d" and "has_nodes nodes (s_execution_id s) d" and "session_row i d = Some s"
  shows "classify_ancestry i nodes = (if ancestor_ended d i then Terminating else Clean)"
  unfolding classify_ancestry_def using classify_loop_wf [OF assms refl, of "[]" 0 i] by simp

lemma load_has_nodes:
  assumes "db_wf d" and "eid \<in> set eids"
  shows "has_nodes (map (\<lambda>n. (an_id n, n)) (load_session_ancestry eids d)) eid d"
proof -
  let ?ss = "filter (\<lambda>s. s_execution_id s \<in> set eids) (sessions d)"
  have ids: "distinct (map s_id ?ss)" using assms(1) by (simp add: db_wf_def distinct_map_filter)
  have l: "map (\<lambda>n. (an_id n, n)) (load_session_ancestry eids d) = map (\<lambda>s. (s_id s, node_of s)) ?ss"
    by (simp add: load_session_ancestry_def node_of_def comp_def)
  have "map_of (map (\<lambda>s. (s_id s, node_of s)) ?ss) i = Some (node_of s)"
    if "session_row i d = Some s" "s_execution_id s = eid" for i s
    using session_rowD [OF that(1)] that(2) assms(2) ids by (intro map_of_is_SomeI) (auto simp: comp_def)
  then show ?thesis unfolding has_nodes_def l using ids by (simp add: comp_def)
qed

text \<open>Parking is made of good steps.\<close>

lemma note_left_running_good: "good_step d (snd (note_left_running cand sm d))"
  by (simp add: note_left_running_def insert_locked_step)

lemma note_discarded_good: "good_step d (snd (note_discarded cand d))"
  by (simp add: note_discarded_def Let_def insert_locked_step)

lemma note_lost_good: "good_step d (note_lost cand d)"
  by (simp add: note_lost_def insert_locked_step)

lemma park_one_good: "good_step (snd acc) (snd (park_one env nodes cand acc))"
proof -
  obtain sm d where acc: "acc = (sm, d)" by fastforce
  obtain r d1 where d1: "note_discarded cand d = (r, d1)" by fastforce
  let ?d2 = "note_lost cand d1"
  obtain r' d2 where d2: "transition env ?d2 (ca_execution_id cand) (ca_id cand) (SetDesired DStop ''system:restart'') ?d2 = (r', d2)"
    by fastforce
  have "good_step d d1" using note_discarded_good [of d cand] by (simp add: d1)
  moreover have "good_step ?d2 d2"
    using transition_step [of ?d2 env "ca_execution_id cand" "ca_id cand" "SetDesired DStop ''system:restart''"] by (simp only: d2 snd_conv)
  then have "good_step d1 d2" by (rule good_step_trans [OF note_lost_good])
  ultimately have d02: "good_step d d2" by (rule good_step_trans)
  have left: "good_step d (snd (note_left_running cand sm d'))" if "good_step d d'" for d'
    using that note_left_running_good by (rule good_step_trans)
  show ?thesis
  proof (cases "classify_ancestry (ca_id cand) nodes")
    case Clean
    then show ?thesis
      using left [OF d02] left [OF \<open>good_step d d1\<close>] d02
      by (cases r; cases r') (simp_all add: acc park_one_def d1 d2)
  qed (simp_all add: acc park_one_def left)
qed

lemma park_good: "good_step d (snd (park_live_sessions_on_boot env d))"
proof -
  have "good_step (snd acc) (snd (fold (park_one env nodes) cands acc))" for nodes cands and acc :: "pause_summary \<times> db"
  proof (induction cands arbitrary: acc)
    case (Cons c cands)
    show ?case unfolding fold_simps comp_apply by (rule good_step_trans [OF park_one_good Cons])
  qed simp
  from this [of "(\<lparr>ps_paused = 0, ps_failures = []\<rparr>, d)"] show ?thesis
    by (simp add: park_live_sessions_on_boot_def Let_def)
qed

section \<open>One session\<close>

lemma insert_locked_ok:
  assumes "session_row i d = Some s" and "execution_row (s_execution_id s) d \<noteq> None"
  shows "insert_locked (s_execution_id s) (Some i) ty p d =
    (Inr (next_event_id d, clock d), add_event (s_execution_id s) (Some i) ty p None d)"
  using assms
  by (auto simp: insert_locked_def run_tx_def begin_execution_tx_def tx_bind_def tx_map_err_def insert_in_tx_def
      verify_session_owner_def insert_row_def tx_ret_def)

text \<open>The session \<open>i\<close> is stopped with an empty queue, and no other session is touched.\<close>

definition parked :: "string set \<Rightarrow> db \<Rightarrow> db \<Rightarrow> bool" where
  "parked A d d' \<longleftrightarrow> executions d' = executions d \<and>
     (\<forall>j. j \<notin> A \<longrightarrow> session_row j d' = session_row j d \<and> inbox_of j d' = inbox_of j d) \<and>
     (\<forall>j \<in> A. inbox_of j d' = [] \<and> (\<forall>s. session_row j d = Some s \<longrightarrow>
        (\<exists>s'. session_row j d' = Some s' \<and> s_desired s' = DStop \<and> s_outcome s' = s_outcome s)))"

lemma parked_in: "parked A d d' \<Longrightarrow> j \<in> A \<Longrightarrow> session_row j d = Some s \<Longrightarrow> inbox_of j d' = [] \<and>
    (\<exists>s'. session_row j d' = Some s' \<and> s_desired s' = DStop \<and> s_outcome s' = s_outcome s)"
  unfolding parked_def by blast

lemma parked_out: "parked A d d' \<Longrightarrow> j \<notin> A \<Longrightarrow> session_row j d' = session_row j d \<and> inbox_of j d' = inbox_of j d"
  unfolding parked_def by blast

lemma parked_none: "parked {} d d"
  by (simp add: parked_def)

lemma parked_events: "parked A (add_event eid sid ty p q d) d' \<longleftrightarrow> parked A d d'"
  by (simp add: parked_def)

lemma parked_more: "parked {i} d d' \<Longrightarrow> parked A d' d'' \<Longrightarrow> i \<notin> A \<Longrightarrow> parked (insert i A) d d''"
  by (auto simp: parked_def)

lemma stop_at_restart:
  assumes row: "session_row i d = Some s" and run: "s_desired s = DRun" and x: "execution_row (s_execution_id s) d \<noteq> None"
  shows "\<exists>d'. transition env d (s_execution_id s) i (SetDesired DStop ''system:restart'') d = (Inr None, d') \<and> parked {i} d d'"
proof -
  let ?t = "\<lparr>tx_db = d, tx_execution_id = s_execution_id s, tx_verified = []\<rparr>"
  have id: "s_id s = i" and s: "s \<in> set (sessions d)" using session_rowD [OF row] by auto
  have n: "sql_count (\<lambda>s. s_id s = i \<and> s_desired s = DRun) (sessions d) \<noteq> 0"
    unfolding sql_count_zero_iff using s id run by auto
  obtain t' where body: "stop_body s None ''system:restart'' ?t = Inr (Inr (), t')"
    using row run n
    by (simp add: stop_body_def tx_iffs id get_session_def notify_option_def insert_in_tx_def tx_flush_session_iff
        verify_session_owner_iff insert_row_iff session_row_update_id desired_row_def split del: if_split) blast?
  have "parked {i} d (tx_db t')"
  proof (rule stop_body_parts [OF body])
    show "session_row (s_id s) (tx_db ?t) = Some s" using row id by simp
  qed (use row in \<open>auto simp: parked_def id notify_option_def tx_iffs desired_row_def\<close>)
  moreover have "transition env d (s_execution_id s) i (SetDesired DStop ''system:restart'') d = (Inr None, tx_db t')"
    using row run x body
    by (auto simp: transition_def get_session_def set_desired_def parent_for_notify_def no_event_def run_tx_def
        begin_execution_tx_def)
  ultimately show ?thesis by blast
qed

definition candidate_of :: "session \<Rightarrow> candidate" where
  "candidate_of s = \<lparr>ca_id = s_id s, ca_execution_id = s_execution_id s, ca_parent_session_id = s_parent_session_id s,
     ca_command_has_payload = s_command_has_payload s\<rparr>"

text \<open>Events change no row and no queue.\<close>

definition only_events :: "db \<Rightarrow> db \<Rightarrow> bool" where
  "only_events d d' \<longleftrightarrow> d' = d \<or> (\<exists>eid sid ty p. d' = add_event eid sid ty p None d)"

lemma only_eventsI: "only_events d d" "only_events d (add_event eid sid ty p None d)"
  by (auto simp: only_events_def)

lemma only_events_same:
  assumes "only_events d d'"
  shows "session_row i d' = session_row i d" and "execution_row i d' = execution_row i d" and "parked A d' d'' \<longleftrightarrow> parked A d d''"
  using assms by (auto simp: only_events_def parked_events)

lemma notes_ok:
  assumes "session_row (s_id s) d = Some s" and "execution_row (s_execution_id s) d \<noteq> None"
  shows "\<exists>z d'. note_discarded (candidate_of s) d = (Inr z, d') \<and> only_events d d'"
    and "only_events d (note_lost (candidate_of s) d)"
  using insert_locked_ok [OF assms]
  by (simp_all add: note_discarded_def note_lost_def candidate_of_def only_eventsI Let_def)

lemma park_one_effect:
  assumes row: "session_row (s_id s) d = Some s" and run: "s_desired s = DRun" and x: "execution_row (s_execution_id s) d \<noteq> None"
    and clean: "classify_ancestry (s_id s) nodes = Clean"
  shows "\<exists>d'. park_one env nodes (candidate_of s) (sm, d) = (sm\<lparr>ps_paused := ps_paused sm + 1\<rparr>, d') \<and> parked {s_id s} d d'"
proof -
  obtain z d1 where d1: "note_discarded (candidate_of s) d = (Inr z, d1)" "only_events d d1"
    using notes_ok(1) [OF row x] by blast
  let ?d2 = "note_lost (candidate_of s) d1"
  have "only_events d1 ?d2" using row x d1(2) by (intro notes_ok(2)) (simp_all add: only_events_same)
  note d2 = only_events_same [OF this] only_events_same [OF d1(2)]
  obtain d' where stop: "transition env ?d2 (s_execution_id s) (s_id s) (SetDesired DStop ''system:restart'') ?d2 = (Inr None, d')"
    and "parked {s_id s} ?d2 d'"
    using stop_at_restart [OF _ run, of "s_id s" ?d2 env] row x unfolding d2 by blast
  moreover have "ca_id (candidate_of s) = s_id s" "ca_execution_id (candidate_of s) = s_execution_id s"
    by (simp_all add: candidate_of_def)
  ultimately show ?thesis using clean d1(1) by (simp add: park_one_def d2)
qed

lemma park_one_skip: "classify_ancestry (s_id s) nodes = Terminating \<Longrightarrow> park_one env nodes (candidate_of s) (sm, d) = (sm, d)"
  by (simp add: park_one_def candidate_of_def)

abbreviation clean :: "(string \<times> ancestry_node) list \<Rightarrow> session \<Rightarrow> bool" where
  "clean nodes s \<equiv> classify_ancestry (s_id s) nodes = Clean"

lemma park_all:
  assumes "distinct (map s_id ss)"
    and "\<And>s. s \<in> set ss \<Longrightarrow> session_row (s_id s) d = Some s \<and> s_desired s = DRun \<and> execution_row (s_execution_id s) d \<noteq> None"
    and "\<And>s. s \<in> set ss \<Longrightarrow> classify_ancestry (s_id s) nodes \<noteq> Corrupt"
  shows "\<exists>d'. fold (park_one env nodes) (map candidate_of ss) (sm, d) =
      (sm\<lparr>ps_paused := ps_paused sm + length (filter (clean nodes) ss)\<rparr>, d') \<and>
    parked (s_id ` set (filter (clean nodes) ss)) d d'"
  using assms
proof (induction ss arbitrary: sm d)
  case Nil
  then show ?case by (simp add: parked_none)
next
  case (Cons s ss)
  have s: "session_row (s_id s) d = Some s" "s_desired s = DRun" "execution_row (s_execution_id s) d \<noteq> None"
    using Cons.prems(2) by auto
  consider (clean) "clean nodes s" | (ending) "classify_ancestry (s_id s) nodes = Terminating"
    using Cons.prems(3) [of s] by (cases "classify_ancestry (s_id s) nodes") auto
  then show ?case
  proof cases
    case clean
    let ?sm = "sm\<lparr>ps_paused := ps_paused sm + 1\<rparr>"
    obtain d1 where d1: "park_one env nodes (candidate_of s) (sm, d) = (?sm, d1)" "parked {s_id s} d d1"
      using park_one_effect [OF s clean] by blast
    have rest: "session_row (s_id r) d1 = Some r \<and> s_desired r = DRun \<and> execution_row (s_execution_id r) d1 \<noteq> None" if "r \<in> set ss" for r
    proof -
      have "s_id r \<in> s_id ` set ss" using that by blast
      then have "s_id r \<noteq> s_id s" using Cons.prems(1) by force
      then show ?thesis using that Cons.prems(2) [of r] d1(2) by (auto simp: parked_def execution_row_def)
    qed
    have "\<exists>d'. fold (park_one env nodes) (map candidate_of ss) (?sm, d1) =
        (?sm\<lparr>ps_paused := ps_paused ?sm + length (filter (clean nodes) ss)\<rparr>, d') \<and>
      parked (s_id ` set (filter (clean nodes) ss)) d1 d'"
      by (rule Cons.IH [OF _ rest]) (use Cons.prems(1,3) in auto)
    then obtain d' where d': "fold (park_one env nodes) (map candidate_of ss) (?sm, d1) =
        (?sm\<lparr>ps_paused := ps_paused ?sm + length (filter (clean nodes) ss)\<rparr>, d')"
      "parked (s_id ` set (filter (clean nodes) ss)) d1 d'"
      by blast
    have "s_id s \<notin> s_id ` set (filter (clean nodes) ss)" using Cons.prems(1) by auto
    from parked_more [OF d1(2) d'(2) this] d1(1) d'(1) clean show ?thesis by (intro exI [of _ d']) simp
  next
    case ending
    then show ?thesis
      using Cons.IH [of d sm] Cons.prems park_one_skip [OF ending, of env sm d] by simp
  qed
qed

text \<open>
  C33. Parking at boot: in a well-formed database, with the pause enabled, no session is reported as
  left running; every live session of a live execution is stopped with an empty queue, unless
  an ancestor has ended, and every other session keeps its row and its queue.
\<close>

theorem park_stops_all:
  assumes wf: "db_wf d" and on: "pause_enabled d"
  shows "\<exists>sm d'. park_live_sessions_on_boot env d = (sm, d') \<and> ps_failures sm = [] \<and> executions d' = executions d \<and>
    (\<forall>i s. session_row i d = Some s \<longrightarrow>
      (if pausable d s \<and> \<not> ancestor_ended d i
       then inbox_of i d' = [] \<and> (\<exists>s'. session_row i d' = Some s' \<and> s_desired s' = DStop \<and> s_outcome s' = None)
       else inbox_of i d' = inbox_of i d \<and> session_row i d' = Some s))"
proof -
  let ?ss = "sort_key s_created_at (filter (pausable d) (sessions d))"
  let ?sm = "\<lparr>ps_paused = 0, ps_failures = []\<rparr>"
  let ?eids = "remdups_adj (sort (map ca_execution_id (map candidate_of ?ss)))"
  let ?nodes = "map (\<lambda>n. (an_id n, n)) (load_session_ancestry ?eids d)"
  have cands: "find_restart_pause_candidates d = map candidate_of ?ss"
    by (simp add: find_restart_pause_candidates_def candidate_of_def)
  have row: "session_row (s_id s) d = Some s" if "s \<in> set (sessions d)" for s
    using that wf by (simp add: db_wf_def session_row_def sql_find_key_iff)
  have live: "s_desired s = DRun" "execution_row (s_execution_id s) d \<noteq> None" "s_outcome s = None" if "pausable d s" for s
    using that by (auto simp: pausable_def live_execution_def split: option.splits)
  have check: "classify_ancestry (s_id s) ?nodes = (if ancestor_ended d (s_id s) then Terminating else Clean)" if "s \<in> set ?ss" for s
  proof (rule classify_wf [OF wf load_has_nodes [OF wf] row])
    show "s_execution_id s \<in> set ?eids" using that by (force simp: candidate_of_def)
    show "s \<in> set (sessions d)" using that by simp
  qed
  have ids: "distinct (map s_id ?ss)"
    using wf by (simp add: db_wf_def distinct_map inj_on_def)
  have "\<exists>d'. fold (park_one env ?nodes) (map candidate_of ?ss) (?sm, d) =
      (?sm\<lparr>ps_paused := ps_paused ?sm + length (filter (clean ?nodes) ?ss)\<rparr>, d') \<and>
    parked (s_id ` set (filter (clean ?nodes) ?ss)) d d'"
  proof (rule park_all [OF ids])
    fix s assume s: "s \<in> set ?ss"
    show "classify_ancestry (s_id s) ?nodes \<noteq> Corrupt" using check [OF s] by (simp split: if_split)
    from s show "session_row (s_id s) d = Some s \<and> s_desired s = DRun \<and> execution_row (s_execution_id s) d \<noteq> None"
      using row live by simp
  qed
  then obtain d' where run: "fold (park_one env ?nodes) (map candidate_of ?ss) (?sm, d) =
      (?sm\<lparr>ps_paused := ps_paused ?sm + length (filter (clean ?nodes) ?ss)\<rparr>, d')"
    and parked: "parked (s_id ` set (filter (clean ?nodes) ?ss)) d d'"
    by blast
  have "set (filter (clean ?nodes) ?ss) = {s \<in> set (sessions d). pausable d s \<and> \<not> ancestor_ended d (s_id s)}"
    using check by (auto split: if_splits)
  then have ids: "i \<in> s_id ` set (filter (clean ?nodes) ?ss) \<longleftrightarrow> pausable d s \<and> \<not> ancestor_ended d i"
    if "session_row i d = Some s" for i s
    using that row by (auto dest: session_rowD)
  obtain A where A: "parked A d d'" "\<And>i s. session_row i d = Some s \<Longrightarrow> i \<in> A \<longleftrightarrow> pausable d s \<and> \<not> ancestor_ended d i"
    using parked ids by blast
  have "if pausable d s \<and> \<not> ancestor_ended d i
       then inbox_of i d' = [] \<and> (\<exists>s'. session_row i d' = Some s' \<and> s_desired s' = DStop \<and> s_outcome s' = None)
       else inbox_of i d' = inbox_of i d \<and> session_row i d' = Some s" if "session_row i d = Some s" for i s
  proof (cases "i \<in> A")
    case True
    with A(2) [OF that] have *: "pausable d s \<and> \<not> ancestor_ended d i" by blast
    then show ?thesis using parked_in [OF A(1) True that] live(3) by simp
  next
    case False
    with A(2) [OF that] have *: "\<not> (pausable d s \<and> \<not> ancestor_ended d i)" by blast
    from parked_out [OF A(1) False] that show ?thesis unfolding if_not_P [OF *] by simp
  qed
  moreover have "executions d' = executions d" using A(1) unfolding parked_def by blast
  moreover have "park_live_sessions_on_boot env d = fold (park_one env ?nodes) (map candidate_of ?ss) (?sm, d)"
    using on by (simp add: park_live_sessions_on_boot_def Let_def cands)
  ultimately show ?thesis unfolding run by (intro exI conjI) (rule refl | simp)+
qed

text \<open>The root and its child are live; the root is stopped.\<close>

theorem park_stops_all_witness:
  "\<exists>sm d'. park_live_sessions_on_boot demo_env demo_db = (sm, d') \<and>
    (\<exists>s'. session_row ''r'' d' = Some s' \<and> s_desired s' = DStop \<and> s_outcome s' = None)"
proof -
  have on: "pause_enabled demo_db" by (simp add: pause_enabled_def demo_defs)
  have "tree demo_db = [(''r'', None), (''k'', Some ''r'')]" by (simp add: demo_defs tree_def lineage_def)
  then have "(''r'', Some q) \<notin> set (tree demo_db)" for q by simp
  then have top: "\<not> ancestor_ended demo_db ''r''" unfolding ancestor_ended_def using below_last by blast
  have live: "pausable demo_db (demo_session ''r'' None Idle)"
    by (simp add: pausable_def live_execution_def demo_defs demo_execution_def execution_row_def sql_find_def)
  have row: "session_row ''r'' demo_db = Some (demo_session ''r'' None Idle)"
    by (simp add: demo_defs session_row_def sql_find_def)
  obtain sm d' where run: "park_live_sessions_on_boot demo_env demo_db = (sm, d')"
    and all: "\<forall>i s. session_row i demo_db = Some s \<longrightarrow>
      (if pausable demo_db s \<and> \<not> ancestor_ended demo_db i
       then inbox_of i d' = [] \<and> (\<exists>s'. session_row i d' = Some s' \<and> s_desired s' = DStop \<and> s_outcome s' = None)
       else inbox_of i d' = inbox_of i demo_db \<and> session_row i d' = Some s)"
    using park_stops_all [OF demo_db_wf on, of demo_env] by (elim exE conjE) (rule that)
  from all [rule_format, OF row] have "\<exists>s'. session_row ''r'' d' = Some s' \<and> s_desired s' = DStop \<and> s_outcome s' = None"
    using live top by simp
  with run show ?thesis by blast
qed

end
