(* ===== verification/Agent_Auth.thy ===== *)
theory Agent_Auth
  imports Sessions
begin

text \<open>
  \<open>scheduler/src/api/auth.rs\<close>: what an agent's request is authenticated as. The bearer token is
  the identifier of the agent's session; the role follows from its place in the tree.
\<close>

datatype mcp_role = RootLead | SubLead | Leaf

record mcp_session =
  mc_session_id :: string
  mc_execution_id :: string
  mc_agent_id :: string
  mc_role :: mcp_role
  mc_depth :: int
  mc_max_depth :: int
  mc_max_width :: int
  mc_desired :: desired
  mc_executor_state :: ex_state
  mc_outcome :: "outcome option"
  mc_project_id :: "string option"
  mc_sandbox_policy :: jtext

datatype auth_rejection = Unauthorized string | SessionTerminated string | InternalError string

definition ascii_lower :: "char \<Rightarrow> char" where
  "ascii_lower c = (let n = (of_char c :: nat) in if 65 \<le> n \<and> n \<le> 90 then char_of (n + 32) else c)"

definition eq_ignore_ascii_case :: "string \<Rightarrow> string \<Rightarrow> bool" where
  "eq_ignore_ascii_case a b \<longleftrightarrow> map ascii_lower a = map ascii_lower b"

definition bearer_token :: "string \<Rightarrow> string option" where
  "bearer_token header =
     (if 7 < length header \<and> eq_ignore_ascii_case (take 7 header) ''bearer '' then Some (drop 7 header) else None)"

definition role_of :: "session \<Rightarrow> int \<Rightarrow> int \<Rightarrow> mcp_role" where
  "role_of s depth max_depth =
     (if s_parent_session_id s = None then RootLead else if max_depth \<le> depth then Leaf else SubLead)"

definition from_request_parts :: "string option \<Rightarrow> db \<Rightarrow> auth_rejection + mcp_session" where
  "from_request_parts authorization db =
     (case authorization of
        None \<Rightarrow> Inl (Unauthorized ''missing Authorization header'')
      | Some header \<Rightarrow>
          (case bearer_token header of
             None \<Rightarrow> Inl (Unauthorized ''invalid Authorization format, expected Bearer <token>'')
           | Some token \<Rightarrow>
               (case get_session token db of
                  Inl e \<Rightarrow> Inl (Unauthorized ''session not found'')
                | Inr s \<Rightarrow>
                    if s_outcome s \<noteq> None then Inl (SessionTerminated ''session is in terminal state'')
                    else
                      (case get_execution (s_execution_id s) db of
                         Inl e \<Rightarrow> Inl (InternalError (show_error e))
                       | Inr x \<Rightarrow>
                           let depth = int (compute_depth (s_id s) (s_execution_id s) db) in
                           Inr \<lparr>mc_session_id = s_id s, mc_execution_id = s_execution_id s,
                             mc_agent_id = s_agent_id s, mc_role = role_of s depth (x_max_depth x),
                             mc_depth = depth, mc_max_depth = x_max_depth x, mc_max_width = x_max_width x,
                             mc_desired = s_desired s, mc_executor_state = s_executor_state s,
                             mc_outcome = s_outcome s, mc_project_id = x_project_id x,
                             mc_sandbox_policy = s_sandbox_policy s\<rparr>))))"

lemma from_request_parts_Inr:
  assumes "from_request_parts h d = Inr a"
  obtains s x where "session_row (mc_session_id a) d = Some s" "s_execution_id s = mc_execution_id a" "s_outcome s = None"
    "execution_row (mc_execution_id a) d = Some x" "mc_desired a = s_desired s" "mc_max_depth a = x_max_depth x"
    "mc_max_width a = x_max_width x" "mc_depth a = int (compute_depth (s_id s) (s_execution_id s) d)"
    "mc_role a = role_of s (mc_depth a) (mc_max_depth a)" "mc_sandbox_policy a = s_sandbox_policy s" "mc_project_id a = x_project_id x"
proof -
  obtain s x where "session_row (s_id s) d = Some s" "s_outcome s = None" "execution_row (s_execution_id s) d = Some x"
    "a = \<lparr>mc_session_id = s_id s, mc_execution_id = s_execution_id s, mc_agent_id = s_agent_id s,
       mc_role = role_of s (int (compute_depth (s_id s) (s_execution_id s) d)) (x_max_depth x),
       mc_depth = int (compute_depth (s_id s) (s_execution_id s) d), mc_max_depth = x_max_depth x, mc_max_width = x_max_width x,
       mc_desired = s_desired s, mc_executor_state = s_executor_state s, mc_outcome = s_outcome s,
       mc_project_id = x_project_id x, mc_sandbox_policy = s_sandbox_policy s\<rparr>"
    using assms
    by (auto simp: from_request_parts_def Let_def dest: session_rowD split: option.splits sum.splits if_splits)
  then show ?thesis by (intro that [of s x]) simp_all
qed

end
