(* ===== verification/Messaging.thy ===== *)
theory Messaging
  imports Agent_Auth Transition Text
begin

text \<open>
  \<open>scheduler/src/services/messaging.rs\<close> and \<open>api/messages.rs\<close>: the names agents go by, sending a
  message to an agent by its name, and listing the messages of a session.
\<close>

section \<open>Content that can be delivered\<close>

text \<open>
  \<open>text.trim().is_empty()\<close> on the bytes of the text: nothing but characters with Unicode's
  \<open>White_Space\<close>, in UTF-8.
\<close>

fun white_space :: "string \<Rightarrow> bool" where
  "white_space [] = True"
| "white_space (a # s) =
     (let n = (of_char a :: nat) in
      if n \<le> 127 then (9 \<le> n \<and> n \<le> 13 \<or> n = 32) \<and> white_space s
      else case s of
        [] \<Rightarrow> False
      | b # r \<Rightarrow>
          if n = 0xC2 then of_char b \<in> {0x85, 0xA0 :: nat} \<and> white_space r
          else case r of
            [] \<Rightarrow> False
          | c # q \<Rightarrow>
              let m = (of_char b :: nat); k = (of_char c :: nat) in
              (n = 0xE1 \<and> m = 0x9A \<and> k = 0x80 \<or>
               n = 0xE2 \<and> m = 0x80 \<and> (0x80 \<le> k \<and> k \<le> 0x8A \<or> k = 0xA8 \<or> k = 0xA9 \<or> k = 0xAF) \<or>
               n = 0xE2 \<and> m = 0x81 \<and> k = 0x9F \<or>
               n = 0xE3 \<and> m = 0x80 \<and> k = 0x80) \<and> white_space q)"

definition deliverable :: "json \<Rightarrow> bool" where
  "deliverable p =
     (case get_str p ''text'' of
        Some t \<Rightarrow> \<not> white_space t
      | None \<Rightarrow>
          (case get_str p ''raw'' of
             Some raw \<Rightarrow> raw \<noteq> []
           | None \<Rightarrow> (case get_str p ''url'' of Some u \<Rightarrow> u \<noteq> [] | None \<Rightarrow> False)))"

definition has_deliverable_content :: "json list \<Rightarrow> bool" where
  "has_deliverable_content parts = list_ex deliverable parts"

section \<open>Names\<close>

fun join :: "string \<Rightarrow> string list \<Rightarrow> string" where
  "join sep [] = []"
| "join sep [x] = x"
| "join sep (x # y # xs) = x @ sep @ join sep (y # xs)"

text \<open>The name of a session among its siblings: its slug, or the start of its identifier.\<close>

definition own_name :: "session \<Rightarrow> string" where
  "own_name s = (if s_slug s = [] then take 8 (s_id s) else s_slug s)"

definition list_sessions_of :: "string \<Rightarrow> db \<Rightarrow> session list" where
  "list_sessions_of eid db = sort_key s_created_at (filter (\<lambda>s. s_execution_id s = eid) (sessions db))"

fun walk_up :: "nat \<Rightarrow> (string \<Rightarrow> (string option \<times> string) option) \<Rightarrow> string \<Rightarrow> string list \<Rightarrow> string list" where
  "walk_up 0 session_map current_id path_parts = path_parts"
| "walk_up (Suc n) session_map current_id path_parts =
     (case session_map current_id of
        None \<Rightarrow> path_parts
      | Some (parent, slug) \<Rightarrow>
          (case parent of
             Some pid \<Rightarrow> walk_up n session_map pid (path_parts @ [slug])
           | None \<Rightarrow> path_parts @ [slug]))"

definition compute_hierarchical_names :: "string \<Rightarrow> db \<Rightarrow> (string \<times> string) list" where
  "compute_hierarchical_names eid db =
     (let ss = list_sessions_of eid db;
          session_map = map_of (rev (map (\<lambda>s. (s_id s, (s_parent_session_id s, own_name s))) ss));
          max_depth = length ss in
      map (\<lambda>s. (s_id s, join ''/'' (rev (walk_up (max_depth + 1) session_map (s_id s) [])))) ss)"

fun name_loop :: "nat \<Rightarrow> string \<Rightarrow> string list \<Rightarrow> db \<Rightarrow> scheduler_error + string list" where
  "name_loop 0 current_id path_parts db = Inr path_parts"
| "name_loop (Suc n) current_id path_parts db =
     (case get_session current_id db of
        Inl e \<Rightarrow> Inl e
      | Inr s \<Rightarrow>
          (case s_parent_session_id s of
             Some pid \<Rightarrow> name_loop n pid (path_parts @ [own_name s]) db
           | None \<Rightarrow> Inr (path_parts @ [own_name s])))"

definition hierarchical_name_for_session :: "string \<Rightarrow> db \<Rightarrow> scheduler_error + string" where
  "hierarchical_name_for_session i db = map_sum id (\<lambda>parts. join ''/'' (rev parts)) (name_loop 20 i [] db)"

definition sender_hierarchical_name :: "string \<Rightarrow> string \<Rightarrow> db \<Rightarrow> scheduler_error + string" where
  "sender_hierarchical_name eid sid db =
     (case List.find (\<lambda>p. fst p = sid) (compute_hierarchical_names eid db) of
        None \<Rightarrow> Inl (NotFound (''session not found in execution: '' @ sid))
      | Some p \<Rightarrow> Inr (snd p))"

definition resolve_recipient_and_sender :: "string \<Rightarrow> string \<Rightarrow> string \<Rightarrow> db \<Rightarrow> scheduler_error + session \<times> string" where
  "resolve_recipient_and_sender eid recipient_name sender db =
     (let names = compute_hierarchical_names eid db in
      case List.find (\<lambda>p. fst p = sender) names of
        None \<Rightarrow> Inl (NotFound (''session not found in execution: '' @ sender))
      | Some (_, sender_name) \<Rightarrow>
          (case filter (\<lambda>p. snd p = recipient_name) names of
             [] \<Rightarrow> Inl (NotFound (''no agent found with name: '' @ recipient_name))
           | [m] \<Rightarrow> (case get_session (fst m) db of Inl e \<Rightarrow> Inl e | Inr s \<Rightarrow> Inr (s, sender_name))
           | ms \<Rightarrow> Inl (Conflict (''ambiguous recipient: '' @ nat_dec (length ms) @ '' sessions match name '' @
               CHR 0x27 # recipient_name @ [CHR 0x27]))))"

section \<open>Delivering\<close>

record sender_info =
  si_name :: string
  si_session_id :: string

text \<open>\<open>text_part\<close>, \<open>data_part\<close> and \<open>message_payload\<close> of \<open>common/src/a2a.rs\<close>.\<close>

definition text_part :: "string \<Rightarrow> json" where "text_part t = JObj [(''text'', JStr t)]"

definition data_part :: "json \<Rightarrow> json" where "data_part v = JObj [(''data'', v)]"

definition message_payload :: "string \<Rightarrow> json list \<Rightarrow> json" where
  "message_payload role parts = JObj [(''role'', JStr role), (''parts'', JArr parts)]"

definition sender_part :: "sender_info \<Rightarrow> json" where
  "sender_part s = data_part (JObj [(''type'', JStr ''sender''), (''name'', JStr (si_name s)), (''session_id'', JStr (si_session_id s))])"

text \<open>The header without the blank line that ends it; \<open>\<cdot>\<close> is two bytes.\<close>

definition delivery_header :: "sender_info \<Rightarrow> string" where
  "delivery_header s = ''[message from '' @ si_name s @ '' '' @ [CHR 0xC2, CHR 0xB7] @ '' session '' @ si_session_id s @ '']''"

text \<open>The header goes in front of the text of the first part that has one.\<close>

fun head_text :: "string \<Rightarrow> json list \<Rightarrow> json list option" where
  "head_text header [] = None"
| "head_text header (p # ps) =
     (case get p ''text'' of
        Some t \<Rightarrow> Some (text_part (header @ (case as_str t of None \<Rightarrow> [] | Some s \<Rightarrow> s)) # ps)
      | None \<Rightarrow> map_option ((#) p) (head_text header ps))"

definition delivery_parts :: "json list \<Rightarrow> sender_info option \<Rightarrow> json list" where
  "delivery_parts parts sender =
     (case sender of
        None \<Rightarrow> parts
      | Some s \<Rightarrow>
          (case head_text (delivery_header s @ [CHR 0x0A, CHR 0x0A]) parts of
             Some dp \<Rightarrow> dp
           | None \<Rightarrow> text_part (delivery_header s) # parts))"

definition event_parts :: "json list \<Rightarrow> sender_info option \<Rightarrow> json list" where
  "event_parts parts sender = parts @ (case sender of None \<Rightarrow> [] | Some s \<Rightarrow> [sender_part s])"

definition delivery_payload :: "json list \<Rightarrow> sender_info option \<Rightarrow> json" where
  "delivery_payload parts sender =
     JObj [(''message'', message_payload ROLE_USER (delivery_parts parts sender)),
           (''event_message'', message_payload ROLE_USER (event_parts parts sender))]"

record delivery_result =
  dr_event_id :: int
  dr_session_status :: string
  dr_execution_status :: string

text \<open>\<open>pre\<close> is what \<open>transition\<close> reads before its transaction; \<open>show\<close> is the \<open>Debug\<close> form of a rejection.\<close>

definition deliver_message ::
  "env \<Rightarrow> (rejected \<Rightarrow> string) \<Rightarrow> db \<Rightarrow> session \<Rightarrow> json list \<Rightarrow> sender_info option \<Rightarrow> db \<Rightarrow> (scheduler_error + delivery_result) \<times> db" where
  "deliver_message env debug pre session parts sender db =
     (case transition env pre (s_execution_id session) (s_id session)
        (SendMessage (plain_message (delivery_payload parts sender))) db of
        (Inl e, db') \<Rightarrow>
          (Inl (case e of
             WriteBarrier \<Rightarrow> Conflict ''session or execution cannot accept messages''
           | other \<Rightarrow> Database (''send message failed: '' @ debug other)), db')
      | (Inr i, db') \<Rightarrow>
          (Inr \<lparr>dr_event_id = (case i of None \<Rightarrow> 0 | Some n \<Rightarrow> n), dr_session_status = ''working'',
                 dr_execution_status = ''working''\<rparr>, db'))"

section \<open>The routes\<close>

record send_message_request =
  sr_to :: string
  sr_parts :: "json list"

record sent_reply =
  sp_event_id :: string
  sp_recipient_session_id :: string
  sp_session_status :: string

definition post_message ::
  "env \<Rightarrow> (rejected \<Rightarrow> string) \<Rightarrow> mcp_session \<Rightarrow> send_message_request \<Rightarrow> db \<Rightarrow> db \<Rightarrow> (scheduler_error + sent_reply) \<times> db" where
  "post_message env debug auth req pre db =
     (if mc_desired auth \<noteq> DRun then
        (Inl (Conflict (''sender session is stopped or terminated '' @ [CHR 0xE2, CHR 0x80, CHR 0x94] @ '' cannot send messages'')), db)
      else if sr_parts req = [] then (Inl (ValidationFailed ''parts must be non-empty''), db)
      else if \<not> has_deliverable_content (sr_parts req) then
        (Inl (ValidationFailed ''parts must contain at least one non-empty text part or file part with bytes''), db)
      else
        case resolve_recipient_and_sender (mc_execution_id auth) (sr_to req) (mc_session_id auth) pre of
          Inl e \<Rightarrow> (Inl e, db)
        | Inr (recipient, sender_name) \<Rightarrow>
            (case deliver_message env debug pre recipient (sr_parts req)
                (Some \<lparr>si_name = sender_name, si_session_id = mc_session_id auth\<rparr>) db of
               (Inl e, db') \<Rightarrow> (Inl e, db')
             | (Inr r, db') \<Rightarrow>
                 (Inr \<lparr>sp_event_id = int_dec (dr_event_id r), sp_recipient_session_id = s_id recipient,
                       sp_session_status = dr_session_status r\<rparr>, db')))"

record message_response =
  mr_id :: string
  mr_sender :: "sender_info option"
  mr_body :: string
  mr_parts :: "json list"
  mr_created_at :: string

definition is_sender_data :: "json \<Rightarrow> bool" where
  "is_sender_data p \<longleftrightarrow> Option.bind (get p ''data'') (\<lambda>d. get_str d ''type'') = Some ''sender''"

definition str_or_empty :: "json \<Rightarrow> string \<Rightarrow> string" where
  "str_or_empty d k = (case get_str d k of None \<Rightarrow> [] | Some s \<Rightarrow> s)"

definition extract_sender_from_parts :: "json \<Rightarrow> sender_info option" where
  "extract_sender_from_parts payload =
     Option.bind (get_array payload ''parts'') (\<lambda>parts.
     Option.bind (List.find is_sender_data parts) (\<lambda>p.
     map_option (\<lambda>d. \<lparr>si_name = str_or_empty d ''name'', si_session_id = str_or_empty d ''session_id''\<rparr>)
       (get p ''data'')))"

definition extract_content_parts :: "json \<Rightarrow> json list" where
  "extract_content_parts payload =
     (case get_array payload ''parts'' of None \<Rightarrow> [] | Some parts \<Rightarrow> filter (\<lambda>p. \<not> is_sender_data p) parts)"

definition extract_text_from_parts :: "json \<Rightarrow> string" where
  "extract_text_from_parts payload =
     (case get_array payload ''parts'' of
        None \<Rightarrow> []
      | Some parts \<Rightarrow> join [CHR 0x0A] (List.map_filter (\<lambda>p. get_str p ''text'') parts))"

definition message_response_of :: "env \<Rightarrow> event \<Rightarrow> message_response" where
  "message_response_of env e =
     (let payload = (case from_str (ev_payload e) of None \<Rightarrow> JNull | Some v \<Rightarrow> v) in
      \<lparr>mr_id = int_dec (ev_id e), mr_sender = extract_sender_from_parts payload,
       mr_body = extract_text_from_parts payload, mr_parts = extract_content_parts payload,
       mr_created_at = en_rfc3339 env (ev_created_at e)\<rparr>)"

definition list_messages :: "env \<Rightarrow> string \<Rightarrow> string option \<Rightarrow> db \<Rightarrow> scheduler_error + message_response list" where
  "list_messages env sid since_id db =
     (case get_session sid db of
        Inl e \<Rightarrow> Inl e
      | Inr _ \<Rightarrow>
          (case since_id of
             None \<Rightarrow> Inr (map (message_response_of env) (list_messages_by_session sid None db))
           | Some raw \<Rightarrow>
               (case parse_i64 raw of
                  None \<Rightarrow> Inl (Problem ''request.invalid'' ''since_id is not a valid event id'')
                | Some i \<Rightarrow> Inr (map (message_response_of env) (list_messages_by_session sid (Some i) db)))))"

end
