(* ===== verification/Escalation.thy ===== *)
theory Escalation
  imports Messaging
begin

text \<open>
  How a decision is asked for and settled: \<open>scheduler/src/api/escalate.rs\<close> (an agent's question, the
  user's dismissal) and the user's routes of \<open>api/sessions.rs\<close> that act on a session: its message,
  which may answer a decision, its stop and its termination.
\<close>

section \<open>Asking\<close>

record escalate_option =
  eo_label :: string
  eo_description :: "string option"

record escalate_question =
  eq_question :: string
  eq_context :: "string option"
  eq_options :: "escalate_option list option"

record escalate_request =
  er_questions :: "escalate_question list"
  er_importance :: string

record escalate_response =
  ep_batch_id :: string
  ep_event_id :: string

definition option_json :: "escalate_option \<Rightarrow> json" where
  "option_json o' = JObj ((''label'', JStr (eo_label o')) #
     (case eo_description o' of None \<Rightarrow> [] | Some t \<Rightarrow> [(''description'', JStr t)]))"

definition question_json :: "escalate_question \<Rightarrow> json" where
  "question_json q =
     (let entry = opt_field ''context'' (eq_context q) (JObj [(''question'', JStr (eq_question q))]) in
      case eq_options q of
        None \<Rightarrow> entry
      | Some opts \<Rightarrow> jset ''options'' (JArr (map option_json opts)) entry)"

definition escalate_payload :: "string \<Rightarrow> escalate_request \<Rightarrow> json" where
  "escalate_payload batch_id req =
     JObj [(''role'', JStr ROLE_AGENT),
           (''parts'', JArr [JObj [(''data'', JObj [(''type'', JStr ESCALATE_TYPE), (''batch_id'', JStr batch_id),
              (''importance'', JStr (er_importance req)), (''questions'', JArr (map question_json (er_questions req)))])]])]"

definition quoted :: "string \<Rightarrow> string" where "quoted s = CHR 0x22 # s @ [CHR 0x22]"

definition importance_refusal :: "string \<Rightarrow> string" where
  "importance_refusal i = ''importance must be '' @ quoted ''blocking'' @ '' or '' @ quoted ''fyi'' @ '', got '' @ quoted i"

text \<open>The body is the request, or the text of its rejection by the JSON extractor.\<close>

definition escalate ::
  "mcp_session \<Rightarrow> string + escalate_request \<Rightarrow> string \<Rightarrow> db \<Rightarrow> (scheduler_error + escalate_response) \<times> db" where
  "escalate auth body batch_id db =
     (case body of
        Inl t \<Rightarrow> (Inl (ValidationFailed t), db)
      | Inr req \<Rightarrow>
          if mc_role auth \<noteq> RootLead then
            (Inl (Forbidden ''escalate is only available to the root lead agent''), db)
          else if er_questions req = [] \<or> 4 < length (er_questions req) then
            (Inl (ValidationFailed ''questions must contain 1-4 items''), db)
          else if er_importance req \<noteq> ''blocking'' \<and> er_importance req \<noteq> ''fyi'' then
            (Inl (ValidationFailed (importance_refusal (er_importance req))), db)
          else if list_ex (\<lambda>q. case eq_options q of None \<Rightarrow> False | Some opts \<Rightarrow> length opts < 2 \<or> 5 < length opts)
              (er_questions req) then
            (Inl (ValidationFailed ''options must contain 2-5 items''), db)
          else
            run_tx Inl (mc_execution_id auth)
              (tx_bind (tx_map_err Inl (insert_in_tx (Some (mc_session_id auth)) EvPlatform
                 (to_string (escalate_payload batch_id req)))) (\<lambda>inserted.
               tx_ret (Inr \<lparr>ep_batch_id = batch_id, ep_event_id = int_dec (fst inserted)\<rparr>))) db)"

section \<open>Settling\<close>

definition resolution_extension :: "resolution_candidate \<Rightarrow> json" where
  "resolution_extension cand =
     opt_field ''resolved_at'' (rc_resolved_at_raw cand) (opt_field ''answer_text'' (rc_answer_text cand)
       (JObj [(''kind'', JStr (case rc_kind cand of Answer \<Rightarrow> ''answered'' | Dismiss \<Rightarrow> ''dismissed''))]))"

definition already_resolved :: "resolution_candidate \<Rightarrow> scheduler_error" where
  "already_resolved cand = ProblemWith ''decision.already_resolved'' ''this decision was already resolved''
     [(''resolution'', resolution_extension cand)]"

text \<open>\<open>is_agent_session_bearer\<close> and \<open>bearer_names_a_session\<close>.\<close>

definition bearer_names_a_session :: "string \<Rightarrow> db \<Rightarrow> bool" where
  "bearer_names_a_session token db \<longleftrightarrow> session_row token db \<noteq> None"

definition is_agent_session_bearer :: "string option \<Rightarrow> db \<Rightarrow> bool" where
  "is_agent_session_bearer authorization db \<longleftrightarrow>
     (case Option.bind authorization bearer_token of None \<Rightarrow> False | Some token \<Rightarrow> bearer_names_a_session token db)"

definition no_decision :: scheduler_error where
  "no_decision = Problem ''decision.not_found'' ''no decision has this id''"

definition dismiss_in_tx :: "env \<Rightarrow> escalation \<Rightarrow> (scheduler_error, int \<times> timestamp) tx" where
  "dismiss_in_tx env esc =
     tx_bind (tx_read (find_marker_for_escalation (en_rfc3339 env) esc)) (\<lambda>marker.
     tx_bind (case marker of None \<Rightarrow> tx_ret () | Some cand \<Rightarrow> tx_abort (already_resolved cand)) (\<lambda>_.
     tx_bind (tx_try (\<lambda>e. Database (''recheck execution: '' @ show_error e)) (get_execution (esc_execution_id esc))) (\<lambda>x.
     tx_bind (tx_fail_if (x_outcome x \<noteq> None \<or> x_desired x = DTerminate)
       (Problem ''decision.expired'' ''the execution this decision belongs to has ended'')) (\<lambda>_.
     insert_in_tx (Some (esc_session_id esc)) EvPlatform
       (to_string (dismiss_payload (ed_batch_id (esc_data esc)) (esc_id esc)))))))"

text \<open>\<open>pre\<close> is the database of the reads before the transaction.\<close>

definition dismiss :: "env \<Rightarrow> string option \<Rightarrow> string \<Rightarrow> db \<Rightarrow> db \<Rightarrow> (scheduler_error + unit) \<times> db" where
  "dismiss env authorization event_id pre db =
     (if is_agent_session_bearer authorization pre then
        (Inl (Problem ''auth.forbidden'' ''dismiss is not available via agent session auth''), db)
      else case parse_i64 event_id of
        None \<Rightarrow> (Inl no_decision, db)
      | Some i \<Rightarrow>
          (case get_escalation i pre of
             None \<Rightarrow> (Inl no_decision, db)
           | Some esc \<Rightarrow>
               run_tx (\<lambda>e. Inl (Database (''begin dismiss tx: '' @ show_error e))) (esc_execution_id esc)
                 (tx_bind (tx_map_err Inl (dismiss_in_tx env esc)) (\<lambda>_. tx_ret (Inr ()))) db))"

section \<open>The user's message\<close>

record user_reply =
  ur_event_id :: string
  ur_session_status :: string
  ur_execution_status :: string

text \<open>What the parts ask for: the marker an answer leaves, or the refusal of it.\<close>

definition live_marker :: "string \<Rightarrow> string option \<Rightarrow> json list \<Rightarrow> db \<Rightarrow> scheduler_error + resolution_marker option" where
  "live_marker sid authorization parts pre =
     (case validate_live_answer parts of
        NotAnAnswer \<Rightarrow> Inr None
      | MultipleParts \<Rightarrow> Inl (ValidationFailed ''message must contain at most one question_answer part'')
      | MissingEscalationEventId \<Rightarrow> Inl (ValidationFailed ''question_answer part requires a string escalation_event_id'')
      | SenderPresent \<Rightarrow> Inl (ValidationFailed ''question_answer cannot carry a sender part'')
      | MalformedParts \<Rightarrow> Inl (ValidationFailed ''message parts must be objects with object data members'')
      | Valid i answer_text \<Rightarrow>
          if reserved_envelope_exceeds_cap answer_text then
            Inl (Problem ''decision.answer_too_large'' ''answer text exceeds the maximum length'')
          else
            (case get_escalation i pre of
               None \<Rightarrow> Inl no_decision
             | Some esc \<Rightarrow>
                 if esc_session_id esc \<noteq> sid then
                   Inl (Problem ''decision.wrong_session'' ''this decision belongs to a different session'')
                 else if is_agent_session_bearer authorization pre then
                   Inl (Problem ''auth.forbidden'' ''answering is not available via agent session auth'')
                 else Inr (Some \<lparr>rm_escalation = esc, rm_answer_text = answer_text\<rparr>)))"

fun message_refusal :: "(rejected \<Rightarrow> string) \<Rightarrow> rejected \<Rightarrow> scheduler_error" where
  "message_refusal debug WriteBarrier = Conflict ''session or execution cannot accept messages''"
| "message_refusal debug (AlreadyResolved cand) = already_resolved cand"
| "message_refusal debug DecisionExpired = Problem ''decision.expired'' ''the execution this decision belongs to has ended''"
| "message_refusal debug ExecutionTerminated = Problem ''execution.terminated'' ''this execution has ended''"
| "message_refusal debug NoEntity = NotFound ''session does not exist''"
| "message_refusal debug e = Database (''transition failed: '' @ debug e)"

definition user_message ::
  "env \<Rightarrow> (rejected \<Rightarrow> string) \<Rightarrow> string \<Rightarrow> string option \<Rightarrow> json list \<Rightarrow> db \<Rightarrow> db \<Rightarrow> (scheduler_error + user_reply) \<times> db" where
  "user_message env debug sid authorization parts pre db =
     (if parts = [] then (Inl (ValidationFailed ''parts must be non-empty''), db)
      else if \<not> has_deliverable_content parts then
        (Inl (ValidationFailed ''parts must contain at least one non-empty text part or file part with bytes''), db)
      else
        case live_marker sid authorization parts pre of
          Inl e \<Rightarrow> (Inl e, db)
        | Inr marker \<Rightarrow>
            (case get_session sid pre of
               Inl e \<Rightarrow> (Inl e, db)
             | Inr s \<Rightarrow>
                 (case transition env pre (s_execution_id s) (s_id s) (SendMessage
                     \<lparr>sm_payload = JObj [(''message'', message_payload ROLE_USER parts)], sm_resolution = marker,
                      sm_emit_message_delivered = True, sm_from_user = True\<rparr>) db of
                    (Inl e, db') \<Rightarrow> (Inl (message_refusal debug e), db')
                  | (Inr i, db') \<Rightarrow>
                      (Inr \<lparr>ur_event_id = int_dec (case i of None \<Rightarrow> 0 | Some n \<Rightarrow> n), ur_session_status = ''working'',
                         ur_execution_status = ''working''\<rparr>, db'))))"

section \<open>Stopping a turn\<close>

definition stop_turn :: "env \<Rightarrow> (rejected \<Rightarrow> string) \<Rightarrow> string \<Rightarrow> db \<Rightarrow> db \<Rightarrow> (scheduler_error + unit) \<times> db" where
  "stop_turn env debug sid pre db =
     (case get_session sid pre of
        Inl e \<Rightarrow> (Inl e, db)
      | Inr s \<Rightarrow>
          (case transition env pre (s_execution_id s) (s_id s) (SetDesired DStop ''user'') db of
             (Inr _, db') \<Rightarrow> (Inr (), db')
           | (Inl Ratchet, db') \<Rightarrow> (Inl (Conflict ''session already terminated''), db')
           | (Inl e, db') \<Rightarrow> (Inl (Database (''transition failed: '' @ debug e)), db')))"

end
