(* ===== verification/Briefing.thy ===== *)
theory Briefing
  imports Messaging Escalation
begin

text \<open>
  What a session is told about its surroundings: \<open>scheduler/src/services/briefing.rs\<close>,
  \<open>services/agent_config.rs\<close>, \<open>services/mcp.rs\<close>, the slugs of \<open>slugs.rs\<close>, and the tables they read.

  The compiled-in texts of the six sections are data, the record \<open>briefing_texts\<close>. The twins that read
  through an open transaction compute the same from the transaction's database.
\<close>

section \<open>Projects and their servers\<close>

record project =
  p_id :: string
  p_name :: string
  p_slug :: string
  p_path :: string
  p_settings :: jtext
  p_deleted_at :: "timestamp option"
  p_created_at :: timestamp
  p_updated_at :: timestamp

record mcp_server =
  ms_id :: string
  ms_name :: string
  ms_transport_type :: string
  ms_config :: jtext

text \<open>The tables beside those of \<open>db\<close>.\<close>

record catalog =
  ct_projects :: "project list"
  ct_mcp_servers :: "mcp_server list"
  ct_project_mcp_servers :: "(string \<times> string) list"
  ct_execution_agents :: "(string \<times> string) list"

definition get_project :: "string \<Rightarrow> catalog \<Rightarrow> scheduler_error + project" where
  "get_project i cat = ok_or (map_db_error ''project'' i)
     (sql_find (\<lambda>p. p_id p = i \<and> p_deleted_at p = None) (ct_projects cat))"

record mcp_entry =
  me_server_id :: string
  me_name :: string
  me_transport_type :: string
  me_config :: json

definition list_by_project :: "string \<Rightarrow> catalog \<Rightarrow> mcp_entry list" where
  "list_by_project pid cat =
     sort_key me_name (concat (map (\<lambda>(p, i). if p \<noteq> pid then [] else
       map (\<lambda>m. \<lparr>me_server_id = ms_id m, me_name = ms_name m, me_transport_type = ms_transport_type m,
         me_config = (case from_str (ms_config m) of None \<Rightarrow> JObj [] | Some v \<Rightarrow> v)\<rparr>)
       (filter (\<lambda>m. ms_id m = i) (ct_mcp_servers cat))) (ct_project_mcp_servers cat)))"

text \<open>
  \<open>config["type"] = ...\<close> on an object, or on \<open>null\<close>, which it turns into one. Stored configurations are
  objects; on another value the code would panic.
\<close>

definition set_type :: "string \<Rightarrow> json \<Rightarrow> json" where
  "set_type ty c = (case c of JNull \<Rightarrow> JObj [(''type'', JStr ty)] | v \<Rightarrow> jset ''type'' (JStr ty) v)"

definition build_mcp_servers_payload :: "mcp_entry list \<Rightarrow> json" where
  "build_mcp_servers_payload servers =
     fold (\<lambda>s v. jset (me_name s) (set_type (me_transport_type s) (me_config s)) v) servers (JObj [])"

definition pool_agents :: "string \<Rightarrow> catalog \<Rightarrow> string list" where
  "pool_agents eid cat = map snd (filter (\<lambda>p. fst p = eid) (ct_execution_agents cat))"

text \<open>\<open>INSERT OR IGNORE\<close>, one agent after the other.\<close>

definition insert_agent :: "string \<Rightarrow> string \<Rightarrow> catalog \<Rightarrow> catalog" where
  "insert_agent eid aid cat =
     (if (eid, aid) \<in> set (ct_execution_agents cat) then cat
      else cat\<lparr>ct_execution_agents := ct_execution_agents cat @ [(eid, aid)]\<rparr>)"

definition insert_batch :: "string \<Rightarrow> string list \<Rightarrow> catalog \<Rightarrow> catalog" where
  "insert_batch eid aids cat = fold (insert_agent eid) aids cat"

definition get_agent_by_name :: "string \<Rightarrow> db \<Rightarrow> scheduler_error + agent" where
  "get_agent_by_name n db = ok_or (map_db_error ''agent'' n)
     (sql_find (\<lambda>a. a_name a = n \<and> a_deleted_at a = None) (agents db))"

section \<open>Slugs\<close>

definition ADJECTIVES :: "string list" where
  "ADJECTIVES = [''bold'', ''brave'', ''bright'', ''calm'', ''clear'', ''cool'', ''crisp'', ''deft'', ''fair'', ''fast'',
     ''firm'', ''fond'', ''free'', ''glad'', ''gold'', ''keen'', ''kind'', ''lean'', ''live'', ''mild'', ''neat'', ''nova'',
     ''pale'', ''pure'', ''rare'', ''rich'', ''safe'', ''slim'', ''soft'', ''sure'', ''tall'', ''tame'', ''tidy'', ''true'',
     ''vast'', ''warm'', ''wide'', ''wild'', ''wise'', ''zen'']"

definition NOUNS :: "string list" where
  "NOUNS = [''arch'', ''bass'', ''beam'', ''bird'', ''bolt'', ''cape'', ''cave'', ''claw'', ''coil'', ''cone'', ''core'',
     ''crow'', ''dawn'', ''deer'', ''dove'', ''dusk'', ''edge'', ''fawn'', ''fern'', ''flag'', ''flux'', ''gate'', ''gale'',
     ''hawk'', ''haze'', ''iris'', ''jade'', ''kite'', ''lake'', ''lynx'', ''mesa'', ''mint'', ''moth'', ''muse'', ''node'',
     ''opal'', ''peak'', ''pine'', ''reed'', ''sage'']"

text \<open>The \<open>i\<close>-th draw of \<open>choose\<close> takes the element that the random number \<open>rng i\<close> selects.\<close>

definition pick :: "string list \<Rightarrow> nat \<Rightarrow> string" where
  "pick xs r = xs ! (r mod length xs)"

definition drawn_slug :: "(nat \<Rightarrow> nat) \<Rightarrow> nat \<Rightarrow> string" where
  "drawn_slug rng i = pick ADJECTIVES (rng (2 * i)) @ ''-'' @ pick NOUNS (rng (2 * i + 1))"

fun draw_slugs :: "nat \<Rightarrow> nat \<Rightarrow> (nat \<Rightarrow> nat) \<Rightarrow> string list \<Rightarrow> string" where
  "draw_slugs 0 i rng existing = drawn_slug rng i @ ''-'' @ nat_dec (length existing)"
| "draw_slugs (Suc n) i rng existing =
     (let slug = drawn_slug rng i in if slug \<in> set existing then draw_slugs n (i + 1) rng existing else slug)"

definition generate_slug :: "(nat \<Rightarrow> nat) \<Rightarrow> string list \<Rightarrow> string" where
  "generate_slug rng existing_sibling_slugs = draw_slugs 100 0 rng existing_sibling_slugs"

section \<open>The briefing\<close>

datatype briefing_role = BriefRootLead | BriefSubLead | BriefLeaf

record briefing_context =
  bc_role :: briefing_role
  bc_slug :: string
  bc_hierarchical_name :: string
  bc_agent_config_name :: string
  bc_parent_info :: string
  bc_project_id :: "string option"

record briefing_texts =
  bt_delegation :: string
  bt_escalate :: string
  bt_coordination :: string
  bt_messaging :: string
  bt_recovery :: string
  bt_rest_api :: string

definition nl :: string where "nl = [CHR 0x0A]"

fun role_label :: "briefing_role \<Rightarrow> string" where
  "role_label BriefRootLead = ''root lead''"
| "role_label BriefSubLead = ''sub-lead''"
| "role_label BriefLeaf = ''leaf''"

definition briefing_header :: "briefing_context \<Rightarrow> string" where
  "briefing_header ctx =
     ''# AgentBeacon Environment'' @ nl @
     ''You are **'' @ bc_hierarchical_name ctx @ ''** (config: `'' @ bc_agent_config_name ctx @ ''`), role: '' @
       role_label (bc_role ctx) @ ''.'' @ nl @
     ''Your slug: `'' @ bc_slug ctx @ ''`  '' @ nl @
     ''Hierarchical name: `'' @ bc_hierarchical_name ctx @ ''`  '' @ nl @
     ''Parent: '' @ bc_parent_info ctx"

definition titled :: "string \<Rightarrow> string \<Rightarrow> string" where
  "titled title t = ''## '' @ title @ nl @ t"

definition briefing_sections :: "briefing_context \<Rightarrow> briefing_texts \<Rightarrow> string list" where
  "briefing_sections ctx T =
     [briefing_header ctx] @
     (if bc_role ctx = BriefRootLead \<or> bc_role ctx = BriefSubLead then [titled ''Delegation'' (bt_delegation T)] else []) @
     (if bc_role ctx = BriefRootLead then [titled ''Escalate'' (bt_escalate T)] else []) @
     [titled ''Coordination'' (bt_coordination T)] @
     [titled ''Messaging'' (bt_messaging T)] @
     (if bc_role ctx = BriefRootLead \<or> bc_role ctx = BriefSubLead then [titled ''Recovery'' (bt_recovery T)] else []) @
     [titled ''REST API'' (bt_rest_api T)]"

definition build_environment_briefing_with_sections :: "briefing_context \<Rightarrow> briefing_texts \<Rightarrow> string" where
  "build_environment_briefing_with_sections ctx T = join (nl @ nl) (briefing_sections ctx T)"

definition get_config :: "string \<Rightarrow> db \<Rightarrow> string option" where
  "get_config n db = map_of (config db) n"

definition resolve_override_from_map :: "json option \<Rightarrow> string \<Rightarrow> string option" where
  "resolve_override_from_map briefing_map key =
     Option.bind briefing_map (\<lambda>m. Option.bind (strip_prefix ''briefing.'' key) (\<lambda>section. get_str m section))"

definition read_briefing_section :: "json option \<Rightarrow> db \<Rightarrow> string \<Rightarrow> string \<Rightarrow> string" where
  "read_briefing_section overrides db key fallback =
     (case resolve_override_from_map overrides key of
        Some v \<Rightarrow> v
      | None \<Rightarrow> (case get_config key db of Some v \<Rightarrow> v | None \<Rightarrow> fallback))"

definition load_project_briefing_overrides :: "string option \<Rightarrow> catalog \<Rightarrow> json option" where
  "load_project_briefing_overrides project_id cat =
     Option.bind project_id (\<lambda>pid. Option.bind (ok (get_project pid cat)) (\<lambda>p.
     Option.bind (from_str (p_settings p)) (\<lambda>settings. get settings ''briefing'')))"

definition build_environment_briefing :: "briefing_texts \<Rightarrow> catalog \<Rightarrow> db \<Rightarrow> briefing_context \<Rightarrow> string" where
  "build_environment_briefing T cat db ctx =
     (if get_config ''briefing.use_db_overrides'' db \<noteq> Some ''true'' then build_environment_briefing_with_sections ctx T
      else let ov = load_project_briefing_overrides (bc_project_id ctx) cat in
        build_environment_briefing_with_sections ctx
          \<lparr>bt_delegation = read_briefing_section ov db ''briefing.delegation'' (bt_delegation T),
           bt_escalate = read_briefing_section ov db ''briefing.escalate'' (bt_escalate T),
           bt_coordination = read_briefing_section ov db ''briefing.coordination'' (bt_coordination T),
           bt_messaging = read_briefing_section ov db ''briefing.messaging'' (bt_messaging T),
           bt_recovery = read_briefing_section ov db ''briefing.recovery'' (bt_recovery T),
           bt_rest_api = read_briefing_section ov db ''briefing.rest_api'' (bt_rest_api T)\<rparr>)"

definition prepend_briefing :: "string \<Rightarrow> string \<Rightarrow> string" where
  "prepend_briefing briefing existing_prompt =
     (if existing_prompt = [] then briefing else briefing @ nl @ ''---'' @ nl @ nl @ existing_prompt)"

section \<open>The agent's configuration\<close>

definition compose_agent_config :: "briefing_texts \<Rightarrow> catalog \<Rightarrow> db \<Rightarrow> agent \<Rightarrow> briefing_context \<Rightarrow> json" where
  "compose_agent_config T cat db agent ctx =
     (let agent_config = (case from_str (a_config agent) of
            Some v \<Rightarrow> if is_object v then v else JObj [] | None \<Rightarrow> JObj []);
          existing_prompt = (case a_system_prompt agent of None \<Rightarrow> [] | Some s \<Rightarrow> s) in
      jset ''system_prompt'' (JStr (prepend_briefing (build_environment_briefing T cat db ctx) existing_prompt)) agent_config)"

definition briefing_role_of :: "session \<Rightarrow> int \<Rightarrow> int \<Rightarrow> briefing_role" where
  "briefing_role_of s depth max_depth =
     (if s_parent_session_id s = None then BriefRootLead else if max_depth \<le> depth then BriefLeaf else BriefSubLead)"

definition briefing_context_for_session ::
  "session \<Rightarrow> agent \<Rightarrow> execution \<Rightarrow> db \<Rightarrow> scheduler_error + briefing_context" where
  "briefing_context_for_session session agent execution db =
     (let depth = int (compute_depth (s_id session) (s_execution_id session) db) in
      case hierarchical_name_for_session (s_id session) db of
        Inl e \<Rightarrow> Inl e
      | Inr hier_name \<Rightarrow>
          (case (case s_parent_session_id session of
              Some pid \<Rightarrow> hierarchical_name_for_session pid db | None \<Rightarrow> Inr ''user'') of
             Inl e \<Rightarrow> Inl e
           | Inr parent_info \<Rightarrow>
               Inr \<lparr>bc_role = briefing_role_of session depth (x_max_depth execution), bc_slug = own_name session,
                 bc_hierarchical_name = hier_name, bc_agent_config_name = a_name agent,
                 bc_parent_info = parent_info, bc_project_id = x_project_id execution\<rparr>))"

end
