(* ===== verification/Delegation.thy ===== *)
theory Delegation
  imports Briefing Cascade
begin

text \<open>
  \<open>scheduler/src/api/mcp_tools.rs\<close>: the tools by which an agent starts a child session and ends one.

  Arguments of the model are the JSON-schema validator (the text of its first complaint), the file
  system's \<open>canonicalize\<close>, fresh identifiers, random numbers and the briefing texts, in the record
  \<open>dl_env\<close>. What other requests do between two accesses to the database is \<open>dl_between\<close>. A
  missing member that the code unwraps is \<open>ToolPanic\<close>.
\<close>

section \<open>JSON-RPC\<close>

record json_rpc_error =
  je_code :: int
  je_message :: string

definition invalid_rpc_request :: "string \<Rightarrow> json_rpc_error" where
  "invalid_rpc_request message = \<lparr>je_code = -32600, je_message = message\<rparr>"

definition invalid_params :: "string \<Rightarrow> json_rpc_error" where
  "invalid_params message = \<lparr>je_code = -32602, je_message = message\<rparr>"

definition internal_error :: "string \<Rightarrow> json_rpc_error" where
  "internal_error message = \<lparr>je_code = -32603, je_message = message\<rparr>"

datatype tool_result = ToolOk json | ToolErr json_rpc_error | ToolPanic

record dl_env =
  dl_validate :: "json \<Rightarrow> json \<Rightarrow> (string \<times> string) option"
  dl_canonicalize :: "string \<Rightarrow> string + string"
  dl_new_id :: string
  dl_rng :: "nat \<Rightarrow> nat \<Rightarrow> nat"
  dl_texts :: briefing_texts
  dl_between :: "nat \<Rightarrow> db \<Rightarrow> db"
  dl_fuel :: nat
  dl_transition_env :: env
  dl_debug :: "rejected \<Rightarrow> string"

section \<open>Schemas\<close>

definition string_property :: "string \<Rightarrow> string \<times> json" where
  "string_property n = (n, JObj [(''type'', JStr ''string'')])"

text \<open>The input schemas, without the descriptions, which constrain nothing.\<close>

definition delegate_schema :: json where
  "delegate_schema = JObj [(''type'', JStr ''object''),
     (''properties'', JObj [string_property ''agent'', string_property ''prompt'', string_property ''cwd'']),
     (''required'', JArr [JStr ''agent'', JStr ''prompt''])]"

definition release_schema :: json where
  "release_schema = JObj [(''type'', JStr ''object''),
     (''properties'', JObj [string_property ''session_id'']), (''required'', JArr [JStr ''session_id''])]"

definition validate_tool_args :: "dl_env \<Rightarrow> json \<Rightarrow> json \<Rightarrow> json_rpc_error + unit" where
  "validate_tool_args env schema args =
     (case dl_validate env schema args of
        None \<Rightarrow> Inr ()
      | Some (path, err) \<Rightarrow>
          Inl (invalid_params (if path = [] then err else path @ '': '' @ err)))"

definition tools_list :: "mcp_session \<Rightarrow> string list" where
  "tools_list auth =
     (let at_max_depth = mc_max_depth auth \<le> mc_depth auth in
      case mc_role auth of
        RootLead \<Rightarrow> if at_max_depth then [] else [''delegate'', ''release'']
      | SubLead \<Rightarrow> [''delegate'', ''release'']
      | Leaf \<Rightarrow> [])"

section \<open>Replies\<close>

definition tool_reply :: "string \<Rightarrow> bool \<Rightarrow> json" where
  "tool_reply t is_error = JObj [(''content'', JArr [JObj [(''type'', JStr ''text''), (''text'', JStr t)]]),
     (''isError'', JBool is_error)]"

text \<open>The text of the one-member object that names the child, and of the confirmation of a release.\<close>

definition delegated_text :: "string \<Rightarrow> string" where
  "delegated_text sid = ''{'' @ CHR 0x22 # ''session_id'' @ CHR 0x22 # '':'' @ CHR 0x22 # sid @ CHR 0x22 # ''}''"

definition released_text :: string where
  "released_text = ''{'' @ CHR 0x22 # ''released'' @ CHR 0x22 # '':true}''"

definition em_dash :: string where "em_dash = [CHR 0xE2, CHR 0x80, CHR 0x94]"

section \<open>The working directory\<close>

fun climb_to_lead :: "nat \<Rightarrow> session \<Rightarrow> db \<Rightarrow> scheduler_error + session" where
  "climb_to_lead 0 current db = Inr current"
| "climb_to_lead (Suc n) current db =
     (case s_parent_session_id current of
        None \<Rightarrow> Inr current
      | Some parent_id \<Rightarrow>
          (case get_session parent_id db of Inl e \<Rightarrow> Inl e | Inr q \<Rightarrow> climb_to_lead n q db))"

definition find_lead_cwd :: "string \<Rightarrow> db \<Rightarrow> scheduler_error + string option" where
  "find_lead_cwd sid db =
     (case get_session sid db of
        Inl e \<Rightarrow> Inl e
      | Inr s \<Rightarrow> (case climb_to_lead 100 s db of Inl e \<Rightarrow> Inl e | Inr lead \<Rightarrow> Inr (s_cwd lead)))"

definition is_absolute :: "string \<Rightarrow> bool" where
  "is_absolute p \<longleftrightarrow> take 1 p = ''/''"

text \<open>\<open>Path::starts_with\<close>: whole components.\<close>

definition components :: "string \<Rightarrow> string list" where
  "components p = filter (\<lambda>c. c \<noteq> [] \<and> c \<noteq> ''.'') (split_on (CHR ''/'') p)"

definition path_starts_with :: "string \<Rightarrow> string \<Rightarrow> bool" where
  "path_starts_with p base \<longleftrightarrow> is_absolute p = is_absolute base \<and> prefix (components base) (components p)"

definition within_lead :: "dl_env \<Rightarrow> string \<Rightarrow> string \<Rightarrow> db \<Rightarrow> json_rpc_error + unit" where
  "within_lead env sid child_dir db =
     (case find_lead_cwd sid db of
        Inl e \<Rightarrow> Inl (internal_error (show_error e))
      | Inr None \<Rightarrow> Inl (invalid_params ''cannot verify cwd containment: lead session has no cwd'')
      | Inr (Some lead_dir) \<Rightarrow>
          (case dl_canonicalize env lead_dir of
             Inl e \<Rightarrow> Inl (internal_error (''canonicalize lead cwd failed: '' @ e))
           | Inr lead_canonical \<Rightarrow>
               (case dl_canonicalize env child_dir of
                  Inl _ \<Rightarrow> Inl (invalid_params (''cwd path does not exist: '' @ child_dir))
                | Inr child_canonical \<Rightarrow>
                    if path_starts_with child_canonical lead_canonical then Inr ()
                    else Inl (invalid_params ''child cwd must be within lead session's directory tree''))))"

section \<open>Checks before the child is created\<close>

text \<open>A reply that refuses, or what the checks found: execution, agent, directory and driver configuration.\<close>

definition delegate_checks ::
  "dl_env \<Rightarrow> mcp_session \<Rightarrow> string \<Rightarrow> string option \<Rightarrow> catalog \<Rightarrow> db \<Rightarrow>
   tool_result + execution \<times> agent \<times> string option \<times> json" where
  "delegate_checks env auth agent_name explicit_cwd cat pre =
     (if mc_desired auth = DStop then
        Inl (ToolOk (tool_reply (''session is stopped '' @ em_dash @ '' cannot delegate while stop is in effect'') True))
      else
        case get_execution (mc_execution_id auth) pre of
          Inl e \<Rightarrow> Inl (ToolErr (internal_error (show_error e)))
        | Inr x \<Rightarrow>
            if x_desired x = DTerminate \<or> x_outcome x \<noteq> None then
              Inl (ToolOk (tool_reply (if x_outcome x \<noteq> None then ''execution is already terminal''
                else ''execution is terminating'') True))
            else
              case get_agent_by_name agent_name pre of
                Inl _ \<Rightarrow> Inl (ToolErr (invalid_params (''agent not found: '' @ agent_name)))
              | Inr agent \<Rightarrow>
                  if \<not> a_enabled agent then Inl (ToolErr (invalid_params (''agent is disabled: '' @ agent_name)))
                  else if a_id agent \<notin> set (pool_agents (mc_execution_id auth) cat) then
                    Inl (ToolErr (invalid_params (''agent '' @ CHR 0x27 # agent_name @ CHR 0x27 # '' is not available in this execution. Available agents can be listed via the execution's agent pool.'')))
                  else
                    case get_session (mc_session_id auth) pre of
                      Inl e \<Rightarrow> Inl (ToolErr (internal_error (show_error e)))
                    | Inr parent \<Rightarrow>
                        let child_cwd = (case explicit_cwd of Some c \<Rightarrow> Some c | None \<Rightarrow> s_cwd parent);
                            dir = (case explicit_cwd of
                                None \<Rightarrow> Inr ()
                              | Some c \<Rightarrow> if \<not> is_absolute c then Inl (invalid_params (''cwd must be an absolute path: '' @ c))
                                  else within_lead env (mc_session_id auth) c pre) in
                        case dir of
                          Inl e \<Rightarrow> Inl (ToolErr e)
                        | Inr _ \<Rightarrow>
                            (case parse_sandbox_policy (mc_sandbox_policy auth) of
                               Inl e \<Rightarrow> Inl (ToolErr (internal_error (show_error e)))
                             | Inr policy \<Rightarrow>
                                 (case build_sandbox_driver_config policy of
                                    Inl e \<Rightarrow> Inl (ToolErr (internal_error (show_error e)))
                                  | Inr sandbox_config \<Rightarrow> Inr (x, agent, child_cwd, sandbox_config))))"

section \<open>Creating the child\<close>

fun starts_anywhere :: "string \<Rightarrow> string \<Rightarrow> bool" where
  "starts_anywhere needle [] \<longleftrightarrow> needle = []"
| "starts_anywhere needle (c # s) \<longleftrightarrow> prefix needle (c # s) \<or> starts_anywhere needle s"

text \<open>\<open>msg.to_lowercase()\<close> on the ASCII text of a driver's message.\<close>

definition unique_violation :: "scheduler_error \<Rightarrow> bool" where
  "unique_violation e \<longleftrightarrow>
     (case e of
        Database msg \<Rightarrow> starts_anywhere ''unique'' (map ascii_lower msg) \<or>
          starts_anywhere ''duplicate key'' (map ascii_lower msg)
      | _ \<Rightarrow> False)"

text \<open>\<open>attempt\<close> numbers the draws of random numbers; others act between an attempt and the next.\<close>

fun create_child ::
  "nat \<Rightarrow> nat \<Rightarrow> dl_env \<Rightarrow> mcp_session \<Rightarrow> agent \<Rightarrow> string option \<Rightarrow> string \<Rightarrow> db \<Rightarrow> (json_rpc_error + string) \<times> db" where
  "create_child 0 attempt env auth agent child_cwd slug db =
     (Inl (internal_error ''create child session failed: slug collision after 3 retries''), db)"
| "create_child (Suc n) attempt env auth agent child_cwd slug db =
     (case create_with_width_guard (dl_new_id env) (mc_execution_id auth) (a_id agent) (mc_session_id auth)
        child_cwd None (mc_max_width auth) slug (mc_sandbox_policy auth) db of
        (Inr True, db') \<Rightarrow> (Inr slug, db')
      | (Inr False, db') \<Rightarrow> (Inl (invalid_params (''Cannot delegate: maximum active children ('' @ int_dec (mc_max_width auth) @
          '') reached. Release idle children or wait for completions.'')), db')
      | (Inl e, db') \<Rightarrow>
          if unique_violation e then
            let db'' = dl_between env attempt db' in
            create_child n (attempt + 1) env auth agent child_cwd
              (generate_slug (dl_rng env attempt) (sibling_slugs (mc_session_id auth) db'')) db''
          else (Inl (internal_error (show_error e)), db'))"

section \<open>What is recorded and queued\<close>

definition delegate_event :: "string \<Rightarrow> string \<Rightarrow> string \<Rightarrow> json" where
  "delegate_event agent_name child prompt =
     JObj [(''role'', JStr ROLE_AGENT), (''parts'', JArr [JObj [(''data'', JObj [(''type'', JStr ''delegate''),
       (''agent'', JStr agent_name), (''child_session_id'', JStr child), (''prompt'', JStr prompt)])]])]"

definition child_prompt :: "string \<Rightarrow> string \<Rightarrow> string \<Rightarrow> json" where
  "child_prompt parent_name parent_id prompt =
     message_payload ROLE_USER [sender_part \<lparr>si_name = parent_name, si_session_id = parent_id\<rparr>, text_part prompt]"

definition is_sdk :: "agent \<Rightarrow> bool" where
  "is_sdk a \<longleftrightarrow> a_agent_type a \<in> {''claude_sdk'', ''copilot_sdk'', ''codex_sdk''}"

definition delegated_payload ::
  "agent \<Rightarrow> json \<Rightarrow> string \<Rightarrow> json \<Rightarrow> string option \<Rightarrow> string option \<Rightarrow> json \<Rightarrow> json" where
  "delegated_payload agent sandbox_config prompt agent_config child_cwd project servers =
     (let v = JObj [(''agent_id'', JStr (a_id agent)),
            (''driver'', JObj [(''platform'', JStr (a_agent_type agent)), (''config'', sandbox_config)]),
            (''message'', JObj [(''role'', JStr ROLE_USER), (''parts'', JArr [text_part prompt])])];
          v = (if is_sdk agent then v else jset ''agent_config'' agent_config v);
          v = opt_field ''cwd'' child_cwd v;
          v = opt_field ''project_id'' project v in
      if servers = JObj [] then v else jset ''mcp_servers'' servers v)"

definition child_role :: "mcp_session \<Rightarrow> briefing_role" where
  "child_role auth = (if mc_max_depth auth \<le> mc_depth auth + 1 then BriefLeaf else BriefSubLead)"

text \<open>The payload's servers: those of the project of the session's execution.\<close>

definition project_servers :: "string option \<Rightarrow> catalog \<Rightarrow> json" where
  "project_servers project cat =
     (case project of None \<Rightarrow> JObj [] | Some pid \<Rightarrow> build_mcp_servers_payload (list_by_project pid cat))"

section \<open>The commit\<close>

text \<open>
  \<open>DELETE FROM sessions WHERE id = ?\<close> with the schema's \<open>ON DELETE CASCADE\<close>: the sessions below go too,
  and the events and queued turns of all of them. A session that another one continues from cannot go.
\<close>

definition doomed :: "string \<Rightarrow> db \<Rightarrow> string list" where
  "doomed sid db = fold (\<lambda>s ids.
     if s_id s = sid \<or> (\<exists>p \<in> set ids. s_parent_session_id s = Some p) then ids @ [s_id s] else ids) (sessions db) []"

definition delete_session :: "string \<Rightarrow> db \<Rightarrow> db" where
  "delete_session sid db =
     (let gone = doomed sid db in
      if list_ex (\<lambda>s. s_id s \<notin> set gone \<and> (case s_continued_from_session_id s of None \<Rightarrow> False | Some c \<Rightarrow> c \<in> set gone)) (sessions db)
      then db
      else db\<lparr>sessions := sql_delete (\<lambda>s. s_id s \<in> set gone) (sessions db),
              task_queue := sql_delete (\<lambda>t. t_session_id t \<in> set gone) (task_queue db),
              events := sql_delete (\<lambda>e. case ev_session_id e of None \<Rightarrow> False | Some i \<Rightarrow> i \<in> set gone) (events db)\<rparr>)"

text \<open>A rechecked row no longer allows the child: its refusal, after which the child is deleted.\<close>

datatype commit_result = Committed | RaceLost string | CommitFailed string

definition delegate_body :: "mcp_session \<Rightarrow> string \<Rightarrow> jtext \<Rightarrow> jtext \<Rightarrow> jtext \<Rightarrow> (commit_result, commit_result) tx" where
  "delegate_body auth child delegate_event_str child_prompt_str task_payload =
     tx_bind (tx_try (\<lambda>e. CommitFailed (''recheck execution: '' @ show_error e)) (get_execution (mc_execution_id auth))) (\<lambda>x.
     tx_bind (tx_fail_if (x_desired x = DTerminate \<or> x_outcome x \<noteq> None)
       (RaceLost ''execution is terminating (concurrent race)'')) (\<lambda>_.
     tx_bind (tx_try (\<lambda>e. CommitFailed (''recheck parent session: '' @ show_error e)) (get_session (mc_session_id auth))) (\<lambda>p.
     tx_bind (tx_fail_if (s_desired p \<noteq> DRun \<or> s_outcome p \<noteq> None)
       (RaceLost (if s_outcome p \<noteq> None then ''parent session is terminal (concurrent race)''
          else ''parent session is stopped (concurrent race)''))) (\<lambda>_.
     tx_bind (tx_map_err (\<lambda>e. CommitFailed (''insert delegate event failed: '' @ show_error e))
       (insert_in_tx (Some (mc_session_id auth)) EvPlatform delegate_event_str)) (\<lambda>_.
     tx_bind (tx_map_err (\<lambda>e. CommitFailed (''insert child prompt failed: '' @ show_error e))
       (insert_in_tx (Some child) EvMessage child_prompt_str)) (\<lambda>_.
     tx_bind (tx_enqueue (mc_execution_id auth) child task_payload None) (\<lambda>_.
     tx_ret Committed)))))))"

definition commit_delegation ::
  "dl_env \<Rightarrow> mcp_session \<Rightarrow> nat \<Rightarrow> jtext \<Rightarrow> jtext \<Rightarrow> jtext \<Rightarrow> db \<Rightarrow> tool_result \<times> db" where
  "commit_delegation env auth attempt delegate_event_str child_prompt_str task_payload db =
     (case run_tx (\<lambda>e. CommitFailed (''begin transaction failed: '' @ show_error e)) (mc_execution_id auth)
        (delegate_body auth (dl_new_id env) delegate_event_str child_prompt_str task_payload) db of
        (Committed, db') \<Rightarrow> (ToolOk (tool_reply (delegated_text (dl_new_id env)) False), db')
      | (RaceLost reason, db') \<Rightarrow>
          (ToolOk (tool_reply reason True), delete_session (dl_new_id env) (dl_between env attempt db'))
      | (CommitFailed m, db') \<Rightarrow> (ToolErr (internal_error m), db'))"

text \<open>
  \<open>pre\<close> is the database of the checks, \<open>db\<close> the one at the first attempt to create the child; what
  is read after that comes from the database after the creation.
\<close>

definition handle_delegate :: "dl_env \<Rightarrow> mcp_session \<Rightarrow> json \<Rightarrow> catalog \<Rightarrow> db \<Rightarrow> db \<Rightarrow> tool_result \<times> db" where
  "handle_delegate env auth args cat pre db =
     (case validate_tool_args env delegate_schema args of
        Inl e \<Rightarrow> (ToolErr e, db)
      | Inr _ \<Rightarrow>
          (case (get_str args ''agent'', get_str args ''prompt'') of
             (Some agent_name, Some prompt) \<Rightarrow>
               (case delegate_checks env auth agent_name (get_str args ''cwd'') cat pre of
                  Inl r \<Rightarrow> (r, db)
                | Inr (x, agent, child_cwd, sandbox_config) \<Rightarrow>
                    (case create_child 3 1 env auth agent child_cwd
                        (generate_slug (dl_rng env 0) (sibling_slugs (mc_session_id auth) pre)) db of
                       (Inl e, db1) \<Rightarrow> (ToolErr e, db1)
                     | (Inr child_slug, db1) \<Rightarrow>
                         (case hierarchical_name_for_session (mc_session_id auth) db1 of
                            Inl e \<Rightarrow> (ToolErr (internal_error (show_error e)), db1)
                          | Inr parent_name \<Rightarrow>
                              let ctx = \<lparr>bc_role = child_role auth, bc_slug = child_slug,
                                    bc_hierarchical_name = parent_name @ ''/'' @ child_slug,
                                    bc_agent_config_name = a_name agent, bc_parent_info = parent_name,
                                    bc_project_id = x_project_id x\<rparr>;
                                  payload = delegated_payload agent sandbox_config prompt
                                    (compose_agent_config (dl_texts env) cat db1 agent ctx) child_cwd
                                    (mc_project_id auth) (project_servers (mc_project_id auth) cat) in
                              commit_delegation env auth 9
                                (to_string (delegate_event agent_name (dl_new_id env) prompt))
                                (to_string (child_prompt parent_name (mc_session_id auth) prompt))
                                (to_string payload) (dl_between env 8 db1))))
           | _ \<Rightarrow> (ToolPanic, db)))"

section \<open>Releasing\<close>

text \<open>A child that has ended already is released all the same.\<close>

fun refused_release :: "rejected + int option \<Rightarrow> rejected option" where
  "refused_release (Inr _) = None"
| "refused_release (Inl e) = (if e = Ratchet then None else Some e)"

definition handle_release :: "dl_env \<Rightarrow> mcp_session \<Rightarrow> json \<Rightarrow> db \<Rightarrow> db \<Rightarrow> (tool_result \<times> db) option" where
  "handle_release env auth args pre db =
     (case validate_tool_args env release_schema args of
        Inl e \<Rightarrow> Some (ToolErr e, db)
      | Inr _ \<Rightarrow>
          (case get_str args ''session_id'' of
             None \<Rightarrow> Some (ToolPanic, db)
           | Some target_id \<Rightarrow>
               (case get_session target_id pre of
                  Inl _ \<Rightarrow> Some (ToolErr (invalid_params (''session not found: '' @ target_id)), db)
                | Inr target \<Rightarrow>
                    if s_execution_id target \<noteq> mc_execution_id auth then
                      Some (ToolErr (invalid_params ''session does not belong to this execution''), db)
                    else if s_parent_session_id target \<noteq> Some (mc_session_id auth) then
                      Some (ToolErr (invalid_params ''session is not a child of this session''), db)
                    else
                      (case transition (dl_transition_env env) pre (s_execution_id target) target_id
                          (SetDesired DTerminate ''agent:release'') db of
                         (r, db1) \<Rightarrow>
                           (case refused_release r of
                              Some e \<Rightarrow> Some (ToolErr (internal_error (''release transition failed: '' @ dl_debug env e)), db1)
                            | None \<Rightarrow>
                               (case get_session target_id db1 of
                                  Inl _ \<Rightarrow> Some (ToolOk (tool_reply released_text False), db1)
                                | Inr target' \<Rightarrow>
                                    map_option (\<lambda>(_, db2). (ToolOk (tool_reply released_text False), db2))
                                      (cascade_children (dl_fuel env) (dl_transition_env env) target' db1)))))))"

definition handle_tools_call ::
  "dl_env \<Rightarrow> mcp_session \<Rightarrow> json \<Rightarrow> catalog \<Rightarrow> db \<Rightarrow> db \<Rightarrow> (tool_result \<times> db) option" where
  "handle_tools_call env auth params cat pre db =
     (case get_str params ''name'' of
        None \<Rightarrow> Some (ToolErr (invalid_params ''missing 'name' parameter''), db)
      | Some tool_name \<Rightarrow>
          let arguments = (case get params ''arguments'' of None \<Rightarrow> JObj [] | Some a \<Rightarrow> a) in
          if mc_role auth = Leaf then
            Some (ToolErr (invalid_rpc_request ''no tools available for this session role''), db)
          else if (tool_name = ''delegate'' \<or> tool_name = ''release'') \<and> mc_max_depth auth \<le> mc_depth auth then
            Some (ToolErr (invalid_rpc_request (''Cannot '' @ tool_name @ '': maximum hierarchy depth ('' @
              int_dec (mc_max_depth auth) @ '') reached. Handle this work directly.'')), db)
          else if tool_name = ''delegate'' then Some (handle_delegate env auth arguments cat pre db)
          else if tool_name = ''release'' then handle_release env auth arguments pre db
          else Some (ToolErr (invalid_params (''unknown tool: '' @ tool_name)), db))"

end
