(* ===== verification/Session_Routes.thy ===== *)
theory Session_Routes
  imports Delegation
begin

text \<open>
  The routes of \<open>scheduler/src/api/sessions.rs\<close> that end, recover and continue sessions.
  \<open>pre\<close> is what a request reads before its transaction. The wake-up of waiters, the broadcast and the
  rendering of the session in the reply of a recovery are left out.
\<close>

section \<open>Terminating\<close>

text \<open>\<open>debug\<close> is the \<open>Debug\<close> of a rejection.\<close>

definition terminate_route ::
  "nat \<Rightarrow> env \<Rightarrow> (rejected \<Rightarrow> string) \<Rightarrow> string \<Rightarrow> db \<Rightarrow> db \<Rightarrow> ((scheduler_error + unit) \<times> db) option" where
  "terminate_route fuel env debug i pre db =
     (case get_session i pre of
        Inl e \<Rightarrow> Some (Inl e, db)
      | Inr session \<Rightarrow>
      case terminate_session pre (s_execution_id session) i ''user'' db of
        (r, db) \<Rightarrow>
          if (case r of Inl e \<Rightarrow> e \<noteq> Ratchet | Inr _ \<Rightarrow> False) then
            Some (Inl (Database (''transition failed: '' @ debug (projl r))), db)
          else
            case (if r = Inl Ratchet \<and> s_parent_session_id session = None
              then repair_execution_for_terminal_root db i db else (Inr (), db)) of
              (Inl e, db) \<Rightarrow> Some (Inl e, db)
            | (Inr _, db) \<Rightarrow> cascade_from fuel env i db)"

section \<open>Recovering a failed session\<close>

definition live_agent :: "string \<Rightarrow> db \<Rightarrow> agent option" where
  "live_agent i db = sql_find (\<lambda>a. a_id a = i \<and> a_deleted_at a = None) (agents db)"

text \<open>The agent of the session, an error of the reader's own in place of a missing one.\<close>

definition enabled_agent :: "scheduler_error \<Rightarrow> scheduler_error \<Rightarrow> string \<Rightarrow> db \<Rightarrow> scheduler_error + agent" where
  "enabled_agent gone disabled i db =
     (case live_agent i db of
        None \<Rightarrow> Inl gone
      | Some a \<Rightarrow> if a_enabled a then Inr a else Inl disabled)"

definition recover_checks :: "string \<Rightarrow> string option \<Rightarrow> db \<Rightarrow> scheduler_error + session \<times> agent" where
  "recover_checks i message pre =
     (if (case message of None \<Rightarrow> False | Some m \<Rightarrow> 10000 < length (utf8_chars m)) then
        Inl (ValidationFailed ''message must be 10,000 characters or fewer'')
      else
      case get_session i pre of
        Inl e \<Rightarrow> Inl e
      | Inr session \<Rightarrow>
      if s_outcome session \<noteq> Some Failed then Inl (ValidationFailed ''session is not in failed state'')
      else
      case enabled_agent (ValidationFailed (''agent no longer exists '' @ em_dash @ '' cannot recover''))
          (ValidationFailed (''agent is disabled '' @ em_dash @ '' cannot recover'')) (s_agent_id session) pre of
        Inl e \<Rightarrow> Inl e
      | Inr agent \<Rightarrow>
      if \<not> is_sdk agent \<and> message = None then Inl (ValidationFailed ''non-resumable agent requires a message for recovery'')
      else
      case get_execution (s_execution_id session) pre of
        Inl e \<Rightarrow> Inl e
      | Inr x \<Rightarrow>
          if s_parent_session_id session \<noteq> None \<and> (x_desired x = DTerminate \<or> x_outcome x \<noteq> None) then
            Inl (ValidationFailed ''cannot recover child session under terminal or terminating execution'')
          else Inr (session, agent))"

definition root_terminal :: "string \<Rightarrow> db \<Rightarrow> bool" where
  "root_terminal eid db =
     (case sql_find (\<lambda>s. s_execution_id s = eid \<and> s_parent_session_id s = None) (sessions db) of
        None \<Rightarrow> False
      | Some r \<Rightarrow> s_desired r = DTerminate \<or> s_outcome r \<noteq> None)"

definition recovered_row :: "bool \<Rightarrow> timestamp \<Rightarrow> session \<Rightarrow> session" where
  "recovered_row clear_agent_session_id now s =
     s\<lparr>s_desired := DRun, s_executor_state := Unassigned, s_outcome := None, s_completed_at := None,
       s_recovery_attempts := 0, s_parent_notified := False, s_desired_by := Some ''user'', s_desired_at := Some now,
       s_updated_at := now, s_worker_id := None, s_command_token := None, s_command_type := None, s_command_at := None,
       s_command_has_payload := False,
       s_agent_session_id := (if clear_agent_session_id then None else s_agent_session_id s)\<rparr>"

definition recovery_event :: json where
  "recovery_event = JObj [(''desired'', JStr ''run''), (''recovery'', JBool True)]"

definition recovery_message :: "string \<Rightarrow> json" where
  "recovery_message msg = JObj [(''message'', message_payload ROLE_USER [text_part msg])]"

type_synonym 'a route_tx = "(scheduler_error + bool, 'a) tx"

definition live_ancestry :: "session \<Rightarrow> unit route_tx" where
  "live_ancestry session =
     (if s_parent_session_id session = None then tx_ret ()
      else
        tx_bind (tx_try (\<lambda>e. Inl (Database (''execution recheck: '' @ show_error e))) (get_execution (s_execution_id session))) (\<lambda>x.
        tx_bind (tx_fail_if (x_desired x = DTerminate \<or> x_outcome x \<noteq> None)
          (Inl (ValidationFailed ''execution became terminal during recovery''))) (\<lambda>_.
        tx_bind (tx_read (root_terminal (s_execution_id session))) (\<lambda>terminal.
        tx_fail_if terminal (Inl (Conflict ''session state changed concurrently''))))))"

definition reopen_execution :: "session \<Rightarrow> bool route_tx" where
  "reopen_execution session =
     (if s_parent_session_id session \<noteq> None then tx_ret False
      else
        tx_bind (tx_try (\<lambda>e. Inl (Database (''execution recheck: '' @ show_error e))) (get_execution (s_execution_id session))) (\<lambda>x.
        if x_desired x = DTerminate \<or> x_outcome x \<noteq> None then
          tx_bind (tx_update_executions (\<lambda>x. x_id x = s_execution_id session \<and> (x_desired x = DTerminate \<or> x_outcome x \<noteq> None))
            (\<lambda>now x. x\<lparr>x_desired := DRun, x_outcome := None, x_completed_at := None, x_updated_at := now\<rparr>)) (\<lambda>_.
          tx_ret True)
        else tx_ret False))"

definition recovery_state_event :: "string option \<Rightarrow> unit route_tx" where
  "recovery_state_event sid =
     tx_bind (tx_map_err (\<lambda>e. Inl (Database (''persist recovery event: '' @ show_error e)))
       (insert_in_tx sid EvStateChange (to_string recovery_event))) (\<lambda>_. tx_ret ())"

definition recover_body :: "session \<Rightarrow> agent \<Rightarrow> string option \<Rightarrow> (scheduler_error + bool) route_tx" where
  "recover_body session agent message =
     tx_bind (live_ancestry session) (\<lambda>_.
     tx_bind (tx_try Inl (enabled_agent (ValidationFailed ''agent deleted during recovery'')
       (ValidationFailed ''agent disabled during recovery'') (s_agent_id session))) (\<lambda>_.
     tx_bind (tx_update_sessions (\<lambda>s. s_id s = s_id session \<and> s_outcome s = Some Failed)
       (recovered_row (\<not> is_sdk agent \<and> s_agent_session_id session \<noteq> None))) (\<lambda>n.
     tx_bind (tx_fail_if (n = 0) (Inl (Conflict ''session state changed concurrently''))) (\<lambda>_.
     tx_bind (case message of None \<Rightarrow> tx_ret ()
       | Some m \<Rightarrow> tx_enqueue (s_execution_id session) (s_id session) (to_string (recovery_message m)) None) (\<lambda>_.
     tx_bind (reopen_execution session) (\<lambda>execution_recovered.
     tx_bind (recovery_state_event (Some (s_id session))) (\<lambda>_.
     tx_bind (if execution_recovered then recovery_state_event None else tx_ret ()) (\<lambda>_.
     tx_ret (Inr execution_recovered)))))))))"

definition recover_session :: "string \<Rightarrow> string option \<Rightarrow> db \<Rightarrow> db \<Rightarrow> (scheduler_error + bool) \<times> db" where
  "recover_session i message pre db =
     (case recover_checks i message pre of
        Inl e \<Rightarrow> (Inl e, db)
      | Inr (session, agent) \<Rightarrow>
          run_tx (\<lambda>e. Inl (Database (''begin recover tx: '' @ show_error e))) (s_execution_id session)
            (recover_body session agent message) db)"

section \<open>Continuing a session that has ended\<close>

text \<open>The new id and random numbers.\<close>

record continue_env =
  co_new_id :: string
  co_rng :: "nat \<Rightarrow> nat"

definition continue_checks :: "string \<Rightarrow> json list \<Rightarrow> db \<Rightarrow> scheduler_error + session \<times> string \<times> agent" where
  "continue_checks i parts pre =
     (case get_session i pre of
        Inl e \<Rightarrow> Inl e
      | Inr old \<Rightarrow>
      if \<not> has_deliverable_content parts then Inl (ValidationFailed ''parts must contain at least one non-empty text part'')
      else if s_outcome old = None then Inl (Conflict ''session is not terminal (outcome IS NULL)'')
      else
      case s_parent_session_id old of
        None \<Rightarrow> Inl (Conflict (''cannot continue a root session '' @ em_dash @ '' use re-run instead''))
      | Some parent_id \<Rightarrow>
      if s_command_token old \<noteq> None then Inl (Conflict ''session has a pending command (command_token IS NOT NULL)'')
      else if s_worker_id old \<noteq> None then Inl (Conflict ''session has a worker attached (worker_id IS NOT NULL)'')
      else
      case get_execution (s_execution_id old) pre of
        Inl e \<Rightarrow> Inl e
      | Inr x \<Rightarrow>
      if x_outcome x \<noteq> None \<or> x_desired x = DTerminate then
        Inl (Conflict ''execution is not alive (desired=terminate or outcome set)'')
      else
      case get_session parent_id pre of
        Inl e \<Rightarrow> Inl e
      | Inr parent \<Rightarrow>
      if s_outcome parent \<noteq> None \<or> s_desired parent = DTerminate then Inl (Conflict ''parent is not alive or is terminating'')
      else
      case enabled_agent (Conflict ''agent config no longer exists (deleted)'')
          (Conflict (''agent is disabled '' @ em_dash @ '' cannot continue'')) (s_agent_id old) pre of
        Inl e \<Rightarrow> Inl e
      | Inr agent \<Rightarrow> Inr (old, parent_id, agent))"

definition continue_prompt :: "json list \<Rightarrow> json" where
  "continue_prompt parts = JObj [(''message'', message_payload ROLE_USER parts)]"

definition continued_data :: "string \<Rightarrow> string \<Rightarrow> json" where
  "continued_data i new_id = JObj [(''type'', JStr ''child_continued''), (''old_session_id'', JStr i), (''new_session_id'', JStr new_id)]"

definition continued_notification :: "string \<Rightarrow> string \<Rightarrow> json" where
  "continued_notification i new_id =
     JObj [(''message'', JObj [(''role'', JStr ''ROLE_USER''), (''parts'', JArr
       [JObj [(''text'', JStr (''Child session continued from '' @ i @ '' as '' @ new_id @ ''.''))],
        JObj [(''data'', continued_data i new_id)]])])]"

type_synonym 'a continue_tx = "(scheduler_error + string, 'a) tx"

text \<open>The checks once more; the rows of the old session and of the parent.\<close>

definition continue_rechecks :: "session \<Rightarrow> string \<Rightarrow> (session \<times> session) continue_tx" where
  "continue_rechecks old parent_id =
     tx_bind (tx_try (\<lambda>e. Inl (Database (''recheck old session: '' @ show_error e))) (get_session (s_id old))) (\<lambda>row.
     tx_bind (tx_fail_if (s_outcome row = None \<or> s_command_token row \<noteq> None \<or> s_worker_id row \<noteq> None)
       (Inl (Conflict ''precondition race: old session state changed''))) (\<lambda>_.
     tx_bind (tx_try (\<lambda>e. Inl (Database (''recheck execution: '' @ show_error e))) (get_execution (s_execution_id old))) (\<lambda>x.
     tx_bind (tx_fail_if (x_outcome x \<noteq> None \<or> x_desired x \<noteq> DRun)
       (Inl (Conflict ''precondition race: execution is no longer alive/running''))) (\<lambda>_.
     tx_bind (tx_try (\<lambda>e. Inl (Database (''recheck parent: '' @ show_error e))) (get_session parent_id)) (\<lambda>parent.
     tx_bind (tx_fail_if (s_outcome parent \<noteq> None \<or> s_desired parent = DTerminate)
       (Inl (Conflict ''precondition race: parent is no longer alive or is terminating''))) (\<lambda>_.
     tx_bind (tx_try Inl (enabled_agent (Conflict ''agent deleted during continue_from'') (Conflict ''agent disabled during continue_from'')
       (s_agent_id old))) (\<lambda>_.
     tx_ret (row, parent))))))))"

text \<open>The row that continues the old one: its agent, directory, worktree and policy under a slug of its own.\<close>

definition continued_row :: "continue_env \<Rightarrow> session \<Rightarrow> string \<Rightarrow> db \<Rightarrow> session" where
  "continued_row env old parent_id db =
     (new_session (co_new_id env) (s_execution_id old) (s_agent_id old) (Some parent_id) (s_cwd old) (s_worktree_path old)
        (s_base_commit_sha old) (generate_slug (co_rng env) (sibling_slugs parent_id db)) (s_sandbox_policy old) (clock db))
      \<lparr>s_continued_from_session_id := Some (s_id old)\<rparr>"

definition insert_continued :: "session \<Rightarrow> unit continue_tx" where
  "insert_continued s t =
     (if insertable s (tx_db t) then Inr ((), tx_put (add_session s (tx_db t)) t)
      else Inl (Inl (Database (''create continued session: '' @ constraint_error s (tx_db t)))))"

text \<open>The worktree goes to the new session.\<close>

definition release_worktree :: "session \<Rightarrow> unit continue_tx" where
  "release_worktree old =
     (if s_worktree_path old = None then tx_ret ()
      else tx_bind (tx_update_sessions (\<lambda>s. s_id s = s_id old)
        (\<lambda>now s. s\<lparr>s_worktree_path := None, s_base_commit_sha := None, s_updated_at := now\<rparr>)) (\<lambda>_. tx_ret ()))"

text \<open>So does the agent's own session, if the agent can resume it.\<close>

definition transfer_agent_session :: "session \<Rightarrow> agent \<Rightarrow> session \<Rightarrow> string \<Rightarrow> unit continue_tx" where
  "transfer_agent_session old agent row new_id =
     (case (if is_sdk agent then s_agent_session_id row else None) of
        None \<Rightarrow> tx_ret ()
      | Some asid \<Rightarrow>
          tx_bind (tx_update_sessions (\<lambda>s. s_id s = new_id) (\<lambda>now s. s\<lparr>s_agent_session_id := Some asid, s_updated_at := now\<rparr>)) (\<lambda>_.
          tx_bind (tx_update_sessions (\<lambda>s. s_id s = s_id old \<and> s_agent_session_id s = Some asid)
            (\<lambda>now s. s\<lparr>s_agent_session_id := None, s_updated_at := now\<rparr>)) (\<lambda>n.
          tx_fail_if (n = 0) (Inl (Conflict ''concurrent continue_from: SDK session already transferred'')))))"

definition continue_event :: "string \<Rightarrow> string \<Rightarrow> event_type \<Rightarrow> json \<Rightarrow> unit continue_tx" where
  "continue_event what sid ty payload =
     tx_bind (tx_map_err (\<lambda>e. Inl (Database (what @ show_error e))) (insert_in_tx (Some sid) ty (to_string payload))) (\<lambda>_. tx_ret ())"

text \<open>What the new session takes over, its prompt, and the word to the parent.\<close>

definition hand_over :: "session \<Rightarrow> string \<Rightarrow> agent \<Rightarrow> json list \<Rightarrow> session \<Rightarrow> session \<Rightarrow> string \<Rightarrow> (scheduler_error + string) continue_tx" where
  "hand_over old parent_id agent parts row parent new_id =
     tx_bind (release_worktree old) (\<lambda>_.
     tx_bind (transfer_agent_session old agent row new_id) (\<lambda>_.
     tx_bind (continue_event ''insert prompt event: '' new_id EvMessage (continue_prompt parts)) (\<lambda>_.
     tx_bind (tx_enqueue (s_execution_id old) new_id (to_string (continue_prompt parts)) (Some ''user'')) (\<lambda>_.
     tx_bind (if s_desired parent = DStop
       then resume_parent (\<lambda>e. Inl (Database (''auto-resume state_change event: '' @ show_error e))) parent_id ''system:continue_from_notify''
       else tx_ret ()) (\<lambda>_.
     tx_bind (tx_enqueue (s_execution_id old) parent_id (to_string (continued_notification (s_id old) new_id))
       (Some (''child_result:'' @ new_id))) (\<lambda>_.
     tx_bind (continue_event ''insert platform event: '' parent_id EvPlatform (continued_data (s_id old) new_id)) (\<lambda>_.
     tx_ret (Inr new_id))))))))"

definition continue_body :: "continue_env \<Rightarrow> session \<Rightarrow> string \<Rightarrow> agent \<Rightarrow> json list \<Rightarrow> (scheduler_error + string) continue_tx" where
  "continue_body env old parent_id agent parts =
     tx_bind (continue_rechecks old parent_id) (\<lambda>(row, parent).
     tx_bind (tx_read (continued_row env old parent_id)) (\<lambda>new.
     tx_bind (tx_try Inl (\<lambda>_. parse_sandbox_policy (s_sandbox_policy old))) (\<lambda>_.
     tx_bind (insert_continued new) (\<lambda>_.
     hand_over old parent_id agent parts row parent (co_new_id env)))))"

definition continue_from :: "continue_env \<Rightarrow> string \<Rightarrow> json list \<Rightarrow> db \<Rightarrow> db \<Rightarrow> (scheduler_error + string) \<times> db" where
  "continue_from env i parts pre db =
     (case continue_checks i parts pre of
        Inl e \<Rightarrow> (Inl e, db)
      | Inr (old, parent_id, agent) \<Rightarrow>
          run_tx (\<lambda>e. Inl (Database (''begin continue_from tx: '' @ show_error e))) (s_execution_id old)
            (continue_body env old parent_id agent parts) db)"

end
