(* ===== verification/Session_Routes_Facts.thy ===== *)
theory Session_Routes_Facts
  imports Session_Routes
begin

text \<open>
  The routes on session rows as steps: a continuation is a good step; a recovery keeps the database well formed,
  every session in its place and the log growing, but it undoes an outcome, so it is no step.
\<close>

section \<open>Continuing\<close>

lemma step_hand_over: "tx_keeps tx_step (hand_over old p agent parts row parent i)"
  unfolding hand_over_def release_worktree_def transfer_agent_session_def continue_event_def
  by (intro step_rules step_resume_parent) (auto simp: session_step_def session_wf_def)

lemma ended_hand_over: "tx_keeps (\<lambda>t t'. ended_within A (tx_db t) (tx_db t')) (hand_over old p agent parts row parent i)"
  unfolding hand_over_def release_worktree_def transfer_agent_session_def continue_event_def
  by (intro ended_rules ended_resume_parent) auto

lemma continue_rechecks_iff:
  "continue_rechecks old p t = Inr (rp, t') \<longleftrightarrow> t' = t \<and>
     session_row (s_id old) (tx_db t) = Some (fst rp) \<and> session_row p (tx_db t) = Some (snd rp) \<and>
     s_outcome (fst rp) \<noteq> None \<and> s_command_token (fst rp) = None \<and> s_worker_id (fst rp) = None \<and>
     s_outcome (snd rp) = None \<and> s_desired (snd rp) \<noteq> DTerminate \<and>
     (\<exists>x. execution_row (s_execution_id old) (tx_db t) = Some x \<and> x_outcome x = None \<and> x_desired x = DRun) \<and>
     (\<exists>a. live_agent (s_agent_id old) (tx_db t) = Some a \<and> a_enabled a)"
  by (cases rp) (auto simp: continue_rechecks_def tx_iffs enabled_agent_def split: option.splits if_splits)

lemma aborts_err_enqueue: "aborts_err (tx_enqueue eid sid p src)"
  by (simp add: aborts_err_def tx_enqueue_def)

lemma aborts_insert_continued: "aborts_err (insert_continued s)"
  by (simp add: aborts_err_def insert_continued_def)

lemma aborts_hand_over: "aborts_err (hand_over old p agent parts row parent i)"
  unfolding hand_over_def release_worktree_def transfer_agent_session_def continue_event_def resume_parent_def
  by (intro aborts_err_rules aborts_err_enqueue)

lemma continued_row_sel [simp]:
  "s_id (continued_row env old p d) = co_new_id env"
  "s_execution_id (continued_row env old p d) = s_execution_id old"
  "s_parent_session_id (continued_row env old p d) = Some p"
  "s_agent_id (continued_row env old p d) = s_agent_id old"
  "s_outcome (continued_row env old p d) = None"
  by (simp_all add: continued_row_def new_session_def)

lemma session_wf_continued: "session_wf (continued_row env old p d)"
  by (simp add: session_wf_def continued_row_def new_session_def)

lemma slug_nonempty: "generate_slug rng existing \<noteq> []"
proof -
  have "draw_slugs n i rng existing \<noteq> []" for n i
    by (induction n arbitrary: i) (simp_all add: drawn_slug_def Let_def)
  then show ?thesis by (simp add: generate_slug_def)
qed

text \<open>What a continuation that goes through found, up to the hand-over.\<close>

lemma continue_body_Inr:
  assumes "continue_body env old p agent parts t = Inr (r, t')"
  obtains row parent where "continue_rechecks old p t = Inr ((row, parent), t)"
    "insertable (continued_row env old p (tx_db t)) (tx_db t)"
    "hand_over old p agent parts row parent (co_new_id env)
       (tx_put (add_session (continued_row env old p (tx_db t)) (tx_db t)) t) = Inr (r, t')"
  using assms
  by (auto simp: continue_body_def tx_iffs insert_continued_def continue_rechecks_iff split: if_splits)

lemma aborts_continue: "aborts_err (continue_body env old p agent parts)"
  unfolding continue_body_def continue_rechecks_def
  by (intro aborts_err_rules aborts_hand_over aborts_insert_continued)

lemma continue_checks_Inr:
  assumes "continue_checks i parts pre = Inr (old, p, agent)"
  shows "session_row i pre = Some old \<and> s_id old = i \<and> s_parent_session_id old = Some p \<and> s_outcome old \<noteq> None \<and>
    has_deliverable_content parts \<and> live_agent (s_agent_id old) pre = Some agent \<and> a_enabled agent"
  using assms session_rowD [of i pre]
  by (auto simp: continue_checks_def enabled_agent_def get_session_def get_execution_def split: if_splits sum.splits option.splits)

lemma add_continued_step:
  assumes old: "recalls pre d" "session_row (s_id old) pre = Some old" "s_parent_session_id old = Some p"
    and row: "session_row (s_id old) d = Some row"
    and ins: "insertable (continued_row env old p d) d"
  shows "good_step d (add_session (continued_row env old p d) d)"
proof -
  let ?s = "continued_row env old p d"
  have "good_step d (add_session ?s d)" if wf: "db_wf d"
  proof (rule add_session_good_step [OF ins session_wf_continued])
    show "s_execution_id q = s_execution_id ?s" if par: "s_parent_session_id ?s = Some p'" and q: "session_row p' d = Some q" for p' q
    proof -
      have "same_place old row" using recalls_session [OF old(1,2) row] .
      then have "row \<in> set (sessions d)" "s_parent_session_id row = Some p" "s_execution_id row = s_execution_id old"
        using session_rowD [OF row] old(3) by (simp_all add: same_place_def)
      then have "map_option s_execution_id (session_row p d) = Some (s_execution_id old)"
        using wf by (fastforce simp: db_wf_def)
      with par q show ?thesis by simp
    qed
  qed simp_all
  moreover have "evolves d (add_session ?s d)" using ins by (intro evolves_add_session) (simp add: insertable_iff)
  ultimately show ?thesis by (auto simp: good_step_def db_step_def appends_same)
qed

lemma tx_good_step:
  assumes "tx_keeps tx_step m" and "tx_keeps (\<lambda>t t'. ended_within {} (tx_db t) (tx_db t')) m" and "m t = Inr (r, t')"
    and "tx_verified t = []"
  shows "good_step (tx_db t) (tx_db t')"
proof -
  have step: "tx_step t t'" and ended: "ended_within {} (tx_db t) (tx_db t')"
    using assms by (auto dest: tx_keepsD)
  then have "db_step (tx_db t) (tx_db t')" using assms(4) by (auto simp: tx_step_def tx_ok_def db_step_def)
  moreover have "roots_closed (tx_db t')" if "db_wf (tx_db t)" "roots_closed (tx_db t)"
    by (rule roots_closed_ended [OF that(2,1) _ ended]) (use step in \<open>auto simp: tx_step_def\<close>)
  ultimately show ?thesis by (simp add: good_step_def)
qed

text \<open>A continuation is a good step, however old the rows it was prepared from.\<close>

lemma continue_from_good_step:
  assumes "recalls pre d" and run: "continue_from env i parts pre d = (r, d')"
  shows "good_step d d'"
proof (cases "continue_checks i parts pre")
  case (Inl e)
  with run show ?thesis by (simp add: continue_from_def)
next
  case (Inr b)
  obtain old p agent where b: "b = (old, p, agent)" by (cases b)
  note checks = continue_checks_Inr [OF Inr [unfolded b]]
  have "run_tx (\<lambda>e. Inl (Database (''begin continue_from tx: '' @ show_error e))) (s_execution_id old)
      (continue_body env old p agent parts) d = (r, d')" using run Inr b by (simp add: continue_from_def)
  then show ?thesis
  proof (cases rule: run_tx_cases)
    case unchanged
    then show ?thesis by simp
  next
    case (committed t t')
    from committed(3) obtain row parent where re: "continue_rechecks old p t = Inr ((row, parent), t)"
      and ins: "insertable (continued_row env old p (tx_db t)) (tx_db t)"
      and rest: "hand_over old p agent parts row parent (co_new_id env)
         (tx_put (add_session (continued_row env old p (tx_db t)) (tx_db t)) t) = Inr (r, t')"
      by (rule continue_body_Inr)
    have "good_step d (add_session (continued_row env old p d) d)"
      using add_continued_step [OF assms(1), of old p row env] checks ins re by (simp add: committed(1) continue_rechecks_iff)
    moreover have "good_step (add_session (continued_row env old p d) d) d'"
      using tx_good_step [OF step_hand_over ended_hand_over rest] by (simp add: committed)
    ultimately show ?thesis by (rule good_step_trans)
  qed
qed

end
