(* ===== verification/Recovery_Facts.thy ===== *)
theory Recovery_Facts
  imports Session_Routes_Facts
begin

text \<open>
  The database that a recovery leaves, as one expression, and what it keeps: well-formed rows, closed executions, the
  place of every session and the log. It is no step, since it takes back an outcome.
\<close>

section \<open>The transaction\<close>

text \<open>The database a recovery leaves.\<close>

definition recovered_db :: "session \<Rightarrow> agent \<Rightarrow> string option \<Rightarrow> bool \<Rightarrow> db \<Rightarrow> db" where
  "recovered_db session agent message reopened d =
     (let eid = s_execution_id session;
          d = update_sessions (\<lambda>s. s_id s = s_id session \<and> s_outcome s = Some Failed)
            (recovered_row (\<not> is_sdk agent \<and> s_agent_session_id session \<noteq> None)) d;
          d = (case message of None \<Rightarrow> d | Some m \<Rightarrow> enqueue eid (s_id session) (to_string (recovery_message m)) None d);
          d = (if reopened then update_executions (\<lambda>x. x_id x = eid \<and> (x_desired x = DTerminate \<or> x_outcome x \<noteq> None))
            (\<lambda>now x. x\<lparr>x_desired := DRun, x_outcome := None, x_completed_at := None, x_updated_at := now\<rparr>) d else d);
          d = add_event eid (Some (s_id session)) EvStateChange (to_string recovery_event) None d in
      if reopened then add_event eid None EvStateChange (to_string recovery_event) None d else d)"

lemma live_ancestry_iff:
  "live_ancestry session t = Inr (u, t') \<longleftrightarrow> t' = t \<and> (s_parent_session_id session \<noteq> None \<longrightarrow>
     (\<exists>x. execution_row (s_execution_id session) (tx_db t) = Some x \<and> x_desired x \<noteq> DTerminate \<and> x_outcome x = None) \<and>
     \<not> root_terminal (s_execution_id session) (tx_db t))"
  by (auto simp: live_ancestry_def tx_iffs)

lemma reopen_execution_iff:
  "reopen_execution session t = Inr (b, t') \<longleftrightarrow>
     (if s_parent_session_id session \<noteq> None then \<not> b \<and> t' = t
      else \<exists>x. execution_row (s_execution_id session) (tx_db t) = Some x \<and> b = (x_desired x = DTerminate \<or> x_outcome x \<noteq> None) \<and>
        t' = (if b then tx_put (update_executions
            (\<lambda>x. x_id x = s_execution_id session \<and> (x_desired x = DTerminate \<or> x_outcome x \<noteq> None))
            (\<lambda>now x. x\<lparr>x_desired := DRun, x_outcome := None, x_completed_at := None, x_updated_at := now\<rparr>) (tx_db t)) t else t))"
  by (auto simp: reopen_execution_def tx_iffs)

lemma recovery_state_event_db:
  assumes "recovery_state_event sid t = Inr (u, t')"
  shows "tx_db t' = add_event (tx_execution_id t) sid EvStateChange (to_string recovery_event) None (tx_db t)"
    and "tx_execution_id t' = tx_execution_id t"
  using assms by (auto simp: recovery_state_event_def tx_iffs dest: insert_in_tx_db)

lemma aborts_recover: "aborts_err (recover_body session agent m)"
  unfolding recover_body_def live_ancestry_def reopen_execution_def recovery_state_event_def
  by (intro aborts_err_rules aborts_err_enqueue)

lemma recover_body_Inr:
  assumes "recover_body session agent m t = Inr (r, t')" and scope: "tx_execution_id t = s_execution_id session"
  obtains b where "r = Inr b" "live_ancestry session t = Inr ((), t)"
    "\<exists>s \<in> set (sessions (tx_db t)). s_id s = s_id session \<and> s_outcome s = Some Failed"
    "\<exists>a. live_agent (s_agent_id session) (tx_db t) = Some a \<and> a_enabled a"
    "if s_parent_session_id session \<noteq> None then \<not> b
     else \<exists>x. execution_row (s_execution_id session) (tx_db t) = Some x \<and> b = (x_desired x = DTerminate \<or> x_outcome x \<noteq> None)"
    "tx_db t' = recovered_db session agent m b (tx_db t)"
proof -
  from assms obtain t1 t2 t3 b where 1: "live_ancestry session t = Inr ((), t)"
      "\<exists>a. live_agent (s_agent_id session) (tx_db t) = Some a \<and> a_enabled a"
      "sql_count (\<lambda>s. s_id s = s_id session \<and> s_outcome s = Some Failed) (sessions (tx_db t)) \<noteq> 0" "r = Inr b"
    and t1: "t1 = (let t0 = tx_put (update_sessions (\<lambda>s. s_id s = s_id session \<and> s_outcome s = Some Failed)
            (recovered_row (\<not> is_sdk agent \<and> s_agent_session_id session \<noteq> None)) (tx_db t)) t in
          case m of None \<Rightarrow> t0
          | Some m \<Rightarrow> tx_put (enqueue (s_execution_id session) (s_id session) (to_string (recovery_message m)) None (tx_db t0)) t0)"
    and t2: "reopen_execution session t1 = Inr (b, t2)"
    and t3: "recovery_state_event (Some (s_id session)) t2 = Inr ((), t3)"
    and t': "if b then recovery_state_event None t3 = Inr ((), t') else t' = t3"
    unfolding recover_body_def
    by (cases m) (auto simp: tx_iffs live_ancestry_iff enabled_agent_def tx_enqueue_iff split: option.splits if_splits)
  have row: "execution_row i (tx_db t1) = execution_row i (tx_db t)" and s1: "tx_execution_id t1 = s_execution_id session" for i
    by (cases m; simp add: t1 scope Let_def)+
  have s2: "tx_execution_id t2 = s_execution_id session" using t2 s1 by (auto simp: reopen_execution_iff split: if_splits)
  note t3 = recovery_state_event_db [OF t3]
  have t': "tx_db t' = (if b then add_event (s_execution_id session) None EvStateChange (to_string recovery_event) None (tx_db t3) else tx_db t3)"
    using t' s2 t3(2) recovery_state_event_db(1) [of None t3 "()" t'] by auto
  have "tx_db t' = recovered_db session agent m b (tx_db t)"
    unfolding t' t3(1) s2 recovered_db_def Let_def
    using t2 by (cases m) (auto simp: t1 reopen_execution_iff Let_def simp del: not_None_eq split: if_splits)
  moreover have "\<exists>s \<in> set (sessions (tx_db t)). s_id s = s_id session \<and> s_outcome s = Some Failed"
    using 1(3) by (auto simp: sql_count_def filter_empty_conv)
  ultimately show ?thesis
    using that 1 t2 row by (auto simp: reopen_execution_iff split: if_splits)
qed


section \<open>What it keeps\<close>

text \<open>An enqueued payload that is JSON, an update of executions and an event keep a database well formed.\<close>

lemma recovered_db_wf:
  assumes wf: "db_wf d" and s: "session_row (s_id session) d = Some s" "s_execution_id s = s_execution_id session"
  shows "db_wf (recovered_db session agent m b d)"
proof -
  define d1 where "d1 = update_sessions (\<lambda>s. s_id s = s_id session \<and> s_outcome s = Some Failed)
      (recovered_row (\<not> is_sdk agent \<and> s_agent_session_id session \<noteq> None)) d"
  define d2 where "d2 = (case m of None \<Rightarrow> d1
      | Some m \<Rightarrow> enqueue (s_execution_id session) (s_id session) (to_string (recovery_message m)) None d1)"
  define d3 where "d3 = (if b then update_executions (\<lambda>x. x_id x = s_execution_id session \<and> (x_desired x = DTerminate \<or> x_outcome x \<noteq> None))
      (\<lambda>now x. x\<lparr>x_desired := DRun, x_outcome := None, x_completed_at := None, x_updated_at := now\<rparr>) d2 else d2)"
  have "db_wf d1" unfolding d1_def using wf
    by (intro db_wf_update_places) (simp_all add: same_place_def recovered_row_def session_wf_def)
  then have "db_wf d2" by (auto simp: d2_def db_wf_enqueue split: option.splits)
  then have w3: "db_wf d3" unfolding d3_def by (auto intro!: db_wf_update_execution_rows simp: execution_wf_def)
  have "session_row (s_id session) d1 = Some (if s_outcome s = Some Failed
      then recovered_row (\<not> is_sdk agent \<and> s_agent_session_id session \<noteq> None) (clock d) s else s)"
    unfolding d1_def using s by (subst session_row_update_id) (auto simp: recovered_row_def)
  then have owner: "map_option s_execution_id (session_row (s_id session) d3) = Some (s_execution_id session)"
    using s(2) by (simp add: d3_def d2_def recovered_row_def split: option.splits)
  have "recovered_db session agent m b d = (let d4 = add_event (s_execution_id session) (Some (s_id session)) EvStateChange (to_string recovery_event) None d3
      in if b then add_event (s_execution_id session) None EvStateChange (to_string recovery_event) None d4 else d4)"
    unfolding d3_def d2_def d1_def recovered_db_def Let_def by (rule refl)
  then show ?thesis using w3 owner by (auto simp: Let_def intro!: db_wf_add_event)
qed

text \<open>Where the rows end up.\<close>

lemma recovered_db_sessions:
  "session_row j (recovered_db session agent m b d) = session_row j (update_sessions (\<lambda>s. s_id s = s_id session \<and> s_outcome s = Some Failed)
     (recovered_row (\<not> is_sdk agent \<and> s_agent_session_id session \<noteq> None)) d)"
  by (simp add: recovered_db_def Let_def split: option.splits)

lemma recovered_db_rows:
  "session_row j (recovered_db session agent m b d) =
     (if j = s_id session then map_option (\<lambda>s. if s_outcome s = Some Failed
        then recovered_row (\<not> is_sdk agent \<and> s_agent_session_id session \<noteq> None) (clock d) s else s) (session_row j d)
      else session_row j d)"
  unfolding recovered_db_sessions by (subst session_row_update_id) (auto simp: recovered_row_def)

lemma recovered_db_executions:
  "execution_row e (recovered_db session agent m b d) =
     (if e = s_execution_id session \<and> b then map_option (\<lambda>x. if x_desired x = DTerminate \<or> x_outcome x \<noteq> None
        then x\<lparr>x_desired := DRun, x_outcome := None, x_completed_at := None, x_updated_at := clock d\<rparr> else x) (execution_row e d)
      else execution_row e d)"
proof -
  have "clock (case m of None \<Rightarrow> d' | Some m \<Rightarrow> enqueue i j (f m) None d') = clock d'"
    "execution_row e (case m of None \<Rightarrow> d' | Some m \<Rightarrow> enqueue i j (f m) None d') = execution_row e d'" for d' i j f
    by (simp_all split: option.splits)
  then show ?thesis using execution_rowD [of e d]
    by (cases "execution_row e d") (auto simp: recovered_db_def Let_def execution_row_update)
qed

lemma recovered_db_inbox:
  "inbox_of j (recovered_db session agent m b d) = inbox_of j d @ (case m of None \<Rightarrow> []
     | Some m \<Rightarrow> if j = s_id session then [\<lparr>ta_execution_id = s_execution_id session, ta_session_id = s_id session, ta_payload = recovery_message m\<rparr>] else [])"
  by (cases m) (simp_all add: recovered_db_def Let_def inbox_of_enqueue)

lemma recovered_db_appends: "appends d (recovered_db session agent m b d)"
  by (cases m; cases b) (auto simp: recovered_db_def Let_def appends_def new_event_def)


lemma root_unique:
  assumes "db_wf d" and "session_row i d = Some r" "s_parent_session_id r = None" and "session_row j d = Some s" "s_parent_session_id s = None"
    and "s_execution_id r = s_execution_id s"
  shows "r = s"
proof -
  have "inj_on s_execution_id {s \<in> set (sessions d). s_parent_session_id s = None}"
    using assms(1) by (simp add: db_wf_def distinct_map)
  then show ?thesis using assms(2-) by (auto simp: inj_on_def dest!: session_rowD)
qed

text \<open>Why a recovery that goes through was let through.\<close>

lemma recover_session_Inr:
  assumes run: "recover_session i m pre d = (Inr b, d')" and pre: "recalls pre d" and wf: "db_wf d"
  obtains s session agent where "session_row i d = Some s" "s_outcome s = Some Failed" "same_place session s" "s_id session = i"
    "m = None \<Longrightarrow> is_sdk agent"
    "s_parent_session_id s \<noteq> None \<Longrightarrow> \<not> b \<and> (\<exists>x. execution_row (s_execution_id s) d = Some x \<and> x_desired x \<noteq> DTerminate \<and> x_outcome x = None)"
    "s_parent_session_id s = None \<Longrightarrow> \<exists>x. execution_row (s_execution_id s) d = Some x \<and> b = (x_desired x = DTerminate \<or> x_outcome x \<noteq> None)"
    "d' = recovered_db session agent m b d"
proof -
  obtain session agent where c: "recover_checks i m pre = Inr (session, agent)"
    and tx: "run_tx (\<lambda>e. Inl (Database (''begin recover tx: '' @ show_error e))) (s_execution_id session) (recover_body session agent m) d = (Inr b, d')"
    using run by (auto simp: recover_session_def split: sum.splits)
  have old: "session_row i pre = Some session" and sdk: "m = None \<Longrightarrow> is_sdk agent"
    using c by (auto simp: recover_checks_def get_session_def split: sum.splits option.splits if_splits)
  have id: "s_id session = i" using session_rowD [OF old] by simp
  obtain t' where body: "recover_body session agent m \<lparr>tx_db = d, tx_execution_id = s_execution_id session, tx_verified = []\<rparr> = Inr (Inr b, t')"
    and d': "d' = tx_db t'"
    by (rule run_tx_committed [OF tx _ aborts_recover]) auto
  show ?thesis
  proof (rule recover_body_Inr [OF body])
    fix b' assume b': "Inr b = (Inr b' :: scheduler_error + bool)"
      and anc: "live_ancestry session \<lparr>tx_db = d, tx_execution_id = s_execution_id session, tx_verified = []\<rparr> =
        Inr ((), \<lparr>tx_db = d, tx_execution_id = s_execution_id session, tx_verified = []\<rparr>)"
      and failed: "\<exists>s \<in> set (sessions (tx_db \<lparr>tx_db = d, tx_execution_id = s_execution_id session, tx_verified = []\<rparr>)).
        s_id s = s_id session \<and> s_outcome s = Some Failed"
      and root: "if s_parent_session_id session \<noteq> None then \<not> b'
        else \<exists>x. execution_row (s_execution_id session) (tx_db \<lparr>tx_db = d, tx_execution_id = s_execution_id session, tx_verified = []\<rparr>) = Some x \<and>
          b' = (x_desired x = DTerminate \<or> x_outcome x \<noteq> None)"
      and res: "tx_db t' = recovered_db session agent m b' (tx_db \<lparr>tx_db = d, tx_execution_id = s_execution_id session, tx_verified = []\<rparr>)"
    have "session_row i d \<noteq> None"
      using failed id by (auto simp: session_row_def sql_find_None_iff simp del: not_None_eq)
    then obtain s where s: "session_row i d = Some s" "same_place session s"
      using recalls_session [OF pre old] by blast
    have "s_outcome s = Some Failed"
      using failed s(1) wf id by (auto simp: db_wf_def session_row_def sql_find_key_iff)
        (metis (no_types, lifting) inj_onD distinct_map)
    with s show ?thesis
      using anc root res b' d' sdk id by (intro that [of s session agent]) (auto simp: same_place_def live_ancestry_iff split: if_splits)
  qed simp
qed

lemma recovered_roots_closed:
  assumes wf: "db_wf d" and roots: "roots_closed d" and s: "session_row i d = Some s" "s_outcome s = Some Failed" "same_place session s" "s_id session = i"
    and child: "s_parent_session_id s \<noteq> None \<Longrightarrow> \<not> b"
  shows "roots_closed (recovered_db session agent m b d)"
  unfolding roots_closed_def
proof (intro allI impI)
  fix j r assume r: "session_row j (recovered_db session agent m b d) = Some r \<and> s_parent_session_id r = None \<and> s_outcome r \<noteq> None"
  have "j \<noteq> i" using r s by (auto simp: recovered_db_rows recovered_row_def)
  with r s(4) have row: "session_row j d = Some r" by (simp add: recovered_db_rows)
  with r roots have closed: "closed_exec (s_execution_id r) d" by (auto simp: roots_closed_def)
  have "\<not> b" if "s_execution_id r = s_execution_id s"
  proof (cases "s_parent_session_id s")
    case None
    with root_unique [OF wf row _ s(1)] r that have "r = s" by simp
    with \<open>j \<noteq> i\<close> row s(1) show ?thesis by (auto dest!: session_rowD)
  qed (simp add: child)
  then show "closed_exec (s_execution_id r) (recovered_db session agent m b d)"
    using closed s(3) by (auto simp: closed_exec_def recovered_db_executions same_place_def)
qed

lemma recovered_remembers:
  assumes s: "s_id session = i" "session_row i d = Some s"
  shows "remembers d (recovered_db session agent m b d)"
  by (auto simp: remembers_def same_place_def recovered_db_rows recovered_db_executions recovered_row_def)

text \<open>A recovery, however old the rows it was prepared from.\<close>

lemma commits_recover: "commits_ok (recover_body session agent m)"
  unfolding recover_body_def by (intro commits_ok_bind commits_ok_ret)

lemma recover_session_keeps:
  assumes run: "recover_session i m pre d = (r, d')" and pre: "recalls pre d" and wf: "db_wf d"
  shows "remembers d d' \<and> appends d d' \<and> db_wf d' \<and> (roots_closed d \<longrightarrow> roots_closed d')"
proof (cases r)
  case (Inl e)
  have "d' = d" using run Inl by (auto simp: recover_session_def dest: run_tx_Err [OF _ commits_recover] split: sum.splits)
  then show ?thesis using wf by (simp add: remembers_refl appends_refl)
next
  case (Inr b)
  from run [unfolded Inr] pre wf obtain s session agent where s: "session_row i d = Some s" "s_outcome s = Some Failed" "same_place session s" "s_id session = i"
      and child: "s_parent_session_id s \<noteq> None \<Longrightarrow> \<not> b" and d': "d' = recovered_db session agent m b d"
    by (rule recover_session_Inr) blast
  have "db_wf d'" unfolding d' by (rule recovered_db_wf [OF wf, where s = s]) (use s in \<open>auto simp: same_place_def\<close>)
  then show ?thesis
    unfolding d' using recovered_remembers [OF s(4,1)] recovered_db_appends recovered_roots_closed [OF wf _ s child] \<open>db_wf d'\<close> [unfolded d'] by blast
qed

end
