(* ===== verification/Deletion_Facts.thy ===== *)
theory Deletion_Facts
  imports Recovery_Facts
begin

text \<open>
  The two writes of a delegation after its child exists: the commit, a good step, and the deletion of a child whose
  delegation came too late. A deletion takes rows away, so it is no step either; what it keeps is shown here.
\<close>

section \<open>The commit\<close>

lemma delegate_body_good_step:
  assumes run: "run_tx h eid (delegate_body auth child ev_str prompt_str payload) d = (r, d')"
    and payload: "from_str payload \<noteq> None"
  shows "good_step d d'"
proof -
  have "takes_step d (run_tx h eid (delegate_body auth child ev_str prompt_str payload) d)"
  proof (rule takes_tx)
    show "tx_keeps tx_step (delegate_body auth child ev_str prompt_str payload)"
      unfolding delegate_body_def using payload by (intro step_rules)
    show "tx_keeps (\<lambda>t t'. ended_within {} (tx_db t) (tx_db t')) (delegate_body auth child ev_str prompt_str payload)"
      unfolding delegate_body_def by (intro ended_rules)
  qed
  with run show ?thesis by (simp add: takes_step_def)
qed

section \<open>Who goes with a session\<close>

lemma doomed_snoc:
  "doomed i (d\<lparr>sessions := ss @ [s]\<rparr>) =
     (let ids = doomed i (d\<lparr>sessions := ss\<rparr>) in
      if s_id s = i \<or> (\<exists>p \<in> set ids. s_parent_session_id s = Some p) then ids @ [s_id s] else ids)"
  by (simp add: doomed_def Let_def)

lemma doomed_rows: "set (doomed i (d\<lparr>sessions := ss\<rparr>)) \<subseteq> s_id ` set ss"
proof (induction ss rule: rev_induct)
  case Nil
  show ?case by (simp add: doomed_def)
next
  case (snoc s ss)
  then show ?case by (auto simp: doomed_snoc Let_def)
qed

lemma parents_first_snocD:
  assumes "parents_first (ps @ [x])"
  shows "parents_first ps" and "snd x = Some p \<Longrightarrow> p \<in> fst ` set ps"
proof -
  show "parents_first ps"
    unfolding parents_first_def
  proof (intro allI impI)
    fix i p assume "i < length ps" "snd (ps ! i) = Some p"
    then show "p \<in> fst ` set (take i ps)"
      using assms [unfolded parents_first_def, rule_format, of i p] by (simp add: nth_append)
  qed
  show "p \<in> fst ` set ps" if "snd x = Some p"
    using assms [unfolded parents_first_def, rule_format, of "length ps" p] that by simp
qed

lemma doomed_closed:
  assumes "distinct (map s_id ss)" and "parents_first (map lineage ss)" and "s \<in> set ss"
    and "s_parent_session_id s = Some p" and "p \<in> set (doomed i (d\<lparr>sessions := ss\<rparr>))"
  shows "s_id s \<in> set (doomed i (d\<lparr>sessions := ss\<rparr>))"
  using assms
proof (induction ss rule: rev_induct)
  case (snoc a ss)
  have first: "parents_first (map lineage ss @ [lineage a])" using snoc.prems(2) by simp
  note parents = parents_first_snocD [OF first]
  let ?ids = "doomed i (d\<lparr>sessions := ss\<rparr>)"
  have "p \<in> s_id ` set ss"
  proof (cases "s = a")
    case True
    with parents(2) [of p] snoc.prems(4) show ?thesis by (auto simp: lineage_def)
  next
    case False
    with snoc.prems(3,4) have "(s_id s, Some p) \<in> set (map lineage ss)" by (auto simp: lineage_def)
    then obtain j where "j < length ss" "map lineage ss ! j = (s_id s, Some p)" by (auto simp: in_set_conv_nth)
    with parents(1) have "p \<in> fst ` set (take j (map lineage ss))" by (auto simp: parents_first_def)
    then show ?thesis using set_take_subset [of j "map lineage ss"] by (auto simp: lineage_def)
  qed
  moreover have "s_id a \<notin> s_id ` set ss" using snoc.prems(1) by simp
  ultimately have "p \<noteq> s_id a" by blast
  with snoc.prems(5) have p: "p \<in> set ?ids" by (auto simp: doomed_snoc Let_def split: if_splits)
  show ?case
  proof (cases "s = a")
    case True
    with p snoc.prems(4) show ?thesis by (auto simp: doomed_snoc Let_def)
  next
    case False
    with snoc parents(1) p have "s_id s \<in> set ?ids" by auto
    then show ?thesis by (auto simp: doomed_snoc Let_def)
  qed
qed simp

lemma parents_first_filter:
  assumes "parents_first (map lineage ss)"
    and "\<And>s q. s \<in> set ss \<Longrightarrow> q \<in> set ss \<Longrightarrow> P s \<Longrightarrow> s_parent_session_id s = Some (s_id q) \<Longrightarrow> P q"
  shows "parents_first (map lineage (filter P ss))"
  using assms
proof (induction ss rule: rev_induct)
  case (snoc a ss)
  have first: "parents_first (map lineage ss @ [lineage a])" using snoc.prems(1) by simp
  note parents = parents_first_snocD [OF first]
  have IH: "parents_first (map lineage (filter P ss))"
    by (rule snoc.IH [OF parents(1)]) (use snoc.prems(2) in auto)
  show ?case
  proof (cases "P a")
    case True
    have "p \<in> fst ` set (map lineage (filter P ss))" if "snd (lineage a) = Some p" for p
    proof -
      from parents(2) [OF that] obtain q where q: "q \<in> set ss" "s_id q = p" by (auto simp: lineage_def)
      with snoc.prems(2) [of a q] True that have "P q" by (simp add: lineage_def)
      with q show ?thesis by (force simp: lineage_def)
    qed
    with IH True show ?thesis by (simp add: parents_first_snoc)
  qed (simp add: IH)
qed simp

section \<open>What a deletion keeps\<close>

text \<open>The sessions that a deletion removes: none when it is refused.\<close>

definition erased :: "string \<Rightarrow> db \<Rightarrow> string list" where
  "erased i d = filter (\<lambda>j. session_row j (delete_session i d) = None) (doomed i d)"

text \<open>A row of the log that a removal of sessions leaves.\<close>

definition outlives :: "string list \<Rightarrow> event \<Rightarrow> bool" where
  "outlives gone e \<longleftrightarrow> (case ev_session_id e of None \<Rightarrow> True | Some i \<Rightarrow> i \<notin> set gone)"

lemma sql_find_kept:
  "sql_find (\<lambda>x. k x = i) (filter (\<lambda>x. k x \<notin> A) rs) = (if i \<in> A then None else sql_find (\<lambda>x. k x = i) rs)"
  by (induction rs) (auto simp: sql_find_def)

lemma distinct_map_filter_both: "distinct (map k (filter Q xs)) \<Longrightarrow> distinct (map k (filter Q (filter R xs)))"
  by (induction xs) auto

lemma delete_session_cases:
  obtains (refused) "delete_session i d = d" "erased i d = []"
    | (gone) gone where "set (erased i d) = set gone" "gone = doomed i d"
        "delete_session i d = d\<lparr>sessions := filter (\<lambda>s. s_id s \<notin> set gone) (sessions d),
           task_queue := filter (\<lambda>t. t_session_id t \<notin> set gone) (task_queue d),
           events := filter (outlives gone) (events d)\<rparr>"
proof (cases "delete_session i d = d")
  case True
  have "session_row j d \<noteq> None" if "j \<in> set (doomed i d)" for j
    using that doomed_rows [where i = i and d = d and ss = "sessions d"] by (auto simp: session_row_def sql_find_None_iff simp del: not_None_eq)
  with True have "erased i d = []" by (auto simp: erased_def filter_empty_conv)
  with True show ?thesis by (rule refused)
next
  case False
  moreover have "(\<lambda>e. \<not> (case ev_session_id e of None \<Rightarrow> False | Some j \<Rightarrow> j \<in> set ids)) = outlives ids" for ids
    by (rule ext) (simp add: outlives_def split: option.split)
  ultimately have d': "delete_session i d = d\<lparr>sessions := filter (\<lambda>s. s_id s \<notin> set (doomed i d)) (sessions d),
      task_queue := filter (\<lambda>t. t_session_id t \<notin> set (doomed i d)) (task_queue d),
      events := filter (outlives (doomed i d)) (events d)\<rparr>"
    by (simp add: delete_session_def Let_def sql_delete_def split: if_splits)
  have "set (erased i d) = set (doomed i d)"
    by (auto simp: erased_def d' session_row_def sql_find_kept)
  then show ?thesis using d' by (intro gone) simp_all
qed

lemma delete_session_row:
  "session_row j (delete_session i d) = (if j \<in> set (erased i d) then None else session_row j d)"
  by (cases rule: delete_session_cases [of i d]) (simp_all add: session_row_def sql_find_kept)

lemma delete_session_sel [simp]:
  "executions (delete_session i d) = executions d" "next_event_id (delete_session i d) = next_event_id d"
  "clock (delete_session i d) = clock d" "next_task_id (delete_session i d) = next_task_id d"
  "execution_row e (delete_session i d) = execution_row e d"
  by (simp_all add: delete_session_def Let_def execution_row_def)

lemma delete_session_events: "events (delete_session i d) = filter (outlives (erased i d)) (events d)"
  by (cases rule: delete_session_cases [of i d]) (simp_all add: outlives_def [abs_def] filter_id_conv split: option.split)

lemma delete_session_closed:
  assumes wf: "db_wf d" and s: "s \<in> set (sessions d)" "s_parent_session_id s = Some p" "p \<in> set (doomed i d)"
  shows "s_id s \<in> set (doomed i d)"
  using doomed_closed [of "sessions d" s p i d] assms by (simp add: db_wf_def)

lemma log_wf_delete:
  assumes wf: "db_wf d"
  shows "log_wf (delete_session i d)"
proof -
  have log: "log_wf d" using wf by (rule db_wf_log)
  have "map_option s_execution_id (session_row j (delete_session i d)) = Some (ev_execution_id e)"
    if "e \<in> set (events (delete_session i d))" "ev_session_id e = Some j" for e j
    using that log by (auto simp: delete_session_events delete_session_row outlives_def log_wf_def)
  then show ?thesis
    using log unfolding log_wf_def delete_session_events
    by (auto simp: sorted_wrt_map sorted_wrt_filter simp del: filter_filter intro: distinct_map_filter_both)
qed

lemma delete_session_wf:
  assumes wf: "db_wf d"
  shows "db_wf (delete_session i d)"
proof (cases rule: delete_session_cases [of i d])
  case refused
  with wf show ?thesis by simp
next
  case (gone ids)
  let ?d = "delete_session i d" and ?P = "\<lambda>s. s_id s \<notin> set ids"
  have ss: "sessions ?d = filter ?P (sessions d)" by (simp add: gone)
  have row: "session_row (s_id q) ?d = session_row (s_id q) d" if "?P q" for q
    using that by (simp add: ss session_row_def sql_find_kept)
  have keep: "?P q" if "s \<in> set (sessions d)" "?P s" "s_parent_session_id s = Some (s_id q)" for s q
    using delete_session_closed [OF wf that(1,3)] that(2) gone(2) by blast
  have "map_option s_execution_id (session_row p ?d) = Some (s_execution_id s)"
    if there: "s \<in> set (sessions ?d)" "s_parent_session_id s = Some p" for s p
  proof -
    have s: "s \<in> set (sessions d)" "?P s" using there(1) by (simp_all add: ss)
    then have "map_option s_execution_id (session_row p d) = Some (s_execution_id s)"
      using wf there(2) by (auto simp: db_wf_def)
    then obtain q where q: "session_row p d = Some q" "s_execution_id q = s_execution_id s" by auto
    with keep [OF s, of q] row [of q] there(2) session_rowD [OF q(1)] show ?thesis by simp
  qed
  moreover have "parents_first (map lineage (sessions ?d))"
    unfolding ss by (rule parents_first_filter) (use wf keep in \<open>auto simp: db_wf_def\<close>)
  moreover have "distinct (root_executions (sessions ?d))"
    unfolding ss by (rule distinct_map_filter_both) (use wf in \<open>simp add: db_wf_def\<close>)
  moreover have "queue_wf ?d"
    using db_wf_queue [OF wf] by (simp add: gone queue_wf_def sorted_filter distinct_map_filter)
  ultimately show ?thesis
    using wf log_wf_delete [OF wf, of i] by (simp add: db_wf_def ss distinct_map_filter)
qed

lemma delete_session_roots: "roots_closed d \<Longrightarrow> roots_closed (delete_session i d)"
  by (auto simp: roots_closed_def closed_exec_def delete_session_row split: if_splits)

lemma ids_from_filter: "ids_from n es m \<Longrightarrow> ids_from n (filter P es) m"
proof (induction es arbitrary: n)
  case (Cons e es)
  then have "ids_from (ev_id e + 1) (filter P es) m" "n \<le> ev_id e + 1" by simp_all
  with Cons.prems show ?case by (auto intro: ids_from_mono)
qed simp

end
