(* ===== verification/Lifecycle.thy ===== *)
theory Lifecycle
  imports Liveness Executions Transition_Props Ceiling_Service Restart_Park Deletion_Facts
begin

text \<open>
  Everything that moves the scheduler, as one step relation, and what holds of every run.

  A step is one operation of the modelled components, with any arguments: in particular with
  rows read at any earlier moment (\<open>pre\<close>, and the session, count and execution handed to
  \<open>reconcile\<close>), so that every interleaving of the operations' transactions is a run. What a
  worker's request leaves to others between its transactions is a run of its own.
  Two operations are no steps, since they take something back: the recovery of a failed session by the user
  (\<open>api/sessions.rs\<close>) takes back an outcome, and the deletion of a child whose delegation came too late
  (\<open>api/mcp_tools.rs\<close>) takes back rows. A \<open>life\<close> interleaves them with the steps and marks each; \<open>runs\<close> are
  the stretches without them. Neither falls between two transactions of one worker's request.
\<close>

section \<open>Steps and runs\<close>

definition set_db :: "db \<Rightarrow> node \<Rightarrow> node" where
  "set_db d nd = nd\<lparr>nd_db := d\<rparr>"

inductive sys_step :: "node \<Rightarrow> node \<Rightarrow> bool" and runs :: "node \<Rightarrow> node \<Rightarrow> bool" where
  stop: "runs nd nd"
| go: "runs nd nd' \<Longrightarrow> sys_step nd' nd'' \<Longrightarrow> runs nd nd''"
| act: "recalls pre (nd_db nd) \<Longrightarrow> transition env pre eid sid a (nd_db nd) = (r, d) \<Longrightarrow>
    sys_step nd (set_db d nd)"
| terminate: "recalls pre (nd_db nd) \<Longrightarrow> terminate_session pre eid sid who (nd_db nd) = (r', d) \<Longrightarrow>
    sys_step nd (set_db d nd)"
| fail: "recalls pre (nd_db nd) \<Longrightarrow> terminate_session_failed pre eid sid who rc (nd_db nd) = (r', d) \<Longrightarrow>
    sys_step nd (set_db d nd)"
| close_execution: "write_execution_terminal eid oc (nd_db nd) = (rb, d) \<Longrightarrow> sys_step nd (set_db d nd)"
| repair_root: "repair_execution_for_terminal_root pre sid (nd_db nd) = (ru, d) \<Longrightarrow> sys_step nd (set_db d nd)"
| finish: "finalize session (nd_db nd) = (ru, d) \<Longrightarrow> sys_step nd (set_db d nd)"
| cascade: "cascade_children fuel env session (nd_db nd) = Some (ru, d) \<Longrightarrow> sys_step nd (set_db d nd)"
| reconciled: "reconcile fuel renv session k x cok w (nd_db nd) = Some (rr, d) \<Longrightarrow> sys_step nd (set_db d nd)"
| new_execution: "create_in_tx eid cid project parent title depth width policy ceiling (nd_db nd) = Inr t \<Longrightarrow>
    sys_step nd (set_db (tx_db t) nd)"
| new_session: "create sid eid aid parent cwd wt sha slug policy (nd_db nd) = (ru, d) \<Longrightarrow>
    (\<And>p q. parent = Some p \<Longrightarrow> session_row p (nd_db nd) = Some q \<Longrightarrow> s_execution_id q = eid) \<Longrightarrow>
    (\<And>r. parent = None \<Longrightarrow> r \<in> set (sessions (nd_db nd)) \<Longrightarrow> s_parent_session_id r = None \<Longrightarrow> s_execution_id r \<noteq> eid) \<Longrightarrow>
    sys_step nd (set_db d nd)"
| delegated: "create_with_width_guard sid eid aid p cwd wt width slug policy (nd_db nd) = (rb, d) \<Longrightarrow>
    (\<And>q. session_row p (nd_db nd) = Some q \<Longrightarrow> s_execution_id q = eid) \<Longrightarrow> sys_step nd (set_db d nd)"
| committed: "run_tx (\<lambda>e. CommitFailed (''begin transaction failed: '' @ show_error e)) (mc_execution_id auth)
      (delegate_body auth child ev_str prompt_str payload) (nd_db nd) = (rc', d) \<Longrightarrow> from_str payload \<noteq> None \<Longrightarrow>
    sys_step nd (set_db d nd)"
| continued: "recalls pre (nd_db nd) \<Longrightarrow> continue_from cenv i parts pre (nd_db nd) = (rn, d) \<Longrightarrow> sys_step nd (set_db d nd)"
| asked: "escalate auth body batch_id (nd_db nd) = (rq, d) \<Longrightarrow> sys_step nd (set_db d nd)"
| dismissed: "dismiss env authorization event_id pre (nd_db nd) = (ru, d) \<Longrightarrow> sys_step nd (set_db d nd)"
| recapped: "set_ceiling L ts eid ceiling (nd_db nd) = (rb', d) \<Longrightarrow> sys_step nd (set_db d nd)"
| booted: "park_live_sessions_on_boot env (nd_db nd) = (sm, d) \<Longrightarrow> sys_step nd (set_db d nd)"
| pushed: "sys_step nd (set_db (push task (nd_db nd)) nd)"
| synced: "(\<And>n. runs n (sy_between se n)) \<Longrightarrow> (\<And>n. runs n (sy_wait se n)) \<Longrightarrow>
    worker_sync fuel se req nd = Some (rs, nd') \<Longrightarrow> sys_step nd nd'"
| forwarded: "worker_event pre msg nd = (st, note, nd') \<Longrightarrow> sys_step nd nd'"
| ticked: "liveness_tick fuel renv nd = Some (n, nd') \<Longrightarrow> sys_step nd nd'"
| spawned: "sys_step nd (spawn_tick m draw nd)"
| started: "startup fuel renv m draw nd = Some nd' \<Longrightarrow> sys_step nd nd'"
| exited: "sys_step nd (nd\<lparr>nd_supervisor := worker_exited w (nd_supervisor nd)\<rparr>)"
| stopped: "sys_step nd (nd\<lparr>nd_supervisor := shutdown (nd_supervisor nd)\<rparr>)"
| catalog: "sys_step nd (set_db ((nd_db nd)\<lparr>agents := ags, drivers := drs, config := cfg\<rparr>) nd)"
| elapse: "0 \<le> k \<Longrightarrow> sys_step nd ((set_db ((nd_db nd)\<lparr>clock := clock (nd_db nd) + k\<rparr>) nd)\<lparr>nd_instant := nd_instant nd + k\<rparr>)"

lemmas sys_intros = sys_step_runs.intros

inductive_cases runsE: "runs nd nd'"

section \<open>Every step is good\<close>

lemma set_db_step: "good_step (nd_db nd) d \<Longrightarrow> node_step nd (set_db d nd)"
  by (simp add: set_db_def node_step_db)

lemma roots_closed_same:
  "roots_closed d \<Longrightarrow> sessions d' = sessions d \<Longrightarrow> executions d' = executions d \<Longrightarrow> roots_closed d'"
  by (auto simp: roots_closed_def closed_exec_def session_row_def execution_row_def)

lemma good_step_same:
  assumes "sessions d' = sessions d" "executions d' = executions d" "events d' = events d"
    "next_event_id d' = next_event_id d" and "queue_wf d \<Longrightarrow> queue_wf d'"
  shows "good_step d d'"
  using assms roots_closed_same [of d d'] db_wf_queue_only [of d d'] db_wf_queue
  by (auto simp: good_step_def db_step_def intro: evolves_same_rows appends_same)

lemma terminate_session_good_step:
  assumes "recalls pre d" and "terminate_session pre eid sid who d = (r, d')"
  shows "good_step d d'"
proof -
  have "roots_closed d'" if "db_wf d" "roots_closed d"
    using assms that by (auto simp: terminate_session_def lookup_def split: sum.splits if_splits
        dest: session_rowD intro: roots_closed_set_desired)
  then show ?thesis using op_terminate_session [of d pre eid sid who] assms by (simp add: op_ok_def good_step_def)
qed

lemma terminate_session_failed_good_step:
  assumes "recalls pre d" and "terminate_session_failed pre eid sid who rc d = (r, d')"
  shows "good_step d d'"
  using op_terminate_session_failed [of d pre eid sid who rc] roots_closed_terminate_session_failed [OF _ _ assms]
  by (auto simp: op_ok_def good_step_def assms(2))

lemma write_execution_terminal_good_step: "takes_step d (write_execution_terminal eid oc d)"
  unfolding write_execution_terminal_def
  by (intro takes_tx step_rules step_write_execution_terminal ended_rules ended_write_execution_terminal)

lemma escalate_good_step: "takes_step d (escalate auth body batch_id d)"
  unfolding escalate_def by (auto simp: takes_none intro!: takes_tx step_rules ended_rules split: sum.split)

lemma dismiss_good_step: "takes_step d (dismiss env authorization event_id pre d)"
proof -
  have "takes_step d (run_tx h e (tx_bind (tx_map_err Inl (dismiss_in_tx env esc)) (\<lambda>_. tx_ret (Inr ()))) d)" for h e esc
    unfolding dismiss_in_tx_def by (rule takes_tx) (intro step_rules ended_rules)+
  then show ?thesis by (simp add: dismiss_def takes_none split: option.split)
qed

lemma ended_ceiling_body: "tx_keeps (\<lambda>t t'. ended_within A (tx_db t) (tx_db t')) (ceiling_body L ts eid c)"
  unfolding ceiling_body_def write_ceiling_changed_in_tx_def by (intro ended_rules ended_events)

lemma set_ceiling_good_step: "takes_step d (set_ceiling L ts eid c d)"
  unfolding set_ceiling_def
  by (intro takes_tx step_rules step_ceiling_body ended_rules ended_ceiling_body)

lemma create_good_step:
  assumes "create sid eid aid parent cwd wt sha slug policy d = (r, d')"
    and "\<And>p q. parent = Some p \<Longrightarrow> session_row p d = Some q \<Longrightarrow> s_execution_id q = eid"
    and "\<And>r. parent = None \<Longrightarrow> r \<in> set (sessions d) \<Longrightarrow> s_parent_session_id r = None \<Longrightarrow> s_execution_id r \<noteq> eid"
  shows "good_step d d'"
  using assms
  by (auto simp: create_def Let_def session_wf_new split: if_splits intro!: add_session_good_step)
    (auto simp: new_session_def)

lemma create_with_width_guard_good_step:
  assumes "create_with_width_guard sid eid aid p cwd wt w slug policy d = (r, d')"
    and "\<And>q. session_row p d = Some q \<Longrightarrow> s_execution_id q = eid"
  shows "good_step d d'"
  using assms
  by (auto simp: create_with_width_guard_def Let_def session_wf_new split: if_splits intro!: add_session_good_step)
    (auto simp: new_session_def)

lemma create_in_tx_good_step:
  assumes "create_in_tx eid cid project parent title depth width policy ceiling d = Inr t"
  shows "good_step d (tx_db t)"
proof -
  have step: "db_step d (tx_db t)" using assms by (rule create_in_tx_step)
  have "session_row i (tx_db t) = session_row i d" for i
    using assms by (auto simp: create_in_tx_def split: if_splits)
  then have "ended_within {} d (tx_db t)" by (auto simp: ended_within_def)
  with step have "roots_closed (tx_db t)" if "db_wf d" "roots_closed d"
    using that by (auto simp: db_step_def intro: roots_closed_ended)
  with step show ?thesis by (simp add: good_step_def)
qed

lemma queue_wf_later: "queue_wf d \<Longrightarrow> 0 \<le> k \<Longrightarrow> queue_wf (d\<lparr>clock := clock d + k\<rparr>)"
  by (auto simp: queue_wf_def)

lemma steps_and_runs: "(sys_step nd nd' \<longrightarrow> node_step nd nd') \<and> (runs nd1 nd2 \<longrightarrow> node_step nd1 nd2)"
proof -
  have "(sys_step nd nd' \<Longrightarrow> node_step nd nd')" and "(runs nd1 nd2 \<Longrightarrow> node_step nd1 nd2)" for nd nd' nd1 nd2
  proof (induction rule: sys_step_runs.inducts)
    case (go nd nd' nd'')
    then show ?case using node_step_trans by blast
  next
    case (act pre nd env eid sid a r d)
    then show ?case using transition_good_step [of pre "nd_db nd" env eid sid a] by (auto intro: set_db_step)
  next
    case (repair_root pre sid nd ru d)
    then show ?case using step_repair_root_entry [of "nd_db nd" pre sid] by (auto simp: takes_step_def intro: set_db_step)
  next
    case (close_execution eid oc nd rb d)
    then show ?case using write_execution_terminal_good_step [of "nd_db nd" eid oc]
      by (auto simp: takes_step_def intro: set_db_step)
  next
    case (recapped L ts eid ceiling nd rb' d)
    then show ?case using set_ceiling_good_step [of "nd_db nd" L ts eid ceiling]
      by (auto simp: takes_step_def intro: set_db_step)
  next
    case (asked auth body batch_id nd rq d)
    then show ?case using escalate_good_step [of "nd_db nd" auth body batch_id] by (auto simp: takes_step_def intro: set_db_step)
  next
    case (dismissed env authorization event_id pre nd ru d)
    then show ?case using dismiss_good_step [of "nd_db nd" env authorization event_id pre] by (auto simp: takes_step_def intro: set_db_step)
  next
    case (booted env nd sm d)
    then show ?case using park_good [of "nd_db nd" env] by (auto intro: set_db_step)
  next
    case (finish session nd ru d)
    then show ?case using step_finalize [of "nd_db nd" session] by (auto simp: takes_step_def intro: set_db_step)
  next
    case (cascade fuel env session nd ru d)
    then show ?case using step_cascade_children by (fastforce simp: takes_step_def intro: set_db_step)
  next
    case (reconciled fuel renv session k x cok w nd rr d)
    then show ?case using step_reconcile by (fastforce simp: takes_step_def intro: set_db_step)
  next
    case (pushed nd task)
    show ?case
      by (intro set_db_step good_step_same) (simp_all add: push_def queue_wf_enqueue)
  next
    case (committed auth child ev_str prompt_str payload nd rc' d)
    show ?case by (rule set_db_step [OF delegate_body_good_step [OF committed]])
  next
    case (synced se fuel req nd rs nd')
    show ?case by (rule worker_sync_step [OF synced.IH synced.hyps(3)])
  next
    case (new_session sid eid aid parent cwd wt sha slug policy nd ru d)
    show ?case by (rule set_db_step [OF create_good_step [OF new_session]]) assumption+
  next
    case (exited nd w)
    show ?case by (simp add: node_step_def supervisor_wf_exited)
  next
    case (stopped nd)
    show ?case by (simp add: node_step_def supervisor_wf_shutdown)
  next
    case (catalog nd ags drs cfg)
    show ?case by (intro set_db_step good_step_same) (simp_all add: queue_wf_def)
  next
    case (elapse k nd)
    then have "good_step (nd_db nd) ((nd_db nd)\<lparr>clock := clock (nd_db nd) + k\<rparr>)"
      by (intro good_step_same) (simp_all add: queue_wf_later)
    then show ?case by (simp add: node_step_def set_db_def)
  qed (auto intro: set_db_step terminate_session_good_step terminate_session_failed_good_step
      create_in_tx_good_step continue_from_good_step create_with_width_guard_good_step worker_sync_step
      worker_event_step liveness_tick_step spawn_tick_step startup_step)
  then show ?thesis by blast
qed

lemma runs_step: "runs nd nd' \<Longrightarrow> node_step nd nd'"
  using steps_and_runs by blast


section \<open>Recoveries and deletions\<close>

text \<open>
  A recovery is marked with its session and the execution it reopened, a deletion with the sessions it removed.
  The code deletes a child that it has just inserted; here any session may be deleted.
\<close>

datatype mark = Recovered string "string option" | Deleted "string list"

inductive life :: "mark list \<Rightarrow> node \<Rightarrow> node \<Rightarrow> bool" where
  born: "life [] nd nd"
| lived: "life ms nd nd' \<Longrightarrow> sys_step nd' nd'' \<Longrightarrow> life ms nd nd''"
| recovered: "life ms nd nd' \<Longrightarrow> recalls pre (nd_db nd') \<Longrightarrow> session_row i (nd_db nd') = Some s \<Longrightarrow>
    recover_session i m pre (nd_db nd') = (Inr reopened, d) \<Longrightarrow>
    life (ms @ [Recovered i (if reopened then Some (s_execution_id s) else None)]) nd (set_db d nd')"
| deleted: "life ms nd nd' \<Longrightarrow>
    life (ms @ [Deleted (erased i (nd_db nd'))]) nd (set_db (delete_session i (nd_db nd')) nd')"

text \<open>The sessions that were recovered, the executions that were reopened, the sessions that were removed.\<close>

definition recoveries :: "mark list \<Rightarrow> string list" where
  "recoveries ms = concat (map (\<lambda>m. case m of Recovered i _ \<Rightarrow> [i] | _ \<Rightarrow> []) ms)"

definition reopenings :: "mark list \<Rightarrow> string list" where
  "reopenings ms = concat (map (\<lambda>m. case m of Recovered _ (Some e) \<Rightarrow> [e] | _ \<Rightarrow> []) ms)"

definition removals :: "mark list \<Rightarrow> string list" where
  "removals ms = concat (map (\<lambda>m. case m of Deleted is \<Rightarrow> is | _ \<Rightarrow> []) ms)"

lemma marks_simps [simp]:
  "recoveries [] = []" "reopenings [] = []" "removals [] = []"
  "recoveries (ms @ [Recovered i x]) = recoveries ms @ [i]" "recoveries (ms @ [Deleted is]) = recoveries ms"
  "reopenings (ms @ [Recovered i x]) = reopenings ms @ (case x of None \<Rightarrow> [] | Some e \<Rightarrow> [e])"
  "reopenings (ms @ [Deleted is]) = reopenings ms"
  "removals (ms @ [Recovered i x]) = removals ms" "removals (ms @ [Deleted is]) = removals ms @ is"
  by (simp_all add: recoveries_def reopenings_def removals_def split: option.split)

lemma runs_live:
  assumes "runs nd nd'"
  shows "life [] nd nd'"
proof -
  have "(sys_step nd1 nd2 \<Longrightarrow> True)" and "(runs nd nd' \<Longrightarrow> life [] nd nd')" for nd1 nd2 nd nd'
    by (induction rule: sys_step_runs.inducts) (auto intro: life.intros)
  with assms show ?thesis by blast
qed

definition sound :: "node \<Rightarrow> bool" where
  "sound nd \<longleftrightarrow> db_wf (nd_db nd) \<and> roots_closed (nd_db nd) \<and> supervisor_wf (nd_supervisor nd)"

lemma sys_step_sound: "sys_step nd nd' \<Longrightarrow> sound nd \<Longrightarrow> sound nd'"
  using steps_and_runs by (auto simp: sound_def node_step_def good_step_def db_step_def)

lemma recovered_sound: "recalls pre (nd_db nd) \<Longrightarrow> recover_session i m pre (nd_db nd) = (r, d) \<Longrightarrow> sound nd \<Longrightarrow> sound (set_db d nd)"
  using recover_session_keeps by (auto simp: sound_def set_db_def)

lemma deleted_sound: "sound nd \<Longrightarrow> sound (set_db (delete_session i (nd_db nd)) nd)"
  by (simp add: sound_def set_db_def delete_session_wf delete_session_roots)

lemma life_sound: "life ms nd nd' \<Longrightarrow> sound nd \<Longrightarrow> sound nd'"
  by (induction rule: life.induct) (auto intro: sys_step_sound recovered_sound deleted_sound)

subsection \<open>The log\<close>






subsection \<open>The rows\<close>

text \<open>What becomes of a session that is not removed, and of an execution.\<close>

definition session_kept :: "mark list \<Rightarrow> session \<Rightarrow> session \<Rightarrow> bool" where
  "session_kept ms s s' \<longleftrightarrow> s_id s' = s_id s \<and> s_execution_id s' = s_execution_id s \<and>
     s_parent_session_id s' = s_parent_session_id s \<and> s_agent_id s' = s_agent_id s \<and>
     (s_id s \<notin> set (recoveries ms) \<longrightarrow> s_outcome s \<noteq> None \<longrightarrow>
        s_outcome s' = s_outcome s \<and> s_completed_at s' = s_completed_at s)"

definition execution_kept :: "mark list \<Rightarrow> execution \<Rightarrow> execution \<Rightarrow> bool" where
  "execution_kept ms x x' \<longleftrightarrow> x_id x' = x_id x \<and>
     (x_id x \<notin> set (reopenings ms) \<longrightarrow> x_outcome x \<noteq> None \<longrightarrow>
        x_outcome x' = x_outcome x \<and> x_completed_at x' = x_completed_at x)"

definition rows_kept :: "mark list \<Rightarrow> db \<Rightarrow> db \<Rightarrow> bool" where
  "rows_kept ms d d' \<longleftrightarrow>
     (\<forall>i s. session_row i d = Some s \<longrightarrow> i \<notin> set (removals ms) \<longrightarrow> (\<exists>s'. session_row i d' = Some s' \<and> session_kept ms s s')) \<and>
     (\<forall>e x. execution_row e d = Some x \<longrightarrow> (\<exists>x'. execution_row e d' = Some x' \<and> execution_kept ms x x'))"

lemma session_kept_trans: "session_kept ms s s' \<Longrightarrow> session_kept ns s' s'' \<Longrightarrow> session_kept (ms @ ns) s s''"
  by (auto simp: session_kept_def recoveries_def)

lemma execution_kept_trans: "execution_kept ms x x' \<Longrightarrow> execution_kept ns x' x'' \<Longrightarrow> execution_kept (ms @ ns) x x''"
  by (auto simp: execution_kept_def reopenings_def)

lemma rows_kept_trans:
  assumes "rows_kept ms d d1" and "rows_kept ns d1 d2"
  shows "rows_kept (ms @ ns) d d2"
  unfolding rows_kept_def
proof (intro conjI allI impI)
  fix i s assume "session_row i d = Some s" "i \<notin> set (removals (ms @ ns))"
  then have "i \<notin> set (removals ms)" "i \<notin> set (removals ns)" by (auto simp: removals_def)
  with assms \<open>session_row i d = Some s\<close> show "\<exists>s'. session_row i d2 = Some s' \<and> session_kept (ms @ ns) s s'"
    unfolding rows_kept_def by (meson session_kept_trans)
next
  fix e x assume "execution_row e d = Some x"
  with assms show "\<exists>x'. execution_row e d2 = Some x' \<and> execution_kept (ms @ ns) x x'"
    unfolding rows_kept_def by (meson execution_kept_trans)
qed

lemma evolves_kept:
  assumes "db_wf d" and "evolves d d'"
  shows "rows_kept [] d d'"
  unfolding rows_kept_def
proof (intro conjI allI impI)
  fix i s assume s: "session_row i d = Some s"
  with evolves_session [OF assms(2) s] db_wf_session [OF assms(1) s]
  show "\<exists>s'. session_row i d' = Some s' \<and> session_kept [] s s'" by (auto simp: session_step_def session_kept_def session_wf_def)
next
  fix e x assume x: "execution_row e d = Some x"
  with evolves_execution [OF assms(2) x] db_wf_execution [OF assms(1) x]
  show "\<exists>x'. execution_row e d' = Some x' \<and> execution_kept [] x x'" by (auto simp: execution_step_def execution_kept_def execution_wf_def)
qed

lemma deleted_kept: "rows_kept [Deleted (erased i d)] d (delete_session i d)"
  using marks_simps(9) [of "[]"] by (auto simp: rows_kept_def delete_session_row session_kept_def execution_kept_def)

lemma recovered_kept:
  assumes run: "recover_session i m pre d = (Inr b, d')" and pre: "recalls pre d" and wf: "db_wf d" and row: "session_row i d = Some s"
  shows "rows_kept [Recovered i (if b then Some (s_execution_id s) else None)] d d'"
  using run pre wf
proof (rule recover_session_Inr)
  fix s0 session agent
  assume s0: "session_row i d = Some s0" "same_place session s0" "s_id session = i" and d': "d' = recovered_db session agent m b d"
  have s: "s0 = s" using s0 row by simp
  let ?ms = "[Recovered i (if b then Some (s_execution_id s) else None)]"
  have ms: "recoveries ?ms = [i]" "reopenings ?ms = (if b then [s_execution_id s] else [])" "removals ?ms = []"
    by (simp_all add: recoveries_def reopenings_def removals_def)
  show ?thesis
    unfolding rows_kept_def
  proof (intro conjI allI impI)
    fix j r assume r: "session_row j d = Some r"
    then have "\<exists>b now. session_row j d' = Some (if j = i \<and> s_outcome r = Some Failed then recovered_row b now r else r)"
      using s0(3) by (auto simp: d' recovered_db_rows)
    then show "\<exists>s'. session_row j d' = Some s' \<and> session_kept ?ms r s'"
      using session_rowD [OF r] by (auto simp: session_kept_def ms recovered_row_def)
  next
    fix e x assume x: "execution_row e d = Some x"
    let ?open = "x\<lparr>x_desired := DRun, x_outcome := None, x_completed_at := None, x_updated_at := clock d\<rparr>"
    have "execution_row e d' = Some (if e = s_execution_id s \<and> b \<and> (x_desired x = DTerminate \<or> x_outcome x \<noteq> None) then ?open else x)"
      using x s0(2) unfolding d' recovered_db_executions same_place_def s
      by (cases "e = s_execution_id session \<and> b") auto
    then show "\<exists>x'. execution_row e d' = Some x' \<and> execution_kept ?ms x x'"
      using execution_rowD [OF x] by (auto simp: execution_kept_def ms)
  qed
qed

lemma life_kept: "life ms nd nd' \<Longrightarrow> sound nd \<Longrightarrow> rows_kept ms (nd_db nd) (nd_db nd')"
proof (induction rule: life.induct)
  case (born nd)
  show ?case by (simp add: rows_kept_def session_kept_def execution_kept_def)
next
  case (lived ms nd nd' nd'')
  then have "db_wf (nd_db nd')" using life_sound by (simp add: sound_def)
  moreover have "evolves (nd_db nd') (nd_db nd'')"
    using steps_and_runs [of nd' nd''] lived.hyps by (simp add: node_step_def good_step_def db_step_def)
  ultimately show ?case using rows_kept_trans [of ms _ "nd_db nd'" "[]"] lived by (simp add: evolves_kept)
next
  case (recovered ms nd nd' pre i s m reopened d)
  then have "db_wf (nd_db nd')" using life_sound by (simp add: sound_def)
  from recovered_kept [OF recovered.hyps(4,2) this recovered.hyps(3)] show ?case
    using rows_kept_trans recovered by (simp add: set_db_def)
next
  case (deleted ms nd nd' i)
  then show ?case using rows_kept_trans deleted_kept by (simp add: set_db_def)
qed

section \<open>What holds of every run\<close>

text \<open>The empty database of a scheduler that starts for the first time.\<close>

definition fresh :: "node \<Rightarrow> bool" where
  "fresh nd \<longleftrightarrow> sessions (nd_db nd) = [] \<and> executions (nd_db nd) = [] \<and> task_queue (nd_db nd) = [] \<and>
     events (nd_db nd) = [] \<and> sv_workers (nd_supervisor nd) = []"

definition reachable :: "node \<Rightarrow> bool" where
  "reachable nd \<longleftrightarrow> (\<exists>nd0 ms. fresh nd0 \<and> life ms nd0 nd)"

lemma fresh_sound: "fresh nd \<Longrightarrow> sound nd"
  by (auto simp: sound_def fresh_def db_wf_def log_wf_def queue_wf_def parents_first_def roots_closed_def
      session_row_def sql_find_def supervisor_wf_def worker_ids_def worker_count_def split: option.splits)

lemma reachable_ok:
  assumes "reachable nd"
  shows "db_wf (nd_db nd) \<and> roots_closed (nd_db nd) \<and> supervisor_wf (nd_supervisor nd)"
  using assms life_sound fresh_sound by (fastforce simp: reachable_def sound_def)

text \<open>
  C1. In every state the scheduler can reach, whatever the interleaving of requests, ticks,
  crashes, timeouts, recoveries and deletions, and however stale the rows an operation was prepared from: a
  session is to be terminated exactly when it has an outcome, and has completed exactly then; a
  command token comes with its type and time; its execution exists, a parent belongs to the same
  execution; an execution has one root at most, and has an outcome itself if its root has one.
\<close>

theorem reachable_consistent:
  assumes "reachable nd" and s: "s \<in> set (sessions (nd_db nd))"
  shows "(s_desired s = DTerminate \<longleftrightarrow> s_outcome s \<noteq> None) \<and>
    (s_completed_at s = None \<longleftrightarrow> s_outcome s = None) \<and>
    (s_command_token s = None \<longleftrightarrow> s_command_type s = None) \<and>
    (s_command_token s = None \<longleftrightarrow> s_command_at s = None) \<and>
    (s_command_has_payload s \<longrightarrow> s_command_type s \<in> {Some CAssign, Some CFeedTurn}) \<and>
    (\<exists>x. execution_row (s_execution_id s) (nd_db nd) = Some x \<and>
       (x_desired x = DTerminate \<longleftrightarrow> x_outcome x \<noteq> None) \<and> x_desired x \<noteq> DStop \<and>
       (s_parent_session_id s = None \<longrightarrow> s_outcome s \<noteq> None \<longrightarrow> x_outcome x \<noteq> None)) \<and>
    (\<forall>p. s_parent_session_id s = Some p \<longrightarrow>
       (\<exists>q. session_row p (nd_db nd) = Some q \<and> s_execution_id q = s_execution_id s)) \<and>
    (\<forall>r \<in> set (sessions (nd_db nd)). s_parent_session_id s = None \<longrightarrow> s_parent_session_id r = None \<longrightarrow>
       s_execution_id r = s_execution_id s \<longrightarrow> r = s)"
proof -
  let ?d = "nd_db nd"
  have ok: "db_wf ?d" "roots_closed ?d" using reachable_ok [OF assms(1)] by auto
  have wf: "session_wf s" and "execution_row (s_execution_id s) ?d \<noteq> None"
    and par: "\<forall>p. s_parent_session_id s = Some p \<longrightarrow> p \<noteq> s_id s \<and>
      map_option s_execution_id (session_row p ?d) = Some (s_execution_id s)"
    using ok(1) s by (auto simp: db_wf_def)
  then obtain x where x: "execution_row (s_execution_id s) ?d = Some x" by blast
  have "session_row (s_id s) ?d = Some s"
    using ok(1) s by (auto simp: session_row_def db_wf_def sql_find_key_iff)
  with ok(2) x have "s_parent_session_id s = None \<Longrightarrow> s_outcome s \<noteq> None \<Longrightarrow> x_outcome x \<noteq> None"
    unfolding roots_closed_def closed_exec_def by force
  moreover have "inj_on s_execution_id {s \<in> set (sessions ?d). s_parent_session_id s = None}"
    using ok(1) by (simp add: db_wf_def distinct_map)
  ultimately show ?thesis
    using wf par x db_wf_execution [OF ok(1) x] s by (auto simp: session_wf_def execution_wf_def inj_on_def)
qed

text \<open>
  C16. An outcome is final until the user recovers the session. Along every life of a sound node, with its
  recoveries and deletions, a session that no deletion removed is still there, with its execution, its parent and its
  agent. If it had an outcome and was not recovered since, it has the same outcome and time of completion, and is
  to be terminated. Executions are never removed; one that had an outcome and was not reopened since, by the recovery
  of its root, has that outcome and time still.
\<close>

theorem outcome_final:
  assumes "sound nd" and "life ms nd nd'"
  shows "(\<forall>s. session_row i (nd_db nd) = Some s \<and> i \<notin> set (removals ms) \<longrightarrow>
      (\<exists>s'. session_row i (nd_db nd') = Some s' \<and> s_execution_id s' = s_execution_id s \<and>
        s_parent_session_id s' = s_parent_session_id s \<and> s_agent_id s' = s_agent_id s \<and>
        (s_outcome s \<noteq> None \<and> i \<notin> set (recoveries ms) \<longrightarrow> s_outcome s' = s_outcome s \<and>
           s_completed_at s' = s_completed_at s \<and> s_desired s' = DTerminate))) \<and>
    (\<forall>x. execution_row e (nd_db nd) = Some x \<longrightarrow>
      (\<exists>x'. execution_row e (nd_db nd') = Some x' \<and>
        (x_outcome x \<noteq> None \<and> e \<notin> set (reopenings ms) \<longrightarrow> x_outcome x' = x_outcome x \<and>
           x_completed_at x' = x_completed_at x \<and> x_desired x' = DTerminate)))"
proof -
  have kept: "rows_kept ms (nd_db nd) (nd_db nd')" using life_kept [OF assms(2,1)] .
  have wf: "db_wf (nd_db nd')" using life_sound [OF assms(2,1)] by (simp add: sound_def)
  have "s_desired s' = DTerminate" if "session_row i (nd_db nd') = Some s'" "s_outcome s' \<noteq> None" for s'
    using db_wf_session [OF wf that(1)] that(2) by (simp add: session_wf_def)
  moreover have "x_desired x' = DTerminate" if "execution_row e (nd_db nd') = Some x'" "x_outcome x' \<noteq> None" for x'
    using db_wf_execution [OF wf that(1)] that(2) by (simp add: execution_wf_def)
  moreover have "s_id s = i" if "session_row i (nd_db nd) = Some s" for s using session_rowD [OF that] by simp
  moreover have "x_id x = e" if "execution_row e (nd_db nd) = Some x" for x using execution_rowD [OF that] by simp
  ultimately show ?thesis
    using kept unfolding rows_kept_def session_kept_def execution_kept_def by (intro conjI allI impI) metis+
qed


text \<open>
  The pool never holds more worker processes than it may, and never tracks one twice.
\<close>

theorem pool_bounded:
  assumes "reachable nd"
  shows "distinct (worker_ids (nd_supervisor nd)) \<and>
    (\<forall>m. sv_max_workers (nd_supervisor nd) = Some m \<longrightarrow> worker_count (nd_supervisor nd) \<le> m)"
  using reachable_ok [OF assms] by (auto simp: supervisor_wf_def)


section \<open>A run from the start\<close>

definition demo_agent :: agent where
  "demo_agent = \<lparr>a_id = ''a'', a_name = ''n'', a_description = None, a_agent_type = ''acp'', a_driver_id = None,
     a_config = to_string (JObj []), a_sandbox_config = None, a_system_prompt = None, a_enabled = True,
     a_deleted_at = None, a_created_at = 0, a_updated_at = 0\<rparr>"

definition demo_node :: "db \<Rightarrow> node" where
  "demo_node d = \<lparr>nd_db = d, nd_supervisor = \<lparr>sv_workers = [], sv_max_workers = Some 2, sv_shutting_down = False\<rparr>,
     nd_heartbeats = (\<lambda>_. None), nd_started_at = 0, nd_instant = 0, nd_hb_timeout = 60\<rparr>"

lemma set_db_demo: "set_db d' (demo_node d) = demo_node d'" and demo_node_db [simp]: "nd_db (demo_node d) = d"
  by (simp_all add: set_db_def demo_node_def)

text \<open>An agent is registered, an execution with its root session is created, the user terminates it.\<close>

definition demo_agents :: db where
  "demo_agents = empty_db\<lparr>agents := [demo_agent]\<rparr>"

definition demo_created :: db where
  "demo_created = add_execution (new_execution ''e'' ''c'' None None None 2 5 (to_string JNull)
     (''open'', to_string JNull) 0) demo_agents"

definition demo_root :: db where
  "demo_root = add_session (new_session ''r'' ''e'' ''a'' None None None None ''slug'' (to_string JNull) 0) demo_created"

definition demo_ended :: db where
  "demo_ended = snd (terminate_session demo_root ''e'' ''r'' ''user'' demo_root)"

text \<open>Or the session fails, and the user recovers it with a message.\<close>

definition demo_failed :: db where
  "demo_failed = snd (terminate_session_failed demo_root ''e'' ''r'' ''system'' False demo_root)"

definition demo_recovered :: db where
  "demo_recovered = snd (recover_session ''r'' (Some ''again'') demo_failed demo_failed)"

lemma demo_runs:
  "runs (demo_node empty_db) (demo_node demo_root)" "runs (demo_node demo_root) (demo_node demo_ended)"
  "runs (demo_node demo_root) (demo_node demo_failed)"
proof -
  have 1: "sys_step (demo_node empty_db) (demo_node demo_agents)"
    using catalog [where nd = "demo_node empty_db" and ags = "[demo_agent]" and drs = "[]" and cfg = "[]"]
    by (simp add: set_db_demo demo_agents_def empty_db_def)
  have t: "create_in_tx ''e'' ''c'' None None None 2 5 (to_string JNull) (''open'', to_string JNull) demo_agents =
      Inr \<lparr>tx_db = demo_created, tx_execution_id = ''e'', tx_verified = []\<rparr>"
    by code_simp
  have 2: "sys_step (demo_node demo_agents) (demo_node demo_created)"
    using new_execution [where nd = "demo_node demo_agents", unfolded demo_node_db, OF t] by (simp add: set_db_demo)
  have c: "create ''r'' ''e'' ''a'' None None None None ''slug'' (to_string JNull) demo_created = (Inr (), demo_root)"
    by code_simp
  have 3: "sys_step (demo_node demo_created) (demo_node demo_root)"
    using new_session [where nd = "demo_node demo_created", unfolded demo_node_db, OF c]
    by (simp add: set_db_demo demo_created_def demo_agents_def empty_db_def)
  have "terminate_session demo_root ''e'' ''r'' ''user'' demo_root =
      (fst (terminate_session demo_root ''e'' ''r'' ''user'' demo_root), demo_ended)"
    by (simp add: demo_ended_def)
  from terminate [where nd = "demo_node demo_root", unfolded demo_node_db, OF recalls_refl this]
  have 4: "sys_step (demo_node demo_root) (demo_node demo_ended)" by (simp add: set_db_demo)
  show "runs (demo_node demo_root) (demo_node demo_ended)" by (rule go [OF stop 4])
  show "runs (demo_node empty_db) (demo_node demo_root)" by (rule go [OF go [OF go [OF stop 1] 2] 3])
  have "terminate_session_failed demo_root ''e'' ''r'' ''system'' False demo_root =
      (fst (terminate_session_failed demo_root ''e'' ''r'' ''system'' False demo_root), demo_failed)"
    by (simp add: demo_failed_def)
  from fail [where nd = "demo_node demo_root", unfolded demo_node_db, OF recalls_refl this]
  show "runs (demo_node demo_root) (demo_node demo_failed)" by (simp add: set_db_demo go [OF stop])
qed

lemma demo_life: "life [Recovered ''r'' (Some ''e'')] (demo_node demo_root) (demo_node demo_recovered)"
proof -
  have "fst (recover_session ''r'' (Some ''again'') demo_failed demo_failed) = Inr True" by code_simp
  then have run: "recover_session ''r'' (Some ''again'') demo_failed demo_failed = (Inr True, demo_recovered)"
    by (simp add: demo_recovered_def prod_eq_iff)
  have "map_option s_execution_id (session_row ''r'' demo_failed) = Some ''e''" by code_simp
  then obtain s where s: "session_row ''r'' demo_failed = Some s" "s_execution_id s = ''e''" by auto
  from recovered [where nd' = "demo_node demo_failed", unfolded demo_node_db, OF runs_live [OF demo_runs(3)] recalls_refl s(1) run]
  show ?thesis by (simp add: set_db_demo s(2))
qed

lemma life_trans: "life ms nd' nd'' \<Longrightarrow> life [] nd nd' \<Longrightarrow> life ms nd nd''"
proof (induction rule: life.induct)
  case (recovered ms nd0 nd' pre i s m reopened d)
  show ?case by (rule life.recovered [OF recovered.IH [OF recovered.prems] recovered.hyps(2-4)])
qed (auto intro: life.intros)

lemma demo_reachable: "reachable (demo_node demo_recovered)"
proof -
  have "fresh (demo_node empty_db)" by (simp add: fresh_def demo_node_def empty_db_def)
  with life_trans [OF demo_life runs_live [OF demo_runs(1)]] show ?thesis unfolding reachable_def by blast
qed

lemma demo_root_wf: "db_wf demo_root"
  by (simp add: db_wf_def demo_root_def demo_created_def demo_agents_def empty_db_def new_session_def
      new_execution_def session_wf_def execution_wf_def log_wf_def queue_wf_def parents_first_def lineage_def
      execution_row_def sql_find_def)

lemma demo_root_sound: "sound (demo_node demo_root)"
proof -
  have "roots_closed demo_root"
    by (simp add: roots_closed_def demo_root_def demo_created_def demo_agents_def empty_db_def new_session_def session_row_def sql_find_def)
  then show ?thesis
    using demo_root_wf by (simp add: sound_def) (simp add: demo_node_def supervisor_wf_def worker_ids_def worker_count_def)
qed

theorem reachable_consistent_witness:
  "\<exists>s x. sessions demo_recovered = [s] \<and> s_desired s = DRun \<and> s_outcome s = None \<and>
     execution_row ''e'' demo_recovered = Some x \<and> x_outcome x = None"
proof -
  have l: "length (sessions demo_recovered) = 1" "list_all (\<lambda>s. s_desired s = DRun \<and>
      s_execution_id s = ''e'' \<and> s_parent_session_id s = None) (sessions demo_recovered)"
    "map_option x_desired (execution_row ''e'' demo_recovered) = Some DRun" by code_simp+
  then obtain s where s: "sessions demo_recovered = [s]" by (auto simp: length_Suc_conv)
  with l reachable_consistent [OF demo_reachable, of s] show ?thesis by auto
qed

text \<open>A session of two is terminated, and so is its parent; then the child's row is deleted.\<close>

definition demo_child_closed :: db where
  "demo_child_closed = snd (terminate_session demo_db ''e'' ''k'' ''user'' demo_db)"

definition demo_both_closed :: db where
  "demo_both_closed = snd (terminate_session demo_child_closed ''e'' ''r'' ''user'' demo_child_closed)"

definition demo_removed :: db where
  "demo_removed = delete_session ''k'' demo_both_closed"

lemma terminate_runs: "runs (demo_node d) (demo_node (snd (terminate_session d eid sid who d)))"
proof -
  have "terminate_session d eid sid who d = (fst (terminate_session d eid sid who d), snd (terminate_session d eid sid who d))" by simp
  from terminate [where nd = "demo_node d", unfolded demo_node_db, OF recalls_refl this]
  show ?thesis by (simp add: set_db_demo go [OF stop])
qed

lemma demo_both_sound: "sound (demo_node demo_both_closed)"
proof -
  have "roots_closed demo_db" by (simp add: roots_closed_def demo_defs session_row_def sql_find_def)
  then have "sound (demo_node demo_db)"
    using demo_db_wf by (simp add: sound_def) (simp add: demo_node_def supervisor_wf_def worker_ids_def worker_count_def)
  then have "sound (demo_node demo_child_closed)"
    unfolding demo_child_closed_def by (rule life_sound [OF runs_live [OF terminate_runs]])
  then show ?thesis unfolding demo_both_closed_def by (rule life_sound [OF runs_live [OF terminate_runs]])
qed

lemma demo_removal: "life [Deleted [''k'']] (demo_node demo_both_closed) (demo_node demo_removed)"
proof -
  have "erased ''k'' demo_both_closed = [''k'']" by code_simp
  with deleted [OF born, of "''k''" "demo_node demo_both_closed"] show ?thesis
    by (simp add: set_db_demo demo_removed_def)
qed

theorem outcome_final_witness:
  "session_row ''k'' demo_removed = None \<and>
   (\<exists>s'. session_row ''r'' demo_removed = Some s' \<and> s_outcome s' = Some Canceled \<and> s_desired s' = DTerminate)"
proof -
  have k: "session_row ''k'' demo_removed = None" by code_simp
  have "map_option s_outcome (session_row ''r'' demo_both_closed) = Some (Some Canceled)" by code_simp
  then obtain s where s: "session_row ''r'' demo_both_closed = Some s" "s_outcome s = Some Canceled" by auto
  have "removals [Deleted [''k'']] = [''k'']" "recoveries [Deleted [''k'']] = []" by code_simp+
  with outcome_final [OF demo_both_sound demo_removal, of "''r''" "''e''"] s k show ?thesis by auto
qed


theorem pool_bounded_witness: "worker_count (nd_supervisor (demo_node demo_recovered)) \<le> 2"
  using pool_bounded [OF demo_reachable] by (simp add: demo_node_def)

text \<open>An unassigned session with work is claimable.\<close>

theorem claimable_agrees_witness:
  "find_unassigned_with_work (demo_db\<lparr>sessions := [(demo_session ''u'' None Unassigned)\<lparr>s_worker_id := None\<rparr>]\<rparr>) \<noteq> None"
proof -
  have "count_claimable (demo_db\<lparr>sessions := [(demo_session ''u'' None Unassigned)\<lparr>s_worker_id := None\<rparr>]\<rparr>) \<noteq> 0"
    by code_simp
  then show ?thesis by (simp only: claimable_agrees [THEN conjunct1, symmetric] simp_thms)
qed

end
