(* ===== verification/Session_Routes_Props.thy ===== *)
theory Session_Routes_Props
  imports Lifecycle
begin

text \<open>What the routes on sessions do: a recovery restarts a failed session, a continuation hands its work to a new one.\<close>

section \<open>Recovery\<close>

lemma joined_inbox: "has_turn d s \<longleftrightarrow> inbox_of (s_id s) d \<noteq> []"
  by (auto simp: has_turn_def inbox_of_def list_ex_iff filter_empty_conv)

text \<open>
  C12. Recovery. The user recovers a session of his choice: an error leaves the database as it was. Otherwise the session had
  failed and runs again, unassigned, without outcome, worker or command, its worktree kept; it can be claimed at once if there
  is a message, a session of the agent to resume or an older turn. Its execution is open then: a root's is reopened, a child's
  was open. The message goes behind the turns that wait; no other session, execution or inbox changes, and the database
  stays consistent.
\<close>

theorem recover_restarts:
  assumes wf: "db_wf d" "roots_closed d" and pre: "recalls pre d" and run: "recover_session i m pre d = (r, d')"
  shows "case r of Inl e \<Rightarrow> d' = d
    | Inr reopened \<Rightarrow> db_wf d' \<and> roots_closed d' \<and> (\<exists>s s' x'. session_row i d = Some s \<and> s_outcome s = Some Failed \<and>
        session_row i d' = Some s' \<and> s_desired s' = DRun \<and> s_executor_state s' = Unassigned \<and> s_outcome s' = None \<and>
        s_worker_id s' = None \<and> s_command_token s' = None \<and> s_recovery_attempts s' = 0 \<and> \<not> s_parent_notified s' \<and>
        s_worktree_path s' = s_worktree_path s \<and>
        execution_row (s_execution_id s) d' = Some x' \<and> x_desired x' = DRun \<and> x_outcome x' = None \<and>
        reopened = (s_parent_session_id s = None) \<and>
        claimable d' s' = (m \<noteq> None \<or> s_agent_session_id s' \<noteq> None \<or> inbox_of i d \<noteq> []) \<and>
        inbox_of i d' = inbox_of i d @ (case m of None \<Rightarrow> []
          | Some m \<Rightarrow> [\<lparr>ta_execution_id = s_execution_id s, ta_session_id = i, ta_payload = recovery_message m\<rparr>]) \<and>
        (\<forall>j. j \<noteq> i \<longrightarrow> session_row j d' = session_row j d \<and> inbox_of j d' = inbox_of j d) \<and>
        (\<forall>e. e \<noteq> s_execution_id s \<or> \<not> reopened \<longrightarrow> execution_row e d' = execution_row e d))"
proof (cases r)
  case (Inl e)
  then show ?thesis using run by (auto simp: recover_session_def dest: run_tx_Err [OF _ commits_recover] split: sum.splits)
next
  case (Inr b)
  from run [unfolded Inr] pre wf(1) show ?thesis
  proof (rule recover_session_Inr)
    fix s session agent
    assume s: "session_row i d = Some s" "s_outcome s = Some Failed" "same_place session s" "s_id session = i"
      and child: "s_parent_session_id s \<noteq> None \<Longrightarrow> \<not> b \<and> (\<exists>x. execution_row (s_execution_id s) d = Some x \<and> x_desired x \<noteq> DTerminate \<and> x_outcome x = None)"
      and root: "s_parent_session_id s = None \<Longrightarrow> \<exists>x. execution_row (s_execution_id s) d = Some x \<and> b = (x_desired x = DTerminate \<or> x_outcome x \<noteq> None)"
      and d': "d' = recovered_db session agent m b d"
    let ?s' = "recovered_row (\<not> is_sdk agent \<and> s_agent_session_id session \<noteq> None) (clock d) s"
    have eid: "s_execution_id session = s_execution_id s" using s(3) by (simp add: same_place_def)
    have s': "session_row i d' = Some ?s'" using s by (simp add: d' recovered_db_rows)
    have rootb: b if p: "s_parent_session_id s = None"
    proof -
      have "closed_exec (s_execution_id s) d" using wf(2) s p by (auto simp: roots_closed_def)
      then show ?thesis using root [OF p] by (auto simp: closed_exec_def)
    qed
    then have b: "b = (s_parent_session_id s = None)" using child by blast
    have "\<exists>x'. execution_row (s_execution_id s) d' = Some x' \<and> x_desired x' = DRun \<and> x_outcome x' = None"
    proof (cases "s_parent_session_id s")
      case None
      then obtain x where "execution_row (s_execution_id s) d = Some x" "x_desired x = DTerminate \<or> x_outcome x \<noteq> None"
        using root rootb by blast
      with rootb [OF None] show ?thesis by (simp add: d' recovered_db_executions eid)
    next
      case (Some p)
      with child obtain x where x: "execution_row (s_execution_id s) d = Some x" "x_desired x \<noteq> DTerminate" "x_outcome x = None" by auto
      moreover have "x_desired x \<noteq> DStop" using db_wf_execution [OF wf(1) x(1)] by (simp add: execution_wf_def)
      ultimately show ?thesis using Some child by (cases "x_desired x") (simp_all add: d' recovered_db_executions)
    qed
    then obtain x' where x': "execution_row (s_execution_id s) d' = Some x'" "x_desired x' = DRun" "x_outcome x' = None" by blast
    have inbox: "inbox_of j d' = inbox_of j d @ (case m of None \<Rightarrow> []
        | Some m \<Rightarrow> if j = i then [\<lparr>ta_execution_id = s_execution_id s, ta_session_id = i, ta_payload = recovery_message m\<rparr>] else [])" for j
      by (simp add: d' recovered_db_inbox s(4) eid split: option.splits)
    have "s_id ?s' = i" using session_rowD [OF s(1)] by (simp add: recovered_row_def)
    then have claim: "claimable d' ?s' = (m \<noteq> None \<or> s_agent_session_id ?s' \<noteq> None \<or> inbox_of i d \<noteq> [])"
      using x' inbox [of i] by (auto simp: claimable_def joined_def joined_inbox recovered_row_def split: option.splits)
    have fields: "s_desired ?s' = DRun \<and> s_executor_state ?s' = Unassigned \<and> s_outcome ?s' = None \<and> s_worker_id ?s' = None \<and>
        s_command_token ?s' = None \<and> s_recovery_attempts ?s' = 0 \<and> \<not> s_parent_notified ?s' \<and> s_worktree_path ?s' = s_worktree_path s"
      by (simp add: recovered_row_def)
    have others: "session_row j d' = session_row j d \<and> inbox_of j d' = inbox_of j d" if "j \<noteq> i" for j
      using that by (simp add: inbox) (simp add: d' recovered_db_rows s(4) split: option.splits)
    have execs: "execution_row e d' = execution_row e d" if "e \<noteq> s_execution_id s \<or> \<not> b" for e
      using that by (auto simp: d' recovered_db_executions eid)
    have here: "inbox_of i d' = inbox_of i d @ (case m of None \<Rightarrow> []
        | Some m \<Rightarrow> [\<lparr>ta_execution_id = s_execution_id s, ta_session_id = i, ta_payload = recovery_message m\<rparr>])"
      using inbox [of i] by (simp cong: option.case_cong)
    show ?thesis
      unfolding Inr sum.case
      using recover_session_keeps [OF run pre wf(1)] wf(2) s(1,2) s' x' b claim here others execs fields by blast
  qed
qed

theorem recover_restarts_witness:
  "\<exists>s'. session_row ''r'' demo_recovered = Some s' \<and> s_desired s' = DRun \<and> claimable demo_recovered s' \<and>
     inbox_of ''r'' demo_recovered = [\<lparr>ta_execution_id = ''e'', ta_session_id = ''r'', ta_payload = recovery_message ''again''\<rparr>]"
proof -
  have wf: "db_wf demo_failed" "roots_closed demo_failed"
    using life_sound [OF runs_live [OF demo_runs(3)] demo_root_sound] by (simp_all add: sound_def)
  have run: "recover_session ''r'' (Some ''again'') demo_failed demo_failed = (Inr True, demo_recovered)"
  proof -
    have "fst (recover_session ''r'' (Some ''again'') demo_failed demo_failed) = Inr True" by code_simp
    then show ?thesis by (simp add: demo_recovered_def prod_eq_iff)
  qed
  have "map_option s_execution_id (session_row ''r'' demo_failed) = Some ''e''" "inbox_of ''r'' demo_failed = []" by code_simp+
  with recover_restarts [OF wf recalls_refl run] show ?thesis by auto
qed

end
