(* ===== verification/Continue_Props.thy ===== *)
theory Continue_Props
  imports Session_Routes_Props
begin

text \<open>What a continuation does to the rows and inboxes, statement by statement, and its whole effect.\<close>

section \<open>Continuation\<close>

text \<open>The rows after the worktree and the agent's session have moved.\<close>

definition carried :: "agent \<Rightarrow> session \<Rightarrow> string option" where
  "carried agent row = (if is_sdk agent then s_agent_session_id row else None)"

lemma release_worktree_row:
  assumes "release_worktree old t = Inr (u, t')"
  shows "session_row j (tx_db t') = (if j = s_id old \<and> s_worktree_path old \<noteq> None
      then map_option (\<lambda>s. s\<lparr>s_worktree_path := None, s_base_commit_sha := None, s_updated_at := clock (tx_db t)\<rparr>) (session_row j (tx_db t))
      else session_row j (tx_db t))"
    and "executions (tx_db t') = executions (tx_db t)" and "inbox_of j (tx_db t') = inbox_of j (tx_db t)" and "clock (tx_db t') = clock (tx_db t)"
  using assms session_row_update_id [where Q = "\<lambda>_. True" and f = "\<lambda>now s. s\<lparr>s_worktree_path := None, s_base_commit_sha := None, s_updated_at := now\<rparr>"
    and i = j and j = "s_id old" and d = "tx_db t"]
  by (auto simp: release_worktree_def tx_iffs split: if_splits)

lemma transfer_row:
  assumes "transfer_agent_session old agent row new t = Inr (u, t')" and "new \<noteq> s_id old"
    and "session_row (s_id old) (tx_db t) = Some r" "s_agent_session_id r = s_agent_session_id row"
  shows "session_row j (tx_db t') = (if carried agent row = None then session_row j (tx_db t)
      else if j = new then map_option (\<lambda>s. s\<lparr>s_agent_session_id := carried agent row, s_updated_at := clock (tx_db t)\<rparr>) (session_row j (tx_db t))
      else if j = s_id old then map_option (\<lambda>s. s\<lparr>s_agent_session_id := None, s_updated_at := clock (tx_db t)\<rparr>) (session_row j (tx_db t))
      else session_row j (tx_db t))"
    and "executions (tx_db t') = executions (tx_db t)" and "inbox_of j (tx_db t') = inbox_of j (tx_db t)" and "clock (tx_db t') = clock (tx_db t)"
proof -
  note upd = session_row_update_id [where Q = "\<lambda>_. True" and f = "\<lambda>now s. s\<lparr>s_agent_session_id := carried agent row, s_updated_at := now\<rparr>"
      and j = new and d = "tx_db t", simplified]
  note clr = session_row_update_id [where Q = "\<lambda>s. s_agent_session_id s = carried agent row" and f = "\<lambda>now s. s\<lparr>s_agent_session_id := None, s_updated_at := now\<rparr>"
      and i = j and j = "s_id old"]
  show "session_row j (tx_db t') = (if carried agent row = None then session_row j (tx_db t)
      else if j = new then map_option (\<lambda>s. s\<lparr>s_agent_session_id := carried agent row, s_updated_at := clock (tx_db t)\<rparr>) (session_row j (tx_db t))
      else if j = s_id old then map_option (\<lambda>s. s\<lparr>s_agent_session_id := None, s_updated_at := clock (tx_db t)\<rparr>) (session_row j (tx_db t))
      else session_row j (tx_db t))"
    using assms upd [of j] upd [of "s_id old"] clr
    by (cases "carried agent row") (auto simp: transfer_agent_session_def carried_def tx_iffs split: if_splits)
qed (use assms(1) in \<open>auto simp: transfer_agent_session_def tx_iffs split: option.splits if_splits\<close>)

lemma continue_event_db:
  "continue_event what sid ty p t = Inr (u, t') \<Longrightarrow> tx_db t' = add_event (tx_execution_id t) (Some sid) ty (to_string p) None (tx_db t)"
  by (auto simp: continue_event_def tx_iffs dest: insert_in_tx_db(1))

lemma frame_resume_parent: "tx_keeps same_executions (resume_parent h pid who)"
  unfolding resume_parent_def by (intro frame_rules)

definition prompt_task :: "session \<Rightarrow> json list \<Rightarrow> string \<Rightarrow> task_assignment" where
  "prompt_task old parts new = \<lparr>ta_execution_id = s_execution_id old, ta_session_id = new, ta_payload = continue_prompt parts\<rparr>"

definition continued_task :: "session \<Rightarrow> string \<Rightarrow> string \<Rightarrow> task_assignment" where
  "continued_task old p new = \<lparr>ta_execution_id = s_execution_id old, ta_session_id = p, ta_payload = continued_notification (s_id old) new\<rparr>"

lemma hand_over_effect:
  assumes run: "hand_over old p agent parts row q new t = Inr (r, t')"
    and rows: "session_row p (tx_db t) = Some q" "session_row (s_id old) (tx_db t) = Some row" "session_row new (tx_db t) = Some n"
    and ne: "new \<noteq> s_id old" "new \<noteq> p" "p \<noteq> s_id old"
  shows "r = Inr new" and "executions (tx_db t') = executions (tx_db t)"
    and "inbox_of j (tx_db t') = inbox_of j (tx_db t) @ (if j = new then [prompt_task old parts new] else []) @ (if j = p then [continued_task old p new] else [])"
    and "session_row new (tx_db t') = Some (if carried agent row = None then n
      else n\<lparr>s_agent_session_id := carried agent row, s_updated_at := clock (tx_db t)\<rparr>)"
    and "\<exists>row'. session_row (s_id old) (tx_db t') = Some row' \<and> s_worktree_path row' = (if s_worktree_path old = None then s_worktree_path row else None) \<and>
      s_agent_session_id row' = (if is_sdk agent then None else s_agent_session_id row) \<and> s_outcome row' = s_outcome row"
    and "session_row p (tx_db t') = Some (if s_desired q = DStop then desired_row DRun ''system:continue_from_notify'' (clock (tx_db t)) q else q)"
    and "j \<noteq> new \<Longrightarrow> j \<noteq> s_id old \<Longrightarrow> j \<noteq> p \<Longrightarrow> session_row j (tx_db t') = session_row j (tx_db t)"
proof -
  from run obtain t1 t2 t3 t4 t5 t6 where t1: "release_worktree old t = Inr ((), t1)"
      and t2: "transfer_agent_session old agent row new t1 = Inr ((), t2)"
      and t3: "continue_event ''insert prompt event: '' new EvMessage (continue_prompt parts) t2 = Inr ((), t3)"
      and t4: "t4 = tx_put (enqueue (s_execution_id old) new (to_string (continue_prompt parts)) (Some ''user'') (tx_db t3)) t3"
      and t5: "(if s_desired q = DStop
         then resume_parent (\<lambda>e. Inl (Database (''auto-resume state_change event: '' @ show_error e))) p ''system:continue_from_notify''
         else tx_ret ()) t4 = (Inr ((), t5) :: (scheduler_error + string) + unit \<times> exec_tx)"
      and t6: "continue_event ''insert platform event: '' p EvPlatform (continued_data (s_id old) new)
         (tx_put (enqueue (s_execution_id old) p (to_string (continued_notification (s_id old) new)) (Some (''child_result:'' @ new)) (tx_db t5)) t5) = Inr ((), t')"
      and r: "r = Inr new"
    by (auto simp: hand_over_def tx_iffs tx_enqueue_iff)
  show "r = Inr new" by (rule r)
  have rel: "session_row (s_id old) (tx_db t1) = Some (if s_worktree_path old = None then row
      else row\<lparr>s_worktree_path := None, s_base_commit_sha := None, s_updated_at := clock (tx_db t)\<rparr>)"
    using release_worktree_row(1) [OF t1, of "s_id old"] rows by simp
  have tr: "session_row j (tx_db t2) = (if carried agent row = None then session_row j (tx_db t1)
      else if j = new then map_option (\<lambda>s. s\<lparr>s_agent_session_id := carried agent row, s_updated_at := clock (tx_db t)\<rparr>) (session_row j (tx_db t1))
      else if j = s_id old then map_option (\<lambda>s. s\<lparr>s_agent_session_id := None, s_updated_at := clock (tx_db t)\<rparr>) (session_row j (tx_db t1))
      else session_row j (tx_db t1))" for j
    using transfer_row(1) [OF t2 ne(1) rel, of j] release_worktree_row(4) [OF t1] by simp
  have d4: "session_row j (tx_db t4) = session_row j (tx_db t2)" "executions (tx_db t4) = executions (tx_db t)" "clock (tx_db t4) = clock (tx_db t)"
    "inbox_of j (tx_db t4) = inbox_of j (tx_db t) @ (if j = new then [prompt_task old parts new] else [])" for j
    using continue_event_db [OF t3] release_worktree_row(2-4) [OF t1] transfer_row(2-4) [OF t2 ne(1) rel]
    by (simp_all add: t4 inbox_of_enqueue prompt_task_def)
  have pq: "session_row p (tx_db t4) = Some q" using d4(1) tr ne release_worktree_row(1) [OF t1, of p] rows by simp
  have d5: "session_row j (tx_db t5) = (if j = p \<and> s_desired q = DStop
      then Some (desired_row DRun ''system:continue_from_notify'' (clock (tx_db t)) q) else session_row j (tx_db t2))"
    "executions (tx_db t5) = executions (tx_db t)" "inbox_of j (tx_db t5) = inbox_of j (tx_db t4)" for j
  proof -
    have "(session_row j (tx_db t5) = (if j = p \<and> s_desired q = DStop
        then Some (desired_row DRun ''system:continue_from_notify'' (clock (tx_db t)) q) else session_row j (tx_db t2))) \<and>
      executions (tx_db t5) = executions (tx_db t4) \<and> inbox_of j (tx_db t5) = inbox_of j (tx_db t4)" for j
    proof (cases "s_desired q = DStop")
      case True
      note res = t5 [unfolded if_P [OF True]]
      from resume_parent_effect [OF res pq] tx_keepsD [OF frame_resume_parent res] True show ?thesis
        by (simp add: d4(1,3) same_executions_def)
    next
      case False
      with t5 show ?thesis by (simp add: tx_iffs d4(1))
    qed
    with d4(2) show "session_row j (tx_db t5) = (if j = p \<and> s_desired q = DStop
        then Some (desired_row DRun ''system:continue_from_notify'' (clock (tx_db t)) q) else session_row j (tx_db t2))"
      and "executions (tx_db t5) = executions (tx_db t)" and "inbox_of j (tx_db t5) = inbox_of j (tx_db t4)" for j
      by auto
  qed
  have d': "session_row j (tx_db t') = session_row j (tx_db t5)" "executions (tx_db t') = executions (tx_db t)" for j
    using continue_event_db [OF t6] d5(2) by simp_all
  show "executions (tx_db t') = executions (tx_db t)" by (rule d')
  show "inbox_of j (tx_db t') = inbox_of j (tx_db t) @ (if j = new then [prompt_task old parts new] else []) @ (if j = p then [continued_task old p new] else [])"
    using continue_event_db [OF t6] d5(3) d4(4) by (simp add: inbox_of_enqueue continued_task_def)
  show "session_row new (tx_db t') = Some (if carried agent row = None then n
      else n\<lparr>s_agent_session_id := carried agent row, s_updated_at := clock (tx_db t)\<rparr>)"
    using d'(1) d5(1) tr ne rows release_worktree_row(1) [OF t1, of new] by simp
  show "\<exists>row'. session_row (s_id old) (tx_db t') = Some row' \<and> s_worktree_path row' = (if s_worktree_path old = None then s_worktree_path row else None) \<and>
      s_agent_session_id row' = (if is_sdk agent then None else s_agent_session_id row) \<and> s_outcome row' = s_outcome row"
    using d'(1) d5(1) tr ne rel by (auto simp: carried_def)
  show "session_row p (tx_db t') = Some (if s_desired q = DStop then desired_row DRun ''system:continue_from_notify'' (clock (tx_db t)) q else q)"
    using d'(1) d5(1) pq d4(1) by simp
  show "j \<noteq> new \<Longrightarrow> j \<noteq> s_id old \<Longrightarrow> j \<noteq> p \<Longrightarrow> session_row j (tx_db t') = session_row j (tx_db t)"
    using d'(1) d5(1) tr release_worktree_row(1) [OF t1, of j] by simp
qed

lemma commits_continue: "commits_ok (continue_body env old p agent parts)"
  unfolding continue_body_def hand_over_def by (intro commits_ok_bind commits_ok_ret commits_ok_prod)

lemma continue_from_Inr:
  assumes run: "continue_from env i parts pre d = (Inr new, d')" and pre: "recalls pre d"
  obtains old p agent row q t t' where "session_row i pre = Some old" "s_id old = i" "s_parent_session_id old = Some p" "same_place old row"
    "live_agent (s_agent_id old) pre = Some agent" "t = \<lparr>tx_db = d, tx_execution_id = s_execution_id old, tx_verified = []\<rparr>"
    "continue_rechecks old p t = Inr ((row, q), t)" "insertable (continued_row env old p d) d"
    "hand_over old p agent parts row q (co_new_id env) (tx_put (add_session (continued_row env old p d) d) t) = Inr (Inr new, t')" "d' = tx_db t'"
proof -
  obtain old p agent where c: "continue_checks i parts pre = Inr (old, p, agent)"
    and tx: "run_tx (\<lambda>e. Inl (Database (''begin continue_from tx: '' @ show_error e))) (s_execution_id old) (continue_body env old p agent parts) d = (Inr new, d')"
    using run by (auto simp: continue_from_def split: sum.splits)
  note old = continue_checks_Inr [OF c]
  let ?t = "\<lparr>tx_db = d, tx_execution_id = s_execution_id old, tx_verified = []\<rparr>"
  obtain t' where body: "continue_body env old p agent parts ?t = Inr (Inr new, t')" and d': "d' = tx_db t'"
    by (rule run_tx_committed [OF tx _ aborts_continue]) auto
  obtain row q where re: "continue_rechecks old p ?t = Inr ((row, q), ?t)" "insertable (continued_row env old p (tx_db ?t)) (tx_db ?t)"
    "hand_over old p agent parts row q (co_new_id env) (tx_put (add_session (continued_row env old p (tx_db ?t)) (tx_db ?t)) ?t) = Inr (Inr new, t')"
    using body by (rule continue_body_Inr)
  have "same_place old row" using re(1) recalls_session [OF pre, of i old row] old by (auto simp: continue_rechecks_iff)
  with old re d' show ?thesis by (intro that [of old p row agent ?t q t']) simp_all
qed

lemma continued_slug:
  assumes wf: "db_wf d" and row: "session_row i d = Some row" and place: "s_parent_session_id row = Some p" "s_execution_id row = s_execution_id old"
    and ins: "insertable (continued_row env old p d) d" and s: "s \<in> set (sessions d)" "s_parent_session_id s = Some p"
  shows "s_slug s \<noteq> s_slug (continued_row env old p d)"
proof -
  let ?n = "continued_row env old p d"
  have "map_option s_execution_id (session_row p d) = Some (s_execution_id s)" using wf s by (fastforce simp: db_wf_def)
  moreover have "map_option s_execution_id (session_row p d) = Some (s_execution_id row)"
    using wf place(1) session_rowD [OF row] by (fastforce simp: db_wf_def)
  ultimately have "s_execution_id s = s_execution_id ?n" using place(2) by simp
  moreover have "s_slug ?n \<noteq> []" by (simp add: continued_row_def new_session_def slug_nonempty)
  ultimately show ?thesis using ins s by (auto simp: insertable_iff slug_taken_def list_ex_iff)
qed

text \<open>
  C13. Continuation. A child that has ended is continued by a new session: an error leaves the database as it was. Otherwise the
  new session stands below the same live parent, in the same execution, with the agent, directory, worktree and policy that were
  read; its slug is its own among its siblings; it holds the prompt and can be claimed. The agent's session moves to it when the
  agent can resume it, and the old row keeps its outcome but neither that nor the worktree. The parent is told of it and runs
  again if it had stopped. Nothing else changes, and the database stays well formed.
\<close>

theorem continue_transfers:
  assumes wf: "db_wf d" and pre: "recalls pre d" and run: "continue_from env i parts pre d = (r, d')"
  shows "case r of Inl e \<Rightarrow> d' = d
    | Inr new \<Rightarrow> db_wf d' \<and> (\<exists>old agent row row' p q q' n. session_row i pre = Some old \<and> live_agent (s_agent_id old) pre = Some agent \<and>
        session_row i d = Some row \<and> s_outcome row \<noteq> None \<and> s_parent_session_id row = Some p \<and>
        session_row p d = Some q \<and> s_outcome q = None \<and> s_desired q \<noteq> DTerminate \<and> session_row new d = None \<and>
        session_row new d' = Some n \<and> s_parent_session_id n = Some p \<and> s_execution_id n = s_execution_id row \<and>
        s_agent_id n = s_agent_id old \<and> s_cwd n = s_cwd old \<and> s_worktree_path n = s_worktree_path old \<and>
        s_sandbox_policy n = s_sandbox_policy old \<and> s_continued_from_session_id n = Some i \<and> claimable d' n \<and>
        (\<forall>s \<in> set (sessions d). s_parent_session_id s = Some p \<longrightarrow> s_slug s \<noteq> s_slug n) \<and>
        s_agent_session_id n = (if is_sdk agent then s_agent_session_id row else None) \<and>
        session_row i d' = Some row' \<and> s_outcome row' = s_outcome row \<and>
        s_agent_session_id row' = (if is_sdk agent then None else s_agent_session_id row) \<and>
        s_worktree_path row' = (if s_worktree_path old = None then s_worktree_path row else None) \<and>
        session_row p d' = Some q' \<and> s_desired q' = DRun \<and>
        inbox_of new d' = inbox_of new d @ [prompt_task row parts new] \<and> inbox_of p d' = inbox_of p d @ [continued_task row p new] \<and>
        (\<forall>j. j \<noteq> new \<longrightarrow> j \<noteq> p \<longrightarrow> inbox_of j d' = inbox_of j d \<and> (j \<noteq> i \<longrightarrow> session_row j d' = session_row j d)) \<and>
        executions d' = executions d)"
proof (cases r)
  case (Inl e)
  then show ?thesis using run by (auto simp: continue_from_def dest: run_tx_Err [OF _ commits_continue] split: sum.splits)
next
  case (Inr new)
  from run [unfolded Inr] pre show ?thesis
  proof (rule continue_from_Inr)
    fix old p agent row q t t'
    let ?n = "continued_row env old p d"
    assume old: "session_row i pre = Some old" "s_id old = i" "s_parent_session_id old = Some p" "same_place old row"
      and agent: "live_agent (s_agent_id old) pre = Some agent" and t: "t = \<lparr>tx_db = d, tx_execution_id = s_execution_id old, tx_verified = []\<rparr>"
      and re: "continue_rechecks old p t = Inr ((row, q), t)" and ins: "insertable ?n d"
      and rest: "hand_over old p agent parts row q (co_new_id env) (tx_put (add_session ?n d) t) = Inr (Inr new, t')" and d': "d' = tx_db t'"
    have rows: "session_row i d = Some row" "session_row p d = Some q" and live: "s_outcome row \<noteq> None" "s_outcome q = None" "s_desired q \<noteq> DTerminate"
      and x: "\<exists>x. execution_row (s_execution_id old) d = Some x \<and> x_outcome x = None \<and> x_desired x = DRun"
      using re t old(2) by (auto simp: continue_rechecks_iff)
    have place: "s_parent_session_id row = Some p" "s_execution_id row = s_execution_id old" "s_id row = i"
      using old by (simp_all add: same_place_def)
    have new: "session_row (co_new_id env) d = None" using ins by (simp add: insertable_iff)
    have ne: "co_new_id env \<noteq> s_id old" "co_new_id env \<noteq> p" "p \<noteq> s_id old"
      using new rows old(2) place wf session_rowD [OF rows(1)] by (auto simp: db_wf_def)
    have added: "session_row j (tx_db (tx_put (add_session ?n d) t)) = (if j = co_new_id env then Some ?n else session_row j d)" for j
      using session_row_add [of ?n d j] new by simp
    note eff = hand_over_effect [OF rest, unfolded added, where n = ?n]
    have given: "(if p = co_new_id env then Some ?n else session_row p d) = Some q"
      "(if s_id old = co_new_id env then Some ?n else session_row (s_id old) d) = Some row"
      "(if co_new_id env = co_new_id env then Some ?n else session_row (co_new_id env) d) = Some ?n"
      using rows ne old(2) by auto
    note eff = eff [OF given ne]
    have id: "new = co_new_id env" using eff(1) by simp
    define n where "n = (if carried agent row = None then ?n else ?n\<lparr>s_agent_session_id := carried agent row, s_updated_at := clock d\<rparr>)"
    have n: "session_row new d' = Some n" using eff(4) by (simp add: d' id n_def t)
    have fields: "s_parent_session_id n = Some p" "s_execution_id n = s_execution_id row" "s_agent_id n = s_agent_id old" "s_cwd n = s_cwd old"
      "s_worktree_path n = s_worktree_path old" "s_sandbox_policy n = s_sandbox_policy old" "s_continued_from_session_id n = Some i"
      "s_agent_session_id n = (if is_sdk agent then s_agent_session_id row else None)" "s_slug n = s_slug ?n" "s_id n = new"
      "s_desired n = DRun" "s_executor_state n = Unassigned" "s_outcome n = None" "s_worker_id n = None" "s_command_token n = None"
      using old(2) place(2) by (auto simp: n_def continued_row_def new_session_def carried_def id)
    have inbox: "inbox_of j d' = inbox_of j d @ (if j = new then [prompt_task row parts new] else []) @ (if j = p then [continued_task row p new] else [])" for j
      using eff(3) [of j] place(2,3) old(2) by (simp add: d' id t inbox_of_def prompt_task_def continued_task_def)
    have ex: "executions d' = executions d" using eff(2) by (simp add: d' t)
    have claim: "claimable d' n"
      using x fields inbox [of new] place(2) by (auto simp: claimable_def joined_def joined_inbox ex execution_row_def)
    have slug: "s_slug s \<noteq> s_slug n" if "s \<in> set (sessions d)" "s_parent_session_id s = Some p" for s
      using continued_slug [OF wf rows(1) place(1,2) ins that] fields(9) by simp
    have q': "\<exists>q'. session_row p d' = Some q' \<and> s_desired q' = DRun"
      using eff(6) live(3) by (cases "s_desired q") (auto simp: d' desired_row_def)
    have other: "session_row j d' = session_row j d" if "j \<noteq> new" "j \<noteq> p" "j \<noteq> i" for j
      using eff(7) [of j] that old(2) id by (simp add: d')
    have "db_wf d'" using continue_from_good_step [OF pre run] wf by (simp add: good_step_def db_step_def)
    moreover have "\<exists>row'. session_row i d' = Some row' \<and> s_worktree_path row' = (if s_worktree_path old = None then s_worktree_path row else None) \<and>
        s_agent_session_id row' = (if is_sdk agent then None else s_agent_session_id row) \<and> s_outcome row' = s_outcome row"
      using eff(5) old(2) by (simp add: d')
    moreover have "inbox_of new d' = inbox_of new d @ [prompt_task row parts new]" "inbox_of p d' = inbox_of p d @ [continued_task row p new]"
      "j \<noteq> new \<Longrightarrow> j \<noteq> p \<Longrightarrow> inbox_of j d' = inbox_of j d" for j
      using inbox ne(2) id by simp_all
    ultimately show ?thesis
      unfolding Inr sum.case
      using old(1) agent rows live place(1) new n fields(1-8) claim slug q' other ex unfolding id by blast
  qed
qed

text \<open>A child that has ended in a worktree, below a parent that has stopped.\<close>

definition demo_child_ended :: db where
  "demo_child_ended = demo_db\<lparr>agents := [demo_agent\<lparr>a_agent_type := ''claude_sdk''\<rparr>],
     sessions := [(demo_session ''r'' None Idle)\<lparr>s_desired := DStop\<rparr>,
       (demo_session ''k'' (Some ''r'') Idle)\<lparr>s_desired := DTerminate, s_outcome := Some Completed, s_completed_at := Some 5,
          s_worker_id := None, s_worktree_path := Some ''/wt'', s_slug := ''kid'', s_sandbox_policy := to_string (JObj [(''fs_level'', JStr ''workspace'')])\<rparr>]\<rparr>"

definition demo_again :: continue_env where
  "demo_again = \<lparr>co_new_id = ''n'', co_rng = (\<lambda>i. i)\<rparr>"

definition demo_continued :: db where
  "demo_continued = snd (continue_from demo_again ''k'' [text_part ''more''] demo_child_ended demo_child_ended)"

theorem continue_transfers_witness:
  "\<exists>n k r. session_row ''n'' demo_continued = Some n \<and> s_worktree_path n = Some ''/wt'' \<and> s_agent_session_id n = Some ''as'' \<and>
     session_row ''k'' demo_continued = Some k \<and> s_worktree_path k = None \<and> s_agent_session_id k = None \<and>
     session_row ''r'' demo_continued = Some r \<and> s_desired r = DRun"
proof -
  have wf: "db_wf demo_child_ended"
    by (simp add: db_wf_def demo_child_ended_def demo_defs session_wf_def execution_wf_def log_wf_def queue_wf_def
        parents_first_def lineage_def less_Suc_eq session_row_def execution_row_def sql_find_def)
  have run: "continue_from demo_again ''k'' [text_part ''more''] demo_child_ended demo_child_ended = (Inr ''n'', demo_continued)"
  proof -
    have "fst (continue_from demo_again ''k'' [text_part ''more''] demo_child_ended demo_child_ended) = Inr ''n''" by code_simp
    then show ?thesis by (simp add: demo_continued_def prod_eq_iff)
  qed
  have k: "map_option s_worktree_path (session_row ''k'' demo_child_ended) = Some (Some ''/wt'')"
    "map_option s_agent_session_id (session_row ''k'' demo_child_ended) = Some (Some ''as'')"
    "map_option s_parent_session_id (session_row ''k'' demo_child_ended) = Some (Some ''r'')"
    "map_option s_agent_id (session_row ''k'' demo_child_ended) = Some ''a''"
    "map_option is_sdk (live_agent ''a'' demo_child_ended) = Some True" by code_simp+
  from continue_transfers [OF wf recalls_refl run] k show ?thesis by auto
qed

text \<open>
  Two requests that were both checked before either wrote are both served, and both new sessions are given the worktree:
  nothing in the transaction reads the worktree again, and the guard on the agent's session is passed by the second request
  because it reads the row after the first has cleared it.
\<close>

lemma continued_twice_shares_worktree:
  "let other = \<lparr>co_new_id = ''m'', co_rng = (\<lambda>i. i + 1)\<rparr>;
       (r, d) = continue_from other ''k'' [text_part ''more''] demo_child_ended demo_continued in
   r = Inr ''m'' \<and> map_option s_worktree_path (session_row ''n'' d) = Some (Some ''/wt'') \<and>
   map_option s_worktree_path (session_row ''m'' d) = Some (Some ''/wt'')"
  by code_simp

end
