(* ===== verification/Terminate_Props.thy ===== *)
theory Terminate_Props
  imports Continue_Props
begin

text \<open>The route that terminates a session: the transaction, the repair of the execution and the cascade.\<close>

section \<open>Termination\<close>

text \<open>A rejection as already terminated is true of the row in the transaction.\<close>

definition never :: "'r \<Rightarrow> ('r, 'a) tx \<Rightarrow> bool" where
  "never r m \<longleftrightarrow> (\<forall>t. m t \<noteq> Inl r)"

lemma never_rules:
  "never r (tx_ret x)" "never r (tx_read f)" "never r (tx_update_sessions P g)" "never r (tx_enqueue eid sid p src)"
  "never r m1 \<Longrightarrow> (\<And>x. never r (k1 x)) \<Longrightarrow> never r (tx_bind m1 k1)"
  "(\<And>e. h2 e \<noteq> r) \<Longrightarrow> never r (tx_try h2 v2)"
  "(\<And>e. h3 e \<noteq> r) \<Longrightarrow> never r (tx_map_err h3 m3)"
  "q \<noteq> r \<Longrightarrow> never r (tx_fail_if b q)"
  "(c \<Longrightarrow> never r m4) \<Longrightarrow> (\<not> c \<Longrightarrow> never r n4) \<Longrightarrow> never r (if c then m4 else n4)"
  "(o5 = None \<Longrightarrow> never r m5) \<Longrightarrow> (\<And>x. o5 = Some x \<Longrightarrow> never r (k5 x)) \<Longrightarrow> never r (case o5 of None \<Rightarrow> m5 | Some x \<Rightarrow> k5 x)"
  by (auto simp: never_def tx_ret_def tx_read_def tx_update_sessions_def tx_enqueue_def tx_bind_Inl_iff tx_try_def tx_map_err_def
      tx_fail_if_def elim!: map_err.elims split: sum.splits option.splits)

lemma never_map_Inl: "never Ratchet m \<Longrightarrow> never (Inl Ratchet) (tx_map_err Inl m)"
  by (auto simp: never_def tx_map_err_def elim!: map_err.elims)

lemma never_notify: "never (Inl Ratchet) (notify_option s parent ty)"
proof -
  have "never Ratchet (write_parent_notification_in_tx s p ty)" for p
    unfolding write_parent_notification_in_tx_def resume_parent_def by (intro never_rules) (simp_all add: invalid_def)
  then show ?thesis
    by (cases parent) (simp_all add: notify_option_def never_map_Inl never_rules(1))
qed

text \<open>The same from one state on.\<close>

definition never_at :: "'r \<Rightarrow> ('r, 'a) tx \<Rightarrow> exec_tx \<Rightarrow> bool" where
  "never_at r m t \<longleftrightarrow> m t \<noteq> Inl r"

lemma at_rules:
  "(\<And>e. h1 e \<noteq> r) \<Longrightarrow> (\<And>x. v1 (tx_db t) = Inr x \<Longrightarrow> never_at r (k1 x) t) \<Longrightarrow> never_at r (tx_bind (tx_try h1 v1) k1) t"
  "(b \<Longrightarrow> q \<noteq> r) \<Longrightarrow> (\<not> b \<Longrightarrow> never_at r (k2 ()) t) \<Longrightarrow> never_at r (tx_bind (tx_fail_if b q) k2) t"
  "never_at r (k3 (v3 (tx_db t))) t \<Longrightarrow> never_at r (tx_bind (tx_read v3) k3) t"
  "never_at r (k4 y) t \<Longrightarrow> never_at r (tx_bind (tx_ret y) k4) t"
  "never_at r (k5 (sql_count P (sessions (tx_db t)))) (tx_put (update_sessions P g (tx_db t)) t) \<Longrightarrow>
   never_at r (tx_bind (tx_update_sessions P g) k5) t"
  "(c \<Longrightarrow> never_at r (tx_bind m6 k6) t) \<Longrightarrow> (\<not> c \<Longrightarrow> never_at r (tx_bind n6 k6) t) \<Longrightarrow> never_at r (tx_bind (if c then m6 else n6) k6) t"
  by (simp_all add: never_at_def tx_bind_def tx_try_def tx_fail_if_def tx_read_def tx_ret_def tx_update_sessions_def split: sum.splits)

lemma never_at: "never r m \<Longrightarrow> never_at r m t"
  by (simp add: never_def never_at_def)

lemma terminate_body_ratchet:
  assumes run: "terminate_body s parent who t = Inl (Inl Ratchet)" and row: "session_row (s_id s) (tx_db t) = Some cur"
  shows "s_desired cur = DTerminate"
proof (rule ccontr)
  assume live: "s_desired cur \<noteq> DTerminate"
  have some: "sql_count (\<lambda>r. s_id r = s_id s \<and> s_desired r \<noteq> DTerminate) (sessions (tx_db t)) \<noteq> 0"
    using live session_rowD [OF row] unfolding sql_count_zero_iff by auto
  have "never_at (Inl Ratchet) (terminate_body s parent who) t"
    unfolding terminate_body_def
    by (intro at_rules never_at never_notify never_rules) (use row live some in \<open>simp_all add: invalid_def\<close>)
  then show False using run by (simp add: never_at_def)
qed

text \<open>After an attempt to terminate that succeeds, or that finds it done, the session is terminated.\<close>

lemma terminate_session_done:
  assumes wf: "db_wf d" and ev: "evolves pre d" and s: "session_row i pre = Some s"
    and run: "terminate_session pre (s_execution_id s) i who d = (r, d')" and r: "r = Inr () \<or> r = Inl Ratchet"
  shows "terminated i d'"
proof -
  have id: "s_id s = i" using session_rowD [OF s] by simp
  obtain s' where s': "session_row i d = Some s'" "session_step s s'" using evolves_session [OF ev s] by blast
  have set: "set_desired pre s DTerminate who d = (r, d')"
    using run s by (simp add: terminate_session_def lookup_def get_session_def)
  have ended: "terminated i d" if "s_desired s' = DTerminate"
    using that s' db_wf_session [OF wf s'(1)] by (auto simp: terminated_def session_wf_def)
  show ?thesis
  proof (cases "s_desired s = DTerminate")
    case True
    with set s'(2) ended show ?thesis by (auto simp: set_desired_def session_step_def)
  next
    case False
    with set have tx: "run_tx (begin_failed ''begin transaction failed'') (s_execution_id s)
        (terminate_body s (parent_for_notify pre s DTerminate who) who) d = (r, d')" by (simp add: set_desired_def)
    let ?t = "\<lparr>tx_db = d, tx_execution_id = s_execution_id s, tx_verified = []\<rparr>"
    show ?thesis
    proof (cases "terminate_body s (parent_for_notify pre s DTerminate who) who ?t")
      case (Inl q)
      have "d' = d" and "r = Inl Ratchet \<Longrightarrow> s_desired s' = DTerminate"
        using tx Inl terminate_body_ratchet [of s _ who ?t s'] s'(1) id
        by (auto simp: run_tx_def begin_execution_tx_def begin_failed_def split: option.splits)
      moreover have "q \<noteq> Inr ()" using Inl aborts_terminate_body unfolding aborts_err_def by (metis Inl_Inr_False)
      ultimately show ?thesis
        using r ended tx Inl by (auto simp: run_tx_def begin_execution_tx_def begin_failed_def split: option.splits)
    next
      case (Inr b)
      obtain x t' where b: "b = (x, t')" by (cases b)
      have "execution_row (s_execution_id s) d \<noteq> None"
        using wf session_rowD [OF s'(1)] s'(2) by (auto simp: db_wf_def session_step_def)
      then have "d' = tx_db t'" using tx Inr b by (auto simp: run_tx_def begin_execution_tx_def)
      then show ?thesis using terminate_body_row [OF Inr [unfolded b], of s'] s'(1) id by (auto simp: terminated_def)
    qed
  qed
qed

lemma tree_repair_root: "same_tree d (snd (repair_execution_for_terminal_root pre i d))"
  unfolding repair_execution_for_terminal_root_def repair_root_execution_body_def
  by (auto simp: same_tree_refl intro!: tree_run tree.rules tree_write_execution split: sum.splits)

text \<open>
  C11. The route that terminates always answers. With fuel for as many levels as there are sessions it returns, the
  database stays consistent, and when it reports success the session is terminated, so is every session below it, at any depth,
  and the execution of a root has an outcome; a session that was terminated before is repaired to the same end.
\<close>

theorem terminate_route_ends:
  assumes wf: "db_wf d" "roots_closed d" and ev: "evolves pre d" and fuel: "length (sessions d) \<le> fuel"
  shows "\<exists>r d'. terminate_route fuel env debug i pre d = Some (r, d') \<and> db_wf d' \<and> roots_closed d' \<and>
    (r = Inr () \<longrightarrow> terminated i d' \<and> (\<forall>j. below (tree d) i j \<longrightarrow> terminated j d') \<and>
       (\<exists>s x. session_row i d' = Some s \<and> execution_row (s_execution_id s) d' = Some x \<and>
          (s_parent_session_id s = None \<longrightarrow> x_outcome x \<noteq> None)))"
proof (cases "session_row i pre")
  case None
  then show ?thesis using wf by (simp add: terminate_route_def get_session_def)
next
  case (Some s)
  obtain r1 d1 where t: "terminate_session pre (s_execution_id s) i ''user'' d = (r1, d1)" by fastforce
  have g1: "good_step d d1" using terminate_session_good_step [OF remembers_recalls [OF evolves_remembers [OF ev]] t] .
  have tree1: "same_tree d d1" using tree_ops(1) [of d pre "s_execution_id s" i "''user''"] t by simp
  show ?thesis
  proof (cases "r1 = Inr () \<or> r1 = Inl Ratchet")
    case False
    then have "terminate_route fuel env debug i pre d = Some (Inl (Database (''transition failed: '' @ debug (projl r1))), d1)"
      using t Some by (cases r1) (auto simp: terminate_route_def get_session_def)
    then show ?thesis using g1 wf by (simp add: good_step_def db_step_def)
  next
    case True
    define m where "m = (if r1 = Inl Ratchet \<and> s_parent_session_id s = None
        then repair_execution_for_terminal_root d1 i d1 else (Inr (), d1))"
    obtain r2 d2 where m: "m = (r2, d2)" by fastforce
    have "good_step d1 d2" "same_tree d1 d2"
      using m step_repair_root_entry [of d1 d1 i] tree_repair_root [of d1 d1 i]
      by (auto simp: m_def takes_step_def same_tree_refl split: if_splits)
    with g1 tree1 have g2: "good_step d d2" "same_tree d d2" by (auto intro: good_step_trans tree.S_trans)
    have ended: "terminated i d2"
      using terminate_session_done [OF wf(1) ev Some t True] \<open>good_step d1 d2\<close>
      by (auto simp: good_step_def db_step_def intro: terminated_evolves)
    have route: "terminate_route fuel env debug i pre d = (case r2 of Inl e \<Rightarrow> Some (Inl e, d2) | Inr _ \<Rightarrow> cascade_from fuel env i d2)"
      using t Some True m by (auto simp: terminate_route_def get_session_def m_def split: sum.splits)
    show ?thesis
    proof (cases r2)
      case (Inl e)
      with route g2(1) wf show ?thesis by (simp add: good_step_def db_step_def)
    next
      case (Inr u)
      have wf2: "db_wf d2" "roots_closed d2" using g2(1) wf by (simp_all add: good_step_def db_step_def)
      obtain s2 where s2: "session_row i d2 = Some s2" "s_id s2 = i" using ended by (auto simp: terminated_def dest: session_rowD)
      have tree2: "tree d2 = tree d" using g2(2) by (simp add: same_tree_def)
      then have "length (tree d2) \<le> fuel + position (tree d2) (s_id s2)" using fuel by (simp add: tree_def)
      then obtain d' where c: "cascade_from fuel env i d2 = Some (Inr (), d')" "\<forall>j. below (tree d) i j \<longrightarrow> terminated j d'" "db_step d2 d'"
        using cascade_children_reaches [OF wf2(1), of s2 fuel env] s2
        by (auto simp: cascaded_def cascade_from_def get_session_def subtree_def tree2)
      have wf': "db_wf d'" "roots_closed d'"
        using step_cascade_from [OF c(1)] wf2 by (simp_all add: takes_step_def good_step_def db_step_def)
      have "terminated i d'" using ended c(3) by (auto simp: db_step_def intro: terminated_evolves)
      moreover then obtain s' where s': "session_row i d' = Some s'" "s_outcome s' \<noteq> None" by (auto simp: terminated_def)
      moreover obtain x where "execution_row (s_execution_id s') d' = Some x"
        using wf'(1) session_rowD [OF s'(1)] by (auto simp: db_wf_def)
      moreover have "s_parent_session_id s' = None \<longrightarrow> closed_exec (s_execution_id s') d'"
        using wf'(2) s' by (auto simp: roots_closed_def)
      ultimately show ?thesis using route Inr c wf' by (auto simp: closed_exec_def)
    qed
  qed
qed

theorem terminate_route_ends_witness:
  "\<exists>r d'. terminate_route 2 demo_env (\<lambda>_. []) ''r'' demo_db demo_db = Some (r, d') \<and> r = Inr () \<and> terminated ''k'' d'"
proof -
  have t: "tree demo_db = [(''r'', None), (''k'', Some ''r'')]" by code_simp
  have k: "below (tree demo_db) ''r'' ''k''" unfolding t by (rule below.child) simp
  have roots: "roots_closed demo_db" by (simp add: roots_closed_def demo_defs session_row_def sql_find_def)
  have r: "map_option fst (terminate_route 2 demo_env (\<lambda>_. []) ''r'' demo_db demo_db) = Some (Inr ())" by code_simp
  have "length (sessions demo_db) \<le> 2" by (simp add: demo_defs)
  from terminate_route_ends [OF demo_db_wf roots evolves_refl this, of demo_env "\<lambda>_. []" "''r''"] k r show ?thesis by auto
qed

end
