(* ===== verification/Worker_Sync_Props.thy ===== *)
theory Worker_Sync_Props
  imports Lifecycle Cascade
begin

text \<open>
  The properties of the worker protocol (\<open>scheduler/src/api/handlers/worker_sync.rs\<close>): the
  command of a response is on record for the asking worker, what an acknowledgement does,
  deliveries that repeat change nothing, a worker that lost its session is refused, and the end of
  a turn reaches the parent.
\<close>

section \<open>The command of a response\<close>

definition holds_command :: "string \<Rightarrow> string \<Rightarrow> command_action \<Rightarrow> db \<Rightarrow> bool" where
  "holds_command w tok a d \<longleftrightarrow> (\<exists>s. session_row (command_session a) d = Some s \<and> s_worker_id s = Some w \<and>
     s_command_token s = Some tok \<and> s_command_type s = Some (command_kind a) \<and>
     s_command_has_payload s = (command_turn a \<noteq> None))"

lemma issued_holds:
  assumes "issued env (Some w) session d a d'" and "s_worker_id session = Some w \<or> s_worker_id session = None"
  shows "holds_command w (re_token env) a d'"
  using assms by (cases a) (auto simp: issued_def holds_command_def recorded_def split: list.splits)

lemma look_holds:
  assumes "look fuel env session True (Some w) nd = Some (Some (Inr (SendCommand tok a)), nd')"
    and "db_wf (nd_db nd)" and "s_worker_id session = Some w \<or> s_worker_id session = None"
  shows "holds_command w tok a (nd_db nd')"
proof -
  have "holds_command w tok a d'"
    if "reconcile fuel env session k x True (Some w) (nd_db nd) = Some (Inr (SendCommand tok a), d')" for k x d'
    using reconcile_issued [OF assms(2) that] assms(3) issued_holds by blast
  then show ?thesis using assms(1) by (auto simp: look_def split: option.splits)
qed

lemma node_step_wf: "node_step nd nd' \<Longrightarrow> db_wf (nd_db nd) \<Longrightarrow> db_wf (nd_db nd')"
  by (auto simp: node_step_def good_step_def db_step_def)

lemma session_passes_holds:
  "session_passes n fuel env w sid nd = Some (RCommand tok a, nd') \<Longrightarrow> db_wf (nd_db nd) \<Longrightarrow> holds_command w tok a (nd_db nd')"
proof (induction n arbitrary: nd)
  case (Suc n)
  from Suc.prems show ?case
    by (auto split: option.splits if_splits prod.splits sum.splits reconciler_action.splits
        intro: look_holds Suc.IH node_step_wf look_step)
qed simp

lemma assigned_pass_holds:
  "assigned_pass fuel env w ss rep pend nd = Some (Some (tok, a), rep', pend', nd') \<Longrightarrow> db_wf (nd_db nd) \<Longrightarrow>
   (\<forall>s \<in> set ss. s_worker_id s = Some w) \<Longrightarrow> holds_command w tok a (nd_db nd')"
proof (induction ss arbitrary: rep pend nd)
  case (Cons s ss)
  from Cons.prems show ?case
    by (auto split: option.splits prod.splits sum.splits reconciler_action.splits
        intro: look_holds Cons.IH node_step_wf look_step)
qed simp

lemma assigned_passes_holds:
  "assigned_passes n fuel env w pend nd = Some (RCommand tok a, nd') \<Longrightarrow> db_wf (nd_db nd) \<Longrightarrow>
   holds_command w tok a (nd_db nd')"
proof (induction n arbitrary: pend nd)
  case (Suc n)
  have "\<forall>s \<in> set (find_sessions_for_worker w (nd_db nd)). s_worker_id s = Some w"
    by (simp add: find_sessions_for_worker_def by_created_def)
  with Suc.prems show ?case
    by (auto split: option.splits prod.splits if_splits
        intro: assigned_pass_holds Suc.IH node_step_wf assigned_pass_step)
qed (auto split: if_splits)

lemma offered_free: "find_unassigned_with_work d = Some s \<Longrightarrow> s_worker_id s = None"
  by (auto simp: find_unassigned_with_work_def hd_by_created split: list.splits)
     (metis (mono_tags, lifting) by_created_def list.set_intros(1) mem_Collect_eq set_filter set_sort)

lemma run_for_worker_holds:
  assumes "run_reconciler_for_worker fuel env w nd = Some (RCommand tok a, nd')" and "db_wf (nd_db nd)"
  shows "holds_command w tok a (nd_db nd')"
  using assms
  by (auto simp: run_reconciler_for_worker_def offer_unassigned_def split: if_splits option.splits prod.splits sum.splits
      reconciler_action.splits dest!: offered_free intro: assigned_passes_holds look_holds)

lemma worker_sync_holds:
  assumes between: "\<And>n. node_step n (sy_between se n)" and wait: "\<And>n. node_step n (sy_wait se n)"
    and run: "worker_sync fuel se req nd = Some (Inr (Command tok a), nd')" and wf: "db_wf (nd_db nd)"
  shows "holds_command (sr_worker_id req) tok a (nd_db nd')"
proof -
  let ?h = "heard_from (sr_worker_id req) nd"
  obtain skip scoped nd1 where r: "report_stage (sy_env se) req ?h = (skip, scoped, nd1)"
    by (cases "report_stage (sy_env se) req ?h")
  obtain q nd2 where s: "result_stage se req nd1 = (q, nd2)" by fastforce
  have wf2: "db_wf (nd_db nd2)"
    using wf node_step_wf [OF node_step_heard] node_step_wf [OF report_stage_step [OF r]]
      node_step_wf [OF result_stage_step [OF between s]] by blast
  have resp: "response_of x = Command tok a \<longleftrightarrow> x = RCommand tok a" for x by (cases x) auto
  have waited: "db_wf (nd_db (heard_from (sr_worker_id req) (sy_wait se n)))" if "db_wf (nd_db n)" for n
    using that node_step_wf [OF wait] by simp
  have poll: "holds_command (sr_worker_id req) tok a (nd_db nd')"
    if "long_poll fuel se (sr_worker_id req) n = Some (Command tok a, nd')" and n: "db_wf (nd_db n)" for n
    using that(1) node_step_wf [OF run_for_worker_step n] waited
    by (auto simp: long_poll_def resp n split: if_splits option.splits prod.splits reconciler_result.splits
        intro: run_for_worker_holds)
  have next': "holds_command (sr_worker_id req) tok a (nd_db nd')"
    if "next_command fuel se req nd2 = Some (Command tok a, nd')"
    using that node_step_wf [OF run_for_worker_step wf2]
    by (auto simp: next_command_def wf2 split: if_splits option.splits prod.splits reconciler_result.splits
        intro: run_for_worker_holds poll)
  show ?thesis
    using run next' wf2
    by (auto simp: worker_sync_def r s resp run_reconciler_for_session_def split: sum.splits if_splits option.splits
        intro: session_passes_holds)
qed

text \<open>
  C19. A command goes to the worker that asked. When a request of a worker is answered with a
  command, the session the command names is that worker's in the database the request leaves
  behind, and the row holds this very command: its token, its type, and a payload exactly when
  the command carries a turn.
\<close>

theorem command_for_asking_worker:
  assumes "\<And>n. node_step n (sy_between se n)" and "\<And>n. node_step n (sy_wait se n)"
    and "worker_sync fuel se req nd = Some (Inr (Command tok a), nd')" and "db_wf (nd_db nd)"
  shows "\<exists>s. session_row (command_session a) (nd_db nd') = Some s \<and> s_worker_id s = Some (sr_worker_id req) \<and>
     s_command_token s = Some tok \<and> s_command_type s = Some (command_kind a) \<and>
     s_command_has_payload s = (command_turn a \<noteq> None)"
  using worker_sync_holds [OF assms] by (simp add: holds_command_def)

definition demo_sync_env :: sync_env where
  "demo_sync_env = \<lparr>sy_rec = (\<lambda>_. demo_rec_env), sy_long_poll_secs = 0, sy_between = (\<lambda>n. n), sy_wait = (\<lambda>n. n)\<rparr>"

definition demo_poll :: sync_request where
  "demo_poll = \<lparr>sr_worker_id = ''w'', sr_executor_report = None, sr_turn_result = None, sr_command_ack = None\<rparr>"

theorem command_for_asking_worker_witness:
  "\<exists>nd' s. worker_sync 2 demo_sync_env demo_poll (demo_node demo_fed) =
       Some (Inr (Command ''tok'' (FeedTurn ''k'' (JStr ''hi''))), nd') \<and>
     session_row ''k'' (nd_db nd') = Some s \<and> s_command_token s = Some ''tok''"
proof -
  let ?r = "worker_sync 2 demo_sync_env demo_poll (demo_node demo_fed)"
  have "map_option fst ?r = Some (Inr (Command ''tok'' (FeedTurn ''k'' (JStr ''hi''))))" by code_simp
  then obtain nd' where r: "?r = Some (Inr (Command ''tok'' (FeedTurn ''k'' (JStr ''hi''))), nd')" by auto
  have "db_wf (nd_db (demo_node demo_fed))" by (simp add: demo_fed_wf)
  from command_for_asking_worker [OF _ _ r this] r show ?thesis by (auto simp: demo_sync_env_def)
qed

section \<open>Acknowledgements\<close>

lemma ack_sql_count:
  assumes "by_token token d = Some s"
  shows "sql_count (\<lambda>r. s_id r = s_id s \<and> s_command_token r = Some token) (sessions d) \<noteq> 0"
  using assms unfolding sql_count_zero_iff by_token_def by (auto dest!: sql_find_SomeD)

lemma by_token_row: "db_wf d \<Longrightarrow> by_token token d = Some s \<Longrightarrow> session_row (s_id s) d = Some s \<and> s_command_token s = Some token"
  by (auto simp: by_token_def session_row_def db_wf_def sql_find_key_iff dest!: sql_find_SomeD)

text \<open>
  Acknowledging a command. It always answers. A token no session holds, or one held by
  another worker's session, changes nothing and is told apart. Otherwise exactly the session
  with the token loses its command, keeps its desired state and outcome, and no other row
  changes; when the command was the cancellation of a session that has its outcome, the worker
  is released too, and the session is left crashed unless it was idle.
\<close>

theorem ack_effect:
  assumes "db_wf (tx_db t)"
  shows "\<exists>r t'. process_command_ack_in_tx w token t = Inr (r, t') \<and>
    (case by_token token (tx_db t) of
       None \<Rightarrow> r = StaleToken \<and> t' = t
     | Some s \<Rightarrow>
         if s_worker_id s \<noteq> Some w then r = StaleWorker \<and> t' = t
         else r = Applied (s_command_type s = Some CCancel \<and> s_outcome s \<noteq> None) \<and>
           (\<exists>s'. session_row (s_id s) (tx_db t') = Some s' \<and> s_command_token s' = None \<and> s_command_type s' = None \<and>
              \<not> s_command_has_payload s' \<and> s_desired s' = s_desired s \<and> s_outcome s' = s_outcome s \<and>
              (if s_command_type s = Some CCancel \<and> s_outcome s \<noteq> None
               then s_worker_id s' = None \<and> s_executor_state s' = (if s_executor_state s = Idle then Idle else Crashed)
               else s_worker_id s' = Some w \<and> s_executor_state s' = s_executor_state s)) \<and>
           (\<forall>i. i \<noteq> s_id s \<longrightarrow> session_row i (tx_db t') = session_row i (tx_db t)))"
proof (cases "by_token token (tx_db t)")
  case None
  then show ?thesis by (simp add: process_command_ack_in_tx_def tx_iffs)
next
  case (Some s)
  note row = by_token_row [OF assms Some]
  show ?thesis
    using Some row ack_sql_count [OF Some]
    by (auto simp: process_command_ack_in_tx_def tx_iffs Let_def session_row_update_id ack_row_def cancel_ack_row_def
        clear_command_def)
qed

definition demo_commanded :: db where
  "demo_commanded = demo_db\<lparr>sessions := [demo_session ''r'' None Idle,
     (demo_session ''k'' (Some ''r'') Running)\<lparr>s_command_token := Some ''tok'', s_command_type := Some CStopTurn,
        s_command_at := Some 5\<rparr>]\<rparr>"

lemma demo_commanded_wf: "db_wf demo_commanded"
  by (simp add: db_wf_def demo_commanded_def demo_defs session_wf_def execution_wf_def log_wf_def queue_wf_def
      parents_first_def lineage_def less_Suc_eq session_row_def execution_row_def sql_find_def)

definition demo_tx :: "db \<Rightarrow> exec_tx" where
  "demo_tx d = \<lparr>tx_db = d, tx_execution_id = ''e'', tx_verified = []\<rparr>"

theorem ack_effect_witness:
  "\<exists>t' s'. process_command_ack_in_tx ''w'' ''tok'' (demo_tx demo_commanded) = Inr (Applied False, t') \<and>
     session_row ''k'' (tx_db t') = Some s' \<and> s_command_token s' = None \<and> s_worker_id s' = Some ''w''"
proof -
  have b: "map_option s_id (by_token ''tok'' demo_commanded) = Some ''k''"
    "map_option s_worker_id (by_token ''tok'' demo_commanded) = Some (Some ''w'')"
    "map_option s_command_type (by_token ''tok'' demo_commanded) = Some (Some CStopTurn)"
    by code_simp+
  have "db_wf (tx_db (demo_tx demo_commanded))" by (simp add: demo_tx_def demo_commanded_wf)
  from ack_effect [OF this, of "''w''" "''tok''"] b show ?thesis
    by (auto simp: demo_tx_def)
qed

section \<open>A message sent again\<close>

lemma run_event_created:
  assumes "run_tx h eid (event_body msg) d = (Inr (Inr r), d')" and "\<And>e. h e \<noteq> Inr (Inr r)"
  obtains s where "session_row (wm_session_id msg) d = Some s" "s_worker_id s = Some (wm_worker_id msg)"
    and "s_execution_id s = eid"
    and "d' = (if seq_taken (wm_session_id msg) (wm_msg_seq msg) d then use_up_event_id d
         else add_event eid (Some (wm_session_id msg)) EvMessage (to_string (wm_payload msg)) (Some (wm_msg_seq msg)) d)"
    and "r = (if seq_taken (wm_session_id msg) (wm_msg_seq msg) d then None else Some (next_event_id d, clock d))"
    and "execution_row eid d \<noteq> None"
proof -
  have "event_body msg t \<noteq> Inl (Inr (Inr r))" for t
    by (auto simp: event_body_def tx_bind_def tx_read_def tx_abort_def tx_map_err_def tx_ret_def
        split: option.splits sum.splits prod.splits if_splits)
  then obtain t' where ex: "execution_row eid d \<noteq> None"
    and body: "event_body msg \<lparr>tx_db = d, tx_execution_id = eid, tx_verified = []\<rparr> = Inr (Inr (Inr r), t')" "d' = tx_db t'"
    using assms by (auto simp: run_tx_def begin_execution_tx_def split: option.splits sum.splits prod.splits)
  from body(1) obtain s where s: "session_row (wm_session_id msg) d = Some s" "s_worker_id s = Some (wm_worker_id msg)"
    and ins: "insert_with_dedup_in_tx (wm_session_id msg) EvMessage (to_string (wm_payload msg)) (wm_msg_seq msg)
       \<lparr>tx_db = d, tx_execution_id = eid, tx_verified = []\<rparr> = Inr (r, t')"
    by (auto simp: event_body_def tx_iffs tx_abort_def split: option.splits if_splits)
  moreover have "s_execution_id s = eid"
    using ins s by (auto simp: insert_with_dedup_in_tx_def tx_iffs verify_session_owner_iff)
  moreover have "r = (if seq_taken (wm_session_id msg) (wm_msg_seq msg) d then None else Some (next_event_id d, clock d))"
    using ins by (auto simp: insert_with_dedup_in_tx_def tx_iffs verify_session_owner_iff insert_row_iff split: if_splits)
  ultimately show thesis
    using that [of s] insert_with_dedup_db [OF ins] ex body(2) by simp
qed

lemma seq_taken_add: "seq_taken i n (add_event eid (Some i) ty p (Some n) d)"
  by (simp add: seq_taken_def new_event_def)

text \<open>
  C15. A message of a turn is recorded once. When a message is accepted as new, the log gains
  exactly one event, with its session, its number and its payload; and the same message sent
  again is answered as accepted while no row, no worker and the live stream change: all it does is use
  up one identifier of the log, whatever the worker's first attempt did.
\<close>

theorem message_recorded_once:
  assumes run: "worker_event pre msg nd = (EventCreated, Some (Persisted eid i), nd')"
  shows "(\<exists>e. events (nd_db nd') = events (nd_db nd) @ [e] \<and> ev_id e = i \<and> ev_session_id e = Some (wm_session_id msg) \<and>
      ev_msg_seq e = Some (wm_msg_seq msg) \<and> ev_payload e = to_string (wm_payload msg) \<and> ev_type e = EvMessage) \<and>
    worker_event (nd_db nd') msg nd' =
      (EventCreated, None, nd'\<lparr>nd_db := (nd_db nd')\<lparr>next_event_id := next_event_id (nd_db nd') + 1\<rparr>\<rparr>)"
proof -
  let ?h = "\<lambda>e. Inl (''insert event: '' @ show_error e)"
  from run obtain r d' where r: "run_tx ?h eid (event_body msg) (nd_db nd) = (Inr (Inr r), d')"
    and nd': "nd' = nd\<lparr>nd_db := d'\<rparr>" and note': "map_option (\<lambda>(i, _). Persisted eid i) r = Some (Persisted eid i)"
    and eph: "\<not> wm_ephemeral msg"
    by (auto simp: worker_event_def Let_def split: option.splits if_splits sum.splits prod.splits)
  show ?thesis
  proof (rule run_event_created [OF r])
    fix s
    assume s: "session_row (wm_session_id msg) (nd_db nd) = Some s" "s_worker_id s = Some (wm_worker_id msg)"
      "s_execution_id s = eid"
      and d': "d' = (if seq_taken (wm_session_id msg) (wm_msg_seq msg) (nd_db nd) then use_up_event_id (nd_db nd)
         else add_event eid (Some (wm_session_id msg)) EvMessage (to_string (wm_payload msg)) (Some (wm_msg_seq msg)) (nd_db nd))"
      and "r = (if seq_taken (wm_session_id msg) (wm_msg_seq msg) (nd_db nd) then None
         else Some (next_event_id (nd_db nd), clock (nd_db nd)))"
      and x: "execution_row eid (nd_db nd) \<noteq> None"
    then have r': "i = next_event_id (nd_db nd)"
      and d1: "d' = add_event eid (Some (wm_session_id msg)) EvMessage (to_string (wm_payload msg)) (Some (wm_msg_seq msg)) (nd_db nd)"
      using note' by (auto split: if_splits)
    obtain x' where "execution_row eid (nd_db nd) = Some x'" using x by auto
    then have "run_tx ?h eid (event_body msg) d' = (Inr (Inr None), use_up_event_id d')"
      using s by (simp add: run_tx_def begin_execution_tx_def event_body_def tx_run_defs insert_with_dedup_in_tx_def
          verify_session_owner_def seq_taken_add d1)
    then show ?thesis
      using s eph by (simp add: worker_event_def nd' Let_def d1 r' new_event_def use_up_event_id_def)
  qed simp
qed

text \<open>A child's turn is numbered from one.\<close>

definition demo_said :: worker_message where
  "demo_said = \<lparr>wm_worker_id = ''w'', wm_session_id = ''k'', wm_execution_id = ''e'', wm_msg_seq = 1,
     wm_payload = JStr ''hello'', wm_ephemeral = False\<rparr>"

theorem message_recorded_once_witness:
  "\<exists>nd'. worker_event demo_db demo_said (demo_node demo_db) = (EventCreated, Some (Persisted ''e'' 1), nd') \<and>
     worker_event (nd_db nd') demo_said nd' =
       (EventCreated, None, nd'\<lparr>nd_db := (nd_db nd')\<lparr>next_event_id := next_event_id (nd_db nd') + 1\<rparr>\<rparr>)"
proof -
  let ?r = "worker_event demo_db demo_said (demo_node demo_db)"
  have "fst ?r = EventCreated \<and> fst (snd ?r) = Some (Persisted ''e'' 1)" by code_simp
  then have "?r = (EventCreated, Some (Persisted ''e'' 1), snd (snd ?r))" by (cases ?r) auto
  with message_recorded_once [OF this] show ?thesis by blast
qed

section \<open>A turn result sent again\<close>

definition same_taken :: "exec_tx \<Rightarrow> exec_tx \<Rightarrow> bool" where
  "same_taken t t' \<longleftrightarrow> (\<forall>i n. seq_taken i n (tx_db t) \<longrightarrow> seq_taken i n (tx_db t')) \<and>
     sessions (tx_db t') = sessions (tx_db t) \<and> tx_execution_id t' = tx_execution_id t"

interpretation taken: tx_preorder same_taken
  by unfold_locales (auto simp: same_taken_def)

lemma taken_insert_with_dedup: "tx_keeps same_taken (insert_with_dedup_in_tx sid ty p seq)"
  by (auto simp: tx_keeps_def insert_with_dedup_db same_taken_def seq_taken_def)

lemma taken_insert_in_tx: "tx_keeps same_taken (insert_in_tx sid ty p)"
  by (auto simp: tx_keeps_def insert_in_tx_db same_taken_def seq_taken_def)

lemma taken_insert_messages: "tx_keeps same_taken (insert_messages sid ms)"
  by (induction ms) (auto intro!: taken.keeps taken_insert_with_dedup taken_insert_in_tx split: option.splits)

lemma seq_taken_use_up: "seq_taken i n (use_up_event_id d) = seq_taken i n d"
  by (simp add: seq_taken_def)

text \<open>After a delivery every numbered message is in the log, so a second one finds nothing to do.\<close>

lemma messages_taken:
  assumes "insert_messages sid ms t = Inr ((), t')" and "m \<in> set ms" and "tm_msg_seq m = Some n"
  shows "seq_taken sid n (tx_db t')"
  using assms
proof (induction ms arbitrary: t)
  case (Cons a ms)
  then show ?case
  proof (cases "m = a")
    case True
    with Cons.prems obtain r t1 where ins: "insert_with_dedup_in_tx sid EvMessage (to_string (tm_payload m)) n t = Inr (r, t1)"
      and rest: "insert_messages sid ms t1 = Inr ((), t')"
      by (auto simp: tx_iffs)
    have "seq_taken sid n (tx_db t1)" using insert_with_dedup_db(1) [OF ins] seq_taken_add by (simp add: seq_taken_use_up split: if_splits)
    with tx_keepsD [OF taken_insert_messages rest] show ?thesis by (simp add: same_taken_def)
  qed (auto simp: tx_iffs)
qed simp

lemma taken_messages_skip:
  assumes "map_option s_execution_id (session_row sid (tx_db t)) = Some (tx_execution_id t)"
    and "\<forall>m \<in> set ms. \<exists>n. tm_msg_seq m = Some n \<and> seq_taken sid n (tx_db t)"
  shows "\<exists>t' k. insert_messages sid ms t = Inr ((), t') \<and> tx_db t' = (tx_db t)\<lparr>next_event_id := k\<rparr>"
  using assms
proof (induction ms arbitrary: t)
  case Nil
  then show ?case by (intro exI [of _ t] exI [of _ "next_event_id (tx_db t)"]) (simp add: tx_iffs)
next
  case (Cons m ms)
  from Cons.prems obtain n where n: "tm_msg_seq m = Some n" "seq_taken sid n (tx_db t)" by auto
  have "\<exists>t1. verify_session_owner sid t = Inr ((), t1) \<and> tx_db t1 = tx_db t \<and> tx_execution_id t1 = tx_execution_id t"
    using Cons.prems(1) by (cases "sid \<in> set (tx_verified t)") (auto simp: verify_session_owner_iff)
  then obtain t1 where "insert_with_dedup_in_tx sid EvMessage (to_string (tm_payload m)) n t = Inr (None, t1)"
    and t1: "tx_db t1 = use_up_event_id (tx_db t)" "tx_execution_id t1 = tx_execution_id t"
    using n by (auto simp: insert_with_dedup_in_tx_def tx_iffs)
  moreover from Cons.IH [of t1] Cons.prems t1
  obtain t2 k where "insert_messages sid ms t1 = Inr ((), t2)" "tx_db t2 = (use_up_event_id (tx_db t))\<lparr>next_event_id := k\<rparr>"
    by (auto simp: seq_taken_def)
  ultimately show ?case using n(1) by (auto simp: tx_iffs use_up_event_id_def)
qed

text \<open>
  A turn result may be delivered twice. When the messages of a turn result without an error
  are all numbered and a transaction has recorded them, then delivering the same result again in
  a later transaction succeeds and leaves every row as it is: no message is recorded twice.
\<close>

theorem turn_result_redelivered:
  assumes first: "process_turn_result_in_tx session result t = Inr ((), t')"
    and own: "map_option s_execution_id (session_row (s_id session) (tx_db t)) = Some (tx_execution_id t)"
    and numbered: "\<forall>m \<in> set (tr_messages result). tm_msg_seq m \<noteq> None" and "tr_error result = None"
  shows "\<exists>t2 k. process_turn_result_in_tx session result
      \<lparr>tx_db = tx_db t', tx_execution_id = tx_execution_id t, tx_verified = []\<rparr> = Inr ((), t2) \<and>
      tx_db t2 = (tx_db t')\<lparr>next_event_id := k\<rparr>"
proof (cases "tr_messages result = []")
  case True
  with assms(4) show ?thesis
    by (intro exI [of _ "\<lparr>tx_db = tx_db t', tx_execution_id = tx_execution_id t, tx_verified = []\<rparr>"] exI [of _ "next_event_id (tx_db t')"])
      (simp add: process_turn_result_in_tx_def tx_iffs)
next
  case False
  with first assms(4) have ins: "insert_messages (s_id session) (tr_messages result) t = Inr ((), t')"
    by (auto simp: process_turn_result_in_tx_def tx_iffs)
  have same: "sessions (tx_db t') = sessions (tx_db t)"
    using tx_keepsD [OF taken_insert_messages ins] by (simp add: same_taken_def)
  have "\<forall>m \<in> set (tr_messages result). \<exists>n. tm_msg_seq m = Some n \<and> seq_taken (s_id session) n (tx_db t')"
    using numbered messages_taken [OF ins] by fastforce
  then show ?thesis
    using taken_messages_skip [of "s_id session" "\<lparr>tx_db = tx_db t', tx_execution_id = tx_execution_id t, tx_verified = []\<rparr>"
        "tr_messages result"] own False assms(4)
    by (simp add: process_turn_result_in_tx_def tx_iffs session_row_same [OF same])
qed

definition demo_turn :: turn_result where
  "demo_turn = \<lparr>tr_session_id = ''k'', tr_messages = [\<lparr>tm_msg_seq = Some 1, tm_payload = JStr ''a''\<rparr>,
     \<lparr>tm_msg_seq = Some 2, tm_payload = JStr ''b''\<rparr>], tr_error = None, tr_error_kind = None, tr_stderr = None\<rparr>"

theorem turn_result_redelivered_witness:
  "\<exists>t1 t2. process_turn_result_in_tx (demo_session ''k'' (Some ''r'') Running) demo_turn (demo_tx demo_db) = Inr ((), t1) \<and>
     length (events (tx_db t1)) = 2 \<and>
     process_turn_result_in_tx (demo_session ''k'' (Some ''r'') Running) demo_turn (demo_tx (tx_db t1)) = Inr ((), t2) \<and>
     events (tx_db t2) = events (tx_db t1)"
proof -
  let ?r = "process_turn_result_in_tx (demo_session ''k'' (Some ''r'') Running) demo_turn (demo_tx demo_db)"
  have "case ?r of Inl _ \<Rightarrow> False | Inr (_, t1) \<Rightarrow> length (events (tx_db t1)) = 2" by code_simp
  then obtain t1 where r: "?r = Inr ((), t1)" "length (events (tx_db t1)) = 2" by (auto split: sum.splits)
  have "session_row ''k'' (tx_db (demo_tx demo_db)) = Some (demo_session ''k'' (Some ''r'') Running)"
    by (simp add: demo_tx_def demo_run)
  then show ?thesis
    using turn_result_redelivered [OF r(1)] r by (auto simp: demo_tx_def demo_turn_def demo_session_def)
qed

section \<open>A worker that no longer owns its session\<close>

definition stale_parts :: "sync_request \<Rightarrow> db \<Rightarrow> bool" where
  "stale_parts req d \<longleftrightarrow>
     (case sr_executor_report req of None \<Rightarrow> False | Some report \<Rightarrow>
        \<exists>s. session_row (er_session_id report) d = Some s \<and> s_worker_id s \<noteq> Some (sr_worker_id req)) \<and>
     (case sr_turn_result req of None \<Rightarrow> True | Some result \<Rightarrow>
        \<exists>s. session_row (tr_session_id result) d = Some s \<and> s_worker_id s \<noteq> Some (sr_worker_id req)) \<and>
     (case sr_command_ack req of None \<Rightarrow> True | Some token \<Rightarrow>
        \<forall>s. by_token token d = Some s \<longrightarrow> s_worker_id s \<noteq> Some (sr_worker_id req))"

lemma kill_tracked: "w \<notin> set (worker_ids (nd_supervisor (kill w nd)))"
  by (simp add: kill_def killed_not_tracked)

lemma kill_kill [simp]: "kill w (kill w nd) = kill w nd"
  using killed_not_tracked [of w "nd_supervisor nd"]
  by (simp add: kill_def kill_worker_def worker_ids_def map_of_eq_None_iff split: option.splits)

text \<open>
  C31. A worker that lost its session changes nothing. When a request reports on a session that
  belongs to another worker or to none, and so do the session of its turn result and the command
  it acknowledges, if it has them, the database is left exactly as it was, the request gets no
  command, and the worker's process is killed and no longer tracked.
\<close>

theorem stale_worker_refused:
  assumes wf: "db_wf (nd_db nd)" and stale: "stale_parts req (nd_db nd)" and alone: "\<And>n. sy_between se n = n"
  shows "\<exists>nd'. worker_sync fuel se req nd = Some (Inr SyncNoAction, nd') \<and> nd_db nd' = nd_db nd \<and>
     sr_worker_id req \<notin> set (worker_ids (nd_supervisor nd'))"
proof -
  let ?w = "sr_worker_id req" and ?nd = "kill (sr_worker_id req) (heard_from (sr_worker_id req) nd)"
  obtain report where rep: "sr_executor_report req = Some report" using stale by (auto simp: stale_parts_def split: option.splits)
  have report: "report_stage (sy_env se) req (heard_from ?w nd) = (True, None, ?nd)"
    using stale by (auto simp: rep stale_parts_def report_stage_def process_executor_report_def get_session_def Let_def)
  have body: "result_body ?w req None None n \<lparr>tx_db = nd_db nd, tx_execution_id = eid, tx_verified = []\<rparr> =
      Inr (\<lparr>rf_turn_session = None, rf_terminal_cancel = False, rf_ack_stale = (\<exists>k. sr_command_ack req = Some k \<and> by_token k (nd_db nd) \<noteq> None),
        rf_turn_stale = False\<rparr>, \<lparr>tx_db = nd_db nd, tx_execution_id = eid, tx_verified = []\<rparr>)" for eid n
    using stale by (auto simp: result_body_def take_turn_result_def tx_iffs process_command_ack_in_tx_def stale_parts_def
        split: option.splits)
  have own: "execution_row eid (nd_db nd) \<noteq> None" if "result_execution req None (nd_db nd) = Some eid" for eid
  proof -
    from that obtain k s where "by_token k (nd_db nd) = Some s" and eid: "eid = s_execution_id s"
      by (auto simp: result_execution_def bind_eq_Some_conv)
    with by_token_row [OF wf] have "s \<in> set (sessions (nd_db nd))" by (blast dest: session_rowD)
    then show ?thesis using wf by (simp add: db_wf_def eid)
  qed
  have found: "\<exists>b. find_turn_session req ?nd = (None, b, ?nd)"
    using stale by (auto simp: find_turn_session_def stale_parts_def split: option.splits)
  have upd: "?nd\<lparr>nd_db := nd_db nd\<rparr> = ?nd" by (simp add: kill_def heard_from_def)
  have "\<exists>b. result_stage se req ?nd = (Inr b, ?nd)"
    using found
    by (auto simp: result_stage_def Let_def alone parent_to_notify_def run_result_tx_def run_tx_def
        begin_execution_tx_def tx_map_err_def tx_bind_def tx_ret_def body upd ex_bool_eq
        dest!: own split: option.splits)
  then obtain b where "result_stage se req ?nd = (Inr b, ?nd)" by blast
  with report show ?thesis
    by (simp add: worker_sync_def kill_tracked)
qed

text \<open>The worker \<open>v\<close> owns nothing and reports on the child, with a turn and an acknowledgement.\<close>

definition demo_stale :: sync_request where
  "demo_stale = \<lparr>sr_worker_id = ''v'', sr_executor_report = Some \<lparr>er_session_id = ''k'', er_executor_state = ''idle'',
     er_agent_session_id = None\<rparr>, sr_turn_result = Some demo_turn, sr_command_ack = Some ''tok''\<rparr>"

theorem stale_worker_refused_witness:
  "\<exists>nd'. worker_sync 2 demo_sync_env demo_stale (demo_node demo_commanded) = Some (Inr SyncNoAction, nd') \<and>
     nd_db nd' = demo_commanded"
proof -
  have "stale_parts demo_stale (nd_db (demo_node demo_commanded))"
    by (simp add: stale_parts_def demo_stale_def demo_turn_def demo_commanded_def demo_defs by_token_def session_row_def sql_find_def)
  from stale_worker_refused [OF _ this, of demo_sync_env 2] demo_commanded_wf show ?thesis
    by (auto simp: demo_sync_env_def)
qed

section \<open>The end of a turn\<close>

text \<open>
  C26. The end of a child's turn reaches its parent. When a transaction announces the end of a turn
  of a session that still runs, to a parent that is still open while the execution is live, the
  parent's inbox gains exactly one message, naming the child, at its end, a stopped parent runs
  again, and no other session's queue or row changes. When the parent or the execution has
  ended meanwhile, or the session no longer runs, nothing changes.
\<close>

theorem turn_complete_tells_parent:
  assumes run: "turn_complete (Some p) session (Some c) t = Inr ((), t')"
    and q: "session_row (s_id p) (tx_db t) = Some q"
    and x: "execution_row (s_execution_id c) (tx_db t) = Some x"
  shows "if s_desired c = DRun \<and> s_outcome c = None \<and> x_desired x \<noteq> DTerminate \<and> x_outcome x = None \<and>
         s_desired q \<noteq> DTerminate \<and> s_outcome q = None
     then (\<forall>i. inbox_of i (tx_db t') = inbox_of i (tx_db t) @
         (if i = s_id p then [notification_task session (s_id p) ''turn_complete''] else [])) \<and>
       (\<exists>q'. session_row (s_id p) (tx_db t') = Some q' \<and> s_desired q' = DRun \<and> s_outcome q' = None) \<and>
       (\<forall>i. i \<noteq> s_id p \<longrightarrow> session_row i (tx_db t') = session_row i (tx_db t))
     else t' = t"
proof (cases "s_desired c = DRun \<and> s_outcome c = None \<and> x_desired x \<noteq> DTerminate \<and> x_outcome x = None \<and>
     s_desired q \<noteq> DTerminate \<and> s_outcome q = None")
  case False
  with run q x show ?thesis by (auto simp: turn_complete_def tx_iffs split: if_splits)
next
  case True
  with run q x have "tell_parent session p q t = Inr ((), t')" by (simp add: turn_complete_def tx_iffs)
  then obtain t1 where
      t1: "(if s_desired q = DStop then resume_parent show_error (s_id p) ''system:turn_complete_notify'' else tx_ret ()) t = Inr ((), t1)"
    and inbox: "\<And>i. inbox_of i (tx_db t') = inbox_of i (enqueue (s_execution_id session) (s_id p)
        (to_string (child_notification (s_id session) ''turn_complete'')) (Some (''child_result:'' @ s_id session)) (tx_db t1))"
    and rows: "\<And>i. session_row i (tx_db t') = session_row i (tx_db t1)"
    by (auto simp: tell_parent_def tx_iffs tx_enqueue_iff insert_in_tx_db split: if_splits)
  have "inbox_of i (tx_db t1) = inbox_of i (tx_db t)"
    and "session_row i (tx_db t1) = (if i = s_id p \<and> s_desired q = DStop
      then Some (desired_row DRun ''system:turn_complete_notify'' (clock (tx_db t)) q) else session_row i (tx_db t))" for i
    using t1 q resume_parent_effect [of show_error "s_id p" "''system:turn_complete_notify''" t "()" t1 q]
    by (auto simp: tx_iffs split: if_splits)
  then show ?thesis
    using True q by (cases "s_desired q") (auto simp: inbox rows inbox_of_enqueue notification_task_def)
qed

theorem turn_complete_tells_parent_witness:
  "\<exists>t'. turn_complete (Some (demo_session ''r'' None Idle)) (demo_session ''k'' (Some ''r'') Running)
       (Some (demo_session ''k'' (Some ''r'') Running)) (demo_tx demo_db) = Inr ((), t') \<and>
     inbox_of ''r'' (tx_db t') = [notification_task (demo_session ''k'' (Some ''r'') Running) ''r'' ''turn_complete'']"
proof -
  let ?r = "turn_complete (Some (demo_session ''r'' None Idle)) (demo_session ''k'' (Some ''r'') Running)
       (Some (demo_session ''k'' (Some ''r'') Running)) (demo_tx demo_db)"
  have "case ?r of Inl _ \<Rightarrow> False | Inr _ \<Rightarrow> True" by code_simp
  then obtain t' where r: "?r = Inr ((), t')" by (auto split: sum.splits)
  have "session_row ''r'' (tx_db (demo_tx demo_db)) = Some (demo_session ''r'' None Idle)"
    "execution_row ''e'' (tx_db (demo_tx demo_db)) = Some demo_execution"
    by (simp_all add: demo_tx_def demo_rows)
  with turn_complete_tells_parent [OF r, of "demo_session ''r'' None Idle" demo_execution] r
  show ?thesis by (simp add: demo_session_def demo_execution_def demo_tx_def inbox_of_def demo_db_def empty_db_def)
qed

end
