(* ===== verification/Liveness_Props.thy ===== *)
theory Liveness_Props
  imports Worker_Sync_Props
begin

text \<open>
  The properties of the liveness tick (\<open>scheduler/src/main.rs\<close>): a look without a worker hands
  out nothing and gives no session a worker, so that what a tick takes from a silent worker stays
  taken.
\<close>

section \<open>A silent worker\<close>

lemma crash_effect:
  assumes wf: "db_wf d" and row: "session_row i d = Some s" and w: "s_worker_id s \<noteq> None"
  shows "\<exists>d' s'. transition env d (s_execution_id s) i DetectCrash d = (Inr None, d') \<and> session_row i d' = Some s' \<and>
    s_executor_state s' = Crashed \<and> s_worker_id s' = None \<and> s_command_token s' = None \<and>
    s_desired s' = s_desired s \<and> s_outcome s' = s_outcome s \<and> (\<forall>j. inbox_of j d' = inbox_of j d) \<and>
    (\<forall>j. j \<noteq> i \<longrightarrow> session_row j d' = session_row j d)"
proof -
  let ?t = "\<lparr>tx_db = d, tx_execution_id = s_execution_id s, tx_verified = []\<rparr>"
  let ?Q = "\<lambda>s. s_worker_id s \<noteq> None \<or> s_command_token s \<noteq> None"
  let ?f = "\<lambda>now s. (clear_command s)\<lparr>s_executor_state := Crashed, s_worker_id := None, s_updated_at := now\<rparr>"
  let ?u = "update_sessions (\<lambda>s. s_id s = i \<and> ?Q s) ?f d"
  have id: "s_id s = i" and c: "s \<in> set (sessions d)" using session_rowD [OF row] by auto
  obtain x where x: "execution_row (s_execution_id s) d = Some x" using wf c by (auto simp: db_wf_def)
  have n: "sql_count (\<lambda>s. s_id s = i \<and> ?Q s) (sessions d) \<noteq> 0"
    unfolding sql_count_zero_iff using c id w by auto
  have u: "session_row j ?u = (if j = i then Some (?f (clock d) s) else session_row j d)" for j
    using row w by (auto simp: session_row_update_id clear_command_def)
  have "\<exists>t'. crash_body s ?t = Inr (Inr (), t') \<and> sessions (tx_db t') = sessions ?u \<and> task_queue (tx_db t') = task_queue d"
    using row n u [of i]
    by (auto simp: crash_body_def tx_iffs id get_session_def state_event_iff insert_in_tx_def
        verify_session_owner_iff insert_row_iff clear_command_def)
  then obtain t' where body: "crash_body s ?t = Inr (Inr (), t')"
    and t': "sessions (tx_db t') = sessions ?u" "task_queue (tx_db t') = task_queue d" by blast
  have "transition env d (s_execution_id s) i DetectCrash d = (Inr None, tx_db t')"
    using row x body by (simp add: transition_def get_session_def detect_crash_def no_event_def run_tx_def begin_execution_tx_def)
  moreover have "session_row j (tx_db t') = session_row j ?u" for j using t'(1) by (rule session_row_same)
  ultimately show ?thesis
    using u t'(2) by (auto simp: clear_command_def inbox_of_def)
qed

section \<open>Looks without a worker\<close>

text \<open>No session gets a worker it did not have, and the sessions and their tree stay what they were.\<close>

definition no_new_owner :: "db \<Rightarrow> db \<Rightarrow> bool" where
  "no_new_owner d d' \<longleftrightarrow> same_tree d d' \<and> (\<forall>i s' w. session_row i d' = Some s' \<and> s_worker_id s' = Some w \<longrightarrow>
     (\<exists>s. session_row i d = Some s \<and> s_worker_id s = Some w))"

interpretation owner: session_relation no_new_owner
proof
  show "sessions d' = sessions d \<Longrightarrow> no_new_owner d d'" for d d'
    by (simp add: no_new_owner_def tree.S_same session_row_def)
  show "no_new_owner d d''" if "no_new_owner d d'" "no_new_owner d' d''" for d d' d''
    unfolding no_new_owner_def
  proof (intro conjI)
    show "same_tree d d''" using that unfolding no_new_owner_def by (elim conjE) (rule tree.S_trans)
    show "\<forall>i s' w. session_row i d'' = Some s' \<and> s_worker_id s' = Some w \<longrightarrow> (\<exists>s. session_row i d = Some s \<and> s_worker_id s = Some w)"
      using that unfolding no_new_owner_def by blast
  qed
qed

lemma no_new_owner_update:
  assumes "\<And>now s. P s \<Longrightarrow> lineage (f now s) = lineage s"
    and "\<And>now s. P s \<Longrightarrow> s_worker_id (f now s) = None \<or> s_worker_id (f now s) = s_worker_id s"
  shows "no_new_owner d (update_sessions P f d)"
  unfolding no_new_owner_def
proof (intro conjI allI impI)
  show "same_tree d (update_sessions P f d)" using assms(1) by (rule same_tree_update)
  have id: "P s \<Longrightarrow> s_id (f now s) = s_id s" for now s using assms(1) [of s now] by (simp add: lineage_def)
  fix i s' w assume s': "session_row i (update_sessions P f d) = Some s' \<and> s_worker_id s' = Some w"
  then obtain s where "session_row i d = Some s" "s' = (if P s then f (clock d) s else s)"
    using session_row_update [of P f d, OF id] by auto
  with s' show "\<exists>s. session_row i d = Some s \<and> s_worker_id s = Some w"
    using assms(2) [of s "clock d"] by (cases "P s") auto
qed

lemmas owner_rules = owner.rules owner.keeps_update_sessions [OF no_new_owner_update]

lemma owner_parts:
  "tx_keeps (\<lambda>t t'. no_new_owner (tx_db t) (tx_db t')) (resume_parent h pid who)"
  "tx_keeps (\<lambda>t t'. no_new_owner (tx_db t) (tx_db t')) (notify_option session parent ty)"
  "tx_keeps (\<lambda>t t'. no_new_owner (tx_db t) (tx_db t')) (write_execution_terminal_in_tx eid oc)"
  "tx_keeps (\<lambda>t t'. no_new_owner (tx_db t) (tx_db t')) (state_event sid p)"
  "tx_keeps (\<lambda>t t'. no_new_owner (tx_db t) (tx_db t')) (platform_event sid p)"
  unfolding notify_option_def write_parent_notification_in_tx_def resume_parent_def
    write_execution_terminal_in_tx_def state_event_def platform_event_def
  by (intro owner_rules; simp add: desired_row_def lineage_def)+

lemma owner_bodies:
  "tx_keeps (\<lambda>t t'. no_new_owner (tx_db t) (tx_db t')) (terminate_body session parent who)"
  "tx_keeps (\<lambda>t t'. no_new_owner (tx_db t) (tx_db t')) (fail_body session who rc)"
  "tx_keeps (\<lambda>t t'. no_new_owner (tx_db t) (tx_db t')) (crash_body session)"
  "tx_keeps (\<lambda>t t'. no_new_owner (tx_db t) (tx_db t')) (retry_body session)"
  "tx_keeps (\<lambda>t t'. no_new_owner (tx_db t) (tx_db t')) (repair_root_body session x)"
  "tx_keeps (\<lambda>t t'. no_new_owner (tx_db t) (tx_db t')) (repair_child_body session)"
  "tx_keeps (\<lambda>t t'. no_new_owner (tx_db t) (tx_db t')) (repair_desired_body session)"
  "tx_keeps (\<lambda>t t'. no_new_owner (tx_db t) (tx_db t')) (repair_execution_body session)"
  "tx_keeps (\<lambda>t t'. no_new_owner (tx_db t) (tx_db t')) (clear_stale_body session)"
  "tx_keeps (\<lambda>t t'. no_new_owner (tx_db t) (tx_db t')) (insert_in_tx sid ty p)"
  unfolding terminate_body_def fail_body_def crash_body_def retry_body_def repair_root_body_def repair_child_body_def
    repair_desired_body_def repair_execution_body_def clear_stale_body_def
  by (intro owner_rules owner_parts; simp add: terminate_row_def clear_command_def repair_outcome_row_def repair_desired_row_def lineage_def)+

lemma owner_finalize: "tx_keeps (\<lambda>t t'. no_new_owner (tx_db t) (tx_db t')) (finalize_body session)"
proof -
  have "tx_keeps (\<lambda>t t'. no_new_owner (tx_db t) (tx_db t')) (notify_parent_of_crash_in_tx s)" for s
    unfolding notify_parent_of_crash_in_tx_def
    by (cases "crashed_by s"; cases "s_parent_session_id s"; simp only: prod.case option.case;
        intro owner_rules owner_parts) (auto simp: lineage_def)
  then show ?thesis
    unfolding finalize_body_def by (intro owner_rules; simp add: lineage_def)
qed

lemma owner_run: "tx_keeps (\<lambda>t t'. no_new_owner (tx_db t) (tx_db t')) body \<Longrightarrow> no_new_owner d (snd (run_tx h eid body d))"
  by (cases "run_tx h eid body d") (auto dest: owner.keeps_run)

lemma owner_refl: "no_new_owner d d"
  by (rule owner.S_same) simp

lemma owner_set_desired: "no_new_owner d (snd (set_desired pre s DTerminate who d))"
  by (simp add: set_desired_def Let_def owner_refl owner_run owner_bodies)

lemma owner_ops:
  "no_new_owner d (snd (terminate_session pre eid sid who d))"
  "no_new_owner d (snd (terminate_session_failed pre eid sid who rc d))"
  "no_new_owner d (snd (transition env pre eid sid (SetDesired DTerminate who) d))"
  "no_new_owner d (snd (transition env pre eid sid DetectCrash d))"
  "no_new_owner d (snd (transition env pre eid sid RetryRecovery d))"
  "no_new_owner d (snd (insert_locked eid sid' ty p d))"
  "no_new_owner d (snd (finalize session d))"
proof -
  have no_event: "snd (no_event p) = snd p" for p by (auto simp: no_event_def split: prod.splits sum.splits)
  show "no_new_owner d (snd (terminate_session pre eid sid who d))"
    by (simp add: terminate_session_def owner_set_desired owner_refl split: sum.splits)
  show "no_new_owner d (snd (terminate_session_failed pre eid sid who rc d))"
    by (simp add: terminate_session_failed_def terminate_failed_def owner_run owner_bodies owner_refl split: sum.splits)
  show "no_new_owner d (snd (transition env pre eid sid (SetDesired DTerminate who) d))"
    "no_new_owner d (snd (transition env pre eid sid DetectCrash d))"
    "no_new_owner d (snd (transition env pre eid sid RetryRecovery d))"
    by (simp_all add: transition_def no_event owner_refl owner_set_desired detect_crash_def retry_recovery_def
        owner_run owner_bodies split: sum.splits)
  show "no_new_owner d (snd (insert_locked eid sid' ty p d))"
    unfolding insert_locked_def by (intro owner_run owner_rules)
  show "no_new_owner d (snd (finalize session d))"
    unfolding finalize_def by (intro owner_run owner_finalize)
qed

lemma owner_trans: "no_new_owner d d' \<Longrightarrow> no_new_owner d' d'' \<Longrightarrow> no_new_owner d d''"
  by (rule owner.S_trans)

lemma owner_insert_then:
  "no_new_owner d d1 \<Longrightarrow> no_new_owner (snd (insert_locked eid sid ty p d1)) d' \<Longrightarrow> no_new_owner d d'"
  using owner_ops(6) owner_trans by blast

lemma owner_terminate_child: "no_new_owner d (snd (terminate_child env session c d))"
  using owner_ops(3) [of d env d "s_execution_id session" "s_id c" "''system:cascade''"]
  by (auto simp: terminate_child_def owner_refl split: prod.splits sum.splits)

lemma owner_cascade_list:
  assumes "\<And>s d r d'. rec s d = Some (r, d') \<Longrightarrow> no_new_owner d d'"
  shows "cascade_list rec env session cs d = Some (r, d') \<Longrightarrow> no_new_owner d d'"
proof (induction cs arbitrary: d)
  case (Cons c cs)
  from Cons.prems owner_terminate_child [of d env session c] show ?case
    by (auto split: prod.splits sum.splits option.splits dest!: assms Cons.IH intro: owner_trans)
qed (simp add: owner_refl)

lemma owner_cascade_children: "cascade_children n env session d = Some (r, d') \<Longrightarrow> no_new_owner d d'"
  by (induction n arbitrary: session d r d') (auto dest: owner_cascade_list [rotated])

lemma owner_cascade_from: "cascade_from n env sid d = Some (r, d') \<Longrightarrow> no_new_owner d d'"
  by (auto simp: cascade_from_def owner_refl split: sum.splits dest: owner_cascade_children)

lemma owner_terminate_and_cascade: "terminate_and_cascade n env session who d = Some (r, d') \<Longrightarrow> no_new_owner d d'"
  using owner_ops(1) [of d d "s_execution_id session" "s_id session" who]
  by (auto simp: terminate_and_cascade_def split: prod.splits sum.splits if_splits
      dest!: owner_cascade_from intro: owner_trans)

lemma owner_mutated: "mutated p = (r, d') \<Longrightarrow> d' = snd p"
  by (auto simp: mutated_def split: prod.splits sum.splits)

lemma owner_expire: "no_new_owner d (snd (expire_command env session d))"
  unfolding expire_command_def Let_def by (auto intro: owner_ops owner_trans [OF owner_ops(6)])

lemma owner_cascade_once: "no_new_owner d (cascade_once env session d)"
proof -
  have "no_new_owner d (foldl (\<lambda>d c. if s_outcome c = None \<and> s_desired c \<noteq> DTerminate
        then snd (transition env d (s_execution_id session) (s_id c) (SetDesired DTerminate ''system:cascade'') d)
        else d) d cs)" for cs
    by (induction cs arbitrary: d) (auto simp: owner_refl intro: owner_trans [OF owner_ops(3)])
  then show ?thesis by (simp add: cascade_once_def)
qed

lemma owner_reconcile_crashed:
  assumes "reconcile_crashed n env session k d = Some (r, d')"
  shows "no_new_owner d d'"
  using assms owner_ops(2) [of d d "s_execution_id session" "s_id session" "''system:crash_unrecoverable''" True]
    owner_ops(5) [of d "re_env env" d "s_execution_id session" "s_id session"]
  by (auto simp: reconcile_crashed_def owner_refl split: sum.splits bool.splits prod.splits rejected.splits
      dest!: owner_mutated owner_cascade_from intro: owner_insert_then)

text \<open>With \<open>command_ok\<close> off, a look gives no session a worker and hands out no command.\<close>

lemma owner_reconcile:
  assumes "reconcile n env session k x False w d = Some (r, d')"
  shows "no_new_owner d d'"
proof -
  have disp: "no_new_owner e d'" if "dispatch n env session k x False w e = Some (r, d')" for e
    using that owner_ops(7) [of e session]
    by (auto simp: dispatch_def Let_def owner_refl split: desired.splits ex_state.splits if_splits
        dest!: owner_mutated owner_terminate_and_cascade owner_reconcile_crashed)
  have pend: "no_new_owner e (snd (pending_command env session False e))" for e
    by (simp add: pending_command_def owner_expire owner_refl owner_run owner_bodies)
  have repair: "no_new_owner d d'" if "run_tx h e body d = (r, d')"
    and "tx_keeps (\<lambda>t t'. no_new_owner (tx_db t) (tx_db t')) body" for h e body
    using owner_run [OF that(2), of d h e] that(1) by simp
  have repairs: "no_new_owner d d'" if "run_tx h e (repair_root_body session x) d = (r, d') \<or>
      run_tx h e (repair_child_body session) d = (r, d') \<or> run_tx h e (repair_desired_body session) d = (r, d') \<or>
      run_tx h e (repair_execution_body session) d = (r, d')" for h e
    using that repair owner_bodies by blast
  let ?d = "if s_desired session = DTerminate then cascade_once (re_env env) session d else d"
  have once: "no_new_owner d ?d" by (simp add: owner_cascade_once owner_refl)
  from assms have "dispatch n env session k x False w ?d = Some (r, d') \<or> pending_command env session False ?d = (r, d') \<or>
      no_new_owner d d'"
    unfolding reconcile_def Let_def by (simp only: split: if_splits) (auto intro: repairs)
  then show ?thesis
  proof (elim disjE)
    assume "pending_command env session False ?d = (r, d')"
    then have "no_new_owner ?d d'" using pend [of ?d] by simp
    with once show ?thesis by (rule owner_trans)
  qed (rule owner_trans [OF once disp])
qed

text \<open>What a look of the tick leaves alone.\<close>

definition calm :: "node \<Rightarrow> node \<Rightarrow> bool" where
  "calm nd nd' \<longleftrightarrow> nd_heartbeats nd' = nd_heartbeats nd \<and> nd_instant nd' = nd_instant nd \<and>
     nd_hb_timeout nd' = nd_hb_timeout nd \<and> no_new_owner (nd_db nd) (nd_db nd') \<and> node_step nd nd' \<and>
     set (worker_ids (nd_supervisor nd')) \<subseteq> set (worker_ids (nd_supervisor nd))"

lemma calm_refl: "calm nd nd"
  by (simp add: calm_def owner_refl)

lemma calm_trans: "calm nd nd' \<Longrightarrow> calm nd' nd'' \<Longrightarrow> calm nd nd''"
  unfolding calm_def using owner_trans node_step_trans by (metis subset_trans)

lemma calm_silent: "calm nd nd' \<Longrightarrow> tick_silent w nd' = tick_silent w nd"
  by (simp add: calm_def tick_silent_def silent_def split: option.splits)

lemma kill_subset: "set (worker_ids (nd_supervisor (kill w nd))) \<subseteq> set (worker_ids (nd_supervisor nd))"
  by (auto simp: kill_def kill_worker_def worker_ids_def AList.delete_eq split: option.splits)

lemma kill_subsetD: "v \<in> set (worker_ids (nd_supervisor (kill w nd))) \<Longrightarrow> v \<in> set (worker_ids (nd_supervisor nd))"
  using kill_subset by blast

lemma unowned_stays:
  assumes "no_new_owner d d'" and "session_row i d = Some s" and "s_worker_id s = None" and "session_row i d' = Some s'"
  shows "s_worker_id s' = None"
  using assms by (cases "s_worker_id s'") (fastforce simp: no_new_owner_def)+

lemma kill_sel [simp]:
  "nd_heartbeats (kill w nd) = nd_heartbeats nd" "nd_instant (kill w nd) = nd_instant nd"
  "nd_hb_timeout (kill w nd) = nd_hb_timeout nd"
  by (simp_all add: kill_def)

lemma calm_lose: "calm nd (lose_worker env s w nd)"
  using lose_worker_step [of nd env s w] kill_subset [of w nd]
  by (auto simp: calm_def lose_worker_def Let_def intro: owner_ops owner_trans [OF owner_ops(6)])

lemma calm_look: "look fuel env s False w nd = Some (r, nd') \<Longrightarrow> calm nd nd'"
  using look_step [of fuel env s False w nd r nd']
  by (auto simp: calm_def look_def owner_refl split: option.splits dest!: owner_reconcile dest: kill_subsetD)

lemma calm_tick_look: "tick_look fuel env s nd = Some (c, nd') \<Longrightarrow> calm nd nd'"
  by (auto simp: tick_look_def Let_def calm_refl calm_lose split: option.splits if_splits dest!: calm_look)

lemma calm_tick_pass: "tick_pass fuel env ss n nd = Some (m, nd') \<Longrightarrow> calm nd nd'"
  by (induction ss arbitrary: n nd) (auto simp: calm_refl split: option.splits dest!: calm_tick_look intro: calm_trans)

lemma tick_pass_append:
  "tick_pass fuel env (xs @ ys) n nd = Option.bind (tick_pass fuel env xs n nd) (\<lambda>(k, nd1). tick_pass fuel env ys k nd1)"
  by (induction xs arbitrary: n nd) (auto split: option.splits)

lemma crash_frees:
  assumes "db_wf d" and "session_row i d = Some s"
  shows "\<exists>s'. session_row i (snd (transition env d (s_execution_id s) i DetectCrash d)) = Some s' \<and> s_worker_id s' = None"
proof (cases "s_worker_id s = None")
  case True
  have "evolves d (snd (transition env d (s_execution_id s) i DetectCrash d))"
    using transition_step [of d env "s_execution_id s" i DetectCrash] by (simp add: good_step_def db_step_def)
  from evolves_session [OF this assms(2)] obtain s'
    where s': "session_row i (snd (transition env d (s_execution_id s) i DetectCrash d)) = Some s'" by blast
  from unowned_stays [OF owner_ops(4) assms(2) True s'] s' show ?thesis by blast
next
  case False
  from crash_effect [OF assms False, of env] show ?thesis by auto
qed

lemma lose_frees:
  assumes wf: "db_wf (nd_db nd)" and ev: "evolves d (nd_db nd)" and s: "session_row (s_id s) d = Some s"
  shows "\<exists>s'. session_row (s_id s) (nd_db (lose_worker env s w nd)) = Some s' \<and> s_worker_id s' = None"
proof -
  let ?d = "if s_command_has_payload s
            then snd (insert_locked (s_execution_id s) (Some (s_id s)) EvPlatform (to_string lost_message_event) (nd_db nd))
            else nd_db nd"
  have "good_step (nd_db nd) ?d" by (simp add: insert_locked_step)
  then have "db_wf ?d" and "evolves d ?d" using wf ev by (auto simp: good_step_def db_step_def intro: evolves_trans)
  from evolves_session [OF this(2) s] obtain s1 where s1: "session_row (s_id s) ?d = Some s1" "session_step s s1" by blast
  have "s_execution_id s1 = s_execution_id s" using s1(2) by (simp add: session_step_def)
  with crash_frees [OF \<open>db_wf ?d\<close> s1(1), of env] show ?thesis by (simp add: lose_worker_def Let_def)
qed

section \<open>A tick returns\<close>

lemma room_calm: "room fuel (nd_db nd) \<Longrightarrow> calm nd nd' \<Longrightarrow> room fuel (nd_db nd')"
  using room_step [of fuel "nd_db nd" "nd_db nd'"] by (simp add: calm_def node_step_def no_new_owner_def)

lemma look_returns: "room fuel (nd_db nd) \<Longrightarrow> look fuel env s cok w nd \<noteq> None"
  by (simp add: look_def reconcile_room del: not_None_eq split: option.split)

lemma tick_look_returns: "room fuel (nd_db nd) \<Longrightarrow> tick_look fuel env s nd \<noteq> None"
  using look_returns [of fuel nd env s False None] by (auto simp: tick_look_def Let_def split: option.splits)

lemma tick_pass_returns: "room fuel (nd_db nd) \<Longrightarrow> tick_pass fuel env ss n nd \<noteq> None"
proof (induction ss arbitrary: n nd)
  case (Cons s ss)
  obtain c nd1 where look: "tick_look fuel env s nd = Some (c, nd1)" using tick_look_returns [OF Cons.prems] by fastforce
  with Cons show ?case using room_calm [OF Cons.prems calm_tick_look [OF look]] by simp
qed simp

text \<open>
  C22. A tick gets rid of silent workers. With fuel for as many levels as there are sessions a liveness tick
  always returns. When a worker that has not been heard of for longer than the timeout owns a session at its start,
  then after the tick its process is no longer tracked, that session has no worker, and no session at
  all is left with that worker, whatever the tick did to the other sessions in between.
\<close>

theorem tick_frees_silent:
  assumes wf: "db_wf (nd_db nd)" and fuel: "length (sessions (nd_db nd)) \<le> fuel"
    and row: "session_row i (nd_db nd) = Some s" and own: "s_worker_id s = Some w" and silent: "tick_silent w nd"
  shows "\<exists>n nd'. liveness_tick fuel env nd = Some (n, nd') \<and>
    w \<notin> set (worker_ids (nd_supervisor nd')) \<and>
    (\<exists>s'. session_row i (nd_db nd') = Some s' \<and> s_worker_id s' = None) \<and>
    (\<forall>j t. session_row j (nd_db nd') = Some t \<longrightarrow> s_worker_id t \<noteq> Some w)"
proof -
  have "tick_pass fuel env (find_reconcilable (nd_db nd)) 0 nd \<noteq> None"
    using wf fuel by (intro tick_pass_returns) (simp add: room_def)
  then obtain n nd' where tick: "liveness_tick fuel env nd = Some (n, nd')" by (auto simp: liveness_tick_def)
  obtain nd2 where pass: "tick_pass fuel env (find_reconcilable (nd_db nd)) 0 nd = Some (n, nd2)"
    and nd': "nd' = prune_heartbeats nd2" using tick by (auto simp: liveness_tick_def)
  have freed: "(\<exists>t'. session_row j (nd_db nd2) = Some t' \<and> s_worker_id t' = None) \<and>
      w \<notin> set (worker_ids (nd_supervisor nd2))"
    if t: "session_row j (nd_db nd) = Some t" "s_worker_id t = Some w" for j t
  proof -
    have j: "s_id t = j" "t \<in> set (sessions (nd_db nd))" using session_rowD [OF t(1)] by auto
    then have "t \<in> set (find_reconcilable (nd_db nd))"
      using t(2) by (simp add: find_reconcilable_def by_created_def needs_look_def)
    then obtain xs ys where "find_reconcilable (nd_db nd) = xs @ t # ys" by (meson split_list)
    with pass obtain k nd1 where p1: "tick_pass fuel env xs 0 nd = Some (k, nd1)"
      and p2: "tick_pass fuel env ys (Suc k) (lose_worker (re_env env) t w nd1) = Some (n, nd2)"
      using t(2) calm_silent [OF calm_tick_pass] silent
      by (auto simp: tick_pass_append bind_eq_Some_conv tick_look_def Let_def)
    have c1: "calm nd nd1" by (rule calm_tick_pass [OF p1])
    then have "db_wf (nd_db nd1)" "evolves (nd_db nd) (nd_db nd1)"
      using wf by (auto simp: calm_def node_step_def good_step_def db_step_def)
    from lose_frees [OF this, of t] t(1) j(1) obtain t1
      where t1: "session_row j (nd_db (lose_worker (re_env env) t w nd1)) = Some t1" "s_worker_id t1 = None" by auto
    have c2: "calm (lose_worker (re_env env) t w nd1) nd2" by (rule calm_tick_pass [OF p2])
    then obtain t2 where t2: "session_row j (nd_db nd2) = Some t2"
      using t1(1) by (auto simp: calm_def node_step_def good_step_def db_step_def dest: evolves_session)
    have "s_worker_id t2 = None" using c2 unowned_stays [OF _ t1 t2] by (simp add: calm_def)
    moreover have "w \<notin> set (worker_ids (nd_supervisor (lose_worker (re_env env) t w nd1)))"
      using kill_tracked [of w nd1] by (simp add: lose_worker_def Let_def)
    ultimately show ?thesis using t2 c2 by (auto simp: calm_def)
  qed
  have "no_new_owner (nd_db nd) (nd_db nd2)" using calm_tick_pass [OF pass] by (simp add: calm_def)
  then have "s_worker_id t \<noteq> Some w" if "session_row j (nd_db nd2) = Some t" for j t
    using that freed by (fastforce simp: no_new_owner_def)
  with freed [OF row own] tick show ?thesis by (auto simp: nd' prune_heartbeats_def)
qed

theorem tick_frees_silent_witness:
  "\<exists>n nd' s'. liveness_tick 2 demo_rec_env (demo_node demo_db) = Some (n, nd') \<and>
     session_row ''k'' (nd_db nd') = Some s' \<and> s_worker_id s' = None"
proof -
  have row: "session_row ''k'' (nd_db (demo_node demo_db)) = Some (demo_session ''k'' (Some ''r'') Running)"
    by (simp add: demo_run)
  have "length (sessions (nd_db (demo_node demo_db))) \<le> 2" by (simp add: demo_defs demo_node_def)
  from tick_frees_silent [OF _ this row, of "''w''" demo_rec_env] show ?thesis
    by (auto simp: demo_db_wf demo_session_def tick_silent_def demo_node_def)
qed

end
