(* ===== verification/Decisions.thy ===== *)
theory Decisions
  imports Transition Text
begin

text \<open>
  \<open>scheduler/src/api/decisions.rs\<close>: the decisions that wait for the user, with the validator by
  which a client polls them, the detail of one decision, and the pages of those resolved.

  Two libraries are arguments, in the record \<open>api_lib\<close>: \<open>chrono\<close>'s reading and writing of
  timestamps and its clock, and \<open>sha2\<close>'s digest in hexadecimal. A row that cannot be decoded,
  which the readers pass over, is not modelled: every row of the model is decoded.
\<close>

record api_lib =
  al_rfc3339 :: "timestamp \<Rightarrow> string"
  al_secs :: "timestamp \<Rightarrow> string"
  al_parse :: "string \<Rightarrow> timestamp option"
  al_now :: timestamp
  al_sha256 :: "string \<Rightarrow> string"

definition SCAN_CHUNK :: nat where "SCAN_CHUNK = 500"

definition SCAN_CHUNK_BUDGET :: nat where "SCAN_CHUNK_BUDGET = 4"

definition DECISIONS_RESOLVED_DEFAULT_PAGE :: int where "DECISIONS_RESOLVED_DEFAULT_PAGE = 50"

definition DECISIONS_RESOLVED_MAX_PAGE :: int where "DECISIONS_RESOLVED_MAX_PAGE = 200"

section \<open>What is shown of a decision\<close>

definition normalize_resolved_at :: "api_lib \<Rightarrow> string option \<Rightarrow> timestamp \<Rightarrow> string" where
  "normalize_resolved_at L raw fallback =
     al_secs L (case Option.bind raw (al_parse L) of None \<Rightarrow> fallback | Some t \<Rightarrow> t)"

record question_option =
  qo_label :: string
  qo_description :: "string option"

record decision_question =
  dq_question :: string
  dq_context :: "string option"
  dq_options :: "question_option list option"
  dq_index :: nat

definition parse_option :: "json \<Rightarrow> question_option option" where
  "parse_option opt =
     map_option (\<lambda>label. \<lparr>qo_label = label, qo_description = get_str opt ''description''\<rparr>) (get_str opt ''label'')"

definition parse_questions :: "json list \<Rightarrow> decision_question list" where
  "parse_questions raw =
     map (\<lambda>(index, q).
       \<lparr>dq_question = (case get_str q ''question'' of None \<Rightarrow> [] | Some s \<Rightarrow> s),
        dq_context = get_str q ''context'',
        dq_options = map_option (List.map_filter parse_option) (get_array q ''options''),
        dq_index = index\<rparr>) (List.enumerate 0 raw)"

datatype decision_status = Pending | Answered | Dismissed | Expired

record decision_brief =
  db_event_id :: string
  db_batch_id :: string
  db_execution_id :: string
  db_execution_title :: "string option"
  db_session_id :: string
  db_status :: decision_status
  db_importance :: string
  db_questions :: "decision_question list"
  db_answer :: "string option"
  db_answered_at :: "string option"
  db_dismissed_at :: "string option"
  db_truncated :: "bool option"
  db_created_at :: string

definition build_brief ::
  "api_lib \<Rightarrow> escalation \<Rightarrow> resolution_candidate option \<Rightarrow> timestamp option \<Rightarrow> string option \<Rightarrow> bool \<Rightarrow> decision_brief" where
  "build_brief L esc marker marker_created_at title terminal =
     (let at = (case marker_created_at of None \<Rightarrow> al_now L | Some t \<Rightarrow> t);
          (status, answer, answered_at, dismissed_at, truncated) =
            (case marker of
               Some cand \<Rightarrow>
                 (case rc_kind cand of
                    Answer \<Rightarrow> (Answered, rc_answer_text cand,
                      Some (normalize_resolved_at L (rc_resolved_at_raw cand) at), None,
                      if rc_truncated cand then Some True else None)
                  | Dismiss \<Rightarrow> (Dismissed, None, None, Some (al_secs L at), None))
             | None \<Rightarrow> (if terminal then Expired else Pending, None, None, None, None)) in
      \<lparr>db_event_id = int_dec (esc_id esc), db_batch_id = ed_batch_id (esc_data esc),
       db_execution_id = esc_execution_id esc, db_execution_title = title, db_session_id = esc_session_id esc,
       db_status = status, db_importance = ed_importance (esc_data esc),
       db_questions = parse_questions (ed_questions (esc_data esc)),
       db_answer = answer, db_answered_at = answered_at, db_dismissed_at = dismissed_at,
       db_truncated = truncated, db_created_at = al_rfc3339 L (esc_created_at esc)\<rparr>)"

section \<open>The pending decisions\<close>

record window_event =
  we_event :: event
  we_session_coherent :: bool

text \<open>\<open>session_coherent\<close> is the success of the join with the sessions of the event's execution.\<close>

definition list_platform_events_for_executions :: "string list \<Rightarrow> db \<Rightarrow> window_event list" where
  "list_platform_events_for_executions eids db =
     map (\<lambda>e. \<lparr>we_event = e, we_session_coherent =
         (case ev_session_id e of None \<Rightarrow> False
          | Some sid \<Rightarrow> map_option s_execution_id (session_row sid db) = Some (ev_execution_id e))\<rparr>)
       (sort_key ev_id (filter (\<lambda>e. ev_execution_id e \<in> set eids \<and> ev_type e = EvPlatform) (events db)))"

record marker_target =
  mt_escalation_event_id :: int
  mt_execution_id :: string
  mt_session_id :: string

record pending_scan =
  sc_escalations :: "escalation list"
  sc_resolved :: "marker_target list"

definition scan_event :: "window_event \<Rightarrow> pending_scan \<Rightarrow> pending_scan" where
  "scan_event w sc =
     (let e = we_event w in
      if \<not> we_session_coherent w then sc
      else case ev_session_id e of
        None \<Rightarrow> sc
      | Some sid \<Rightarrow>
          (case escalation_data_of (ev_payload e) of
             Some data \<Rightarrow> sc\<lparr>sc_escalations := sc_escalations sc @
               [\<lparr>esc_id = ev_id e, esc_execution_id = ev_execution_id e, esc_session_id = sid,
                 esc_created_at = ev_created_at e, esc_data = data\<rparr>]\<rparr>
           | None \<Rightarrow>
               (case parse_parts (ev_payload e) of
                  None \<Rightarrow> sc
                | Some parts \<Rightarrow> sc\<lparr>sc_resolved := sc_resolved sc @
                    List.map_filter (\<lambda>cand. map_option (\<lambda>i. \<lparr>mt_escalation_event_id = i,
                        mt_execution_id = ev_execution_id e, mt_session_id = sid\<rparr>) (rc_escalation_event_id cand))
                      (resolution_candidates parts (ev_id e))\<rparr>)))"

definition scan_pending :: "string list \<Rightarrow> db \<Rightarrow> pending_scan" where
  "scan_pending eids db =
     fold scan_event (list_platform_events_for_executions eids db) \<lparr>sc_escalations = [], sc_resolved = []\<rparr>"

definition target_of :: "escalation \<Rightarrow> marker_target" where
  "target_of e = \<lparr>mt_escalation_event_id = esc_id e, mt_execution_id = esc_execution_id e, mt_session_id = esc_session_id e\<rparr>"

definition pending_ids :: "pending_scan \<Rightarrow> int set" where
  "pending_ids sc = esc_id ` set (filter (\<lambda>e. target_of e \<notin> set (sc_resolved sc)) (sc_escalations sc))"

record active_mark =
  am_id :: string
  am_outcome :: "outcome option"
  am_desired :: desired
  am_title :: "string option"
  am_platform_max :: "int option"

definition platform_max :: "string \<Rightarrow> db \<Rightarrow> int option" where
  "platform_max eid db =
     (case map ev_id (filter (\<lambda>e. ev_execution_id e = eid \<and> ev_type e = EvPlatform) (events db)) of
        [] \<Rightarrow> None
      | i # is \<Rightarrow> Some (fold max is i))"

definition active_executions :: "db \<Rightarrow> execution list" where
  "active_executions db = sort_key x_id (filter (\<lambda>x. x_outcome x = None \<and> x_desired x \<noteq> DTerminate) (executions db))"

definition list_active_with_platform_mark :: "db \<Rightarrow> active_mark list" where
  "list_active_with_platform_mark db =
     map (\<lambda>x. \<lparr>am_id = x_id x, am_outcome = x_outcome x, am_desired = x_desired x, am_title = x_title x,
               am_platform_max = platform_max (x_id x) db\<rparr>) (active_executions db)"

text \<open>\<open>list_active\<close>, of which the ids are used.\<close>

definition list_active :: "db \<Rightarrow> string list" where
  "list_active db = map x_id (active_executions db)"

section \<open>The validator\<close>

definition mark_tuple :: "active_mark \<Rightarrow> string" where
  "mark_tuple m =
     am_id m @ CHR 0x1F # (case am_outcome m of None \<Rightarrow> [] | Some o' \<Rightarrow> outcome_str o') @
     CHR 0x1F # desired_str (am_desired m) @
     CHR 0x1F # int_dec (case am_platform_max m of None \<Rightarrow> 0 | Some i \<Rightarrow> i)"

definition validator_text :: "active_mark list \<Rightarrow> string" where
  "validator_text ms = concat (map (\<lambda>t. t @ [CHR 0x1E]) (sort (map mark_tuple ms)))"

definition pending_validator :: "api_lib \<Rightarrow> active_mark list \<Rightarrow> string" where
  "pending_validator L ms = CHR 0x22 # al_sha256 L (validator_text ms) @ [CHR 0x22]"

definition without_weak :: "string \<Rightarrow> string" where
  "without_weak v = (case strip_prefix ''W/'' v of None \<Rightarrow> v | Some r \<Rightarrow> r)"

text \<open>A header value that \<open>to_str\<close> accepts is visible ASCII, blanks and tabs.\<close>

definition header_trim :: "string \<Rightarrow> string" where
  "header_trim s =
     (let blank = (\<lambda>c. c = CHR '' '' \<or> c = CHR 0x09) in rev (dropWhile blank (rev (dropWhile blank s))))"

definition header_matches :: "string option \<Rightarrow> string \<Rightarrow> bool" where
  "header_matches if_none_match etag =
     (case if_none_match of
        None \<Rightarrow> False
      | Some raw \<Rightarrow>
          let v = header_trim raw in
          v = ''*'' \<or> list_ex (\<lambda>c. without_weak (header_trim c) = without_weak etag) (split_on (CHR '','') v))"

datatype decisions_response =
    NotModified string
  | Decisions string "decision_brief list"

text \<open>\<open>pre\<close> is the database the marks are read from, \<open>db\<close> the one the events are read from, later.\<close>

definition pending_decisions :: "api_lib \<Rightarrow> string option \<Rightarrow> string option \<Rightarrow> db \<Rightarrow> db \<Rightarrow> decisions_response" where
  "pending_decisions L if_none_match execution_filter pre db =
     (let executions = filter (\<lambda>m. case execution_filter of None \<Rightarrow> True | Some i \<Rightarrow> am_id m = i)
            (list_active_with_platform_mark pre);
          etag = pending_validator L executions in
      if header_matches if_none_match etag then NotModified etag
      else
        let scan = scan_pending (map am_id executions) db;
            titles = map_of (map (\<lambda>m. (am_id m, am_title m)) executions) in
        Decisions etag
          (map (\<lambda>e. build_brief L e None None (Option.bind (titles (esc_execution_id e)) id) False)
            (filter (\<lambda>e. esc_id e \<in> pending_ids scan) (sc_escalations scan))))"

section \<open>One decision\<close>

definition decision_not_found :: scheduler_error where
  "decision_not_found = Problem ''decision.not_found'' ''no decision has this id''"

text \<open>The transaction reads; what it commits is what it found.\<close>

definition decision_body :: "api_lib \<Rightarrow> int \<Rightarrow> (scheduler_error, decision_brief) tx" where
  "decision_body L event_id =
     tx_bind (tx_try id (\<lambda>db. ok_or decision_not_found (get_escalation event_id db))) (\<lambda>esc.
     tx_bind (tx_try id (get_execution (esc_execution_id esc))) (\<lambda>x.
     tx_bind (tx_read (find_marker_for_escalation (al_secs L) esc)) (\<lambda>marker.
     tx_bind (tx_read (\<lambda>db. Option.bind marker (\<lambda>cand.
        map_option ev_created_at (event_by_id (own_event_id (rc_order_key cand)) db)))) (\<lambda>marker_created_at.
     tx_ret (build_brief L esc marker marker_created_at (x_title x)
       (x_outcome x \<noteq> None \<or> x_desired x = DTerminate))))))"

text \<open>\<open>pre\<close> is the database of the read outside the transaction, which finds its execution.\<close>

definition get_decision :: "api_lib \<Rightarrow> db \<Rightarrow> string \<Rightarrow> db \<Rightarrow> scheduler_error + decision_brief" where
  "get_decision L pre event_id db =
     (case parse_i64 event_id of
        None \<Rightarrow> Inl decision_not_found
      | Some i \<Rightarrow>
          (case get_escalation i pre of
             None \<Rightarrow> Inl decision_not_found
           | Some esc \<Rightarrow>
               fst (run_tx Inl (esc_execution_id esc)
                 (tx_bind (tx_map_err Inl (decision_body L i)) (\<lambda>b. tx_ret (Inr b))) db)))"

section \<open>The resolved decisions\<close>

record decision_summary =
  ds_event_id :: string
  ds_batch_id :: string
  ds_execution_id :: string
  ds_execution_title :: "string option"
  ds_session_id :: string
  ds_status :: string
  ds_importance :: string
  ds_question_preview :: string
  ds_question_count :: nat
  ds_created_at :: string

record 'a page =
  pg_items :: "'a list"
  pg_next_cursor :: "string option"
  pg_has_more :: bool

text \<open>One event of a chunk: an escalation that was not pending before the scan is found.\<close>

definition found_escalation :: "int set \<Rightarrow> event \<Rightarrow> escalation option" where
  "found_escalation prescan e =
     (case (ev_session_id e, escalation_data_of (ev_payload e)) of
        (Some sid, Some data) \<Rightarrow>
          if ev_id e \<in> prescan then None
          else Some \<lparr>esc_id = ev_id e, esc_execution_id = ev_execution_id e, esc_session_id = sid,
                 esc_created_at = ev_created_at e, esc_data = data\<rparr>
      | _ \<Rightarrow> None)"

text \<open>The loop over a chunk: what was found, the last event inspected, and whether it ended early.\<close>

fun inspect :: "nat \<Rightarrow> int set \<Rightarrow> event list \<Rightarrow> escalation list \<Rightarrow> int option \<Rightarrow> escalation list \<times> int option \<times> event list" where
  "inspect limit prescan [] found lowest = (found, lowest, [])"
| "inspect limit prescan (e # es) found lowest =
     (case found_escalation prescan e of
        Some esc \<Rightarrow>
          if limit \<le> length (found @ [esc]) then (found @ [esc], Some (ev_id e), es)
          else inspect limit prescan es (found @ [esc]) (Some (ev_id e))
      | None \<Rightarrow> inspect limit prescan es found (Some (ev_id e)))"

text \<open>The loop over the chunks; \<open>read k\<close> is the database at the \<open>k\<close>-th last read.\<close>

fun history_scan :: "nat \<Rightarrow> (nat \<Rightarrow> db) \<Rightarrow> nat \<Rightarrow> int set \<Rightarrow> int option \<Rightarrow> escalation list \<Rightarrow> int option \<Rightarrow>
    escalation list \<times> int option \<times> bool" where
  "history_scan 0 read limit prescan cursor found lowest = (found, lowest, False)"
| "history_scan (Suc k) read limit prescan cursor found lowest =
     (let chunk = scan_platform_descending cursor SCAN_CHUNK (read k) in
      if chunk = [] then (found, lowest, True)
      else case inspect limit prescan chunk found lowest of
        (found', lowest', rest) \<Rightarrow>
          if rest \<noteq> [] then (found', lowest', False)
          else if length chunk < SCAN_CHUNK then (found', lowest', True)
          else if limit \<le> length found' then (found', lowest', False)
          else history_scan k read limit prescan lowest' found' lowest')"

definition summary_of :: "api_lib \<Rightarrow> (string \<Rightarrow> string option) \<Rightarrow> escalation \<Rightarrow> decision_summary" where
  "summary_of L titles e =
     (let questions = parse_questions (ed_questions (esc_data e)) in
      \<lparr>ds_event_id = int_dec (esc_id e), ds_batch_id = ed_batch_id (esc_data e),
       ds_execution_id = esc_execution_id e, ds_execution_title = titles (esc_execution_id e),
       ds_session_id = esc_session_id e, ds_status = ''resolved'', ds_importance = ed_importance (esc_data e),
       ds_question_preview = (case questions of [] \<Rightarrow> [] | q # _ \<Rightarrow> dq_question q),
       ds_question_count = length questions, ds_created_at = al_rfc3339 L (esc_created_at e)\<rparr>)"

definition titles_for :: "db \<Rightarrow> string \<Rightarrow> string option" where
  "titles_for db eid = Option.bind (execution_row eid db) x_title"

definition invalid_request :: "string \<Rightarrow> scheduler_error" where
  "invalid_request detail = Problem ''request.invalid'' detail"

definition page_limit :: "int option \<Rightarrow> scheduler_error + nat" where
  "page_limit limit =
     (case limit of
        None \<Rightarrow> Inr (nat DECISIONS_RESOLVED_DEFAULT_PAGE)
      | Some n \<Rightarrow> if 1 \<le> n \<and> n \<le> DECISIONS_RESOLVED_MAX_PAGE then Inr (nat n)
          else Inl (invalid_request ''limit must be between 1 and the advertised maximum''))"

definition page_cursor :: "string option \<Rightarrow> scheduler_error + int option" where
  "page_cursor before =
     (case before of
        None \<Rightarrow> Inr None
      | Some v \<Rightarrow>
          (case parse_i64 v of
             Some i \<Rightarrow> if 0 < i then Inr (Some i) else Inl (invalid_request ''cursor is not a valid event id'')
           | None \<Rightarrow> Inl (invalid_request ''cursor is not a valid event id'')))"

text \<open>
  \<open>pre\<close> and \<open>post\<close> are the databases of the two looks at the pending decisions, \<open>read\<close> those of the
  chunks; the titles and the look past the end are read after them, from \<open>post\<close> on.
\<close>

definition resolved_decisions ::
  "api_lib \<Rightarrow> string option \<Rightarrow> int option \<Rightarrow> db \<Rightarrow> (nat \<Rightarrow> db) \<Rightarrow> db \<Rightarrow> scheduler_error + decision_summary page" where
  "resolved_decisions L before limit pre read post =
     (case page_limit limit of
        Inl e \<Rightarrow> Inl e
      | Inr n \<Rightarrow>
          (case page_cursor before of
             Inl e \<Rightarrow> Inl e
           | Inr cursor \<Rightarrow>
               let prescan = pending_ids (scan_pending (list_active pre) pre) in
               (case history_scan SCAN_CHUNK_BUDGET read n prescan cursor [] None of
                  (found, lowest, exhausted) \<Rightarrow>
                    let pending = pending_ids (scan_pending (list_active post) post);
                        kept = filter (\<lambda>e. esc_id e \<notin> pending) found;
                        has_more = (case lowest of
                            None \<Rightarrow> False
                          | Some i \<Rightarrow> \<not> exhausted \<and> platform_rows_exist_below i post) in
                    Inr \<lparr>pg_items = map (summary_of L (titles_for post)) kept,
                         pg_next_cursor = (if has_more then map_option int_dec lowest else None),
                         pg_has_more = has_more\<rparr>)))"

datatype decisions_reply = PendingReply decisions_response | ResolvedReply "decision_summary page"

definition get_decisions ::
  "api_lib \<Rightarrow> string option \<Rightarrow> string option \<Rightarrow> string option \<Rightarrow> string option \<Rightarrow> int option \<Rightarrow>
   db \<Rightarrow> (nat \<Rightarrow> db) \<Rightarrow> db \<Rightarrow> scheduler_error + decisions_reply" where
  "get_decisions L if_none_match execution_id state before limit pre read post =
     (case state of
        None \<Rightarrow>
          if before \<noteq> None then Inl (invalid_request ''before is only valid with state=resolved'')
          else if limit \<noteq> None then Inl (invalid_request ''limit is only valid with state=resolved'')
          else Inr (PendingReply (pending_decisions L if_none_match execution_id pre post))
      | Some s \<Rightarrow>
          if s = ''resolved'' then
            (if execution_id \<noteq> None then Inl (invalid_request ''execution_id is only valid without state=resolved'')
             else map_sum id ResolvedReply (resolved_decisions L before limit pre read post))
          else Inl (invalid_request ''unknown state''))"

end
