(* ===== verification/Decisions_Facts.thy ===== *)
theory Decisions_Facts
  imports Decisions Sessions
begin

text \<open>
  Facts about the decisions: what the scan of the platform events finds, that the validator text
  determines the marks it is made of, and how far one page of the resolved decisions reaches.
\<close>

section \<open>The scan\<close>

definition window_escalation :: "window_event \<Rightarrow> escalation option" where
  "window_escalation w = (if we_session_coherent w then
     Option.bind (ev_session_id (we_event w)) (\<lambda>sid. map_option (\<lambda>data.
       \<lparr>esc_id = ev_id (we_event w), esc_execution_id = ev_execution_id (we_event w), esc_session_id = sid,
        esc_created_at = ev_created_at (we_event w), esc_data = data\<rparr>) (escalation_data_of (ev_payload (we_event w))))
     else None)"

definition event_targets :: "event \<Rightarrow> marker_target list" where
  "event_targets e =
     (case (ev_session_id e, parse_parts (ev_payload e)) of
        (Some sid, Some parts) \<Rightarrow>
          List.map_filter (\<lambda>cand. map_option (\<lambda>i. \<lparr>mt_escalation_event_id = i,
              mt_execution_id = ev_execution_id e, mt_session_id = sid\<rparr>) (rc_escalation_event_id cand))
            (resolution_candidates parts (ev_id e))
      | _ \<Rightarrow> [])"

definition window_targets :: "window_event \<Rightarrow> marker_target list" where
  "window_targets w = (if we_session_coherent w \<and> escalation_data_of (ev_payload (we_event w)) = None
     then event_targets (we_event w) else [])"

lemma scan_event_eq:
  "scan_event w sc = sc\<lparr>sc_escalations := sc_escalations sc @ (case window_escalation w of None \<Rightarrow> [] | Some e \<Rightarrow> [e]),
     sc_resolved := sc_resolved sc @ window_targets w\<rparr>"
  by (simp add: scan_event_def window_escalation_def window_targets_def event_targets_def Let_def split: option.split)

lemma scan_fold:
  "fold scan_event ws sc = sc\<lparr>sc_escalations := sc_escalations sc @ List.map_filter window_escalation ws,
     sc_resolved := sc_resolved sc @ concat (map window_targets ws)\<rparr>"
  by (induction ws arbitrary: sc) (simp_all add: scan_event_eq List.map_filter_simps split: option.split)

lemma scan_pending_eq:
  "scan_pending eids d = \<lparr>sc_escalations = List.map_filter window_escalation (list_platform_events_for_executions eids d),
     sc_resolved = concat (map window_targets (list_platform_events_for_executions eids d))\<rparr>"
  by (simp add: scan_pending_def scan_fold)

lemma coherent:
  assumes "log_wf d" and "e \<in> set (events d)"
  shows "(case ev_session_id e of None \<Rightarrow> False | Some sid \<Rightarrow> map_option s_execution_id (session_row sid d) = Some (ev_execution_id e))
    \<longleftrightarrow> ev_session_id e \<noteq> None"
  using assms by (auto simp: log_wf_def split: option.split)

lemma window_events:
  assumes "log_wf d"
  shows "list_platform_events_for_executions eids d =
    map (\<lambda>e. \<lparr>we_event = e, we_session_coherent = (ev_session_id e \<noteq> None)\<rparr>)
      (sort_key ev_id (filter (\<lambda>e. ev_execution_id e \<in> set eids \<and> ev_type e = EvPlatform) (events d)))"
  unfolding list_platform_events_for_executions_def by (rule map_cong) (auto simp: coherent [OF assms])

definition platform_in :: "string list \<Rightarrow> db \<Rightarrow> event \<Rightarrow> bool" where
  "platform_in eids d e \<longleftrightarrow> e \<in> set (events d) \<and> ev_execution_id e \<in> set eids \<and> ev_type e = EvPlatform"

lemma escalations_scanned:
  assumes "log_wf d"
  shows "set (sc_escalations (scan_pending eids d)) = {esc. \<exists>e. platform_in eids d e \<and> as_escalation e = Some esc}"
  by (auto simp: scan_pending_eq window_events [OF assms] set_map_filter' window_escalation_def as_escalation_def platform_in_def
      bind_eq_Some_conv)

lemma targets_scanned:
  assumes "log_wf d"
  shows "set (sc_resolved (scan_pending eids d)) =
    {t. \<exists>e. platform_in eids d e \<and> escalation_data_of (ev_payload e) = None \<and> t \<in> set (event_targets e)}"
proof -
  have "event_targets e = []" if "ev_session_id e = None" for e using that by (simp add: event_targets_def)
  then show ?thesis
    by (auto simp: scan_pending_eq window_events [OF assms] window_targets_def platform_in_def) fastforce+
qed

section \<open>Markers\<close>

text \<open>
  A marker names an escalation by its event id. \<open>separate_markers\<close>: each platform event that
  carries one comes after the escalation it names and is not an escalation itself.
\<close>

definition separate_markers :: "db \<Rightarrow> bool" where
  "separate_markers d \<longleftrightarrow>
     (\<forall>e \<in> set (events d). ev_type e = EvPlatform \<longrightarrow> (\<forall>t \<in> set (event_targets e).
        mt_escalation_event_id t < ev_id e \<and> escalation_data_of (ev_payload e) = None))"

lemma better_keeps: "better best c \<noteq> None"
  by (auto simp: better_def split: option.split)

lemma foldl_better_None: "foldl better best cs = None \<longleftrightarrow> best = None \<and> cs = []"
  by (induction cs arbitrary: best) (auto simp: better_keeps)

lemma best_marker_None: "best_marker fmt evs esc = None \<longleftrightarrow> (\<forall>e \<in> set evs. marker_candidates fmt esc e = [])"
proof -
  have "foldl (\<lambda>best e. foldl better best (marker_candidates fmt esc e)) best evs = None \<longleftrightarrow>
      best = None \<and> (\<forall>e \<in> set evs. marker_candidates fmt esc e = [])" for best
    by (induction evs arbitrary: best) (auto simp: foldl_better_None)
  then show ?thesis by (simp add: best_marker_def)
qed

lemma marker_candidates_nil:
  assumes "ev_execution_id e = esc_execution_id esc"
  shows "marker_candidates fmt esc e = [] \<longleftrightarrow> target_of esc \<notin> set (event_targets e)"
  using assms
  by (auto simp: marker_candidates_def event_targets_def target_of_def set_map_filter' filter_empty_conv split: option.splits)

lemma marker_None:
  assumes "separate_markers d"
  shows "find_marker_for_escalation fmt esc d = None \<longleftrightarrow>
    (\<forall>e \<in> set (events d). ev_execution_id e = esc_execution_id esc \<longrightarrow> ev_type e = EvPlatform \<longrightarrow> target_of esc \<notin> set (event_targets e))"
proof -
  have "esc_id esc < ev_id e" if "e \<in> set (events d)" "ev_type e = EvPlatform" "target_of esc \<in> set (event_targets e)" for e
    using assms that by (force simp: separate_markers_def target_of_def)
  then show ?thesis
    by (auto simp: find_marker_for_escalation_def best_marker_None list_platform_after_in_execution_def marker_candidates_nil)
qed

lemma get_escalation_iff:
  assumes "log_wf d"
  shows "get_escalation i d = Some esc \<longleftrightarrow> (\<exists>e \<in> set (events d). ev_id e = i \<and> as_escalation e = Some esc)"
proof -
  have "distinct (map ev_id (events d))" using assms by (auto simp: log_wf_def strict_sorted_iff)
  then show ?thesis
    unfolding get_escalation_def event_by_id_def bind_eq_Some_conv by (auto simp: sql_find_key_iff)
qed

lemma as_escalation_ids:
  "as_escalation e = Some esc \<Longrightarrow> esc_id esc = ev_id e \<and> esc_execution_id esc = ev_execution_id e \<and> ev_type e = EvPlatform"
  by (auto simp: as_escalation_def bind_eq_Some_conv split: if_splits)

lemma pending_iff:
  assumes wf: "log_wf d" and sep: "separate_markers d" and esc: "get_escalation i d = Some esc"
  shows "i \<in> pending_ids (scan_pending eids d) \<longleftrightarrow>
    esc_execution_id esc \<in> set eids \<and> find_marker_for_escalation fmt esc d = None"
proof -
  obtain e where e: "e \<in> set (events d)" "ev_id e = i" "as_escalation e = Some esc"
    using esc by (auto simp: get_escalation_iff [OF wf])
  note ids = as_escalation_ids [OF e(3)]
  have same: "esc' = esc" if "platform_in eids d e'" "as_escalation e' = Some esc'" "esc_id esc' = i" for e' esc'
  proof -
    have "get_escalation i d = Some esc'"
      using that as_escalation_ids [OF that(2)] by (auto simp: get_escalation_iff [OF wf] platform_in_def)
    with esc show ?thesis by simp
  qed
  have "i \<in> pending_ids (scan_pending eids d) \<longleftrightarrow>
      (\<exists>e'. platform_in eids d e' \<and> as_escalation e' = Some esc) \<and> target_of esc \<notin> set (sc_resolved (scan_pending eids d))"
  proof -
    let ?E = "set (sc_escalations (scan_pending eids d))" and ?R = "set (sc_resolved (scan_pending eids d))"
    have E: "esc' \<in> ?E \<longleftrightarrow> (\<exists>e'. platform_in eids d e' \<and> as_escalation e' = Some esc')" for esc'
      by (simp add: escalations_scanned [OF wf])
    have "esc' = esc" if "esc' \<in> ?E" "esc_id esc' = i" for esc' using that same unfolding E by blast
    moreover have "esc_id esc = i" using ids e(2) by simp
    ultimately have "i \<in> pending_ids (scan_pending eids d) \<longleftrightarrow> esc \<in> ?E \<and> target_of esc \<notin> ?R"
      unfolding pending_ids_def set_filter by blast
    then show ?thesis unfolding E .
  qed
  also have "(\<exists>e'. platform_in eids d e' \<and> as_escalation e' = Some esc) \<longleftrightarrow> esc_execution_id esc \<in> set eids"
    using e unfolding platform_in_def by (metis as_escalation_ids)
  also have "esc_execution_id esc \<in> set eids \<and> target_of esc \<notin> set (sc_resolved (scan_pending eids d)) \<longleftrightarrow>
      esc_execution_id esc \<in> set eids \<and> find_marker_for_escalation fmt esc d = None"
  proof -
    have "ev_execution_id e' = esc_execution_id esc" if "target_of esc \<in> set (event_targets e')" for e'
      using that by (auto simp: event_targets_def target_of_def set_map_filter' split: option.splits)
    then show ?thesis
      using sep by (auto simp: targets_scanned [OF wf] marker_None [OF sep] platform_in_def separate_markers_def)
  qed
  finally show ?thesis .
qed

section \<open>The list and the detail\<close>

text \<open>What the detail of a decision is, and which details are listed as pending.\<close>

definition pending_briefs :: "api_lib \<Rightarrow> active_mark list \<Rightarrow> db \<Rightarrow> decision_brief list" where
  "pending_briefs L ms d =
     (let scan = scan_pending (map am_id ms) d; titles = map_of (map (\<lambda>m. (am_id m, am_title m)) ms) in
      map (\<lambda>e. build_brief L e None None (Option.bind (titles (esc_execution_id e)) id) False)
        (filter (\<lambda>e. esc_id e \<in> pending_ids scan) (sc_escalations scan)))"

lemma option_ext: "(\<And>t. a = Some t \<longleftrightarrow> b = Some t) \<Longrightarrow> a = b"
  by (cases a; cases b) auto

lemma marks_titles:
  assumes "distinct (map x_id (executions d))"
  shows "map_of (map (\<lambda>m. (am_id m, am_title m)) (list_active_with_platform_mark d)) i =
    (case execution_row i d of None \<Rightarrow> None
     | Some x \<Rightarrow> if x_outcome x = None \<and> x_desired x \<noteq> DTerminate then Some (x_title x) else None)"
proof -
  let ?a = "active_executions d"
  have "distinct (map x_id ?a)"
    using assms by (simp add: active_executions_def distinct_map inj_on_def)
  then have "map_of (map (\<lambda>x. (x_id x, x_title x)) ?a) i = Some t \<longleftrightarrow> (\<exists>x \<in> set ?a. x_id x = i \<and> x_title x = t)" for t
    by (subst map_of_eq_Some_iff) (auto simp: comp_def)
  moreover have "x \<in> set ?a \<and> x_id x = i \<longleftrightarrow> execution_row i d = Some x \<and> x_outcome x = None \<and> x_desired x \<noteq> DTerminate" for x
    using assms by (auto simp: active_executions_def execution_row_def sql_find_key_iff)
  ultimately have "map_of (map (\<lambda>x. (x_id x, x_title x)) ?a) i = Some t \<longleftrightarrow>
      (\<exists>x. execution_row i d = Some x \<and> x_outcome x = None \<and> x_desired x \<noteq> DTerminate \<and> x_title x = t)" for t
    by blast
  then have "map_of (map (\<lambda>x. (x_id x, x_title x)) ?a) i = (case execution_row i d of None \<Rightarrow> None
     | Some x \<Rightarrow> if x_outcome x = None \<and> x_desired x \<noteq> DTerminate then Some (x_title x) else None)"
    by (intro option_ext) (simp split: option.split)
  then show ?thesis by (simp add: list_active_with_platform_mark_def comp_def)
qed

lemma active_id: "distinct (map x_id (executions d)) \<Longrightarrow> i \<in> set (list_active d) \<longleftrightarrow>
    (\<exists>x. execution_row i d = Some x \<and> x_outcome x = None \<and> x_desired x \<noteq> DTerminate)"
  by (auto simp: list_active_def active_executions_def execution_row_def sql_find_key_iff)

lemma get_decision_Inr:
  assumes "get_decision L d eid d = Inr b"
  obtains i esc x where "parse_i64 eid = Some i" "get_escalation i d = Some esc"
    "execution_row (esc_execution_id esc) d = Some x"
    "b = build_brief L esc (find_marker_for_escalation (al_secs L) esc d)
       (Option.bind (find_marker_for_escalation (al_secs L) esc d) (\<lambda>cand. map_option ev_created_at (event_by_id (own_event_id (rc_order_key cand)) d)))
       (x_title x) (x_outcome x \<noteq> None \<or> x_desired x = DTerminate)"
  using assms
  by (auto simp: get_decision_def run_tx_def begin_execution_tx_def decision_body_def tx_bind_def tx_map_err_def tx_try_def
      tx_read_def tx_ret_def split: option.splits sum.splits prod.splits)

lemma brief_pending: "db_status (build_brief L esc None at title False) = Pending"
  by (simp add: build_brief_def)

lemma brief_status:
  "db_status (build_brief L esc m at title terminal) = Pending \<longleftrightarrow> m = None \<and> \<not> terminal"
  by (auto simp: build_brief_def Let_def split: option.split resolution_kind.split)

lemma db_wf_ids: "db_wf d \<Longrightarrow> distinct (map x_id (executions d))" "db_wf d \<Longrightarrow> log_wf d"
  by (simp_all add: db_wf_def)

lemma pending_decisions_all:
  "pending_decisions L None None d d = Decisions (pending_validator L (list_active_with_platform_mark d))
     (pending_briefs L (list_active_with_platform_mark d) d)"
  by (simp add: pending_decisions_def header_matches_def Let_def pending_briefs_def)

lemma marks_ids: "map am_id (list_active_with_platform_mark d) = list_active d"
  by (simp add: list_active_with_platform_mark_def list_active_def)

section \<open>The validator\<close>

lemma split_once_eq: "(c :: char) \<notin> set a \<Longrightarrow> c \<notin> set a' \<Longrightarrow> a @ c # b = a' @ c # b' \<longleftrightarrow> a = a' \<and> b = b'"
  by (metis option.inject prod.inject split_once_append)

lemma concat_terminated_inj:
  fixes c :: char
  shows "(\<And>t. t \<in> set ts \<union> set ts' \<Longrightarrow> c \<notin> set t) \<Longrightarrow>
   concat (map (\<lambda>t. t @ [c]) ts) = concat (map (\<lambda>t. t @ [c]) ts') \<Longrightarrow> ts = ts'"
proof (induction ts arbitrary: ts')
  case Nil
  then show ?case by (cases ts') auto
next
  case (Cons t ts)
  then obtain t' us where ts': "ts' = t' # us" by (cases ts') auto
  with Cons.prems have "t = t' \<and> concat (map (\<lambda>t. t @ [c]) ts) = concat (map (\<lambda>t. t @ [c]) us)"
    using split_once_eq [of c t t'] by simp
  then show ?case using Cons.IH [of us] Cons.prems(1) ts' by auto
qed

lemma nat_dec_show: "nat_dec n = show_dec n"
proof (induction n rule: nat_dec.induct)
  case (1 n)
  then show ?case by (simp add: nat_dec.simps [of n] show_base.simps [of 10 n] digit_char_def)
qed

lemma int_dec_inj: "int_dec m = int_dec n \<Longrightarrow> m = n"
proof -
  assume *: "int_dec m = int_dec n"
  have hd: "hd (show_dec k @ s) \<noteq> CHR ''-''" for k s
    using show_dec_hd [of k] by (auto simp: is_digit_def)
  have "nat_dec (nat \<bar>m\<bar>) = nat_dec (nat \<bar>n\<bar>) \<and> (m < 0 \<longleftrightarrow> n < 0)"
    using * hd [of "nat \<bar>m\<bar>" "[]"] hd [of "nat \<bar>n\<bar>" "[]"]
    by (auto simp: int_dec_def nat_dec_show split: if_splits) (metis list.sel(1))+
  then have "nat \<bar>m\<bar> = nat \<bar>n\<bar> \<and> (m < 0 \<longleftrightarrow> n < 0)"
    by (metis nat_dec_show show_dec_value)
  then show ?thesis by linarith
qed

definition plain_id :: "string \<Rightarrow> bool" where
  "plain_id i \<longleftrightarrow> CHR 0x1F \<notin> set i \<and> CHR 0x1E \<notin> set i"

lemma int_dec_plain: "plain_id (int_dec n)"
  using show_dec_digits [of "nat \<bar>n\<bar>"] by (auto simp: int_dec_def nat_dec_show plain_id_def list_all_iff is_digit_def)

lemma outcome_plain: "plain_id (case oc of None \<Rightarrow> [] | Some x \<Rightarrow> outcome_str x)"
  by (cases oc; cases "the oc") (simp_all add: plain_id_def)

lemma desired_plain: "plain_id (desired_str w)"
  by (cases w) (simp_all add: plain_id_def)

lemma mark_tuple_inj:
  assumes "plain_id (am_id m)" and "plain_id (am_id m')" and "mark_tuple m = mark_tuple m'"
  shows "am_id m = am_id m' \<and> am_outcome m = am_outcome m' \<and> am_desired m = am_desired m' \<and>
    (case am_platform_max m of None \<Rightarrow> 0 | Some i \<Rightarrow> i) = (case am_platform_max m' of None \<Rightarrow> 0 | Some i \<Rightarrow> i)"
proof -
  have oc: "(case o1 of None \<Rightarrow> [] | Some x \<Rightarrow> outcome_str x) = (case o2 of None \<Rightarrow> [] | Some x \<Rightarrow> outcome_str x) \<Longrightarrow> o1 = o2" for o1 o2
    by (cases o1; cases o2; cases "the o1"; cases "the o2") simp_all
  have ds: "desired_str a = desired_str b \<Longrightarrow> a = b" for a b by (cases a; cases b) simp_all
  show ?thesis
    using assms(3) unfolding mark_tuple_def
    using assms(1,2) outcome_plain [of "am_outcome m"] outcome_plain [of "am_outcome m'"]
      desired_plain [of "am_desired m"] desired_plain [of "am_desired m'"]
    by (simp add: plain_id_def split_once_eq) (metis oc ds int_dec_inj)
qed

lemma mark_tuple_plain: "plain_id (am_id m) \<Longrightarrow> CHR 0x1E \<notin> set (mark_tuple m)"
  using outcome_plain [of "am_outcome m"] desired_plain [of "am_desired m"] int_dec_plain
  by (auto simp: mark_tuple_def plain_id_def)

lemma validator_text_inj:
  assumes "\<And>m. m \<in> set ms \<union> set ms' \<Longrightarrow> plain_id (am_id m)" and "validator_text ms = validator_text ms'"
  shows "mark_tuple ` set ms = mark_tuple ` set ms'"
proof -
  have "sort (map mark_tuple ms) = sort (map mark_tuple ms')"
    by (rule concat_terminated_inj [OF _ assms(2) [unfolded validator_text_def]]) (use assms(1) mark_tuple_plain in auto)
  then show ?thesis by (metis list.set_map set_sort)
qed

section \<open>What an unchanged validator tells\<close>

definition platform_ids :: "string \<Rightarrow> db \<Rightarrow> int set" where
  "platform_ids eid d = ev_id ` {e \<in> set (events d). ev_execution_id e = eid \<and> ev_type e = EvPlatform}"

lemma platform_max_Max: "platform_max eid d = (if platform_ids eid d = {} then None else Some (Max (platform_ids eid d)))"
proof -
  have S: "platform_ids eid d = set (map ev_id (filter (\<lambda>e. ev_execution_id e = eid \<and> ev_type e = EvPlatform) (events d)))"
    by (auto simp: platform_ids_def)
  show ?thesis
    unfolding platform_max_def S
    by (cases "map ev_id (filter (\<lambda>e. ev_execution_id e = eid \<and> ev_type e = EvPlatform) (events d))")
      (simp_all add: Max.set_eq_fold [symmetric])
qed

lemma no_new_platform:
  assumes wf: "log_wf d" and app: "events d' = events d @ new" "ids_from (next_event_id d) new m" and pos: "1 \<le> next_event_id d"
    and max: "(case platform_max eid d of None \<Rightarrow> 0 | Some i \<Rightarrow> i) = (case platform_max eid d' of None \<Rightarrow> 0 | Some i \<Rightarrow> i)"
    and e: "e \<in> set new" "ev_type e = EvPlatform"
  shows "ev_execution_id e \<noteq> eid"
proof
  assume "ev_execution_id e = eid"
  then have in': "ev_id e \<in> platform_ids eid d'" using e app(1) by (auto simp: platform_ids_def)
  have fin: "finite (platform_ids eid d)" "finite (platform_ids eid d')" by (simp_all add: platform_ids_def)
  have new: "next_event_id d \<le> ev_id e" using ids_from_bounds [OF app(2) e(1)] by simp
  have old: "i < next_event_id d" if "i \<in> platform_ids eid d" for i
    using that wf by (auto simp: platform_ids_def log_wf_def)
  have "ev_id e \<le> Max (platform_ids eid d')" using fin(2) in' by simp
  moreover have "platform_max eid d' = Some (Max (platform_ids eid d'))" using in' by (auto simp: platform_max_Max)
  ultimately show False
    using max new pos old [OF Max_in [OF fin(1)]] by (auto simp: platform_max_Max split: if_splits)
qed

definition active_marks :: "string option \<Rightarrow> db \<Rightarrow> active_mark list" where
  "active_marks f d = filter (\<lambda>m. case f of None \<Rightarrow> True | Some i \<Rightarrow> am_id m = i) (list_active_with_platform_mark d)"

lemma pending_decisions_eq:
  "pending_decisions L inm f pre d =
     (let etag = pending_validator L (active_marks f pre) in
      if header_matches inm etag then NotModified etag else Decisions etag (pending_briefs L (active_marks f pre) d))"
  by (simp add: pending_decisions_def active_marks_def Let_def pending_briefs_def)

lemma active_marks_iff:
  assumes "db_wf d"
  shows "m \<in> set (active_marks f d) \<longleftrightarrow> (\<exists>x. execution_row (am_id m) d = Some x \<and> x_outcome x = None \<and> x_desired x \<noteq> DTerminate \<and>
    (case f of None \<Rightarrow> True | Some i \<Rightarrow> x_id x = i) \<and>
    m = \<lparr>am_id = x_id x, am_outcome = x_outcome x, am_desired = x_desired x, am_title = x_title x, am_platform_max = platform_max (x_id x) d\<rparr>)"
  using db_wf_ids(1) [OF assms]
  by (auto simp: active_marks_def list_active_with_platform_mark_def active_executions_def execution_row_def sql_find_key_iff
      split: option.splits)

lemma active_marks_sorted:
  assumes "db_wf d"
  shows "sorted_wrt (<) (map am_id (active_marks f d))"
proof -
  have "distinct (map x_id (active_executions d))" "sorted (map x_id (active_executions d))"
    using db_wf_ids(1) [OF assms] by (simp_all add: active_executions_def distinct_map inj_on_def)
  then have "sorted_wrt (<) (map am_id (list_active_with_platform_mark d))"
    by (simp add: marks_ids list_active_def strict_sorted_iff)
  then show ?thesis unfolding active_marks_def sorted_wrt_map by (rule sorted_wrt_filter)
qed

lemma strict_key_unique:
  fixes f :: "'a \<Rightarrow> string"
  assumes "sorted_wrt (<) (map f xs)" and "sorted_wrt (<) (map f ys)" and "set xs = set ys"
  shows "xs = ys"
proof -
  have "map f xs = map f ys" using assms by (intro strict_sorted_equal [symmetric]) auto
  moreover have "inj_on f (set xs \<union> set ys)" using assms by (auto simp: strict_sorted_iff distinct_map)
  ultimately show ?thesis by (rule map_inj_on)
qed

lemma same_marks:
  assumes wf: "db_wf d" "db_wf d'" and step: "db_step d d'" and pos: "1 \<le> next_event_id d"
    and plain: "\<And>x. x \<in> set (executions d) \<union> set (executions d') \<Longrightarrow> plain_id (x_id x)"
    and texts: "validator_text (active_marks f d) = validator_text (active_marks f d')"
  shows "active_marks f d = active_marks f d' \<and>
    filter (\<lambda>e. ev_execution_id e \<in> set (map am_id (active_marks f d)) \<and> ev_type e = EvPlatform) (events d') =
    filter (\<lambda>e. ev_execution_id e \<in> set (map am_id (active_marks f d)) \<and> ev_type e = EvPlatform) (events d)"
proof -
  obtain new where app: "events d' = events d @ new" "ids_from (next_event_id d) new (next_event_id d')"
    using step by (auto simp: db_step_def appends_def)
  have plain': "plain_id (am_id m)" if "m \<in> set (active_marks f d) \<union> set (active_marks f d')" for m
    using that plain by (auto simp: active_marks_iff [OF wf(1)] active_marks_iff [OF wf(2)] dest!: execution_rowD)
  note tuples = validator_text_inj [OF plain' texts]
  have same: "m = m' \<and> (\<forall>e \<in> set new. ev_type e = EvPlatform \<longrightarrow> ev_execution_id e \<noteq> am_id m)"
    if m: "m \<in> set (active_marks f d)" "m' \<in> set (active_marks f d')" and eq: "mark_tuple m = mark_tuple m'" for m m'
  proof -
    obtain x where x: "execution_row (am_id m) d = Some x" "m = \<lparr>am_id = x_id x, am_outcome = x_outcome x, am_desired = x_desired x,
        am_title = x_title x, am_platform_max = platform_max (x_id x) d\<rparr>"
      using m(1) by (auto simp: active_marks_iff [OF wf(1)])
    obtain y where y: "execution_row (am_id m') d' = Some y" "m' = \<lparr>am_id = x_id y, am_outcome = x_outcome y, am_desired = x_desired y,
        am_title = x_title y, am_platform_max = platform_max (x_id y) d'\<rparr>"
      using m(2) by (auto simp: active_marks_iff [OF wf(2)])
    have inj: "am_id m = am_id m' \<and> am_outcome m = am_outcome m' \<and> am_desired m = am_desired m' \<and>
        (case am_platform_max m of None \<Rightarrow> 0 | Some i \<Rightarrow> i) = (case am_platform_max m' of None \<Rightarrow> 0 | Some i \<Rightarrow> i)"
      using mark_tuple_inj [OF _ _ eq] plain' m by blast
    obtain y' where "execution_row (am_id m) d' = Some y'" "execution_step x y'"
      using step x(1) unfolding db_step_def evolves_def by blast
    then have "x_title y = x_title x" using y(1) inj by (simp add: execution_step_def)
    moreover have sel: "am_id m = x_id x" "am_platform_max m = platform_max (x_id x) d" "am_title m = x_title x"
      by (subst x(2), simp)+
    moreover have sel': "am_id m' = x_id y" "am_platform_max m' = platform_max (x_id y) d'" "am_title m' = x_title y"
      by (subst y(2), simp)+
    ultimately have max: "(case platform_max (am_id m) d of None \<Rightarrow> 0 | Some i \<Rightarrow> i) = (case platform_max (am_id m) d' of None \<Rightarrow> 0 | Some i \<Rightarrow> i)"
      and title: "am_title m = am_title m'"
      using inj by simp_all
    note none = no_new_platform [OF db_wf_ids(2) [OF wf(1)] app pos max]
    have "platform_ids (am_id m) d' = platform_ids (am_id m) d"
      using none by (auto simp: platform_ids_def app(1))
    then have "am_platform_max m = am_platform_max m'"
      using sel sel' inj by (simp add: platform_max_Max)
    then have "m = m'" using inj title by (intro active_mark.equality) simp_all
    then show ?thesis using none by blast
  qed
  have "set (active_marks f d) = set (active_marks f d')"
  proof (intro equalityI subsetI)
    fix m assume m: "m \<in> set (active_marks f d)"
    then have "mark_tuple m \<in> mark_tuple ` set (active_marks f d)" by (rule imageI)
    then have "mark_tuple m \<in> mark_tuple ` set (active_marks f d')" by (simp only: tuples)
    then obtain m' where m': "mark_tuple m = mark_tuple m'" "m' \<in> set (active_marks f d')" by (rule imageE)
    show "m \<in> set (active_marks f d')" using same [OF m m'(2,1), THEN conjunct1] m'(2) by simp
  next
    fix m' assume m': "m' \<in> set (active_marks f d')"
    then have "mark_tuple m' \<in> mark_tuple ` set (active_marks f d')" by (rule imageI)
    then have "mark_tuple m' \<in> mark_tuple ` set (active_marks f d)" by (simp only: tuples)
    then obtain m where m: "mark_tuple m' = mark_tuple m" "m \<in> set (active_marks f d)" by (rule imageE)
    show "m' \<in> set (active_marks f d)" using same [OF m(2) m' m(1) [symmetric], THEN conjunct1] m(2) by simp
  qed
  then have marks: "active_marks f d = active_marks f d'"
    by (intro strict_key_unique [of am_id] active_marks_sorted wf)
  have "filter (\<lambda>e. ev_execution_id e \<in> set (map am_id (active_marks f d)) \<and> ev_type e = EvPlatform) new = []"
    using same marks by (auto simp: filter_empty_conv)
  then show ?thesis using marks by (simp add: app(1))
qed

text \<open>The events may be read at any time between the two looks at the marks.\<close>

lemma same_scan:
  assumes wf: "db_wf d1" "db_wf d2" and step: "db_step d d1" "db_step d1 d2"
    and same: "filter P (events d2) = filter P (events d)"
    and P: "P = (\<lambda>e. ev_execution_id e \<in> set eids \<and> ev_type e = EvPlatform)"
  shows "scan_pending eids d2 = scan_pending eids d1"
proof -
  obtain n1 n2 where "events d1 = events d @ n1" "events d2 = events d1 @ n2"
    using step by (auto simp: db_step_def appends_def)
  then have "filter P (events d2) = filter P (events d1)" using same by simp
  then have "list_platform_events_for_executions eids d2 = list_platform_events_for_executions eids d1"
    by (simp add: window_events [OF db_wf_ids(2) [OF wf(1)]] window_events [OF db_wf_ids(2) [OF wf(2)]] P)
  then show ?thesis by (simp add: scan_pending_def)
qed

section \<open>Revalidation\<close>

text \<open>A digest in hexadecimal.\<close>

definition api_lib_ok :: "api_lib \<Rightarrow> bool" where
  "api_lib_ok L \<longleftrightarrow> (\<forall>t. \<forall>c \<in> set (al_sha256 L t). digit_of 16 c \<noteq> None)"

lemma etag_matches:
  assumes "api_lib_ok L" and "header_matches (Some (pending_validator L ms)) (pending_validator L ms')"
  shows "al_sha256 L (validator_text ms) = al_sha256 L (validator_text ms')"
proof -
  have comma: "CHR '','' \<notin> set (pending_validator L ms)"
    using assms(1) by (fastforce simp: api_lib_ok_def pending_validator_def digit_of_def Let_def)
  have trim: "header_trim (pending_validator L ms) = pending_validator L ms" for ms
    by (simp add: header_trim_def Let_def pending_validator_def)
  have weak: "without_weak (pending_validator L ms) = pending_validator L ms" for ms
    by (simp add: without_weak_def pending_validator_def strip_prefix_def)
  have "pending_validator L ms \<noteq> ''*''" by (simp add: pending_validator_def)
  then have "pending_validator L ms = pending_validator L ms'"
    using assms(2) by (simp add: header_matches_def Let_def trim split_on_none [OF comma] weak)
  then show ?thesis by (simp add: pending_validator_def)
qed

section \<open>Walking the resolved decisions\<close>

lemma digit_val_of: "n < 10 \<Longrightarrow> digit_val (char_of (48 + n)) = Some (int n)"
proof -
  assume "n < 10"
  moreover have "(of_char (char_of (48 + n)) :: int) = int (of_char (char_of (48 + n)))"
    by (simp only: of_nat_of_char)
  ultimately have "(of_char (char_of (48 + n)) :: int) = 48 + int n" by simp
  with \<open>n < 10\<close> show ?thesis by (simp add: digit_val_def Let_def)
qed

lemma parse_digits_nat_dec: "parse_digits 0 (nat_dec n @ s) = parse_digits (int n) s"
proof (induction n arbitrary: s rule: nat_dec.induct)
  case (1 n)
  show ?case
  proof (cases "n < 10")
    case True
    then show ?thesis by (simp add: nat_dec.simps [of n] digit_val_of)
  next
    case False
    have "parse_digits 0 (nat_dec n @ s) = parse_digits (int (n div 10)) (char_of (48 + n mod 10) # s)"
      using 1 [OF False] False by (simp add: nat_dec.simps [of n])
    also have "\<dots> = parse_digits (10 * int (n div 10) + int (n mod 10)) s"
      using digit_val_of [of "n mod 10"] by simp
    also have "10 * int (n div 10) + int (n mod 10) = int n" by presburger
    finally show ?thesis .
  qed
qed

lemma parse_i64_int_dec:
  assumes "0 \<le> i" and "i \<le> i64_max"
  shows "parse_i64 (int_dec i) = Some i"
proof -
  have u: "parse_unsigned (int_dec i) = Some i"
    using parse_digits_nat_dec [of "nat i" "[]"] assms show_dec_hd [of "nat i"]
    by (auto simp: parse_unsigned_def int_dec_def nat_dec_show)
  have "is_digit (hd (int_dec i))" "int_dec i \<noteq> []"
    using show_dec_hd [of "nat i"] assms by (auto simp: int_dec_def nat_dec_show)
  then show ?thesis
    using u assms by (auto simp: parse_i64_def i64_min_def is_digit_def split: list.split)
qed

text \<open>The platform events below a cursor, newest first.\<close>

definition platform_below :: "int option \<Rightarrow> db \<Rightarrow> event list" where
  "platform_below c d = rev (filter (\<lambda>e. ev_type e = EvPlatform \<and> (case c of None \<Rightarrow> True | Some b \<Rightarrow> ev_id e < b)) (events d))"

lemma log_sorted: "log_wf d \<Longrightarrow> sorted_wrt (\<lambda>e e'. ev_id e < ev_id e') (events d)"
  by (simp add: log_wf_def sorted_wrt_map)

lemma chunk_eq:
  assumes "log_wf d"
  shows "scan_platform_descending c n d = take n (platform_below c d)"
proof -
  have "sorted_wrt (\<lambda>e e'. ev_id e \<le> ev_id e') (events d)"
    using log_sorted [OF assms] by (rule sorted_wrt_mono_rel [rotated]) simp
  then have "sorted (map ev_id (filter P (events d)))" for P
    by (simp add: sorted_wrt_map sorted_wrt_filter)
  then show ?thesis
    by (simp add: scan_platform_descending_def events_below_def platform_below_def sort_key_id_if_sorted)
qed

lemma below_desc: "log_wf d \<Longrightarrow> sorted_wrt (\<lambda>e e'. ev_id e' < ev_id e) (platform_below c d)"
  by (simp add: platform_below_def sorted_wrt_rev sorted_wrt_filter log_sorted)

lemma filter_below_desc:
  "sorted_wrt (\<lambda>e e'. ev_id e' < ev_id e) (xs @ e # ys) \<Longrightarrow> filter (\<lambda>e'. ev_id e' < ev_id e) (xs @ e # ys) = ys"
  by (fastforce simp: sorted_wrt_append filter_empty_conv filter_id_conv)

lemma below_step:
  assumes "log_wf d" and "platform_below c d = taken @ rest" and "taken \<noteq> []"
  shows "platform_below (Some (ev_id (last taken))) d = rest"
proof -
  obtain ys e where t: "taken = ys @ [e]" using assms(3) by (cases taken rule: rev_cases) auto
  have "(case c of None \<Rightarrow> True | Some b \<Rightarrow> ev_id e < b)"
  proof -
    have "e \<in> set (platform_below c d)" by (simp add: assms(2) t)
    then show ?thesis by (auto simp: platform_below_def)
  qed
  then have "platform_below (Some (ev_id e)) d = filter (\<lambda>e'. ev_id e' < ev_id e) (platform_below c d)"
    by (auto simp: platform_below_def rev_filter [symmetric] intro!: filter_cong split: option.splits)
  also have "\<dots> = rest"
    using filter_below_desc [of ys e rest] below_desc [OF assms(1), of c] by (simp add: assms(2) t)
  finally show ?thesis by (simp add: t)
qed

lemma inspect_prefix:
  assumes "inspect n pre es found lowest = (found', lowest', rest)"
  shows "\<exists>taken. es = taken @ rest \<and> found' = found @ List.map_filter (found_escalation pre) taken \<and>
    lowest' = (if taken = [] then lowest else Some (ev_id (last taken))) \<and> (es \<noteq> [] \<longrightarrow> taken \<noteq> [])"
  using assms
proof (induction es arbitrary: found lowest)
  case Nil
  then show ?case by (simp add: List.map_filter_simps)
next
  case (Cons e es)
  show ?case
  proof (cases "\<exists>esc. found_escalation pre e = Some esc \<and> n \<le> length (found @ [esc])")
    case True
    then show ?thesis using Cons.prems by (intro exI [of _ "[e]"]) (auto simp: List.map_filter_simps)
  next
    case False
    let ?f = "case found_escalation pre e of None \<Rightarrow> found | Some esc \<Rightarrow> found @ [esc]"
    have "inspect n pre es ?f (Some (ev_id e)) = (found', lowest', rest)"
      using False Cons.prems by (auto split: option.splits)
    from Cons.IH [OF this] obtain taken where t: "es = taken @ rest"
      "found' = ?f @ List.map_filter (found_escalation pre) taken"
      "lowest' = (if taken = [] then Some (ev_id e) else Some (ev_id (last taken)))"
      by blast
    then show ?thesis by (intro exI [of _ "e # taken"]) (auto simp: List.map_filter_simps split: option.splits)
  qed
qed

lemma history_scan_prefix:
  assumes wf: "log_wf d"
  shows "history_scan k (\<lambda>_. d) n pre c found lowest = (found', lowest', exhausted) \<Longrightarrow>
    \<exists>taken rest. platform_below c d = taken @ rest \<and> found' = found @ List.map_filter (found_escalation pre) taken \<and>
      lowest' = (if taken = [] then lowest else Some (ev_id (last taken))) \<and>
      (exhausted \<longrightarrow> rest = []) \<and> (k \<noteq> 0 \<longrightarrow> platform_below c d \<noteq> [] \<longrightarrow> taken \<noteq> [])"
proof (induction k arbitrary: c found lowest)
  case 0
  then show ?case by - (rule exI [of _ "[]"], simp add: List.map_filter_simps)
next
  case (Suc k)
  let ?P = "platform_below c d"
  have pos: "SCAN_CHUNK \<noteq> 0" by (simp add: SCAN_CHUNK_def)
  show ?case
  proof (cases "take SCAN_CHUNK ?P = []")
    case True
    then have "?P = []" using pos by simp
    then show ?thesis using Suc.prems pos by (auto simp: chunk_eq [OF wf] List.map_filter_simps)
  next
    case False
    obtain f l r where ins: "inspect n pre (take SCAN_CHUNK ?P) found lowest = (f, l, r)" by (metis prod_cases3)
    from inspect_prefix [OF ins] False obtain t where t: "take SCAN_CHUNK ?P = t @ r"
      "f = found @ List.map_filter (found_escalation pre) t" "l = Some (ev_id (last t))" "t \<noteq> []"
      by auto
    have P: "?P = t @ (r @ drop SCAN_CHUNK ?P)" by (metis append.assoc append_take_drop_id t(1))
    have loop: "(if r \<noteq> [] then (f, l, False)
        else if length (take SCAN_CHUNK ?P) < SCAN_CHUNK then (f, l, True)
        else if n \<le> length f then (f, l, False)
        else history_scan k (\<lambda>_. d) n pre l f l) = (found', lowest', exhausted)"
      using Suc.prems unfolding history_scan.simps chunk_eq [OF wf] Let_def if_not_P [OF False] ins prod.case .
    consider (stop) "found' = f" "lowest' = l" "exhausted \<longrightarrow> r = [] \<and> length (take SCAN_CHUNK ?P) < SCAN_CHUNK"
      | (go) "r = []" "history_scan k (\<lambda>_. d) n pre l f l = (found', lowest', exhausted)"
    proof (cases "r \<noteq> [] \<or> length (take SCAN_CHUNK ?P) < SCAN_CHUNK \<or> n \<le> length f")
      case True
      then show ?thesis using loop stop by (cases "r = []"; cases "length (take SCAN_CHUNK ?P) < SCAN_CHUNK") (simp_all only: if_True if_False simp_thms prod.inject refl not_False_eq_True)
    next
      case neither: False
      then show ?thesis using loop go by (simp only: if_False de_Morgan_disj not_not simp_thms)
    qed
    then show ?thesis
    proof cases
      case stop
      have "exhausted \<longrightarrow> r @ drop SCAN_CHUNK ?P = []" using stop(3) by auto
      then show ?thesis using t P stop by (intro exI [of _ t] exI [of _ "r @ drop SCAN_CHUNK ?P"]) simp
    next
      case go
      have below: "platform_below l d = drop SCAN_CHUNK ?P"
        using below_step [OF wf P t(4)] by (simp add: t(3) go(1))
      from Suc.IH [OF go(2)] obtain t' r' where t': "drop SCAN_CHUNK ?P = t' @ r'"
        "found' = f @ List.map_filter (found_escalation pre) t'" "lowest' = (if t' = [] then l else Some (ev_id (last t')))"
        "exhausted \<longrightarrow> r' = []"
        unfolding below by blast
      show ?thesis
        using t t' P go(1)
        by (intro exI [of _ "t @ t'"] exI [of _ r']) (auto simp: List.map_filter_def)
    qed
  qed
qed

text \<open>A client that follows the cursors from the first page to the last one, of a database at rest.\<close>

fun resolved_walk :: "nat \<Rightarrow> api_lib \<Rightarrow> int \<Rightarrow> string option \<Rightarrow> db \<Rightarrow> (scheduler_error + decision_summary list) option" where
  "resolved_walk 0 L limit before d = None"
| "resolved_walk (Suc k) L limit before d =
     (case resolved_decisions L before (Some limit) d (\<lambda>_. d) d of
        Inl e \<Rightarrow> Some (Inl e)
      | Inr p \<Rightarrow>
          if pg_has_more p then map_option (map_sum id ((@) (pg_items p))) (resolved_walk k L limit (pg_next_cursor p) d)
          else Some (Inr (pg_items p)))"

definition pending_now :: "db \<Rightarrow> int set" where
  "pending_now d = pending_ids (scan_pending (list_active d) d)"

definition settled :: "db \<Rightarrow> event list \<Rightarrow> escalation list" where
  "settled d es = filter (\<lambda>e. esc_id e \<notin> pending_now d) (List.map_filter as_escalation es)"

lemma settled_append: "settled d (es @ es') = settled d es @ settled d es'"
  by (simp add: settled_def List.map_filter_def)

lemma settled_found:
  assumes "\<And>e. e \<in> set es \<Longrightarrow> ev_type e = EvPlatform"
  shows "filter (\<lambda>e. esc_id e \<notin> pending_now d) (List.map_filter (found_escalation (pending_now d)) es) = settled d es"
  using assms
  by (induction es)
    (auto simp: settled_def List.map_filter_simps found_escalation_def as_escalation_def split: option.splits)

lemma rows_below: "platform_rows_exist_below i d \<longleftrightarrow> platform_below (Some i) d \<noteq> []"
  by (auto simp: platform_rows_exist_below_def platform_below_def list_ex_iff filter_empty_conv)

lemma resolved_page:
  assumes wf: "log_wf d" and limit: "1 \<le> limit" "limit \<le> DECISIONS_RESOLVED_MAX_PAGE"
    and cur: "page_cursor before = Inr c"
  obtains taken rest where "platform_below c d = taken @ rest" "platform_below c d \<noteq> [] \<longrightarrow> taken \<noteq> []"
    "resolved_decisions L before (Some limit) d (\<lambda>_. d) d =
       Inr \<lparr>pg_items = map (summary_of L (titles_for d)) (settled d taken),
         pg_next_cursor = (if rest = [] then None else Some (int_dec (ev_id (last taken)))),
         pg_has_more = (rest \<noteq> [])\<rparr>"
proof -
  obtain found lowest exhausted where h:
    "history_scan SCAN_CHUNK_BUDGET (\<lambda>_. d) (nat limit) (pending_now d) c [] None = (found, lowest, exhausted)"
    by (metis prod_cases3)
  have "SCAN_CHUNK_BUDGET \<noteq> 0" by (simp add: SCAN_CHUNK_BUDGET_def)
  then obtain taken rest where t: "platform_below c d = taken @ rest"
    "found = [] @ List.map_filter (found_escalation (pending_now d)) taken"
    "lowest = (if taken = [] then None else Some (ev_id (last taken)))" "exhausted \<longrightarrow> rest = []"
    "platform_below c d \<noteq> [] \<longrightarrow> taken \<noteq> []"
    using history_scan_prefix [OF wf h] by blast
  have "ev_type e = EvPlatform" if "e \<in> set taken" for e
  proof -
    have "e \<in> set (platform_below c d)" using that by (simp add: t(1))
    then show ?thesis by (simp add: platform_below_def)
  qed
  then have items: "filter (\<lambda>e. esc_id e \<notin> pending_now d) found = settled d taken"
    unfolding t(2) append_Nil by (rule settled_found)
  have more: "(case lowest of None \<Rightarrow> False | Some i \<Rightarrow> \<not> exhausted \<and> platform_rows_exist_below i d) \<longleftrightarrow> rest \<noteq> []"
  proof (cases "taken = []")
    case True
    have "platform_below c d = []" using t(5) True by blast
    then have "rest = []" unfolding t(1) by simp
    moreover have "lowest = None" unfolding t(3) if_P [OF True] ..
    ultimately show ?thesis by simp
  next
    case False
    then have "lowest = Some (ev_id (last taken))" by (simp add: t(3))
    then show ?thesis using t(4) below_step [OF wf t(1) False] by (auto simp: rows_below)
  qed
  have ptr: "map_option int_dec lowest = Some (int_dec (ev_id (last taken)))" if "rest \<noteq> []"
  proof -
    have "taken \<noteq> []" using t(5) that unfolding t(1) by blast
    then show ?thesis by (simp add: t(3))
  qed
  have lim: "page_limit (Some limit) = Inr (nat limit)" using limit by (simp add: page_limit_def)
  have "resolved_decisions L before (Some limit) d (\<lambda>_. d) d =
       Inr \<lparr>pg_items = map (summary_of L (titles_for d)) (settled d taken),
         pg_next_cursor = (if rest = [] then None else Some (int_dec (ev_id (last taken)))),
         pg_has_more = (rest \<noteq> [])\<rparr>"
    unfolding resolved_decisions_def lim cur sum.case Let_def pending_now_def [symmetric] h prod.case items more
    using ptr by simp
  with t(1,5) that show ?thesis by blast
qed

lemma walk_from:
  assumes wf: "log_wf d" and limit: "1 \<le> limit" "limit \<le> DECISIONS_RESOLVED_MAX_PAGE"
    and ids: "\<And>e. e \<in> set (events d) \<Longrightarrow> 0 < ev_id e \<and> ev_id e \<le> i64_max"
  shows "page_cursor before = Inr c \<Longrightarrow> length (platform_below c d) < k \<Longrightarrow>
    resolved_walk k L limit before d = Some (Inr (map (summary_of L (titles_for d)) (settled d (platform_below c d))))"
proof (induction k arbitrary: before c)
  case 0
  then show ?case by simp
next
  case (Suc k)
  obtain taken rest where t: "platform_below c d = taken @ rest" "platform_below c d \<noteq> [] \<longrightarrow> taken \<noteq> []"
    and page: "resolved_decisions L before (Some limit) d (\<lambda>_. d) d =
       Inr \<lparr>pg_items = map (summary_of L (titles_for d)) (settled d taken),
         pg_next_cursor = (if rest = [] then None else Some (int_dec (ev_id (last taken)))),
         pg_has_more = (rest \<noteq> [])\<rparr>"
    by (rule resolved_page [OF wf limit Suc.prems(1)])
  show ?case
  proof (cases "rest = []")
    case True
    then show ?thesis by (simp add: page t(1))
  next
    case False
    then have ne: "taken \<noteq> []" using t by auto
    let ?i = "ev_id (last taken)"
    have "last taken \<in> set (platform_below c d)" using ne by (simp add: t(1))
    then have "0 < ?i \<and> ?i \<le> i64_max" by (intro ids) (auto simp: platform_below_def)
    then have cur: "page_cursor (Some (int_dec ?i)) = Inr (Some ?i)"
      by (simp add: page_cursor_def parse_i64_int_dec)
    have below: "platform_below (Some ?i) d = rest" by (rule below_step [OF wf t(1) ne])
    have "resolved_walk k L limit (Some (int_dec ?i)) d = Some (Inr (map (summary_of L (titles_for d)) (settled d rest)))"
    proof -
      have "length rest < k" using Suc.prems(2) ne by (cases taken) (simp_all add: t(1))
      then show ?thesis using Suc.IH [OF cur] by (simp add: below)
    qed
    then show ?thesis by (simp add: page t(1) False settled_append)
  qed
qed

end
