(* ===== verification/Decisions_Props.thy ===== *)
theory Decisions_Props
  imports Decisions_Facts Transition_Props
begin

text \<open>
  What a client of the decisions API relies on: the list and the detail of a decision agree, polling
  with a validator loses nothing, and the pages of the history cover it.
\<close>

definition demo_question :: event where
  "demo_question = \<lparr>ev_id = 1, ev_execution_id = ''e'', ev_session_id = Some ''k'', ev_type = EvPlatform,
     ev_payload = to_string (JObj [(''role'', JStr ROLE_AGENT), (''parts'', JArr [JObj [(''data'', JObj
       [(''type'', JStr ESCALATE_TYPE), (''batch_id'', JStr ''b''), (''questions'', JArr [JObj [(''question'', JStr ''ok?'')]])])]])]),
     ev_msg_seq = None, ev_created_at = 3\<rparr>"

definition demo_marker :: event where
  "demo_marker = demo_question\<lparr>ev_id := 2, ev_payload := to_string (marker_payload ''b'' (Some 1) 2 [] (Some ''yes'') False)\<rparr>"

definition demo_api :: api_lib where
  "demo_api = \<lparr>al_rfc3339 = (\<lambda>_. []), al_secs = (\<lambda>_. []), al_parse = (\<lambda>_. None), al_now = 9, al_sha256 = (\<lambda>t. if t = [] then ''0'' else ''a'')\<rparr>"

definition demo_asked :: db where
  "demo_asked = demo_db\<lparr>events := [demo_question], next_event_id := 2\<rparr>"

definition demo_settled :: db where
  "demo_settled = demo_db\<lparr>events := [demo_question, demo_marker], next_event_id := 3\<rparr>"

lemma demo_asked_wf: "db_wf demo_asked" "log_wf demo_settled"
  using demo_db_wf by (simp_all add: db_wf_def demo_asked_def demo_settled_def demo_question_def demo_marker_def demo_defs
    log_wf_def queue_wf_def session_row_def execution_row_def sql_find_def)

lemma demo_separate: "separate_markers demo_asked"
  by (simp add: separate_markers_def) (simp only: demo_asked_def, code_simp)

lemma demo_pending:
  "pending_decisions demo_api None None demo_asked demo_asked = Decisions (pending_validator demo_api (list_active_with_platform_mark demo_asked))
     (pending_briefs demo_api (list_active_with_platform_mark demo_asked) demo_asked)"
  by (rule pending_decisions_all)

section \<open>The list and the detail\<close>

text \<open>
  C34. The list of pending decisions and the detail of a decision agree: of the decisions whose detail
  can be read, the list holds exactly those whose detail says that they are pending, and as the
  same representation. Markers are assumed to come after the escalations they name.
\<close>

theorem pending_agrees_with_detail:
  assumes wf: "db_wf d" and sep: "separate_markers d"
    and bs: "pending_decisions L None None d d = Decisions etag bs" and b: "get_decision L d eid d = Inr b"
  shows "b \<in> set bs \<longleftrightarrow> db_status b = Pending"
proof -
  let ?ms = "list_active_with_platform_mark d" and ?find = "\<lambda>esc. find_marker_for_escalation (al_secs L) esc d"
  note ids = db_wf_ids [OF wf]
  have bs': "bs = pending_briefs L ?ms d" using bs by (simp add: pending_decisions_all)
  show ?thesis
  proof
    assume "b \<in> set bs"
    then show "db_status b = Pending" by (auto simp: bs' pending_briefs_def Let_def brief_pending)
  next
    assume pending: "db_status b = Pending"
    obtain i esc x where esc: "get_escalation i d = Some esc" and x: "execution_row (esc_execution_id esc) d = Some x"
      and brief: "b = build_brief L esc (?find esc) (Option.bind (?find esc)
        (\<lambda>cand. map_option ev_created_at (event_by_id (own_event_id (rc_order_key cand)) d)))
        (x_title x) (x_outcome x \<noteq> None \<or> x_desired x = DTerminate)"
      using b by (rule get_decision_Inr)
    from pending have m: "?find esc = None" and live: "x_outcome x = None" "x_desired x \<noteq> DTerminate"
      by (auto simp: brief brief_status)
    have "i \<in> pending_ids (scan_pending (list_active d) d)"
      using x live m by (simp add: pending_iff [OF ids(2) sep esc, of _ "al_secs L"] active_id [OF ids(1)])
    moreover obtain e where e: "e \<in> set (events d)" "ev_id e = i" "as_escalation e = Some esc"
      using esc by (auto simp: get_escalation_iff [OF ids(2)])
    moreover note as_escalation_ids [OF e(3)]
    moreover have "esc \<in> set (sc_escalations (scan_pending (list_active d) d))"
      using e as_escalation_ids [OF e(3)] x live
      by (auto simp: escalations_scanned [OF ids(2)] platform_in_def active_id [OF ids(1)])
    moreover have "b = build_brief L esc None None (x_title x) False" by (simp add: brief m live)
    ultimately show "b \<in> set bs"
      using x live unfolding bs' pending_briefs_def Let_def marks_ids set_map marks_titles [OF ids(1)]
      by (intro image_eqI [of _ _ esc]) simp_all
  qed
qed

theorem pending_agrees_with_detail_witness:
  "case get_decision demo_api demo_asked ''1'' demo_asked of Inl _ \<Rightarrow> False
   | Inr b \<Rightarrow> b \<in> set (pending_briefs demo_api (list_active_with_platform_mark demo_asked) demo_asked)"
proof -
  have "case get_decision demo_api demo_asked ''1'' demo_asked of Inl _ \<Rightarrow> False | Inr b \<Rightarrow> db_status b = Pending"
    by code_simp
  then show ?thesis
    using pending_agrees_with_detail [OF demo_asked_wf(1) demo_separate pending_decisions_all]
    by (auto split: sum.splits)
qed

section \<open>Polling\<close>

text \<open>
  C18. A client that polls the pending decisions with the validator of an earlier answer is told that
  nothing was modified only when the answer it would get is the earlier one: the validator covers
  everything of the database that the answer shows, whatever steps the system made in between and
  between the two reads of each answer. Assumed is that the digest has not collided on the two texts,
  and that execution identifiers hold no separator.
\<close>

theorem not_modified_sound:
  assumes "api_lib_ok L" and wf: "db_wf d" and steps: "db_step d d1" "db_step d1 d2" and "1 \<le> next_event_id d"
    and "\<And>x. x \<in> set (executions d) \<union> set (executions d2) \<Longrightarrow> plain_id (x_id x)"
    and first: "pending_decisions L None f d d1 = Decisions etag bs"
    and later: "pending_decisions L (Some etag) f d2 d3 = NotModified etag'"
    and collision: "\<And>t t'. t = validator_text (active_marks f d) \<Longrightarrow> t' = validator_text (active_marks f d2) \<Longrightarrow>
      al_sha256 L t = al_sha256 L t' \<Longrightarrow> t = t'"
  shows "pending_decisions L None f d2 d2 = Decisions etag bs"
proof -
  have etag: "etag = pending_validator L (active_marks f d)" and bs: "bs = pending_briefs L (active_marks f d) d1"
    using first by (simp_all add: pending_decisions_eq Let_def header_matches_def)
  have "header_matches (Some etag) (pending_validator L (active_marks f d2))"
    using later by (simp add: pending_decisions_eq Let_def split: if_splits)
  then have texts: "validator_text (active_marks f d) = validator_text (active_marks f d2)"
    using etag_matches [OF assms(1)] collision etag by blast
  have wfs: "db_wf d1" "db_wf d2" using wf steps by (simp_all add: db_step_def)
  note step = db_step_trans [OF steps(1,2)]
  note same = same_marks [OF wf wfs(2) step assms(5,6) texts]
  have "scan_pending (map am_id (active_marks f d)) d2 = scan_pending (map am_id (active_marks f d)) d1"
    by (rule same_scan [OF wfs steps(1,2) same [THEN conjunct2] refl])
  then have "pending_briefs L (active_marks f d) d2 = bs"
    by (simp add: bs pending_briefs_def)
  with same [THEN conjunct1] show ?thesis by (simp add: pending_decisions_eq Let_def header_matches_def etag)
qed

text \<open>A message was recorded since.\<close>

definition demo_later :: db where
  "demo_later = demo_asked\<lparr>events := [demo_question, demo_question\<lparr>ev_id := 2, ev_type := EvMessage\<rparr>], next_event_id := 3\<rparr>"

lemma demo_later_step: "db_step demo_asked demo_later" "db_wf demo_later"
proof -
  show wf: "db_wf demo_later"
    using demo_asked_wf(1) by (simp add: db_wf_def demo_later_def demo_asked_def demo_question_def demo_defs
        log_wf_def queue_wf_def session_row_def execution_row_def sql_find_def)
  have "evolves demo_asked demo_later" by (rule evolves_same_rows) (simp_all add: demo_later_def)
  moreover have "appends demo_asked demo_later" by (simp add: appends_def demo_later_def demo_asked_def)
  ultimately show "db_step demo_asked demo_later" using wf by (simp add: db_step_def)
qed

theorem not_modified_sound_witness:
  "pending_decisions demo_api None None demo_later demo_later = Decisions (pending_validator demo_api (active_marks None demo_asked))
     (pending_briefs demo_api (active_marks None demo_asked) demo_asked)"
proof (rule not_modified_sound [where d = demo_asked and ?d1.0 = demo_asked and ?d3.0 = demo_later and L = demo_api])
  show "api_lib_ok demo_api" by (simp add: api_lib_ok_def demo_api_def digit_of_def Let_def)
  show "1 \<le> next_event_id demo_asked" by (simp add: demo_asked_def)
  show "pending_decisions demo_api (Some (pending_validator demo_api (active_marks None demo_asked))) None demo_later demo_later =
      NotModified (pending_validator demo_api (active_marks None demo_asked))"
    by code_simp
  show "plain_id (x_id x)" if "x \<in> set (executions demo_asked) \<union> set (executions demo_later)" for x
    using that by (simp add: demo_asked_def demo_later_def demo_defs plain_id_def)
  have "validator_text (active_marks None demo_asked) = validator_text (active_marks None demo_later)" by code_simp
  then show "t = t'" if "t = validator_text (active_marks None demo_asked)" "t' = validator_text (active_marks None demo_later)" for t t'
    using that by simp
  show "db_step demo_asked demo_asked" by simp
qed (simp_all add: demo_asked_wf demo_later_step pending_decisions_eq header_matches_def)

section \<open>The history\<close>

text \<open>
  C17. The history of decisions is complete: a client that follows the cursors page by page is given each
  escalation that is not pending exactly once, newest first, and reaches the last page, for every page
  size the API allows, however many other events lie between them.
\<close>

theorem history_complete:
  assumes "log_wf d" and "1 \<le> limit" and "limit \<le> DECISIONS_RESOLVED_MAX_PAGE"
    and "\<And>e. e \<in> set (events d) \<Longrightarrow> 0 < ev_id e \<and> ev_id e \<le> i64_max"
  shows "resolved_walk (Suc (length (events d))) L limit None d =
    Some (Inr (map (summary_of L (titles_for d))
      (filter (\<lambda>e. esc_id e \<notin> pending_ids (scan_pending (list_active d) d)) (List.map_filter as_escalation (rev (events d))))))"
proof -
  have same: "settled d (platform_below None d) = settled d (rev (events d))"
  proof -
    have "List.map_filter as_escalation (rev (filter (\<lambda>e. ev_type e = EvPlatform) es)) = List.map_filter as_escalation (rev es)" for es
      by (induction es) (simp_all add: List.map_filter_def as_escalation_def)
    then show ?thesis by (simp add: settled_def platform_below_def)
  qed
  have "length (platform_below None d) < Suc (length (events d))"
    by (simp add: platform_below_def less_Suc_eq_le)
  moreover have "page_cursor None = Inr None" by (simp add: page_cursor_def)
  ultimately have "resolved_walk (Suc (length (events d))) L limit None d =
      Some (Inr (map (summary_of L (titles_for d)) (settled d (platform_below None d))))"
    by (intro walk_from [OF assms])
  then show ?thesis unfolding same unfolding settled_def pending_now_def .
qed

theorem history_complete_witness:
  "resolved_walk (Suc (length (events demo_settled))) demo_api 1 None demo_settled =
    Some (Inr (map (summary_of demo_api (titles_for demo_settled)) (List.map_filter as_escalation [demo_question])))"
proof -
  have "pending_ids (scan_pending (list_active demo_settled) demo_settled) = {}" by code_simp
  moreover have "List.map_filter as_escalation (rev (events demo_settled)) = List.map_filter as_escalation [demo_question]" by code_simp
  moreover have "resolved_walk (Suc (length (events demo_settled))) demo_api 1 None demo_settled =
    Some (Inr (map (summary_of demo_api (titles_for demo_settled))
      (filter (\<lambda>e. esc_id e \<notin> pending_ids (scan_pending (list_active demo_settled) demo_settled))
        (List.map_filter as_escalation (rev (events demo_settled))))))"
    by (rule history_complete [OF demo_asked_wf(2)])
      (auto simp: demo_settled_def demo_question_def demo_marker_def DECISIONS_RESOLVED_MAX_PAGE_def i64_max_def)
  ultimately show ?thesis by simp
qed

end
