(* ===== verification/Messaging_Props.thy ===== *)
theory Messaging_Props
  imports Messaging Cascade
begin

text \<open>
  The names of agents as paths in the session tree, that they identify, and what a message sent by
  name leaves in the database.
\<close>

section \<open>Ancestries\<close>

text \<open>A session with its ancestors, up to the root.\<close>

inductive ancestry :: "db \<Rightarrow> session \<Rightarrow> session list \<Rightarrow> bool" for d where
  root: "s_parent_session_id s = None \<Longrightarrow> ancestry d s [s]"
| child: "s_parent_session_id s = Some p \<Longrightarrow> session_row p d = Some q \<Longrightarrow> ancestry d q ss \<Longrightarrow> ancestry d s (s # ss)"

inductive_cases ancestryE: "ancestry d s ss"

lemma ancestry_hd: "ancestry d s ss \<Longrightarrow> ss \<noteq> [] \<and> hd ss = s"
  by (induction rule: ancestry.induct) auto

lemma ancestry_unique: "ancestry d s ss \<Longrightarrow> ancestry d s ss' \<Longrightarrow> ss' = ss"
proof (induction arbitrary: ss' rule: ancestry.induct)
  case (root s)
  from root.prems show ?case by (rule ancestryE) (use root.hyps in simp_all)
next
  case (child s p q ss)
  from child.prems show ?case
  proof (rule ancestryE)
    fix p' q' ts assume t: "ss' = s # ts" "s_parent_session_id s = Some p'" "session_row p' d = Some q'" "ancestry d q' ts"
    then have "q' = q" using child.hyps(1,2) by simp
    then show ?thesis using t child.IH by simp
  qed (use child.hyps in simp)
qed

lemma in_sessions_row: "db_wf d \<Longrightarrow> s \<in> set (sessions d) \<Longrightarrow> session_row (s_id s) d = Some s"
  by (auto simp: db_wf_def session_row_def sql_find_key_iff)

lemma session_position:
  assumes wf: "db_wf d" and s: "s \<in> set (sessions d)" "s_parent_session_id s = Some p"
  obtains q where "session_row p d = Some q" "s_execution_id q = s_execution_id s" "q \<in> set (sessions d)"
    "position (tree d) (s_id q) < position (tree d) (s_id s)"
proof -
  obtain q where q: "session_row p d = Some q" "s_execution_id q = s_execution_id s"
    using wf s by (fastforce simp: db_wf_def)
  have "(s_id s, Some p) \<in> set (tree d)"
    using s by (force simp: tree_def lineage_def)
  then have "position (tree d) p < position (tree d) (s_id s)"
    using db_wf_tree [OF wf] by (intro position_child) auto
  with q session_rowD [OF q(1)] show ?thesis by (intro that [of q]) auto
qed

lemma ancestry_exists:
  assumes wf: "db_wf d"
  shows "s \<in> set (sessions d) \<Longrightarrow> \<exists>ss. ancestry d s ss \<and> (\<forall>x \<in> set ss. x \<in> set (sessions d) \<and> s_execution_id x = s_execution_id s \<and>
    position (tree d) (s_id x) \<le> position (tree d) (s_id s)) \<and> distinct (map s_id ss)"
proof (induction "position (tree d) (s_id s)" arbitrary: s rule: less_induct)
  case less
  show ?case
  proof (cases "s_parent_session_id s")
    case None
    then show ?thesis using less.prems by (intro exI [of _ "[s]"]) (simp add: ancestry.root)
  next
    case (Some p)
    obtain q where q: "session_row p d = Some q" "s_execution_id q = s_execution_id s" "q \<in> set (sessions d)"
      "position (tree d) (s_id q) < position (tree d) (s_id s)"
      using wf less.prems Some by (rule session_position)
    from less.hyps [OF q(4,3)] obtain ss where ss: "ancestry d q ss"
      "\<forall>x \<in> set ss. x \<in> set (sessions d) \<and> s_execution_id x = s_execution_id q \<and> position (tree d) (s_id x) \<le> position (tree d) (s_id q)"
      "distinct (map s_id ss)" by blast
    have "s_id s \<notin> s_id ` set ss" using ss(2) q(4) by fastforce
    then show ?thesis
      using ss q less.prems ancestry.child [OF Some q(1) ss(1)] by (intro exI [of _ "s # ss"]) auto
  qed
qed

definition execution_map :: "string \<Rightarrow> db \<Rightarrow> string \<Rightarrow> (string option \<times> string) option" where
  "execution_map eid d = map_of (rev (map (\<lambda>s. (s_id s, (s_parent_session_id s, own_name s))) (list_sessions_of eid d)))"

lemma execution_map_at:
  assumes "db_wf d" and "s \<in> set (sessions d)" and "s_execution_id s = eid"
  shows "execution_map eid d (s_id s) = Some (s_parent_session_id s, own_name s)"
proof -
  have "distinct (map s_id (list_sessions_of eid d))"
    using assms(1) by (simp add: list_sessions_of_def db_wf_def distinct_map inj_on_def)
  then have "distinct (map fst (rev (map (\<lambda>s. (s_id s, (s_parent_session_id s, own_name s))) (list_sessions_of eid d))))"
    by (simp add: rev_map comp_def flip: rev_map)
  then show ?thesis
    unfolding execution_map_def using assms(2,3) by (subst map_of_eq_Some_iff) (auto simp: list_sessions_of_def)
qed

lemma walk_up_ancestry:
  assumes "ancestry d s ss" and "\<And>x. x \<in> set ss \<Longrightarrow> m (s_id x) = Some (s_parent_session_id x, own_name x)"
    and "\<And>p q. session_row p d = Some q \<Longrightarrow> s_id q = p" and "length ss \<le> n"
  shows "walk_up n m (s_id s) acc = acc @ map own_name ss"
  using assms(1,2,4)
proof (induction arbitrary: n acc rule: ancestry.induct)
  case (root s)
  then show ?case by (cases n) auto
next
  case (child s p q ss)
  then obtain k where n: "n = Suc k" by (cases n) auto
  have "walk_up k m (s_id q) (acc @ [own_name s]) = (acc @ [own_name s]) @ map own_name ss"
    using child.prems n by (intro child.IH) auto
  moreover have "s_id q = p" using child.hyps(2) assms(3) by blast
  ultimately show ?case using child.hyps(1) child.prems(1) [of s] n by simp
qed

lemma name_loop_ancestry:
  assumes "ancestry d s ss" and "session_row (s_id s) d = Some s"
  shows "name_loop n (s_id s) acc d = Inr (acc @ map own_name (take n ss))"
  using assms
proof (induction arbitrary: n acc rule: ancestry.induct)
  case (root s)
  then show ?case by (cases n) (auto simp: get_session_def)
next
  case (child s p q ss)
  have "s_id q = p" using session_rowD [OF child.hyps(2)] by simp
  then show ?case using child by (cases n) (auto simp: get_session_def)
qed

lemma climb_ancestry:
  assumes "ancestry d s ss" and "\<forall>x \<in> set ss. s_execution_id x = eid"
  shows "climb n eid d s = min n (length ss - 1)"
  using assms
proof (induction arbitrary: n rule: ancestry.induct)
  case (root s)
  then show ?case by (cases n) auto
next
  case (child s p q ss)
  have "s_execution_id q = eid" using child.prems child.hyps(3) ancestry_hd by (metis list.set_intros(2) list.set_sel(1))
  moreover have "ss \<noteq> []" using ancestry_hd [OF child.hyps(3)] by simp
  ultimately show ?case using child by (cases n; cases ss) auto
qed

definition full_name :: "session list \<Rightarrow> string" where
  "full_name ss = join ''/'' (rev (map own_name ss))"

lemma listed_name:
  assumes wf: "db_wf d" and s: "s \<in> set (sessions d)" "s_execution_id s = eid" and a: "ancestry d s ss"
  shows "join ''/'' (rev (walk_up (length (list_sessions_of eid d) + 1) (execution_map eid d) (s_id s) [])) = full_name ss"
proof -
  obtain ss' where "ancestry d s ss'" and ss': "\<forall>x \<in> set ss'. x \<in> set (sessions d) \<and> s_execution_id x = eid" "distinct (map s_id ss')"
    using ancestry_exists [OF wf s(1)] s(2) by blast
  with a have eq: "ss' = ss" using ancestry_unique by blast
  have "length ss = card (s_id ` set ss)" using ss'(2) by (metis eq distinct_card length_map set_map)
  also have "\<dots> \<le> card (s_id ` set (list_sessions_of eid d))"
    using ss'(1) eq by (intro card_mono image_mono) (auto simp: list_sessions_of_def)
  also have "\<dots> \<le> length (list_sessions_of eid d)" by (metis card_length length_map set_map)
  finally have "length ss \<le> length (list_sessions_of eid d) + 1" by simp
  then have "walk_up (length (list_sessions_of eid d) + 1) (execution_map eid d) (s_id s) [] = [] @ map own_name ss"
    using ss'(1) eq by (intro walk_up_ancestry [OF a]) (auto simp: execution_map_at [OF wf] dest: session_rowD)
  then show ?thesis by (simp add: full_name_def)
qed

lemma names_eq:
  "compute_hierarchical_names eid d = map (\<lambda>s. (s_id s, join ''/'' (rev (walk_up (length (list_sessions_of eid d) + 1)
     (execution_map eid d) (s_id s) [])))) (list_sessions_of eid d)"
  by (simp add: compute_hierarchical_names_def execution_map_def Let_def)

lemma names_iff:
  assumes wf: "db_wf d"
  shows "(i, n) \<in> set (compute_hierarchical_names eid d) \<longleftrightarrow>
    (\<exists>s ss. session_row i d = Some s \<and> s_execution_id s = eid \<and> ancestry d s ss \<and> n = full_name ss)"
proof -
  have "(i, n) \<in> set (compute_hierarchical_names eid d) \<longleftrightarrow> (\<exists>s \<in> set (sessions d). s_execution_id s = eid \<and> i = s_id s \<and>
     n = join ''/'' (rev (walk_up (length (list_sessions_of eid d) + 1) (execution_map eid d) (s_id s) [])))"
    by (auto simp: names_eq list_sessions_of_def)
  also have "\<dots> \<longleftrightarrow> (\<exists>s \<in> set (sessions d). s_execution_id s = eid \<and> i = s_id s \<and> (\<exists>ss. ancestry d s ss \<and> n = full_name ss))"
    using listed_name [OF wf] ancestry_exists [OF wf] ancestry_unique by metis
  also have "\<dots> \<longleftrightarrow> (\<exists>s ss. session_row i d = Some s \<and> s_execution_id s = eid \<and> ancestry d s ss \<and> n = full_name ss)"
    using in_sessions_row [OF wf] session_rowD by metis
  finally show ?thesis .
qed

section \<open>Two ways to a name\<close>

lemma names_agree:
  assumes wf: "db_wf d" and s: "session_row i d = Some s" and depth: "compute_depth i (s_execution_id s) d < 11"
  shows "\<exists>n. hierarchical_name_for_session i d = Inr n \<and>
    (\<forall>m. (i, m) \<in> set (compute_hierarchical_names (s_execution_id s) d) \<longleftrightarrow> m = n)"
proof -
  note row = session_rowD [OF s]
  obtain ss where ss: "ancestry d s ss" "\<forall>x \<in> set ss. s_execution_id x = s_execution_id s"
    using ancestry_exists [OF wf, of s] row by blast
  have "min 11 (length ss - 1) < 11"
    using depth s by (simp add: compute_depth_def climb_ancestry [OF ss])
  then have "take 20 ss = ss" by simp
  then have "hierarchical_name_for_session i d = Inr (full_name ss)"
    using name_loop_ancestry [OF ss(1), of 20 "[]"] s row
    by (simp add: hierarchical_name_for_session_def full_name_def)
  moreover have "(i, m) \<in> set (compute_hierarchical_names (s_execution_id s) d) \<longleftrightarrow> m = full_name ss" for m
    using s ss(1) ancestry_unique by (auto simp: names_iff [OF wf])
  ultimately show ?thesis by blast
qed

section \<open>Names identify\<close>

lemma join_snoc: "xs \<noteq> [] \<Longrightarrow> join sep (xs @ [y]) = join sep xs @ sep @ y"
  by (induction sep xs rule: join.induct) auto

lemma split_join: "xs \<noteq> [] \<Longrightarrow> \<forall>x \<in> set xs. c \<notin> set x \<Longrightarrow> split_on c (join [c] xs) = xs"
proof (induction "[c]" xs rule: join.induct)
  case (2 x)
  then show ?case by (simp add: split_on_none)
next
  case (3 x y xs)
  then show ?case by (simp add: split_on_append)
qed simp

text \<open>No two siblings go by the same name, and no name holds the separator.\<close>

definition names_ok :: "string \<Rightarrow> db \<Rightarrow> bool" where
  "names_ok eid d \<longleftrightarrow>
     (\<forall>s \<in> set (sessions d). s_execution_id s = eid \<longrightarrow> CHR ''/'' \<notin> set (own_name s)) \<and>
     (\<forall>s \<in> set (sessions d). \<forall>t \<in> set (sessions d). s_execution_id s = eid \<longrightarrow> s_execution_id t = eid \<longrightarrow>
        s_parent_session_id s = s_parent_session_id t \<longrightarrow> own_name s = own_name t \<longrightarrow> s = t)"

lemma path_identifies:
  assumes ok: "names_ok eid d" and wf: "db_wf d"
  shows "ancestry d s ss \<Longrightarrow> ancestry d t ts \<Longrightarrow> s \<in> set (sessions d) \<Longrightarrow> t \<in> set (sessions d) \<Longrightarrow>
    s_execution_id s = eid \<Longrightarrow> s_execution_id t = eid \<Longrightarrow> map own_name ss = map own_name ts \<Longrightarrow> s = t"
proof (induction arbitrary: t ts rule: ancestry.induct)
  case (root s)
  from root.prems(1) show ?case
  proof (rule ancestryE)
    assume "ts = [t]" "s_parent_session_id t = None"
    then show ?thesis using ok root by (auto simp: names_ok_def)
  next
    fix p q us assume "ts = t # us" "ancestry d q us"
    then show ?thesis using root.prems(6) ancestry_hd by fastforce
  qed
next
  case (child s p q ss)
  from child.prems(1) show ?case
  proof (rule ancestryE)
    assume "ts = [t]"
    then show ?thesis using child.prems(6) ancestry_hd [OF child.hyps(3)] by simp
  next
    fix p' q' us assume 2: "ts = t # us" "s_parent_session_id t = Some p'" "session_row p' d = Some q'" "ancestry d q' us"
    obtain r where "session_row p d = Some r" "s_execution_id r = s_execution_id s" "r \<in> set (sessions d)"
      by (rule session_position [OF wf child.prems(2) child.hyps(1)])
    moreover obtain r' where "session_row p' d = Some r'" "s_execution_id r' = s_execution_id t" "r' \<in> set (sessions d)"
      by (rule session_position [OF wf child.prems(3) 2(2)])
    ultimately have q: "q \<in> set (sessions d)" "q' \<in> set (sessions d)" "s_execution_id q = eid" "s_execution_id q' = eid"
      using child.hyps(2) 2(3) child.prems(4,5) by simp_all
    have "q = q'" by (rule child.IH [OF 2(4) q]) (use child.prems(6) 2(1) in simp)
    then have "p = p'" using child.hyps(2) 2(3) session_rowD by metis
    moreover have "own_name s = own_name t" using child.prems(6) 2(1) by simp
    ultimately show ?thesis using ok child.hyps(1) child.prems 2(2) unfolding names_ok_def by metis
  qed
qed

lemma name_identifies:
  assumes ok: "names_ok eid d" and wf: "db_wf d"
    and s: "ancestry d s ss" "s \<in> set (sessions d)" "s_execution_id s = eid"
    and t: "ancestry d t ts" "t \<in> set (sessions d)" "s_execution_id t = eid" and n: "full_name ss = full_name ts"
  shows "s = t"
proof -
  have plain: "\<forall>x \<in> set (rev (map own_name us)). CHR ''/'' \<notin> set x" and ne: "us \<noteq> []"
    if "ancestry d r us" "r \<in> set (sessions d)" "s_execution_id r = eid" for r us
  proof -
    have "\<forall>x \<in> set us. x \<in> set (sessions d) \<and> s_execution_id x = eid"
      using ancestry_exists [OF wf that(2)] ancestry_unique [OF _ that(1)] that(3) by blast
    then show "\<forall>x \<in> set (rev (map own_name us)). CHR ''/'' \<notin> set x" using ok by (auto simp: names_ok_def)
    show "us \<noteq> []" using ancestry_hd [OF that(1)] by simp
  qed
  have "rev (map own_name ss) = split_on (CHR ''/'') (full_name ss)"
    using plain [OF s] ne [OF s] unfolding full_name_def by (intro split_join [symmetric]) auto
  also have "\<dots> = rev (map own_name ts)"
    using plain [OF t] ne [OF t] unfolding n unfolding full_name_def by (intro split_join) auto
  finally show ?thesis
    by (intro path_identifies [OF ok wf s(1) t(1) s(2) t(2) s(3) t(3)]) (simp only: rev_is_rev_conv)
qed

lemma names_distinct:
  assumes wf: "db_wf d"
  shows "distinct (map fst (compute_hierarchical_names eid d))"
proof -
  have "distinct (map s_id (sessions d))" using wf by (simp add: db_wf_def)
  then have "distinct (map s_id (list_sessions_of eid d))"
    by (auto simp: list_sessions_of_def distinct_map intro: inj_on_subset)
  then show ?thesis by (simp add: names_eq comp_def)
qed

lemma filter_single:
  assumes "distinct xs" and "x \<in> set xs" and "P x" and "\<And>y. y \<in> set xs \<Longrightarrow> P y \<Longrightarrow> y = x"
  shows "filter P xs = [x]"
proof -
  obtain as bs where xs: "xs = as @ x # bs" using assms(2) by (auto simp: in_set_conv_decomp)
  have "\<not> P y" if y: "y \<in> set as \<union> set bs" for y
  proof
    assume "P y"
    moreover have "y \<in> set xs" using y xs by auto
    ultimately have "y = x" by (rule assms(4) [rotated])
    then show False using assms(1) xs y by auto
  qed
  then have "filter P as = []" "filter P bs = []" by (auto simp: filter_empty_conv)
  then show ?thesis using assms(3) xs by simp
qed

lemma recipient_by_name:
  assumes wf: "db_wf d" and ok: "names_ok eid d"
    and r: "(i, n) \<in> set (compute_hierarchical_names eid d)" and s: "(j, m) \<in> set (compute_hierarchical_names eid d)"
  shows "\<exists>r. session_row i d = Some r \<and> resolve_recipient_and_sender eid n j d = Inr (r, m)"
proof -
  let ?names = "compute_hierarchical_names eid d"
  obtain r rs where row: "session_row i d = Some r" "s_execution_id r = eid" "ancestry d r rs" "n = full_name rs"
    using r by (auto simp: names_iff [OF wf])
  have only: "p = (i, n)" if p: "p \<in> set ?names" "snd p = n" for p
  proof -
    obtain t ts where t: "session_row (fst p) d = Some t" "s_execution_id t = eid" "ancestry d t ts" "n = full_name ts"
      using p names_iff [OF wf, THEN iffD1, of "fst p" "snd p" eid] by auto
    have "t = r" using row t session_rowD by (intro name_identifies [OF ok wf t(3) _ t(2) row(3) _ row(2)]) auto
    then have "fst p = i" using session_rowD [OF t(1)] session_rowD [OF row(1)] by simp
    with p(2) show ?thesis by (cases p) simp
  qed
  have one: "filter (\<lambda>p. snd p = n) ?names = [(i, n)]"
  proof (rule filter_single)
    show "distinct ?names" using names_distinct [OF wf] by (simp add: distinct_map)
    show "(i, n) \<in> set ?names" by (rule r)
    show "y = (i, n)" if "y \<in> set ?names" "snd y = n" for y using that by (rule only)
  qed simp
  have "List.find (\<lambda>p. fst p = j) ?names = Some (j, m)"
  proof -
    have "List.find (\<lambda>p. fst p = j) ?names \<noteq> None"
    proof
      assume "List.find (\<lambda>p. fst p = j) ?names = None"
      then have "fst (j, m) \<noteq> j" using s unfolding find_None_iff by blast
      then show False by simp
    qed
    then obtain p where p: "List.find (\<lambda>p. fst p = j) ?names = Some p" by blast
    then have fst: "p \<in> set ?names" "fst p = j" by (auto simp: find_Some_iff)
    from fst(2) have eq: "(j, snd p) = p" by (rule subst) simp
    have "(j, snd p) \<in> set ?names" unfolding eq by (rule fst(1))
    then have "snd p = m" by (rule eq_key_imp_eq_value [OF names_distinct [OF wf] _ s])
    with fst(2) have "p = (j, m)" by (cases p) simp
    with p show ?thesis by simp
  qed
  then show ?thesis using one row(1) by (simp add: resolve_recipient_and_sender_def get_session_def)
qed

section \<open>Addressing\<close>

text \<open>
  C35. Names are addresses: the name an agent is told for itself, used as a recipient by any agent of
  its execution, reaches exactly that agent, and the message is signed with the name its sender was
  told for itself. Assumed is that siblings have different names without the separator, which the
  unique index on slugs and the slug generator give.
\<close>

theorem name_reaches:
  assumes wf: "db_wf d" and ok: "names_ok eid d"
    and r: "session_row i d = Some r" "s_execution_id r = eid" "compute_depth i eid d < 11"
    and s: "session_row j d = Some s" "s_execution_id s = eid" "compute_depth j eid d < 11"
  shows "\<exists>n m. hierarchical_name_for_session i d = Inr n \<and> hierarchical_name_for_session j d = Inr m \<and>
    resolve_recipient_and_sender eid n j d = Inr (r, m)"
proof -
  obtain n where n: "hierarchical_name_for_session i d = Inr n" "(i, n) \<in> set (compute_hierarchical_names eid d)"
    using names_agree [OF wf r(1)] r(2,3) by auto
  obtain m where m: "hierarchical_name_for_session j d = Inr m" "(j, m) \<in> set (compute_hierarchical_names eid d)"
    using names_agree [OF wf s(1)] s(2,3) by auto
  from recipient_by_name [OF wf ok n(2) m(2)] r(1) n(1) m(1) show ?thesis by auto
qed

lemma demo_names: "names_ok ''e'' demo_db"
  by (simp add: names_ok_def demo_defs own_name_def)

theorem name_reaches_witness:
  "\<exists>n m. hierarchical_name_for_session ''k'' demo_db = Inr n \<and> hierarchical_name_for_session ''r'' demo_db = Inr m \<and>
    resolve_recipient_and_sender ''e'' n ''r'' demo_db = Inr (demo_session ''k'' (Some ''r'') Running, m)"
proof (rule name_reaches [OF demo_db_wf demo_names])
  show "session_row ''r'' demo_db = Some (demo_session ''r'' None Idle)" by (simp add: demo_defs session_row_def sql_find_def)
  show "compute_depth ''k'' ''e'' demo_db < 11" "compute_depth ''r'' ''e'' demo_db < 11" by code_simp+
qed (simp_all add: demo_defs session_row_def sql_find_def)

section \<open>A message in the list\<close>

lemma find_sender_append:
  "List.find is_sender_data (ps @ qs) = (case List.find is_sender_data ps of None \<Rightarrow> List.find is_sender_data qs | Some p \<Rightarrow> Some p)"
  by (induction ps) auto

lemma is_sender_part [simp]: "is_sender_data (sender_part s)"
  by (simp add: is_sender_data_def sender_part_def data_part_def get_str_def)

lemma no_text_in_sender [simp]: "get_str (sender_part s) ''text'' = None"
  by (simp add: sender_part_def data_part_def get_str_def)

lemma map_filter_append: "List.map_filter f (xs @ ys) = List.map_filter f xs @ List.map_filter f ys"
  by (simp add: List.map_filter_def)

lemma sender_of_part [simp]:
  "map_option (\<lambda>d. \<lparr>si_name = str_or_empty d ''name'', si_session_id = str_or_empty d ''session_id''\<rparr>) (get (sender_part s) ''data'') = Some s"
  by (simp add: sender_part_def data_part_def str_or_empty_def get_str_def)

lemma messages_sorted:
  assumes "log_wf d"
  shows "list_messages_by_session sid None d = filter (\<lambda>e. ev_session_id e = Some sid \<and> ev_type e = EvMessage) (events d)"
proof -
  have "sorted (map ev_id (events d))" using assms by (auto simp: log_wf_def strict_sorted_iff)
  then have "sorted (map ev_id (filter P (events d)))" for P by (simp add: sorted_wrt_map sorted_wrt_filter)
  then show ?thesis by (simp add: list_messages_by_session_def sort_key_id_if_sorted)
qed

lemma post_message_Inr:
  assumes "post_message env debug auth req pre db = (Inr reply, db')"
  obtains recipient m i where "resolve_recipient_and_sender (mc_execution_id auth) (sr_to req) (mc_session_id auth) pre = Inr (recipient, m)"
    "transition env pre (s_execution_id recipient) (s_id recipient) (SendMessage (plain_message
       (delivery_payload (sr_parts req) (Some \<lparr>si_name = m, si_session_id = mc_session_id auth\<rparr>)))) db = (Inr i, db')"
    "reply = \<lparr>sp_event_id = int_dec (case i of None \<Rightarrow> 0 | Some n \<Rightarrow> n), sp_recipient_session_id = s_id recipient,
       sp_session_status = ''working''\<rparr>"
  using assms
  by (auto simp: post_message_def deliver_message_def split: sum.splits prod.splits if_splits)

lemma resolve_Inr:
  assumes wf: "db_wf d" and r: "resolve_recipient_and_sender eid n j d = Inr (r, m)"
  shows "session_row (s_id r) d = Some r \<and> s_execution_id r = eid \<and>
    (s_id r, n) \<in> set (compute_hierarchical_names eid d) \<and> (j, m) \<in> set (compute_hierarchical_names eid d)"
proof -
  obtain p i where p: "List.find (\<lambda>p. fst p = j) (compute_hierarchical_names eid d) = Some p" "snd p = m"
    and i: "filter (\<lambda>p. snd p = n) (compute_hierarchical_names eid d) = [i]" "session_row (fst i) d = Some r"
    using r by (auto simp: resolve_recipient_and_sender_def Let_def split: option.splits prod.splits list.splits sum.splits)
  have "i \<in> set (filter (\<lambda>p. snd p = n) (compute_hierarchical_names eid d))" unfolding i(1) by simp
  then have "(fst i, n) \<in> set (compute_hierarchical_names eid d)" by auto
  moreover have "p \<in> set (compute_hierarchical_names eid d)" "fst p = j" using p(1) by (auto simp: find_Some_iff)
  then have "(j, m) \<in> set (compute_hierarchical_names eid d)" using p(2) by auto
  ultimately show ?thesis using i(2) names_iff [OF wf] session_rowD [OF i(2)] by auto
qed

text \<open>
  C36. What an agent sends is what its recipient's messages show: after a message was accepted the list
  has it as its only new entry, in the recipient's execution and for the session that goes by the name given,
  and the recipient's queue has one turn more. The entry shows the parts as sent, in their order, without those
  that claim a sender, and the texts of all of them as its body. The sender it shows is the authenticated
  agent with its name when no part claims one; otherwise it is the first one claimed, whoever sent it.
\<close>

theorem message_listed:
  assumes wf: "db_wf db" "db_wf pre" and pre: "evolves pre db"
    and run: "post_message env debug auth req pre db = (Inr reply, db')"
    and old: "list_messages env2 (sp_recipient_session_id reply) None db = Inr ms"
  shows "\<exists>m entry. list_messages env2 (sp_recipient_session_id reply) None db' = Inr (ms @ [entry]) \<and>
    (sp_recipient_session_id reply, sr_to req) \<in> set (compute_hierarchical_names (mc_execution_id auth) pre) \<and>
    (mc_session_id auth, m) \<in> set (compute_hierarchical_names (mc_execution_id auth) pre) \<and>
    mr_id entry = sp_event_id reply \<and>
    (\<forall>i. length (inbox_of i db') = length (inbox_of i db) + (if i = sp_recipient_session_id reply then 1 else 0)) \<and>
    mr_parts entry = filter (\<lambda>p. \<not> is_sender_data p) (sr_parts req) \<and>
    mr_body entry = join [CHR 0x0A] (List.map_filter (\<lambda>p. get_str p ''text'') (sr_parts req)) \<and>
    mr_sender entry = (case List.find is_sender_data (sr_parts req) of
        None \<Rightarrow> Some \<lparr>si_name = m, si_session_id = mc_session_id auth\<rparr>
      | Some p \<Rightarrow> map_option (\<lambda>d. \<lparr>si_name = str_or_empty d ''name'', si_session_id = str_or_empty d ''session_id''\<rparr>) (get p ''data''))"
proof -
  obtain r m i where res: "resolve_recipient_and_sender (mc_execution_id auth) (sr_to req) (mc_session_id auth) pre = Inr (r, m)"
    and tr: "transition env pre (s_execution_id r) (s_id r) (SendMessage (plain_message
       (delivery_payload (sr_parts req) (Some \<lparr>si_name = m, si_session_id = mc_session_id auth\<rparr>)))) db = (Inr i, db')"
    and reply: "reply = \<lparr>sp_event_id = int_dec (case i of None \<Rightarrow> 0 | Some n \<Rightarrow> n), sp_recipient_session_id = s_id r,
       sp_session_status = ''working''\<rparr>"
    using run by (rule post_message_Inr)
  let ?me = "\<lparr>si_name = m, si_session_id = mc_session_id auth\<rparr>"
  let ?parts = "event_parts (sr_parts req) (Some ?me)"
  note names = resolve_Inr [OF wf(2) res]
  obtain cur where cur: "session_row (s_id r) db = Some cur" using names pre by (auto dest: evolves_session)
  note sent = send_message_lands [OF cur tr]
  define e where "e = message_event db (s_execution_id r) (s_id r) (delivery_payload (sr_parts req) (Some ?me))"
  obtain rest where ev: "events db' = events db @ e # rest" "\<forall>x \<in> set rest. ev_type x = EvPlatform"
    using sent unfolding e_def plain_message_def by auto
  have wf': "log_wf db'" using op_transition tr wf(1) by (metis db_step_def db_wf_log op_ok_step)
  obtain s' where "session_row (s_id r) db' = Some s'" using sent by blast
  moreover have "ev_session_id e = Some (s_id r)" "ev_type e = EvMessage" by (simp_all add: e_def message_event_def new_event_def)
  moreover have "filter (\<lambda>e. ev_session_id e = Some (s_id r) \<and> ev_type e = EvMessage) rest = []" using ev(2) by (auto simp: filter_empty_conv)
  ultimately have list: "list_messages env2 (s_id r) None db' = Inr (ms @ [message_response_of env2 e])"
    using old cur by (simp add: reply list_messages_def get_session_def messages_sorted [OF wf'] messages_sorted [OF db_wf_log [OF wf(1)]] ev(1))
  have payload: "ev_payload e = to_string (message_payload ROLE_USER ?parts)"
    by (simp add: e_def message_event_def new_event_def message_event_payload_def is_some_field_def delivery_payload_def)
  have parts: "get_array (message_payload ROLE_USER ps) ''parts'' = Some ps" for ps
    by (simp add: message_payload_def get_array_def)
  have entry: "mr_id (message_response_of env2 e) = sp_event_id reply"
    using sent by (simp add: message_response_of_def Let_def reply e_def message_event_def new_event_def)
  note shown = message_response_of_def payload Let_def parts event_parts_def
  have "mr_parts (message_response_of env2 e) = filter (\<lambda>p. \<not> is_sender_data p) (sr_parts req)"
    by (simp add: shown extract_content_parts_def)
  moreover have "mr_body (message_response_of env2 e) = join [CHR 0x0A] (List.map_filter (\<lambda>p. get_str p ''text'') (sr_parts req))"
    by (simp add: shown extract_text_from_parts_def map_filter_append)
  moreover have "mr_sender (message_response_of env2 e) = (case List.find is_sender_data (sr_parts req) of None \<Rightarrow> Some ?me
      | Some p \<Rightarrow> map_option (\<lambda>d. \<lparr>si_name = str_or_empty d ''name'', si_session_id = str_or_empty d ''session_id''\<rparr>) (get p ''data''))"
    by (simp add: shown extract_sender_from_parts_def find_sender_append split: option.split)
  moreover have "length (inbox_of i db') = length (inbox_of i db) + (if i = s_id r then 1 else 0)" for i
    using sent by simp
  ultimately show ?thesis
    using list names entry by (intro exI [of _ m] exI [of _ "message_response_of env2 e"]) (simp add: reply)
qed

definition demo_auth :: mcp_session where
  "demo_auth = \<lparr>mc_session_id = ''r'', mc_execution_id = ''e'', mc_agent_id = ''a'', mc_role = RootLead, mc_depth = 0,
     mc_max_depth = 2, mc_max_width = 5, mc_desired = DRun, mc_executor_state = Idle, mc_outcome = None,
     mc_project_id = None, mc_sandbox_policy = JText JNull\<rparr>"

definition demo_request :: send_message_request where
  "demo_request = \<lparr>sr_to = ''r/k'', sr_parts = [sender_part \<lparr>si_name = ''user'', si_session_id = ''u''\<rparr>, text_part ''go'']\<rparr>"

lemma demo_posted: "fst (post_message demo_env (\<lambda>_. []) demo_auth demo_request demo_db demo_db) =
    Inr \<lparr>sp_event_id = ''1'', sp_recipient_session_id = ''k'', sp_session_status = ''working''\<rparr>"
  by code_simp

text \<open>The sender shown is the one that the content claims.\<close>

theorem message_listed_witness:
  "\<exists>entry. list_messages demo_env ''k'' None (snd (post_message demo_env (\<lambda>_. []) demo_auth demo_request demo_db demo_db)) = Inr [entry] \<and>
     mr_sender entry = Some \<lparr>si_name = ''user'', si_session_id = ''u''\<rparr> \<and>
     mr_parts entry = [text_part ''go''] \<and> mr_body entry = ''go''"
proof -
  let ?p = "post_message demo_env (\<lambda>_. []) demo_auth demo_request demo_db demo_db"
  have p: "?p = (Inr \<lparr>sp_event_id = ''1'', sp_recipient_session_id = ''k'', sp_session_status = ''working''\<rparr>, snd ?p)"
    using demo_posted by (cases ?p) simp
  let ?reply = "\<lparr>sp_event_id = ''1'', sp_recipient_session_id = ''k'', sp_session_status = ''working''\<rparr>"
  have "list_messages demo_env ''k'' None demo_db = Inr []" by code_simp
  then have old: "list_messages demo_env (sp_recipient_session_id ?reply) None demo_db = Inr []" by simp
  obtain m entry where e: "list_messages demo_env ''k'' None (snd ?p) = Inr [entry]"
    and parts: "mr_parts entry = filter (\<lambda>p. \<not> is_sender_data p) (sr_parts demo_request)"
      "mr_body entry = join [CHR 0x0A] (List.map_filter (\<lambda>p. get_str p ''text'') (sr_parts demo_request))"
      "mr_sender entry = (case List.find is_sender_data (sr_parts demo_request) of
        None \<Rightarrow> Some \<lparr>si_name = m, si_session_id = mc_session_id demo_auth\<rparr>
      | Some p \<Rightarrow> map_option (\<lambda>d. \<lparr>si_name = str_or_empty d ''name'', si_session_id = str_or_empty d ''session_id''\<rparr>) (get p ''data''))"
    using message_listed [OF demo_db_wf demo_db_wf evolves_refl p old] unfolding sent_reply.select_convs append_Nil by blast
  have "filter (\<lambda>p. \<not> is_sender_data p) (sr_parts demo_request) = [text_part ''go'']"
    "join [CHR 0x0A] (List.map_filter (\<lambda>p. get_str p ''text'') (sr_parts demo_request)) = ''go''"
    "List.find is_sender_data (sr_parts demo_request) = Some (sender_part \<lparr>si_name = ''user'', si_session_id = ''u''\<rparr>)" by code_simp+
  with e parts show ?thesis by simp
qed

end
