(* ===== verification/Escalation_Props.thy ===== *)
theory Escalation_Props
  imports Escalation Decisions_Props Messaging_Props
begin

text \<open>
  A decision from its question to its settlement: the open decisions as a function of the event log,
  and what asking and dismissing do to the list a client sees.
\<close>

section \<open>The open decisions as a function of the log\<close>

text \<open>The escalations of a log in some executions, and the targets of its markers.\<close>

definition asked :: "string set \<Rightarrow> event list \<Rightarrow> escalation list" where
  "asked A es = List.map_filter (\<lambda>e. if ev_execution_id e \<in> A then as_escalation e else None) es"

definition answered :: "string set \<Rightarrow> event list \<Rightarrow> marker_target set" where
  "answered A es = {t. \<exists>e \<in> set es. ev_execution_id e \<in> A \<and> ev_type e = EvPlatform \<and>
     escalation_data_of (ev_payload e) = None \<and> t \<in> set (event_targets e)}"

lemma scan_asked:
  assumes "log_wf d"
  shows "sc_escalations (scan_pending eids d) = asked (set eids) (events d)"
    "set (sc_resolved (scan_pending eids d)) = answered (set eids) (events d)"
proof -
  have "sorted (map ev_id (events d))" using assms by (auto simp: log_wf_def strict_sorted_iff)
  then have s: "sort_key ev_id (filter P (events d)) = filter P (events d)" for P
    by (intro sort_key_id_if_sorted) (simp add: sorted_wrt_map sorted_wrt_filter)
  have "List.map_filter window_escalation (map (\<lambda>e. \<lparr>we_event = e, we_session_coherent = (ev_session_id e \<noteq> None)\<rparr>)
      (filter (\<lambda>e. ev_execution_id e \<in> set eids \<and> ev_type e = EvPlatform) es)) = asked (set eids) es" for es
    by (induction es) (auto simp: asked_def List.map_filter_simps window_escalation_def as_escalation_def bind_eq_Some_conv
        split: option.splits)
  then show "sc_escalations (scan_pending eids d) = asked (set eids) (events d)"
    by (simp add: scan_pending_eq window_events [OF assms] s)
  show "set (sc_resolved (scan_pending eids d)) = answered (set eids) (events d)"
    by (auto simp: targets_scanned [OF assms] answered_def platform_in_def)
qed

definition open_decisions :: "string set \<Rightarrow> event list \<Rightarrow> escalation list" where
  "open_decisions A es = filter (\<lambda>e. target_of e \<notin> answered A es) (asked A es)"

lemma asked_iff: "esc \<in> set (asked A es) \<longleftrightarrow> (\<exists>e \<in> set es. ev_execution_id e \<in> A \<and> as_escalation e = Some esc)"
  by (auto simp: asked_def set_map_filter' split: if_splits)

lemma pending_open:
  assumes "log_wf d"
  shows "filter (\<lambda>e. esc_id e \<in> pending_ids (scan_pending eids d)) (sc_escalations (scan_pending eids d)) =
    open_decisions (set eids) (events d)"
  unfolding open_decisions_def scan_asked(1) [OF assms]
proof (rule filter_cong [OF refl])
  fix e assume e: "e \<in> set (asked (set eids) (events d))"
  have "e' = e" if e': "e' \<in> set (asked (set eids) (events d))" "esc_id e' = esc_id e" for e'
  proof -
    obtain v v' where v: "v \<in> set (events d)" "as_escalation v = Some e" "v' \<in> set (events d)" "as_escalation v' = Some e'"
      using e e'(1) by (auto simp: asked_iff)
    then have "ev_id v = ev_id v'" using e'(2) as_escalation_ids by metis
    moreover have "inj_on ev_id (set (events d))" using assms by (auto simp: log_wf_def strict_sorted_iff distinct_map)
    ultimately have "v = v'" using v by (auto dest: inj_onD)
    with v show ?thesis by simp
  qed
  then show "esc_id e \<in> pending_ids (scan_pending eids d) \<longleftrightarrow> target_of e \<notin> answered (set eids) (events d)"
    using e by (auto simp: pending_ids_def scan_asked [OF assms])
qed

definition pending_brief :: "api_lib \<Rightarrow> db \<Rightarrow> escalation \<Rightarrow> decision_brief" where
  "pending_brief L d e = build_brief L e None None
     (Option.bind (execution_row (esc_execution_id e) d) x_title) False"

lemma pending_list:
  assumes wf: "db_wf d"
  shows "pending_decisions L None None d d = Decisions (pending_validator L (list_active_with_platform_mark d))
    (map (pending_brief L d) (open_decisions (set (list_active d)) (events d)))"
proof -
  note ids = db_wf_ids [OF wf]
  have "build_brief L e None None (Option.bind (map_of (map (\<lambda>m. (am_id m, am_title m)) (list_active_with_platform_mark d))
      (esc_execution_id e)) id) False = pending_brief L d e" if "e \<in> set (open_decisions (set (list_active d)) (events d))" for e
  proof -
    have "esc_execution_id e \<in> set (list_active d)"
      using that as_escalation_ids by (force simp: open_decisions_def asked_iff)
    then obtain x where "execution_row (esc_execution_id e) d = Some x" "x_outcome x = None" "x_desired x \<noteq> DTerminate"
      by (auto simp: active_id [OF ids(1)])
    then show ?thesis by (simp add: pending_brief_def marks_titles [OF ids(1)])
  qed
  then show ?thesis
    by (simp add: pending_decisions_all pending_briefs_def Let_def marks_ids pending_open [OF ids(2)])
qed

lemma open_snoc:
  "open_decisions A (es @ [e]) = filter (\<lambda>x. target_of x \<notin> answered A [e]) (open_decisions A es) @
     (if ev_execution_id e \<in> A then (case as_escalation e of None \<Rightarrow> [] | Some x \<Rightarrow>
        if target_of x \<in> answered A (es @ [e]) then [] else [x]) else [])"
proof -
  have "answered A (es @ [e]) = answered A es \<union> answered A [e]" by (auto simp: answered_def)
  then show ?thesis
    by (auto simp: open_decisions_def asked_def List.map_filter_def intro!: filter_cong split: option.splits)
qed

section \<open>What an escalation reads as\<close>

lemma parse_option_json: "parse_option (option_json o') = Some \<lparr>qo_label = eo_label o', qo_description = eo_description o'\<rparr>"
  by (cases "eo_description o'") (simp_all add: parse_option_def option_json_def get_str_def)

lemma map_filter_total: "(\<And>x. x \<in> set xs \<Longrightarrow> f x = Some (g x)) \<Longrightarrow> List.map_filter f xs = map g xs"
  by (induction xs) (simp_all add: List.map_filter_simps)

definition as_asked :: "nat \<Rightarrow> escalate_question \<Rightarrow> decision_question" where
  "as_asked i q = \<lparr>dq_question = eq_question q, dq_context = eq_context q,
     dq_options = map_option (map (\<lambda>o'. \<lparr>qo_label = eo_label o', qo_description = eo_description o'\<rparr>)) (eq_options q), dq_index = i\<rparr>"

lemma question_get:
  "get (question_json q) ''question'' = Some (JStr (eq_question q))"
  "get (question_json q) ''context'' = map_option JStr (eq_context q)"
  "get (question_json q) ''options'' = map_option (\<lambda>opts. JArr (map option_json opts)) (eq_options q)"
  by (cases "eq_context q"; cases "eq_options q"; simp add: question_json_def opt_field_def Let_def)+

lemma options_read: "List.map_filter (parse_option \<circ> option_json) opts = map (\<lambda>o'. \<lparr>qo_label = eo_label o', qo_description = eo_description o'\<rparr>) opts"
  by (rule map_filter_total) (simp add: parse_option_json)

lemma question_read:
  "\<lparr>dq_question = (case get_str (question_json q) ''question'' of None \<Rightarrow> [] | Some s \<Rightarrow> s),
     dq_context = get_str (question_json q) ''context'',
     dq_options = map_option (List.map_filter parse_option) (get_array (question_json q) ''options''),
     dq_index = i\<rparr> = as_asked i q"
  using options_read
  by (cases "eq_context q"; cases "eq_options q")
    (simp_all add: as_asked_def get_str_def get_array_def question_get List.map_filter_def comp_def filter_map)

lemma questions_read: "parse_questions (map question_json qs) = map (\<lambda>(i, q). as_asked i q) (List.enumerate 0 qs)"
proof -
  have "map (\<lambda>(i, q). as_asked i q) (List.enumerate n qs) = map (\<lambda>(index, q).
       \<lparr>dq_question = (case get_str q ''question'' of None \<Rightarrow> [] | Some s \<Rightarrow> s),
        dq_context = get_str q ''context'',
        dq_options = map_option (List.map_filter parse_option) (get_array q ''options''),
        dq_index = index\<rparr>) (List.enumerate n (map question_json qs))" for n
    by (induction qs arbitrary: n) (simp_all add: question_read)
  then show ?thesis by (simp add: parse_questions_def)
qed

section \<open>Asking\<close>

lemma escalate_Inr:
  assumes "escalate auth body b db = (Inr rep, db')"
  obtains req where "body = Inr req" "mc_role auth = RootLead" "er_questions req \<noteq> []" "length (er_questions req) \<le> 4"
    "db' = add_event (mc_execution_id auth) (Some (mc_session_id auth)) EvPlatform (to_string (escalate_payload b req)) None db"
    "rep = \<lparr>ep_batch_id = b, ep_event_id = int_dec (next_event_id db)\<rparr>"
    "map_option s_execution_id (session_row (mc_session_id auth) db) = Some (mc_execution_id auth)"
proof -
  obtain req where req: "body = Inr req" "mc_role auth = RootLead" "er_questions req \<noteq> []" "length (er_questions req) \<le> 4"
    using assms by (auto simp: escalate_def split: sum.splits if_splits)
  have "run_tx Inl (mc_execution_id auth)
      (tx_bind (tx_map_err Inl (insert_in_tx (Some (mc_session_id auth)) EvPlatform
         (to_string (escalate_payload b req)))) (\<lambda>inserted.
       tx_ret (Inr \<lparr>ep_batch_id = b, ep_event_id = int_dec (fst inserted)\<rparr>))) db = (Inr rep, db')"
    using assms req by (auto simp: escalate_def split: if_splits)
  then show ?thesis
    using req by (intro that [of req])
      (auto simp: run_tx_def begin_execution_tx_def tx_bind_def tx_map_err_def tx_ret_def insert_in_tx_def insert_row_def
        verify_session_owner_def split: option.splits sum.splits if_splits)
qed

lemma escalate_reads:
  assumes "qs = er_questions req" "qs \<noteq> []"
  shows "escalation_data_of (to_string (escalate_payload b req)) = Some \<lparr>ed_batch_id = b,
    ed_importance = er_importance req, ed_questions = map question_json qs\<rparr>"
  using assms
  by (simp add: escalation_data_of_def parse_role_and_parts_def escalate_payload_def json_get_defs parts_domain_valid_def
      part_data_def)

lemma target_old:
  assumes "separate_markers d" and "e \<in> set (events d)" and "ev_type e = EvPlatform" and "t \<in> set (event_targets e)"
  shows "mt_escalation_event_id t < ev_id e"
  using assms by (auto simp: separate_markers_def)

lemma answered_old:
  assumes "log_wf d" and "separate_markers d" and "t \<in> answered A (events d)"
  shows "mt_escalation_event_id t < next_event_id d"
  using assms target_old [OF assms(2)] by (fastforce simp: answered_def log_wf_def)

lemma list_active_same: "executions d' = executions d \<Longrightarrow> list_active d' = list_active d"
  by (simp add: list_active_def active_executions_def)

lemma add_event_wf:
  assumes "db_wf d" and "map_option s_execution_id (session_row sid d) = Some eid"
  shows "db_wf (add_event eid (Some sid) ty p None d)"
proof -
  let ?t = "\<lparr>tx_db = d, tx_execution_id = eid, tx_verified = []\<rparr>"
  have "insert_in_tx (Some sid) ty p ?t = Inr ((next_event_id d, clock d),
      tx_put (add_event eid (Some sid) ty p None d) (?t\<lparr>tx_verified := [sid]\<rparr>))"
    using assms(2) by (simp add: insert_in_tx_def tx_bind_def verify_session_owner_def insert_row_def tx_put_def)
  then have "tx_step ?t (tx_put (add_event eid (Some sid) ty p None d) (?t\<lparr>tx_verified := [sid]\<rparr>))"
    by (rule tx_keepsD [OF step_insert_in_tx])
  then show ?thesis using assms(1) by (simp add: tx_step_def tx_ok_def)
qed

text \<open>
  C37. A question that the root agent puts to the user becomes a decision that waits: the list of pending
  decisions gets exactly one entry more, at its end, under the identifier that the agent is told, with
  the questions, contexts and options as asked. Only the root agent of a live execution can do it.
\<close>

theorem escalate_asks:
  assumes wf: "db_wf db" and sep: "separate_markers db"
    and x: "execution_row (mc_execution_id auth) db = Some x" "x_outcome x = None" "x_desired x \<noteq> DTerminate"
    and run: "escalate auth body b db = (Inr rep, db')"
    and bs: "pending_decisions L None None db db = Decisions etag bs"
  shows "\<exists>req etag' brief. body = Inr req \<and> mc_role auth = RootLead \<and>
    pending_decisions L None None db' db' = Decisions etag' (bs @ [brief]) \<and>
    db_event_id brief = ep_event_id rep \<and> db_batch_id brief = ep_batch_id rep \<and> db_status brief = Pending \<and>
    db_session_id brief = mc_session_id auth \<and> db_execution_id brief = mc_execution_id auth \<and>
    db_importance brief = er_importance req \<and>
    db_questions brief = map (\<lambda>(i, q). as_asked i q) (List.enumerate 0 (er_questions req))"
proof -
  obtain req where req: "body = Inr req" "mc_role auth = RootLead" "er_questions req \<noteq> []"
    and db': "db' = add_event (mc_execution_id auth) (Some (mc_session_id auth)) EvPlatform (to_string (escalate_payload b req)) None db"
    and rep: "rep = \<lparr>ep_batch_id = b, ep_event_id = int_dec (next_event_id db)\<rparr>"
    and own: "map_option s_execution_id (session_row (mc_session_id auth) db) = Some (mc_execution_id auth)"
    using run by (rule escalate_Inr)
  have wf': "db_wf db'" unfolding db' by (rule add_event_wf [OF wf own])
  have same: "executions db' = executions db" by (simp add: db' add_event_def)
  let ?A = "set (list_active db)"
  define e where "e = new_event db (mc_execution_id auth) (Some (mc_session_id auth)) EvPlatform (to_string (escalate_payload b req)) None"
  define esc where "esc = \<lparr>esc_id = next_event_id db, esc_execution_id = mc_execution_id auth, esc_session_id = mc_session_id auth,
    esc_created_at = clock db, esc_data = \<lparr>ed_batch_id = b, ed_importance = er_importance req,
      ed_questions = map question_json (er_questions req)\<rparr>\<rparr>"
  have ev: "events db' = events db @ [e]" by (simp add: db' add_event_def e_def)
  have reads: "as_escalation e = Some esc" "escalation_data_of (ev_payload e) \<noteq> None"
    by (simp_all add: e_def esc_def new_event_def as_escalation_def escalate_reads [OF refl req(3)])
  have in_A: "mc_execution_id auth \<in> ?A" using x by (simp add: active_id [OF db_wf_ids(1) [OF wf]])
  have none: "answered ?A [e] = {}" using reads(2) by (auto simp: answered_def)
  have "target_of esc \<notin> answered ?A (events db)"
    using answered_old [OF db_wf_log [OF wf] sep] by (fastforce simp: target_of_def esc_def)
  moreover have "answered ?A (events db @ [e]) = answered ?A (events db) \<union> answered ?A [e]" by (auto simp: answered_def)
  ultimately have "open_decisions ?A (events db') = open_decisions ?A (events db) @ [esc]"
    using in_A reads none by (simp add: ev open_snoc) (simp add: e_def new_event_def)
  then have "pending_decisions L None None db' db' = Decisions (pending_validator L (list_active_with_platform_mark db'))
      (map (pending_brief L db') (open_decisions ?A (events db)) @ [pending_brief L db' esc])"
    by (simp add: pending_list [OF wf'] list_active_same [OF same])
  moreover have "pending_brief L db' = pending_brief L db" by (simp add: pending_brief_def execution_row_def same fun_eq_iff)
  moreover have "bs = map (pending_brief L db) (open_decisions ?A (events db))" using bs by (simp add: pending_list [OF wf])
  ultimately show ?thesis
    using req(1,2) by (auto simp: pending_brief_def build_brief_def esc_def rep questions_read)
qed

section \<open>Dismissing\<close>

lemma dismiss_Inr:
  assumes "dismiss env h eid pre db = (Inr (), db')"
  obtains i esc x where "parse_i64 eid = Some i" "get_escalation i pre = Some esc"
    "find_marker_for_escalation (en_rfc3339 env) esc db = None"
    "execution_row (esc_execution_id esc) db = Some x" "x_outcome x = None" "x_desired x \<noteq> DTerminate"
    "db' = add_event (esc_execution_id esc) (Some (esc_session_id esc)) EvPlatform
       (to_string (dismiss_payload (ed_batch_id (esc_data esc)) (esc_id esc))) None db"
    "map_option s_execution_id (session_row (esc_session_id esc) db) = Some (esc_execution_id esc)"
proof -
  obtain i esc where i: "parse_i64 eid = Some i" "get_escalation i pre = Some esc"
    and run: "run_tx (\<lambda>e. Inl (Database (''begin dismiss tx: '' @ show_error e))) (esc_execution_id esc)
       (tx_bind (tx_map_err Inl (dismiss_in_tx env esc)) (\<lambda>_. tx_ret (Inr ()))) db = (Inr (), db')"
    using assms by (auto simp: dismiss_def split: if_splits option.splits)
  let ?t = "\<lparr>tx_db = db, tx_execution_id = esc_execution_id esc, tx_verified = []\<rparr>"
  obtain x where x: "execution_row (esc_execution_id esc) db = Some x"
    using run by (auto simp: run_tx_def begin_execution_tx_def split: option.splits)
  obtain t' where body: "dismiss_in_tx env esc ?t = Inr t'" and db': "db' = tx_db (snd t')"
    using run x by (cases "dismiss_in_tx env esc ?t")
      (auto simp: run_tx_def begin_execution_tx_def tx_bind_def tx_map_err_def tx_ret_def)
  show ?thesis
    using body x db' i
    by (intro that [of i esc x])
      (auto simp: dismiss_in_tx_def tx_bind_def tx_read_def tx_ret_def tx_abort_def tx_try_def tx_fail_if_def insert_in_tx_def
        insert_row_def verify_session_owner_def split: option.splits sum.splits if_splits)
qed

lemma dismiss_reads:
  assumes "0 < i" and "i \<le> i64_max"
  shows "parse_parts (to_string (dismiss_payload b i)) = Some [JObj [(''data'', JObj [(''type'', JStr DISMISS_TYPE),
      (''batch_id'', JStr b), (''escalation_event_id'', jint i)])]]"
    and "resolution_candidates [JObj [(''data'', JObj [(''type'', JStr DISMISS_TYPE), (''batch_id'', JStr b), (''escalation_event_id'', jint i)])]] own =
      [\<lparr>rc_kind = Dismiss, rc_batch_id = b, rc_escalation_event_id = Some i, rc_order_key = OrderKey own own 0,
        rc_answer_text = None, rc_resolved_at_raw = None, rc_embedded_resolved_event_id = None, rc_truncated = False\<rparr>]"
    and "escalation_data_of (to_string (dismiss_payload b i)) = None"
proof -
  have "i64_min \<le> i" using assms(1) by (simp add: i64_min_def)
  then have "as_i64 (jint i) = Some i" using assms(2) by simp
  then show "resolution_candidates [JObj [(''data'', JObj [(''type'', JStr DISMISS_TYPE), (''batch_id'', JStr b), (''escalation_event_id'', jint i)])]] own =
      [\<lparr>rc_kind = Dismiss, rc_batch_id = b, rc_escalation_event_id = Some i, rc_order_key = OrderKey own own 0,
        rc_answer_text = None, rc_resolved_at_raw = None, rc_embedded_resolved_event_id = None, rc_truncated = False\<rparr>]"
    using assms(1)
    by (simp add: resolution_candidates_def answer_part_count_def part_data_type_def part_data_def json_get_defs type_tags
        map_filter_simps1 candidate_of_part_def escalation_event_id_def positive_i64_def)
  show "parse_parts (to_string (dismiss_payload b i)) = Some [JObj [(''data'', JObj [(''type'', JStr DISMISS_TYPE),
      (''batch_id'', JStr b), (''escalation_event_id'', jint i)])]]"
    by (simp add: parse_parts_def dismiss_payload_def json_get_defs parts_domain_valid_def)
  show "escalation_data_of (to_string (dismiss_payload b i)) = None"
    by (simp add: escalation_data_of_def parse_role_and_parts_def dismiss_payload_def json_get_defs parts_domain_valid_def type_tags)
qed

lemma get_escalation_later:
  assumes "get_escalation i d = Some esc" and "log_wf d" "log_wf d'" and "appends d d'"
  shows "get_escalation i d' = Some esc"
  using assms by (auto simp: get_escalation_iff appends_def)

lemma platform_after_sorted:
  assumes "log_wf d"
  shows "list_platform_after_in_execution x i d =
    filter (\<lambda>e. ev_execution_id e = x \<and> ev_type e = EvPlatform \<and> i < ev_id e) (events d)"
proof -
  have "sorted (map ev_id (events d))" using assms by (auto simp: log_wf_def strict_sorted_iff)
  then have "sorted (map ev_id (filter P (events d)))" for P by (simp add: sorted_wrt_map sorted_wrt_filter)
  then show ?thesis by (simp add: list_platform_after_in_execution_def sort_key_id_if_sorted)
qed

lemma best_marker_snoc:
  assumes "best_marker fmt es esc = None"
  shows "best_marker fmt (es @ [e]) esc = foldl better None (marker_candidates fmt esc e)"
  using assms by (simp add: best_marker_def)

lemma get_decision_eq:
  assumes "parse_i64 eid = Some i" "get_escalation i d = Some esc" "execution_row (esc_execution_id esc) d = Some x"
  shows "get_decision L d eid d = Inr (build_brief L esc (find_marker_for_escalation (al_secs L) esc d)
     (Option.bind (find_marker_for_escalation (al_secs L) esc d) (\<lambda>cand. map_option ev_created_at (event_by_id (own_event_id (rc_order_key cand)) d)))
     (x_title x) (x_outcome x \<noteq> None \<or> x_desired x = DTerminate))"
  using assms
  by (simp add: get_decision_def run_tx_def begin_execution_tx_def decision_body_def tx_bind_def tx_map_err_def tx_try_def
      tx_read_def tx_ret_def get_execution_def)

text \<open>
  C38. A dismissal that succeeds settles exactly the decision it names: that decision was waiting, the list
  of pending decisions is the one before without it, and its detail says dismissed.
\<close>

theorem dismiss_settles:
  assumes wf: "db_wf pre" and step: "db_step pre db" and sep: "separate_markers db"
    and pos: "\<And>e. e \<in> set (events db) \<Longrightarrow> 0 < ev_id e"
    and run: "dismiss env h eid pre db = (Inr (), db')"
    and bs: "pending_decisions L None None db db = Decisions etag bs"
  shows "\<exists>i etag' b. parse_i64 eid = Some i \<and> int_dec i \<in> db_event_id ` set bs \<and>
    pending_decisions L None None db' db' = Decisions etag' (filter (\<lambda>b. db_event_id b \<noteq> int_dec i) bs) \<and>
    get_decision L db' eid db' = Inr b \<and> db_event_id b = int_dec i \<and> db_status b = Dismissed"
proof -
  obtain i esc x where i: "parse_i64 eid = Some i" and pre: "get_escalation i pre = Some esc"
    and marker: "find_marker_for_escalation (en_rfc3339 env) esc db = None"
    and x: "execution_row (esc_execution_id esc) db = Some x" "x_outcome x = None" "x_desired x \<noteq> DTerminate"
    and db': "db' = add_event (esc_execution_id esc) (Some (esc_session_id esc)) EvPlatform
       (to_string (dismiss_payload (ed_batch_id (esc_data esc)) (esc_id esc))) None db"
    and own: "map_option s_execution_id (session_row (esc_session_id esc) db) = Some (esc_execution_id esc)"
    using run by (rule dismiss_Inr)
  have wfs: "db_wf db" "db_wf db'" using wf step add_event_wf [OF _ own] by (auto simp: db_step_def db')
  note logs = db_wf_log [OF wfs(1)] db_wf_log [OF wfs(2)]
  have same: "executions db' = executions db" by (simp add: db' add_event_def)
  define e where "e = new_event db (esc_execution_id esc) (Some (esc_session_id esc)) EvPlatform
       (to_string (dismiss_payload (ed_batch_id (esc_data esc)) (esc_id esc))) None"
  have ev: "events db' = events db @ [e]" by (simp add: db' add_event_def e_def)
  have esc: "get_escalation i db = Some esc"
    using get_escalation_later [OF pre db_wf_log [OF wf] logs(1)] step by (simp add: db_step_def)
  then obtain v where v: "v \<in> set (events db)" "ev_id v = i" "as_escalation v = Some esc" by (auto simp: get_escalation_iff [OF logs(1)])
  note ids = as_escalation_ids [OF v(3)]
  have range: "0 < esc_id esc" "esc_id esc \<le> i64_max" "esc_id esc = i"
    using pos [OF v(1)] v(2) ids i by (auto simp: parse_i64_def bind_eq_Some_conv split: if_splits)
  note reads = dismiss_reads [OF range(1,2)]
  have e: "ev_execution_id e = esc_execution_id esc" "ev_type e = EvPlatform" "ev_session_id e = Some (esc_session_id esc)"
    "event_targets e = [target_of esc]" "escalation_data_of (ev_payload e) = None" "as_escalation e = None"
    by (simp_all add: e_def new_event_def event_targets_def reads map_filter_simps1 target_of_def as_escalation_def)
  let ?A = "set (list_active db)"
  have in_A: "esc_execution_id esc \<in> ?A" using x by (simp add: active_id [OF db_wf_ids(1) [OF wfs(1)]])
  then have only: "answered ?A [e] = {target_of esc}" using e by (auto simp: answered_def)
  have open': "open_decisions ?A (events db') = filter (\<lambda>y. target_of y \<noteq> target_of esc) (open_decisions ?A (events db))"
    by (simp add: ev open_snoc only e)
  have was: "esc \<in> set (open_decisions ?A (events db))"
  proof -
    have "target_of esc \<notin> answered ?A (events db)"
      using marker unfolding marker_None [OF sep] answered_def
      by (auto simp: event_targets_def target_of_def set_map_filter' split: option.splits)
    then show ?thesis using v ids in_A by (auto simp: open_decisions_def asked_iff)
  qed
  have key: "target_of y = target_of esc \<longleftrightarrow> esc_id y = i" if y: "y \<in> set (open_decisions ?A (events db))" for y
  proof -
    obtain w where w: "w \<in> set (events db)" "as_escalation w = Some y" using y by (auto simp: open_decisions_def asked_iff)
    have "get_escalation i db = Some y" if "esc_id y = i"
      using w as_escalation_ids [OF w(2)] that by (auto simp: get_escalation_iff [OF logs(1)])
    then show ?thesis using esc range(3) by (auto simp: target_of_def)
  qed
  have briefs: "db_event_id (pending_brief L db y) = int_dec (esc_id y)" for y by (simp add: pending_brief_def build_brief_def)
  have bs': "bs = map (pending_brief L db) (open_decisions ?A (events db))" using bs by (simp add: pending_list [OF wfs(1)])
  have "pending_brief L db' = pending_brief L db" by (simp add: pending_brief_def execution_row_def same fun_eq_iff)
  moreover have "filter (\<lambda>y. target_of y \<noteq> target_of esc) (open_decisions ?A (events db)) =
      filter (\<lambda>y. int_dec (esc_id y) \<noteq> int_dec i) (open_decisions ?A (events db))"
    using key int_dec_inj by (intro filter_cong) auto
  ultimately have list: "pending_decisions L None None db' db' = Decisions (pending_validator L (list_active_with_platform_mark db'))
      (filter (\<lambda>b. db_event_id b \<noteq> int_dec i) bs)"
    by (simp add: pending_list [OF wfs(2)] list_active_same [OF same] open' bs' filter_map comp_def briefs)
  have esc': "get_escalation i db' = Some esc" using v by (auto simp: get_escalation_iff [OF logs(2)] ev)
  have "esc_id esc < ev_id e" using v ids logs(1) by (auto simp: log_wf_def e_def new_event_def)
  then have after: "list_platform_after_in_execution (esc_execution_id esc) (esc_id esc) db' =
      list_platform_after_in_execution (esc_execution_id esc) (esc_id esc) db @ [e]"
    by (simp add: platform_after_sorted [OF logs(1)] platform_after_sorted [OF logs(2)] ev e)
  have "best_marker (al_secs L) (list_platform_after_in_execution (esc_execution_id esc) (esc_id esc) db) esc = None"
    using marker marker_None [OF sep] by (simp add: find_marker_for_escalation_def)
  note snoc = best_marker_snoc [OF this, of e]
  have "\<exists>c. marker_candidates (al_secs L) esc e = [c] \<and> rc_kind c = Dismiss"
    by (simp add: marker_candidates_def e(3)) (simp add: e_def new_event_def reads)
  then have m: "\<exists>c. find_marker_for_escalation (al_secs L) esc db' = Some c \<and> rc_kind c = Dismiss"
    unfolding find_marker_for_escalation_def after snoc by (auto simp: better_def)
  have x': "execution_row (esc_execution_id esc) db' = Some x" using x by (simp add: execution_row_def same)
  have "\<exists>b. get_decision L db' eid db' = Inr b \<and> db_event_id b = int_dec i \<and> db_status b = Dismissed"
    using m by (auto simp: get_decision_eq [OF i esc' x'] build_brief_def Let_def range(3))
  moreover have "int_dec i \<in> db_event_id ` set bs"
    unfolding bs' set_map image_image briefs using was range(3) by (intro image_eqI [of _ _ esc]) simp_all
  ultimately show ?thesis using list i by blast
qed


section \<open>Witnesses\<close>

definition demo_ask :: escalate_request where
  "demo_ask = \<lparr>er_questions = [\<lparr>eq_question = ''ok?'', eq_context = None,
     eq_options = Some [\<lparr>eo_label = ''A'', eo_description = None\<rparr>, \<lparr>eo_label = ''B'', eo_description = Some ''b''\<rparr>]\<rparr>],
     er_importance = ''blocking''\<rparr>"

lemma demo_start: "db_wf demo_db2" "separate_markers demo_db2"
  using demo_db_wf by (simp_all add: demo_db2_def db_wf_def demo_defs log_wf_def queue_wf_def session_row_def execution_row_def
    sql_find_def separate_markers_def)

definition demo_asked2 :: db where
  "demo_asked2 = snd (escalate demo_auth (Inr demo_ask) ''b'' demo_db2)"

lemma demo_escalated: "escalate demo_auth (Inr demo_ask) ''b'' demo_db2 = (Inr \<lparr>ep_batch_id = ''b'', ep_event_id = ''2''\<rparr>, demo_asked2)"
proof -
  have "fst (escalate demo_auth (Inr demo_ask) ''b'' demo_db2) = Inr \<lparr>ep_batch_id = ''b'', ep_event_id = ''2''\<rparr>" by code_simp
  then show ?thesis unfolding demo_asked2_def by (cases "escalate demo_auth (Inr demo_ask) ''b'' demo_db2") simp
qed

theorem escalate_asks_witness:
  "\<exists>etag brief. pending_decisions demo_api None None demo_asked2 demo_asked2 = Decisions etag [brief] \<and>
     db_event_id brief = ''2'' \<and> map dq_question (db_questions brief) = [''ok?'']"
proof -
  have "pending_briefs demo_api (list_active_with_platform_mark demo_db2) demo_db2 = []" by code_simp
  then have none: "pending_decisions demo_api None None demo_db2 demo_db2 =
      Decisions (pending_validator demo_api (list_active_with_platform_mark demo_db2)) []"
    by (simp add: pending_decisions_all)
  have x: "execution_row (mc_execution_id demo_auth) demo_db2 = Some demo_execution"
    by (simp add: demo_db2_def demo_defs demo_auth_def execution_row_def sql_find_def)
  from escalate_asks [OF demo_start x _ _ demo_escalated none]
  show ?thesis by (auto simp: demo_execution_def demo_ask_def as_asked_def)
qed

definition demo_dismissed :: db where
  "demo_dismissed = snd (dismiss demo_env None ''2'' demo_asked2 demo_asked2)"

theorem dismiss_settles_witness:
  "\<exists>etag b. pending_decisions demo_api None None demo_dismissed demo_dismissed = Decisions etag [] \<and>
     get_decision demo_api demo_dismissed ''2'' demo_dismissed = Inr b \<and> db_status b = Dismissed"
proof -
  have ok: "dismiss demo_env None ''2'' demo_asked2 demo_asked2 = (Inr (), demo_dismissed)"
  proof -
    have "fst (dismiss demo_env None ''2'' demo_asked2 demo_asked2) = Inr ()" by code_simp
    then show ?thesis unfolding demo_dismissed_def by (cases "dismiss demo_env None ''2'' demo_asked2 demo_asked2") simp
  qed
  obtain req where r: "demo_asked2 = add_event ''e'' (Some ''r'') EvPlatform (to_string (escalate_payload ''b'' req)) None demo_db2"
      "map_option s_execution_id (session_row ''r'' demo_db2) = Some ''e''"
    using demo_escalated by (rule escalate_Inr) (auto simp: demo_auth_def)
  have wf: "db_wf demo_asked2" unfolding r(1) by (rule add_event_wf [OF demo_start(1) r(2)])
  have sep: "separate_markers demo_asked2"
    by (simp add: separate_markers_def) (simp only: demo_asked2_def, code_simp)
  have pos: "list_all (\<lambda>e. 0 < ev_id e) (events demo_asked2)" by code_simp
  have "map db_event_id (pending_briefs demo_api (list_active_with_platform_mark demo_asked2) demo_asked2) = [''2'']" by code_simp
  then obtain brief where one: "pending_briefs demo_api (list_active_with_platform_mark demo_asked2) demo_asked2 = [brief]" "db_event_id brief = ''2''"
    by (auto simp: map_eq_Cons_conv)
  have "pending_decisions demo_api None None demo_asked2 demo_asked2 =
      Decisions (pending_validator demo_api (list_active_with_platform_mark demo_asked2)) [brief]"
    by (simp add: pending_decisions_all one)
  from dismiss_settles [OF wf _ sep _ ok this] pos show ?thesis by (auto simp: one list_all_iff)
qed

end
