(* ===== verification/Delegation_Props.thy ===== *)
theory Delegation_Props
  imports Delegation Messaging_Props Lifecycle
begin

text \<open>
  What a delegation does: facts on the depth of sessions over time, on the creation of the child, on the
  commit, and the effect of the whole call.
\<close>

section \<open>What others may do meanwhile\<close>

text \<open>
  Whatever else the database goes through, the sessions in \<open>K\<close> stay where they are in the tree. Steps and recoveries
  are so for every \<open>K\<close>, deletions for those that they do not remove.
\<close>

definition stays :: "string set \<Rightarrow> db \<Rightarrow> db \<Rightarrow> bool" where
  "stays K d d' \<longleftrightarrow> (db_wf d \<longrightarrow> db_wf d' \<and>
     (\<forall>i \<in> K. \<forall>s. session_row i d = Some s \<longrightarrow> (\<exists>s'. session_row i d' = Some s' \<and> same_place s s')))"

lemma stays_refl: "stays K d d"
  by (auto simp: stays_def same_place_def)

lemma stays_trans: "stays K d d' \<Longrightarrow> stays K d' d'' \<Longrightarrow> stays K d d''"
  unfolding stays_def same_place_def by metis

lemma stays_mono: "stays L d d' \<Longrightarrow> K \<subseteq> L \<Longrightarrow> stays K d d'"
  by (auto simp: stays_def)

lemma db_step_stays: "db_step d d' \<Longrightarrow> stays K d d'"
  unfolding stays_def db_step_def using evolves_session session_step_place by blast

lemma life_stays:
  assumes "life ms nd nd'" and "sound nd" and "K \<inter> set (removals ms) = {}"
  shows "stays K (nd_db nd) (nd_db nd')"
  using life_kept [OF assms(1,2)] life_sound [OF assms(1,2)] assms(3)
  by (fastforce simp: stays_def sound_def rows_kept_def session_kept_def same_place_def)

section \<open>Depth\<close>

lemma ancestry_stays:
  assumes "ancestry d s ss" and "\<And>x. x \<in> set ss \<Longrightarrow> \<exists>x'. session_row (s_id x) d' = Some x' \<and> same_place x x'"
    and "session_row (s_id s) d' = Some s'" and "same_place s s'"
  shows "\<exists>ss'. ancestry d' s' ss' \<and> length ss' = length ss"
  using assms
proof (induction arbitrary: s' rule: ancestry.induct)
  case (root s)
  then show ?case by (intro exI [of _ "[s']"]) (simp add: ancestry.root same_place_def)
next
  case (child s p q ss)
  have q: "q \<in> set ss" using ancestry_hd [OF child.hyps(3)] by (cases ss) auto
  then obtain q' where q': "session_row (s_id q) d' = Some q'" "same_place q q'" using child.prems(1) by auto
  have "s_id q = p" using session_rowD [OF child.hyps(2)] by simp
  with child.IH [OF _ q'] child.prems(1) q' obtain ss' where ss': "session_row p d' = Some q'" "ancestry d' q' ss'" "length ss' = length ss"
    by auto
  have "s_parent_session_id s' = Some p" using child.prems(3) child.hyps(1) by (simp add: same_place_def)
  from ancestry.child [OF this ss'(1,2)] ss'(3) show ?case by (intro exI [of _ "s' # ss'"]) simp
qed

lemma compute_depth_ancestry:
  assumes wf: "db_wf d" and s: "session_row i d = Some s" and a: "ancestry d s ss"
  shows "compute_depth i (s_execution_id s) d = min 11 (length ss - 1)"
proof -
  have "\<forall>x \<in> set ss. s_execution_id x = s_execution_id s"
    using ancestry_exists [OF wf, of s] session_rowD [OF s] ancestry_unique [OF _ a] by blast
  then show ?thesis using s by (simp add: compute_depth_def climb_ancestry [OF a])
qed

lemma line_in:
  assumes "ancestry d s ss" and "session_row (s_id s) d = Some s" and "s_id s \<in> K"
    and "\<forall>i \<in> K. \<forall>s p. session_row i d = Some s \<and> s_parent_session_id s = Some p \<longrightarrow> p \<in> K"
  shows "x \<in> set ss \<Longrightarrow> s_id x \<in> K \<and> session_row (s_id x) d = Some x"
  using assms
proof (induction arbitrary: x rule: ancestry.induct)
  case (child s p q ss)
  have id: "s_id q = p" using session_rowD [OF child.hyps(2)] by simp
  have "p \<in> K" using child.prems(2-4) child.hyps(1) by blast
  with id child.hyps(2) have q: "session_row (s_id q) d = Some q" "s_id q \<in> K" by simp_all
  show ?case
  proof (cases "x = s")
    case True
    with child.prems(2,3) show ?thesis by simp
  next
    case False
    with child.prems(1) have "x \<in> set ss" by simp
    from child.IH [OF this q child.prems(4)] show ?thesis .
  qed
qed simp

text \<open>The depth of a session stays while its line does.\<close>

lemma depth_stays:
  assumes wf: "db_wf d" and st: "stays K d d'" and s: "session_row i d = Some s" "i \<in> K"
    and line: "\<forall>i \<in> K. \<forall>s p. session_row i d = Some s \<and> s_parent_session_id s = Some p \<longrightarrow> p \<in> K"
  shows "compute_depth i (s_execution_id s) d' = compute_depth i (s_execution_id s) d"
proof -
  have wf': "db_wf d'" and row: "\<And>j r. j \<in> K \<Longrightarrow> session_row j d = Some r \<Longrightarrow> \<exists>r'. session_row j d' = Some r' \<and> same_place r r'"
    using st wf by (auto simp: stays_def)
  have id: "s_id s = i" using session_rowD [OF s(1)] by simp
  obtain s' where s': "session_row i d' = Some s'" "same_place s s'" using row [OF s(2,1)] by blast
  obtain ss where ss: "ancestry d s ss" using ancestry_exists [OF wf] session_rowD [OF s(1)] by blast
  have "\<exists>x'. session_row (s_id x) d' = Some x' \<and> same_place x x'" if "x \<in> set ss" for x
    using line_in [OF ss _ _ line that] s id row by auto
  then obtain ss' where "ancestry d' s' ss'" "length ss' = length ss"
    using ancestry_stays [OF ss, of d' s'] s' id by auto
  then show ?thesis
    using compute_depth_ancestry [OF wf s(1) ss] compute_depth_ancestry [OF wf' s'(1)] s'(2) by (simp add: same_place_def)
qed

lemma depth_child:
  assumes wf: "db_wf d" and c: "session_row i d = Some c" "s_parent_session_id c = Some p"
  shows "compute_depth i (s_execution_id c) d = min 11 (Suc (compute_depth p (s_execution_id c) d))"
proof -
  obtain q where q: "session_row p d = Some q" "s_execution_id q = s_execution_id c"
    using session_position [OF wf _ c(2)] session_rowD [OF c(1)] by blast
  obtain ss where ss: "ancestry d q ss" using ancestry_exists [OF wf] session_rowD [OF q(1)] by blast
  have "ss \<noteq> []" using ancestry_hd [OF ss] by simp
  then show ?thesis
    using compute_depth_ancestry [OF wf c(1) ancestry.child [OF c(2) q(1) ss]] compute_depth_ancestry [OF wf q(1) ss] q(2)
    by (cases ss) simp_all
qed

section \<open>Creation\<close>

lemma create_child_Inr:
  assumes "create_child n k env auth agent cwd slug db = (Inr slug', db1)"
    and R: "reflp R" "transp R" "\<And>n d. R d (dl_between env n d)"
  shows "\<exists>d0. R db d0 \<and> int (count_active_children (mc_session_id auth) d0) < mc_max_width auth \<and>
    insertable (new_session (dl_new_id env) (mc_execution_id auth) (a_id agent) (Some (mc_session_id auth)) cwd None None slug'
      (mc_sandbox_policy auth) (clock d0)) d0 \<and>
    db1 = add_session (new_session (dl_new_id env) (mc_execution_id auth) (a_id agent) (Some (mc_session_id auth)) cwd None None slug'
      (mc_sandbox_policy auth) (clock d0)) d0"
  using assms(1)
proof (induction n arbitrary: k slug db)
  case 0
  then show ?case by simp
next
  case (Suc n)
  let ?s = "\<lambda>slug d. new_session (dl_new_id env) (mc_execution_id auth) (a_id agent) (Some (mc_session_id auth)) cwd None None slug
      (mc_sandbox_policy auth) (clock d)"
  show ?case
  proof (cases "int (count_active_children (mc_session_id auth) db) < mc_max_width auth \<and> insertable (?s slug db) db")
    case True
    then have "create_child (Suc n) k env auth agent cwd slug db = (Inr slug, add_session (?s slug db) db)"
      by (simp add: create_with_width_guard_def Let_def)
    then show ?thesis using Suc.prems True reflpD [OF R(1)] by (intro exI [of _ db]) auto
  next
    case False
    let ?d = "dl_between env k db"
    have "create_child n (k + 1) env auth agent cwd (generate_slug (dl_rng env k) (sibling_slugs (mc_session_id auth) ?d)) ?d = (Inr slug', db1)"
      using Suc.prems False by (auto simp: create_with_width_guard_def Let_def split: if_splits)
    from Suc.IH [OF this] R(3) [of db k] show ?thesis using transpD [OF R(2)] by blast
  qed
qed

section \<open>The commit\<close>

lemma commit_Ok:
  assumes "commit_delegation env auth k ev_str prompt_str payload d2 = (ToolOk (tool_reply t False), db')"
    and payload: "from_str payload \<noteq> None"
  obtains x p where "execution_row (mc_execution_id auth) d2 = Some x" "x_desired x \<noteq> DTerminate" "x_outcome x = None"
    "session_row (mc_session_id auth) d2 = Some p" "s_desired p = DRun" "s_outcome p = None"
    "t = delegated_text (dl_new_id env)"
    "db' = enqueue (mc_execution_id auth) (dl_new_id env) payload None
       (add_event (mc_execution_id auth) (Some (dl_new_id env)) EvMessage prompt_str None
         (add_event (mc_execution_id auth) (Some (mc_session_id auth)) EvPlatform ev_str None d2))"
    "db_step d2 db'"
proof -
  let ?body = "delegate_body auth (dl_new_id env) ev_str prompt_str payload"
  let ?t = "\<lparr>tx_db = d2, tx_execution_id = mc_execution_id auth, tx_verified = []\<rparr>"
  have run: "run_tx (\<lambda>e. CommitFailed (''begin transaction failed: '' @ show_error e)) (mc_execution_id auth) ?body d2 = (Committed, db')"
    and t: "t = delegated_text (dl_new_id env)"
    using assms(1) by (auto simp: commit_delegation_def tool_reply_def split: prod.splits commit_result.splits)
  have keeps: "tx_keeps tx_step ?body"
    unfolding delegate_body_def using payload by (intro step_rules)
  obtain t' where x: "execution_row (mc_execution_id auth) d2 \<noteq> None" and body: "?body ?t = Inr (Committed, t')" and db': "db' = tx_db t'"
  proof -
    have "?body ?t \<noteq> Inl Committed"
      by (auto simp: delegate_body_def tx_bind_Inl_iff tx_try_def tx_fail_if_def tx_map_err_def tx_enqueue_def tx_ret_def
          split: sum.splits if_splits elim!: map_err.elims)
    with run that show ?thesis
      by (auto simp: run_tx_def begin_execution_tx_def split: option.splits sum.splits prod.splits)
  qed
  have "\<exists>x p. execution_row (mc_execution_id auth) d2 = Some x \<and> x_desired x \<noteq> DTerminate \<and> x_outcome x = None \<and>
    session_row (mc_session_id auth) d2 = Some p \<and> s_desired p = DRun \<and> s_outcome p = None \<and>
    db' = enqueue (mc_execution_id auth) (dl_new_id env) payload None
       (add_event (mc_execution_id auth) (Some (dl_new_id env)) EvMessage prompt_str None
         (add_event (mc_execution_id auth) (Some (mc_session_id auth)) EvPlatform ev_str None d2))"
    using body db'
    by (auto simp: delegate_body_def tx_bind_def tx_try_def tx_fail_if_def tx_map_err_def tx_enqueue_def tx_ret_def insert_in_tx_def
        insert_row_def verify_session_owner_def split: sum.splits if_splits)
  then show ?thesis using that t db_step_run_tx [OF keeps run] by blast
qed

section \<open>Delegation\<close>

lemma delegate_checks_Inr:
  assumes "delegate_checks env auth agent_name explicit_cwd cat pre = Inr (x, agent, child_cwd, sandbox_config)"
  obtains parent policy where "mc_desired auth \<noteq> DStop" "execution_row (mc_execution_id auth) pre = Some x" "x_desired x \<noteq> DTerminate" "x_outcome x = None"
    "get_agent_by_name agent_name pre = Inr agent" "a_enabled agent" "a_id agent \<in> set (pool_agents (mc_execution_id auth) cat)"
    "session_row (mc_session_id auth) pre = Some parent"
    "child_cwd = (case explicit_cwd of Some c \<Rightarrow> Some c | None \<Rightarrow> s_cwd parent)"
    "\<And>c. explicit_cwd = Some c \<Longrightarrow> is_absolute c \<and> within_lead env (mc_session_id auth) c pre = Inr ()"
    "parse_sandbox_policy (mc_sandbox_policy auth) = Inr policy" "build_sandbox_driver_config policy = Inr sandbox_config"
  using assms
  by (auto simp: delegate_checks_def Let_def get_execution_def get_session_def split: if_splits sum.splits option.splits)

lemma delegated_payload_sel:
  "get (delegated_payload agent sc prompt ac cwd project servers) ''agent_id'' = Some (JStr (a_id agent))"
  "get (delegated_payload agent sc prompt ac cwd project servers) ''driver'' =
     Some (JObj [(''platform'', JStr (a_agent_type agent)), (''config'', sc)])"
  "get (delegated_payload agent sc prompt ac cwd project servers) ''message'' =
     Some (JObj [(''role'', JStr ROLE_USER), (''parts'', JArr [text_part prompt])])"
  "get (delegated_payload agent sc prompt ac cwd project servers) ''cwd'' = map_option JStr cwd"
  by (simp_all add: delegated_payload_def Let_def opt_field_def split: option.splits)

lemma delegate_checks_Inl: "delegate_checks env auth a c cat pre \<noteq> Inl (ToolOk (tool_reply t False))"
  by (auto simp: delegate_checks_def Let_def tool_reply_def split: sum.splits option.splits)

lemma handle_delegate_Ok:
  assumes "handle_delegate env auth args cat pre db = (ToolOk (tool_reply t False), db')"
  obtains agent_name prompt x agent cwd sc slug db1 parent_name ac where
    "get_str args ''agent'' = Some agent_name" "get_str args ''prompt'' = Some prompt"
    "delegate_checks env auth agent_name (get_str args ''cwd'') cat pre = Inr (x, agent, cwd, sc)"
    "create_child 3 1 env auth agent cwd (generate_slug (dl_rng env 0) (sibling_slugs (mc_session_id auth) pre)) db = (Inr slug, db1)"
    "commit_delegation env auth 9 (to_string (delegate_event agent_name (dl_new_id env) prompt))
       (to_string (child_prompt parent_name (mc_session_id auth) prompt))
       (to_string (delegated_payload agent sc prompt ac cwd (mc_project_id auth) (project_servers (mc_project_id auth) cat)))
       (dl_between env 8 db1) = (ToolOk (tool_reply t False), db')"
proof -
  note raised = assms [unfolded handle_delegate_def Let_def]
  show ?thesis using raised
    by (auto simp: delegate_checks_Inl split: sum.split_asm option.split_asm prod.split_asm intro: that)
qed

lemma create_child_slug:
  "create_child n k env auth agent cwd slug db = (Inr slug', db1) \<Longrightarrow> slug \<noteq> [] \<Longrightarrow> slug' \<noteq> []"
proof (induction n arbitrary: k slug db)
  case (Suc n)
  show ?case
    using Suc.prems Suc.IH [OF _ slug_nonempty] by (auto simp: Let_def split: prod.splits sum.splits bool.splits if_splits)
qed simp

text \<open>The child in the tree: its siblings' slugs differ from its own, and it is one level below its parent.\<close>

lemma new_child:
  assumes wf: "db_wf d" and p: "session_row p d = Some q" "s_execution_id q = eid" and slug: "slug \<noteq> []"
    and ins: "insertable (new_session i eid aid (Some p) cwd wt sha slug policy now) d"
  defines "d1 \<equiv> add_session (new_session i eid aid (Some p) cwd wt sha slug policy now) d"
  shows "session_row i d = None" and "db_step d d1" and "r \<in> set (sessions d) \<Longrightarrow> s_parent_session_id r = Some p \<Longrightarrow> s_slug r \<noteq> slug"
    and "session_row i d1 = Some (new_session i eid aid (Some p) cwd wt sha slug policy now)"
proof -
  let ?c = "new_session i eid aid (Some p) cwd wt sha slug policy now"
  have c: "s_id ?c = i" "s_execution_id ?c = eid" "s_parent_session_id ?c = Some p" "s_slug ?c = slug" by (simp_all add: new_session_def)
  show new: "session_row i d = None" using ins c by (simp add: insertable_iff)
  show step: "db_step d d1" unfolding d1_def by (rule add_session_step [OF ins session_wf_new]) (use p c in auto)
  show "s_slug r \<noteq> slug" if r: "r \<in> set (sessions d)" "s_parent_session_id r = Some p"
  proof -
    have "s_execution_id r = eid" using session_position [OF wf r] p by (metis option.inject)
    then show ?thesis using ins c slug r by (auto simp: insertable_iff slug_taken_def list_ex_iff)
  qed
  show "session_row i d1 = Some ?c" by (simp add: d1_def session_row_add [unfolded c] c new)
qed

text \<open>The call, from its checks to its commit.\<close>

lemma delegated_child:
  assumes wf: "db_wf d0" and caller: "session_row (mc_session_id auth) d0 = Some q" "s_execution_id q = mc_execution_id auth"
    and d0: "insertable (new_session (dl_new_id env) (mc_execution_id auth) aid (Some (mc_session_id auth)) cwd None None slug policy (clock d0)) d0"
    and slug: "slug \<noteq> []"
  defines "c \<equiv> new_session (dl_new_id env) (mc_execution_id auth) aid (Some (mc_session_id auth)) cwd None None slug policy (clock d0)"
  shows "session_row (dl_new_id env) d0 = None \<and> db_step d0 (add_session c d0) \<and>
    session_row (dl_new_id env) (add_session c d0) = Some c \<and>
    (\<forall>r \<in> set (sessions d0). s_parent_session_id r = Some (mc_session_id auth) \<longrightarrow> s_slug r \<noteq> slug)"
  using new_child [OF wf caller slug d0] by (simp add: c_def)

lemma child_depth:
  assumes wf: "db_wf d1" and st: "stays {i} d1 d'" and c: "session_row i d1 = Some c" "s_parent_session_id c = Some p" "s_execution_id c = eid"
    and p: "int (compute_depth p eid d') = k" "k < 10"
  shows "int (compute_depth i eid d') = k + 1"
proof -
  obtain c' where c': "session_row i d' = Some c'" "same_place c c'" "db_wf d'" using wf st c(1) by (auto simp: stays_def)
  then have "s_parent_session_id c' = Some p" "s_execution_id c' = eid" using c by (simp_all add: same_place_def)
  from depth_child [OF c'(3,1) this(1)] this p show ?thesis by simp
qed

text \<open>
  C39. What a successful delegation did. The caller may delegate: it is no leaf and above the depth
  limit, and at the commit it runs and its execution is alive. The agent is the one that the request names, enabled and
  in the execution's pool. One child was inserted, below the caller, for that agent, in the directory that the request
  gives or else the caller's, with the caller's sandbox policy, with a new id and a slug that no sibling has, at a moment at
  which the caller had fewer live children than the width allows; it is one level deeper than the caller, so within the
  depth limit. Its inbox gained exactly one task, for that agent, directory and sandbox, whose message is the prompt of the request. The
  log gained one event for the caller, naming the child and the prompt, and the prompt as the child's first message. All that
  holds whatever other requests did between the accesses to the database, steps, recoveries and deletions, as long
  as no deletion removed the child, the caller or a session above it: \<open>moves\<close> is any relation of that kind.
\<close>

theorem delegate_effect:
  assumes wf: "db_wf pre" and auth: "from_request_parts h pre = Inr auth" and depth: "mc_max_depth auth \<le> 10"
    and line: "mc_session_id auth \<in> K" "\<forall>i \<in> K. \<forall>s p. session_row i pre = Some s \<and> s_parent_session_id s = Some p \<longrightarrow> p \<in> K"
    and moves: "reflp moves" "transp moves" "\<And>d d'. moves d d' \<Longrightarrow> stays (insert (dl_new_id env) K) d d'"
    and others: "moves pre db" "\<And>n d. moves d (dl_between env n d)"
    and name: "get_str params ''name'' = Some ''delegate''"
    and call: "handle_tools_call env auth params cat pre db = Some (ToolOk (tool_reply t False), db')"
  shows "let args = (case get params ''arguments'' of None \<Rightarrow> JObj [] | Some a \<Rightarrow> a);
      new = dl_new_id env; me = mc_session_id auth; eid = mc_execution_id auth in
    mc_role auth \<noteq> Leaf \<and> t = delegated_text new \<and>
    (\<exists>agent_name prompt (agent :: agent) parent cwd policy sc slug my_name task d0 d2 e1 e2.
      get_str args ''agent'' = Some agent_name \<and> get_str args ''prompt'' = Some prompt \<and>
      get_agent_by_name agent_name pre = Inr agent \<and> a_id agent \<in> set (pool_agents eid cat) \<and> a_enabled agent \<and>
      session_row me pre = Some parent \<and> cwd = (case get_str args ''cwd'' of Some c \<Rightarrow> Some c | None \<Rightarrow> s_cwd parent) \<and>
      moves db d0 \<and> int (count_active_children me d0) < mc_max_width auth \<and> session_row new d0 = None \<and>
      (\<forall>r \<in> set (sessions d0). s_parent_session_id r = Some me \<longrightarrow> s_slug r \<noteq> slug) \<and>
      moves (add_session (new_session new eid (a_id agent) (Some me) cwd None None slug (mc_sandbox_policy auth) (clock d0)) d0) d2 \<and>
      (\<exists>x. execution_row eid d2 = Some x \<and> x_desired x \<noteq> DTerminate \<and> x_outcome x = None) \<and>
      (\<exists>p. session_row me d2 = Some p \<and> s_desired p = DRun \<and> s_outcome p = None) \<and>
      events db' = events d2 @ [e1, e2] \<and> ev_session_id e1 = Some me \<and> ev_session_id e2 = Some new \<and>
      ev_payload e1 = to_string (delegate_event agent_name new prompt) \<and>
      ev_payload e2 = to_string (message_payload ROLE_USER [sender_part \<lparr>si_name = my_name, si_session_id = me\<rparr>, text_part prompt]) \<and>
      (\<forall>i. inbox_of i db' = inbox_of i d2 @ (if i = new then [\<lparr>ta_execution_id = eid, ta_session_id = i, ta_payload = task\<rparr>] else [])) \<and>
      get task ''agent_id'' = Some (JStr (a_id agent)) \<and> get task ''cwd'' = map_option JStr cwd \<and>
      get task ''message'' = Some (JObj [(''role'', JStr ROLE_USER), (''parts'', JArr [text_part prompt])]) \<and>
      parse_sandbox_policy (mc_sandbox_policy auth) = Inr policy \<and> build_sandbox_driver_config policy = Inr sc \<and>
      get task ''driver'' = Some (JObj [(''platform'', JStr (a_agent_type agent)), (''config'', sc)]) \<and>
      int (compute_depth new eid db') = mc_depth auth + 1 \<and> mc_depth auth + 1 \<le> mc_max_depth auth)"
proof -
  let ?args = "case get params ''arguments'' of None \<Rightarrow> JObj [] | Some a \<Rightarrow> a"
  let ?new = "dl_new_id env" and ?me = "mc_session_id auth" and ?eid = "mc_execution_id auth"
  obtain s where s: "session_row ?me pre = Some s" "s_execution_id s = ?eid"
    and d: "mc_depth auth = int (compute_depth (s_id s) (s_execution_id s) pre)" using auth by (rule from_request_parts_Inr)
  have level: "mc_depth auth < mc_max_depth auth" and role: "mc_role auth \<noteq> Leaf"
    and run: "handle_delegate env auth ?args cat pre db = (ToolOk (tool_reply t False), db')"
    using call name by (auto simp: handle_tools_call_def Let_def split: if_splits)
  from run show ?thesis
  proof (rule handle_delegate_Ok)
    fix agent_name prompt x and agent :: agent and cwd sc slug db1 my_name ac
    let ?c = "\<lambda>d. new_session ?new ?eid (a_id agent) (Some ?me) cwd None None slug (mc_sandbox_policy auth) (clock d)"
    let ?task = "delegated_payload agent sc prompt ac cwd (mc_project_id auth) (project_servers (mc_project_id auth) cat)"
    let ?d2 = "dl_between env 8 db1"
    assume args: "get_str ?args ''agent'' = Some agent_name" "get_str ?args ''prompt'' = Some prompt"
      and checks: "delegate_checks env auth agent_name (get_str ?args ''cwd'') cat pre = Inr (x, agent, cwd, sc)"
      and create: "create_child 3 1 env auth agent cwd (generate_slug (dl_rng env 0) (sibling_slugs ?me pre)) db = (Inr slug, db1)"
      and commit: "commit_delegation env auth 9 (to_string (delegate_event agent_name ?new prompt))
         (to_string (child_prompt my_name ?me prompt)) (to_string ?task) ?d2 = (ToolOk (tool_reply t False), db')"
    from checks obtain parent policy where agent: "get_agent_by_name agent_name pre = Inr agent" "a_enabled agent" "a_id agent \<in> set (pool_agents ?eid cat)"
      and parent: "session_row ?me pre = Some parent" "cwd = (case get_str ?args ''cwd'' of Some c \<Rightarrow> Some c | None \<Rightarrow> s_cwd parent)"
      and policy: "parse_sandbox_policy (mc_sandbox_policy auth) = Inr policy" "build_sandbox_driver_config policy = Inr sc"
      by (rule delegate_checks_Inr)
    obtain d0 where d0: "moves db d0" "int (count_active_children ?me d0) < mc_max_width auth" "insertable (?c d0) d0" "db1 = add_session (?c d0) d0"
      using create_child_Inr [OF create moves(1,2) others(2)] by blast
    have sub: "stays L e e'" if "moves e e'" "L \<subseteq> insert ?new K" for L e e' using stays_mono [OF moves(3) [OF that(1)] that(2)] .
    have to0: "stays K pre d0" using transpD [OF moves(2) others(1) d0(1)] by (rule sub) blast
    obtain q where q: "session_row ?me d0 = Some q" "s_execution_id q = ?eid" and wf0: "db_wf d0"
      using to0 wf line(1) s by (fastforce simp: stays_def same_place_def)
    note child = delegated_child [OF wf0 q d0(3) create_child_slug [OF create slug_nonempty], folded d0(4)]
    have wf1: "db_wf db1" using child wf0 by (simp add: db_step_def)
    obtain x p where live: "execution_row ?eid ?d2 = Some x" "x_desired x \<noteq> DTerminate" "x_outcome x = None"
        "session_row ?me ?d2 = Some p" "s_desired p = DRun" "s_outcome p = None"
      and t: "t = delegated_text ?new" and step: "db_step ?d2 db'"
      and db': "db' = enqueue ?eid ?new (to_string ?task) None
         (add_event ?eid (Some ?new) EvMessage (to_string (child_prompt my_name ?me prompt)) None
           (add_event ?eid (Some ?me) EvPlatform (to_string (delegate_event agent_name ?new prompt)) None ?d2))"
      using commit by (rule commit_Ok) simp_all
    have "stays L db1 db'" if "L \<subseteq> insert ?new K" for L
      using sub [OF others(2) [of db1 8] that] db_step_stays [OF step] by (rule stays_trans)
    then have "stays K db1 db'" "stays {?new} db1 db'" by auto
    moreover have "stays K d0 db1" using child by (intro db_step_stays) simp
    ultimately have "stays K pre db'" and stay: "stays {?new} db1 db'" using to0 by (blast intro: stays_trans)+
    then have "int (compute_depth ?me ?eid db') = mc_depth auth"
      using depth_stays [OF wf _ s(1) line(1,2)] session_rowD [OF s(1)] s(2) d by simp
    from child_depth [OF wf1 stay, of "?c d0" ?me ?eid, OF _ _ _ this] child level depth
    have deep: "int (compute_depth ?new ?eid db') = mc_depth auth + 1" by (simp add: new_session_def)
    have log: "\<exists>e1 e2. events db' = events ?d2 @ [e1, e2] \<and> ev_session_id e1 = Some ?me \<and> ev_session_id e2 = Some ?new \<and>
        ev_payload e1 = to_string (delegate_event agent_name ?new prompt) \<and>
        ev_payload e2 = to_string (message_payload ROLE_USER [sender_part \<lparr>si_name = my_name, si_session_id = ?me\<rparr>, text_part prompt])"
      by (simp add: db' enqueue_def new_event_def child_prompt_def)
    have inbox: "inbox_of i db' = inbox_of i ?d2 @ (if i = ?new then [\<lparr>ta_execution_id = ?eid, ta_session_id = i, ta_payload = ?task\<rparr>] else [])" for i
      by (simp add: db' inbox_of_def assignment_of_def enqueue_def)
    show ?thesis
      unfolding Let_def
      by (intro conjI role t, rule exI [of _ agent_name], rule exI [of _ prompt], rule exI [of _ agent], rule exI [of _ parent],
          rule exI [of _ cwd], rule exI [of _ policy], rule exI [of _ sc], rule exI [of _ slug], rule exI [of _ my_name],
          rule exI [of _ ?task], rule exI [of _ d0], rule exI [of _ ?d2])
        (use level args agent parent policy d0(1,2) child others(2) [of db1 8, unfolded d0(4)] live log deep inbox in
          \<open>simp add: delegated_payload_sel d0(4)\<close>)
  qed
qed

definition demo_team :: db where
  "demo_team = add_session (new_session ''r'' ''e'' ''a'' None (Some ''/w'') None None ''lead''
     (to_string (JObj [(''fs_level'', JStr ''workspace'')])) 0) demo_created"

definition demo_dl :: dl_env where
  "demo_dl = \<lparr>dl_validate = (\<lambda>_ _. None), dl_canonicalize = Inr, dl_new_id = ''n'', dl_rng = (\<lambda>_ i. i),
     dl_texts = \<lparr>bt_delegation = [], bt_escalate = [], bt_coordination = [], bt_messaging = [], bt_recovery = [], bt_rest_api = []\<rparr>,
     dl_between = (\<lambda>_ d. d), dl_fuel = 2, dl_transition_env = demo_env, dl_debug = (\<lambda>_. [])\<rparr>"

definition demo_catalog :: catalog where
  "demo_catalog = \<lparr>ct_projects = [], ct_mcp_servers = [], ct_project_mcp_servers = [], ct_execution_agents = [(''e'', ''a'')]\<rparr>"

definition demo_lead :: mcp_session where
  "demo_lead = (case from_request_parts (Some ''Bearer r'') demo_team of Inr a \<Rightarrow> a)"

definition demo_call :: json where
  "demo_call = JObj [(''name'', JStr ''delegate''), (''arguments'', JObj [(''agent'', JStr ''n''), (''prompt'', JStr ''go'')])]"

definition demo_delegated :: db where
  "demo_delegated = (case handle_tools_call demo_dl demo_lead demo_call demo_catalog demo_team demo_team of Some (r, d) \<Rightarrow> d)"

theorem delegate_effect_witness:
  "int (compute_depth ''n'' ''e'' demo_delegated) = 1 \<and>
   (\<exists>task. inbox_of ''n'' demo_delegated = [\<lparr>ta_execution_id = ''e'', ta_session_id = ''n'', ta_payload = task\<rparr>] \<and>
      get task ''agent_id'' = Some (JStr ''a'') \<and>
      get task ''message'' = Some (JObj [(''role'', JStr ROLE_USER), (''parts'', JArr [text_part ''go''])]))"
proof -
  have wf: "db_wf demo_team"
    by (simp add: db_wf_def demo_team_def demo_created_def demo_agents_def empty_db_def new_session_def
      new_execution_def session_wf_def execution_wf_def log_wf_def queue_wf_def parents_first_def lineage_def
      execution_row_def sql_find_def)
  have "ok (from_request_parts (Some ''Bearer r'') demo_team) \<noteq> None" by code_simp
  then have auth: "from_request_parts (Some ''Bearer r'') demo_team = Inr demo_lead"
    by (auto simp: demo_lead_def split: sum.splits)
  have lead: "mc_session_id demo_lead = ''r''" "mc_execution_id demo_lead = ''e''" "mc_depth demo_lead = 0" "mc_max_depth demo_lead = 2"
    by code_simp+
  have root: "map_option s_parent_session_id (session_row ''r'' demo_team) = Some None" by code_simp
  have "map_option fst (handle_tools_call demo_dl demo_lead demo_call demo_catalog demo_team demo_team) =
      Some (ToolOk (tool_reply (delegated_text ''n'') False))" by code_simp
  then have call: "handle_tools_call demo_dl demo_lead demo_call demo_catalog demo_team demo_team =
      Some (ToolOk (tool_reply (delegated_text ''n'') False), demo_delegated)"
    by (auto simp: demo_delegated_def)
  have dl: "dl_new_id demo_dl = ''n''" "dl_between demo_dl n d = d" for n d by (simp_all add: demo_dl_def)
  have name: "get_str demo_call ''name'' = Some ''delegate''"
    and args: "get_str (case get demo_call ''arguments'' of None \<Rightarrow> JObj [] | Some a \<Rightarrow> a) ''prompt'' = Some ''go''"
      "get_str (case get demo_call ''arguments'' of None \<Rightarrow> JObj [] | Some a \<Rightarrow> a) ''agent'' = Some ''n''"
      "map_sum id a_id (get_agent_by_name ''n'' demo_team) = (Inr ''a'' :: scheduler_error + string)"
    and empty: "inbox_of ''n'' demo_team = []" by code_simp+
  have inbox: "inbox_of ''n'' (add_session c demo_team) = []" for c using empty by (simp add: inbox_of_def add_session_def)
  have "mc_max_depth demo_lead \<le> 10" "mc_session_id demo_lead \<in> {''r''}" by (simp_all add: lead)
  moreover have "\<forall>i \<in> {''r''}. \<forall>s p. session_row i demo_team = Some s \<and> s_parent_session_id s = Some p \<longrightarrow> p \<in> {''r''}"
    using root by auto
  ultimately have line: "mc_max_depth demo_lead \<le> 10" "mc_session_id demo_lead \<in> {''r''}"
    "\<forall>i \<in> {''r''}. \<forall>s p. session_row i demo_team = Some s \<and> s_parent_session_id s = Some p \<longrightarrow> p \<in> {''r''}" by blast+
  from delegate_effect [where K = "{''r''}" and moves = "(=)" and env = demo_dl, OF wf auth line reflp_on_equality transp_on_equality _ refl _ name call]
  show ?thesis using root args inbox
    by (auto simp: Let_def dl lead stays_refl)
qed

section \<open>Delegations that race\<close>







end
