(* ===== verification/Wiki_Store.thy ===== *)
theory Wiki_Store
  imports Briefing
begin

text \<open>
  The tables of the wiki and the statements on them: \<open>scheduler/src/db/wiki.rs\<close>,
  \<open>db/wiki_sharing.rs\<close>, and what they use of \<open>db/projects.rs\<close> and \<open>db/sessions.rs\<close>.

  A page belongs to a project. Projects that are members of the same tag reach each other's pages that
  carry it. Projects are in the \<open>catalog\<close>, sessions in the \<open>db\<close>; the statements change neither. The
  twin of a read that uses an open transaction computes the same from the transaction's tables.
\<close>

section \<open>Tables\<close>

record wiki_page =
  wp_id :: string
  wp_project_id :: string
  wp_slug :: string
  wp_title :: string
  wp_body :: string
  wp_revision_number :: int
  wp_created_by :: "string option"
  wp_updated_by :: "string option"
  wp_created_at :: timestamp
  wp_updated_at :: timestamp
  wp_deleted_at :: "timestamp option"

record wiki_revision =
  wr_id :: string
  wr_page_id :: string
  wr_revision_number :: int
  wr_title :: string
  wr_body :: string
  wr_summary :: "string option"
  wr_created_by :: "string option"
  wr_created_at :: timestamp

record wiki_tag =
  wt_id :: string
  wt_name :: string

record tag_member =
  tm_id :: string
  tm_tag_id :: string
  tm_project_id :: string
  tm_access_level :: string
  tm_created_by :: "string option"
  tm_created_at :: timestamp
  tm_revoked_at :: "timestamp option"

record wiki_subscription =
  ws_id :: string
  ws_project_id :: string
  ws_subscriber :: string
  ws_page_slug :: "string option"
  ws_tag_name :: "string option"
  ws_created_at :: timestamp

record wiki =
  wk_pages :: "wiki_page list"
  wk_revisions :: "wiki_revision list"
  wk_tags :: "wiki_tag list"
  wk_page_tags :: "(string \<times> string) list"
  wk_members :: "tag_member list"
  wk_subscriptions :: "wiki_subscription list"

definition PAGE_NOT_FOUND_MESSAGE :: string where "PAGE_NOT_FOUND_MESSAGE = ''wiki page not found''"

text \<open>\<open>str::trim\<close> on UTF-8.\<close>

definition trim :: "string \<Rightarrow> string" where
  "trim s = concat (rev (dropWhile white_space (rev (dropWhile white_space (utf8_chars s)))))"

section \<open>Projects and live sessions\<close>

definition active_project :: "string \<Rightarrow> catalog \<Rightarrow> project option" where
  "active_project i cat = sql_find (\<lambda>p. p_id p = i \<and> p_deleted_at p = None) (ct_projects cat)"

text \<open>\<open>WHERE (id = ? OR slug = ?) AND deleted_at IS NULL ORDER BY CASE WHEN id = ? THEN 0 ELSE 1 END LIMIT 1\<close>.\<close>

definition resolve_in_tx :: "string \<Rightarrow> catalog \<Rightarrow> project option" where
  "resolve_in_tx s cat =
     (case sort_key (\<lambda>p. if p_id p = s then 0 else 1 :: nat)
        (filter (\<lambda>p. (p_id p = s \<or> p_slug p = s) \<and> p_deleted_at p = None) (ct_projects cat)) of
        [] \<Rightarrow> None | p # _ \<Rightarrow> Some p)"

definition resolve_project :: "string \<Rightarrow> catalog \<Rightarrow> scheduler_error + project" where
  "resolve_project s cat = ok_or (map_db_error ''project'' s) (resolve_in_tx s cat)"

definition lock_active_in_tx :: "string \<Rightarrow> catalog \<Rightarrow> string option" where
  "lock_active_in_tx i cat = map_option p_slug (active_project i cat)"

definition is_active_in_tx :: "string \<Rightarrow> catalog \<Rightarrow> bool" where
  "is_active_in_tx i cat \<longleftrightarrow> active_project i cat \<noteq> None"

definition active_slugs_in_tx :: "catalog \<Rightarrow> (string \<times> string) list" where
  "active_slugs_in_tx cat = map (\<lambda>p. (p_id p, p_slug p)) (filter (\<lambda>p. p_deleted_at p = None) (ct_projects cat))"

definition active_ids_in_tx :: "catalog \<Rightarrow> string list" where
  "active_ids_in_tx cat = map p_id (filter (\<lambda>p. p_deleted_at p = None) (ct_projects cat))"

definition slug_label :: "catalog \<Rightarrow> string \<Rightarrow> string" where
  "slug_label cat pid = (case map_of (active_slugs_in_tx cat) pid of Some s \<Rightarrow> s | None \<Rightarrow> pid)"

text \<open>The join of a session that is live with its execution when that is live too.\<close>

definition live_session_execution :: "string \<Rightarrow> db \<Rightarrow> execution option" where
  "live_session_execution sid db =
     (case session_row sid db of
        None \<Rightarrow> None
      | Some s \<Rightarrow>
          if s_desired s \<noteq> DTerminate \<and> s_outcome s = None then
            (case execution_row (s_execution_id s) db of
               None \<Rightarrow> None
             | Some x \<Rightarrow> if x_desired x \<noteq> DTerminate \<and> x_outcome x = None then Some x else None)
          else None)"

definition live_project_in_tx :: "string \<Rightarrow> db \<Rightarrow> string option" where
  "live_project_in_tx sid db = Option.bind (live_session_execution sid db) x_project_id"

definition is_live_in_tx :: "string \<Rightarrow> db \<Rightarrow> bool" where
  "is_live_in_tx sid db \<longleftrightarrow> live_session_execution sid db \<noteq> None"

section \<open>Pages and their tags\<close>

definition live_page :: "(wiki_page \<Rightarrow> bool) \<Rightarrow> wiki \<Rightarrow> wiki_page option" where
  "live_page P wk = sql_find (\<lambda>p. P p \<and> wp_deleted_at p = None) (wk_pages wk)"

definition page_tag_names_in_tx :: "string \<Rightarrow> wiki \<Rightarrow> string list" where
  "page_tag_names_in_tx pid wk =
     sort (concat (map (\<lambda>(p, t). if p = pid then map wt_name (filter (\<lambda>g. wt_id g = t) (wk_tags wk)) else [])
       (wk_page_tags wk)))"

definition with_tags :: "wiki \<Rightarrow> wiki_page option \<Rightarrow> (wiki_page \<times> string list) option" where
  "with_tags wk = map_option (\<lambda>p. (p, page_tag_names_in_tx (wp_id p) wk))"

definition page_with_tags_in_tx :: "string \<Rightarrow> string \<Rightarrow> wiki \<Rightarrow> (wiki_page \<times> string list) option" where
  "page_with_tags_in_tx pid slug wk = with_tags wk (live_page (\<lambda>p. wp_project_id p = pid \<and> wp_slug p = slug) wk)"

definition page_with_tags_by_id_in_tx :: "string \<Rightarrow> wiki \<Rightarrow> (wiki_page \<times> string list) option" where
  "page_with_tags_by_id_in_tx i wk = with_tags wk (live_page (\<lambda>p. wp_id p = i) wk)"

definition page_id_in_tx :: "string \<Rightarrow> string \<Rightarrow> wiki \<Rightarrow> string option" where
  "page_id_in_tx pid slug wk = map_option wp_id (live_page (\<lambda>p. wp_project_id p = pid \<and> wp_slug p = slug) wk)"

definition get_page_by_slug :: "string \<Rightarrow> string \<Rightarrow> wiki \<Rightarrow> scheduler_error + wiki_page" where
  "get_page_by_slug pid slug wk =
     ok_or (NotFound (''wiki page not found: '' @ slug)) (live_page (\<lambda>p. wp_project_id p = pid \<and> wp_slug p = slug) wk)"

section \<open>Tags\<close>

definition ordered_tag_names :: "string list \<Rightarrow> string list" where
  "ordered_tag_names tags = sort (remdups (filter (\<lambda>t. t \<noteq> []) (map trim tags)))"

text \<open>\<open>INSERT OR IGNORE\<close>: an id or a name that exists is left alone.\<close>

definition insert_tag :: "string \<Rightarrow> string \<Rightarrow> wiki \<Rightarrow> wiki" where
  "insert_tag i name wk =
     (if list_ex (\<lambda>t. wt_id t = i \<or> wt_name t = name) (wk_tags wk) then wk
      else wk\<lparr>wk_tags := wk_tags wk @ [\<lparr>wt_id = i, wt_name = name\<rparr>]\<rparr>)"

definition tag_named :: "string \<Rightarrow> wiki \<Rightarrow> wiki_tag option" where
  "tag_named name wk = sql_find (\<lambda>t. wt_name t = name) (wk_tags wk)"

text \<open>\<open>new_id k\<close> is the id drawn for the \<open>k\<close>-th name.\<close>

fun materialize_loop :: "(nat \<Rightarrow> string) \<Rightarrow> nat \<Rightarrow> string list \<Rightarrow> wiki \<Rightarrow> scheduler_error + (string \<times> string) list \<times> wiki" where
  "materialize_loop new_id k [] wk = Inr ([], wk)"
| "materialize_loop new_id k (name # names) wk =
     (let wk = insert_tag (new_id k) name wk in
      case tag_named name wk of
        None \<Rightarrow> Inl (Database ''lock wiki tag failed'')
      | Some t \<Rightarrow>
          (case materialize_loop new_id (k + 1) names wk of
             Inl e \<Rightarrow> Inl e
           | Inr (held, wk) \<Rightarrow> Inr ((name, wt_id t) # held, wk)))"

definition materialize_tags_in_tx :: "(nat \<Rightarrow> string) \<Rightarrow> string list \<Rightarrow> wiki \<Rightarrow> scheduler_error + (string \<times> string) list \<times> wiki" where
  "materialize_tags_in_tx new_id tag_names wk = materialize_loop new_id 0 (ordered_tag_names tag_names) wk"

definition add_page_tag :: "string \<Rightarrow> string \<Rightarrow> wiki \<Rightarrow> wiki" where
  "add_page_tag pid tid wk =
     (if (pid, tid) \<in> set (wk_page_tags wk) then wk else wk\<lparr>wk_page_tags := wk_page_tags wk @ [(pid, tid)]\<rparr>)"

definition sync_tags_in_tx :: "string \<Rightarrow> (string \<times> string) list \<Rightarrow> wiki \<Rightarrow> wiki" where
  "sync_tags_in_tx pid held wk =
     fold (\<lambda>(_, tid). add_page_tag pid tid) held (wk\<lparr>wk_page_tags := sql_delete (\<lambda>(p, _). p = pid) (wk_page_tags wk)\<rparr>)"

definition remove_page_tag :: "string \<Rightarrow> string \<Rightarrow> wiki \<Rightarrow> wiki" where
  "remove_page_tag pid name wk =
     wk\<lparr>wk_page_tags := sql_delete (\<lambda>(p, t). p = pid \<and> list_ex (\<lambda>g. wt_id g = t \<and> wt_name g = name) (wk_tags wk)) (wk_page_tags wk)\<rparr>"

section \<open>Members of tags\<close>

definition ACCESS_READ :: string where "ACCESS_READ = ''read''"
definition ACCESS_READ_WRITE :: string where "ACCESS_READ_WRITE = ''read_write''"

definition is_access_level :: "string \<Rightarrow> bool" where
  "is_access_level level \<longleftrightarrow> level = ACCESS_READ \<or> level = ACCESS_READ_WRITE"

definition CROSS_PROJECT_WRITES_FLAG :: string where "CROSS_PROJECT_WRITES_FLAG = ''wiki.cross_project_writes''"

record wiki_member =
  mb_id :: string
  mb_project_id :: string
  mb_project_slug :: string
  mb_access_level :: string
  mb_created_at :: timestamp

text \<open>The active rows of a tag, with their projects where these are active too.\<close>

definition member_rows :: "string \<Rightarrow> catalog \<Rightarrow> wiki \<Rightarrow> wiki_member list" where
  "member_rows tid cat wk =
     concat (map (\<lambda>m. if tm_tag_id m = tid \<and> tm_revoked_at m = None then
         map (\<lambda>p. \<lparr>mb_id = tm_id m, mb_project_id = tm_project_id m, mb_project_slug = p_slug p,
           mb_access_level = tm_access_level m, mb_created_at = tm_created_at m\<rparr>)
         (filter (\<lambda>p. p_id p = tm_project_id m \<and> p_deleted_at p = None) (ct_projects cat))
       else []) (wk_members wk))"

definition active_members :: "string \<Rightarrow> catalog \<Rightarrow> wiki \<Rightarrow> wiki_member list" where
  "active_members tid cat wk = sort_key mb_project_slug (member_rows tid cat wk)"

definition active_member :: "string \<Rightarrow> string \<Rightarrow> catalog \<Rightarrow> wiki \<Rightarrow> wiki_member option" where
  "active_member tid pid cat wk = List.find (\<lambda>m. mb_project_id m = pid) (active_members tid cat wk)"

definition tag_name :: "string \<Rightarrow> wiki \<Rightarrow> string option" where
  "tag_name tid wk = map_option wt_name (sql_find (\<lambda>t. wt_id t = tid) (wk_tags wk))"

definition list_tags_with_members :: "catalog \<Rightarrow> wiki \<Rightarrow> (string \<times> string \<times> wiki_member list) list" where
  "list_tags_with_members cat wk =
     map (\<lambda>t. (wt_id t, wt_name t, active_members (wt_id t) cat wk)) (sort_key wt_name (wk_tags wk))"

text \<open>The unique index on the active rows; a \<open>CHECK\<close> allows only the two levels.\<close>

definition insert_member_in_tx ::
  "string \<Rightarrow> string \<Rightarrow> string \<Rightarrow> string \<Rightarrow> string option \<Rightarrow> timestamp \<Rightarrow> wiki \<Rightarrow> scheduler_error + wiki" where
  "insert_member_in_tx i tid pid level by now wk =
     (if list_ex (\<lambda>m. tm_id m = i \<or> tm_tag_id m = tid \<and> tm_project_id m = pid \<and> tm_revoked_at m = None) (wk_members wk) then
        Inl (Conflict ''member_exists'')
      else if \<not> is_access_level level then Inl (Database ''insert tag member failed'')
      else Inr (wk\<lparr>wk_members := wk_members wk @ [\<lparr>tm_id = i, tm_tag_id = tid, tm_project_id = pid,
        tm_access_level = level, tm_created_by = by, tm_created_at = now, tm_revoked_at = None\<rparr>]\<rparr>))"

definition active_row :: "string \<Rightarrow> string \<Rightarrow> tag_member \<Rightarrow> bool" where
  "active_row tid pid m \<longleftrightarrow> tm_tag_id m = tid \<and> tm_project_id m = pid \<and> tm_revoked_at m = None"

definition set_access_level_in_tx :: "string \<Rightarrow> string \<Rightarrow> string \<Rightarrow> wiki \<Rightarrow> bool \<times> wiki" where
  "set_access_level_in_tx tid pid level wk =
     (0 < sql_count (active_row tid pid) (wk_members wk),
      wk\<lparr>wk_members := sql_update (active_row tid pid) (\<lambda>m. m\<lparr>tm_access_level := level\<rparr>) (wk_members wk)\<rparr>)"

definition revoke_row :: "string \<Rightarrow> string \<Rightarrow> timestamp \<Rightarrow> wiki \<Rightarrow> bool \<times> wiki" where
  "revoke_row tid pid now wk =
     (0 < sql_count (active_row tid pid) (wk_members wk),
      wk\<lparr>wk_members := sql_update (active_row tid pid) (\<lambda>m. m\<lparr>tm_revoked_at := Some now\<rparr>) (wk_members wk)\<rparr>)"

record shared_tag_link =
  sl_tag_id :: string
  sl_tag_name :: string
  sl_owner_project_id :: string
  sl_access_level :: string

text \<open>The joins of \<open>SHARED_LINKS_SQL\<close>; both projects must be active.\<close>

definition shared_links :: "string \<Rightarrow> catalog \<Rightarrow> wiki \<Rightarrow> shared_tag_link list" where
  "shared_links pid cat wk =
     [\<lparr>sl_tag_id = wt_id t, sl_tag_name = wt_name t, sl_owner_project_id = tm_project_id theirs, sl_access_level = tm_access_level mine\<rparr>.
      mine \<leftarrow> wk_members wk, tm_project_id mine = pid \<and> tm_revoked_at mine = None \<and> is_active_in_tx pid cat,
      theirs \<leftarrow> wk_members wk, tm_tag_id theirs = tm_tag_id mine \<and> tm_project_id theirs \<noteq> pid \<and> tm_revoked_at theirs = None \<and>
        is_active_in_tx (tm_project_id theirs) cat,
      t \<leftarrow> wk_tags wk, wt_id t = tm_tag_id mine]"

definition memberships_of_in_tx :: "string \<Rightarrow> catalog \<Rightarrow> wiki \<Rightarrow> (string \<times> string \<times> string) list" where
  "memberships_of_in_tx pid cat wk =
     sort_key (\<lambda>(_, name, _). name)
       [(wt_id t, wt_name t, tm_access_level m). m \<leftarrow> wk_members wk,
         tm_project_id m = pid \<and> tm_revoked_at m = None \<and> is_active_in_tx pid cat, t \<leftarrow> wk_tags wk, wt_id t = tm_tag_id m]"

definition tag_ids_by_name_in_tx :: "wiki \<Rightarrow> (string \<times> string) list" where
  "tag_ids_by_name_in_tx wk = map (\<lambda>t. (wt_name t, wt_id t)) (wk_tags wk)"

end
