(* ===== verification/Wiki_Pages.thy ===== *)
theory Wiki_Pages
  imports Wiki_Store
begin

text \<open>
  Writing and listing the pages of the wiki (\<open>scheduler/src/db/wiki.rs\<close>): \<open>create_page\<close>,
  \<open>apply_page_change\<close>, \<open>delete_page\<close>, the revisions, the subscriptions and the lists over several
  projects. Each write is one transaction: it returns the new tables, or the old ones when it rolls back.

  Revision numbers are not bounded. SQLite's statements are modelled; the row locks that the same code takes
  on Postgres are not.
\<close>

section \<open>Who a tag publishes to\<close>

record publication_audience =
  pa_tag_name :: string
  pa_members :: "(string \<times> string \<times> string) list"
  pa_slug_conflicts :: "(string \<times> string) list"

definition members_publishing_slug_in_tx ::
  "string \<Rightarrow> string \<Rightarrow> string list \<Rightarrow> catalog \<Rightarrow> wiki \<Rightarrow> (string \<times> string) list" where
  "members_publishing_slug_in_tx slug tid pids cat wk =
     remdups [(wp_project_id p, p_slug owner).
       p \<leftarrow> wk_pages wk, wp_slug p = slug \<and> wp_project_id p \<in> set pids \<and> wp_deleted_at p = None,
       (i, t) \<leftarrow> wk_page_tags wk, i = wp_id p \<and> t = tid,
       owner \<leftarrow> ct_projects cat, p_id owner = wp_project_id p \<and> p_deleted_at owner = None]"

definition audience_of :: "string \<Rightarrow> string \<Rightarrow> catalog \<Rightarrow> wiki \<Rightarrow> string \<times> string \<Rightarrow> publication_audience option" where
  "audience_of owner slug cat wk = (\<lambda>(name, tid).
     (if \<not> list_ex (\<lambda>m. mb_project_id m = owner) (member_rows tid cat wk) then None
      else
        let others = filter (\<lambda>m. mb_project_id m \<noteq> owner) (active_members tid cat wk) in
        if others = [] then None
        else Some \<lparr>pa_tag_name = name,
          pa_members = map (\<lambda>m. (mb_project_id m, mb_project_slug m, mb_access_level m)) others,
          pa_slug_conflicts = members_publishing_slug_in_tx slug tid (map mb_project_id others) cat wk\<rparr>))"

definition audiences_for_publication ::
  "string \<Rightarrow> string \<Rightarrow> (string \<times> string) list \<Rightarrow> catalog \<Rightarrow> wiki \<Rightarrow> publication_audience list" where
  "audiences_for_publication owner slug held cat wk = List.map_filter (audience_of owner slug cat wk) held"

section \<open>Creating a page\<close>

datatype create_outcome =
    Created wiki_page "string list" string
  | NeedsConfirmation "publication_audience list"

text \<open>The primary key and the unique index on the slugs of the pages that are not deleted.\<close>

definition page_conflict :: "string \<Rightarrow> string \<Rightarrow> string \<Rightarrow> wiki \<Rightarrow> bool" where
  "page_conflict i pid slug wk \<longleftrightarrow>
     list_ex (\<lambda>p. wp_id p = i \<or> wp_project_id p = pid \<and> wp_slug p = slug \<and> wp_deleted_at p = None) (wk_pages wk)"

definition new_page :: "string \<Rightarrow> string \<Rightarrow> string \<Rightarrow> string \<Rightarrow> string \<Rightarrow> string option \<Rightarrow> timestamp \<Rightarrow> wiki_page" where
  "new_page i pid slug title body by now =
     \<lparr>wp_id = i, wp_project_id = pid, wp_slug = slug, wp_title = title, wp_body = body, wp_revision_number = 1,
      wp_created_by = by, wp_updated_by = by, wp_created_at = now, wp_updated_at = now, wp_deleted_at = None\<rparr>"

text \<open>\<open>Inr\<close> commits; \<open>Inl\<close> rolls back with the result.\<close>

definition create_body ::
  "(nat \<Rightarrow> string) \<Rightarrow> string \<Rightarrow> string \<Rightarrow> string \<Rightarrow> string \<Rightarrow> string \<Rightarrow> string option \<Rightarrow> string list option \<Rightarrow> bool \<Rightarrow>
   catalog \<Rightarrow> db \<Rightarrow> wiki \<Rightarrow> (scheduler_error + create_outcome) + (wiki_page \<times> string list \<times> string) \<times> wiki" where
  "create_body new_id i pid slug title body by tags acknowledge_share cat db wk =
     (case (case tags of Some ts \<Rightarrow> materialize_tags_in_tx new_id ts wk | None \<Rightarrow> Inr ([], wk)) of
        Inl e \<Rightarrow> Inl (Inl e)
      | Inr (held, wk) \<Rightarrow>
          let audiences = (if tags \<noteq> None \<and> \<not> acknowledge_share then audiences_for_publication pid slug held cat wk else []);
              exists_already = Conflict (''wiki page slug already exists: '' @ slug) in
          if audiences \<noteq> [] then
            Inl (if page_id_in_tx pid slug wk \<noteq> None then Inl exists_already else Inr (NeedsConfirmation audiences))
          else
            (case lock_active_in_tx pid cat of
               None \<Rightarrow> Inl (Inl (NotFound (''project not found: '' @ pid)))
             | Some project_slug \<Rightarrow>
                 if page_conflict i pid slug wk then Inl (Inl exists_already)
                 else
                   let wk = wk\<lparr>wk_pages := wk_pages wk @ [new_page i pid slug title body by (clock db)]\<rparr>;
                       wk = (if tags \<noteq> None then sync_tags_in_tx i held wk else wk) in
                   (case page_with_tags_in_tx pid slug wk of
                      None \<Rightarrow> Inl (Inl (Database ''created page vanished''))
                    | Some (page, names) \<Rightarrow>
                        if (case by of None \<Rightarrow> False | Some sid \<Rightarrow> \<not> is_live_in_tx sid db) then
                          Inl (Inl (UnauthorizedError ''session is not live''))
                        else Inr ((page, names, project_slug), wk))))"

definition create_page ::
  "(nat \<Rightarrow> string) \<Rightarrow> string \<Rightarrow> string \<Rightarrow> string \<Rightarrow> string \<Rightarrow> string \<Rightarrow> string option \<Rightarrow> string list option \<Rightarrow> bool \<Rightarrow>
   catalog \<Rightarrow> db \<Rightarrow> wiki \<Rightarrow> (scheduler_error + create_outcome) \<times> wiki" where
  "create_page new_id i pid slug title body by tags acknowledge_share cat db wk =
     (case create_body new_id i pid slug title body by tags acknowledge_share cat db wk of
        Inl r \<Rightarrow> (r, wk)
      | Inr ((page, names, project_slug), wk') \<Rightarrow> (Inr (Created page names project_slug), wk'))"

section \<open>Deleting a page\<close>

definition delete_page :: "string \<Rightarrow> string \<Rightarrow> string option \<Rightarrow> catalog \<Rightarrow> db \<Rightarrow> wiki \<Rightarrow> (scheduler_error + unit) \<times> wiki" where
  "delete_page pid i sid cat db wk =
     (let here = (\<lambda>p. wp_id p = i \<and> wp_project_id p = pid \<and> wp_deleted_at p = None) in
      if lock_active_in_tx pid cat = None \<or> sql_count here (wk_pages wk) = 0 then (Inl (NotFound PAGE_NOT_FOUND_MESSAGE), wk)
      else if (case sid of None \<Rightarrow> False | Some s \<Rightarrow> \<not> is_live_in_tx s db) then
        (Inl (UnauthorizedError ''session is not live''), wk)
      else (Inr (), wk\<lparr>wk_pages := sql_update here (\<lambda>p. p\<lparr>wp_deleted_at := Some (clock db)\<rparr>) (wk_pages wk)\<rparr>))"

section \<open>Revisions\<close>

text \<open>The archived revisions of a page, newest first.\<close>

definition list_revisions_in_tx :: "string \<Rightarrow> wiki \<Rightarrow> wiki_revision list" where
  "list_revisions_in_tx i wk = sort_key (\<lambda>r. - wr_revision_number r) (filter (\<lambda>r. wr_page_id r = i) (wk_revisions wk))"

definition get_revision_in_tx :: "string \<Rightarrow> int \<Rightarrow> wiki \<Rightarrow> wiki_revision option" where
  "get_revision_in_tx i n wk = sql_find (\<lambda>r. wr_page_id r = i \<and> wr_revision_number r = n) (wk_revisions wk)"

section \<open>Changing a page\<close>

record foreign_writer =
  fw_caller_project_id :: string
  fw_owner_project_id :: string

record page_change =
  pc_project_id :: string
  pc_slug :: string
  pc_expected_page_id :: string
  pc_expected_revision :: int
  pc_title :: "(string \<times> string) option"
  pc_add_tags :: "string list"
  pc_remove_tags :: "string list"
  pc_summary :: "string option"
  pc_updated_by :: "string option"
  pc_foreign :: "foreign_writer option"
  pc_acknowledge_share :: bool

datatype body_edit_reason = EditNotFound | MultipleMatches | EmptyResult

fun body_edit_reason_str :: "body_edit_reason \<Rightarrow> string" where
  "body_edit_reason_str EditNotFound = ''not_found''"
| "body_edit_reason_str MultipleMatches = ''multiple_matches''"
| "body_edit_reason_str EmptyResult = ''empty_body''"

record body_edit_failure =
  be_index :: "nat option"
  be_reason :: body_edit_reason

datatype page_change_outcome =
    Updated wiki_page "string list"
  | Unchanged wiki_page "string list"
  | RevisionConflict wiki_page "string list"
  | TitleMismatch wiki_page "string list"
  | TagNotPresent "string list" wiki_page "string list"
  | BodyEditFailed body_edit_failure wiki_page "string list"
  | MustConfirm "publication_audience list"
  | AccessRevoked
  | ReadOnlyMember
  | CrossProjectWritesDisabled
  | PrincipalGone
  | PageGone

text \<open>
  The result of a change, with the locked slug of its project; or an error; or the panic of
  \<open>project_ids[1]\<close> for a foreign writer that is the owner itself.
\<close>

datatype change_result = ChangeDone page_change_outcome "string option" | ChangeError scheduler_error | ChangePanic

definition cross_project_writes_in_tx :: "db \<Rightarrow> bool" where
  "cross_project_writes_in_tx db \<longleftrightarrow> map_of (config db) CROSS_PROJECT_WRITES_FLAG \<noteq> Some ''false''"

text \<open>The best level of the caller over the tags of the page of which the owner is a member.\<close>

definition better_level :: "(string \<times> string) list \<Rightarrow> string list \<Rightarrow> string \<Rightarrow> string option \<Rightarrow> string option" where
  "better_level caller_levels owner_tags tid best =
     (if tid \<notin> set owner_tags then best
      else
        case map_of caller_levels tid of
          None \<Rightarrow> best
        | Some level \<Rightarrow>
            if level = ''read_write'' then Some ''read_write'' else if best = None then Some ''read'' else best)"

text \<open>The active memberships of the two projects, without the state of the projects, which is checked before.\<close>

definition foreign_access :: "foreign_writer \<Rightarrow> string \<Rightarrow> string \<Rightarrow> wiki \<Rightarrow> string option" where
  "foreign_access fw pid i wk =
     (let rows = filter (\<lambda>m. (tm_project_id m = pid \<or> tm_project_id m = fw_caller_project_id fw) \<and> tm_revoked_at m = None) (wk_members wk);
          caller_levels = rev (map (\<lambda>m. (tm_tag_id m, tm_access_level m)) (filter (\<lambda>m. tm_project_id m = fw_caller_project_id fw) rows));
          owner_tags = map tm_tag_id (filter (\<lambda>m. tm_project_id m \<noteq> fw_caller_project_id fw) rows) in
      fold (better_level caller_levels owner_tags) (map snd (filter (\<lambda>(p, _). p = i) (wk_page_tags wk))) None)"

text \<open>The refusals before the page is read, if any: projects that are gone, then the level of a foreign writer.\<close>

definition access_refusal :: "page_change \<Rightarrow> catalog \<Rightarrow> wiki \<Rightarrow> change_result option" where
  "access_refusal c cat wk =
     (let locked = lock_active_in_tx (pc_project_id c) cat in
      case pc_foreign c of
        None \<Rightarrow> if locked = None then Some (ChangeDone AccessRevoked None) else None
      | Some fw \<Rightarrow>
          if locked = None \<or> \<not> is_active_in_tx (fw_caller_project_id fw) cat then Some (ChangeDone AccessRevoked None)
          else if fw_caller_project_id fw = pc_project_id c then Some ChangePanic
          else
            case foreign_access fw (pc_project_id c) (pc_expected_page_id c) wk of
              None \<Rightarrow> Some (ChangeDone AccessRevoked locked)
            | Some level \<Rightarrow> if level = ''read'' then Some (ChangeDone ReadOnlyMember locked) else None)"

text \<open>What the page becomes: its title, body and the tags to add; or the refusal of the change.\<close>

definition planned_change ::
  "page_change \<Rightarrow> publication_audience list \<Rightarrow> (string \<Rightarrow> body_edit_failure + string) \<Rightarrow> wiki_page \<Rightarrow> string list \<Rightarrow>
   page_change_outcome + string \<times> string \<times> string list" where
  "planned_change c audiences transform page tags =
     (let missing = filter (\<lambda>t. t \<notin> set tags) (pc_remove_tags c) in
      if wp_revision_number page \<noteq> pc_expected_revision c then Inl (RevisionConflict page tags)
      else if (case pc_title c of Some (old, _) \<Rightarrow> old \<noteq> wp_title page | None \<Rightarrow> False) then Inl (TitleMismatch page tags)
      else if missing \<noteq> [] then Inl (TagNotPresent missing page tags)
      else
        case transform (wp_body page) of
          Inl failure \<Rightarrow> Inl (BodyEditFailed failure page tags)
        | Inr new_body \<Rightarrow>
            let new_title = (case pc_title c of Some (_, new) \<Rightarrow> new | None \<Rightarrow> wp_title page);
                added = filter (\<lambda>t. t \<notin> set tags) (ordered_tag_names (pc_add_tags c));
                owed = filter (\<lambda>a. pa_tag_name a \<in> set added) audiences in
            if owed \<noteq> [] then Inl (MustConfirm owed)
            else if added = [] \<and> pc_remove_tags c = [] \<and> new_body = wp_body page \<and> new_title = wp_title page then
              Inl (Unchanged page tags)
            else Inr (new_title, new_body, added))"

definition archived :: "string \<Rightarrow> page_change \<Rightarrow> timestamp \<Rightarrow> wiki_page \<Rightarrow> wiki_revision" where
  "archived rid c now p =
     \<lparr>wr_id = rid, wr_page_id = wp_id p, wr_revision_number = wp_revision_number p, wr_title = wp_title p,
      wr_body = wp_body p, wr_summary = pc_summary c, wr_created_by = pc_updated_by c, wr_created_at = now\<rparr>"

definition revision_exists :: "string \<Rightarrow> string \<Rightarrow> int \<Rightarrow> wiki \<Rightarrow> bool" where
  "revision_exists rid i n wk \<longleftrightarrow>
     list_ex (\<lambda>r. wr_id r = rid \<or> wr_page_id r = i \<and> wr_revision_number r = n) (wk_revisions wk)"

definition store_change :: "string \<Rightarrow> page_change \<Rightarrow> (string \<times> string) list \<Rightarrow> string \<times> string \<times> string list \<Rightarrow> timestamp \<Rightarrow>
   wiki_page \<Rightarrow> wiki \<Rightarrow> scheduler_error + wiki" where
  "store_change rid c held = (\<lambda>(new_title, new_body, added) now page wk.
     if revision_exists rid (wp_id page) (wp_revision_number page) wk then Inl (Database ''archive wiki page revision failed'')
     else if \<exists>t \<in> set added. map_of held t = None then Inl (Database ''tag not held'')
     else
       let wk = wk\<lparr>wk_revisions := wk_revisions wk @ [archived rid c now page]\<rparr>;
           wk = wk\<lparr>wk_pages := sql_update (\<lambda>p. wp_id p = wp_id page \<and> wp_revision_number p = pc_expected_revision c \<and> wp_deleted_at p = None)
             (\<lambda>p. p\<lparr>wp_title := new_title, wp_body := new_body, wp_revision_number := wp_revision_number p + 1,
               wp_updated_by := pc_updated_by c, wp_updated_at := now\<rparr>) (wk_pages wk)\<rparr>;
           wk = fold (\<lambda>t. add_page_tag (wp_id page) (the (map_of held t))) added wk in
       Inr (fold (remove_page_tag (wp_id page)) (pc_remove_tags c) wk))"

definition change_body ::
  "(nat \<Rightarrow> string) \<Rightarrow> string \<Rightarrow> page_change \<Rightarrow> (string \<Rightarrow> body_edit_failure + string) \<Rightarrow> catalog \<Rightarrow> db \<Rightarrow> wiki \<Rightarrow>
   change_result + (wiki_page \<times> string list \<times> string option) \<times> wiki" where
  "change_body new_id rid c transform cat db wk =
     (case materialize_tags_in_tx new_id (pc_add_tags c) wk of
        Inl e \<Rightarrow> Inl (ChangeError e)
      | Inr (held, wk) \<Rightarrow>
          let audiences = (if pc_add_tags c \<noteq> [] \<and> \<not> pc_acknowledge_share c
                then audiences_for_publication (pc_project_id c) (pc_slug c) held cat wk else []);
              locked = lock_active_in_tx (pc_project_id c) cat in
          (case access_refusal c cat wk of
             Some r \<Rightarrow> Inl r
           | None \<Rightarrow>
               (case live_page (\<lambda>p. wp_id p = pc_expected_page_id c \<and> wp_project_id p = pc_project_id c \<and> wp_slug p = pc_slug c) wk of
                  None \<Rightarrow> Inl (ChangeDone PageGone locked)
                | Some page \<Rightarrow>
                    if pc_foreign c \<noteq> None \<and> \<not> cross_project_writes_in_tx db then Inl (ChangeDone CrossProjectWritesDisabled locked)
                    else
                      (case planned_change c audiences transform page (page_tag_names_in_tx (wp_id page) wk) of
                         Inl out \<Rightarrow> Inl (ChangeDone out locked)
                       | Inr plan \<Rightarrow>
                           (case store_change rid c held plan (clock db) page wk of
                              Inl e \<Rightarrow> Inl (ChangeError e)
                            | Inr wk \<Rightarrow>
                                (case page_with_tags_by_id_in_tx (wp_id page) wk of
                                   None \<Rightarrow> Inl (ChangeError (Database ''updated page vanished''))
                                 | Some (new, tags) \<Rightarrow>
                                     if (case pc_updated_by c of None \<Rightarrow> False | Some s \<Rightarrow> \<not> is_live_in_tx s db)
                                     then Inl (ChangeDone PrincipalGone locked)
                                     else Inr ((new, tags, locked), wk)))))))"

definition apply_page_change ::
  "(nat \<Rightarrow> string) \<Rightarrow> string \<Rightarrow> page_change \<Rightarrow> (string \<Rightarrow> body_edit_failure + string) \<Rightarrow> catalog \<Rightarrow> db \<Rightarrow> wiki \<Rightarrow>
   change_result \<times> wiki" where
  "apply_page_change new_id rid c transform cat db wk =
     (case change_body new_id rid c transform cat db wk of
        Inl r \<Rightarrow> (r, wk)
      | Inr ((page, tags, locked), wk') \<Rightarrow> (ChangeDone (Updated page tags) locked, wk'))"

section \<open>Subscriptions\<close>

text \<open>The primary key and the two partial unique indices; the \<open>CHECK\<close> wants exactly one target. A row that violates any is ignored.\<close>

definition insert_subscription :: "wiki_subscription \<Rightarrow> wiki \<Rightarrow> bool \<times> wiki" where
  "insert_subscription s wk =
     (if list_ex (\<lambda>r. ws_id r = ws_id s \<or> ws_project_id r = ws_project_id s \<and> ws_subscriber r = ws_subscriber s \<and>
          (ws_page_slug s \<noteq> None \<and> ws_page_slug r = ws_page_slug s \<or> ws_tag_name s \<noteq> None \<and> ws_tag_name r = ws_tag_name s))
          (wk_subscriptions wk) \<or> (ws_page_slug s = None) = (ws_tag_name s = None) then (False, wk)
      else (True, wk\<lparr>wk_subscriptions := wk_subscriptions wk @ [s]\<rparr>))"

definition create_subscription ::
  "string \<Rightarrow> string \<Rightarrow> string \<Rightarrow> string option \<Rightarrow> string option \<Rightarrow> string option \<Rightarrow> catalog \<Rightarrow> db \<Rightarrow> wiki \<Rightarrow>
   (scheduler_error + wiki_subscription \<times> bool) \<times> wiki" where
  "create_subscription i pid subscriber page_slug tag sid cat db wk =
     (if lock_active_in_tx pid cat = None then (Inl (NotFound (''project not found: '' @ pid)), wk)
      else
        case insert_subscription \<lparr>ws_id = i, ws_project_id = pid, ws_subscriber = subscriber, ws_page_slug = page_slug,
            ws_tag_name = tag, ws_created_at = clock db\<rparr> wk of
          (was_created, wk') \<Rightarrow>
            let mine = (\<lambda>s. ws_project_id s = pid \<and> ws_subscriber s = subscriber);
                fetched = (case page_slug of
                  Some slug \<Rightarrow> Some (sql_find (\<lambda>s. mine s \<and> ws_page_slug s = Some slug) (wk_subscriptions wk'))
                | None \<Rightarrow> map_option (\<lambda>t. sql_find (\<lambda>s. mine s \<and> ws_tag_name s = Some t) (wk_subscriptions wk')) tag) in
            (case fetched of
               None \<Rightarrow> (Inl (ValidationFailed ''exactly one of page_slug or tag_name must be provided''), wk)
             | Some None \<Rightarrow> (Inl (Database ''fetch wiki subscription failed''), wk)
             | Some (Some s) \<Rightarrow>
                 if (case sid of None \<Rightarrow> False | Some t \<Rightarrow> \<not> is_live_in_tx t db) then
                   (Inl (UnauthorizedError ''session is not live''), wk)
                 else (Inr (s, was_created), wk')))"

definition delete_subscription :: "string \<Rightarrow> string \<Rightarrow> string option \<Rightarrow> db \<Rightarrow> wiki \<Rightarrow> (scheduler_error + unit) \<times> wiki" where
  "delete_subscription pid i sid db wk =
     (let named = (\<lambda>s. ws_id s = i \<and> ws_project_id s = pid) in
      if sql_count named (wk_subscriptions wk) = 0 then (Inl (NotFound (''subscription not found: '' @ i)), wk)
      else if (case sid of None \<Rightarrow> False | Some t \<Rightarrow> \<not> is_live_in_tx t db) then (Inl (UnauthorizedError ''session is not live''), wk)
      else (Inr (), wk\<lparr>wk_subscriptions := sql_delete named (wk_subscriptions wk)\<rparr>))"

definition list_subscriptions_in_tx :: "string \<Rightarrow> string \<Rightarrow> wiki \<Rightarrow> wiki_subscription list" where
  "list_subscriptions_in_tx pid subscriber wk =
     sort_key ws_created_at (filter (\<lambda>s. ws_project_id s = pid \<and> ws_subscriber s = subscriber) (wk_subscriptions wk))"

section \<open>Lists over several projects\<close>

definition newest_first :: "('a \<Rightarrow> timestamp) \<Rightarrow> 'a list \<Rightarrow> 'a list" where
  "newest_first f = sort_key (\<lambda>x. - f x)"

record page_summary =
  ps_page_id :: string
  ps_project_id :: string
  ps_slug :: string
  ps_title :: string
  ps_revision_number :: int
  ps_updated_by :: "string option"
  ps_updated_at :: timestamp

text \<open>The columns that a list selects (\<open>parse_page_summary_row\<close>): neither the body nor who created the page when.\<close>

definition page_summary_of :: "wiki_page \<Rightarrow> page_summary" where
  "page_summary_of p =
     \<lparr>ps_page_id = wp_id p, ps_project_id = wp_project_id p, ps_slug = wp_slug p, ps_title = wp_title p,
      ps_revision_number = wp_revision_number p, ps_updated_by = wp_updated_by p, ps_updated_at = wp_updated_at p\<rparr>"

definition list_pages_in_projects_in_tx :: "string list \<Rightarrow> wiki \<Rightarrow> page_summary list" where
  "list_pages_in_projects_in_tx pids wk =
     map page_summary_of
       (newest_first wp_updated_at (filter (\<lambda>p. wp_project_id p \<in> set pids \<and> wp_deleted_at p = None) (wk_pages wk)))"

text \<open>The names by page id: the rows in the order of the names, which each page's list keeps.\<close>

definition page_tags_in_projects_in_tx :: "string list \<Rightarrow> wiki \<Rightarrow> (string \<times> string) list" where
  "page_tags_in_projects_in_tx pids wk =
     sort_key snd [(i, wt_name t). (i, tid) \<leftarrow> wk_page_tags wk, t \<leftarrow> wk_tags wk, wt_id t = tid,
       p \<leftarrow> wk_pages wk, wp_id p = i \<and> wp_project_id p \<in> set pids \<and> wp_deleted_at p = None]"

record change_summary =
  cs_page_id :: string
  cs_project_id :: string
  cs_slug :: string
  cs_title :: string
  cs_revision_number :: int
  cs_summary :: "string option"
  cs_created_by :: "string option"
  cs_created_at :: timestamp

definition change_summary_of :: "wiki_page \<Rightarrow> wiki_revision \<Rightarrow> change_summary" where
  "change_summary_of p r =
     \<lparr>cs_page_id = wp_id p, cs_project_id = wp_project_id p, cs_slug = wp_slug p, cs_title = wr_title r,
      cs_revision_number = wr_revision_number r, cs_summary = wr_summary r, cs_created_by = wr_created_by r, cs_created_at = wr_created_at r\<rparr>"

definition list_changes_in_projects_in_tx ::
  "string list \<Rightarrow> timestamp option \<Rightarrow> string option \<Rightarrow> db \<Rightarrow> wiki \<Rightarrow> change_summary list" where
  "list_changes_in_projects_in_tx pids since execution_id db wk =
     newest_first cs_created_at (sort_key (\<lambda>c. - cs_revision_number c)
       [change_summary_of p r. r \<leftarrow> wk_revisions wk,
         (case since of None \<Rightarrow> True | Some t \<Rightarrow> t \<le> wr_created_at r) \<and>
         (case execution_id of None \<Rightarrow> True | Some x \<Rightarrow>
            (case wr_created_by r of None \<Rightarrow> False | Some i \<Rightarrow> list_ex (\<lambda>s. s_id s = i \<and> s_execution_id s = x) (sessions db))),
         p \<leftarrow> wk_pages wk, wp_id p = wr_page_id r \<and> wp_project_id p \<in> set pids \<and> wp_deleted_at p = None])"

definition export_pages_in_tx :: "string \<Rightarrow> wiki \<Rightarrow> (string \<times> string \<times> string) list" where
  "export_pages_in_tx pid wk =
     map (\<lambda>p. (wp_slug p, wp_title p, wp_body p))
       (sort_key wp_slug (filter (\<lambda>p. wp_project_id p = pid \<and> wp_deleted_at p = None) (wk_pages wk)))"

text \<open>\<open>ORDER BY p.project_id, p.slug\<close>.\<close>

definition pages_carrying_tag_in_tx :: "string \<Rightarrow> string list \<Rightarrow> wiki \<Rightarrow> (string \<times> string \<times> string \<times> string) list" where
  "pages_carrying_tag_in_tx tid pids wk =
     sort_key (\<lambda>(_, pid, _, _). pid) (sort_key (\<lambda>(_, _, slug, _). slug)
       [(wp_id p, wp_project_id p, wp_slug p, wp_title p).
         p \<leftarrow> wk_pages wk, wp_project_id p \<in> set pids \<and> wp_deleted_at p = None,
         (i, t) \<leftarrow> wk_page_tags wk, i = wp_id p \<and> t = tid])"

definition reachable_page_ids_in_tx :: "string \<Rightarrow> string \<Rightarrow> bool \<Rightarrow> catalog \<Rightarrow> wiki \<Rightarrow> string list" where
  "reachable_page_ids_in_tx pid exclude_tag_id write_only cat wk =
     remdups [wp_id p.
       mine \<leftarrow> wk_members wk, tm_project_id mine = pid \<and> tm_revoked_at mine = None \<and> tm_tag_id mine \<noteq> exclude_tag_id \<and>
         (write_only \<longrightarrow> tm_access_level mine = ''read_write'') \<and> is_active_in_tx pid cat,
       theirs \<leftarrow> wk_members wk, tm_tag_id theirs = tm_tag_id mine \<and> tm_project_id theirs \<noteq> pid \<and> tm_revoked_at theirs = None \<and>
         is_active_in_tx (tm_project_id theirs) cat,
       (i, t) \<leftarrow> wk_page_tags wk, t = tm_tag_id mine,
       p \<leftarrow> wk_pages wk, wp_id p = i \<and> wp_project_id p = tm_project_id theirs \<and> wp_deleted_at p = None]"

end
