(* ===== verification/Wiki_Edits.thy ===== *)
theory Wiki_Edits
  imports Wiki_Pages
begin

text \<open>
  The parts of \<open>scheduler/src/api/wiki.rs\<close> that touch no table: edits of a body, slugs, tags and titles
  of a request. \<open>to_lowercase\<close> is an argument.
\<close>

section \<open>Edits\<close>

record patch_edit =
  ed_old_string :: string
  ed_new_string :: string
  ed_replace_all :: bool

definition MAX_EDITS :: nat where "MAX_EDITS = 50"

text \<open>\<open>str::find\<close>: where the first occurrence starts.\<close>

fun find_sub :: "string \<Rightarrow> string \<Rightarrow> nat option" where
  "find_sub needle [] = (if needle = [] then Some 0 else None)"
| "find_sub needle (c # s) =
     (if take (length needle) (c # s) = needle then Some 0 else map_option Suc (find_sub needle s))"

text \<open>\<open>str::replace\<close>: every occurrence, from the left and without overlaps; an empty pattern matches at every character.\<close>

function replace_sub :: "string \<Rightarrow> string \<Rightarrow> string \<Rightarrow> string" where
  "replace_sub old new s =
     (if s = [] \<or> old = [] then s
      else if take (length old) s = old then new @ replace_sub old new (drop (length old) s)
      else hd s # replace_sub old new (tl s))"
  by auto
termination
  by (relation "measure (\<lambda>(_, _, s). length s)") auto

declare replace_sub.simps [simp del]

definition replace_all_in :: "string \<Rightarrow> string \<Rightarrow> string \<Rightarrow> string" where
  "replace_all_in old new s =
     (if old = [] then concat (map (\<lambda>c. new @ c) (utf8_chars s)) @ new else replace_sub old new s)"

definition apply_edit :: "patch_edit \<Rightarrow> string \<Rightarrow> body_edit_reason + string" where
  "apply_edit edit current =
     (case find_sub (ed_old_string edit) current of
        None \<Rightarrow> Inl EditNotFound
      | Some pos \<Rightarrow>
          if ed_replace_all edit then Inr (replace_all_in (ed_old_string edit) (ed_new_string edit) current)
          else if pos + 1 \<le> length current \<and> find_sub (ed_old_string edit) (drop (pos + 1) current) \<noteq> None then
            Inl MultipleMatches
          else Inr (take pos current @ ed_new_string edit @ drop (pos + length (ed_old_string edit)) current))"

fun edit_loop :: "nat \<Rightarrow> patch_edit list \<Rightarrow> string \<Rightarrow> body_edit_failure + string" where
  "edit_loop i [] current = Inr current"
| "edit_loop i (edit # edits) current =
     (case apply_edit edit current of
        Inl reason \<Rightarrow> Inl \<lparr>be_index = Some i, be_reason = reason\<rparr>
      | Inr current \<Rightarrow> edit_loop (i + 1) edits current)"

definition apply_edits :: "patch_edit list \<Rightarrow> string \<Rightarrow> body_edit_failure + string" where
  "apply_edits edits body =
     (case edit_loop 0 edits body of
        Inl failure \<Rightarrow> Inl failure
      | Inr current \<Rightarrow> if current = [] then Inl \<lparr>be_index = None, be_reason = EmptyResult\<rparr> else Inr current)"

section \<open>Slugs, tags and titles of a request\<close>

text \<open>\<open>^[a-z0-9]+(?:-[a-z0-9]+)*$\<close>.\<close>

definition slug_char :: "char \<Rightarrow> bool" where
  "slug_char c \<longleftrightarrow> (let n = (of_char c :: nat) in 97 \<le> n \<and> n \<le> 122 \<or> 48 \<le> n \<and> n \<le> 57)"

definition slug_shaped :: "string \<Rightarrow> bool" where
  "slug_shaped s \<longleftrightarrow> list_all (\<lambda>piece. piece \<noteq> [] \<and> list_all slug_char piece) (split_on (CHR ''-'') s)"

definition validate_slug :: "(string \<Rightarrow> string) \<Rightarrow> string \<Rightarrow> scheduler_error + string" where
  "validate_slug lower slug =
     (let normalized = lower (trim slug) in
      if normalized = [] \<or> 200 < length normalized then Inl (ValidationFailed ''slug must be 1-200 characters'')
      else if \<not> slug_shaped normalized then
        Inl (ValidationFailed ''slug must contain only lowercase letters, numbers, and hyphens (no leading/trailing/consecutive hyphens)'')
      else Inr normalized)"

definition normalize_slug :: "(string \<Rightarrow> string) \<Rightarrow> string \<Rightarrow> string" where
  "normalize_slug lower slug = lower (trim slug)"

text \<open>Each name at its first occurrence.\<close>

fun tag_loop :: "string list \<Rightarrow> string list \<Rightarrow> scheduler_error + string list" where
  "tag_loop out [] = Inr out"
| "tag_loop out (tag # tags) =
     (let trimmed = trim tag in
      if trimmed = [] then Inl (ValidationFailed ''tag names must not be empty'')
      else tag_loop (if trimmed \<in> set out then out else out @ [trimmed]) tags)"

definition normalize_tags :: "string list option \<Rightarrow> scheduler_error + string list" where
  "normalize_tags tags = (case tags of None \<Rightarrow> Inr [] | Some ts \<Rightarrow> tag_loop [] ts)"

record patch_title =
  pt_old :: string
  pt_new :: string

definition parse_title :: "patch_title option \<Rightarrow> scheduler_error + (string \<times> string) option" where
  "parse_title value =
     (case value of
        None \<Rightarrow> Inr None
      | Some t \<Rightarrow>
          if trim (pt_old t) = [] \<or> trim (pt_new t) = [] then
            Inl (ValidationFailed ''title requires non-empty \"old\" and \"new\"'')
          else Inr (Some (pt_old t, trim (pt_new t))))"

end
