(* ===== verification/Wiki_Api.thy ===== *)
theory Wiki_Api
  imports Wiki_Edits
begin

text \<open>
  Who may read and write which page (\<open>scheduler/src/api/wiki_auth.rs\<close>) and the routes of the wiki
  (\<open>api/wiki.rs\<close>).

  A request reads the database several times: \<open>pre\<close> is what it sees when it resolves the project and the
  caller, \<open>snap\<close> the snapshot it answers or decides from, \<open>w\<close> what a write finds. The formatting of
  timestamps is left out: replies hold the rows. The search index, which is updated after a commit and
  never read by these routes, is left out too.
\<close>

record wiki_world =
  ww_db :: db
  ww_cat :: catalog
  ww_wiki :: wiki

text \<open>\<open>to_lowercase\<close>, the reading of a timestamp, and the random identifiers.\<close>

record wiki_env =
  we_lower :: "string \<Rightarrow> string"
  we_timestamp :: "string \<Rightarrow> timestamp option"
  we_new_id :: string
  we_tag_id :: "nat \<Rightarrow> string"

section \<open>Callers\<close>

record caller =
  ca_session_id :: "string option"
  ca_project_id :: string

definition owns :: "caller \<Rightarrow> string \<Rightarrow> bool" where
  "owns c pid \<longleftrightarrow> ca_project_id c = pid"

text \<open>\<open>HeaderValue::to_str\<close>: visible ASCII and tabs.\<close>

definition header_text :: "string \<Rightarrow> bool" where
  "header_text h \<longleftrightarrow> list_all (\<lambda>c. let n = (of_char c :: nat) in 32 \<le> n \<and> n < 127 \<or> n = 9) h"

definition resolve_session_principal :: "string option \<Rightarrow> db \<Rightarrow> scheduler_error + (string \<times> string) option" where
  "resolve_session_principal authorization db =
     (let bad_format = Inl (UnauthorizedError ''invalid Authorization format, expected Bearer <token>'') in
      case authorization of
        None \<Rightarrow> Inr None
      | Some h \<Rightarrow>
          if \<not> header_text h then Inl (UnauthorizedError ''invalid Authorization header encoding'')
          else
            (case map_option trim (bearer_token h) of
               None \<Rightarrow> bad_format
             | Some token \<Rightarrow>
                 if token = [] then bad_format
                 else
                   (case (case session_row token db of None \<Rightarrow> None
                       | Some s \<Rightarrow> map_option (Pair s) (execution_row (s_execution_id s) db)) of
                      None \<Rightarrow> Inl (UnauthorizedError ''session not found'')
                    | Some (s, x) \<Rightarrow>
                        if s_desired s = DTerminate \<or> s_outcome s \<noteq> None \<or> x_desired x = DTerminate \<or> x_outcome x \<noteq> None then
                          Inl (UnauthorizedError ''session is not live'')
                        else
                          (case x_project_id x of
                             None \<Rightarrow> Inl (UnauthorizedError ''session is not scoped to a project'')
                           | Some pid \<Rightarrow> Inr (Some (s_id s, pid))))))"

definition resolve_caller :: "string option \<Rightarrow> string \<Rightarrow> db \<Rightarrow> scheduler_error + caller" where
  "resolve_caller authorization target db =
     (case resolve_session_principal authorization db of
        Inl e \<Rightarrow> Inl e
      | Inr (Some (sid, pid)) \<Rightarrow> Inr \<lparr>ca_session_id = Some sid, ca_project_id = pid\<rparr>
      | Inr None \<Rightarrow> Inr \<lparr>ca_session_id = None, ca_project_id = target\<rparr>)"

section \<open>Access\<close>

datatype access = Read | ReadWrite

fun access_str :: "access \<Rightarrow> string" where
  "access_str Read = ACCESS_READ"
| "access_str ReadWrite = ACCESS_READ_WRITE"

record sharing_context =
  sc_caller_project_id :: string
  sc_session_id :: "string option"
  sc_links :: "shared_tag_link list"
  sc_cross_project_writes :: bool
  sc_caller_active :: bool

definition load_sharing :: "caller \<Rightarrow> wiki_world \<Rightarrow> sharing_context" where
  "load_sharing c w =
     \<lparr>sc_caller_project_id = ca_project_id c, sc_session_id = ca_session_id c,
      sc_links = shared_links (ca_project_id c) (ww_cat w) (ww_wiki w),
      sc_cross_project_writes = cross_project_writes_in_tx (ww_db w),
      sc_caller_active = (resolve_in_tx (ca_project_id c) (ww_cat w) \<noteq> None)\<rparr>"

definition in_snapshot :: "sharing_context \<Rightarrow> wiki_world \<Rightarrow> scheduler_error + sharing_context" where
  "in_snapshot sc w =
     (if (case sc_session_id sc of None \<Rightarrow> False
          | Some sid \<Rightarrow> live_project_in_tx sid (ww_db w) \<noteq> Some (sc_caller_project_id sc)) then
        Inl (UnauthorizedError ''session is not live'')
      else Inr \<lparr>sc_caller_project_id = sc_caller_project_id sc, sc_session_id = sc_session_id sc,
        sc_links = shared_links (sc_caller_project_id sc) (ww_cat w) (ww_wiki w),
        sc_cross_project_writes = cross_project_writes_in_tx (ww_db w),
        sc_caller_active = is_active_in_tx (sc_caller_project_id sc) (ww_cat w)\<rparr>)"

definition reachable_project_ids :: "sharing_context \<Rightarrow> string list" where
  "reachable_project_ids sc =
     (if \<not> sc_caller_active sc then []
      else fold (\<lambda>l ids. if sl_owner_project_id l \<in> set ids then ids else ids @ [sl_owner_project_id l]) (sc_links sc)
        [sc_caller_project_id sc])"

text \<open>The first link that allows writing decides.\<close>

fun access_loop :: "bool \<Rightarrow> string \<Rightarrow> string list \<Rightarrow> shared_tag_link list \<Rightarrow> access option \<Rightarrow> access option" where
  "access_loop writes pid tags [] a = a"
| "access_loop writes pid tags (l # ls) a =
     (if sl_owner_project_id l \<noteq> pid \<or> sl_tag_name l \<notin> set tags then access_loop writes pid tags ls a
      else if sl_access_level l = ACCESS_READ_WRITE \<and> writes then Some ReadWrite
      else access_loop writes pid tags ls (Some Read))"

definition access_to :: "sharing_context \<Rightarrow> string \<Rightarrow> string list \<Rightarrow> access option" where
  "access_to sc pid tags =
     (if \<not> sc_caller_active sc then None
      else if pid = sc_caller_project_id sc then Some ReadWrite
      else access_loop (sc_cross_project_writes sc) pid tags (sc_links sc) None)"

section \<open>Reading\<close>

definition page_not_found :: scheduler_error where
  "page_not_found = NotFound PAGE_NOT_FOUND_MESSAGE"

record resolved_page =
  rp_page :: wiki_page
  rp_tags :: "string list"
  rp_access :: access
  rp_project_slug :: string

definition load_readable_page :: "sharing_context \<Rightarrow> string \<Rightarrow> string \<Rightarrow> wiki_world \<Rightarrow> scheduler_error + resolved_page" where
  "load_readable_page sc pid slug snap =
     (case page_with_tags_in_tx pid slug (ww_wiki snap) of
        None \<Rightarrow> Inl page_not_found
      | Some (page, tags) \<Rightarrow>
          (case in_snapshot sc snap of
             Inl e \<Rightarrow> Inl e
           | Inr now \<Rightarrow>
               (case access_to now (wp_project_id page) tags of
                  None \<Rightarrow> Inl page_not_found
                | Some a \<Rightarrow> Inr \<lparr>rp_page = page, rp_tags = tags, rp_access = a,
                    rp_project_slug = slug_label (ww_cat snap) (wp_project_id page)\<rparr>)))"

record visible_page =
  vp_page_id :: string
  vp_project_id :: string
  vp_slug :: string
  vp_title :: string
  vp_revision_number :: int
  vp_updated_by :: "string option"
  vp_updated_at :: timestamp
  vp_tags :: "string list"
  vp_access :: access

definition visible_pages_in_tx :: "sharing_context \<Rightarrow> wiki \<Rightarrow> visible_page list" where
  "visible_pages_in_tx sc wk =
     (let pids = reachable_project_ids sc;
          tags = page_tags_in_projects_in_tx pids wk in
      List.map_filter (\<lambda>p.
        let names = map snd (filter (\<lambda>(i, _). i = ps_page_id p) tags) in
        map_option (\<lambda>a. \<lparr>vp_page_id = ps_page_id p, vp_project_id = ps_project_id p, vp_slug = ps_slug p,
            vp_title = ps_title p, vp_revision_number = ps_revision_number p, vp_updated_by = ps_updated_by p,
            vp_updated_at = ps_updated_at p, vp_tags = names, vp_access = a\<rparr>)
          (access_to sc (ps_project_id p) names))
        (list_pages_in_projects_in_tx pids wk))"

text \<open>A page as it is answered: with the slug of its project, its tags and, to a reader, the access.\<close>

record page_response =
  pr_page :: wiki_page
  pr_project_slug :: string
  pr_tags :: "string list"
  pr_access :: "access option"

definition resolved_response :: "resolved_page \<Rightarrow> page_response" where
  "resolved_response r = \<lparr>pr_page = rp_page r, pr_project_slug = rp_project_slug r, pr_tags = rp_tags r, pr_access = Some (rp_access r)\<rparr>"

definition get_page :: "wiki_env \<Rightarrow> string option \<Rightarrow> string \<Rightarrow> string \<Rightarrow> wiki_world \<Rightarrow> wiki_world \<Rightarrow> scheduler_error + page_response" where
  "get_page env authorization project_id slug pre snap =
     (case resolve_project project_id (ww_cat pre) of
        Inl e \<Rightarrow> Inl e
      | Inr project \<Rightarrow>
          (case resolve_caller authorization (p_id project) (ww_db pre) of
             Inl e \<Rightarrow> Inl e
           | Inr c \<Rightarrow>
               (case load_readable_page (load_sharing c pre) (p_id project) (normalize_slug (we_lower env) slug) snap of
                  Inl e \<Rightarrow> Inl e
                | Inr r \<Rightarrow> Inr (resolved_response r))))"

text \<open>A list is refused to a caller that does not own the project it is asked of.\<close>

datatype 'a listing = Items "'a list" | Denied string

definition ERR_CROSS_PROJECT_COLLECTION :: string where "ERR_CROSS_PROJECT_COLLECTION = ''cross_project_collection''"
definition ERR_CROSS_PROJECT_CREATE :: string where "ERR_CROSS_PROJECT_CREATE = ''cross_project_create''"
definition ERR_READ_ONLY_MEMBER :: string where "ERR_READ_ONLY_MEMBER = ''read_only_member''"
definition ERR_NOT_PAGE_OWNER :: string where "ERR_NOT_PAGE_OWNER = ''not_page_owner''"
definition ERR_CROSS_PROJECT_WRITES_DISABLED :: string where "ERR_CROSS_PROJECT_WRITES_DISABLED = ''cross_project_writes_disabled''"

text \<open>What every route on a collection begins with: its project, which the caller must own.\<close>

definition owned_project :: "string option \<Rightarrow> string \<Rightarrow> wiki_world \<Rightarrow> scheduler_error + (project \<times> caller) option" where
  "owned_project authorization project_id pre =
     (case resolve_project project_id (ww_cat pre) of
        Inl e \<Rightarrow> Inl e
      | Inr project \<Rightarrow>
          (case resolve_caller authorization (p_id project) (ww_db pre) of
             Inl e \<Rightarrow> Inl e
           | Inr c \<Rightarrow> Inr (if owns c (p_id project) then Some (project, c) else None)))"

text \<open>A list: after the route's own \<open>check\<close>, the sharing is read again in the snapshot.\<close>

definition collection ::
  "string option \<Rightarrow> string \<Rightarrow> scheduler_error option \<Rightarrow> wiki_world \<Rightarrow> wiki_world \<Rightarrow>
   (project \<Rightarrow> caller \<Rightarrow> sharing_context \<Rightarrow> 'a list) \<Rightarrow> scheduler_error + 'a listing" where
  "collection authorization project_id check pre snap answer =
     (case owned_project authorization project_id pre of
        Inl e \<Rightarrow> Inl e
      | Inr None \<Rightarrow> Inr (Denied ERR_CROSS_PROJECT_COLLECTION)
      | Inr (Some (project, c)) \<Rightarrow>
          (case check of
             Some e \<Rightarrow> Inl e
           | None \<Rightarrow> map_sum id (\<lambda>sc. Items (answer project c sc)) (in_snapshot (load_sharing c pre) snap)))"

record page_list_item =
  li_page_id :: string
  li_project_id :: string
  li_project_slug :: string
  li_slug :: string
  li_title :: string
  li_revision_number :: int
  li_updated_by :: "string option"
  li_updated_at :: timestamp
  li_tags :: "string list"
  li_access :: string

definition listed_page :: "catalog \<Rightarrow> visible_page \<Rightarrow> page_list_item" where
  "listed_page cat v =
     \<lparr>li_page_id = vp_page_id v, li_project_id = vp_project_id v, li_project_slug = slug_label cat (vp_project_id v),
      li_slug = vp_slug v, li_title = vp_title v, li_revision_number = vp_revision_number v,
      li_updated_by = vp_updated_by v, li_updated_at = vp_updated_at v, li_tags = vp_tags v, li_access = access_str (vp_access v)\<rparr>"

definition list_pages :: "string option \<Rightarrow> string \<Rightarrow> wiki_world \<Rightarrow> wiki_world \<Rightarrow> scheduler_error + page_list_item listing" where
  "list_pages authorization project_id pre snap =
     collection authorization project_id None pre snap
       (\<lambda>_ _ sc. map (listed_page (ww_cat snap)) (visible_pages_in_tx sc (ww_wiki snap)))"

definition list_revisions ::
  "wiki_env \<Rightarrow> string option \<Rightarrow> string \<Rightarrow> string \<Rightarrow> wiki_world \<Rightarrow> wiki_world \<Rightarrow> scheduler_error + wiki_revision list" where
  "list_revisions env authorization project_id slug pre snap =
     map_sum id (\<lambda>r. list_revisions_in_tx (wp_id (pr_page r)) (ww_wiki snap)) (get_page env authorization project_id slug pre snap)"

definition get_revision ::
  "wiki_env \<Rightarrow> string option \<Rightarrow> string \<Rightarrow> string \<Rightarrow> int \<Rightarrow> wiki_world \<Rightarrow> wiki_world \<Rightarrow> scheduler_error + wiki_revision" where
  "get_revision env authorization project_id slug n pre snap =
     (case get_page env authorization project_id slug pre snap of
        Inl e \<Rightarrow> Inl e
      | Inr r \<Rightarrow> ok_or (NotFound (''wiki revision not found: '' @ int_dec n))
          (get_revision_in_tx (wp_id (pr_page r)) n (ww_wiki snap)))"

record tag_response =
  tr_name :: string
  tr_tag_id :: string
  tr_shared :: bool
  tr_page_count :: nat

definition list_tags :: "string option \<Rightarrow> string \<Rightarrow> wiki_world \<Rightarrow> wiki_world \<Rightarrow> scheduler_error + tag_response listing" where
  "list_tags authorization project_id pre snap =
     collection authorization project_id None pre snap (\<lambda>_ c sc.
       let used = concat (map vp_tags (visible_pages_in_tx sc (ww_wiki snap)));
           shared = map (\<lambda>(_, name, _). name) (memberships_of_in_tx (ca_project_id c) (ww_cat snap) (ww_wiki snap)) in
       map (\<lambda>name. \<lparr>tr_name = name,
           tr_tag_id = (case map_of (tag_ids_by_name_in_tx (ww_wiki snap)) name of Some i \<Rightarrow> i | None \<Rightarrow> []),
           tr_shared = (name \<in> set shared), tr_page_count = length (filter ((=) name) used)\<rparr>)
         (sort (remdups (used @ shared))))"

definition list_subscriptions ::
  "string option \<Rightarrow> string \<Rightarrow> string \<Rightarrow> wiki_world \<Rightarrow> wiki_world \<Rightarrow> scheduler_error + wiki_subscription listing" where
  "list_subscriptions authorization project_id subscriber pre snap =
     collection authorization project_id None pre snap
       (\<lambda>project _ _. list_subscriptions_in_tx (p_id project) subscriber (ww_wiki snap))"

record change_response =
  cr_change :: change_summary
  cr_project_slug :: string

definition change_limit :: "int option \<Rightarrow> nat" where
  "change_limit limit = nat (min 1000 (max 0 (case limit of None \<Rightarrow> 100 | Some n \<Rightarrow> n)))"

definition list_changes ::
  "wiki_env \<Rightarrow> string option \<Rightarrow> string \<Rightarrow> string option \<Rightarrow> string option \<Rightarrow> int option \<Rightarrow> wiki_world \<Rightarrow> wiki_world \<Rightarrow>
   scheduler_error + change_response listing" where
  "list_changes env authorization project_id since execution_id limit pre snap =
     (let bad_since = Option.bind since (\<lambda>t. if we_timestamp env t = None
            then Some (ValidationFailed (''invalid RFC3339 timestamp for 'since': '' @ t)) else None) in
      collection authorization project_id bad_since pre snap (\<lambda>_ _ sc.
        let visible = map vp_page_id (visible_pages_in_tx sc (ww_wiki snap)) in
        map (\<lambda>c. \<lparr>cr_change = c, cr_project_slug = slug_label (ww_cat snap) (cs_project_id c)\<rparr>)
          (take (change_limit limit) (filter (\<lambda>c. cs_page_id c \<in> set visible)
            (list_changes_in_projects_in_tx (reachable_project_ids sc) (Option.bind since (we_timestamp env)) execution_id
              (ww_db snap) (ww_wiki snap))))))"

definition export_pages ::
  "string option \<Rightarrow> string \<Rightarrow> wiki_world \<Rightarrow> wiki_world \<Rightarrow> scheduler_error + (string \<times> string \<times> string) listing" where
  "export_pages authorization project_id pre snap =
     collection authorization project_id None pre snap (\<lambda>project _ _. export_pages_in_tx (p_id project) (ww_wiki snap))"

section \<open>Writing\<close>

text \<open>A tag and whom it would publish to, as the confirmation shows it.\<close>

record publication =
  pb_tag :: string
  pb_shares_with :: "(string \<times> string) list"
  pb_slug_conflicts :: "(string \<times> string) list"

definition publication_confirmation :: "publication_audience list \<Rightarrow> string \<Rightarrow> publication list" where
  "publication_confirmation audiences page_slug =
     map (\<lambda>a. \<lparr>pb_tag = pa_tag_name a, pb_shares_with = map (\<lambda>(_, slug, level). (slug, level)) (pa_members a),
       pb_slug_conflicts = sort_key fst (map (\<lambda>(_, project_slug). (project_slug, page_slug)) (pa_slug_conflicts a))\<rparr>) audiences"

text \<open>
  The replies to a write: the page with 200 or 201; a refusal with 403; the confirmation asked for with 409; and
  the page as it stands, with 409 or 422, an error code and further members.
\<close>

datatype page_reply =
    PageOk nat page_response
  | PageDenied string
  | PageConfirm "publication list"
  | PageCurrent nat string "(string \<times> json) list" page_response

definition plain_response :: "wiki_page \<Rightarrow> string \<Rightarrow> string list \<Rightarrow> page_response" where
  "plain_response page project_slug tags = \<lparr>pr_page = page, pr_project_slug = project_slug, pr_tags = tags, pr_access = None\<rparr>"

record put_page_request =
  pp_title :: string
  pp_body :: string
  pp_tags :: "string list option"
  pp_acknowledge_share :: "bool option"

definition put_page ::
  "wiki_env \<Rightarrow> string option \<Rightarrow> string \<Rightarrow> string \<Rightarrow> string + put_page_request \<Rightarrow> wiki_world \<Rightarrow> wiki_world \<Rightarrow> wiki_world \<Rightarrow>
   (scheduler_error + page_reply) \<times> wiki" where
  "put_page env authorization project_id raw_slug body pre w post =
     (let fail = (\<lambda>e. (Inl e, ww_wiki w)) in
      case resolve_project project_id (ww_cat pre) of
        Inl e \<Rightarrow> fail e
      | Inr project \<Rightarrow>
      case validate_slug (we_lower env) raw_slug of
        Inl e \<Rightarrow> fail e
      | Inr slug \<Rightarrow>
      case resolve_caller authorization (p_id project) (ww_db pre) of
        Inl e \<Rightarrow> fail e
      | Inr c \<Rightarrow>
      if \<not> owns c (p_id project) then (Inr (PageDenied ERR_CROSS_PROJECT_CREATE), ww_wiki w)
      else
      case body of
        Inl m \<Rightarrow> fail (ValidationFailed m)
      | Inr req \<Rightarrow>
      if trim (pp_title req) = [] then fail (ValidationFailed ''title must not be empty'')
      else if pp_body req = [] then fail (ValidationFailed ''body must not be empty'')
      else
      case normalize_tags (pp_tags req) of
        Inl e \<Rightarrow> fail e
      | Inr tags \<Rightarrow>
      case create_page (we_tag_id env) (we_new_id env) (p_id project) slug (trim (pp_title req)) (pp_body req) (ca_session_id c)
          (Some tags) (pp_acknowledge_share req = Some True) (ww_cat w) (ww_db w) (ww_wiki w) of
        (Inr (NeedsConfirmation audiences), wk) \<Rightarrow> (Inr (PageConfirm (publication_confirmation audiences slug)), wk)
      | (Inr (Created page names project_slug), wk) \<Rightarrow> (Inr (PageOk 201 (plain_response page project_slug names)), wk)
      | (Inl (Conflict _), wk) \<Rightarrow>
          (case get_page_by_slug (p_id project) slug (ww_wiki post) of
             Inl e \<Rightarrow> (Inl e, wk)
           | Inr current \<Rightarrow> (Inr (PageCurrent 409 ''slug_exists'' []
               (plain_response current (p_slug project) (page_tag_names_in_tx (wp_id current) (ww_wiki post)))), wk))
      | (Inl e, wk) \<Rightarrow> (Inl e, wk))"

record patch_page_request =
  pq_revision_number :: int
  pq_edits :: "patch_edit list option"
  pq_title :: "patch_title option"
  pq_add_tags :: "string list option"
  pq_remove_tags :: "string list option"
  pq_acknowledge_share :: "bool option"
  pq_summary :: "string option"

record checked_patch =
  ck_edits :: "patch_edit list"
  ck_title :: "(string \<times> string) option"
  ck_add_tags :: "string list"
  ck_remove_tags :: "string list"

fun empty_old_string :: "nat \<Rightarrow> patch_edit list \<Rightarrow> nat option" where
  "empty_old_string i [] = None"
| "empty_old_string i (edit # edits) = (if ed_old_string edit = [] then Some i else empty_old_string (i + 1) edits)"

definition check_patch :: "patch_page_request \<Rightarrow> scheduler_error + checked_patch" where
  "check_patch req =
     (if pq_revision_number req < 1 then Inl (ValidationFailed ''revision_number must be >= 1'')
      else
      let edits = (case pq_edits req of None \<Rightarrow> [] | Some es \<Rightarrow> es) in
      case parse_title (pq_title req) of
        Inl e \<Rightarrow> Inl e
      | Inr title \<Rightarrow>
      case normalize_tags (pq_add_tags req) of
        Inl e \<Rightarrow> Inl e
      | Inr add_tags \<Rightarrow>
      case normalize_tags (pq_remove_tags req) of
        Inl e \<Rightarrow> Inl e
      | Inr remove_tags \<Rightarrow>
      let overlap = filter (\<lambda>t. t \<in> set remove_tags) add_tags in
      if overlap \<noteq> [] then Inl (ValidationFailed (''tags must not appear in both add_tags and remove_tags: '' @ join '', '' overlap))
      else if edits = [] \<and> title = None \<and> add_tags = [] \<and> remove_tags = [] then
        Inl (ValidationFailed ''patch requires edits, title, add_tags or remove_tags'')
      else if MAX_EDITS < length edits then
        Inl (ValidationFailed (''edits must contain at most '' @ nat_dec MAX_EDITS @ '' items''))
      else
      case empty_old_string 0 edits of
        Some i \<Rightarrow> Inl (ValidationFailed (''edits['' @ nat_dec i @ ''].old_string must not be empty''))
      | None \<Rightarrow> Inr \<lparr>ck_edits = edits, ck_title = title, ck_add_tags = add_tags, ck_remove_tags = remove_tags\<rparr>)"

definition reason_json :: "body_edit_failure \<Rightarrow> (string \<times> json) list" where
  "reason_json f = (''reason'', JStr (body_edit_reason_str (be_reason f))) #
     (case be_index f of None \<Rightarrow> [] | Some i \<Rightarrow> [(''edit_index'', jint (int i))])"

text \<open>How the outcome of a change is answered.\<close>

fun change_reply :: "string \<Rightarrow> string \<Rightarrow> page_change_outcome \<Rightarrow> scheduler_error + page_reply" where
  "change_reply ps slug (Updated page tags) = Inr (PageOk 200 (plain_response page ps tags))"
| "change_reply ps slug (Unchanged page tags) = Inr (PageOk 200 (plain_response page ps tags))"
| "change_reply ps slug (RevisionConflict page tags) = Inr (PageCurrent 409 ''revision_conflict'' [] (plain_response page ps tags))"
| "change_reply ps slug (TitleMismatch page tags) = Inr (PageCurrent 422 ''title_mismatch'' [] (plain_response page ps tags))"
| "change_reply ps slug (TagNotPresent missing page tags) =
     Inr (PageCurrent 422 ''tag_not_present'' [(''missing'', JArr (map JStr missing))] (plain_response page ps tags))"
| "change_reply ps slug (BodyEditFailed failure page tags) =
     Inr (PageCurrent 422 ''edit_failed'' (reason_json failure) (plain_response page ps tags))"
| "change_reply ps slug (MustConfirm audiences) = Inr (PageConfirm (publication_confirmation audiences slug))"
| "change_reply ps slug AccessRevoked = Inl page_not_found"
| "change_reply ps slug PageGone = Inl page_not_found"
| "change_reply ps slug ReadOnlyMember = Inr (PageDenied ERR_READ_ONLY_MEMBER)"
| "change_reply ps slug CrossProjectWritesDisabled = Inr (PageDenied ERR_CROSS_PROJECT_WRITES_DISABLED)"
| "change_reply ps slug PrincipalGone = Inl (UnauthorizedError ''session is not live'')"

text \<open>What a caller that does not own the page is refused before the transaction.\<close>

definition foreign_refusal :: "checked_patch \<Rightarrow> sharing_context \<Rightarrow> resolved_page \<Rightarrow> string option" where
  "foreign_refusal ck sc r =
     (if ck_add_tags ck \<noteq> [] \<or> ck_remove_tags ck \<noteq> [] then Some ERR_NOT_PAGE_OWNER
      else if \<not> sc_cross_project_writes sc then Some ERR_CROSS_PROJECT_WRITES_DISABLED
      else if rp_access r \<noteq> ReadWrite then Some ERR_READ_ONLY_MEMBER
      else None)"

definition patch_change :: "caller \<Rightarrow> string \<Rightarrow> string \<Rightarrow> patch_page_request \<Rightarrow> checked_patch \<Rightarrow> resolved_page \<Rightarrow> page_change" where
  "patch_change c pid slug req ck r =
     \<lparr>pc_project_id = pid, pc_slug = slug, pc_expected_page_id = wp_id (rp_page r),
      pc_expected_revision = pq_revision_number req, pc_title = ck_title ck,
      pc_add_tags = filter (\<lambda>t. t \<notin> set (rp_tags r)) (ck_add_tags ck), pc_remove_tags = ck_remove_tags ck,
      pc_summary = pq_summary req, pc_updated_by = ca_session_id c,
      pc_foreign = (if owns c pid then None
        else Some \<lparr>fw_caller_project_id = ca_project_id c, fw_owner_project_id = pid\<rparr>),
      pc_acknowledge_share = (pq_acknowledge_share req = Some True)\<rparr>"

text \<open>\<open>None\<close> is the panic of a foreign writer that owns the page, which the checks exclude.\<close>

definition patch_page ::
  "wiki_env \<Rightarrow> string option \<Rightarrow> string \<Rightarrow> string \<Rightarrow> string + patch_page_request \<Rightarrow> wiki_world \<Rightarrow> wiki_world \<Rightarrow> wiki_world \<Rightarrow>
   (scheduler_error + page_reply) option \<times> wiki" where
  "patch_page env authorization project_id raw_slug body pre snap w =
     (let fail = (\<lambda>e. (Some (Inl e), ww_wiki w)) in
      case resolve_project project_id (ww_cat pre) of
        Inl e \<Rightarrow> fail e
      | Inr project \<Rightarrow>
      case validate_slug (we_lower env) raw_slug of
        Inl e \<Rightarrow> fail e
      | Inr slug \<Rightarrow>
      case resolve_caller authorization (p_id project) (ww_db pre) of
        Inl e \<Rightarrow> fail e
      | Inr c \<Rightarrow>
      case body of
        Inl m \<Rightarrow> fail (ValidationFailed m)
      | Inr req \<Rightarrow>
      case check_patch req of
        Inl e \<Rightarrow> fail e
      | Inr ck \<Rightarrow>
      let sc = load_sharing c pre in
      case load_readable_page sc (p_id project) slug snap of
        Inl e \<Rightarrow> fail e
      | Inr r \<Rightarrow>
      case (if owns c (p_id project) then None else foreign_refusal ck sc r) of
        Some code \<Rightarrow> (Some (Inr (PageDenied code)), ww_wiki w)
      | None \<Rightarrow>
      if wp_revision_number (rp_page r) \<noteq> pq_revision_number req then
        (Some (Inr (PageCurrent 409 ''revision_conflict'' [] (plain_response (rp_page r) (rp_project_slug r) (rp_tags r)))), ww_wiki w)
      else
      case apply_page_change (we_tag_id env) (we_new_id env) (patch_change c (p_id project) slug req ck r)
          (apply_edits (ck_edits ck)) (ww_cat w) (ww_db w) (ww_wiki w) of
        (ChangeDone out locked_slug, wk) \<Rightarrow>
          (Some (change_reply (case locked_slug of Some s \<Rightarrow> s | None \<Rightarrow> p_slug project) slug out), wk)
      | (ChangeError e, wk) \<Rightarrow> (Some (Inl e), wk)
      | (ChangePanic, wk) \<Rightarrow> (None, wk))"

definition delete_page_route ::
  "wiki_env \<Rightarrow> string option \<Rightarrow> string \<Rightarrow> string \<Rightarrow> wiki_world \<Rightarrow> wiki_world \<Rightarrow> wiki_world \<Rightarrow> (scheduler_error + string option) \<times> wiki" where
  "delete_page_route env authorization project_id slug pre snap w =
     (case resolve_project project_id (ww_cat pre) of
        Inl e \<Rightarrow> (Inl e, ww_wiki w)
      | Inr project \<Rightarrow>
      case resolve_caller authorization (p_id project) (ww_db pre) of
        Inl e \<Rightarrow> (Inl e, ww_wiki w)
      | Inr c \<Rightarrow>
      case load_readable_page (load_sharing c pre) (p_id project) (normalize_slug (we_lower env) slug) snap of
        Inl e \<Rightarrow> (Inl e, ww_wiki w)
      | Inr r \<Rightarrow>
      if \<not> owns c (p_id project) then (Inr (Some ERR_NOT_PAGE_OWNER), ww_wiki w)
      else
      case delete_page (p_id project) (wp_id (rp_page r)) (ca_session_id c) (ww_cat w) (ww_db w) (ww_wiki w) of
        (Inl e, wk) \<Rightarrow> (Inl e, wk)
      | (Inr _, wk) \<Rightarrow> (Inr None, wk))"

section \<open>Subscriptions\<close>

record subscription_request =
  sq_subscriber :: string
  sq_page_slug :: "string option"
  sq_tag_name :: "string option"

definition trimmed :: "string option \<Rightarrow> string option" where
  "trimmed s = (case map_option trim s of Some [] \<Rightarrow> None | t \<Rightarrow> t)"

text \<open>The target of a subscription: a page or a tag.\<close>

definition subscription_target :: "wiki_env \<Rightarrow> subscription_request \<Rightarrow> scheduler_error + string option \<times> string option" where
  "subscription_target env req =
     (if trim (sq_subscriber req) = [] then Inl (ValidationFailed ''subscriber must not be empty'')
      else
      case (case trimmed (sq_page_slug req) of None \<Rightarrow> Inr None | Some s \<Rightarrow> map_sum id Some (validate_slug (we_lower env) s)) of
        Inl e \<Rightarrow> Inl e
      | Inr page_slug \<Rightarrow>
          if (page_slug = None) = (trimmed (sq_tag_name req) = None) then
            Inl (ValidationFailed ''exactly one of page_slug or tag_name must be provided (non-empty)'')
          else Inr (page_slug, trimmed (sq_tag_name req)))"

text \<open>The reply has status 201 when the subscription is new, 200 when it existed; \<open>None\<close> is the refusal of a foreign caller.\<close>

definition create_subscription_route ::
  "wiki_env \<Rightarrow> string option \<Rightarrow> string \<Rightarrow> string + subscription_request \<Rightarrow> wiki_world \<Rightarrow> wiki_world \<Rightarrow>
   (scheduler_error + (nat \<times> wiki_subscription) option) \<times> wiki" where
  "create_subscription_route env authorization project_id body pre w =
     (case owned_project authorization project_id pre of
        Inl e \<Rightarrow> (Inl e, ww_wiki w)
      | Inr None \<Rightarrow> (Inr None, ww_wiki w)
      | Inr (Some (project, c)) \<Rightarrow>
      case body of
        Inl m \<Rightarrow> (Inl (ValidationFailed m), ww_wiki w)
      | Inr req \<Rightarrow>
      case subscription_target env req of
        Inl e \<Rightarrow> (Inl e, ww_wiki w)
      | Inr (page_slug, tag) \<Rightarrow>
      case create_subscription (we_new_id env) (p_id project) (trim (sq_subscriber req)) page_slug tag (ca_session_id c)
          (ww_cat w) (ww_db w) (ww_wiki w) of
        (Inl e, wk) \<Rightarrow> (Inl e, wk)
      | (Inr (s, was_created), wk) \<Rightarrow> (Inr (Some (if was_created then 201 else 200, s)), wk))"

definition delete_subscription_route ::
  "string option \<Rightarrow> string \<Rightarrow> string \<Rightarrow> wiki_world \<Rightarrow> wiki_world \<Rightarrow> (scheduler_error + unit option) \<times> wiki" where
  "delete_subscription_route authorization project_id sub_id pre w =
     (case owned_project authorization project_id pre of
        Inl e \<Rightarrow> (Inl e, ww_wiki w)
      | Inr None \<Rightarrow> (Inr None, ww_wiki w)
      | Inr (Some (project, c)) \<Rightarrow>
      case delete_subscription (p_id project) sub_id (ca_session_id c) (ww_db w) (ww_wiki w) of
        (Inl e, wk) \<Rightarrow> (Inl e, wk)
      | (Inr _, wk) \<Rightarrow> (Inr (Some ()), wk))"

end
