(* ===== verification/Wiki_Tags.thy ===== *)
theory Wiki_Tags
  imports Wiki_Api
begin

text \<open>
  \<open>scheduler/src/api/wiki_tags.rs\<close>: the operator admits projects to a tag, changes what a member may do,
  and revokes memberships. Each route reads once before its transaction (\<open>pre\<close>) and decides inside it (\<open>w\<close>).
\<close>

definition PAGE_SAMPLE_CAP :: nat where "PAGE_SAMPLE_CAP = 50"

section \<open>Exposure\<close>

record exposure =
  ex_project :: string
  ex_page_count :: nat
  ex_pages :: "(string \<times> string) list"

text \<open>
  The pages that carry the tag and are not visible already, by owning project. The rows come ordered by
  project, so that removing duplicates keeps the groups in the order in which they begin.
\<close>

definition newly_exposed :: "string \<Rightarrow> string list \<Rightarrow> string list \<Rightarrow> wiki \<Rightarrow> (string \<times> string \<times> string) list" where
  "newly_exposed tid pids already_visible wk =
     map snd (filter (\<lambda>(i, _). i \<notin> set already_visible) (pages_carrying_tag_in_tx tid pids wk))"

definition exposure_by_project ::
  "string \<Rightarrow> string list \<Rightarrow> (string \<times> string) list \<Rightarrow> string list \<Rightarrow> wiki \<Rightarrow> nat \<times> exposure list" where
  "exposure_by_project tid pids slugs already_visible wk =
     (let rows = newly_exposed tid pids already_visible wk;
          label = (\<lambda>pid. case map_of slugs pid of Some s \<Rightarrow> s | None \<Rightarrow> pid);
          pages = (\<lambda>pid. sort_key fst (map snd (filter (\<lambda>(p, _). p = pid) rows)));
          groups = sort_key label (remdups (map fst rows)) in
      (sum_list (map (\<lambda>pid. length (pages pid)) groups),
       map (\<lambda>pid. \<lparr>ex_project = label pid, ex_page_count = length (pages pid), ex_pages = take PAGE_SAMPLE_CAP (pages pid)\<rparr>) groups))"

section \<open>Replies\<close>

record confirmation =
  cf_tag :: string
  cf_to_joiner :: "exposure list"
  cf_from_joiner :: "nat \<times> (string \<times> string) list"
  cf_grants_write :: "exposure list option"

datatype member_reply =
    OperatorScopeOnly
  | TagNotFound
  | ProjectNotFound
  | MemberNotFound
  | MemberExists string
  | MemberDetail nat wiki_member
  | AdmissionUnconfirmed confirmation
  | WideningUnconfirmed string "exposure list"
  | Revoked

text \<open>A caller that presents a session is no operator; a header that cannot be read is an error.\<close>

definition require_operator :: "string option \<Rightarrow> db \<Rightarrow> scheduler_error + bool" where
  "require_operator authorization db = map_sum id (\<lambda>p. p = None) (resolve_session_principal authorization db)"

definition invalid_access_level :: scheduler_error where
  "invalid_access_level = ValidationFailed (''access_level must be '' @ CHR 0x22 # ''read'' @ CHR 0x22 # '' or '' @ CHR 0x22 # ''read_write'' @ [CHR 0x22])"

definition already_a_member :: "wiki_member \<Rightarrow> string \<Rightarrow> member_reply" where
  "already_a_member existing requested =
     (if mb_access_level existing = requested then MemberDetail 200 existing else MemberExists (mb_access_level existing))"

section \<open>Admitting a project\<close>

record admit_request =
  aq_project :: string
  aq_access_level :: string
  aq_acknowledge_share :: "bool option"

text \<open>What all of the incumbents reach already through other tags.\<close>

definition incumbents_reach :: "string list \<Rightarrow> string \<Rightarrow> catalog \<Rightarrow> wiki \<Rightarrow> string list" where
  "incumbents_reach ids tid cat wk =
     (case fold (\<lambda>i acc. let reaches = reachable_page_ids_in_tx i tid False cat wk in
          case acc of None \<Rightarrow> Some reaches | Some a \<Rightarrow> Some (filter (\<lambda>p. p \<in> set reaches) a)) ids None of
        None \<Rightarrow> [] | Some a \<Rightarrow> a)"

text \<open>The confirmation an admission needs: pages exposed to the joiner, pages exposed by it, and pages it could write.\<close>

definition admission_exposure ::
  "string \<Rightarrow> string \<Rightarrow> string \<Rightarrow> string \<Rightarrow> string \<Rightarrow> wiki_member list \<Rightarrow> catalog \<Rightarrow> wiki \<Rightarrow> confirmation option" where
  "admission_exposure tname tid joiner joiner_slug level incumbents cat wk =
     (let ids = map mb_project_id incumbents;
          slugs = (joiner, joiner_slug) # map (\<lambda>m. (mb_project_id m, mb_project_slug m)) incumbents;
          inbound = exposure_by_project tid ids slugs (reachable_page_ids_in_tx joiner tid False cat wk) wk;
          outbound = exposure_by_project tid [joiner] slugs (incumbents_reach ids tid cat wk) wk;
          write = (if level = ACCESS_READ_WRITE
            then map_prod id Some (exposure_by_project tid ids slugs (reachable_page_ids_in_tx joiner tid True cat wk) wk)
            else (0, None)) in
      if 0 < fst inbound + fst outbound + fst write then
        Some \<lparr>cf_tag = tname, cf_to_joiner = snd inbound,
          cf_from_joiner = (case snd outbound of [] \<Rightarrow> (0, []) | e # _ \<Rightarrow> (ex_page_count e, ex_pages e)),
          cf_grants_write = snd write\<rparr>
      else None)"

definition admit_in_tx ::
  "string \<Rightarrow> string \<Rightarrow> string \<Rightarrow> project \<Rightarrow> admit_request \<Rightarrow> wiki_world \<Rightarrow> (scheduler_error + member_reply) \<times> wiki" where
  "admit_in_tx new_id tname tid joiner req w =
     (let cat = ww_cat w; wk = ww_wiki w in
      if tag_name tid wk = None then (Inr TagNotFound, wk)
      else
      case lock_active_in_tx (p_id joiner) cat of
        None \<Rightarrow> (Inr ProjectNotFound, wk)
      | Some joiner_slug \<Rightarrow>
      let members = active_members tid cat wk in
      case List.find (\<lambda>m. mb_project_id m = p_id joiner) members of
        Some existing \<Rightarrow> (Inr (already_a_member existing (aq_access_level req)), wk)
      | None \<Rightarrow>
      let incumbents = filter (\<lambda>m. mb_project_id m \<noteq> p_id joiner) members in
      case (if incumbents \<noteq> [] \<and> aq_acknowledge_share req \<noteq> Some True
            then admission_exposure tname tid (p_id joiner) joiner_slug (aq_access_level req) incumbents cat wk else None) of
        Some c \<Rightarrow> (Inr (AdmissionUnconfirmed c), wk)
      | None \<Rightarrow>
      case insert_member_in_tx new_id tid (p_id joiner) (aq_access_level req) None (clock (ww_db w)) wk of
        Inl e \<Rightarrow> (Inl e, wk)
      | Inr wk' \<Rightarrow>
      case active_member tid (p_id joiner) cat wk' of
        None \<Rightarrow> (Inl (Database ''membership vanished after insert''), wk)
      | Some created \<Rightarrow> (Inr (MemberDetail 201 created), wk'))"

definition admit_member ::
  "string \<Rightarrow> string option \<Rightarrow> string \<Rightarrow> string + admit_request \<Rightarrow> wiki_world \<Rightarrow> wiki_world \<Rightarrow> (scheduler_error + member_reply) \<times> wiki" where
  "admit_member new_id authorization tid body pre w =
     (case require_operator authorization (ww_db pre) of
        Inl e \<Rightarrow> (Inl e, ww_wiki w)
      | Inr False \<Rightarrow> (Inr OperatorScopeOnly, ww_wiki w)
      | Inr True \<Rightarrow>
      case body of
        Inl m \<Rightarrow> (Inl (ValidationFailed m), ww_wiki w)
      | Inr req \<Rightarrow>
      if \<not> is_access_level (aq_access_level req) then (Inl invalid_access_level, ww_wiki w)
      else
      case tag_name tid (ww_wiki pre) of
        None \<Rightarrow> (Inr TagNotFound, ww_wiki w)
      | Some tname \<Rightarrow>
      case resolve_in_tx (aq_project req) (ww_cat pre) of
        None \<Rightarrow> (Inr ProjectNotFound, ww_wiki w)
      | Some joiner \<Rightarrow>
      case active_member tid (p_id joiner) (ww_cat pre) (ww_wiki pre) of
        Some existing \<Rightarrow> (Inr (already_a_member existing (aq_access_level req)), ww_wiki w)
      | None \<Rightarrow> admit_in_tx new_id tname tid joiner req w)"

section \<open>Changing a member's access\<close>

record access_request =
  sr_access_level :: string
  sr_acknowledge_share :: "bool option"

definition set_access_in_tx ::
  "string \<Rightarrow> string \<Rightarrow> project \<Rightarrow> access_request \<Rightarrow> wiki_world \<Rightarrow> (scheduler_error + member_reply) \<times> wiki" where
  "set_access_in_tx tname tid project req w =
     (let cat = ww_cat w; wk = ww_wiki w in
      if tag_name tid wk = None then (Inr TagNotFound, wk)
      else
      case lock_active_in_tx (p_id project) cat of
        None \<Rightarrow> (Inr ProjectNotFound, wk)
      | Some target_slug \<Rightarrow>
      case active_member tid (p_id project) cat wk of
        None \<Rightarrow> (Inr MemberNotFound, wk)
      | Some existing \<Rightarrow>
      let widening = mb_access_level existing \<noteq> ACCESS_READ_WRITE \<and> sr_access_level req = ACCESS_READ_WRITE;
          others = filter (\<lambda>m. mb_project_id m \<noteq> p_id project) (active_members tid cat wk);
          slugs = (p_id project, target_slug) # map (\<lambda>m. (mb_project_id m, mb_project_slug m)) others;
          granted = exposure_by_project tid (map mb_project_id others) slugs (reachable_page_ids_in_tx (p_id project) tid True cat wk) wk in
      if widening \<and> sr_acknowledge_share req \<noteq> Some True \<and> 0 < fst granted then
        (Inr (WideningUnconfirmed tname (snd granted)), wk)
      else
      case set_access_level_in_tx tid (p_id project) (sr_access_level req) wk of
        (False, _) \<Rightarrow> (Inr MemberNotFound, wk)
      | (True, wk') \<Rightarrow>
      case active_member tid (p_id project) cat wk' of
        None \<Rightarrow> (Inl (Database ''membership vanished after update''), wk)
      | Some updated \<Rightarrow> (Inr (MemberDetail 200 updated), wk'))"

definition set_member_access ::
  "string option \<Rightarrow> string \<Rightarrow> string \<Rightarrow> string + access_request \<Rightarrow> wiki_world \<Rightarrow> wiki_world \<Rightarrow> (scheduler_error + member_reply) \<times> wiki" where
  "set_member_access authorization tid project body pre w =
     (case require_operator authorization (ww_db pre) of
        Inl e \<Rightarrow> (Inl e, ww_wiki w)
      | Inr False \<Rightarrow> (Inr OperatorScopeOnly, ww_wiki w)
      | Inr True \<Rightarrow>
      case body of
        Inl m \<Rightarrow> (Inl (ValidationFailed m), ww_wiki w)
      | Inr req \<Rightarrow>
      if \<not> is_access_level (sr_access_level req) then (Inl invalid_access_level, ww_wiki w)
      else
      case tag_name tid (ww_wiki pre) of
        None \<Rightarrow> (Inr TagNotFound, ww_wiki w)
      | Some tname \<Rightarrow>
      case resolve_in_tx project (ww_cat pre) of
        None \<Rightarrow> (Inr ProjectNotFound, ww_wiki w)
      | Some p \<Rightarrow> set_access_in_tx tname tid p req w)"

section \<open>Revoking a membership\<close>

definition revoke_member ::
  "string option \<Rightarrow> string \<Rightarrow> string \<Rightarrow> wiki_world \<Rightarrow> wiki_world \<Rightarrow> (scheduler_error + member_reply) \<times> wiki" where
  "revoke_member authorization tid project pre w =
     (case require_operator authorization (ww_db pre) of
        Inl e \<Rightarrow> (Inl e, ww_wiki w)
      | Inr False \<Rightarrow> (Inr OperatorScopeOnly, ww_wiki w)
      | Inr True \<Rightarrow>
      if tag_name tid (ww_wiki pre) = None then (Inr TagNotFound, ww_wiki w)
      else
      case resolve_in_tx project (ww_cat pre) of
        None \<Rightarrow> (Inr ProjectNotFound, ww_wiki w)
      | Some p \<Rightarrow>
      case revoke_row tid (p_id p) (clock (ww_db w)) (ww_wiki w) of
        (False, _) \<Rightarrow> (Inr MemberNotFound, ww_wiki w)
      | (True, wk) \<Rightarrow> (Inr Revoked, wk))"

definition list_all_tags ::
  "string option \<Rightarrow> wiki_world \<Rightarrow> wiki_world \<Rightarrow> scheduler_error + (string \<times> string \<times> wiki_member list) list option" where
  "list_all_tags authorization pre w =
     map_sum id (\<lambda>operator. if operator then Some (list_tags_with_members (ww_cat w) (ww_wiki w)) else None)
       (require_operator authorization (ww_db pre))"

end
