(* ===== verification/Wiki_Facts.thy ===== *)
theory Wiki_Facts
  imports Wiki_Tags
begin

text \<open>
  Facts on the tables of the wiki: well-formed tables, the versions a page has had, and that every write keeps
  the one and only extends the other.
\<close>

section \<open>Well-formed tables\<close>

definition page_row :: "string \<Rightarrow> wiki \<Rightarrow> wiki_page option" where
  "page_row i wk = sql_find (\<lambda>p. wp_id p = i) (wk_pages wk)"

definition revisions_of :: "string \<Rightarrow> wiki \<Rightarrow> wiki_revision list" where
  "revisions_of i wk = filter (\<lambda>r. wr_page_id r = i) (wk_revisions wk)"

definition address :: "wiki_page \<Rightarrow> string \<times> string" where
  "address p = (wp_project_id p, wp_slug p)"

definition live_pages :: "wiki \<Rightarrow> wiki_page list" where
  "live_pages wk = filter (\<lambda>p. wp_deleted_at p = None) (wk_pages wk)"

text \<open>The archived revisions of a page are numbered from 1, without gaps, up to the one before the current.\<close>

definition pages_wf :: "wiki \<Rightarrow> bool" where
  "pages_wf wk \<longleftrightarrow>
     distinct (map wp_id (wk_pages wk)) \<and> distinct (map address (live_pages wk)) \<and>
     (\<forall>p \<in> set (wk_pages wk). 1 \<le> wp_revision_number p \<and>
        map wr_revision_number (revisions_of (wp_id p) wk) = [1..wp_revision_number p - 1]) \<and>
     (\<forall>r \<in> set (wk_revisions wk). wr_page_id r \<in> wp_id ` set (wk_pages wk))"

definition tags_wf :: "wiki \<Rightarrow> bool" where
  "tags_wf wk \<longleftrightarrow>
     distinct (map wt_id (wk_tags wk)) \<and> distinct (map wt_name (wk_tags wk)) \<and> distinct (wk_page_tags wk) \<and>
     (\<forall>(i, t) \<in> set (wk_page_tags wk). i \<in> wp_id ` set (wk_pages wk) \<and> t \<in> wt_id ` set (wk_tags wk))"

definition wiki_wf :: "wiki \<Rightarrow> bool" where
  "wiki_wf wk \<longleftrightarrow> pages_wf wk \<and> tags_wf wk"

text \<open>Titles and bodies, oldest first, of archived and deleted pages too.\<close>

definition versions :: "wiki \<Rightarrow> string \<Rightarrow> (string \<times> string) list option" where
  "versions wk i = map_option (\<lambda>p. map (\<lambda>r. (wr_title r, wr_body r)) (revisions_of i wk) @ [(wp_title p, wp_body p)]) (page_row i wk)"

lemma page_row_iff: "pages_wf wk \<Longrightarrow> page_row i wk = Some p \<longleftrightarrow> p \<in> set (wk_pages wk) \<and> wp_id p = i"
  by (auto simp: page_row_def pages_wf_def sql_find_key_iff)

lemma page_rowD: "page_row i wk = Some p \<Longrightarrow> p \<in> set (wk_pages wk) \<and> wp_id p = i"
  by (auto simp: page_row_def dest: sql_find_SomeD)

lemma live_pageD: "live_page P wk = Some p \<Longrightarrow> p \<in> set (wk_pages wk) \<and> P p \<and> wp_deleted_at p = None"
  by (auto simp: live_page_def dest: sql_find_SomeD)

lemma versions_page: "pages_wf wk \<Longrightarrow> p \<in> set (wk_pages wk) \<Longrightarrow> versions wk (wp_id p) =
    Some (map (\<lambda>r. (wr_title r, wr_body r)) (revisions_of (wp_id p) wk) @ [(wp_title p, wp_body p)])"
  using page_row_iff [of wk "wp_id p" p] by (simp add: versions_def)

lemma length_versions:
  assumes "pages_wf wk" "p \<in> set (wk_pages wk)" "versions wk (wp_id p) = Some vs"
  shows "int (length vs) = wp_revision_number p"
proof -
  have "map wr_revision_number (revisions_of (wp_id p) wk) = [1..wp_revision_number p - 1]" "1 \<le> wp_revision_number p"
    using assms(1,2) by (simp_all add: pages_wf_def)
  from arg_cong [where f = length, OF this(1)] this(2)
  have "int (length (revisions_of (wp_id p) wk)) = wp_revision_number p - 1" by simp
  then show ?thesis using assms versions_page by auto
qed

section \<open>What leaves pages alone\<close>

lemma insert_tag_sel [simp]:
  "wk_pages (insert_tag i n wk) = wk_pages wk" "wk_revisions (insert_tag i n wk) = wk_revisions wk"
  "wk_page_tags (insert_tag i n wk) = wk_page_tags wk" "wk_members (insert_tag i n wk) = wk_members wk"
  "wk_subscriptions (insert_tag i n wk) = wk_subscriptions wk"
  by (simp_all add: insert_tag_def)

lemma add_page_tag_sel [simp]:
  "wk_pages (add_page_tag i t wk) = wk_pages wk" "wk_revisions (add_page_tag i t wk) = wk_revisions wk"
  "wk_tags (add_page_tag i t wk) = wk_tags wk" "wk_members (add_page_tag i t wk) = wk_members wk"
  "wk_subscriptions (add_page_tag i t wk) = wk_subscriptions wk"
  "set (wk_page_tags (add_page_tag i t wk)) = insert (i, t) (set (wk_page_tags wk))"
  by (auto simp: add_page_tag_def)

lemma remove_page_tag_sel [simp]:
  "wk_pages (remove_page_tag i n wk) = wk_pages wk" "wk_revisions (remove_page_tag i n wk) = wk_revisions wk"
  "wk_tags (remove_page_tag i n wk) = wk_tags wk" "wk_members (remove_page_tag i n wk) = wk_members wk"
  "wk_subscriptions (remove_page_tag i n wk) = wk_subscriptions wk"
  "set (wk_page_tags (remove_page_tag i n wk)) =
     {(p, t) \<in> set (wk_page_tags wk). \<not> (p = i \<and> (\<exists>g \<in> set (wk_tags wk). wt_id g = t \<and> wt_name g = n))}"
  by (auto simp: remove_page_tag_def in_sql_delete list_ex_iff)

lemma fold_add_sel [simp]:
  "wk_pages (fold (\<lambda>x. add_page_tag i (f x)) ts wk) = wk_pages wk"
  "wk_revisions (fold (\<lambda>x. add_page_tag i (f x)) ts wk) = wk_revisions wk"
  "wk_tags (fold (\<lambda>x. add_page_tag i (f x)) ts wk) = wk_tags wk"
  "wk_members (fold (\<lambda>x. add_page_tag i (f x)) ts wk) = wk_members wk"
  "wk_subscriptions (fold (\<lambda>x. add_page_tag i (f x)) ts wk) = wk_subscriptions wk"
  "set (wk_page_tags (fold (\<lambda>x. add_page_tag i (f x)) ts wk)) = set (wk_page_tags wk) \<union> (\<lambda>x. (i, f x)) ` set ts"
  by (induction ts arbitrary: wk) auto

lemma fold_remove_sel [simp]:
  "wk_pages (fold (remove_page_tag i) ns wk) = wk_pages wk"
  "wk_revisions (fold (remove_page_tag i) ns wk) = wk_revisions wk"
  "wk_tags (fold (remove_page_tag i) ns wk) = wk_tags wk"
  "wk_members (fold (remove_page_tag i) ns wk) = wk_members wk"
  "wk_subscriptions (fold (remove_page_tag i) ns wk) = wk_subscriptions wk"
  "set (wk_page_tags (fold (remove_page_tag i) ns wk)) =
     {(p, t) \<in> set (wk_page_tags wk). \<not> (p = i \<and> (\<exists>g \<in> set (wk_tags wk). wt_id g = t \<and> wt_name g \<in> set ns))}"
  by (induction ns arbitrary: wk) auto

lemma distinct_add_page_tag: "distinct (wk_page_tags wk) \<Longrightarrow> distinct (wk_page_tags (add_page_tag i t wk))"
  by (simp add: add_page_tag_def)

lemma distinct_fold_add: "distinct (wk_page_tags wk) \<Longrightarrow> distinct (wk_page_tags (fold (\<lambda>x. add_page_tag i (f x)) ts wk))"
  by (induction ts arbitrary: wk) (simp_all add: distinct_add_page_tag)

lemma distinct_remove: "distinct (wk_page_tags wk) \<Longrightarrow> distinct (wk_page_tags (fold (remove_page_tag i) ns wk))"
  by (induction ns arbitrary: wk) (simp_all add: remove_page_tag_def sql_delete_def)

text \<open>Tables with the same pages and revisions.\<close>

definition same_pages :: "wiki \<Rightarrow> wiki \<Rightarrow> bool" where
  "same_pages wk wk' \<longleftrightarrow> wk_pages wk' = wk_pages wk \<and> wk_revisions wk' = wk_revisions wk"

lemma same_pages_wf: "same_pages wk wk' \<Longrightarrow> pages_wf wk' = pages_wf wk"
  by (simp add: same_pages_def pages_wf_def live_pages_def revisions_of_def)

lemma same_pages_versions: "same_pages wk wk' \<Longrightarrow> versions wk' = versions wk"
  by (simp add: fun_eq_iff same_pages_def versions_def page_row_def revisions_of_def)

section \<open>Materialised tags\<close>

lemma insert_tag_tags:
  "set (wk_tags (insert_tag i n wk)) = set (wk_tags wk) \<union>
     (if \<exists>t \<in> set (wk_tags wk). wt_id t = i \<or> wt_name t = n then {} else {\<lparr>wt_id = i, wt_name = n\<rparr>})"
  by (auto simp: insert_tag_def list_ex_iff)

lemma tags_wf_insert_tag: "tags_wf wk \<Longrightarrow> tags_wf (insert_tag i n wk)"
  by (auto simp: tags_wf_def insert_tag_def list_ex_iff)

lemma materialize_Inr:
  assumes "materialize_loop new_id k names wk = Inr (held, wk')"
  shows "wk_pages wk' = wk_pages wk \<and> wk_revisions wk' = wk_revisions wk \<and> wk_page_tags wk' = wk_page_tags wk \<and>
    wk_members wk' = wk_members wk \<and> wk_subscriptions wk' = wk_subscriptions wk \<and> set (wk_tags wk) \<subseteq> set (wk_tags wk') \<and>
    map fst held = names \<and> (\<forall>(n, t) \<in> set held. \<lparr>wt_id = t, wt_name = n\<rparr> \<in> set (wk_tags wk')) \<and>
    (tags_wf wk \<longrightarrow> tags_wf wk')"
  using assms
proof (induction new_id k names wk arbitrary: held rule: materialize_loop.induct)
  case (2 new_id k name names wk)
  let ?wk = "insert_tag (new_id k) name wk"
  obtain t held' where t: "tag_named name ?wk = Some t" and rec: "materialize_loop new_id (k + 1) names ?wk = Inr (held', wk')"
    and held: "held = (name, wt_id t) # held'"
    using "2.prems" by (auto simp: Let_def split: option.splits sum.splits)
  have "t \<in> set (wk_tags ?wk)" "wt_name t = name" using t by (auto simp: tag_named_def dest: sql_find_SomeD)
  then have "\<lparr>wt_id = wt_id t, wt_name = name\<rparr> \<in> set (wk_tags ?wk)" by (metis wiki_tag.surjective old.unit.exhaust)
  moreover have "set (wk_tags wk) \<subseteq> set (wk_tags ?wk)" by (auto simp: insert_tag_tags)
  ultimately show ?case
    using "2.IH" [OF refl t rec] tags_wf_insert_tag [of wk] held by auto
qed simp

section \<open>Creating and deleting\<close>

lemma sync_tags_sel [simp]:
  "wk_pages (sync_tags_in_tx i held wk) = wk_pages wk" "wk_revisions (sync_tags_in_tx i held wk) = wk_revisions wk"
  "wk_tags (sync_tags_in_tx i held wk) = wk_tags wk" "wk_members (sync_tags_in_tx i held wk) = wk_members wk"
  "wk_subscriptions (sync_tags_in_tx i held wk) = wk_subscriptions wk"
  "set (wk_page_tags (sync_tags_in_tx i held wk)) = {(p, t) \<in> set (wk_page_tags wk). p \<noteq> i} \<union> (\<lambda>(_, t). (i, t)) ` set held"
  using fold_add_sel [where f = snd and ts = held and i = i]
  by (auto simp: sync_tags_in_tx_def case_prod_unfold in_sql_delete)

lemma distinct_sync: "distinct (wk_page_tags wk) \<Longrightarrow> distinct (wk_page_tags (sync_tags_in_tx i held wk))"
  by (auto simp: sync_tags_in_tx_def case_prod_unfold sql_delete_def intro!: distinct_fold_add [where f = snd])

lemma create_cases:
  assumes "create_page new_id i pid slug title body by tags ack cat db wk = (r, wk')"
  obtains (created) page names ps held wk1 where "r = Inr (Created page names ps)"
      "(case tags of Some ts \<Rightarrow> materialize_tags_in_tx new_id ts wk | None \<Rightarrow> Inr ([], wk)) = Inr (held, wk1)"
      "\<not> page_conflict i pid slug wk1" "lock_active_in_tx pid cat = Some ps"
      "\<not> (tags \<noteq> None \<and> \<not> ack \<and> audiences_for_publication pid slug held cat wk1 \<noteq> [])"
      "\<forall>sid. by = Some sid \<longrightarrow> is_live_in_tx sid db"
      "wk' = (let wk2 = wk1\<lparr>wk_pages := wk_pages wk1 @ [new_page i pid slug title body by (clock db)]\<rparr> in
         if tags \<noteq> None then sync_tags_in_tx i held wk2 else wk2)"
      "page_with_tags_in_tx pid slug wk' = Some (page, names)"
  | (refused) "wk' = wk" "\<And>page names ps. r \<noteq> Inr (Created page names ps)"
proof (cases "create_body new_id i pid slug title body by tags ack cat db wk")
  case (Inl a)
  then have "r = a" "wk' = wk" using assms by (simp_all add: create_page_def)
  moreover have "a \<noteq> Inr (Created page names ps)" for page names ps
    using Inl by (auto simp: create_body_def Let_def split: sum.splits option.splits if_splits prod.splits)
  ultimately show ?thesis by (intro refused) auto
next
  case (Inr b)
  obtain page names ps wk'' where b: "b = ((page, names, ps), wk'')" by (cases b) auto
  then have "r = Inr (Created page names ps)" "wk' = wk''" using assms Inr by (simp_all add: create_page_def)
  with Inr b show ?thesis
    by (auto simp: create_body_def Let_def split: sum.split_asm option.split_asm if_split_asm prod.split_asm intro!: created)
qed

lemma versions_add_page:
  assumes wf: "pages_wf wk" and new: "i \<notin> wp_id ` set (wk_pages wk)" and p: "wp_id p = i" "wp_revision_number p = 1"
    and addr: "wp_deleted_at p = None" "address p \<notin> address ` set (live_pages wk)"
    and same: "wk_pages wk' = wk_pages wk @ [p]" "wk_revisions wk' = wk_revisions wk"
  shows "pages_wf wk'" and "versions wk' = (versions wk)(i \<mapsto> [(wp_title p, wp_body p)])"
proof -
  have none: "revisions_of i wk = []" using wf new by (auto simp: pages_wf_def revisions_of_def filter_empty_conv)
  have rev: "revisions_of j wk' = revisions_of j wk" for j by (simp add: revisions_of_def same)
  have live: "live_pages wk' = live_pages wk @ [p]" by (simp add: live_pages_def same addr)
  have "map wr_revision_number (revisions_of (wp_id q) wk) = [1..wp_revision_number q - 1] \<and> 1 \<le> wp_revision_number q"
    if "q \<in> set (wk_pages wk')" for q
    using that wf none p by (auto simp: same pages_wf_def)
  then show "pages_wf wk'" using wf new p addr by (auto simp: pages_wf_def live same rev)
  have "page_row i wk = None" using new by (auto simp: page_row_def sql_find_None_iff)
  then have "page_row j wk' = (if j = i then Some p else page_row j wk)" for j
    by (auto simp: page_row_def same sql_find_append p split: option.splits)
  then show "versions wk' = (versions wk)(i \<mapsto> [(wp_title p, wp_body p)])"
    by (auto simp: fun_eq_iff versions_def rev none)
qed

lemma tags_wf_mono:
  assumes "tags_wf wk" "wk_tags wk' = wk_tags wk" "wp_id ` set (wk_pages wk) \<subseteq> wp_id ` set (wk_pages wk')"
    "distinct (wk_page_tags wk')"
    "\<And>i t. (i, t) \<in> set (wk_page_tags wk') \<Longrightarrow> (i, t) \<in> set (wk_page_tags wk) \<or> i \<in> wp_id ` set (wk_pages wk') \<and> t \<in> wt_id ` set (wk_tags wk)"
  shows "tags_wf wk'"
proof -
  have "i \<in> wp_id ` set (wk_pages wk') \<and> t \<in> wt_id ` set (wk_tags wk)" if "(i, t) \<in> set (wk_page_tags wk')" for i t
    using assms(5) [OF that] assms(1,3) by (auto simp: tags_wf_def)
  then show ?thesis using assms(1,2,4) by (auto simp: tags_wf_def)
qed

lemma create_page_wf:
  assumes run: "create_page new_id i pid slug title body by tags ack cat db wk = (r, wk')" and wf: "wiki_wf wk"
  shows "wiki_wf wk' \<and> (if \<exists>page names ps. r = Inr (Created page names ps)
    then versions wk i = None \<and> versions wk' = (versions wk)(i \<mapsto> [(title, body)]) else wk' = wk)"
  using run
proof (cases rule: create_cases)
  case (created page names ps held wk1)
  have mat: "wk_pages wk1 = wk_pages wk \<and> wk_revisions wk1 = wk_revisions wk \<and> tags_wf wk1 \<and>
      (\<forall>(n, t) \<in> set held. \<lparr>wt_id = t, wt_name = n\<rparr> \<in> set (wk_tags wk1))"
    using created(2) wf materialize_Inr [of new_id 0 _ wk held wk1]
    by (auto simp: materialize_tags_in_tx_def wiki_wf_def split: option.splits)
  then have same: "same_pages wk wk1" by (simp add: same_pages_def)
  let ?p = "new_page i pid slug title body by (clock db)"
  have pages: "wk_pages wk' = wk_pages wk1 @ [?p]" "wk_revisions wk' = wk_revisions wk1" "wk_tags wk' = wk_tags wk1"
    using created(7) by (auto simp: Let_def)
  have new: "i \<notin> wp_id ` set (wk_pages wk1)" "address ?p \<notin> address ` set (live_pages wk1)"
    using created(3) by (auto simp: page_conflict_def list_ex_iff address_def live_pages_def new_page_def)
  have wf1: "pages_wf wk1" using wf same_pages_wf [OF same] by (simp add: wiki_wf_def)
  note add = versions_add_page [OF wf1 new(1) _ _ _ new(2) pages(1,2)]
  have "tags_wf wk'"
  proof (rule tags_wf_mono [of wk1])
    show "tags_wf wk1" using mat by blast
    then have d: "distinct (wk_page_tags wk1)" by (simp add: tags_wf_def)
    then show "distinct (wk_page_tags wk')" using created(7) by (auto simp: Let_def intro!: distinct_sync)
    show "(j, t) \<in> set (wk_page_tags wk1) \<or> j \<in> wp_id ` set (wk_pages wk') \<and> t \<in> wt_id ` set (wk_tags wk1)"
      if "(j, t) \<in> set (wk_page_tags wk')" for j t
      using that created(7) mat pages(1) by (force simp: Let_def new_page_def split: if_splits)
  qed (use pages in auto)
  moreover have "versions wk i = None"
    using new(1) by (simp add: same_pages_versions [OF same, symmetric] versions_def page_row_def sql_find_None_iff) auto
  ultimately show ?thesis
    using add same_pages_versions [OF same] by (simp add: new_page_def wiki_wf_def created(1))
next
  case refused
  then show ?thesis using wf by auto
qed

text \<open>An update of pages in place: deleting pages, or the archived page's new version.\<close>

lemma live_update:
  assumes "distinct (map address (live_pages wk))" and "wk_pages wk' = sql_update P f (wk_pages wk)"
    and "\<And>p. P p \<Longrightarrow> wp_deleted_at (f p) = None \<Longrightarrow> wp_deleted_at p = None \<and> address (f p) = address p"
  shows "distinct (map address (live_pages wk'))"
proof -
  have "map address (live_pages wk') = map address (filter (\<lambda>p. wp_deleted_at (if P p then f p else p) = None) (wk_pages wk))"
    using assms(3) by (auto simp: live_pages_def assms(2) sql_update_def filter_map o_def)
  also have "\<dots> = map address (filter (\<lambda>p. wp_deleted_at (if P p then f p else p) = None) (live_pages wk))"
    using assms(3) by (simp add: live_pages_def) (rule arg_cong [where f = "map address"], rule filter_cong, auto)
  finally show ?thesis using assms(1) by (simp add: distinct_map_filter)
qed

lemma page_row_update:
  assumes "\<And>p. wp_id (f p) = wp_id p" and "wk_pages wk' = sql_update P f (wk_pages wk)"
  shows "page_row i wk' = map_option (\<lambda>p. if P p then f p else p) (page_row i wk)"
  unfolding page_row_def assms(2) by (rule sql_find_update) (use assms(1) in auto)

lemma delete_page_wf:
  assumes run: "delete_page pid i sid cat db wk = (r, wk')" and wf: "wiki_wf wk"
  shows "wiki_wf wk' \<and> versions wk' = versions wk \<and> wk_revisions wk' = wk_revisions wk"
proof (cases "wk' = wk")
  case False
  let ?P = "\<lambda>p. wp_id p = i \<and> wp_project_id p = pid \<and> wp_deleted_at p = None"
  let ?f = "\<lambda>p. p\<lparr>wp_deleted_at := Some (clock db)\<rparr>"
  have wk': "wk' = wk\<lparr>wk_pages := sql_update ?P ?f (wk_pages wk)\<rparr>"
    using run False by (auto simp: delete_page_def Let_def split: if_splits)
  have pages: "wk_pages wk' = sql_update ?P ?f (wk_pages wk)" "wk_revisions wk' = wk_revisions wk" by (simp_all add: wk')
  have rev: "revisions_of j wk' = revisions_of j wk" for j by (simp add: revisions_of_def wk')
  have "distinct (map address (live_pages wk'))"
    by (rule live_update [of wk wk' ?P ?f]) (use wf in \<open>auto simp: wk' wiki_wf_def pages_wf_def\<close>)
  moreover have m: "map wp_id (wk_pages wk') = map wp_id (wk_pages wk)" by (simp add: pages)
  then have ids: "wp_id ` set (sql_update ?P ?f (wk_pages wk)) = wp_id ` set (wk_pages wk)" by (metis list.set_map pages(1))
  ultimately have "pages_wf wk'"
    using wf by (auto simp: wiki_wf_def pages_wf_def rev m ids in_sql_update pages)
  moreover have "tags_wf wk'" using wf ids by (simp add: wiki_wf_def tags_wf_def wk')
  moreover have "versions wk' j = versions wk j" for j
    using page_row_update [of ?f wk' ?P wk j] by (cases "page_row j wk") (auto simp: versions_def rev pages)
  ultimately show ?thesis by (auto simp: wiki_wf_def wk')
qed (use wf in simp)

section \<open>Changing\<close>

lemma access_refusal_not_updated: "access_refusal c cat wk \<noteq> Some (ChangeDone (Updated new tags) l)"
  by (auto simp: access_refusal_def Let_def split: option.splits)

lemma planned_not_updated: "planned_change c audiences transform page ts \<noteq> Inl (Updated new tags)"
  by (auto simp: planned_change_def Let_def split: option.splits sum.splits)

lemma change_cases:
  assumes "apply_page_change new_id rid c transform cat db wk = (r, wk')"
  obtains (updated) new tags held wk1 page title body added where
      "r = ChangeDone (Updated new tags) (lock_active_in_tx (pc_project_id c) cat)"
      "materialize_tags_in_tx new_id (pc_add_tags c) wk = Inr (held, wk1)"
      "access_refusal c cat wk1 = None"
      "live_page (\<lambda>p. wp_id p = pc_expected_page_id c \<and> wp_project_id p = pc_project_id c \<and> wp_slug p = pc_slug c) wk1 = Some page"
      "pc_foreign c \<noteq> None \<Longrightarrow> cross_project_writes_in_tx db"
      "planned_change c (if pc_add_tags c \<noteq> [] \<and> \<not> pc_acknowledge_share c
         then audiences_for_publication (pc_project_id c) (pc_slug c) held cat wk1 else []) transform page
         (page_tag_names_in_tx (wp_id page) wk1) = Inr (title, body, added)"
      "store_change rid c held (title, body, added) (clock db) page wk1 = Inr wk'"
      "page_with_tags_by_id_in_tx (wp_id page) wk' = Some (new, tags)"
      "\<forall>sid. pc_updated_by c = Some sid \<longrightarrow> is_live_in_tx sid db"
  | (refused) "wk' = wk" "\<And>new tags l. r \<noteq> ChangeDone (Updated new tags) l"
proof (cases "change_body new_id rid c transform cat db wk")
  case (Inl a)
  then have "r = a" "wk' = wk" using assms by (simp_all add: apply_page_change_def)
  moreover have "a \<noteq> ChangeDone (Updated new tags) l" for new tags l
    using Inl unfolding change_body_def Let_def
    by (auto simp: access_refusal_not_updated planned_not_updated split: sum.split_asm option.split_asm if_split_asm prod.split_asm)
  ultimately show ?thesis by (intro refused) auto
next
  case (Inr b)
  obtain new tags locked wk'' where b: "b = ((new, tags, locked), wk'')" by (cases b) auto
  then have "r = ChangeDone (Updated new tags) locked" "wk' = wk''" using assms Inr by (simp_all add: apply_page_change_def)
  with Inr b show ?thesis
    by (auto simp: change_body_def Let_def split: sum.split_asm option.split_asm if_split_asm prod.split_asm intro!: updated)
qed

lemma planned_Inr:
  assumes "planned_change c audiences transform page tags = Inr (title, body, added)"
  shows "wp_revision_number page = pc_expected_revision c" and "transform (wp_body page) = Inr body"
    and "title = (case pc_title c of Some (_, new) \<Rightarrow> new | None \<Rightarrow> wp_title page)"
    and "case pc_title c of Some (old, _) \<Rightarrow> old = wp_title page | None \<Rightarrow> True"
    and "set (pc_remove_tags c) \<subseteq> set tags"
    and "added = filter (\<lambda>t. t \<notin> set tags) (ordered_tag_names (pc_add_tags c))"
    and "\<forall>a \<in> set audiences. pa_tag_name a \<notin> set added"
    and "added \<noteq> [] \<or> pc_remove_tags c \<noteq> [] \<or> body \<noteq> wp_body page \<or> title \<noteq> wp_title page"
  using assms
  by (auto simp: planned_change_def Let_def filter_empty_conv split: if_splits option.splits sum.splits)

definition changed_page :: "page_change \<Rightarrow> string \<Rightarrow> string \<Rightarrow> timestamp \<Rightarrow> wiki_page \<Rightarrow> wiki_page" where
  "changed_page c title body now p =
     p\<lparr>wp_title := title, wp_body := body, wp_revision_number := wp_revision_number p + 1, wp_updated_by := pc_updated_by c,
       wp_updated_at := now\<rparr>"

lemma store_change_Inr:
  assumes "store_change rid c held (title, body, added) now page wk = Inr wk'"
  shows "\<not> revision_exists rid (wp_id page) (wp_revision_number page) wk" and "\<forall>t \<in> set added. map_of held t \<noteq> None"
    and "wk_pages wk' = sql_update (\<lambda>p. wp_id p = wp_id page \<and> wp_revision_number p = pc_expected_revision c \<and> wp_deleted_at p = None)
      (changed_page c title body now) (wk_pages wk)"
    and "wk_revisions wk' = wk_revisions wk @ [archived rid c now page]"
    and "wk_tags wk' = wk_tags wk" and "wk_members wk' = wk_members wk" and "wk_subscriptions wk' = wk_subscriptions wk"
    and "set (wk_page_tags wk') = {(p, t) \<in> set (wk_page_tags wk) \<union> (\<lambda>n. (wp_id page, the (map_of held n))) ` set added.
      \<not> (p = wp_id page \<and> (\<exists>g \<in> set (wk_tags wk). wt_id g = t \<and> wt_name g \<in> set (pc_remove_tags c)))}"
    and "distinct (wk_page_tags wk) \<Longrightarrow> distinct (wk_page_tags wk')"
  using assms
  by (auto simp: store_change_def Let_def changed_page_def [abs_def] split: if_splits intro!: distinct_remove distinct_fold_add)

text \<open>A change archives the current version of its page and replaces it.\<close>

lemma store_change_wf:
  assumes wf: "pages_wf wk" and page: "page \<in> set (wk_pages wk)" "wp_deleted_at page = None"
    and rev: "wp_revision_number page = pc_expected_revision c" and run: "store_change rid c held (title, body, added) now page wk = Inr wk'"
  shows "pages_wf wk'" and "map wp_id (wk_pages wk') = map wp_id (wk_pages wk)"
    and "versions wk' = (versions wk)(wp_id page := map_option (\<lambda>vs. vs @ [(title, body)]) (versions wk (wp_id page)))"
proof -
  let ?P = "\<lambda>p. wp_id p = wp_id page \<and> wp_revision_number p = pc_expected_revision c \<and> wp_deleted_at p = None"
  let ?f = "changed_page c title body now"
  note new = store_change_Inr [OF run]
  have f [simp]: "wp_id (?f p) = wp_id p" "wp_deleted_at (?f p) = wp_deleted_at p" "address (?f p) = address p"
    "wp_revision_number (?f p) = wp_revision_number p + 1" "wp_title (?f p) = title" "wp_body (?f p) = body" for p
    by (simp_all add: changed_page_def address_def)
  have only: "?P p \<longleftrightarrow> wp_id p = wp_id page" if "p \<in> set (wk_pages wk)" for p
    using that page rev wf by (auto simp: pages_wf_def dest: key_inj)
  show ids: "map wp_id (wk_pages wk') = map wp_id (wk_pages wk)" by (simp add: new(3))
  then have ids': "wp_id ` set (wk_pages wk') = wp_id ` set (wk_pages wk)" by (metis list.set_map)
  have revs: "revisions_of i wk' = revisions_of i wk @ (if i = wp_id page then [archived rid c now page] else [])" for i
    by (simp add: revisions_of_def new(4) archived_def)
  have nums: "map wr_revision_number (revisions_of (wp_id q) wk') = [1..wp_revision_number q - 1] \<and> 1 \<le> wp_revision_number q"
    if q: "q \<in> set (wk_pages wk')" for q
  proof -
    obtain p where p: "p \<in> set (wk_pages wk)" "q = (if wp_id p = wp_id page then ?f p else p)"
      using q only unfolding new(3) in_sql_update by auto
    then have "map wr_revision_number (revisions_of (wp_id p) wk) = [1..wp_revision_number p - 1]" "1 \<le> wp_revision_number p"
      using wf by (simp_all add: pages_wf_def)
    moreover have "wp_id p = wp_id page \<Longrightarrow> p = page" using p(1) page wf by (auto simp: pages_wf_def dest: key_inj)
    ultimately show ?thesis using p(2) upto_rec2 [of 1 "wp_revision_number page"] by (auto simp: revs archived_def)
  qed
  have "distinct (map address (live_pages wk'))"
    by (rule live_update [of wk wk' ?P ?f]) (use wf new(3) in \<open>auto simp: pages_wf_def\<close>)
  then show "pages_wf wk'"
    using wf nums page ids ids' by (auto simp: pages_wf_def new(4) archived_def)
  have "versions wk' i = (if i = wp_id page then map_option (\<lambda>vs. vs @ [(title, body)]) (versions wk i) else versions wk i)" for i
  proof (cases "page_row i wk")
    case None
    then show ?thesis using page_row_update [of ?f wk' ?P wk i] new(3) by (auto simp: versions_def)
  next
    case (Some p)
    then have p: "p \<in> set (wk_pages wk)" "wp_id p = i" using page_rowD by auto
    then have "page_row i wk' = Some (if i = wp_id page then ?f p else p)"
      using page_row_update [of ?f wk' ?P wk i] new(3) only [OF p(1)] Some by simp
    moreover have "i = wp_id page \<Longrightarrow> p = page" using p page wf by (auto simp: pages_wf_def dest: key_inj)
    ultimately show ?thesis using Some by (auto simp: versions_def revs archived_def)
  qed
  then show "versions wk' = (versions wk)(wp_id page := map_option (\<lambda>vs. vs @ [(title, body)]) (versions wk (wp_id page)))"
    by (auto simp: fun_eq_iff)
qed

lemma materialized:
  assumes "materialize_tags_in_tx new_id names wk = Inr (held, wk1)"
  shows "same_pages wk wk1" "wk_page_tags wk1 = wk_page_tags wk" "wk_members wk1 = wk_members wk" "wk_subscriptions wk1 = wk_subscriptions wk"
    "set (wk_tags wk) \<subseteq> set (wk_tags wk1)" "map fst held = ordered_tag_names names"
    "(n, t) \<in> set held \<Longrightarrow> \<lparr>wt_id = t, wt_name = n\<rparr> \<in> set (wk_tags wk1)"
    "wiki_wf wk \<Longrightarrow> wiki_wf wk1" "versions wk1 = versions wk"
proof -
  note all = materialize_Inr [OF assms [unfolded materialize_tags_in_tx_def]]
  then show same: "same_pages wk wk1" by (simp add: same_pages_def)
  show "versions wk1 = versions wk" by (rule same_pages_versions [OF same])
  show "wiki_wf wk \<Longrightarrow> wiki_wf wk1" using all same_pages_wf [OF same] by (simp add: wiki_wf_def)
  show "wk_page_tags wk1 = wk_page_tags wk" "wk_members wk1 = wk_members wk" "wk_subscriptions wk1 = wk_subscriptions wk"
    "set (wk_tags wk) \<subseteq> set (wk_tags wk1)" "map fst held = ordered_tag_names names" using all by auto
  show "(n, t) \<in> set held \<Longrightarrow> \<lparr>wt_id = t, wt_name = n\<rparr> \<in> set (wk_tags wk1)" using all by auto
qed

text \<open>What a change makes of the current version, if it can.\<close>

definition requested :: "page_change \<Rightarrow> (string \<Rightarrow> body_edit_failure + string) \<Rightarrow> string \<times> string \<Rightarrow> (string \<times> string) option" where
  "requested c transform = (\<lambda>(title, body).
     (case transform body of
        Inl _ \<Rightarrow> None
      | Inr new_body \<Rightarrow>
          (case pc_title c of
             None \<Rightarrow> Some (title, new_body)
           | Some (old, new) \<Rightarrow> if old = title then Some (new, new_body) else None)))"

text \<open>The abstract store: the versions of each document; a write names the number of the version it replaces.\<close>

type_synonym history = "string \<Rightarrow> (string \<times> string) list option"

definition write_version :: "string \<Rightarrow> int \<Rightarrow> (string \<times> string \<Rightarrow> (string \<times> string) option) \<Rightarrow> history \<Rightarrow> history option" where
  "write_version i n edit h =
     Option.bind (h i) (\<lambda>vs. if vs = [] \<or> int (length vs) \<noteq> n then None
       else map_option (\<lambda>v. h(i \<mapsto> vs @ [v])) (edit (last vs)))"

lemma change_page_wf:
  assumes run: "apply_page_change new_id rid c transform cat db wk = (r, wk')" and wf: "wiki_wf wk"
  shows "wiki_wf wk'" and "if \<exists>new tags l. r = ChangeDone (Updated new tags) l
    then write_version (pc_expected_page_id c) (pc_expected_revision c) (requested c transform) (versions wk) = Some (versions wk')
    else wk' = wk"
proof -
  have "wiki_wf wk' \<and> (if \<exists>new tags l. r = ChangeDone (Updated new tags) l
    then write_version (pc_expected_page_id c) (pc_expected_revision c) (requested c transform) (versions wk) = Some (versions wk')
    else wk' = wk)"
    using run
  proof (cases rule: change_cases)
    case (updated new tags held wk1 page title body added)
    note mat = materialized [OF updated(2)] and plan = planned_Inr [OF updated(6)] and st = store_change_Inr [OF updated(7)]
    have wf1: "wiki_wf wk1" using mat(8) wf .
    have page: "page \<in> set (wk_pages wk1)" "wp_id page = pc_expected_page_id c" "wp_deleted_at page = None"
      using live_pageD [OF updated(4)] by auto
    note ch = store_change_wf [OF wf1 [unfolded wiki_wf_def, THEN conjunct1] page(1,3) plan(1) updated(7)]
    have ids: "wp_id ` set (wk_pages wk') = wp_id ` set (wk_pages wk1)" using ch(2) by (metis list.set_map)
    have tag: "the (map_of held t) \<in> wt_id ` set (wk_tags wk1)" if t: "t \<in> set added" for t
    proof -
      obtain i where "map_of held t = Some i" using st(2) t by auto
      then show ?thesis using mat(7) [of t i] by (force dest: map_of_SomeD)
    qed
    have "tags_wf wk'"
    proof (rule tags_wf_mono [of wk1])
      show "tags_wf wk1" using wf1 by (simp add: wiki_wf_def)
      then show "distinct (wk_page_tags wk')" by (intro st(9)) (simp add: tags_wf_def)
    qed (use st(5,8) ids page(1) tag in auto)
    moreover obtain vs where vs: "versions wk1 (wp_id page) = Some vs" using versions_page [OF _ page(1)] wf1 by (simp add: wiki_wf_def)
    moreover have "int (length vs) = pc_expected_revision c" "vs \<noteq> []" "last vs = (wp_title page, wp_body page)"
      using length_versions [OF _ page(1) vs] plan(1) vs versions_page [OF _ page(1)] wf1 by (auto simp: wiki_wf_def)
    moreover have "requested c transform (wp_title page, wp_body page) = Some (title, body)"
      using plan(2-4) by (auto simp: requested_def split: option.splits)
    ultimately have "wiki_wf wk'" "write_version (pc_expected_page_id c) (pc_expected_revision c) (requested c transform) (versions wk) = Some (versions wk')"
      using ch(1,3) page(2) mat(9) by (auto simp: wiki_wf_def write_version_def)
    then show ?thesis using updated(1) by auto
  qed (use wf in auto)
  then show "wiki_wf wk'" and "if \<exists>new tags l. r = ChangeDone (Updated new tags) l
    then write_version (pc_expected_page_id c) (pc_expected_revision c) (requested c transform) (versions wk) = Some (versions wk')
    else wk' = wk" by blast+
qed

end
