(* ===== verification/Wiki_Run.thy ===== *)
theory Wiki_Run
  imports Wiki_Facts
begin

text \<open>
  The routes as one step relation on the tables of the wiki, and what every run keeps: a locale for stores
  whose documents only get longer, interpreted on the wiki.
\<close>

section \<open>Stores of growing documents\<close>

locale growing_documents =
  fixes inv :: "'s \<Rightarrow> bool" and doc :: "'s \<Rightarrow> 'k \<Rightarrow> 'v list option" and step :: "'s \<Rightarrow> 's \<Rightarrow> bool"
  assumes step_inv: "inv s \<Longrightarrow> step s s' \<Longrightarrow> inv s'"
    and step_grows: "inv s \<Longrightarrow> step s s' \<Longrightarrow> doc s i = Some vs \<Longrightarrow> \<exists>ws. doc s' i = Some (vs @ ws)"
begin

lemma run_grows:
  assumes "step\<^sup>*\<^sup>* s s'" "inv s" "doc s i = Some vs"
  shows "inv s' \<and> (\<exists>ws. doc s' i = Some (vs @ ws))"
  using assms(1)
proof induction
  case (step s' s'')
  then show ?case using step_inv [of s' s''] step_grows [of s' s'' i] by (auto simp: append_assoc)
qed (use assms in auto)

lemma run_version:
  assumes "step\<^sup>*\<^sup>* s s'" "inv s" "doc s i = Some vs" "n < length vs"
  shows "\<exists>vs'. doc s' i = Some vs' \<and> n < length vs' \<and> vs' ! n = vs ! n"
  using run_grows [OF assms(1-3)] assms(4) by (auto simp: nth_append)

end

section \<open>The routes\<close>

inductive wiki_step :: "wiki \<Rightarrow> wiki \<Rightarrow> bool" where
  put: "put_page env a pid slug body pre w post = (r, wk) \<Longrightarrow> wiki_step (ww_wiki w) wk"
| patch: "patch_page env a pid slug req pre snap w = (rp, wk) \<Longrightarrow> wiki_step (ww_wiki w) wk"
| delete: "delete_page_route env a pid slug pre snap w = (rd, wk) \<Longrightarrow> wiki_step (ww_wiki w) wk"
| subscribe: "create_subscription_route env a pid sub pre w = (rs, wk) \<Longrightarrow> wiki_step (ww_wiki w) wk"
| unsubscribe: "delete_subscription_route a pid i pre w = (ru, wk) \<Longrightarrow> wiki_step (ww_wiki w) wk"
| admit: "admit_member new_id a tid adm pre w = (ra, wk) \<Longrightarrow> wiki_step (ww_wiki w) wk"
| set_access: "set_member_access a tid pid acc pre w = (rc, wk) \<Longrightarrow> wiki_step (ww_wiki w) wk"
| revoke: "revoke_member a tid pid pre w = (rr, wk) \<Longrightarrow> wiki_step (ww_wiki w) wk"

text \<open>What stands behind a route: nothing, or one operation on the tables.\<close>

lemma put_page_cases:
  assumes "put_page env a pid slug body pre w post = (r, wk)"
  shows "wk = ww_wiki w \<or> (\<exists>i p sl t b sid tags ack out.
    create_page (we_tag_id env) i p sl t b sid (Some tags) ack (ww_cat w) (ww_db w) (ww_wiki w) = (out, wk))"
  using assms
  by (auto simp: put_page_def Let_def split: sum.split_asm if_split_asm prod.split_asm create_outcome.split_asm
      scheduler_error.split_asm)

lemma patch_page_cases:
  assumes "patch_page env a pid slug req pre snap w = (r, wk)"
  shows "wk = ww_wiki w \<or> (\<exists>rid c f out. apply_page_change (we_tag_id env) rid c f (ww_cat w) (ww_db w) (ww_wiki w) = (out, wk))"
proof -
  have "snd (patch_page env a pid slug req pre snap w) = wk" using assms by simp
  then show ?thesis
    unfolding patch_page_def Let_def
    by (simp split: sum.split_asm if_split_asm option.split_asm) (auto split: prod.split_asm change_result.split_asm)
qed
lemma delete_route_cases:
  assumes "delete_page_route env a pid slug pre snap w = (r, wk)"
  shows "wk = ww_wiki w \<or> (\<exists>p i sid out. delete_page p i sid (ww_cat w) (ww_db w) (ww_wiki w) = (out, wk))"
proof -
  have "snd (delete_page_route env a pid slug pre snap w) = wk" using assms by simp
  then show ?thesis unfolding delete_page_route_def
    by (simp split: sum.split_asm if_split_asm) (auto split: prod.split_asm sum.split_asm)
qed

text \<open>Operations on members and subscriptions leave pages, revisions, tags and page tags alone.\<close>

definition keeps_content :: "wiki \<Rightarrow> wiki \<Rightarrow> bool" where
  "keeps_content wk wk' \<longleftrightarrow> wk_pages wk' = wk_pages wk \<and> wk_revisions wk' = wk_revisions wk \<and> wk_tags wk' = wk_tags wk \<and>
     wk_page_tags wk' = wk_page_tags wk"

lemma keeps_content_refl [simp]: "keeps_content wk wk" by (simp add: keeps_content_def)

lemma subscription_ops_keep:
  "keeps_content wk (snd (create_subscription i pid s ps t sid cat db wk))"
  "keeps_content wk (snd (delete_subscription pid i sid db wk))"
  by (auto simp: create_subscription_def delete_subscription_def insert_subscription_def keeps_content_def Let_def
      split: option.splits)

lemma insert_member_keeps: "insert_member_in_tx i tid pid level creator now wk = Inr wk' \<Longrightarrow> keeps_content wk wk'"
  by (auto simp: insert_member_in_tx_def keeps_content_def split: if_splits)

lemma member_ops_keep:
  "keeps_content wk (snd (set_access_level_in_tx tid pid level wk))" "keeps_content wk (snd (revoke_row tid pid now wk))"
  by (simp_all add: set_access_level_in_tx_def revoke_row_def keeps_content_def)

lemma routes_keep_content:
  "keeps_content (ww_wiki w) (snd (admit_member new_id a tid adm pre w))"
  "keeps_content (ww_wiki w) (snd (set_member_access a tid project acc pre w))"
  "keeps_content (ww_wiki w) (snd (revoke_member a tid project pre w))"
  "keeps_content (ww_wiki w) (snd (create_subscription_route env a pid sub pre w))"
  "keeps_content (ww_wiki w) (snd (delete_subscription_route a pid i pre w))"
proof -
  show "keeps_content (ww_wiki w) (snd (admit_member new_id a tid adm pre w))"
    unfolding admit_member_def admit_in_tx_def Let_def
    by (simp split: sum.split bool.split option.split) (blast intro: insert_member_keeps)
  show "keeps_content (ww_wiki w) (snd (set_member_access a tid project acc pre w))"
    unfolding set_member_access_def set_access_in_tx_def Let_def
    by (simp split: sum.split bool.split option.split prod.split) (metis member_ops_keep(1) snd_conv)
  show "keeps_content (ww_wiki w) (snd (revoke_member a tid project pre w))"
    unfolding revoke_member_def
    by (simp split: sum.split bool.split option.split prod.split) (metis member_ops_keep(2) snd_conv)
  show "keeps_content (ww_wiki w) (snd (create_subscription_route env a pid sub pre w))"
    unfolding create_subscription_route_def
    by (simp split: sum.split option.split prod.split) (metis subscription_ops_keep(1) snd_conv)
  show "keeps_content (ww_wiki w) (snd (delete_subscription_route a pid i pre w))"
    unfolding delete_subscription_route_def
    by (simp split: sum.split option.split prod.split) (metis subscription_ops_keep(2) snd_conv)
qed

lemma keeps_content_wf: "keeps_content wk wk' \<Longrightarrow> wiki_wf wk' = wiki_wf wk \<and> versions wk' = versions wk"
  using same_pages_wf [of wk wk'] same_pages_versions [of wk wk']
  by (simp add: keeps_content_def same_pages_def wiki_wf_def tags_wf_def)

section \<open>Every step\<close>

lemma write_version_grows:
  assumes "write_version j n edit h = Some h'" "h i = Some vs"
  shows "\<exists>ws. h' i = Some (vs @ ws)"
  using assms by (auto simp: write_version_def bind_eq_Some_conv split: if_splits)

definition evolves_wiki :: "wiki \<Rightarrow> wiki \<Rightarrow> bool" where
  "evolves_wiki wk wk' \<longleftrightarrow> wiki_wf wk' \<and> (\<forall>i vs. versions wk i = Some vs \<longrightarrow> (\<exists>ws. versions wk' i = Some (vs @ ws)))"

lemma create_evolves: "create_page new_id i p sl t b sid tags ack cat db wk = (out, wk') \<Longrightarrow> wiki_wf wk \<Longrightarrow> evolves_wiki wk wk'"
  using create_page_wf [of new_id i p sl t b sid tags ack cat db wk out wk'] by (auto simp: evolves_wiki_def split: if_splits)

lemma change_evolves:
  assumes "apply_page_change new_id rid c f cat db wk = (out, wk')" "wiki_wf wk"
  shows "evolves_wiki wk wk'"
proof (cases "\<exists>new tags l. out = ChangeDone (Updated new tags) l")
  case True
  with change_page_wf [OF assms] have "wiki_wf wk'"
    and "write_version (pc_expected_page_id c) (pc_expected_revision c) (requested c f) (versions wk) = Some (versions wk')" by auto
  then show ?thesis using write_version_grows unfolding evolves_wiki_def by blast
next
  case False
  with change_page_wf(2) [OF assms] assms(2) show ?thesis by (simp add: evolves_wiki_def)
qed

lemma evolves_content: "keeps_content wk wk' \<Longrightarrow> wiki_wf wk \<Longrightarrow> evolves_wiki wk wk'"
  using keeps_content_wf [of wk wk'] by (simp add: evolves_wiki_def)

lemma evolves_wiki_refl: "wiki_wf wk \<Longrightarrow> evolves_wiki wk wk"
  by (simp add: evolves_wiki_def)

lemma wiki_step_evolves: "wiki_step wk wk' \<Longrightarrow> wiki_wf wk \<Longrightarrow> evolves_wiki wk wk'"
proof (induction rule: wiki_step.induct)
  case (put env a pid slug body pre w post r wk)
  then show ?case using put_page_cases [OF put.hyps] create_evolves evolves_wiki_refl by metis
next
  case (patch env a pid slug req pre snap w rp wk)
  then show ?case using patch_page_cases [OF patch.hyps] change_evolves evolves_wiki_refl by metis
next
  case (delete env a pid slug pre snap w rd wk)
  have "evolves_wiki (ww_wiki w) wk" if "delete_page p i sid (ww_cat w) (ww_db w) (ww_wiki w) = (out, wk)" for p i sid out
    using delete_page_wf [OF that delete.prems] by (simp add: evolves_wiki_def)
  then show ?case using delete_route_cases [OF delete.hyps] evolves_wiki_refl [OF delete.prems] by metis
next
  case (subscribe env a pid sub pre w rs wk)
  then show ?case using routes_keep_content(4) [of w env a pid sub pre] by (auto intro: evolves_content)
next
  case (unsubscribe a pid i pre w ru wk)
  then show ?case using routes_keep_content(5) [of w a pid i pre] by (auto intro: evolves_content)
next
  case (admit new_id a tid adm pre w ra wk)
  then show ?case using routes_keep_content(1) [of w new_id a tid adm pre] by (auto intro: evolves_content)
next
  case (set_access a tid pid acc pre w rc wk)
  then show ?case using routes_keep_content(2) [of w a tid pid acc pre] by (auto intro: evolves_content)
next
  case (revoke a tid pid pre w rr wk)
  then show ?case using routes_keep_content(3) [of w a tid pid pre] by (auto intro: evolves_content)
qed

interpretation wd: growing_documents wiki_wf versions wiki_step
  by unfold_locales (use wiki_step_evolves in \<open>auto simp: evolves_wiki_def\<close>)

end
