(* ===== verification/Wiki_Demo.thy ===== *)
theory Wiki_Demo
  imports Wiki_Run Executions
begin

text \<open>A wiki with one page, shared between two projects, for the examples.\<close>

definition demo_project :: "string \<Rightarrow> project" where
  "demo_project i = \<lparr>p_id = i, p_name = i, p_slug = i, p_path = ''/w'', p_settings = to_string JNull, p_deleted_at = None,
     p_created_at = 0, p_updated_at = 0\<rparr>"

definition demo_projects :: catalog where
  "demo_projects = \<lparr>ct_projects = [demo_project ''p'', demo_project ''q''], ct_mcp_servers = [], ct_project_mcp_servers = [],
     ct_execution_agents = []\<rparr>"

definition demo_member :: "string \<Rightarrow> string \<Rightarrow> tag_member" where
  "demo_member pid level = \<lparr>tm_id = pid, tm_tag_id = ''x'', tm_project_id = pid, tm_access_level = level,
     tm_created_by = None, tm_created_at = 0, tm_revoked_at = None\<rparr>"

text \<open>A page of project \<open>p\<close>, which \<open>q\<close> may read and write through the tag.\<close>

definition demo_wiki :: wiki where
  "demo_wiki = \<lparr>wk_pages = [new_page ''g'' ''p'' ''s'' ''T'' ''one two'' None 0], wk_revisions = [],
     wk_tags = [\<lparr>wt_id = ''x'', wt_name = ''team''\<rparr>], wk_page_tags = [(''g'', ''x'')],
     wk_members = [demo_member ''p'' ''read_write'', demo_member ''q'' ''read_write''], wk_subscriptions = []\<rparr>"

definition demo_world :: wiki_world where
  "demo_world = \<lparr>ww_db = empty_db, ww_cat = demo_projects, ww_wiki = demo_wiki\<rparr>"

definition demo_wiki_env :: wiki_env where
  "demo_wiki_env = \<lparr>we_lower = (\<lambda>s. s), we_timestamp = (\<lambda>_. None), we_new_id = ''n'', we_tag_id = (\<lambda>_. ''y'')\<rparr>"

definition demo_patch :: patch_page_request where
  "demo_patch = \<lparr>pq_revision_number = 1,
     pq_edits = Some [\<lparr>ed_old_string = ''two'', ed_new_string = ''three'', ed_replace_all = False\<rparr>], pq_title = None,
     pq_add_tags = None, pq_remove_tags = None, pq_acknowledge_share = None, pq_summary = None\<rparr>"

definition demo_change :: page_change where
  "demo_change = \<lparr>pc_project_id = ''p'', pc_slug = ''s'', pc_expected_page_id = ''g'', pc_expected_revision = 1, pc_title = None,
     pc_add_tags = [], pc_remove_tags = [], pc_summary = None, pc_updated_by = None, pc_foreign = None,
     pc_acknowledge_share = False\<rparr>"

lemma demo_wiki_wf: "wiki_wf demo_wiki"
  by (simp add: wiki_wf_def pages_wf_def tags_wf_def demo_wiki_def revisions_of_def live_pages_def new_page_def address_def)

text \<open>A live session of project \<open>q\<close>.\<close>

definition demo_reader :: db where
  "demo_reader = empty_db\<lparr>
     sessions := [new_session ''r'' ''e'' ''a'' None None None None ''slug'' (to_string JNull) 0],
     executions := [(new_execution ''e'' ''c'' None None None 2 5 (to_string JNull) (''open'', to_string JNull) 0)\<lparr>x_project_id := Some ''q''\<rparr>]\<rparr>"

definition demo_reader_world :: wiki_world where
  "demo_reader_world = \<lparr>ww_db = demo_reader, ww_cat = demo_projects, ww_wiki = demo_wiki\<rparr>"

definition demo_put :: put_page_request where
  "demo_put = \<lparr>pp_title = ''N'', pp_body = ''b'', pp_tags = Some [''other''], pp_acknowledge_share = None\<rparr>"

text \<open>
  The page carries two tags: one through which \<open>q\<close> may read it, and one of which \<open>q\<close> is a member that may write.
\<close>

definition demo_two_tags :: wiki_world where
  "demo_two_tags = \<lparr>ww_db = empty_db, ww_cat = demo_projects, ww_wiki = demo_wiki\<lparr>
     wk_tags := [\<lparr>wt_id = ''x'', wt_name = ''team''\<rparr>, \<lparr>wt_id = ''y'', wt_name = ''wide''\<rparr>],
     wk_page_tags := [(''g'', ''x''), (''g'', ''y'')],
     wk_members := [demo_member ''p'' ''read_write'', demo_member ''q'' ''read'',
       (demo_member ''q'' ''read_write'')\<lparr>tm_id := ''q2'', tm_tag_id := ''y''\<rparr>]\<rparr>\<rparr>"

definition demo_admission :: admit_request where
  "demo_admission = \<lparr>aq_project = ''p'', aq_access_level = ''read'', aq_acknowledge_share = None\<rparr>"

end
