(* ===== verification/Wiki_Props.thy ===== *)
theory Wiki_Props
  imports Wiki_Demo
begin

text \<open>
  What the wiki promises about content: a write replaces exactly the version it names, and no version ever
  changes or gets lost.
\<close>

section \<open>The versions of a page\<close>

text \<open>
  C3. The tables of the wiki implement a store of versioned documents. Seen through \<open>versions\<close>, the whole
  transaction of a change is the abstract write that compares the number of the version it replaces,
  edits that version and appends the result, and it happens exactly when the outcome says updated; with
  every other outcome no table differs. So of two writers who read the same version at most one succeeds.
\<close>

theorem change_refines:
  assumes "wiki_wf wk" and "apply_page_change new_id rid c transform cat db wk = (r, wk')"
  shows "wiki_wf wk' \<and> (if \<exists>page tags l. r = ChangeDone (Updated page tags) l
    then write_version (pc_expected_page_id c) (pc_expected_revision c) (requested c transform) (versions wk) = Some (versions wk')
    else wk' = wk)"
  using change_page_wf [OF assms(2,1)] by blast

theorem change_refines_witness:
  "versions (snd (apply_page_change (\<lambda>_. ''y'') ''r'' demo_change (apply_edits [\<lparr>ed_old_string = ''two'',
     ed_new_string = ''three'', ed_replace_all = False\<rparr>]) demo_projects empty_db demo_wiki)) ''g'' =
   Some [(''T'', ''one two''), (''T'', ''one three'')]"
proof -
  let ?f = "apply_edits [\<lparr>ed_old_string = ''two'', ed_new_string = ''three'', ed_replace_all = False\<rparr>]"
  obtain r wk' where run: "apply_page_change (\<lambda>_. ''y'') ''r'' demo_change ?f demo_projects empty_db demo_wiki = (r, wk')" by fastforce
  have "case fst (apply_page_change (\<lambda>_. ''y'') ''r'' demo_change ?f demo_projects empty_db demo_wiki) of
      ChangeDone (Updated _ _) _ \<Rightarrow> True | _ \<Rightarrow> False" by code_simp
  then have "\<exists>page tags l. r = ChangeDone (Updated page tags) l"
    by (auto simp: run split: change_result.splits page_change_outcome.splits)
  with change_refines [OF demo_wiki_wf run]
  have "write_version ''g'' 1 (requested demo_change ?f) (versions demo_wiki) = Some (versions wk')" by (simp add: demo_change_def)
  moreover have "versions demo_wiki ''g'' = Some [(''T'', ''one two'')]" by code_simp
  moreover have "requested demo_change ?f (''T'', ''one two'') = Some (''T'', ''one three'')" by code_simp
  ultimately have "(versions demo_wiki)(''g'' \<mapsto> [(''T'', ''one two''), (''T'', ''one three'')]) = versions wk'" by (simp add: write_version_def)
  from this [symmetric] show ?thesis by (simp add: run)
qed

section \<open>Runs\<close>

lemma sql_find_conj: "sql_find (\<lambda>r. P r \<and> Q r) rs = sql_find Q (filter P rs)"
  by (induction rs) (auto simp: sql_find_def)

lemma revision_served:
  assumes wf: "pages_wf wk" and vs: "versions wk i = Some vs" and n: "1 \<le> n" "n < length vs"
  shows "\<exists>r. get_revision_in_tx i (int n) wk = Some r \<and> (wr_title r, wr_body r) = vs ! (n - 1)"
proof -
  obtain p where p: "p \<in> set (wk_pages wk)" "wp_id p = i" and vs': "vs = map (\<lambda>r. (wr_title r, wr_body r)) (revisions_of i wk) @ [(wp_title p, wp_body p)]"
    using vs by (auto simp: versions_def dest: page_rowD)
  let ?rs = "revisions_of i wk"
  have nums: "map wr_revision_number ?rs = [1..wp_revision_number p - 1]" using wf p by (auto simp: pages_wf_def)
  have len: "n - 1 < length ?rs" using n vs' by simp
  have "int (n - 1) < wp_revision_number p - 1" using len arg_cong [where f=length, OF nums] by simp
  then have "map wr_revision_number ?rs ! (n - 1) = int n" using n(1) unfolding nums by (subst nth_upto) auto
  then have "wr_revision_number (?rs ! (n - 1)) = int n" using len by simp
  moreover have "distinct (map wr_revision_number ?rs)" by (simp add: nums)
  ultimately have "sql_find (\<lambda>r. wr_revision_number r = int n) ?rs = Some (?rs ! (n - 1))" using len by (simp add: sql_find_key_iff)
  then have "get_revision_in_tx i (int n) wk = Some (?rs ! (n - 1))" by (simp add: get_revision_in_tx_def sql_find_conj revisions_of_def)
  then show ?thesis using len by (simp add: vs' nth_append)
qed

text \<open>
  C5. History is never rewritten. Whatever requests are made, a version that a page has had keeps its
  number, title and body for ever, deleted pages included; and as soon as it is no longer the current one,
  the revision with its number serves exactly it.
\<close>

theorem versions_immutable:
  assumes wf: "wiki_wf wk" and run: "wiki_step\<^sup>*\<^sup>* wk wk'" and vs: "versions wk i = Some vs" "n < length vs"
  shows "wiki_wf wk' \<and> (\<exists>vs'. versions wk' i = Some vs' \<and> n < length vs' \<and> vs' ! n = vs ! n \<and>
    (n + 1 < length vs' \<longrightarrow> (\<exists>r. get_revision_in_tx i (int n + 1) wk' = Some r \<and> (wr_title r, wr_body r) = vs ! n)))"
proof -
  have wf': "wiki_wf wk'" using wd.run_grows [OF run wf vs(1)] by blast
  obtain vs' where vs': "versions wk' i = Some vs'" "n < length vs'" "vs' ! n = vs ! n" using wd.run_version [OF run wf vs] by blast
  show ?thesis using wf' vs' revision_served [OF _ vs'(1), of "n + 1"] by (auto simp: wiki_wf_def add.commute)
qed

theorem versions_immutable_witness:
  "\<exists>wk r. wiki_step demo_wiki wk \<and> get_revision_in_tx ''g'' 1 wk = Some r \<and> (wr_title r, wr_body r) = (''T'', ''one two'')"
proof -
  obtain rp wk where run: "patch_page demo_wiki_env None ''p'' ''s'' (Inr demo_patch) demo_world demo_world demo_world = (rp, wk)" by fastforce
  from wiki_step.patch [OF this] have step: "wiki_step demo_wiki wk" by (simp add: demo_world_def)
  have one: "versions demo_wiki ''g'' = Some [(''T'', ''one two'')]" by code_simp
  have "versions (snd (patch_page demo_wiki_env None ''p'' ''s'' (Inr demo_patch) demo_world demo_world demo_world)) ''g'' =
      Some [(''T'', ''one two''), (''T'', ''one three'')]" by code_simp
  then show ?thesis using versions_immutable [OF demo_wiki_wf r_into_rtranclp [of wiki_step, OF step] one, of 0] step by (auto simp: run)
qed

end
