(* ===== verification/Wiki_Edits_Props.thy ===== *)
theory Wiki_Edits_Props
  imports Wiki_Api
begin

text \<open>Edits of a body against a reference: where the old string occurs, and what it is replaced by.\<close>

definition occurs_at :: "string \<Rightarrow> string \<Rightarrow> nat \<Rightarrow> bool" where
  "occurs_at needle s i \<longleftrightarrow> take (length needle) (drop i s) = needle"

text \<open>The pieces between the occurrences that a scan from the left finds.\<close>

definition cut_at :: "string \<Rightarrow> string list \<Rightarrow> string \<Rightarrow> bool" where
  "cut_at needle ps s \<longleftrightarrow> ps \<noteq> [] \<and> s = join needle ps \<and>
     (\<forall>i. \<not> occurs_at needle (last ps) i) \<and> (\<forall>p \<in> set (butlast ps). \<forall>i < length p. \<not> occurs_at needle (p @ needle) i)"

definition edited :: "patch_edit \<Rightarrow> string \<Rightarrow> string \<Rightarrow> bool" where
  "edited e s s' \<longleftrightarrow>
     (if ed_replace_all e then
        \<exists>ps. 2 \<le> length ps \<and> cut_at (ed_old_string e) ps s \<and> s' = join (ed_new_string e) ps
      else
        \<exists>i. (\<forall>j. occurs_at (ed_old_string e) s j \<longleftrightarrow> j = i) \<and>
          s' = take i s @ ed_new_string e @ drop (i + length (ed_old_string e)) s)"

lemma occurs_at_0: "occurs_at n s 0 \<longleftrightarrow> take (length n) s = n"
  by (simp add: occurs_at_def)

lemma occurs_at_Suc [simp]: "occurs_at n (c # s) (Suc i) \<longleftrightarrow> occurs_at n s i"
  by (simp add: occurs_at_def)

lemma occurs_at_Nil: "n \<noteq> [] \<Longrightarrow> \<not> occurs_at n [] i"
  by (auto simp: occurs_at_def)

lemma occurs_at_drop: "occurs_at n (drop k s) i \<longleftrightarrow> occurs_at n s (k + i)"
  by (simp add: occurs_at_def add.commute)

lemma occurs_at_le: "n \<noteq> [] \<Longrightarrow> occurs_at n s i \<Longrightarrow> i + length n \<le> length s"
  unfolding occurs_at_def by (metis add.commute diff_is_0_eq drop_all le_diff_conv2 length_drop length_take min.absorb_iff2 nat_le_linear take_eq_Nil list.size(3) min_def)

lemma find_sub_SomeD: "n \<noteq> [] \<Longrightarrow> find_sub n s = Some i \<Longrightarrow> occurs_at n s i \<and> (\<forall>j < i. \<not> occurs_at n s j)"
proof (induction n s arbitrary: i rule: find_sub.induct)
  case (2 n c s)
  then show ?case
    by (auto simp: occurs_at_0 less_Suc_eq_0_disj split: if_splits)
qed (auto split: if_splits)

lemma find_sub_NoneD: "find_sub n s = None \<Longrightarrow> \<not> occurs_at n s i"
proof (induction n s arbitrary: i rule: find_sub.induct)
  case (2 n c s)
  then show ?case by (cases i) (auto simp: occurs_at_0 split: if_splits)
qed (auto split: if_splits dest: occurs_at_Nil)

lemma find_sub_None_iff: "n \<noteq> [] \<Longrightarrow> find_sub n s = None \<longleftrightarrow> (\<forall>i. \<not> occurs_at n s i)"
  using find_sub_NoneD find_sub_SomeD by (metis not_Some_eq)

lemma join_Cons: "join sep (x # xs) = (if xs = [] then x else x @ sep @ join sep xs)"
  by (cases xs) auto

lemma occurs_at_cases: "\<not> occurs_at n (c # s) i \<longleftrightarrow> (case i of 0 \<Rightarrow> take (length n) (c # s) \<noteq> n | Suc j \<Rightarrow> \<not> occurs_at n s j)"
  by (cases i) (simp_all add: occurs_at_0)

lemma replace_sub_cut:
  assumes "old \<noteq> []"
  shows "\<exists>ps. cut_at old ps s \<and> replace_sub old new s = join new ps"
  using assms
proof (induction old new s rule: replace_sub.induct)
  case (1 old new s)
  consider "s = []" | "s \<noteq> []" "take (length old) s = old" | "s \<noteq> []" "take (length old) s \<noteq> old" by blast
  then show ?case
  proof cases
    case 1
    have "cut_at old [[]] []" using "1.prems" by (simp add: cut_at_def occurs_at_Nil)
    then show ?thesis using 1 by (intro exI [of _ "[[]]"]) (simp add: replace_sub.simps)
  next
    case 2
    then obtain ps where ps: "cut_at old ps (drop (length old) s)" "replace_sub old new (drop (length old) s) = join new ps"
      using "1.IH"(1) "1.prems" by auto
    have "s = old @ drop (length old) s" using 2 by (metis append_take_drop_id)
    then have "cut_at old ([] # ps) s" using ps(1) by (auto simp: cut_at_def join_Cons)
    moreover have "replace_sub old new s = new @ join new ps" using 2 ps(2) "1.prems" by (simp add: replace_sub.simps [of old new s])
    ultimately show ?thesis using ps(1) by (intro exI [of _ "[] # ps"]) (simp add: cut_at_def join_Cons)
  next
    case 3
    then obtain c t where s: "s = c # t" by (cases s) auto
    obtain p qs where ps: "cut_at old (p # qs) t" "replace_sub old new t = join new (p # qs)"
      using "1.IH"(2) "1.prems" 3 s by (auto simp: cut_at_def neq_Nil_conv)
    have no: "\<not> occurs_at old s 0" using 3 by (simp add: occurs_at_0)
    have "cut_at old ((c # p) # qs) s"
      using ps(1) no by (cases "qs = []") (auto simp: cut_at_def join_Cons s occurs_at_cases take_Cons' split: if_splits nat.splits)
    moreover have "join new ((c # p) # qs) = c # join new (p # qs)" by (simp add: join_Cons)
    ultimately show ?thesis using 3 ps "1.prems" s by (intro exI [of _ "(c # p) # qs"]) (simp add: replace_sub.simps [of old new "c # t"])
  qed
qed

lemma replace_sub_none: "old \<noteq> [] \<Longrightarrow> \<forall>i. \<not> occurs_at old s i \<Longrightarrow> replace_sub old new s = s"
proof (induction s)
  case (Cons c s)
  then have "take (length old) (c # s) \<noteq> old" "\<forall>i. \<not> occurs_at old s i" by (metis occurs_at_0, metis occurs_at_Suc)
  with Cons show ?case by (simp add: replace_sub.simps [of old new "c # s"])
qed (simp add: replace_sub.simps)

lemma replace_sub_piece:
  "old \<noteq> [] \<Longrightarrow> \<forall>i < length p. \<not> occurs_at old (p @ old) i \<Longrightarrow>
    replace_sub old new (p @ old @ r) = p @ new @ replace_sub old new r"
proof (induction p)
  case (Cons c p)
  have "\<not> occurs_at old (c # p @ old) 0" "\<forall>i < length p. \<not> occurs_at old (p @ old) i" using Cons.prems(2) by force+
  then have "take (length old) (c # p @ old @ r) \<noteq> old" by (auto simp: occurs_at_0 take_Cons')
  with Cons \<open>\<forall>i < length p. \<not> occurs_at old (p @ old) i\<close> show ?case by (simp add: replace_sub.simps [of old new "c # p @ old @ r"])
qed (simp add: replace_sub.simps [of old new "old @ r"])

lemma cut_at_replace: "old \<noteq> [] \<Longrightarrow> cut_at old ps s \<Longrightarrow> join new ps = replace_sub old new s"
proof (induction ps arbitrary: s)
  case (Cons p ps)
  then show ?case
    by (cases "ps = []") (auto simp: cut_at_def join_Cons replace_sub_none replace_sub_piece)
qed (simp add: cut_at_def)

lemma replace_sub_iff: "old \<noteq> [] \<Longrightarrow> (\<exists>ps. cut_at old ps s \<and> s' = join new ps) \<longleftrightarrow> s' = replace_sub old new s"
  using replace_sub_cut cut_at_replace by metis

lemma cut_at_occurs: "cut_at old ps s \<Longrightarrow> 2 \<le> length ps \<longleftrightarrow> (\<exists>i. occurs_at old s i)"
proof -
  assume cut: "cut_at old ps s"
  then obtain p qs where ps: "ps = p # qs" by (cases ps) (auto simp: cut_at_def)
  have "occurs_at old (p @ old @ join old qs) (length p)" by (simp add: occurs_at_def)
  show ?thesis
  proof (cases "qs = []")
    case True
    with cut have "s = p" "\<forall>i. \<not> occurs_at old p i" by (simp_all add: cut_at_def ps)
    with True show ?thesis by (simp add: ps)
  next
    case False
    with cut have "s = p @ old @ join old qs" by (simp add: cut_at_def ps join_Cons)
    with False \<open>occurs_at old (p @ old @ join old qs) (length p)\<close> show ?thesis by (cases qs) (auto simp: ps)
  qed
qed

section \<open>One edit\<close>

lemma apply_edit_iff:
  assumes "ed_old_string e \<noteq> []"
  shows "apply_edit e s = Inr s' \<longleftrightarrow> edited e s s'"
proof (cases "find_sub (ed_old_string e) s")
  case None
  then have none: "\<not> occurs_at (ed_old_string e) s i" for i by (rule find_sub_NoneD)
  then have "\<not> (2 \<le> length ps \<and> cut_at (ed_old_string e) ps s)" for ps using cut_at_occurs [of _ ps s] by blast
  with None none show ?thesis by (auto simp: apply_edit_def edited_def)
next
  case (Some i)
  note found = find_sub_SomeD [OF assms Some]
  have le: "i + 1 \<le> length s" using occurs_at_le [OF assms, of s i] found assms by (cases "ed_old_string e") auto
  have later: "find_sub (ed_old_string e) (drop (i + 1) s) = None \<longleftrightarrow> (\<forall>j. occurs_at (ed_old_string e) s j \<longrightarrow> j = i)"
    (is "?none \<longleftrightarrow> ?only")
  proof
    assume ?none
    then have above: "\<not> occurs_at (ed_old_string e) s (i + 1 + k)" for k
      using find_sub_None_iff [OF assms, of "drop (i + 1) s"] occurs_at_drop by blast
    show ?only
    proof (intro allI impI)
      fix j assume j: "occurs_at (ed_old_string e) s j"
      then have "\<not> j < i" using found by blast
      moreover have "\<not> i < j" using above [of "j - i - 1"] j by auto
      ultimately show "j = i" by simp
    qed
  next
    assume ?only
    then have "\<not> occurs_at (ed_old_string e) (drop (i + 1) s) k" for k unfolding occurs_at_drop by (metis add.assoc add_Suc_right n_not_Suc_n add_cancel_right_right Suc_eq_plus1 less_add_Suc1 less_irrefl)
    then show ?none using find_sub_None_iff [OF assms] by blast
  qed
  show ?thesis
  proof (cases "ed_replace_all e")
    case True
    have "(\<exists>ps. 2 \<le> length ps \<and> cut_at (ed_old_string e) ps s \<and> s' = join (ed_new_string e) ps) \<longleftrightarrow>
        s' = replace_sub (ed_old_string e) (ed_new_string e) s"
      using found cut_at_occurs [of "ed_old_string e" _ s] replace_sub_iff [OF assms, of s s' "ed_new_string e"] by blast
    with True Some assms show ?thesis by (auto simp: apply_edit_def edited_def replace_all_in_def)
  next
    case False
    have "(\<exists>k. (\<forall>j. occurs_at (ed_old_string e) s j \<longleftrightarrow> j = k) \<and> s' = take k s @ ed_new_string e @ drop (k + length (ed_old_string e)) s) \<longleftrightarrow>
      (\<forall>j. occurs_at (ed_old_string e) s j \<longrightarrow> j = i) \<and> s' = take i s @ ed_new_string e @ drop (i + length (ed_old_string e)) s"
      using found by metis
    with False Some le later show ?thesis by (auto simp: apply_edit_def edited_def)
  qed
qed

section \<open>A list of edits\<close>

lemma edit_loop_iff:
  assumes "\<forall>e \<in> set es. ed_old_string e \<noteq> []"
  shows "edit_loop n es s = Inr s' \<longleftrightarrow>
    (\<exists>ts. length ts = length es + 1 \<and> hd ts = s \<and> last ts = s' \<and> (\<forall>k < length es. edited (es ! k) (ts ! k) (ts ! (k + 1))))"
  using assms
proof (induction es arbitrary: n s)
  case Nil
  show ?case by (auto simp: length_Suc_conv)
next
  case (Cons e es)
  have ok: "apply_edit e s = Inr t \<longleftrightarrow> edited e s t" for t using apply_edit_iff Cons.prems by simp
  have "edit_loop n (e # es) s = Inr s' \<longleftrightarrow> (\<exists>t. edited e s t \<and> edit_loop (n + 1) es t = Inr s')"
    by (auto simp: ok [symmetric] split: sum.splits)
  also have "\<dots> \<longleftrightarrow> (\<exists>ts. length ts = length es + 1 \<and> edited e s (hd ts) \<and> last ts = s' \<and>
      (\<forall>k < length es. edited (es ! k) (ts ! k) (ts ! (k + 1))))"
    using Cons by auto
  also have "\<dots> \<longleftrightarrow> (\<exists>ts. length ts = length (e # es) + 1 \<and> hd ts = s \<and> last ts = s' \<and>
      (\<forall>k < length (e # es). edited ((e # es) ! k) (ts ! k) (ts ! (k + 1))))" (is "?l \<longleftrightarrow> ?r")
  proof
    assume ?l
    then obtain ts where ts: "length ts = length es + 1" "edited e s (hd ts)" "last ts = s'"
      "\<forall>k < length es. edited (es ! k) (ts ! k) (ts ! (k + 1))" by blast
    then have "edited ((e # es) ! k) ((s # ts) ! k) ((s # ts) ! (k + 1))" if "k < length (e # es)" for k
      using that hd_conv_nth [of ts] by (cases k; cases "ts = []") auto
    with ts show ?r by (intro exI [of _ "s # ts"]) auto
  next
    assume ?r
    then obtain ts where ts: "length ts = length es + 2" "hd ts = s" "last ts = s'"
      "\<forall>k < length es + 1. edited ((e # es) ! k) (ts ! k) (ts ! (k + 1))" by auto
    then obtain us where us: "ts = s # us" "us \<noteq> []" by (cases ts; cases "tl ts = []") auto
    have "edited (es ! k) (us ! k) (us ! (k + 1))" if "k < length es" for k
      using ts(4) [rule_format, of "k + 1"] that by (simp add: us)
    moreover have "edited e s (hd us)" using ts(4) [rule_format, of 0] us by (simp add: hd_conv_nth)
    ultimately show ?l using ts us by (intro exI [of _ us]) auto
  qed
  finally show ?case .
qed

lemma empty_old_string_None: "empty_old_string n es = None \<Longrightarrow> \<forall>e \<in> set es. ed_old_string e \<noteq> []"
  by (induction es arbitrary: n) (auto split: if_splits)

lemma check_patch_edits: "check_patch req = Inr ck \<Longrightarrow> \<forall>e \<in> set (ck_edits ck). ed_old_string e \<noteq> []"
  by (auto simp: check_patch_def Let_def split: sum.splits if_splits option.splits dest!: empty_old_string_None)

text \<open>
  C40. The edits of an accepted request are applied one after the other, and the request yields a body exactly
  when each of them applies to the body that the ones before it left and the result is not empty. An edit of a
  single place applies exactly when the old string occurs once, overlapping occurrences counted, and
  replaces it there; an edit of all places cuts the body at the occurrences found from the left, of which
  there must be one, and joins the pieces with the new string.
\<close>

theorem edits_exact:
  assumes "check_patch req = Inr ck"
  shows "apply_edits (ck_edits ck) s = Inr s' \<longleftrightarrow> s' \<noteq> [] \<and>
    (\<exists>ts. length ts = length (ck_edits ck) + 1 \<and> hd ts = s \<and> last ts = s' \<and>
      (\<forall>k < length (ck_edits ck). edited (ck_edits ck ! k) (ts ! k) (ts ! (k + 1))))"
  using edit_loop_iff [OF check_patch_edits [OF assms], of 0 s s'] by (auto simp: apply_edits_def split: sum.splits)

theorem edits_exact_witness:
  "edited \<lparr>ed_old_string = ''aa'', ed_new_string = ''b'', ed_replace_all = True\<rparr> ''caaa'' ''cba'' \<and>
   \<not> edited \<lparr>ed_old_string = ''aa'', ed_new_string = ''b'', ed_replace_all = False\<rparr> ''caaa'' ''cba''"
proof -
  let ?req = "\<lambda>x. \<lparr>pq_revision_number = 1,
     pq_edits = Some [\<lparr>ed_old_string = ''aa'', ed_new_string = ''b'', ed_replace_all = x\<rparr>], pq_title = None,
     pq_add_tags = None, pq_remove_tags = None, pq_acknowledge_share = None, pq_summary = None\<rparr>"
  let ?ck = "\<lambda>x. \<lparr>ck_edits = [\<lparr>ed_old_string = ''aa'', ed_new_string = ''b'', ed_replace_all = x\<rparr>], ck_title = None, ck_add_tags = [],
     ck_remove_tags = []\<rparr>"
  have ck: "check_patch (?req x) = Inr (?ck x)" for x
    by (simp add: check_patch_def parse_title_def normalize_tags_def MAX_EDITS_def)
  have "apply_edits (ck_edits (?ck True)) ''caaa'' = Inr ''cba''" "apply_edits (ck_edits (?ck False)) ''caaa'' \<noteq> Inr ''cba''"
    by code_simp+
  then show ?thesis
    using edits_exact [OF ck [of True], of "''caaa''" "''cba''"] edits_exact [OF ck [of False], of "''caaa''" "''cba''"]
    by (force simp: length_Suc_conv)
qed

end
