(* ===== verification/Wiki_Access.thy ===== *)
theory Wiki_Access
  imports Wiki_Demo
begin

text \<open>
  What the tables say about access: the access of a project to a page, as \<open>get_page\<close> computes it, in terms of
  tags and memberships, and how writes may change it.
\<close>

section \<open>Links and access\<close>

definition carries :: "string \<Rightarrow> string \<Rightarrow> wiki \<Rightarrow> bool" where
  "carries i n wk \<longleftrightarrow> (\<exists>g \<in> set (wk_tags wk). wt_name g = n \<and> (i, wt_id g) \<in> set (wk_page_tags wk))"

definition member_at :: "string \<Rightarrow> string \<Rightarrow> string \<Rightarrow> wiki \<Rightarrow> bool" where
  "member_at q tid level wk \<longleftrightarrow> (\<exists>m \<in> set (wk_members wk). active_row tid q m \<and> tm_access_level m = level)"

definition linked :: "string \<Rightarrow> string \<Rightarrow> string \<Rightarrow> string \<Rightarrow> catalog \<Rightarrow> wiki \<Rightarrow> bool" where
  "linked q own n level cat wk \<longleftrightarrow> own \<noteq> q \<and> is_active_in_tx q cat \<and> is_active_in_tx own cat \<and>
     (\<exists>g \<in> set (wk_tags wk). wt_name g = n \<and> member_at q (wt_id g) level wk \<and> (\<exists>lv. member_at own (wt_id g) lv wk))"

text \<open>The context in which a request of project \<open>q\<close> reads, and its access to a page.\<close>

definition project_context :: "string \<Rightarrow> catalog \<Rightarrow> db \<Rightarrow> wiki \<Rightarrow> sharing_context" where
  "project_context q cat db wk = \<lparr>sc_caller_project_id = q, sc_session_id = None, sc_links = shared_links q cat wk,
     sc_cross_project_writes = cross_project_writes_in_tx db, sc_caller_active = is_active_in_tx q cat\<rparr>"

definition project_access :: "string \<Rightarrow> string \<Rightarrow> catalog \<Rightarrow> db \<Rightarrow> wiki \<Rightarrow> access option" where
  "project_access q i cat db wk =
     (case page_with_tags_by_id_in_tx i wk of
        None \<Rightarrow> None
      | Some (page, tags) \<Rightarrow> access_to (project_context q cat db wk) (wp_project_id page) tags)"

fun access_rank :: "access option \<Rightarrow> nat" where
  "access_rank None = 0"
| "access_rank (Some Read) = 1"
| "access_rank (Some ReadWrite) = 2"

lemma set_page_tag_names: "set (page_tag_names_in_tx i wk) = {n. carries i n wk}"
  by (auto simp: page_tag_names_in_tx_def carries_def split: if_splits)

lemma in_comprehension: "x \<in> set (concat (map (\<lambda>m. if P m then f m else []) ms)) \<longleftrightarrow> (\<exists>m \<in> set ms. P m \<and> x \<in> set (f m))"
  by auto

lemma in_shared_links:
  "l \<in> set (shared_links q cat wk) \<longleftrightarrow>
     (\<exists>mine \<in> set (wk_members wk). (tm_project_id mine = q \<and> tm_revoked_at mine = None \<and> is_active_in_tx q cat) \<and>
       (\<exists>theirs \<in> set (wk_members wk). (tm_tag_id theirs = tm_tag_id mine \<and> tm_project_id theirs \<noteq> q \<and>
          tm_revoked_at theirs = None \<and> is_active_in_tx (tm_project_id theirs) cat) \<and>
         (\<exists>t \<in> set (wk_tags wk). wt_id t = tm_tag_id mine \<and>
            l = \<lparr>sl_tag_id = wt_id t, sl_tag_name = wt_name t, sl_owner_project_id = tm_project_id theirs,
              sl_access_level = tm_access_level mine\<rparr>)))"
  unfolding shared_links_def in_comprehension by simp

lemma shared_links_iff:
  "(\<exists>l \<in> set (shared_links q cat wk). sl_owner_project_id l = own \<and> sl_tag_name l = n \<and> sl_access_level l = level) \<longleftrightarrow>
    linked q own n level cat wk" (is "?l \<longleftrightarrow> ?r")
proof
  assume ?l
  then obtain l where l: "l \<in> set (shared_links q cat wk)" "sl_owner_project_id l = own" "sl_tag_name l = n" "sl_access_level l = level"
    by blast
  from l(1) obtain mine theirs t where "mine \<in> set (wk_members wk)" "theirs \<in> set (wk_members wk)" "t \<in> set (wk_tags wk)"
    "tm_project_id mine = q" "tm_revoked_at mine = None" "is_active_in_tx q cat" "tm_tag_id theirs = tm_tag_id mine"
    "tm_project_id theirs \<noteq> q" "tm_revoked_at theirs = None" "is_active_in_tx (tm_project_id theirs) cat" "wt_id t = tm_tag_id mine"
    and lr: "l = \<lparr>sl_tag_id = wt_id t, sl_tag_name = wt_name t, sl_owner_project_id = tm_project_id theirs,
       sl_access_level = tm_access_level mine\<rparr>"
    unfolding in_shared_links by blast
  moreover have "tm_project_id theirs = own" "wt_name t = n" "tm_access_level mine = level" using l(2-4) by (simp_all add: lr)
  ultimately show ?r unfolding linked_def member_at_def active_row_def by metis
next
  assume ?r
  then obtain g mine theirs where "g \<in> set (wk_tags wk)" "mine \<in> set (wk_members wk)" "theirs \<in> set (wk_members wk)"
    "wt_name g = n" "active_row (wt_id g) q mine" "tm_access_level mine = level" "active_row (wt_id g) own theirs"
    "own \<noteq> q" "is_active_in_tx q cat" "is_active_in_tx own cat"
    unfolding linked_def member_at_def by blast
  moreover from this have "tm_project_id theirs = own" by (simp add: active_row_def)
  ultimately have "\<lparr>sl_tag_id = wt_id g, sl_tag_name = n, sl_owner_project_id = own, sl_access_level = level\<rparr> \<in> set (shared_links q cat wk)"
    unfolding in_shared_links active_row_def by metis
  then show ?l by force
qed

definition link_on :: "string \<Rightarrow> string list \<Rightarrow> shared_tag_link \<Rightarrow> bool" where
  "link_on pid tags l \<longleftrightarrow> sl_owner_project_id l = pid \<and> sl_tag_name l \<in> set tags"

lemma access_loop_eq:
  "access_loop writes pid tags ls a =
     (if writes \<and> (\<exists>l \<in> set ls. link_on pid tags l \<and> sl_access_level l = ACCESS_READ_WRITE) then Some ReadWrite
      else if \<exists>l \<in> set ls. link_on pid tags l then Some Read else a)"
proof (induction ls arbitrary: a writes)
  case (Cons l ls)
  have "access_loop writes pid tags (l # ls) a = (if \<not> link_on pid tags l then access_loop writes pid tags ls a
      else if sl_access_level l = ACCESS_READ_WRITE \<and> writes then Some ReadWrite else access_loop writes pid tags ls (Some Read))"
    by (simp add: link_on_def)
  then show ?case by (auto simp: Cons.IH simp del: access_loop.simps)
qed simp

lemma access_to_eq:
  "access_to (project_context q cat db wk) own tags =
     (if \<not> is_active_in_tx q cat then None
      else if own = q then Some ReadWrite
      else if cross_project_writes_in_tx db \<and> (\<exists>n \<in> set tags. linked q own n ACCESS_READ_WRITE cat wk) then Some ReadWrite
      else if \<exists>n \<in> set tags. \<exists>lv. linked q own n lv cat wk then Some Read
      else None)"
proof -
  have rw: "(\<exists>l \<in> set (shared_links q cat wk). link_on own tags l \<and> sl_access_level l = lv) \<longleftrightarrow>
      (\<exists>n \<in> set tags. linked q own n lv cat wk)" for lv
    unfolding shared_links_iff [symmetric] link_on_def by blast
  have "(\<exists>l \<in> set (shared_links q cat wk). link_on own tags l) \<longleftrightarrow> (\<exists>n \<in> set tags. \<exists>lv. linked q own n lv cat wk)"
    unfolding shared_links_iff [symmetric] link_on_def by blast
  then show ?thesis by (simp only: access_to_def project_context_def sharing_context.simps access_loop_eq rw)
qed

lemma sql_find_unique: "r \<in> set rs \<Longrightarrow> P r \<Longrightarrow> (\<And>x. x \<in> set rs \<Longrightarrow> P x \<Longrightarrow> x = r) \<Longrightarrow> sql_find P rs = Some r"
proof (induction rs)
  case (Cons x xs)
  show ?case
  proof (cases "P x")
    case True
    then show ?thesis using Cons.prems(3) [of x] by (simp add: sql_find_def)
  next
    case False
    then have "r \<in> set xs" using Cons.prems(1,2) by auto
    from Cons.IH [OF this Cons.prems(2)] Cons.prems(3) False show ?thesis by (simp add: sql_find_def)
  qed
qed simp

lemma project_access_page:
  assumes "pages_wf wk" "page \<in> set (wk_pages wk)" "wp_deleted_at page = None"
  shows "project_access q (wp_id page) cat db wk =
    access_to (project_context q cat db wk) (wp_project_id page) (page_tag_names_in_tx (wp_id page) wk)"
proof -
  have "sql_find (\<lambda>p. wp_id p = wp_id page \<and> wp_deleted_at p = None) (wk_pages wk) = Some page"
    by (rule sql_find_unique) (use assms in \<open>auto simp: pages_wf_def dest: key_inj\<close>)
  then show ?thesis by (simp add: project_access_def page_with_tags_by_id_in_tx_def live_page_def with_tags_def)
qed

lemma project_access_SomeD:
  assumes "project_access q i cat db wk = Some a"
  obtains page where "page \<in> set (wk_pages wk)" "wp_id page = i" "wp_deleted_at page = None"
proof -
  obtain page tags where "page_with_tags_by_id_in_tx i wk = Some (page, tags)"
    using assms by (auto simp: project_access_def split: option.splits)
  then have "live_page (\<lambda>p. wp_id p = i) wk = Some page" by (auto simp: page_with_tags_by_id_in_tx_def with_tags_def)
  from live_pageD [OF this] show ?thesis using that by blast
qed

section \<open>Tables that grow\<close>

definition members_wf :: "wiki \<Rightarrow> bool" where
  "members_wf wk \<longleftrightarrow> (\<forall>m \<in> set (wk_members wk). tm_tag_id m \<in> wt_id ` set (wk_tags wk))"

lemma linked_extend:
  assumes "members_wf wk" "wk_members wk' = wk_members wk" "set (wk_tags wk) \<subseteq> set (wk_tags wk')" "distinct (map wt_id (wk_tags wk'))"
  shows "linked q own n lv cat wk' = linked q own n lv cat wk"
proof -
  have "g \<in> set (wk_tags wk)" if g: "g \<in> set (wk_tags wk')" "member_at q (wt_id g) lv wk" for g
  proof -
    obtain g' where "g' \<in> set (wk_tags wk)" "wt_id g' = wt_id g"
      using g(2) assms(1) by (auto simp: member_at_def active_row_def members_wf_def)
    then show ?thesis using key_inj [OF assms(4) _ g(1)] assms(3) by blast
  qed
  moreover have "member_at q' t lv' wk' = member_at q' t lv' wk" for q' t lv' by (simp add: member_at_def assms(2))
  ultimately show ?thesis using assms(3) by (auto simp: linked_def)
qed

lemma carries_extend:
  assumes "tags_wf wk" "set (wk_tags wk) \<subseteq> set (wk_tags wk')" "distinct (map wt_id (wk_tags wk'))"
    and "\<And>t. (i, t) \<in> set (wk_page_tags wk') \<longleftrightarrow> (i, t) \<in> set (wk_page_tags wk)"
  shows "carries i n wk' = carries i n wk"
proof -
  have "g \<in> set (wk_tags wk)" if g: "g \<in> set (wk_tags wk')" "(i, wt_id g) \<in> set (wk_page_tags wk)" for g
  proof -
    obtain g' where "g' \<in> set (wk_tags wk)" "wt_id g' = wt_id g" using g(2) assms(1) unfolding tags_wf_def by fastforce
    then show ?thesis using key_inj [OF assms(3) _ g(1)] assms(2) by blast
  qed
  then show ?thesis using assms(2,4) by (auto simp: carries_def)
qed

lemma access_mono:
  assumes wf: "pages_wf wk" "pages_wf wk'"
    and page: "page \<in> set (wk_pages wk)" "wp_deleted_at page = None" "page' \<in> set (wk_pages wk')" "wp_deleted_at page' = None"
    and same: "wp_id page' = wp_id page" "wp_project_id page' = wp_project_id page"
    and links: "\<And>n lv. carries (wp_id page) n wk' \<Longrightarrow> linked q (wp_project_id page) n lv cat wk' \<Longrightarrow>
      \<exists>n'. carries (wp_id page) n' wk \<and> linked q (wp_project_id page) n' lv cat wk"
  shows "access_rank (project_access q (wp_id page) cat db wk') \<le> access_rank (project_access q (wp_id page) cat db wk)"
  using links project_access_page [OF wf(1) page(1,2), of q cat db] project_access_page [OF wf(2) page(3,4), of q cat db]
  by (auto simp: access_to_eq set_page_tag_names same) blast+

section \<open>Audiences\<close>

lemma member_rows_iff:
  "(\<exists>m \<in> set (member_rows tid cat wk). mb_project_id m = q \<and> mb_access_level m = lv) \<longleftrightarrow> member_at q tid lv wk \<and> is_active_in_tx q cat"
  unfolding member_rows_def in_comprehension member_at_def active_row_def is_active_in_tx_def active_project_def
  by (auto simp: sql_find_None_iff) (metis (mono_tags, lifting) IntI mem_Collect_eq)

lemma audience_owed:
  assumes "(n, tid) \<in> set held" "member_at own tid lv wk" "is_active_in_tx own cat" "member_at q tid lv' wk" "is_active_in_tx q cat" "q \<noteq> own"
  shows "\<exists>a \<in> set (audiences_for_publication own slug held cat wk). pa_tag_name a = n"
proof -
  have "\<exists>m \<in> set (member_rows tid cat wk). mb_project_id m = own" "\<exists>m \<in> set (member_rows tid cat wk). mb_project_id m = q"
    using assms member_rows_iff by blast+
  then have "\<exists>a. audience_of own slug cat wk (n, tid) = Some a \<and> pa_tag_name a = n"
    using assms(6) by (auto simp: audience_of_def list_ex_iff active_members_def Let_def filter_empty_conv)
  then show ?thesis using assms(1) by (auto simp: audiences_for_publication_def set_map_filter')
qed

section \<open>Writes expose nothing unasked\<close>

lemma owner_access: "own = q \<Longrightarrow> access_to (project_context q cat db wk) own tags = (if is_active_in_tx q cat then Some ReadWrite else None)"
  by (simp add: access_to_eq)

lemma link_owed:
  assumes wf: "tags_wf wk'" and l: "linked q own n lv cat wk'"
    and held: "(n, t) \<in> set held" "\<lparr>wt_id = t, wt_name = n\<rparr> \<in> set (wk_tags wk')" and mem: "wk_members wk1 = wk_members wk'"
  shows "\<exists>a \<in> set (audiences_for_publication own slug held cat wk1). pa_tag_name a = n"
proof -
  obtain g lv' where g: "g \<in> set (wk_tags wk')" "wt_name g = n" "member_at q (wt_id g) lv wk'" "member_at own (wt_id g) lv' wk'"
    using l by (auto simp: linked_def)
  have "g = \<lparr>wt_id = t, wt_name = n\<rparr>"
    using g(1,2) held(2) wf key_inj [of wt_name "wk_tags wk'" g "\<lparr>wt_id = t, wt_name = n\<rparr>"] by (simp add: tags_wf_def)
  then show ?thesis
    using g l held(1) by (intro audience_owed [of n t held own lv' wk1 cat q lv]) (auto simp: linked_def member_at_def mem)
qed

text \<open>What a page carries after tags were added under their held ids.\<close>

lemma carries_held:
  assumes wf: "tags_wf wk'" and n: "carries i n wk'" "\<And>h. (i, wt_id h) \<in> set (wk_page_tags wk') \<Longrightarrow> wt_name h = n \<Longrightarrow> h \<in> set (wk_tags wk') \<Longrightarrow> \<exists>n'. (n', wt_id h) \<in> set held"
    and held: "\<And>n t. (n, t) \<in> set held \<Longrightarrow> \<lparr>wt_id = t, wt_name = n\<rparr> \<in> set (wk_tags wk')"
  obtains t where "(n, t) \<in> set held"
proof -
  obtain h where h: "h \<in> set (wk_tags wk')" "wt_name h = n" "(i, wt_id h) \<in> set (wk_page_tags wk')" using n(1) by (auto simp: carries_def)
  then obtain n' where n': "(n', wt_id h) \<in> set held" using n(2) by blast
  have eq: "h = \<lparr>wt_id = wt_id h, wt_name = n'\<rparr>"
    using held [OF n'] h(1) wf key_inj [of wt_id "wk_tags wk'" h "\<lparr>wt_id = wt_id h, wt_name = n'\<rparr>"] by (simp add: tags_wf_def)
  have "n' = n" using arg_cong [OF eq, of wt_name] h(2) by simp
  then show ?thesis using n' that by blast
qed

lemma create_exposes:
  assumes run: "create_page new_id i pid slug title body by (Some ts) False cat db wk = (r, wk')" and wf: "wiki_wf wk" "members_wf wk"
  shows "access_rank (project_access q j cat db wk') \<le> access_rank (project_access q j cat db wk) \<or> j = i \<and> q = pid"
  using run
proof (cases rule: create_cases)
  case (created page names ps held wk1)
  have mat: "materialize_tags_in_tx new_id ts wk = Inr (held, wk1)" using created(2) by simp
  note m = materialized [OF mat]
  let ?p = "new_page i pid slug title body by (clock db)"
  have pages: "wk_pages wk' = wk_pages wk @ [?p]" and tags: "wk_tags wk' = wk_tags wk1" "wk_members wk' = wk_members wk"
    and pt: "set (wk_page_tags wk') = {(p, t) \<in> set (wk_page_tags wk). p \<noteq> i} \<union> (\<lambda>(_, t). (i, t)) ` set held"
    using created(7) m(1-3) by (auto simp: Let_def same_pages_def)
  have wf': "wiki_wf wk'" using create_page_wf [OF run wf(1)] by simp
  have ids: "distinct (map wt_id (wk_tags wk'))" using wf' by (simp add: wiki_wf_def tags_wf_def)
  note link = linked_extend [OF wf(2) tags(2) m(5) [folded tags(1)] ids]
  show ?thesis
  proof (cases "project_access q j cat db wk'")
    case (Some a)
    then obtain x where x: "x \<in> set (wk_pages wk')" "wp_id x = j" "wp_deleted_at x = None" by (rule project_access_SomeD)
    show ?thesis
    proof (cases "j = i")
      case False
      then have "x \<in> set (wk_pages wk)" using x pages by (auto simp: new_page_def)
      have "carries j n wk' = carries j n wk" for n
        by (rule carries_extend [OF _ m(5) [folded tags(1)] ids]) (use wf(1) False pt in \<open>auto simp: wiki_wf_def\<close>)
      then have "access_rank (project_access q j cat db wk') \<le> access_rank (project_access q j cat db wk)"
        using access_mono [of wk wk' x x q cat db] wf(1) wf' x \<open>x \<in> set (wk_pages wk)\<close> link by (auto simp: wiki_wf_def)
      then show ?thesis ..
    next
      case True
      then have xp: "x = ?p" using x pages wf' key_inj [of wp_id "wk_pages wk'" x ?p] by (auto simp: wiki_wf_def pages_wf_def new_page_def)
      have "\<not> linked q pid n lv cat wk'" if n: "carries i n wk'" for n lv
      proof
        assume l: "linked q pid n lv cat wk'"
        have wft: "tags_wf wk'" using wf' by (simp add: wiki_wf_def)
        obtain t where t: "(n, t) \<in> set held" by (rule carries_held [OF wft n, of held]) (use pt m(7) tags in auto)
        from link_owed [OF wft l t, of wk1 slug] m(7) [OF t] m(3) tags created(5) show False by auto
      qed
      then have "access_to (project_context q cat db wk') pid (page_tag_names_in_tx i wk') = None" if "q \<noteq> pid"
        using that by (auto simp: access_to_eq set_page_tag_names)
      then show ?thesis using True xp project_access_page [OF _ x(1,3), of q cat db] wf' by (auto simp: wiki_wf_def new_page_def)
    qed
  qed simp
qed simp

lemma change_exposes:
  assumes run: "apply_page_change new_id rid c transform cat db wk = (r, wk')" and ack: "\<not> pc_acknowledge_share c"
    and wf: "wiki_wf wk" "members_wf wk"
  shows "access_rank (project_access q j cat db wk') \<le> access_rank (project_access q j cat db wk)"
  using run
proof (cases rule: change_cases)
  case (updated new tags held wk1 page title body added)
  note m = materialized [OF updated(2)] and st = store_change_Inr [OF updated(7)] and plan = planned_Inr [OF updated(6)]
  have wf': "wiki_wf wk'" by (rule change_page_wf(1) [OF run wf(1)])
  then have wft: "tags_wf wk'" and ids: "distinct (map wt_id (wk_tags wk'))" by (simp_all add: wiki_wf_def tags_wf_def)
  have sub: "set (wk_tags wk) \<subseteq> set (wk_tags wk')" and mem: "wk_members wk' = wk_members wk" using m(3,5) st(5,6) by auto
  note link = linked_extend [OF wf(2) mem sub ids]
  have owner: "wp_project_id page = pc_project_id c" using live_pageD [OF updated(4)] by simp
  have old: "carries j n wk" if h: "h \<in> set (wk_tags wk')" "wt_name h = n" "(j, wt_id h) \<in> set (wk_page_tags wk)" for h n
  proof -
    obtain g where "g \<in> set (wk_tags wk)" "wt_id g = wt_id h" using h(3) wf(1) unfolding wiki_wf_def tags_wf_def by fastforce
    then have "g = h" using key_inj [OF ids _ h(1)] sub by blast
    then show ?thesis using h \<open>g \<in> set (wk_tags wk)\<close> by (auto simp: carries_def)
  qed
  have "carries j n wk" if n: "carries j n wk'" and l: "linked q own n lv cat wk'" and own: "j = wp_id page \<Longrightarrow> own = pc_project_id c" for n lv own
  proof (rule ccontr)
    assume no: "\<not> carries j n wk"
    let ?held = "map (\<lambda>n. (n, the (map_of held n))) added"
    have new: "(j, wt_id h) \<notin> set (wk_page_tags wk)" if h: "h \<in> set (wk_tags wk')" "wt_name h = n" for h using old [OF h] no by blast
    obtain h where "h \<in> set (wk_tags wk')" "wt_name h = n" "(j, wt_id h) \<in> set (wk_page_tags wk')" using n by (auto simp: carries_def)
    then have j: "j = wp_id page" using new [of h] st(8) m(2) by auto
    have in_held: "(n', t) \<in> set held" if "(n', t) \<in> set ?held" for n' t using that st(2) by (force dest: map_of_SomeD)
    obtain t where t: "(n, t) \<in> set ?held"
      by (rule carries_held [OF wft n, of ?held]) (use st(5,8) m(2,7) new j in_held in auto)
    have "pc_add_tags c \<noteq> []" using t plan(6) by (auto simp: ordered_tag_names_def)
    moreover from link_owed [OF wft l in_held [OF t], of wk1 "pc_slug c"] m(7) [OF in_held [OF t]] st(5,6) own [OF j]
    obtain a where "a \<in> set (audiences_for_publication (pc_project_id c) (pc_slug c) held cat wk1)" "pa_tag_name a = n" by auto
    ultimately show False using plan(7) t ack by auto
  qed
  note carried = this
  show ?thesis
  proof (cases "project_access q j cat db wk'")
    case (Some a)
    then obtain x' where x': "x' \<in> set (wk_pages wk')" "wp_id x' = j" "wp_deleted_at x' = None" by (rule project_access_SomeD)
    then obtain x where x: "x \<in> set (wk_pages wk)" "wp_id x = j" "wp_deleted_at x = None" "wp_project_id x' = wp_project_id x"
      using st(3) m(1) by (auto simp: in_sql_update changed_page_def same_pages_def split: if_splits)
    have "j = wp_id page \<Longrightarrow> x = page"
      using x(1,2) live_pageD [OF updated(4)] wf(1) m(1) key_inj [of wp_id "wk_pages wk" x page] by (auto simp: same_pages_def wiki_wf_def pages_wf_def)
    then show ?thesis
      using access_mono [of wk wk' x x' q cat db] x x' wf(1) wf' carried link owner by (auto simp: wiki_wf_def)
  qed simp
qed simp

lemma create_page_owned:
  assumes "create_page new_id i pid slug title body by tags ack cat db wk = (r, wk')"
  shows "wk' = wk \<or> (\<exists>page \<in> set (wk_pages wk'). wp_id page = i \<and> wp_project_id page = pid)"
  using assms by (cases rule: create_cases) (auto simp: Let_def new_page_def)

end
