(* ===== verification/Wiki_Access_Props.thy ===== *)
theory Wiki_Access_Props
  imports Wiki_Access
begin

text \<open>What the wiki promises about access: nothing is shared unasked, and no one writes who may not.\<close>

section \<open>Sharing\<close>

lemma put_page_run:
  assumes "put_page env a pid slug (Inr req) pre w post = (r, wk)"
  shows "wk = ww_wiki w \<or> (\<exists>p sl t b sid tags out. create_page (we_tag_id env) (we_new_id env) p sl t b sid (Some tags)
    (pp_acknowledge_share req = Some True) (ww_cat w) (ww_db w) (ww_wiki w) = (out, wk))"
  using assms
  by (auto simp: put_page_def Let_def split: sum.split_asm if_split_asm prod.split_asm create_outcome.split_asm
      scheduler_error.split_asm)

lemma patch_page_run:
  assumes "patch_page env a pid slug (Inr req) pre snap w = (rp, wk)"
  shows "wk = ww_wiki w \<or> (\<exists>project sl c ck r out. resolve_project pid (ww_cat pre) = Inr project \<and>
    resolve_caller a (p_id project) (ww_db pre) = Inr c \<and> (owns c (p_id project) \<or> foreign_refusal ck (load_sharing c pre) r = None) \<and>
    apply_page_change (we_tag_id env) (we_new_id env) (patch_change c (p_id project) sl req ck r)
      (apply_edits (ck_edits ck)) (ww_cat w) (ww_db w) (ww_wiki w) = (out, wk))"
proof -
  have "snd (patch_page env a pid slug (Inr req) pre snap w) = wk" using assms by simp
  then show ?thesis
    unfolding patch_page_def Let_def
    by (simp split: sum.split_asm if_split_asm option.split_asm) (auto split: prod.split_asm change_result.split_asm)
qed

text \<open>
  C6. A page is shared only when the writer says so. Without the acknowledgement neither a new page nor a
  change gives a project more access to any page than it had, its own new page apart: a tag that has other
  members is refused until it is confirmed, and with no member to reach no access follows from it.
\<close>

theorem writes_expose_nothing:
  assumes "put_page env a pid slug (Inr put) pre w post = (r, wk) \<and> pp_acknowledge_share put \<noteq> Some True \<or>
      patch_page env a pid slug (Inr patch) pre snap w = (rp, wk) \<and> pq_acknowledge_share patch \<noteq> Some True"
    and wf: "wiki_wf (ww_wiki w)" "members_wf (ww_wiki w)"
  shows "(\<exists>page \<in> set (wk_pages wk). wp_id page = i \<and> wp_project_id page = q) \<or>
    access_rank (project_access q i (ww_cat w) (ww_db w) wk) \<le> access_rank (project_access q i (ww_cat w) (ww_db w) (ww_wiki w))"
  using assms(1)
proof (elim disjE conjE)
  assume "put_page env a pid slug (Inr put) pre w post = (r, wk)" and ack: "pp_acknowledge_share put \<noteq> Some True"
  from put_page_run [OF this(1)] ack consider "wk = ww_wiki w"
    | p sl t b sid tags out where "create_page (we_tag_id env) (we_new_id env) p sl t b sid (Some tags) False
      (ww_cat w) (ww_db w) (ww_wiki w) = (out, wk)" by auto
  then show ?thesis
  proof cases
    case 2
    from create_exposes [OF 2 wf, of q i] create_page_owned [OF 2] show ?thesis by force
  qed simp
next
  assume "patch_page env a pid slug (Inr patch) pre snap w = (rp, wk)" and ack: "pq_acknowledge_share patch \<noteq> Some True"
  from patch_page_run [OF this(1)] consider "wk = ww_wiki w"
    | p sl c ck rv out where "apply_page_change (we_tag_id env) (we_new_id env) (patch_change c p sl patch ck rv)
      (apply_edits (ck_edits ck)) (ww_cat w) (ww_db w) (ww_wiki w) = (out, wk)" by auto
  then show ?thesis
  proof cases
    case 2
    then show ?thesis using change_exposes [OF 2 _ wf, of q i] ack by (simp add: patch_change_def)
  qed simp
qed

theorem writes_expose_nothing_witness:
  "project_access ''q'' ''n'' demo_projects empty_db
     (snd (put_page demo_wiki_env None ''p'' ''new'' (Inr demo_put) demo_world demo_world demo_world)) = None"
proof -
  let ?put = "put_page demo_wiki_env None ''p'' ''new'' (Inr demo_put) demo_world demo_world demo_world"
  have run: "?put = (fst ?put, snd ?put)" by simp
  have ack: "pp_acknowledge_share demo_put \<noteq> Some True" by (simp add: demo_put_def)
  have mwf: "members_wf demo_wiki" by (simp add: members_wf_def demo_wiki_def demo_member_def)
  have "list_all (\<lambda>p. \<not> (wp_id p = ''n'' \<and> wp_project_id p = ''q'')) (wk_pages (snd ?put))" by code_simp
  moreover have "access_rank (project_access ''q'' ''n'' demo_projects empty_db demo_wiki) = 0" by code_simp
  moreover have "access_rank x = 0 \<longleftrightarrow> x = None" for x by (cases x rule: access_rank.cases) auto
  ultimately show ?thesis
    using writes_expose_nothing [OF disjI1 [OF conjI [OF run ack]], where i = "''n''" and q = "''q''"] demo_wiki_wf mwf
    by (auto simp: demo_world_def list_all_iff)
qed

section \<open>Writing the pages of others\<close>

lemma best_level:
  "fold (better_level levels owners) tids best = Some v \<Longrightarrow>
    best = Some v \<or> v = ''read'' \<or> v = ''read_write'' \<and> (\<exists>t \<in> set tids. t \<in> set owners \<and> map_of levels t = Some ''read_write'')"
proof (induction tids arbitrary: best)
  case (Cons t tids)
  then have "fold (better_level levels owners) tids (better_level levels owners t best) = Some v" by simp
  from Cons.IH [OF this] show ?case by (auto simp: better_level_def split: if_splits option.splits)
qed simp

lemma foreign_access_write:
  assumes "foreign_access fw pid i wk = Some v" "v \<noteq> ''read''" "fw_caller_project_id fw \<noteq> pid"
  shows "\<exists>t lv. (i, t) \<in> set (wk_page_tags wk) \<and> member_at (fw_caller_project_id fw) t ''read_write'' wk \<and> member_at pid t lv wk"
proof -
  obtain t where t: "(i, t) \<in> set (wk_page_tags wk)"
    "\<exists>m \<in> set (wk_members wk). (tm_project_id m = pid \<or> tm_project_id m = fw_caller_project_id fw) \<and> tm_revoked_at m = None \<and>
       tm_project_id m \<noteq> fw_caller_project_id fw \<and> tm_tag_id m = t"
    "\<exists>m \<in> set (wk_members wk). tm_project_id m = fw_caller_project_id fw \<and> tm_revoked_at m = None \<and> tm_tag_id m = t \<and>
       tm_access_level m = ''read_write''"
    using best_level [OF assms(1) [unfolded foreign_access_def Let_def]] assms(2)
    by (auto dest!: map_of_SomeD) blast
  then show ?thesis by (auto simp: member_at_def active_row_def)
qed

lemma foreign_change:
  assumes run: "apply_page_change new_id rid c transform cat db wk = (r, wk')" and changed: "wk' \<noteq> wk"
    and wf: "wiki_wf wk" and foreign: "pc_foreign c = Some fw" "pc_add_tags c = []" "pc_remove_tags c = []"
  shows "\<exists>page \<in> set (wk_pages wk). wp_id page = pc_expected_page_id c \<and> wp_project_id page = pc_project_id c \<and>
    project_access (fw_caller_project_id fw) (wp_id page) cat db wk = Some ReadWrite \<and>
    (\<forall>sid. pc_updated_by c = Some sid \<longrightarrow> is_live_in_tx sid db) \<and> set (wk_page_tags wk') = set (wk_page_tags wk) \<and>
    (\<forall>p \<in> set (wk_pages wk). wp_id p \<noteq> wp_id page \<longrightarrow> p \<in> set (wk_pages wk'))"
  using run
proof (cases rule: change_cases)
  case (updated new tags held wk1 page title body added)
  have wk1: "wk1 = wk" using updated(2) by (simp add: foreign materialize_tags_in_tx_def ordered_tag_names_def)
  note st = store_change_Inr [OF updated(7)] and plan = planned_Inr [OF updated(6)]
  have page: "page \<in> set (wk_pages wk)" "wp_deleted_at page = None" "wp_id page = pc_expected_page_id c" "wp_project_id page = pc_project_id c"
    using live_pageD [OF updated(4)] by (auto simp: wk1)
  obtain v where act: "is_active_in_tx (pc_project_id c) cat" "is_active_in_tx (fw_caller_project_id fw) cat"
    "fw_caller_project_id fw \<noteq> pc_project_id c" "foreign_access fw (pc_project_id c) (pc_expected_page_id c) wk = Some v" "v \<noteq> ''read''"
    using updated(3) by (auto simp: access_refusal_def foreign wk1 Let_def lock_active_in_tx_def is_active_in_tx_def split: if_splits option.splits)
  obtain t lv where t: "(wp_id page, t) \<in> set (wk_page_tags wk)" "member_at (fw_caller_project_id fw) t ''read_write'' wk"
    "member_at (pc_project_id c) t lv wk"
    using foreign_access_write [OF act(4,5,3)] page(3) by auto
  obtain g where g: "g \<in> set (wk_tags wk)" "wt_id g = t" using t(1) wf unfolding wiki_wf_def tags_wf_def by fastforce
  have "carries (wp_id page) (wt_name g) wk" "linked (fw_caller_project_id fw) (pc_project_id c) (wt_name g) ACCESS_READ_WRITE cat wk"
    using g t act(1-3) by (auto simp: carries_def linked_def ACCESS_READ_WRITE_def)
  then have "project_access (fw_caller_project_id fw) (wp_id page) cat db wk = Some ReadWrite"
    using project_access_page [OF _ page(1,2), of "fw_caller_project_id fw" cat db] wf updated(5) foreign act page(4)
    by (auto simp: access_to_eq set_page_tag_names wiki_wf_def)
  moreover have "added = []" using plan(6) by (simp add: foreign ordered_tag_names_def)
  then have "set (wk_page_tags wk') = set (wk_page_tags wk)" using st(8) by (simp add: foreign wk1)
  moreover have "p \<in> set (wk_pages wk')" if "p \<in> set (wk_pages wk)" "wp_id p \<noteq> wp_id page" for p
    using that st(3) by (auto simp: in_sql_update wk1)
  ultimately show ?thesis using page updated(9) by blast
qed (use changed in simp)

text \<open>
  C7. A project changes a page of another project only if the moment it does so the page is shared with it for
  writing: both projects are active and members of a tag of the page, its membership allows writing, such
  writes are switched on and its session is live, all read in the transaction of the change, whatever was true when the
  request came in. No tag of any page and no other page differs afterwards.
\<close>

theorem foreign_write_checked:
  assumes run: "patch_page env a pid slug (Inr req) pre snap w = (rp, wk)" and changed: "wk \<noteq> ww_wiki w" and wf: "wiki_wf (ww_wiki w)"
    and who: "resolve_project pid (ww_cat pre) = Inr project" "resolve_caller a (p_id project) (ww_db pre) = Inr c" "\<not> owns c (p_id project)"
  shows "\<exists>page \<in> set (wk_pages (ww_wiki w)). wp_project_id page = p_id project \<and>
    project_access (ca_project_id c) (wp_id page) (ww_cat w) (ww_db w) (ww_wiki w) = Some ReadWrite \<and>
    (\<forall>sid. ca_session_id c = Some sid \<longrightarrow> is_live_in_tx sid (ww_db w)) \<and> set (wk_page_tags wk) = set (wk_page_tags (ww_wiki w)) \<and>
    (\<forall>p \<in> set (wk_pages (ww_wiki w)). wp_id p \<noteq> wp_id page \<longrightarrow> p \<in> set (wk_pages wk))"
proof -
  obtain sl ck r out where ok: "foreign_refusal ck (load_sharing c pre) r = None" and
    ch: "apply_page_change (we_tag_id env) (we_new_id env) (patch_change c (p_id project) sl req ck r) (apply_edits (ck_edits ck))
      (ww_cat w) (ww_db w) (ww_wiki w) = (out, wk)"
    using patch_page_run [OF run] changed who by auto
  have "ck_add_tags ck = []" "ck_remove_tags ck = []" using ok by (auto simp: foreign_refusal_def split: if_splits)
  from foreign_change [OF ch changed wf, of "\<lparr>fw_caller_project_id = ca_project_id c, fw_owner_project_id = p_id project\<rparr>"] this who(3)
  show ?thesis by (auto simp: patch_change_def)
qed

theorem foreign_write_checked_witness:
  "let w = demo_reader_world; wk = snd (patch_page demo_wiki_env (Some ''Bearer r'') ''p'' ''s'' (Inr demo_patch) w w w) in
     versions wk ''g'' = Some [(''T'', ''one two''), (''T'', ''one three'')] \<and>
     project_access ''q'' ''g'' (ww_cat w) (ww_db w) (ww_wiki w) = Some ReadWrite \<and> is_live_in_tx ''r'' (ww_db w)"
proof -
  let ?w = demo_reader_world and ?c = "\<lparr>ca_session_id = Some ''r'', ca_project_id = ''q''\<rparr>"
  obtain rp wk where run: "patch_page demo_wiki_env (Some ''Bearer r'') ''p'' ''s'' (Inr demo_patch) ?w ?w ?w = (rp, wk)" by fastforce
  have "versions (snd (patch_page demo_wiki_env (Some ''Bearer r'') ''p'' ''s'' (Inr demo_patch) ?w ?w ?w)) ''g'' =
      Some [(''T'', ''one two''), (''T'', ''one three'')]" by code_simp
  then have vs: "versions wk ''g'' = Some [(''T'', ''one two''), (''T'', ''one three'')]" by (simp add: run)
  have "versions (ww_wiki ?w) ''g'' = Some [(''T'', ''one two'')]" by code_simp
  with vs have changed: "wk \<noteq> ww_wiki ?w" by auto
  have project: "resolve_project ''p'' (ww_cat ?w) = Inr (demo_project ''p'')" by code_simp
  have id: "p_id (demo_project ''p'') = ''p''" by (simp add: demo_project_def)
  have caller: "resolve_caller (Some ''Bearer r'') (p_id (demo_project ''p'')) (ww_db ?w) = Inr ?c" by code_simp
  have "wiki_wf (ww_wiki ?w)" using demo_wiki_wf by (simp add: demo_reader_world_def)
  from foreign_write_checked [OF run changed this project caller]
  have "\<exists>page \<in> set (wk_pages demo_wiki). project_access ''q'' (wp_id page) (ww_cat ?w) (ww_db ?w) (ww_wiki ?w) = Some ReadWrite \<and>
      is_live_in_tx ''r'' (ww_db ?w)" by (auto simp: owns_def id demo_reader_world_def)
  then show ?thesis using vs by (simp add: run demo_wiki_def new_page_def)
qed

end
