(* ===== verification/Wiki_Lists.thy ===== *)
theory Wiki_Lists
  imports Wiki_Access_Props
begin

text \<open>The list of pages against the single page.\<close>

section \<open>Tags of many pages and of one\<close>

lemma map_sort_key: "map f (sort_key f xs) = sort (map f xs)"
proof (rule properties_for_sort [symmetric])
  show "mset (map f (sort_key f xs)) = mset (map f xs)" by (simp only: mset_map mset_sort)
qed (rule sorted_sort_key)

lemma concat_one:
  "distinct (map k ps) \<Longrightarrow> p \<in> set ps \<Longrightarrow> Q p \<Longrightarrow> concat (map (\<lambda>x. if k x = k p \<and> Q x then [y] else []) ps) = [y]"
proof (induction ps)
  case (Cons x ps)
  show ?case
  proof (cases "x = p")
    case True
    have "concat (map (\<lambda>x. if k x = k p \<and> Q x then [y] else []) ps) = []" using Cons.prems(1) True by (auto intro: rev_image_eqI)
    then show ?thesis using True Cons.prems by simp
  next
    case False
    then have "k x \<noteq> k p" using Cons.prems by force
    then show ?thesis using Cons False by simp
  qed
qed simp

lemma concat_filter: "concat (map (\<lambda>t. if P t then [(i, f t)] else []) ts) = map (Pair i \<circ> f) (filter P ts)"
  by (induction ts) auto

lemma page_tags_of_one:
  assumes wf: "pages_wf wk" and p: "p \<in> set (wk_pages wk)" "wp_project_id p \<in> set pids" "wp_deleted_at p = None"
  shows "map snd (filter (\<lambda>(i, _). i = wp_id p) (page_tags_in_projects_in_tx pids wk)) = page_tag_names_in_tx (wp_id p) wk"
proof -
  let ?rows = "\<lambda>i tid. concat (map (\<lambda>t. if wt_id t = tid then concat (map (\<lambda>p. if wp_id p = i \<and> wp_project_id p \<in> set pids \<and> wp_deleted_at p = None
      then [(i, wt_name t)] else []) (wk_pages wk)) else []) (wk_tags wk))"
  have d: "distinct (map wp_id (wk_pages wk))" using wf by (simp add: pages_wf_def)
  have one: "concat (map (\<lambda>x. if wp_id x = wp_id p \<and> wp_project_id x \<in> set pids \<and> wp_deleted_at x = None then [y] else []) (wk_pages wk)) = [y]" for y :: "string \<times> string"
    using concat_one [OF d p(1), of "\<lambda>x. wp_project_id x \<in> set pids \<and> wp_deleted_at x = None" y] p(2,3) by simp
  have mine: "?rows (wp_id p) tid = map (Pair (wp_id p) \<circ> wt_name) (filter (\<lambda>g. wt_id g = tid) (wk_tags wk))" for tid
    unfolding one by (rule concat_filter)
  have other: "filter (\<lambda>(i, _). i = wp_id p) (?rows i tid) = []" if "i \<noteq> wp_id p" for i tid
    using that by (auto simp: filter_empty_conv split: if_splits)
  have "map snd (filter (\<lambda>(i, _). i = wp_id p) (concat (map (\<lambda>(i, tid). ?rows i tid) pts))) =
      concat (map (\<lambda>(i, t). if i = wp_id p then map wt_name (filter (\<lambda>g. wt_id g = t) (wk_tags wk)) else []) pts)" for pts
    by (induction pts) (auto simp: mine other filter_concat o_def)
  then show ?thesis
    by (simp add: page_tags_in_projects_in_tx_def page_tag_names_in_tx_def filter_sort map_sort_key)
qed

section \<open>Visible pages\<close>

text \<open>What a request sees of the snapshot depends on the project of its caller alone.\<close>

lemma in_snapshot_access:
  assumes "in_snapshot sc0 snap = Inr sc"
  shows "access_to sc own tags = access_to (project_context (sc_caller_project_id sc0) (ww_cat snap) (ww_db snap) (ww_wiki snap)) own tags"
    and "sc_links sc = shared_links (sc_caller_project_id sc0) (ww_cat snap) (ww_wiki snap)"
    and "sc_caller_project_id sc = sc_caller_project_id sc0"
  using assms by (auto simp: in_snapshot_def access_to_def project_context_def split: if_splits)

lemma fold_owners: "set (fold (\<lambda>l ids. if sl_owner_project_id l \<in> set ids then ids else ids @ [sl_owner_project_id l]) ls ids) =
    set ids \<union> sl_owner_project_id ` set ls"
  by (induction ls arbitrary: ids) auto

lemma access_reachable:
  assumes "access_to sc own tags = Some a"
  shows "own \<in> set (reachable_project_ids sc)"
  using assms
  by (auto simp: access_to_def reachable_project_ids_def fold_owners access_loop_eq link_on_def split: if_splits)

text \<open>What a list shows of a page.\<close>

abbreviation page_view :: "wiki_page \<Rightarrow> string list \<Rightarrow> access \<Rightarrow> visible_page" where
  "page_view p ts a \<equiv> \<lparr>vp_page_id = wp_id p, vp_project_id = wp_project_id p, vp_slug = wp_slug p, vp_title = wp_title p,
     vp_revision_number = wp_revision_number p, vp_updated_by = wp_updated_by p, vp_updated_at = wp_updated_at p,
     vp_tags = ts, vp_access = a\<rparr>"

lemma visible_pages:
  assumes wf: "pages_wf wk"
  shows "v \<in> set (visible_pages_in_tx sc wk) \<longleftrightarrow>
    (\<exists>p acc. p \<in> set (wk_pages wk) \<and> wp_deleted_at p = None \<and> access_to sc (wp_project_id p) (page_tag_names_in_tx (wp_id p) wk) = Some acc \<and>
      v = page_view p (page_tag_names_in_tx (wp_id p) wk) acc)" (is "?l \<longleftrightarrow> ?r")
proof -
  let ?pids = "reachable_project_ids sc"
  let ?live = "\<lambda>p. p \<in> set (wk_pages wk) \<and> wp_project_id p \<in> set ?pids \<and> wp_deleted_at p = None"
  have "?l \<longleftrightarrow> (\<exists>p acc. ?live p \<and> access_to sc (wp_project_id p) (page_tag_names_in_tx (wp_id p) wk) = Some acc \<and>
      v = page_view p (page_tag_names_in_tx (wp_id p) wk) acc)"
    using page_tags_of_one [OF wf]
    by (auto simp: visible_pages_in_tx_def set_map_filter' Let_def list_pages_in_projects_in_tx_def newest_first_def page_summary_of_def)
  also have "\<dots> \<longleftrightarrow> ?r"
    using access_reachable [of sc] by fastforce
  finally show ?thesis .
qed

text \<open>A page is page_view once.\<close>

lemma distinct_map_filter_keys:
  "distinct (map k xs) \<Longrightarrow> (\<And>x y. f x = Some y \<Longrightarrow> k' y = k x) \<Longrightarrow> distinct (map k' (List.map_filter f xs))"
proof (induction xs)
  case (Cons x xs)
  have "k' ` set (List.map_filter f xs) \<subseteq> k ` set xs" using Cons.prems(2) by (fastforce simp: set_map_filter')
  with Cons show ?case by (auto simp: List.map_filter_simps split: option.split)
qed (simp add: List.map_filter_simps)

lemma visible_once:
  assumes wf: "pages_wf wk"
  shows "distinct (map vp_page_id (visible_pages_in_tx sc wk))"
proof -
  have ids: "ps_page_id \<circ> page_summary_of = wp_id" by (rule ext) (simp add: page_summary_of_def)
  have "distinct (map wp_id (filter P (wk_pages wk)))" for P
    using wf by (simp add: pages_wf_def distinct_map_filter)
  then have "distinct (map ps_page_id (list_pages_in_projects_in_tx pids wk))" for pids
    unfolding list_pages_in_projects_in_tx_def newest_first_def map_map ids
    by (metis (no_types, lifting) mset_eq_imp_distinct_iff mset_map mset_sort)
  then show ?thesis
    unfolding visible_pages_in_tx_def Let_def by (rule distinct_map_filter_keys) auto
qed

lemma page_at_address:
  assumes "pages_wf wk"
  shows "page_with_tags_in_tx pid slug wk = Some (p, ts) \<longleftrightarrow>
    p \<in> set (wk_pages wk) \<and> wp_project_id p = pid \<and> wp_slug p = slug \<and> wp_deleted_at p = None \<and> ts = page_tag_names_in_tx (wp_id p) wk"
proof -
  have "live_page (\<lambda>p. wp_project_id p = pid \<and> wp_slug p = slug) wk = Some p \<longleftrightarrow>
      p \<in> set (wk_pages wk) \<and> wp_project_id p = pid \<and> wp_slug p = slug \<and> wp_deleted_at p = None" (is "_ \<longleftrightarrow> ?p")
  proof
    assume ?p
    then show "live_page (\<lambda>p. wp_project_id p = pid \<and> wp_slug p = slug) wk = Some p"
      unfolding live_page_def
      by (intro sql_find_unique) (use assms key_inj [of address "live_pages wk"] in \<open>auto simp: pages_wf_def live_pages_def address_def\<close>)
  qed (use live_pageD in blast)
  then show ?thesis by (auto simp: page_with_tags_in_tx_def with_tags_def)
qed

section \<open>The list and the page\<close>

text \<open>A session is the same caller whatever it asks about; a request of the user is one of the project it asks about.\<close>

lemma resolve_caller_target:
  assumes "resolve_caller a target d = Inr c" and "resolve_session_principal a d \<noteq> Inr None \<or> target' = target"
  shows "resolve_caller a target' d = Inr c"
  using assms by (auto simp: resolve_caller_def split: sum.splits option.splits)

lemma list_pages_Items:
  assumes "list_pages a project_id pre snap = Inr (Items xs)" and "resolve_project project_id (ww_cat pre) = Inr l"
  obtains c sc where "resolve_caller a (p_id l) (ww_db pre) = Inr c" "in_snapshot (load_sharing c pre) snap = Inr sc"
    "xs = map (listed_page (ww_cat snap)) (visible_pages_in_tx sc (ww_wiki snap))"
proof -
  obtain c where c: "resolve_caller a (p_id l) (ww_db pre) = Inr c"
    and list: "map_sum id (\<lambda>sc. Items (map (listed_page (ww_cat snap)) (visible_pages_in_tx sc (ww_wiki snap)))) (in_snapshot (load_sharing c pre) snap) = Inr (Items xs)"
    using assms(1)
    by (auto simp: list_pages_def collection_def owned_project_def assms(2) split: sum.splits option.splits if_splits prod.splits)
  from list obtain sc where "in_snapshot (load_sharing c pre) snap = Inr sc" "xs = map (listed_page (ww_cat snap)) (visible_pages_in_tx sc (ww_wiki snap))"
    by (cases "in_snapshot (load_sharing c pre) snap") simp_all
  with c show ?thesis by (rule that)
qed

lemma filter_only:
  assumes "distinct (map k xs)" and "x \<in> set xs" and "P x" and "\<And>y. y \<in> set xs \<Longrightarrow> P y \<Longrightarrow> k y = k x"
  shows "filter P xs = [x]"
  using assms
proof (induction xs)
  case (Cons a xs)
  show ?case
  proof (cases "a = x")
    case True
    have "\<not> P y" if "y \<in> set xs" for y
    proof
      assume "P y"
      with Cons.prems(4) [of y] that True have "k a \<in> k ` set xs" by (metis image_eqI list.set_intros(2))
      with Cons.prems(1) show False by simp
    qed
    then have "filter P xs = []" by (simp add: filter_empty_conv)
    with True Cons.prems(3) show ?thesis by simp
  next
    case False
    with Cons.prems(2) have x: "x \<in> set xs" by simp
    have "\<not> P a"
    proof
      assume "P a"
      with Cons.prems(4) [of a] x have "k a \<in> k ` set xs" by simp
      with Cons.prems(1) show False by simp
    qed
    moreover have "filter P xs = [x]" using Cons.IH [OF _ x Cons.prems(3)] Cons.prems(1,4) by simp
    ultimately show ?thesis by simp
  qed
qed simp

lemma access_str_inject: "access_str a = access_str b \<longleftrightarrow> a = b"
  by (cases a; cases b) (simp_all add: ACCESS_READ_def ACCESS_READ_WRITE_def)

text \<open>
  C8. The list of pages and the single page agree. A request that lists the pages for a project and, at the same
  moment, asks for one page by project and slug is given the page exactly if the list has it there, and then the list
  has it there once: under the same identifier, with the page's title, revision, last change, project and tags, and
  with the access that the page is answered with. That is so for every page a session may ask for; a request of the
  user, who speaks for the project it asks about, is compared with the list of that project.
\<close>

theorem list_shows_readable:
  assumes wf: "wiki_wf (ww_wiki snap)"
    and list: "list_pages a project_id pre snap = Inr (Items xs)" and listed: "resolve_project project_id (ww_cat pre) = Inr l"
    and project: "resolve_project qid (ww_cat pre) = Inr q"
    and who: "resolve_session_principal a (ww_db pre) \<noteq> Inr None \<or> p_id q = p_id l"
  shows "let there = filter (\<lambda>x. li_project_id x = p_id q \<and> li_slug x = normalize_slug (we_lower env) slug) xs in
    case get_page env a qid slug pre snap of
      Inl e \<Rightarrow> there = []
    | Inr r \<Rightarrow> \<exists>acc. pr_access r = Some acc \<and> wp_project_id (pr_page r) = p_id q \<and>
        there = [\<lparr>li_page_id = wp_id (pr_page r), li_project_id = wp_project_id (pr_page r), li_project_slug = pr_project_slug r,
          li_slug = wp_slug (pr_page r), li_title = wp_title (pr_page r), li_revision_number = wp_revision_number (pr_page r),
          li_updated_by = wp_updated_by (pr_page r), li_updated_at = wp_updated_at (pr_page r), li_tags = pr_tags r, li_access = access_str acc\<rparr>]"
proof -
  have pwf: "pages_wf (ww_wiki snap)" using wf by (simp add: wiki_wf_def)
  obtain c sc where c0: "resolve_caller a (p_id l) (ww_db pre) = Inr c" and sc: "in_snapshot (load_sharing c pre) snap = Inr sc"
    and xs: "xs = map (listed_page (ww_cat snap)) (visible_pages_in_tx sc (ww_wiki snap))"
    using list listed by (rule list_pages_Items)
  have c: "resolve_caller a (p_id q) (ww_db pre) = Inr c" using c0 who by (rule resolve_caller_target)
  let ?tags = "\<lambda>p. page_tag_names_in_tx (wp_id p) (ww_wiki snap)"
  let ?slug = "normalize_slug (we_lower env) slug"
  let ?at = "\<lambda>x. li_project_id x = p_id q \<and> li_slug x = ?slug"
  let ?item = "\<lambda>p acc. listed_page (ww_cat snap) (page_view p (?tags p) acc)"
  have shown: "x \<in> set xs \<longleftrightarrow> (\<exists>p acc. p \<in> set (wk_pages (ww_wiki snap)) \<and> wp_deleted_at p = None \<and>
      access_to sc (wp_project_id p) (?tags p) = Some acc \<and> x = ?item p acc)" for x
    unfolding xs set_map image_iff Bex_def visible_pages [OF pwf] by blast
  have "li_page_id \<circ> listed_page (ww_cat snap) = vp_page_id" by (rule ext) (simp add: listed_page_def)
  then have once: "distinct (map li_page_id xs)" unfolding xs using visible_once [OF pwf] by simp
  have only: "p' = p" if "p \<in> set (wk_pages (ww_wiki snap))" "wp_deleted_at p = None" "?at (?item p a1)"
      "p' \<in> set (wk_pages (ww_wiki snap))" "wp_deleted_at p' = None" "?at (?item p' a2)" for p p' a1 a2
    using page_at_address [OF pwf, of "p_id q" ?slug p "?tags p"] page_at_address [OF pwf, of "p_id q" ?slug p' "?tags p'"] that
    by (simp add: listed_page_def)
  show ?thesis
  proof (cases "\<exists>p acc. page_with_tags_in_tx (p_id q) ?slug (ww_wiki snap) = Some (p, ?tags p) \<and> access_to sc (wp_project_id p) (?tags p) = Some acc")
    case True
    then obtain p acc where at: "page_with_tags_in_tx (p_id q) ?slug (ww_wiki snap) = Some (p, ?tags p)"
      and acc: "access_to sc (wp_project_id p) (?tags p) = Some acc" by blast
    have p: "p \<in> set (wk_pages (ww_wiki snap))" "wp_project_id p = p_id q" "wp_slug p = ?slug" "wp_deleted_at p = None"
      using page_at_address [OF pwf, THEN iffD1, OF at] by simp_all
    have page: "get_page env a qid slug pre snap = Inr \<lparr>pr_page = p, pr_project_slug = slug_label (ww_cat snap) (wp_project_id p), pr_tags = ?tags p, pr_access = Some acc\<rparr>"
      by (simp add: get_page_def project c load_readable_page_def sc resolved_response_def at acc)
    have "filter ?at xs = [?item p acc]"
    proof (rule filter_only [OF once])
      show "?item p acc \<in> set xs" unfolding shown using p acc by blast
      show "?at (?item p acc)" using p by (simp add: listed_page_def)
      fix y assume "y \<in> set xs" "?at y"
      then obtain p' acc' where "p' \<in> set (wk_pages (ww_wiki snap))" "wp_deleted_at p' = None" "y = ?item p' acc'" "?at (?item p' acc')"
        unfolding shown by blast
      with only [of p acc p' acc'] p show "li_page_id y = li_page_id (?item p acc)" by (simp add: listed_page_def)
    qed
    then show ?thesis by (simp add: page Let_def listed_page_def p(2))
  next
    case False
    have "x \<notin> set xs" if "?at x" for x
    proof
      assume "x \<in> set xs"
      then obtain p acc where "p \<in> set (wk_pages (ww_wiki snap))" "wp_deleted_at p = None" "x = ?item p acc"
        "access_to sc (wp_project_id p) (?tags p) = Some acc" unfolding shown by blast
      with that page_at_address [OF pwf, of "p_id q" ?slug p "?tags p"] False show False by (auto simp: listed_page_def)
    qed
    then have none: "filter ?at xs = []" by (auto simp: filter_empty_conv)
    have "\<exists>e. get_page env a qid slug pre snap = Inl e"
    proof (cases "page_with_tags_in_tx (p_id q) ?slug (ww_wiki snap)")
      case (Some pt)
      then obtain p where "pt = (p, ?tags p)" using page_at_address [OF pwf] by (cases pt) auto
      with Some False show ?thesis
        by (cases "access_to sc (wp_project_id p) (?tags p)") (auto simp: get_page_def project c load_readable_page_def sc)
    qed (simp add: get_page_def project c load_readable_page_def)
    with none show ?thesis by auto
  qed
qed

theorem list_shows_readable_witness:
  "let w = demo_reader_world in \<exists>x r. list_pages (Some ''Bearer r'') ''q'' w w = Inr (Items [x]) \<and>
     get_page demo_wiki_env (Some ''Bearer r'') ''p'' ''s'' w w = Inr r \<and>
     li_page_id x = wp_id (pr_page r) \<and> li_title x = wp_title (pr_page r) \<and> pr_access r = Some ReadWrite"
proof -
  let ?w = demo_reader_world
  have "case list_pages (Some ''Bearer r'') ''q'' ?w ?w of
      Inr (Items [x]) \<Rightarrow> li_project_id x = ''p'' \<and> li_slug x = ''s'' \<and> li_access x = access_str ReadWrite
    | _ \<Rightarrow> False" by code_simp
  then obtain x where list: "list_pages (Some ''Bearer r'') ''q'' ?w ?w = Inr (Items [x])"
    and x: "li_project_id x = ''p''" "li_slug x = ''s''" "li_access x = access_str ReadWrite"
    by (auto split: sum.splits listing.splits list.splits)
  have who: "resolve_session_principal (Some ''Bearer r'') (ww_db ?w) \<noteq> Inr None" by code_simp
  have project: "resolve_project ''p'' (ww_cat ?w) = Inr (demo_project ''p'')" and listed: "resolve_project ''q'' (ww_cat ?w) = Inr (demo_project ''q'')"
    by code_simp+
  have slug: "normalize_slug (we_lower demo_wiki_env) ''s'' = ''s''" by code_simp
  have "wiki_wf (ww_wiki ?w)" using demo_wiki_wf by (simp add: demo_reader_world_def)
  from list_shows_readable [OF this list listed project disjI1, OF who, of demo_wiki_env "''s''"] x slug list
  show ?thesis by (auto simp: demo_project_def Let_def access_str_inject simp del: access_str.simps split: sum.splits)
qed

end
