(* ===== verification/Wiki_Admission.thy ===== *)
theory Wiki_Admission
  imports Wiki_Lists
begin

text \<open>What admitting a project to a tag exposes.\<close>

section \<open>Pages already in reach\<close>

lemma reach_access:
  assumes "i \<in> set (reachable_page_ids_in_tx q tid wo cat wk)" and wf: "wiki_wf wk"
  shows "\<exists>page \<in> set (wk_pages wk). wp_id page = i \<and> wp_deleted_at page = None \<and>
    (\<exists>n lv. carries i n wk \<and> linked q (wp_project_id page) n lv cat wk \<and> (wo \<longrightarrow> lv = ACCESS_READ_WRITE))"
proof -
  obtain mine theirs page where r: "mine \<in> set (wk_members wk)" "tm_project_id mine = q" "tm_revoked_at mine = None"
    "wo \<longrightarrow> tm_access_level mine = ''read_write''" "is_active_in_tx q cat"
    "theirs \<in> set (wk_members wk)" "tm_tag_id theirs = tm_tag_id mine" "tm_project_id theirs \<noteq> q" "tm_revoked_at theirs = None"
    "is_active_in_tx (tm_project_id theirs) cat" "(i, tm_tag_id mine) \<in> set (wk_page_tags wk)"
    "page \<in> set (wk_pages wk)" "wp_id page = i" "wp_project_id page = tm_project_id theirs" "wp_deleted_at page = None"
    using assms(1) by (auto simp: reachable_page_ids_in_tx_def split: if_splits)
  obtain g where g: "g \<in> set (wk_tags wk)" "wt_id g = tm_tag_id mine" using r(11) wf unfolding wiki_wf_def tags_wf_def by fastforce
  have "carries i (wt_name g) wk" using g r(11) by (auto simp: carries_def)
  moreover have "linked q (wp_project_id page) (wt_name g) (tm_access_level mine) cat wk"
    unfolding linked_def member_at_def active_row_def using g r by metis
  ultimately show ?thesis using r(4,12,13,15) by (auto simp: ACCESS_READ_WRITE_def)
qed

lemma exposure_zero:
  assumes "fst (exposure_by_project tid pids slugs seen wk) = 0"
    and "page \<in> set (wk_pages wk)" "wp_project_id page \<in> set pids" "wp_deleted_at page = None" "(wp_id page, tid) \<in> set (wk_page_tags wk)"
  shows "wp_id page \<in> set seen"
proof (rule ccontr)
  assume "wp_id page \<notin> set seen"
  moreover have "(wp_id page, wp_project_id page, wp_slug page, wp_title page) \<in> set (pages_carrying_tag_in_tx tid pids wk)"
    using assms(2-5) by (fastforce simp: pages_carrying_tag_in_tx_def)
  ultimately have row: "(wp_project_id page, wp_slug page, wp_title page) \<in> set (newly_exposed tid pids seen wk)"
    by (force simp: newly_exposed_def)
  then have "length (filter (\<lambda>(p, _). p = wp_project_id page) (newly_exposed tid pids seen wk)) > 0" by (auto simp: filter_empty_conv)
  moreover have "wp_project_id page \<in> fst ` set (newly_exposed tid pids seen wk)" using row by force
  ultimately show False using assms(1) by (auto simp: exposure_by_project_def Let_def)
qed

lemma fold_reach:
  "fold (\<lambda>i acc. case acc of None \<Rightarrow> Some (R i) | Some a \<Rightarrow> Some (filter (\<lambda>p. p \<in> set (R i)) a)) ids (Some a0) = Some a \<Longrightarrow>
    set a \<subseteq> set a0 \<and> (\<forall>q \<in> set ids. set a \<subseteq> set (R q))"
  by (induction ids arbitrary: a0) force+

lemma incumbents_reach_all:
  assumes "i \<in> set (incumbents_reach ids tid cat wk)" "q \<in> set ids"
  shows "i \<in> set (reachable_page_ids_in_tx q tid False cat wk)"
proof (cases ids)
  case (Cons j js)
  let ?R = "\<lambda>i. reachable_page_ids_in_tx i tid False cat wk"
  obtain a where a: "fold (\<lambda>i acc. case acc of None \<Rightarrow> Some (?R i) | Some a \<Rightarrow> Some (filter (\<lambda>p. p \<in> set (?R i)) a)) js (Some (?R j)) = Some a"
    "i \<in> set a"
    using assms(1) unfolding incumbents_reach_def Cons Let_def
    by (cases "fold (\<lambda>i acc. case acc of None \<Rightarrow> Some (?R i) | Some a \<Rightarrow> Some (filter (\<lambda>p. p \<in> set (?R i)) a)) js (Some (?R j))") simp_all
  from fold_reach [OF a(1)] a(2) assms(2) Cons show ?thesis by auto
qed (use assms in simp)

section \<open>Admissions\<close>

definition new_member :: "string \<Rightarrow> string \<Rightarrow> string \<Rightarrow> string \<Rightarrow> timestamp \<Rightarrow> tag_member" where
  "new_member i tid pid level now = \<lparr>tm_id = i, tm_tag_id = tid, tm_project_id = pid, tm_access_level = level,
     tm_created_by = None, tm_created_at = now, tm_revoked_at = None\<rparr>"

definition incumbents_of :: "string \<Rightarrow> string \<Rightarrow> catalog \<Rightarrow> wiki \<Rightarrow> wiki_member list" where
  "incumbents_of tid joiner cat wk = filter (\<lambda>m. mb_project_id m \<noteq> joiner) (active_members tid cat wk)"

lemma admitted:
  assumes "admit_member new_id a tid (Inr req) pre w = (Inr (MemberDetail 201 d), wk)"
  obtains tname slug joiner where "is_active_in_tx joiner (ww_cat w)" "mb_project_id d = joiner"
    "incumbents_of tid joiner (ww_cat w) (ww_wiki w) = [] \<or> aq_acknowledge_share req = Some True \<or>
      admission_exposure tname tid joiner slug (aq_access_level req) (incumbents_of tid joiner (ww_cat w) (ww_wiki w)) (ww_cat w) (ww_wiki w) = None"
    "wk = (ww_wiki w)\<lparr>wk_members := wk_members (ww_wiki w) @ [new_member new_id tid joiner (aq_access_level req) (clock (ww_db w))]\<rparr>"
    "list_all (\<lambda>m. \<not> active_row tid joiner m) (wk_members (ww_wiki w))"
proof -
  obtain tname joiner where run: "admit_in_tx new_id tname tid joiner req w = (Inr (MemberDetail 201 d), wk)"
    using assms by (auto simp: admit_member_def already_a_member_def split: sum.split_asm bool.split_asm option.split_asm if_split_asm)
  let ?cat = "ww_cat w" and ?wk = "ww_wiki w"
  have run': "admit_in_tx new_id tname tid joiner req w = (Inr (MemberDetail 201 d), wk)" by (rule run)
  obtain slug where slug: "lock_active_in_tx (p_id joiner) ?cat = Some slug"
    and ins: "insert_member_in_tx new_id tid (p_id joiner) (aq_access_level req) None (clock (ww_db w)) ?wk = Inr wk"
    and d: "active_member tid (p_id joiner) ?cat wk = Some d"
    and ack: "(if incumbents_of tid (p_id joiner) ?cat ?wk \<noteq> [] \<and> aq_acknowledge_share req \<noteq> Some True
      then admission_exposure tname tid (p_id joiner) slug (aq_access_level req) (incumbents_of tid (p_id joiner) ?cat ?wk) ?cat ?wk
      else None) = None"
    using run' by (auto simp: admit_in_tx_def already_a_member_def Let_def incumbents_of_def [symmetric]
        split: if_split_asm option.split_asm sum.split_asm)
  show ?thesis
  proof (rule that)
    show "is_active_in_tx (p_id joiner) ?cat" using slug by (auto simp: lock_active_in_tx_def is_active_in_tx_def)
    show "mb_project_id d = p_id joiner" using d by (auto simp: active_member_def find_Some_iff)
  qed (use ins ack in \<open>auto simp: insert_member_in_tx_def new_member_def list_ex_iff list_all_iff active_row_def split: if_splits\<close>)
qed

lemma incumbent_iff:
  "q \<in> set (map mb_project_id (incumbents_of tid joiner cat wk)) \<longleftrightarrow> q \<noteq> joiner \<and> is_active_in_tx q cat \<and> (\<exists>lv. member_at q tid lv wk)"
  using member_rows_iff [of tid cat wk q] by (auto simp: incumbents_of_def active_members_def)

lemma admission_None:
  assumes "admission_exposure tname tid joiner slug level incumbents cat wk = None"
  obtains slugs where
    "fst (exposure_by_project tid (map mb_project_id incumbents) slugs (reachable_page_ids_in_tx joiner tid False cat wk) wk) = 0"
    "fst (exposure_by_project tid [joiner] slugs (incumbents_reach (map mb_project_id incumbents) tid cat wk) wk) = 0"
    "level = ACCESS_READ_WRITE \<longrightarrow>
       fst (exposure_by_project tid (map mb_project_id incumbents) slugs (reachable_page_ids_in_tx joiner tid True cat wk) wk) = 0"
  using assms by (auto simp: admission_exposure_def Let_def split: if_splits)

lemma reach_link:
  assumes "wp_id x \<in> set (reachable_page_ids_in_tx q tid wo cat wk)" "wiki_wf wk" "x \<in> set (wk_pages wk)"
  shows "\<exists>n lv. carries (wp_id x) n wk \<and> linked q (wp_project_id x) n lv cat wk \<and> (wo \<longrightarrow> lv = ACCESS_READ_WRITE)"
proof -
  obtain page n lv where p: "page \<in> set (wk_pages wk)" "wp_id page = wp_id x" "carries (wp_id x) n wk"
    "linked q (wp_project_id page) n lv cat wk" "wo \<longrightarrow> lv = ACCESS_READ_WRITE"
    using reach_access [OF assms(1,2)] by blast
  then have "page = x" using assms(2,3) key_inj [of wp_id "wk_pages wk" page x] by (simp add: wiki_wf_def pages_wf_def)
  with p show ?thesis by blast
qed

lemma admission_link:
  assumes wf: "wiki_wf wk" and new: "wk' = wk\<lparr>wk_members := wk_members wk @ [new_member i tid joiner level now]\<rparr>"
    and ok: "incumbents_of tid joiner cat wk = [] \<or>
      admission_exposure tname tid joiner slug level (incumbents_of tid joiner cat wk) cat wk = None"
    and x: "x \<in> set (wk_pages wk)" "wp_deleted_at x = None"
    and c: "carries (wp_id x) n wk'" and l: "linked q (wp_project_id x) n lv cat wk'"
  shows "\<exists>n' lv'. carries (wp_id x) n' wk \<and> linked q (wp_project_id x) n' lv' cat wk \<and>
    (q = joiner \<and> lv = ACCESS_READ_WRITE \<longrightarrow> lv' = ACCESS_READ_WRITE)"
proof (cases "linked q (wp_project_id x) n lv cat wk")
  case True
  then show ?thesis using c by (auto simp: carries_def new)
next
  case False
  let ?inc = "map mb_project_id (incumbents_of tid joiner cat wk)"
  have mem: "member_at p t v wk' \<longleftrightarrow> member_at p t v wk \<or> p = joiner \<and> t = tid \<and> v = level" for p t v
    by (auto simp: member_at_def new new_member_def active_row_def)
  obtain g where g: "g \<in> set (wk_tags wk)" "wt_name g = n" "member_at q (wt_id g) lv wk'" "\<exists>v. member_at (wp_project_id x) (wt_id g) v wk'"
    and act: "wp_project_id x \<noteq> q" "is_active_in_tx q cat" "is_active_in_tx (wp_project_id x) cat"
    using l by (auto simp: linked_def new)
  have via: "wt_id g = tid" "q = joiner \<and> lv = level \<and> wp_project_id x \<in> set ?inc \<or> wp_project_id x = joiner \<and> q \<in> set ?inc"
    using False g act unfolding incumbent_iff by (auto simp: linked_def mem)
  obtain h where h: "h \<in> set (wk_tags wk)" "wt_name h = n" "(wp_id x, wt_id h) \<in> set (wk_page_tags wk)" using c by (auto simp: carries_def new)
  then have "h = g" using g(1,2) wf key_inj [of wt_name "wk_tags wk" h g] by (simp add: wiki_wf_def tags_wf_def)
  then have tagged: "(wp_id x, tid) \<in> set (wk_page_tags wk)" using h(3) via(1) by simp
  have "admission_exposure tname tid joiner slug level (incumbents_of tid joiner cat wk) cat wk = None" using ok via(2) by auto
  then obtain slugs where z: "fst (exposure_by_project tid ?inc slugs (reachable_page_ids_in_tx joiner tid False cat wk) wk) = 0"
    "fst (exposure_by_project tid [joiner] slugs (incumbents_reach ?inc tid cat wk) wk) = 0"
    "level = ACCESS_READ_WRITE \<longrightarrow> fst (exposure_by_project tid ?inc slugs (reachable_page_ids_in_tx joiner tid True cat wk) wk) = 0"
    by (rule admission_None)
  note seen = exposure_zero [OF _ x(1) _ x(2) tagged]
  from via(2) show ?thesis
  proof
    assume q: "q = joiner \<and> lv = level \<and> wp_project_id x \<in> set ?inc"
    show ?thesis
    proof (cases "lv = ACCESS_READ_WRITE")
      case True
      then show ?thesis using reach_link [OF seen [OF z(3) [rule_format]] wf x(1)] q by blast
    next
      case False
      then show ?thesis using reach_link [OF seen [OF z(1)] wf x(1)] q by blast
    qed
  next
    assume q: "wp_project_id x = joiner \<and> q \<in> set ?inc"
    then have "wp_id x \<in> set (incumbents_reach ?inc tid cat wk)" using seen [OF z(2)] by simp
    from reach_link [OF incumbents_reach_all [OF this] wf x(1), of q] q act(1) show ?thesis by blast
  qed
qed

text \<open>
  C9. An admission that no one confirmed exposes nothing: no project can read a page it could not read before, and
  the new member can do no more with any page than before. (What the members may write is not part of it.)
\<close>

theorem admission_exposes_nothing:
  assumes run: "admit_member new_id a tid (Inr req) pre w = (Inr (MemberDetail 201 d), wk)"
    and ack: "aq_acknowledge_share req \<noteq> Some True" and wf: "wiki_wf (ww_wiki w)"
  shows "(project_access q i (ww_cat w) (ww_db w) wk \<noteq> None \<longrightarrow> project_access q i (ww_cat w) (ww_db w) (ww_wiki w) \<noteq> None) \<and>
    access_rank (project_access (mb_project_id d) i (ww_cat w) (ww_db w) wk) \<le>
    access_rank (project_access (mb_project_id d) i (ww_cat w) (ww_db w) (ww_wiki w))"
proof -
  obtain tname slug joiner where j: "mb_project_id d = joiner"
    "incumbents_of tid joiner (ww_cat w) (ww_wiki w) = [] \<or>
      admission_exposure tname tid joiner slug (aq_access_level req) (incumbents_of tid joiner (ww_cat w) (ww_wiki w)) (ww_cat w) (ww_wiki w) = None"
    "wk = (ww_wiki w)\<lparr>wk_members := wk_members (ww_wiki w) @ [new_member new_id tid joiner (aq_access_level req) (clock (ww_db w))]\<rparr>"
    using admitted [OF run] ack by metis
  have wf': "wiki_wf wk" using wf by (simp add: j(3) wiki_wf_def pages_wf_def tags_wf_def live_pages_def revisions_of_def)
  have both: "(project_access q i (ww_cat w) (ww_db w) wk \<noteq> None \<longrightarrow> project_access q i (ww_cat w) (ww_db w) (ww_wiki w) \<noteq> None) \<and>
    (q = joiner \<longrightarrow> access_rank (project_access q i (ww_cat w) (ww_db w) wk) \<le> access_rank (project_access q i (ww_cat w) (ww_db w) (ww_wiki w)))" for q
  proof (cases "project_access q i (ww_cat w) (ww_db w) wk")
    case (Some acc)
    then obtain x where x: "x \<in> set (wk_pages wk)" "wp_id x = i" "wp_deleted_at x = None" by (rule project_access_SomeD)
    then have x0: "x \<in> set (wk_pages (ww_wiki w))" by (simp add: j(3))
    note link = admission_link [OF wf j(3,2) x0 x(3), of _ q]
    show ?thesis
      using Some project_access_page [OF _ x(1,3), of q "ww_cat w" "ww_db w"] project_access_page [OF _ x0 x(3), of q "ww_cat w" "ww_db w"] wf wf' x(2)
      using link by (auto simp: wiki_wf_def access_to_eq set_page_tag_names split: if_splits) blast+
  qed auto
  show ?thesis using both [of q] both [of joiner] by (simp add: j(1))
qed

theorem admission_exposes_nothing_witness:
  "let w = demo_two_tags; (r, wk) = admit_member ''n'' None ''y'' (Inr demo_admission) w w in
     wk \<noteq> ww_wiki w \<and> access_rank (project_access ''p'' ''g'' (ww_cat w) (ww_db w) wk) \<le> access_rank (project_access ''p'' ''g'' (ww_cat w) (ww_db w) (ww_wiki w))"
proof -
  let ?w = demo_two_tags
  have "case admit_member ''n'' None ''y'' (Inr demo_admission) ?w ?w of (Inr (MemberDetail s d), wk) \<Rightarrow> s = 201 \<and> mb_project_id d = ''p'' \<and>
      length (wk_members wk) = 4 | _ \<Rightarrow> False" by code_simp
  then obtain d wk where run: "admit_member ''n'' None ''y'' (Inr demo_admission) ?w ?w = (Inr (MemberDetail 201 d), wk)"
    and d: "mb_project_id d = ''p''" "length (wk_members wk) = 4"
    by (auto split: prod.splits sum.splits member_reply.splits)
  have ack: "aq_acknowledge_share demo_admission \<noteq> Some True" by (simp add: demo_admission_def)
  have wf: "wiki_wf (ww_wiki ?w)"
    by (simp add: demo_two_tags_def wiki_wf_def pages_wf_def tags_wf_def demo_wiki_def revisions_of_def live_pages_def new_page_def address_def)
  have "length (wk_members (ww_wiki ?w)) = 3" by code_simp
  then have "wk \<noteq> ww_wiki ?w" using d(2) by auto
  then show ?thesis
    using admission_exposes_nothing [OF run ack wf, of "''p''" "''g''"] d(1) run by (simp add: case_prod_unfold)
qed

text \<open>
  What the confirmation does not ask about: members of the tag that may write get to write the pages of the new member that
  they could only read before.
\<close>

lemma admission_lets_incumbents_write:
  "let w = demo_two_tags; wk = snd (admit_member ''n'' None ''y'' (Inr demo_admission) w w) in
     project_access ''q'' ''g'' (ww_cat w) (ww_db w) (ww_wiki w) = Some Read \<and>
     project_access ''q'' ''g'' (ww_cat w) (ww_db w) wk = Some ReadWrite"
  by code_simp

end
