(* ===== verification/Spec2Isabelle.thy ===== *)
theory Spec2Isabelle
  imports Terminate_Props Liveness_Props Network_Props Decisions_Props Escalation_Props Delegation_Props Wiki_Props Wiki_Edits_Props Wiki_Admission
begin

text \<open>
  AgentBeacon runs coding agents for its user. A scheduler (\<open>src/scheduler\<close>) keeps everything in one SQL
  database and decides what every agent session should do; workers (\<open>src/worker\<close>) poll it and run the
  agents; agents and the user talk to it over HTTP. This library models the scheduler's logic on explicit
  tables and proves what its parts promise. Each theory names the source files it translates; definitions
  carry the names of the code.

  \<^bold>\<open>How the program is modelled.\<close>
  A table is a list of records in the order of insertion, the database (\<open>Store.db\<close>) a record of tables and
  a clock; an SQL statement is a filter, an update or a stable sort of such a list (\<open>Prelude\<close>). Errors are
  values of a sum type. Code that runs in a database transaction is a function of type \<open>tx\<close> (\<open>Store\<close>),
  whose failures roll back; code outside takes and returns the database. What is serialised to text and
  read back stays a \<open>jtext\<close> (\<open>Json\<close>), so that broken JSON can be stored and met. A request that reads
  before its transaction gets an earlier database as a separate argument (\<open>pre\<close>, \<open>snap\<close>, \<open>stale\<close>); what
  others do between two accesses is an argument too (\<open>sy_between\<close>, \<open>sy_wait\<close>, \<open>dl_between\<close>). The theorems
  then assume of it only that it made steps of the system (\<open>db_step\<close>), or still less: rows read earlier need only
  be where they were, unless they are gone (\<open>recalls\<close>), and a delegation allows for recoveries and deletions of
  other sessions as well (\<open>stays\<close>). Identifiers, random numbers, the
  clock and the libraries the code calls (\<open>net_lib\<close> for IDNA and address syntax, \<open>api_lib\<close> for chrono and
  the digest, \<open>dl_env\<close> for the JSON-schema validator and the file system, \<open>wiki_env\<close> for Unicode case) are
  arguments. SQLite's statements are modelled, not the row locks of the Postgres twin.

  \<^bold>\<open>The core: sessions and their commands.\<close>
  \<open>Resolution\<close> (\<open>resolution.rs\<close>): how questions, answers and the markers that settle them are written into
  events and read back, with the size limit of a marker. \<open>Events\<close>, \<open>Task_Queue\<close>, \<open>Sessions\<close>,
  \<open>Executions\<close> (\<open>db/*.rs\<close>): the statements on each table; \<open>Task_Queue\<close> has the locale \<open>inbox\<close>, the
  laws of a per-session queue, interpreted on the statements. \<open>Transition\<close> with its \<open>_Facts\<close> and \<open>_Props\<close>
  (\<open>services/transition.rs\<close>): the one function that changes the state of a session, for each action
  (messages, desired state, executor reports, recovery) and what it does to parent, queue and log.
  \<open>Relations\<close>: what no step may do: rows never vanish, outcomes are final, the log is only appended to, with
  ascending identifiers that may have gaps, since a duplicate message uses one up; its locales carry a relation through a transaction. \<open>Reconciler\<close> (\<open>services/reconciler.rs\<close>): from the
  state of a session to the command for its worker. \<open>Cascade\<close>: ending a subtree; the recursion has fuel,
  and as many units as there are sessions suffice, since every call goes down the tree of parents.
  \<open>Worker_Sync\<close> (\<open>services/sync\<close>): the endpoint workers poll: acknowledgements, results, messages with
  deduplication, and the next command. \<open>Supervisor\<close>, \<open>Node\<close>, \<open>Liveness\<close> (\<open>supervisor.rs\<close>,
  \<open>app\<close>, \<open>main.rs\<close>): worker processes, heartbeats and the periodic tick. \<open>Lifecycle\<close>: all of these as
  one step relation on a node (\<open>sys_step\<close>), with the invariant of every reachable state. Recoveries, which take an
  outcome back, and deletions of children, which take rows and events back, are no steps: a \<open>life\<close> interleaves
  them with the steps and marks each, and the properties of lives say what holds up to those marks.
  \<open>Restart_Park\<close>: what is stopped at boot.
  \<open>Session_Routes\<close> (\<open>api/sessions.rs\<close>): the user terminates, recovers or continues a session;
  \<open>Session_Routes_Facts\<close>, \<open>Recovery_Facts\<close> and \<open>Deletion_Facts\<close> show what each keeps, \<open>Session_Routes_Props\<close>,
  \<open>Continue_Props\<close> and \<open>Terminate_Props\<close> what each does, and that two continuations of one session can
  be given the same worktree.

  \<^bold>\<open>Talking to agents and users.\<close>
  \<open>Agent_Auth\<close>, \<open>Messaging\<close> (\<open>api/auth.rs\<close>, \<open>services/messaging.rs\<close>, \<open>api/messages.rs\<close>): who a request is
  from, hierarchical names and delivery by name. \<open>Escalation\<close> and \<open>Decisions\<close> (\<open>api/escalate.rs\<close>,
  \<open>api/decisions.rs\<close>, parts of \<open>api/sessions.rs\<close>): questions to the user, their list with its validator,
  their history in pages. \<open>Briefing\<close> and \<open>Delegation\<close> (\<open>services/briefing.rs\<close>, \<open>slugs.rs\<close>,
  \<open>api/mcp_tools.rs\<close>): the tools by which an agent starts and releases child sessions;
  \<open>Delegation_Props\<close>: what a delegation did, and how many of those that race are let in.

  \<^bold>\<open>Policies.\<close>
  \<open>Sandbox_Policy\<close>; \<open>Text\<close>, \<open>Ip_Text\<close>, \<open>Network_Entry\<close>, \<open>Network_Ceiling\<close>, \<open>Network_Props\<close>
  (\<open>services/network_policy\<close>): the grammar of network entries down to the printing of IPv6 addresses, and
  the ceiling of an execution in its three representations; \<open>Ceiling_Service\<close>: changing it.

  \<^bold>\<open>The wiki.\<close>
  \<open>Wiki_Store\<close> (\<open>db/wiki.rs\<close>, \<open>db/wiki_sharing.rs\<close>, \<open>db/projects.rs\<close>): pages, revisions, tags and the
  memberships of projects in tags. \<open>Wiki_Pages\<close>: every write as one transaction. \<open>Wiki_Edits\<close>,
  \<open>Wiki_Api\<close>, \<open>Wiki_Tags\<close> (\<open>api/wiki.rs\<close>, \<open>api/wiki_auth.rs\<close>, \<open>api/wiki_tags.rs\<close>): edits of a body, who
  may read and write which page, the routes. \<open>Wiki_Facts\<close> has the invariant and the abstraction to
  versioned documents, \<open>Wiki_Run\<close> the routes as one step relation. \<open>Wiki_Props\<close> shows that a change refines a versioned
  document and that versions stay, \<open>Wiki_Edits_Props\<close> when edits apply, \<open>Wiki_Access\<close> with its \<open>_Props\<close>
  that no write exposes pages unasked, \<open>Wiki_Lists\<close> that a list shows what its reader may read, and
  \<open>Wiki_Admission\<close> the same for the admission of a project to a tag; \<open>Wiki_Demo\<close> has the example.

  \<^bold>\<open>What the lemmas show.\<close>
  \<open>Relations\<close>, \<open>Transition_Facts\<close>, \<open>Reconciler_Facts\<close> and \<open>Worker_Sync_Facts\<close> prove once per operation that
  it is a step; \<open>Lifecycle\<close> composes them. The \<open>_Props\<close> theories and the ends of the others hold the
  properties, each with its number and a witness that evaluates it on concrete tables.

  \<^bold>\<open>Not modelled.\<close>
  The processes themselves: the worker's executors (\<open>src/worker/src/executor\<close>, \<open>acp\<close>) and its main loop
  drive child processes and their protocols asynchronously. HTTP framing, server-sent events and
  broadcasts, which carry no state; migrations and backfills; the search index (tantivy); static assets;
  the remaining routes that only read and format (\<open>api/executions.rs\<close>, \<open>api/types.rs\<close>,
  \<open>api/agents.rs\<close>, drivers, configuration, model catalogue). Of the modelled parts: failed
  database calls other than missing rows and violated constraints, rows that cannot be decoded, and what
  \<open>api/sessions.rs\<close> shows of a session. On Postgres a transaction that is rolled back uses up identifiers of the log
  too; the model has SQLite's. The routes on messages enter \<open>Lifecycle\<close> through their transitions, a delegation
  through its insert, its commit and its deletion, questions and dismissals as they are; the wiki has a step relation
  of its own. A recovery or a
  deletion is not placed between two transactions of one worker's request.
\<close>

end
